(* ===== verification/Prelude.thy ===== *)
theory Prelude
  imports Main "HOL-Library.Char_ord" "HOL-Library.List_Lexorder"
    "HOL-Library.Product_Lexorder" "HOL-Library.Signed_Division"
begin

text \<open>
  The vocabulary the component theories share: results with Go's \<open>error\<close> as the left
  summand, Go's fixed-width integers, instants and durations, decimal rendering, and the
  list lemmas behind every table update. Nothing here is about one component.
\<close>

named_theorems table_simps "how a row update changes totals and keys of a table"
named_theorems res_rules "introduction rules that walk through a chain of fallible steps"

section \<open>Fallible steps\<close>

text \<open>
  A Go function returning \<open>(T, error)\<close> is a value of \<open>'e + 't\<close>: \<open>Inl\<close> carries the
  error, \<open>Inr\<close> the result. \<open>res_bind\<close> is the \<open>if err != nil { return err }\<close> that follows
  each call.
\<close>

fun res_bind :: "'e + 'a \<Rightarrow> ('a \<Rightarrow> 'e + 'b) \<Rightarrow> 'e + 'b" where
  "res_bind (Inl e) f = Inl e"
| "res_bind (Inr x) f = f x"

fun res_ok :: "('a \<Rightarrow> bool) \<Rightarrow> 'e + 'a \<Rightarrow> bool" where
  "res_ok P (Inl e) = True"
| "res_ok P (Inr x) = P x"

lemma res_bind_assoc: "res_bind (res_bind m f) g = res_bind m (\<lambda>x. res_bind (f x) g)"
  by (cases m) auto

lemma res_bind_Inr_right [simp]: "res_bind m Inr = m"
  by (cases m) auto

lemma res_bind_eq_Inr [simp]:
  "res_bind m f = Inr y \<longleftrightarrow> (\<exists>x. m = Inr x \<and> f x = Inr y)"
  by (cases m) auto

lemma res_bind_cong [fundef_cong]:
  "m = m' \<Longrightarrow> (\<And>x. m' = Inr x \<Longrightarrow> f x = f' x) \<Longrightarrow> res_bind m f = res_bind m' f'"
  by (cases m') auto

lemma res_okI: "(\<And>x. m = Inr x \<Longrightarrow> P x) \<Longrightarrow> res_ok P m"
  by (cases m) auto

lemma res_okD: "res_ok P m \<Longrightarrow> m = Inr x \<Longrightarrow> P x"
  by auto

lemma res_ok_iff: "res_ok P m \<longleftrightarrow> (\<forall>x. m = Inr x \<longrightarrow> P x)"
  by (cases m) auto

lemma res_ok_bind [res_rules]:
  "res_ok Q m \<Longrightarrow> (\<And>x. Q x \<Longrightarrow> res_ok P (f x)) \<Longrightarrow> res_ok P (res_bind m f)"
  by (cases m) auto

lemma res_ok_if [res_rules]:
  "(c \<Longrightarrow> res_ok P a) \<Longrightarrow> (\<not> c \<Longrightarrow> res_ok P b) \<Longrightarrow> res_ok P (if c then a else b)"
  by simp

lemma res_ok_mono: "res_ok P m \<Longrightarrow> (\<And>x. P x \<Longrightarrow> Q x) \<Longrightarrow> res_ok Q m"
  by (cases m) auto

section \<open>Go integers\<close>

text \<open>
  Go's \<open>int64\<close> (and \<open>int\<close> on the 64-bit targets this program is built for) and
  \<open>int32\<close> wrap around silently. The models keep the values as HOL integers and write the
  wrap at each arithmetic operation that the code performs at that width.
\<close>

definition i64 :: "int \<Rightarrow> int" where
  "i64 x = (x + 9223372036854775808) mod 18446744073709551616 - 9223372036854775808"

definition i32 :: "int \<Rightarrow> int" where
  "i32 x = (x + 2147483648) mod 4294967296 - 2147483648"

definition in_i64 :: "int \<Rightarrow> bool" where
  "in_i64 x \<longleftrightarrow> - 9223372036854775808 \<le> x \<and> x < 9223372036854775808"

definition in_i32 :: "int \<Rightarrow> bool" where
  "in_i32 x \<longleftrightarrow> - 2147483648 \<le> x \<and> x < 2147483648"

lemma i64_id [simp]: "in_i64 x \<Longrightarrow> i64 x = x"
  by (simp add: i64_def in_i64_def)

lemma i32_id [simp]: "in_i32 x \<Longrightarrow> i32 x = x"
  by (simp add: i32_def in_i32_def)

lemma in_i64_i64 [simp]: "in_i64 (i64 x)"
proof -
  have "0 \<le> (x + 9223372036854775808) mod 18446744073709551616"
    and "(x + 9223372036854775808) mod 18446744073709551616 < 18446744073709551616"
    by simp_all
  then show ?thesis unfolding i64_def in_i64_def by linarith
qed

lemma in_i32_i32 [simp]: "in_i32 (i32 x)"
proof -
  have "0 \<le> (x + 2147483648) mod 4294967296"
    and "(x + 2147483648) mod 4294967296 < 4294967296"
    by simp_all
  then show ?thesis unfolding i32_def in_i32_def by linarith
qed

text \<open>
  The check \<open>balance + delta < 0\<close> of the ledger catches an overflow too: two operands in
  range, the first not negative, can only overflow upwards, and the wrapped sum is negative.
\<close>

lemma i64_add_nonneg:
  assumes "in_i64 a" "in_i64 b" "0 \<le> a" "0 \<le> i64 (a + b)"
  shows "i64 (a + b) = a + b"
proof (cases "a + b < 9223372036854775808")
  case True
  with assms show ?thesis by (intro i64_id) (auto simp: in_i64_def)
next
  case False
  with assms(1,2,3) have "i64 (a + b) = a + b - 18446744073709551616"
    unfolding i64_def in_i64_def
    by (subst int_mod_pos_eq [of _ _ 1 "a + b + 9223372036854775808 - 18446744073709551616"]) auto
  with assms(1,2) have "i64 (a + b) < 0" by (simp add: in_i64_def)
  with assms(4) show ?thesis by simp
qed

text \<open>Go's \<open>/\<close> truncates towards zero; it is the library's \<open>sdiv\<close> on integers.\<close>

lemma sdiv_nonneg [simp]: "0 \<le> (a::int) \<Longrightarrow> 0 < b \<Longrightarrow> a sdiv b = a div b"
  by (cases "a = 0") (simp_all add: signed_divide_int_def)

section \<open>Instants and durations\<close>

text \<open>
  A \<open>time.Time\<close> is the number of nanoseconds since the Unix epoch (an instant; Go keeps
  seconds and nanoseconds apart and does not wrap in any range used here). A
  \<open>time.Duration\<close> is an \<open>int64\<close> of nanoseconds. \<open>Time.Sub\<close> saturates.
\<close>

type_synonym instant = int
type_synonym duration = int

definition nanosecond :: duration where "nanosecond = 1"
definition second :: duration where "second = 1000000000"
definition minute :: duration where "minute = 60000000000"
definition hour :: duration where "hour = 3600000000000"

lemmas duration_defs = nanosecond_def second_def minute_def hour_def

definition time_add :: "instant \<Rightarrow> duration \<Rightarrow> instant" where
  "time_add t d = t + d"

definition time_sub :: "instant \<Rightarrow> instant \<Rightarrow> duration" where
  "time_sub t u = max (- 9223372036854775808) (min 9223372036854775807 (t - u))"

definition time_after :: "instant \<Rightarrow> instant \<Rightarrow> bool" where
  "time_after t u \<longleftrightarrow> u < t"

definition time_before :: "instant \<Rightarrow> instant \<Rightarrow> bool" where
  "time_before t u \<longleftrightarrow> t < u"

lemmas time_defs = time_add_def time_sub_def time_after_def time_before_def

lemma in_i64_time_sub [simp]: "in_i64 (time_sub t u)"
  by (auto simp: time_sub_def in_i64_def)

type_synonym uuid = string

text \<open>A \<open>timestamptz\<close> keeps microseconds: \<open>ts\<close> is the value stored for an instant.\<close>

definition ts :: "instant \<Rightarrow> instant" where
  "ts t = (t div 1000) * 1000"

lemma ts_le [simp]: "ts t \<le> t"
  by (simp add: ts_def)

lemma ts_mono: "t \<le> u \<Longrightarrow> ts t \<le> ts u"
  by (simp add: ts_def zdiv_mono1)

lemma ts_ts [simp]: "ts (ts t) = ts t"
  by (simp add: ts_def)

section \<open>Text\<close>

text \<open>Decimal rendering, as \<open>%d\<close> and \<open>strconv.FormatInt\<close> produce it.\<close>

fun digits_of_nat :: "nat \<Rightarrow> string" where
  "digits_of_nat n =
     (if n < 10 then [char_of (48 + n)] else digits_of_nat (n div 10) @ [char_of (48 + n mod 10)])"

declare digits_of_nat.simps [simp del]

definition string_of_int :: "int \<Rightarrow> string" where
  "string_of_int i = (if i < 0 then CHR ''-'' # digits_of_nat (nat (- i)) else digits_of_nat (nat i))"

fun has_prefix :: "string \<Rightarrow> string \<Rightarrow> bool" where
  "has_prefix [] s = True"
| "has_prefix (p # ps) [] = False"
| "has_prefix (p # ps) (c # cs) = (p = c \<and> has_prefix ps cs)"

lemma has_prefix_iff: "has_prefix p s \<longleftrightarrow> (\<exists>r. s = p @ r)"
  by (induction p s rule: has_prefix.induct) auto

text \<open>
  \<open>strconv.ParseInt(s, 10, 64)\<close>: an optional sign, at least one digit, nothing else, and
  a value in range; everything else is an error.
\<close>

definition is_digit :: "char \<Rightarrow> bool" where
  "is_digit c \<longleftrightarrow> 48 \<le> (of_char c :: nat) \<and> (of_char c :: nat) \<le> 57"

fun nat_of_digits :: "nat \<Rightarrow> string \<Rightarrow> nat" where
  "nat_of_digits acc [] = acc"
| "nat_of_digits acc (c # cs) = nat_of_digits (10 * acc + (of_char c - 48)) cs"

definition parse_digits :: "string \<Rightarrow> nat option" where
  "parse_digits s = (if s \<noteq> [] \<and> list_all is_digit s then Some (nat_of_digits 0 s) else None)"

definition parse_int :: "string \<Rightarrow> int option" where
  "parse_int s =
     (let (neg, ds) = (case s of [] \<Rightarrow> (False, [])
        | c # cs \<Rightarrow> if c = CHR ''-'' then (True, cs) else if c = CHR ''+'' then (False, cs) else (False, s))
      in case parse_digits ds of None \<Rightarrow> None
         | Some n \<Rightarrow> let i = (if neg then - int n else int n) in if in_i64 i then Some i else None)"

lemma is_digit_char_of [simp]: "d < 10 \<Longrightarrow> is_digit (char_of (48 + d :: nat))"
  by (simp add: is_digit_def)

lemma nat_of_digits_append:
  "nat_of_digits acc (xs @ ys) = nat_of_digits (nat_of_digits acc xs) ys"
  by (induction xs arbitrary: acc) auto

lemma digits_of_nat_props:
  "digits_of_nat n \<noteq> [] \<and> list_all is_digit (digits_of_nat n) \<and> nat_of_digits 0 (digits_of_nat n) = n"
proof (induction n rule: digits_of_nat.induct)
  case (1 n)
  show ?case
  proof (cases "n < 10")
    case True
    then show ?thesis by (simp add: digits_of_nat.simps [of n])
  next
    case False
    with 1 have "digits_of_nat (n div 10) \<noteq> []" "list_all is_digit (digits_of_nat (n div 10))"
      "nat_of_digits 0 (digits_of_nat (n div 10)) = n div 10" by auto
    with False show ?thesis
      by (simp add: digits_of_nat.simps [of n] nat_of_digits_append)
  qed
qed

lemma parse_digits_of_nat [simp]: "parse_digits (digits_of_nat n) = Some n"
  using digits_of_nat_props [of n] by (simp add: parse_digits_def)

lemma parse_int_string_of_int [simp]:
  assumes "in_i64 i"
  shows "parse_int (string_of_int i) = Some i"
proof (cases "i < 0")
  case True
  with assms show ?thesis by (simp add: parse_int_def string_of_int_def)
next
  case False
  obtain c cs where ds: "digits_of_nat (nat i) = c # cs" and "is_digit c"
    using digits_of_nat_props [of "nat i"] by (cases "digits_of_nat (nat i)") auto
  then have "c \<noteq> CHR ''-''" "c \<noteq> CHR ''+''" by (auto simp: is_digit_def)
  moreover have "parse_digits (c # cs) = Some (nat i)" by (simp flip: ds)
  ultimately show ?thesis using False assms ds
    by (simp add: parse_int_def string_of_int_def)
qed

text \<open>
  The \<open>strings\<close> functions the code uses. Case folding and white space are those of ASCII;
  a string is its bytes, so a multi-byte character is never split by them.
\<close>

definition is_space :: "char \<Rightarrow> bool" where
  "is_space c \<longleftrightarrow> c \<in> set [CHR '' '', CHR 0x09, CHR 0x0A, CHR 0x0B, CHR 0x0C, CHR 0x0D]"

definition blank :: "string \<Rightarrow> bool" where
  "blank s \<longleftrightarrow> list_all is_space s"

definition trim_space :: "string \<Rightarrow> string" where
  "trim_space s = rev (dropWhile is_space (rev (dropWhile is_space s)))"

definition trim_prefix :: "string \<Rightarrow> string \<Rightarrow> string" where
  "trim_prefix p s = (if has_prefix p s then drop (length p) s else s)"

definition lower_char :: "char \<Rightarrow> char" where
  "lower_char c = (if 65 \<le> (of_char c :: nat) \<and> (of_char c :: nat) \<le> 90 then char_of (of_char c + 32 :: nat) else c)"

definition to_lower :: "string \<Rightarrow> string" where
  "to_lower s = map lower_char s"

fun split_on :: "char \<Rightarrow> string \<Rightarrow> string list" where
  "split_on d [] = [[]]"
| "split_on d (c # cs) =
     (if c = d then [] # split_on d cs
      else case split_on d cs of [] \<Rightarrow> [[c]] | w # ws \<Rightarrow> (c # w) # ws)"

text \<open>\<open>strings.Cut\<close> at a one-character separator.\<close>

definition cut_at :: "char \<Rightarrow> string \<Rightarrow> (string \<times> string) option" where
  "cut_at d s = (case dropWhile (\<lambda>c. c \<noteq> d) s of [] \<Rightarrow> None
     | _ # rest \<Rightarrow> Some (takeWhile (\<lambda>c. c \<noteq> d) s, rest))"

lemma split_on_plain: "d \<notin> set w \<Longrightarrow> split_on d w = [w]"
  by (induction w) auto

lemma split_on_append: "d \<notin> set w \<Longrightarrow> split_on d (w @ d # s) = w # split_on d s"
  by (induction w) auto

lemma trim_space_plain:
  assumes "list_all (\<lambda>c. \<not> is_space c) s"
  shows "trim_space s = s"
proof -
  have d: "dropWhile is_space xs = xs" if "list_all (\<lambda>c. \<not> is_space c) xs" for xs
    using that by (cases xs) auto
  from assms have "list_all (\<lambda>c. \<not> is_space c) (rev s)" by simp
  with assms d show ?thesis by (simp add: trim_space_def)
qed

section \<open>Tables\<close>

text \<open>
  A database table is the list of its rows. \<open>update_where\<close> is SQL's
  \<open>UPDATE ... WHERE\<close>, \<open>sum_where\<close> is \<open>SUM(f) ... WHERE\<close>.
\<close>

definition update_where :: "('r \<Rightarrow> bool) \<Rightarrow> ('r \<Rightarrow> 'r) \<Rightarrow> 'r list \<Rightarrow> 'r list" where
  "update_where p f rows = map (\<lambda>r. if p r then f r else r) rows"

definition sum_where :: "('r \<Rightarrow> bool) \<Rightarrow> ('r \<Rightarrow> int) \<Rightarrow> 'r list \<Rightarrow> int" where
  "sum_where p f rows = sum_list (map f (filter p rows))"

lemma update_where_Nil [simp]: "update_where p f [] = []"
  by (simp add: update_where_def)

lemma update_where_Cons [simp]:
  "update_where p f (r # rs) = (if p r then f r else r) # update_where p f rs"
  by (simp add: update_where_def)

lemma length_update_where [simp]: "length (update_where p f rows) = length rows"
  by (simp add: update_where_def)

lemma set_update_where:
  "set (update_where p f rows) = {f r |r. r \<in> set rows \<and> p r} \<union> {r \<in> set rows. \<not> p r}"
  by (auto simp: update_where_def)

lemma update_where_none: "(\<And>r. r \<in> set rows \<Longrightarrow> \<not> p r) \<Longrightarrow> update_where p f rows = rows"
  by (induction rows) auto

lemma map_update_where [table_simps]:
  "(\<And>r. p r \<Longrightarrow> k (f r) = k r) \<Longrightarrow> map k (update_where p f rows) = map k rows"
  by (simp add: update_where_def)

lemma sum_where_Nil [simp]: "sum_where p f [] = 0"
  by (simp add: sum_where_def)

lemma sum_where_Cons [simp]: "sum_where p f (r # rs) = (if p r then f r else 0) + sum_where p f rs"
  by (simp add: sum_where_def)

lemma sum_where_append [simp]: "sum_where p f (xs @ ys) = sum_where p f xs + sum_where p f ys"
  by (simp add: sum_where_def)

lemma sum_where_nonneg: "(\<And>r. r \<in> set rows \<Longrightarrow> p r \<Longrightarrow> 0 \<le> f r) \<Longrightarrow> 0 \<le> sum_where p f rows"
  by (induction rows) auto

lemma sum_where_mono:
  "(\<And>r. r \<in> set rows \<Longrightarrow> p r \<Longrightarrow> f r \<le> g r) \<Longrightarrow> sum_where p f rows \<le> sum_where p g rows"
  by (induction rows) (auto intro: add_mono)

lemma sum_where_cong:
  "(\<And>r. r \<in> set rows \<Longrightarrow> p r = q r) \<Longrightarrow> (\<And>r. r \<in> set rows \<Longrightarrow> q r \<Longrightarrow> f r = g r)
    \<Longrightarrow> sum_where p f rows = sum_where q g rows"
  by (induction rows) auto

lemma sum_where_ge_member:
  "r \<in> set rows \<Longrightarrow> p r \<Longrightarrow> (\<And>x. x \<in> set rows \<Longrightarrow> p x \<Longrightarrow> 0 \<le> f x) \<Longrightarrow> f r \<le> sum_where p f rows"
proof (induction rows)
  case Nil
  then show ?case by simp
next
  case (Cons x xs)
  have "0 \<le> sum_where p f xs" using Cons.prems(3) by (intro sum_where_nonneg) auto
  with Cons show ?case by fastforce
qed

text \<open>Updating the one row with key \<open>k\<close> moves a total by the difference on that row.\<close>

lemma sum_where_update_key:
  assumes "distinct (map key rows)" "r \<in> set rows"
  shows "sum_where p f (update_where (\<lambda>x. key x = key r) u rows) =
    sum_where p f rows - (if p r then f r else 0) + (if p (u r) then f (u r) else 0)"
  using assms
proof (induction rows)
  case Nil
  then show ?case by simp
next
  case (Cons x xs)
  show ?case
  proof (cases "x = r")
    case True
    with Cons.prems have "update_where (\<lambda>y. key y = key r) u xs = xs"
      by (intro update_where_none) (metis distinct.simps(2) image_eqI list.set_map list.simps(9))
    with True show ?thesis by simp
  next
    case False
    with Cons.prems have "r \<in> set xs" "key x \<noteq> key r" by auto
    with Cons show ?thesis by auto
  qed
qed

lemma distinct_key_unique:
  "distinct (map key rows) \<Longrightarrow> r \<in> set rows \<Longrightarrow> s \<in> set rows \<Longrightarrow> key r = key s \<Longrightarrow> r = s"
  by (auto simp: distinct_map inj_on_def)

lemma find_update_where:
  "(\<And>r. P (f r) = P r) \<Longrightarrow> find P (update_where q f rows) = map_option (\<lambda>r. if q r then f r else r) (find P rows)"
  by (induction rows) auto

lemma find_snoc: "find P (xs @ [x]) = (case find P xs of Some y \<Rightarrow> Some y | None \<Rightarrow> if P x then Some x else None)"
  by (induction xs) auto

lemma find_Some_iff_key:
  assumes "distinct (map key rows)"
  shows "find (\<lambda>x. key x = k) rows = Some r \<longleftrightarrow> r \<in> set rows \<and> key r = k"
  using assms by (induction rows) auto

lemma find_SomeD: "find p xs = Some x \<Longrightarrow> x \<in> set xs \<and> p x"
  by (induction xs) (auto split: if_splits)

lemma find_NoneD: "find p xs = None \<Longrightarrow> x \<in> set xs \<Longrightarrow> \<not> p x"
  by (induction xs) (auto split: if_splits)

lemma find_append: "find p (xs @ ys) = (case find p xs of None \<Rightarrow> find p ys | Some x \<Rightarrow> Some x)"
  by (induction xs) auto

section \<open>Nullable columns\<close>

definition null_text :: "string \<Rightarrow> string option" where
  "null_text s = (if s = [] then None else Some s)"

definition text_or_empty :: "string option \<Rightarrow> string" where
  "text_or_empty o' = (case o' of None \<Rightarrow> [] | Some s \<Rightarrow> s)"

lemma null_text_text_or_empty [simp]: "text_or_empty (null_text s) = s"
  by (simp add: null_text_def text_or_empty_def)

end
