(* ===== verification/Calendar.thy ===== *)
theory Calendar
  imports Prelude
begin

text \<open>
  The part of Go's \<open>time\<close> package the billing windows use: the proleptic Gregorian calendar
  of UTC instants and \<open>Time.AddDate(0, k, 0)\<close>, which adds months and lets a day that the month
  does not have run over into the next one; and the quota window of
  \<open>modules/billing/service.go\<close>, with the proof that its loop ends.
\<close>

definition day :: duration where "day = 86400000000000"

definition days_from_civil :: "int \<Rightarrow> int \<Rightarrow> int \<Rightarrow> int" where
  "days_from_civil y m d =
     (let y' = (if m \<le> 2 then y - 1 else y);
          era = y' div 400; yoe = y' mod 400;
          doy = (153 * (if m > 2 then m - 3 else m + 9) + 2) div 5 + d - 1;
          doe = yoe * 365 + yoe div 4 - yoe div 100 + doy in
      era * 146097 + doe - 719468)"

definition civil_from_days :: "int \<Rightarrow> int \<times> int \<times> int" where
  "civil_from_days n =
     (let z = n + 719468; era = z div 146097; doe = z mod 146097;
          yoe = (doe - doe div 1460 + doe div 36524 - doe div 146096) div 365;
          doy = doe - (365 * yoe + yoe div 4 - yoe div 100);
          mp = (5 * doy + 2) div 153;
          d = doy - (153 * mp + 2) div 5 + 1;
          m = (if mp < 10 then mp + 3 else mp - 9);
          y = yoe + era * 400 in
      (if m \<le> 2 then y + 1 else y, m, d))"

definition add_months :: "instant \<Rightarrow> int \<Rightarrow> instant" where
  "add_months t k =
     (let (y, m, d) = civil_from_days (t div day); n = m - 1 + k in
      (days_from_civil (y + n div 12) (n mod 12 + 1) 1 + d - 1) * day + t mod day)"

text \<open>\<open>Truncate(24 * time.Hour)\<close> on a UTC instant.\<close>

definition utc_day :: "instant \<Rightarrow> instant" where
  "utc_day t = (t div day) * day"

lemma calendar_samples:
  "days_from_civil 1970 1 1 = 0" "days_from_civil 2024 2 29 = 19782"
  "civil_from_days 19782 = (2024, 2, 29)"
  "add_months (19753 * day + 5) 1 = 19784 * day + 5"
  by code_simp+

text \<open>A month far enough ahead starts after any given day.\<close>

lemma days_from_civil_ge:
  assumes "1 \<le> m" "m \<le> 12" "1 \<le> y"
  shows "365 * (y - 1) - 719468 \<le> days_from_civil y m 1"
proof -
  define y' where "y' = (if m \<le> 2 then y - 1 else y)"
  have y': "0 \<le> y'" "y - 1 \<le> y'" using assms by (auto simp: y'_def)
  have e: "0 \<le> y' div 400" using y' by (simp add: pos_imp_zdiv_nonneg_iff)
  have "y' = 400 * (y' div 400) + y' mod 400" by simp
  moreover have "y' mod 400 div 100 \<le> y' mod 400 div 4" by (intro zdiv_mono2) auto
  moreover have "0 \<le> (153 * (if m > 2 then m - 3 else m + 9) + 2) div 5"
    using assms by (simp add: pos_imp_zdiv_nonneg_iff)
  ultimately have "365 * y' \<le> y' div 400 * 146097 + (y' mod 400 * 365 + y' mod 400 div 4 - y' mod 400 div 100 +
      ((153 * (if m > 2 then m - 3 else m + 9) + 2) div 5 + 1 - 1))"
    using e by linarith
  moreover have "365 * (y - 1) \<le> 365 * y'" using y' by simp
  ultimately show ?thesis unfolding days_from_civil_def Let_def y'_def [symmetric]
    by (intro diff_right_mono) (rule order_trans)
qed

definition months_bound :: "instant \<Rightarrow> instant \<Rightarrow> int" where
  "months_bound start now =
     (let (y, m, d) = civil_from_days (start div day) in
      12 * (max 0 (now div day + 719470 - d) + 2 - y) + 1 - m)"

lemma civil_arith:
  assumes "(a::int) + 719470 - d \<le> N" "0 \<le> N" "N + 2 \<le> q" "365 * (q - 1) - 719468 \<le> p"
  shows "a + 1 \<le> p + d - 1"
proof -
  have "q - 1 \<le> 365 * (q - 1)" using assms by simp
  then show ?thesis using assms by linarith
qed

lemma add_months_beyond:
  assumes "months_bound start now \<le> k"
  shows "now < add_months start k"
proof -
  obtain y m d where c: "civil_from_days (start div day) = (y, m, d)" by (metis prod_cases3)
  let ?N = "max 0 (now div day + 719470 - d)"
  let ?n = "m - 1 + k"
  have "12 * (?N + 2 - y) \<le> ?n" using assms c by (simp add: months_bound_def)
  then have "12 * (?N + 2 - y) div 12 \<le> ?n div 12" by (rule zdiv_mono1) simp
  then have Y: "?N + 2 \<le> y + ?n div 12" by simp
  have "365 * (y + ?n div 12 - 1) - 719468 \<le> days_from_civil (y + ?n div 12) (?n mod 12 + 1) 1"
    using Y by (intro days_from_civil_ge) (auto simp: pos_mod_bound add1_zle_eq)
  moreover have "0 \<le> ?N" "now div day + 719470 - d \<le> ?N" by auto
  ultimately have D: "now div day + 1 \<le> days_from_civil (y + ?n div 12) (?n mod 12 + 1) 1 + d - 1"
    using Y by (intro civil_arith [of _ d ?N "y + ?n div 12"])
  have dp: "0 < day" by (simp add: day_def)
  have "now < (now div day + 1) * day"
    using dp by (metis add.commute div_mult_mod_eq distrib_right mult.commute mult_1 add_strict_left_mono pos_mod_bound)
  also have "\<dots> \<le> (days_from_civil (y + ?n div 12) (?n mod 12 + 1) 1 + d - 1) * day"
    using D dp by (intro mult_right_mono) auto
  also have "\<dots> \<le> add_months start k" using dp c by (simp add: add_months_def Let_def)
  finally show ?thesis .
qed

section \<open>The quota window\<close>

text \<open>
  The loop of \<open>quotaWindowStart\<close>: \<open>w\<close> is the window before \<open>k\<close> months after \<open>start\<close>.
\<close>

function quota_loop :: "instant \<Rightarrow> instant \<Rightarrow> int \<Rightarrow> instant \<Rightarrow> instant" where
  "quota_loop start now k w =
     (let next_start = add_months start k in
      if time_after next_start now then w else quota_loop start now (k + 1) next_start)"
  by pat_completeness auto
termination
proof (relation "measure (\<lambda>(start, now, k, w). nat (months_bound start now - k))", goal_cases)
  case 1
  show ?case by simp
next
  case (2 start now k w x)
  then have "\<not> now < add_months start k" by (simp add: time_after_def)
  then have "k < months_bound start now" using add_months_beyond by (meson not_le)
  then show ?case by simp
qed

declare quota_loop.simps [simp del]

definition quota_window_start :: "instant \<Rightarrow> instant \<Rightarrow> instant" where
  "quota_window_start start now = quota_loop start now 1 start"

definition month_start :: "instant \<Rightarrow> int \<Rightarrow> instant" where
  "month_start start k = (if k = 0 then start else add_months start k)"

lemma quota_loop_window:
  assumes "1 \<le> k" "w = month_start start (k - 1)" "w \<le> now"
  shows "\<exists>j \<ge> k - 1. quota_loop start now k w = month_start start j \<and> month_start start j \<le> now \<and>
    now < add_months start (j + 1)"
  using assms
proof (induction start now k w rule: quota_loop.induct)
  case (1 start now k w)
  show ?case
  proof (cases "time_after (add_months start k) now")
    case True
    then have "quota_loop start now k w = w" by (simp add: quota_loop.simps [of start now k])
    with True "1.prems" show ?thesis by (intro exI [of _ "k - 1"]) (simp add: time_after_def)
  next
    case False
    then have e: "quota_loop start now k w = quota_loop start now (k + 1) (add_months start k)"
      by (simp add: quota_loop.simps [of start now k])
    have "add_months start k = month_start start (k + 1 - 1)" "add_months start k \<le> now" "1 \<le> k + 1"
      using False "1.prems" by (auto simp: month_start_def time_after_def)
    from "1.IH" [OF refl False this(3,1,2)] obtain j where "j \<ge> k + 1 - 1"
      "quota_loop start now (k + 1) (add_months start k) = month_start start j" "month_start start j \<le> now"
      "now < add_months start (j + 1)" by blast
    then show ?thesis using e by (intro exI [of _ j]) simp
  qed
qed

text \<open>
  C26. For a subscription whose period has started, the quota window is the monthly slice the
  clock is in: it starts a whole number of months after the period start, not later than now,
  and the next month after it has not begun.
\<close>

theorem quota_window_is_current_month:
  assumes "start \<le> now"
  shows "\<exists>j \<ge> 0. quota_window_start start now = month_start start j \<and>
    quota_window_start start now \<le> now \<and> now < add_months start (j + 1)"
  using quota_loop_window [of 1 start start now] assms
  by (auto simp: quota_window_start_def month_start_def)

lemma quota_window_is_current_month_witness:
  "\<exists>j \<ge> 0. quota_window_start (30 * day) (100 * day) = month_start (30 * day) j \<and> 100 * day < add_months (30 * day) (j + 1)"
  using quota_window_is_current_month [of "30 * day" "100 * day"] by (auto simp: day_def)

end
