(* ===== verification/AppError.thy ===== *)
theory AppError
  imports Prelude
begin

text \<open>
  \<open>internal/platform/apperror\<close>: the sentinel errors, the coded errors a client branches on,
  and the two boundary mappings (error to gRPC status, gRPC status to HTTP status). Every
  other component's errors are values of \<open>go_error\<close>.
\<close>

section \<open>Errors\<close>

text \<open>The sentinels of \<open>apperror.go\<close>.\<close>

datatype sentinel =
    ErrNotFound | ErrInvalidInput | ErrUnauthorized | ErrConflict | ErrInternal | ErrForbidden
  | ErrRateLimited | ErrPaymentRequired | ErrUpgradeRequired | ErrUnavailable

fun sentinel_text :: "sentinel \<Rightarrow> string" where
  "sentinel_text ErrNotFound = ''not found''"
| "sentinel_text ErrInvalidInput = ''invalid input''"
| "sentinel_text ErrUnauthorized = ''unauthorized''"
| "sentinel_text ErrConflict = ''conflict''"
| "sentinel_text ErrInternal = ''internal error''"
| "sentinel_text ErrForbidden = ''forbidden''"
| "sentinel_text ErrRateLimited = ''rate limited''"
| "sentinel_text ErrPaymentRequired = ''payment required''"
| "sentinel_text ErrUpgradeRequired = ''upgrade required''"
| "sentinel_text ErrUnavailable = ''unavailable''"

text \<open>
  \<open>CodedError\<close>: a sentinel, a code of the public contract, a sentence, and numbers
  (\<open>Fields\<close>, a Go map; listed here in key order).
\<close>

record coded_error =
  ce_sentinel :: sentinel
  ce_code :: string
  ce_message :: string
  ce_fields :: "(string \<times> int) list"

text \<open>
  An error value: a sentinel, a coded error, a package's own error variable
  (\<open>errors.New\<close>, known by its text), a wrapper made by \<open>fmt.Errorf\<close> with one or more
  \<open>%w\<close> after its prefix, or one whose \<open>%w\<close> comes first (\<open>Annot\<close>). A run-time panic
  unwinds to the recovery interceptor, which reports it as an internal error; it is the
  value \<open>Panic\<close>, and matches no sentinel.
\<close>

datatype go_error =
    Sentinel sentinel
  | Coded coded_error
  | PkgError string
  | Wrap string "go_error list"
  | Annot go_error string
  | Panic string

definition wrap1 :: "string \<Rightarrow> sentinel \<Rightarrow> go_error" where
  "wrap1 msg s = Wrap msg [Sentinel s]"

fun error_text :: "go_error \<Rightarrow> string" where
  "error_text (Sentinel s) = sentinel_text s"
| "error_text (Coded c) = ce_message c @ '': '' @ sentinel_text (ce_sentinel c)"
| "error_text (PkgError s) = s"
| "error_text (Wrap msg es) = msg @ concat (map (\<lambda>e. '': '' @ error_text e) es)"
| "error_text (Annot e msg) = error_text e @ msg"
| "error_text (Panic msg) = ''panic: '' @ msg"

text \<open>\<open>errors.Is\<close> walks the wrapped errors; a coded error unwraps to its sentinel.\<close>

fun errors_is :: "go_error \<Rightarrow> sentinel \<Rightarrow> bool" where
  "errors_is (Sentinel s) x = (s = x)"
| "errors_is (Coded c) x = (ce_sentinel c = x)"
| "errors_is (PkgError s) x = False"
| "errors_is (Wrap msg es) x = list_ex (\<lambda>e. errors_is e x) es"
| "errors_is (Annot e msg) x = errors_is e x"
| "errors_is (Panic msg) x = False"

text \<open>\<open>errors.As(err, &coded)\<close>: the first coded error in the tree, depth first.\<close>

fun errors_as_coded :: "go_error \<Rightarrow> coded_error option" where
  "errors_as_coded (Sentinel s) = None"
| "errors_as_coded (Coded c) = Some c"
| "errors_as_coded (PkgError s) = None"
| "errors_as_coded (Wrap msg es) =
     foldr (\<lambda>e acc. case errors_as_coded e of Some c \<Rightarrow> Some c | None \<Rightarrow> acc) es None"
| "errors_as_coded (Annot e msg) = errors_as_coded e"
| "errors_as_coded (Panic msg) = None"

text \<open>\<open>errors.Is\<close> against a package's own error variable.\<close>

fun errors_is_pkg :: "go_error \<Rightarrow> string \<Rightarrow> bool" where
  "errors_is_pkg (PkgError s) x = (s = x)"
| "errors_is_pkg (Wrap msg es) x = list_ex (\<lambda>e. errors_is_pkg e x) es"
| "errors_is_pkg (Annot e msg) x = errors_is_pkg e x"
| "errors_is_pkg _ x = False"

section \<open>gRPC status\<close>

datatype grpc_code =
    CodeOK | CodeCanceled | CodeUnknown | CodeInvalidArgument | CodeDeadlineExceeded
  | CodeNotFound | CodeAlreadyExists | CodePermissionDenied | CodeResourceExhausted
  | CodeFailedPrecondition | CodeAborted | CodeOutOfRange | CodeUnimplemented | CodeInternal
  | CodeUnavailable | CodeDataLoss | CodeUnauthenticated

record error_info =
  ei_reason :: string
  ei_domain :: string
  ei_metadata :: "(string \<times> string) list"

datatype detail = ErrorInfo error_info | OtherDetail

record grpc_status =
  st_code :: grpc_code
  st_message :: string
  st_details :: "detail list"

definition error_info_domain :: string where
  "error_info_domain = ''tiehere.app''"

definition generic_internal_message :: string where
  "generic_internal_message = ''internal error''"

text \<open>\<open>grpcCode\<close>: the cases in the order of the Go switch.\<close>

definition grpc_code_of :: "go_error \<Rightarrow> grpc_code" where
  "grpc_code_of err =
     (if errors_is err ErrNotFound then CodeNotFound
      else if errors_is err ErrInvalidInput then CodeInvalidArgument
      else if errors_is err ErrUnauthorized then CodeUnauthenticated
      else if errors_is err ErrForbidden then CodePermissionDenied
      else if errors_is err ErrConflict then CodeAlreadyExists
      else if errors_is err ErrRateLimited then CodeResourceExhausted
      else if errors_is err ErrUnavailable then CodeUnavailable
      else if errors_is err ErrPaymentRequired \<or> errors_is err ErrUpgradeRequired
        then CodeFailedPrecondition
      else CodeInternal)"

definition with_error_info :: "grpc_status \<Rightarrow> coded_error \<Rightarrow> grpc_status" where
  "with_error_info st c = st\<lparr>st_details := st_details st @
     [ErrorInfo \<lparr>ei_reason = ce_code c, ei_domain = error_info_domain,
        ei_metadata = map (\<lambda>(k, v). (k, string_of_int v)) (ce_fields c)\<rparr>]\<rparr>"

definition to_grpc_status :: "go_error \<Rightarrow> grpc_status" where
  "to_grpc_status err =
     (let code = grpc_code_of err in
      if code = CodeInternal
      then \<lparr>st_code = code, st_message = generic_internal_message, st_details = []\<rparr>
      else let st = \<lparr>st_code = code, st_message = error_text err, st_details = []\<rparr> in
        case errors_as_coded err of None \<Rightarrow> st | Some c \<Rightarrow> with_error_info st c)"

fun coded_from_details :: "detail list \<Rightarrow> (string \<times> (string \<times> int) list) option" where
  "coded_from_details [] = None"
| "coded_from_details (OtherDetail # ds) = coded_from_details ds"
| "coded_from_details (ErrorInfo i # ds) =
     (if ei_domain i \<noteq> error_info_domain \<or> ei_reason i = [] then coded_from_details ds
      else Some (ei_reason i,
        List.map_filter (\<lambda>(k, v). map_option (Pair k) (parse_int v)) (ei_metadata i)))"

definition coded_from_status :: "grpc_status \<Rightarrow> (string \<times> (string \<times> int) list) option" where
  "coded_from_status st = coded_from_details (st_details st)"

section \<open>HTTP status\<close>

definition code_insufficient_credits :: string where
  "code_insufficient_credits = ''insufficient_credits''"
definition code_credits_debt :: string where "code_credits_debt = ''credits_debt''"
definition code_price_changed :: string where "code_price_changed = ''price_changed''"
definition code_update_required :: string where "code_update_required = ''update_required''"
definition code_idempotency_key_reused :: string where
  "code_idempotency_key_reused = ''idempotency_key_reused''"

lemmas code_defs = code_insufficient_credits_def code_credits_debt_def code_price_changed_def
  code_update_required_def code_idempotency_key_reused_def

definition code_http_status :: "string \<rightharpoonup> int" where
  "code_http_status = map_of
     [(code_insufficient_credits, 402), (code_credits_debt, 402), (code_price_changed, 409),
      (code_update_required, 426), (code_idempotency_key_reused, 409)]"

fun http_status_from_grpc :: "grpc_code \<Rightarrow> int" where
  "http_status_from_grpc CodeOK = 200"
| "http_status_from_grpc CodeNotFound = 404"
| "http_status_from_grpc CodeInvalidArgument = 400"
| "http_status_from_grpc CodeUnauthenticated = 401"
| "http_status_from_grpc CodePermissionDenied = 403"
| "http_status_from_grpc CodeAlreadyExists = 409"
| "http_status_from_grpc CodeResourceExhausted = 429"
| "http_status_from_grpc CodeFailedPrecondition = 400"
| "http_status_from_grpc CodeDeadlineExceeded = 504"
| "http_status_from_grpc CodeUnavailable = 503"
| "http_status_from_grpc _ = 500"

definition http_status :: "grpc_status \<Rightarrow> int" where
  "http_status st =
     (case coded_from_status st of
        Some (code, _) \<Rightarrow> (case code_http_status code of
            Some s \<Rightarrow> s
          | None \<Rightarrow> http_status_from_grpc (st_code st))
      | None \<Rightarrow> http_status_from_grpc (st_code st))"

section \<open>Facts\<close>

lemma errors_is_wrap1 [simp]: "errors_is (wrap1 msg s) x \<longleftrightarrow> s = x"
  by (simp add: wrap1_def)

lemma errors_as_coded_is:
  "errors_as_coded e = Some c \<Longrightarrow> errors_is e (ce_sentinel c)"
proof (induction e rule: errors_as_coded.induct)
  case (4 msg es)
  have "foldr (\<lambda>e acc. case errors_as_coded e of Some c \<Rightarrow> Some c | None \<Rightarrow> acc) xs None = Some c
      \<Longrightarrow> set xs \<subseteq> set es \<Longrightarrow> list_ex (\<lambda>e. errors_is e (ce_sentinel c)) xs" for xs
    by (induction xs) (auto intro: "4.IH" split: option.splits)
  with "4.prems" show ?case by simp
qed auto

lemma map_filter_parse_format:
  "list_all (\<lambda>(k, v). in_i64 v) fs \<Longrightarrow>
    List.map_filter (\<lambda>(k, v). map_option (Pair k) (parse_int v))
      (map (\<lambda>(k, v). (k, string_of_int v)) fs) = fs"
  by (induction fs) (auto simp: List.map_filter_simps)

text \<open>
  A coded error survives the gRPC hop: whatever wraps it, unless it is reported as an
  internal error, the code and every number the monolith attached are exactly what the
  gateway reads back off the status.
\<close>

lemma coded_error_roundtrip:
  assumes "errors_as_coded err = Some c" "grpc_code_of err \<noteq> CodeInternal"
    and "ce_code c \<noteq> []" "list_all (\<lambda>(k, v). in_i64 v) (ce_fields c)"
  shows "coded_from_status (to_grpc_status err) = Some (ce_code c, ce_fields c)"
  using assms
  by (simp add: to_grpc_status_def coded_from_status_def with_error_info_def Let_def
      map_filter_parse_format)

end
