(* ===== verification/Pricing.thy ===== *)
theory Pricing
  imports AppError
begin

text \<open>
  \<open>internal/modules/billing/pricing\<close>: the versioned rules document, its validation, and the
  price of creating one meetup as a pure function. Credits and hours are Go \<open>int64\<close>/\<open>int\<close>
  values; products and sums wrap at 64 bits, as the code computes them. JSON decoding
  (\<open>encoding/json\<close> with \<open>DisallowUnknownFields\<close>) is the parameter \<open>decode\<close>.
\<close>

section \<open>The rules document\<close>

record lead_band =
  up_to_hours :: int
  band_credits :: int

record limits =
  max_capacity :: int
  max_advance_days :: int

record welcome_rule =
  welcome_credits :: int
  decay_percent :: int
  decay_every_days :: int

record refund_policy =
  full_if_cancelled_hours_before :: int
  no_participants_percent :: int
  max_per_30_days :: int

record document =
  base_credits :: int
  includes_capacity :: int
  per_extra_person :: int
  lead_time :: "lead_band list"
  free :: limits
  doc_welcome :: welcome_rule
  refunds :: refund_policy
  hold_ttl_minutes :: int

record rules =
  rules_version :: int
  rules_doc :: document

definition hold_ttl :: "rules \<Rightarrow> duration" where
  "hold_ttl r = i64 (hold_ttl_minutes (rules_doc r) * minute)"

text \<open>\<open>LeadTime[len-1]\<close> panics on a document with no bands.\<close>

definition max_priced_lead :: "rules \<Rightarrow> go_error + duration" where
  "max_priced_lead r =
     (if lead_time (rules_doc r) = [] then Inl (Panic ''index out of range [-1]'')
      else Inr (i64 (up_to_hours (last (lead_time (rules_doc r))) * hour)))"

section \<open>Validation\<close>

text \<open>The loop over the bands: \<open>i\<close> is the index in the message.\<close>

fun validate_bands :: "nat \<Rightarrow> int \<Rightarrow> int \<Rightarrow> lead_band list \<Rightarrow> go_error option" where
  "validate_bands i prev_hours prev_credits [] = None"
| "validate_bands i prev_hours prev_credits (b # bs) =
     (if up_to_hours b \<le> prev_hours
      then Some (PkgError (''lead_time['' @ digits_of_nat i @ ''].up_to_hours must exceed the band before it''))
      else if band_credits b < prev_credits \<or> band_credits b < 0
      then Some (PkgError (''lead_time['' @ digits_of_nat i @ ''].credits must not be less than the band before it''))
      else validate_bands (Suc i) (up_to_hours b) (band_credits b) bs)"

definition validate :: "document \<Rightarrow> go_error option" where
  "validate d =
     (if base_credits d < 0 then Some (PkgError ''base.credits is negative'')
      else if includes_capacity d < 1 then Some (PkgError ''base.includes_capacity must be at least 1'')
      else if per_extra_person d < 0 then Some (PkgError ''per_extra_person is negative'')
      else if lead_time d = [] then Some (PkgError ''lead_time has no bands'')
      else if max_capacity (free d) < 1 \<or> max_capacity (free d) > 30
        then Some (PkgError ''free.max_capacity must be 1-30'')
      else if max_advance_days (free d) < 1
        then Some (PkgError ''free.max_advance_days must be at least 1'')
      else if welcome_credits (doc_welcome d) < 0 then Some (PkgError ''welcome.credits is negative'')
      else if decay_percent (doc_welcome d) < 1 \<or> decay_percent (doc_welcome d) > 100
        then Some (PkgError ''welcome.decay_percent must be 1-100'')
      else if decay_every_days (doc_welcome d) < 1
        then Some (PkgError ''welcome.decay_every_days must be at least 1'')
      else if full_if_cancelled_hours_before (refunds d) < 0
        then Some (PkgError ''refunds.full_if_cancelled_hours_before is negative'')
      else if no_participants_percent (refunds d) < 0 \<or> no_participants_percent (refunds d) > 100
        then Some (PkgError ''refunds.no_participants_percent must be 0-100'')
      else if max_per_30_days (refunds d) < 0 then Some (PkgError ''refunds.max_per_30_days is negative'')
      else if hold_ttl_minutes d < 1 then Some (PkgError ''hold_ttl_minutes must be at least 1'')
      else validate_bands 0 0 0 (lead_time d))"

definition parse_rules :: "('raw \<Rightarrow> go_error + document) \<Rightarrow> int \<Rightarrow> 'raw \<Rightarrow> go_error + rules" where
  "parse_rules decode version raw =
     (case decode raw of
        Inl e \<Rightarrow> Inl (Wrap (''pricing: decode rules v'' @ string_of_int version) [e])
      | Inr doc \<Rightarrow> (case validate doc of
            Some e \<Rightarrow> Inl (Wrap (''pricing: rules v'' @ string_of_int version) [e])
          | None \<Rightarrow> Inr \<lparr>rules_version = version, rules_doc = doc\<rparr>))"

section \<open>The price\<close>

record price_input =
  in_capacity :: int
  in_lead :: duration

record breakdown =
  bd_base :: int
  bd_people :: int
  bd_lead_time :: int

definition bd_total :: "breakdown \<Rightarrow> int" where
  "bd_total b = i64 (i64 (bd_base b + bd_people b) + bd_lead_time b)"

definition err_beyond_pricing :: go_error where
  "err_beyond_pricing = PkgError ''pricing: outside the priced range''"

text \<open>The \<open>for\<close> loop with \<open>break\<close>: the first band that reaches the lead time.\<close>

fun band_for :: "lead_band list \<Rightarrow> duration \<Rightarrow> int option" where
  "band_for [] lead = None"
| "band_for (b # bs) lead =
     (if lead \<le> i64 (up_to_hours b * hour) then Some (band_credits b) else band_for bs lead)"

definition people_credits :: "document \<Rightarrow> int \<Rightarrow> int" where
  "people_credits d cap =
     (let extra = i64 (cap - includes_capacity d)
      in if extra > 0 then i64 (extra * per_extra_person d) else 0)"

definition price :: "rules \<Rightarrow> price_input \<Rightarrow> go_error + breakdown" where
  "price r i =
     (if in_capacity i < 1
      then Inl (Annot err_beyond_pricing ('': capacity '' @ string_of_int (in_capacity i)))
      else
        let lead = (if in_lead i < 0 then 0 else in_lead i) in
        case band_for (lead_time (rules_doc r)) lead of
          None \<Rightarrow> res_bind (max_priced_lead r)
            (\<lambda>m. Inl (Annot err_beyond_pricing ('': starts too far ahead, limit '' @ string_of_int m)))
        | Some lead_credits \<Rightarrow>
            Inr \<lparr>bd_base = base_credits (rules_doc r),
                 bd_people = people_credits (rules_doc r) (in_capacity i),
                 bd_lead_time = lead_credits\<rparr>)"

section \<open>What a validated document guarantees\<close>

text \<open>
  \<open>doc_in_range\<close> excludes documents whose own numbers overflow: no band beyond the reach of
  a \<open>time.Duration\<close> (292 years), and the dearest meetup of at most \<open>cap\<close> people fits
  \<open>int64\<close>. The shipped document is far inside it.
\<close>

definition doc_in_range :: "document \<Rightarrow> int \<Rightarrow> bool" where
  "doc_in_range d cap \<longleftrightarrow>
     (\<forall>b \<in> set (lead_time d). up_to_hours b \<le> 2562047) \<and>
     0 \<le> cap \<and> cap \<le> 4294967296 \<and> includes_capacity d \<le> 4294967296 \<and>
     base_credits d + cap * per_extra_person d + sum_list (map band_credits (lead_time d))
       < 9223372036854775808"

lemma validate_bands_sorted:
  "validate_bands i h c bs = None \<Longrightarrow>
    sorted_wrt (\<lambda>a b. up_to_hours a < up_to_hours b \<and> band_credits a \<le> band_credits b) bs \<and>
    (\<forall>b \<in> set bs. h < up_to_hours b \<and> c \<le> band_credits b \<and> 0 \<le> band_credits b)"
  by (induction i h c bs rule: validate_bands.induct) (fastforce split: if_splits)+

lemma validate_facts:
  assumes "validate d = None"
  shows "0 \<le> base_credits d" "1 \<le> includes_capacity d" "0 \<le> per_extra_person d" "lead_time d \<noteq> []"
    and "sorted_wrt (\<lambda>a b. up_to_hours a < up_to_hours b \<and> band_credits a \<le> band_credits b) (lead_time d)"
    and "\<And>b. b \<in> set (lead_time d) \<Longrightarrow> 0 < up_to_hours b \<and> 0 \<le> band_credits b"
    and "1 \<le> decay_percent (doc_welcome d)" "decay_percent (doc_welcome d) \<le> 100"
    and "1 \<le> decay_every_days (doc_welcome d)"
    and "0 \<le> no_participants_percent (refunds d)" "no_participants_percent (refunds d) \<le> 100"
  using assms validate_bands_sorted [of 0 0 0 "lead_time d"]
  by (auto simp: validate_def split: if_splits)

lemma in_i64_hours: "0 \<le> h \<Longrightarrow> h \<le> 2562047 \<Longrightarrow> in_i64 (h * hour)"
  by (simp add: in_i64_def hour_def)

lemma band_for_Some_mem: "band_for bs l = Some c \<Longrightarrow> \<exists>b \<in> set bs. band_credits b = c"
  by (induction bs l rule: band_for.induct) (auto split: if_splits)

lemma band_for_None_iff:
  "band_for bs l = None \<longleftrightarrow> (\<forall>b \<in> set bs. i64 (up_to_hours b * hour) < l)"
  by (induction bs l rule: band_for.induct) auto

lemma band_for_mono:
  "sorted_wrt (\<lambda>a b. band_credits a \<le> band_credits b) bs \<Longrightarrow> l \<le> l' \<Longrightarrow>
    band_for bs l = Some c \<Longrightarrow> band_for bs l' = Some c' \<Longrightarrow> c \<le> c'"
  by (induction bs) (auto split: if_splits dest: band_for_Some_mem)

lemma band_credits_le_sum:
  "(\<And>b. b \<in> set bs \<Longrightarrow> 0 \<le> band_credits b) \<Longrightarrow> b \<in> set bs \<Longrightarrow>
    band_credits b \<le> sum_list (map band_credits bs)"
  using sum_where_ge_member [of b bs "\<lambda>_. True" band_credits] by (simp add: sum_where_def)

lemma last_band_widest:
  "sorted_wrt (\<lambda>a b. up_to_hours a < up_to_hours b \<and> band_credits a \<le> band_credits b) bs \<Longrightarrow>
    b \<in> set bs \<Longrightarrow> up_to_hours b \<le> up_to_hours (last bs)"
  by (induction bs) (auto simp: less_imp_le)

lemma people_credits_exact:
  assumes "validate d = None" "doc_in_range d cap" "1 \<le> c" "c \<le> cap"
  shows "people_credits d c = max 0 (c - includes_capacity d) * per_extra_person d"
    and "0 \<le> people_credits d c" "people_credits d c \<le> cap * per_extra_person d"
proof -
  note f = validate_facts [OF assms(1)]
  from assms(2) have r: "0 \<le> cap" "cap \<le> 4294967296" "includes_capacity d \<le> 4294967296"
    "base_credits d + cap * per_extra_person d + sum_list (map band_credits (lead_time d))
       < 9223372036854775808" by (auto simp: doc_in_range_def)
  have "0 \<le> sum_list (map band_credits (lead_time d))"
    using f(6) by (intro sum_list_nonneg) auto
  with r(4) f(1) have hi: "cap * per_extra_person d < 9223372036854775808" by linarith
  let ?x = "c - includes_capacity d"
  from assms(3,4) r f(2) have x: "in_i64 ?x" by (auto simp: in_i64_def)
  have mx: "max 0 ?x * per_extra_person d \<le> cap * per_extra_person d"
    using assms(3,4) f(2,3) by (intro mult_right_mono) auto
  have nn: "0 \<le> max 0 ?x * per_extra_person d" using f(3) by (intro mult_nonneg_nonneg) auto
  from mx nn hi have "in_i64 (max 0 ?x * per_extra_person d)" by (auto simp: in_i64_def)
  with x show eq: "people_credits d c = max 0 ?x * per_extra_person d"
    by (auto simp: people_credits_def Let_def max_def)
  from eq nn show "0 \<le> people_credits d c" by simp
  from eq mx show "people_credits d c \<le> cap * per_extra_person d" by simp
qed

lemma price_total_exact:
  assumes v: "validate (rules_doc r) = None" and rng: "doc_in_range (rules_doc r) cap"
    and cap: "in_capacity i \<le> cap" and p: "price r i = Inr b"
  shows "bd_total b = bd_base b + bd_people b + bd_lead_time b"
    and "0 \<le> bd_people b" "0 \<le> bd_lead_time b"
proof -
  from p have c1: "1 \<le> in_capacity i" by (auto simp: price_def split: if_splits)
  obtain k where k: "band_for (lead_time (rules_doc r)) (max 0 (in_lead i)) = Some k"
    and b: "b = \<lparr>bd_base = base_credits (rules_doc r),
        bd_people = people_credits (rules_doc r) (in_capacity i), bd_lead_time = k\<rparr>"
    using p by (auto simp: price_def Let_def max_def split: if_splits option.splits)
  note f = validate_facts [OF v] and pe = people_credits_exact [OF v rng c1 cap]
  obtain bb where bb: "bb \<in> set (lead_time (rules_doc r))" "band_credits bb = k"
    using band_for_Some_mem [OF k] by auto
  with f(6) have k0: "0 \<le> k" by auto
  have "k \<le> sum_list (map band_credits (lead_time (rules_doc r)))"
    using band_credits_le_sum [of "lead_time (rules_doc r)" bb] f(6) bb by auto
  with rng pe f(1) have "base_credits (rules_doc r) + people_credits (rules_doc r) (in_capacity i) + k
      < 9223372036854775808" by (auto simp: doc_in_range_def)
  with pe(2) k0 f(1) show "bd_total b = bd_base b + bd_people b + bd_lead_time b"
    by (simp add: b bd_total_def in_i64_def)
  from b pe(2) k0 show "0 \<le> bd_people b" "0 \<le> bd_lead_time b" by simp_all
qed

text \<open>The document migration 0026 ships.\<close>

definition first_document :: document where
  "first_document = \<lparr>base_credits = 10, includes_capacity = 4, per_extra_person = 2,
     lead_time = [\<lparr>up_to_hours = 48, band_credits = 0\<rparr>, \<lparr>up_to_hours = 168, band_credits = 3\<rparr>,
       \<lparr>up_to_hours = 336, band_credits = 6\<rparr>, \<lparr>up_to_hours = 720, band_credits = 10\<rparr>],
     free = \<lparr>max_capacity = 20, max_advance_days = 14\<rparr>,
     doc_welcome = \<lparr>welcome_credits = 60, decay_percent = 10, decay_every_days = 7\<rparr>,
     refunds = \<lparr>full_if_cancelled_hours_before = 24, no_participants_percent = 50, max_per_30_days = 3\<rparr>,
     hold_ttl_minutes = 120\<rparr>"

lemma first_document_ok: "validate first_document = None" "doc_in_range first_document 30"
  by (simp_all add: first_document_def validate_def doc_in_range_def)

text \<open>
  Under a validated document the price never falls when a meetup is made larger or
  scheduled further ahead: this is the monotonicity the comment in \<open>validate\<close> claims for the
  bands, for capacity and lead time together.
\<close>

lemma price_monotone:
  assumes v: "validate (rules_doc r) = None" and rng: "doc_in_range (rules_doc r) cap"
    and p: "price r i = Inr b" and p': "price r j = Inr b'"
    and "in_capacity i \<le> in_capacity j" "in_lead i \<le> in_lead j" "in_capacity j \<le> cap"
  shows "bd_total b \<le> bd_total b'"
proof -
  let ?d = "rules_doc r"
  note f = validate_facts [OF v]
  obtain k where k: "band_for (lead_time ?d) (max 0 (in_lead i)) = Some k" "bd_lead_time b = k"
    "bd_base b = base_credits ?d" "bd_people b = people_credits ?d (in_capacity i)" "1 \<le> in_capacity i"
    using p by (auto simp: price_def Let_def max_def split: if_splits option.splits)
  obtain k' where k': "band_for (lead_time ?d) (max 0 (in_lead j)) = Some k'" "bd_lead_time b' = k'"
    "bd_base b' = base_credits ?d" "bd_people b' = people_credits ?d (in_capacity j)" "1 \<le> in_capacity j"
    using p' by (auto simp: price_def Let_def max_def split: if_splits option.splits)
  have "sorted_wrt (\<lambda>a b. band_credits a \<le> band_credits b) (lead_time ?d)"
    using f(5) by (rule sorted_wrt_mono_rel [rotated]) simp
  then have "k \<le> k'" using assms(6) by (intro band_for_mono [OF _ _ k(1) k'(1)]) auto
  moreover have "people_credits ?d (in_capacity i) \<le> people_credits ?d (in_capacity j)"
    using people_credits_exact(1) [OF v rng k(5)] people_credits_exact(1) [OF v rng k'(5)] assms(5,7) f(3)
    by (auto intro!: mult_right_mono)
  ultimately show ?thesis
    using price_total_exact(1) [OF v rng _ p] price_total_exact(1) [OF v rng _ p'] assms(5,7) k k' by auto
qed

text \<open>
  A validated document prices exactly the meetups with at least one person that start no
  later than its last band: there is no gap between the bands, and everything else is the
  out-of-range error, never a price.
\<close>

lemma price_total_on_range:
  assumes "validate (rules_doc r) = None" "doc_in_range (rules_doc r) cap"
  shows "(\<exists>b. price r i = Inr b) \<longleftrightarrow>
    1 \<le> in_capacity i \<and> in_lead i \<le> up_to_hours (last (lead_time (rules_doc r))) * hour"
proof -
  let ?bs = "lead_time (rules_doc r)"
  note f = validate_facts [OF assms(1)]
  have ex: "i64 (up_to_hours b * hour) = up_to_hours b * hour" "0 < up_to_hours b * hour" if "b \<in> set ?bs" for b
  proof -
    from that assms(2) f(6) have "0 < up_to_hours b" "up_to_hours b \<le> 2562047" by (auto simp: doc_in_range_def)
    then show "i64 (up_to_hours b * hour) = up_to_hours b * hour" "0 < up_to_hours b * hour"
      using in_i64_hours [of "up_to_hours b"] by (simp_all add: hour_def)
  qed
  have last: "up_to_hours b \<le> up_to_hours (last ?bs)" if "b \<in> set ?bs" for b
    using f(5) that by (rule last_band_widest)
  have covered: "band_for ?bs l \<noteq> None \<longleftrightarrow> l \<le> up_to_hours (last ?bs) * hour" for l
    using ex last f(4) by (auto simp: band_for_None_iff hour_def not_less intro: order_trans)
  have "0 < up_to_hours (last ?bs) * hour" using ex(2) f(4) by simp
  then have "band_for ?bs (if in_lead i < 0 then 0 else in_lead i) \<noteq> None \<longleftrightarrow>
      in_lead i \<le> up_to_hours (last ?bs) * hour"
    unfolding covered by auto
  moreover have "(\<exists>b. price r i = Inr b) \<longleftrightarrow>
      1 \<le> in_capacity i \<and> band_for ?bs (if in_lead i < 0 then 0 else in_lead i) \<noteq> None"
    by (auto simp: price_def Let_def max_priced_lead_def split: option.splits)
  ultimately show ?thesis by simp
qed

end
