(* ===== verification/Billing_Db.thy ===== *)
theory Billing_Db
  imports AppError
begin

text \<open>
  The \<open>billing\<close> schema as the code sees it: one record per table of
  \<open>repository/sqlcgen/models.go\<close>, one definition per statement of
  \<open>repository/sqlcgen/*.sql.go\<close>. A statement that a table constraint of migrations 0026 and
  0029 refuses is an error; the transaction then rolls back. Columns the code never reads
  (\<open>created_at\<close>, \<open>updated_at\<close>) are left out. A UUID is its canonical lower-case text, whose
  lexicographic order is the database's order on uuid.
\<close>

section \<open>Rows\<close>

record wallet_row =
  w_user :: uuid
  w_balance :: int
  w_held :: int
  w_debt :: int
  w_version :: int
  w_closed_at :: "instant option"

datatype lot_kind = KindWelcome | KindPurchase | KindPromo | KindRefund | KindAdmin

record interval =
  iv_microseconds :: int
  iv_days :: int
  iv_months :: int

record lot =
  lot_id :: uuid
  lot_user :: uuid
  lot_kind :: lot_kind
  lot_initial :: int
  lot_remaining :: int
  lot_granted_at :: instant
  lot_expires_at :: "instant option"
  lot_decay_percent :: "int option"
  lot_decay_every :: "interval option"
  lot_periods_applied :: int
  lot_next_decay_at :: "instant option"
  lot_source_ref :: "string option"

datatype hold_kind = HoldCredits | HoldPlanQuota | HoldOther string

datatype hold_state = StateHeld | StateCaptured | StateReleased

record hold =
  hold_id :: uuid
  hold_user :: uuid
  hold_kind :: hold_kind
  hold_amount :: int
  hold_state :: hold_state
  hold_price_version :: int
  hold_period_start :: "instant option"
  hold_expires_at :: instant
  hold_key :: string
  hold_meetup :: "uuid option"
  hold_captured_at :: "instant option"
  hold_released_at :: "instant option"
  hold_release_reason :: "string option"

record alloc =
  al_hold :: uuid
  al_lot :: uuid
  al_amount :: int
  al_refunded :: int

datatype ledger_reason =
    RGrant | RHold | RCapture | RRelease | RDecay | RExpire | RRefund | RReversal | RAdminAdjust

record ledger_entry =
  le_user :: uuid
  le_delta :: int
  le_held_delta :: int
  le_debt_delta :: int
  le_reason :: ledger_reason
  le_lot :: "uuid option"
  le_hold :: "uuid option"
  le_ref_type :: "string option"
  le_ref_id :: "string option"
  le_balance_after :: int
  le_held_after :: int
  le_debt_after :: int
  le_key :: string
  le_operator :: "string option"
  le_note :: "string option"

record plan_usage =
  pu_user :: uuid
  pu_period_start :: instant
  pu_used :: int
  pu_held :: int

record welcome_grant =
  wg_user :: uuid
  wg_fingerprint :: string
  wg_lot :: uuid
  wg_amount :: int

datatype refund_outcome = OutRefunded | OutNoRefund | OutSkippedCap | OutReleased

record refund_log_row =
  rl_user :: uuid
  rl_hold :: uuid
  rl_meetup :: "uuid option"
  rl_event :: string
  rl_outcome :: refund_outcome
  rl_percent :: int
  rl_amount :: int
  rl_created_at :: instant

record subscription_row =
  sr_user :: uuid
  sr_plan_code :: string
  sr_status :: string
  sr_platform :: string
  sr_original_transaction_id :: "string option"
  sr_product_id :: "string option"
  sr_period_start :: instant
  sr_period_end :: instant
  sr_grace_period_end :: "instant option"
  sr_auto_renew :: bool

record plan_row =
  pl_code :: string
  pl_meetups_included :: int
  pl_max_capacity :: int
  pl_max_advance_days :: int
  pl_active :: bool
  pl_title :: string
  pl_perks :: string

text \<open>What the stores sell, every verified store transaction, and the notifications handled (0029).\<close>

record product_row =
  pr_id :: string
  pr_kind :: string
  pr_credits :: "int option"
  pr_bonus :: int
  pr_plan_code :: "string option"
  pr_period :: "string option"
  pr_badge :: "string option"
  pr_sort :: int
  pr_featured :: bool
  pr_active :: bool

record purchase_row =
  sp_id :: uuid
  sp_user :: uuid
  sp_platform :: string
  sp_transaction_id :: string
  sp_original_id :: string
  sp_token_hash :: "string option"
  sp_product_id :: string
  sp_kind :: string
  sp_account_token :: uuid
  sp_environment :: string
  sp_credits :: "int option"
  sp_lot :: "uuid option"
  sp_raw :: string
  sp_verified_at :: instant
  sp_finish_token :: "string option"
  sp_finished_at :: "instant option"
  sp_refunded_at :: "instant option"

record notice_row =
  nr_platform :: string
  nr_id :: string
  nr_type :: string
  nr_subtype :: "string option"
  nr_outcome :: string

text \<open>A row queued on \<open>billing_outbox\<close>: its topic and the payload the writer marshals.\<close>

datatype billing_payload =
    CreditsChanged uuid int int int int "ledger_reason \<rightharpoonup> int" instant
  | SubscriptionEvent uuid string string instant
  | PurchaseVerified uuid string string string
  | StoreFinish uuid

record billing_outbox_row =
  ob_topic :: string
  ob_payload :: billing_payload

text \<open>\<open>admin_audit\<close> details, as the two writers marshal them.\<close>

datatype audit_detail = PlanSet string instant | RemainingPurchased int

record audit_row =
  aa_user :: uuid
  aa_action :: string
  aa_detail :: audit_detail
  aa_operator :: string
  aa_reason :: string

record mismatch =
  mm_user :: uuid
  mm_balance :: int
  mm_held :: int
  mm_debt :: int
  mm_lots_remaining :: int
  mm_holds_held :: int
  mm_ledger_balance :: int
  mm_ledger_held :: int
  mm_ledger_debt :: int

record recon_run =
  rr_date :: instant
  rr_checked :: int
  rr_mismatches :: int
  rr_detail :: "mismatch list"

record billing_db =
  wallets :: "wallet_row list"
  lots :: "lot list"
  holds :: "hold list"
  allocs :: "alloc list"
  ledger :: "ledger_entry list"
  plan_usages :: "plan_usage list"
  outbox :: "billing_outbox_row list"
  welcome_grants :: "welcome_grant list"
  refund_log :: "refund_log_row list"
  subscriptions :: "subscription_row list"
  plans :: "plan_row list"
  admin_audits :: "audit_row list"
  recon_runs :: "recon_run list"
  products :: "product_row list"
  purchases :: "purchase_row list"
  notices :: "notice_row list"

definition empty_db :: billing_db where
  "empty_db = \<lparr>wallets = [], lots = [], holds = [], allocs = [], ledger = [], plan_usages = [],
     outbox = [], welcome_grants = [], refund_log = [], subscriptions = [], plans = [],
     admin_audits = [], recon_runs = [],
     products = [], purchases = [], notices = []\<rparr>"

definition constraint_error :: "string \<Rightarrow> go_error" where
  "constraint_error c = PkgError (''ERROR: violates constraint '' @ c)"

definition no_rows :: go_error where
  "no_rows = PkgError ''no rows in result set''"

section \<open>Wallets\<close>

definition ensure_wallet :: "uuid \<Rightarrow> billing_db \<Rightarrow> billing_db" where
  "ensure_wallet u db =
     (if list_ex (\<lambda>w. w_user w = u) (wallets db) then db
      else db\<lparr>wallets := wallets db @ [\<lparr>w_user = u, w_balance = 0, w_held = 0, w_debt = 0,
             w_version = 0, w_closed_at = None\<rparr>]\<rparr>)"

definition lock_wallet :: "uuid \<Rightarrow> billing_db \<Rightarrow> wallet_row option" where
  "lock_wallet u db = find (\<lambda>w. w_user w = u) (wallets db)"

definition update_wallet :: "uuid \<Rightarrow> int \<Rightarrow> int \<Rightarrow> int \<Rightarrow> billing_db \<Rightarrow> go_error + billing_db" where
  "update_wallet u b h d db =
     (if list_ex (\<lambda>w. w_user w = u) (wallets db) \<and> (b < 0 \<or> h < 0 \<or> d < 0)
      then Inl (constraint_error ''wallets_non_negative'')
      else Inr (db\<lparr>wallets := update_where (\<lambda>w. w_user w = u)
        (\<lambda>w. w\<lparr>w_balance := b, w_held := h, w_debt := d, w_version := w_version w + 1\<rparr>)
        (wallets db)\<rparr>))"

definition close_wallet :: "uuid \<Rightarrow> instant \<Rightarrow> billing_db \<Rightarrow> nat \<times> billing_db" where
  "close_wallet u now db =
     (length (filter (\<lambda>w. w_user w = u \<and> w_closed_at w = None) (wallets db)),
      db\<lparr>wallets := update_where (\<lambda>w. w_user w = u \<and> w_closed_at w = None)
        (\<lambda>w. w\<lparr>w_closed_at := Some (ts now)\<rparr>) (wallets db)\<rparr>)"

section \<open>Lots\<close>

definition lot_ok :: "lot \<Rightarrow> bool" where
  "lot_ok l \<longleftrightarrow> 0 < lot_initial l \<and> 0 \<le> lot_remaining l \<and> lot_remaining l \<le> lot_initial l \<and>
     0 \<le> lot_periods_applied l \<and>
     (case lot_decay_percent l of
        None \<Rightarrow> lot_decay_every l = None \<and> lot_next_decay_at l = None
      | Some p \<Rightarrow> 1 \<le> p \<and> p \<le> 100 \<and> lot_decay_every l \<noteq> None)"

definition insert_lot :: "lot \<Rightarrow> billing_db \<Rightarrow> go_error + billing_db" where
  "insert_lot l db =
     (if list_ex (\<lambda>x. lot_id x = lot_id l) (lots db) then Inl (constraint_error ''credit_lots_pkey'')
      else if \<not> lot_ok l then Inl (constraint_error ''credit_lots_check'')
      else Inr (db\<lparr>lots := lots db @ [l]\<rparr>))"

definition lot_due :: "instant \<Rightarrow> lot \<Rightarrow> bool" where
  "lot_due now l \<longleftrightarrow>
     (case lot_next_decay_at l of None \<Rightarrow> False | Some d \<Rightarrow> d \<le> now) \<or>
     (case lot_expires_at l of None \<Rightarrow> False | Some e \<Rightarrow> e \<le> now \<and> lot_remaining l > 0)"

definition lock_due_lots :: "uuid \<Rightarrow> instant \<Rightarrow> billing_db \<Rightarrow> lot list" where
  "lock_due_lots u now db =
     sort_key (\<lambda>l. (lot_granted_at l, lot_id l))
       (filter (\<lambda>l. lot_user l = u \<and> lot_due now l) (lots db))"

definition lot_spendable :: "instant \<Rightarrow> lot \<Rightarrow> bool" where
  "lot_spendable now l \<longleftrightarrow> lot_remaining l > 0 \<and>
     (case lot_expires_at l of None \<Rightarrow> True | Some e \<Rightarrow> now < e)"

text \<open>\<open>ORDER BY expires_at NULLS LAST, granted_at, id\<close>.\<close>

definition spend_key :: "lot \<Rightarrow> (int \<times> int) \<times> int \<times> string" where
  "spend_key l =
     ((case lot_expires_at l of None \<Rightarrow> (1, 0) | Some e \<Rightarrow> (0, e)), lot_granted_at l, lot_id l)"

definition lock_spendable_lots :: "uuid \<Rightarrow> instant \<Rightarrow> nat \<Rightarrow> billing_db \<Rightarrow> lot list" where
  "lock_spendable_lots u now batch db =
     take batch (sort_key spend_key (filter (\<lambda>l. lot_user l = u \<and> lot_spendable now l) (lots db)))"

definition list_open_lots :: "uuid \<Rightarrow> billing_db \<Rightarrow> lot list" where
  "list_open_lots u db =
     sort_key spend_key (filter (\<lambda>l. lot_user l = u \<and> lot_remaining l > 0) (lots db))"

definition lock_lots_by_id :: "uuid list \<Rightarrow> uuid \<Rightarrow> billing_db \<Rightarrow> lot list" where
  "lock_lots_by_id ids u db =
     sort_key lot_id (filter (\<lambda>l. lot_id l \<in> set ids \<and> lot_user l = u) (lots db))"

definition update_lot :: "uuid \<Rightarrow> (lot \<Rightarrow> lot) \<Rightarrow> billing_db \<Rightarrow> go_error + billing_db" where
  "update_lot i f db =
     (let rows = update_where (\<lambda>l. lot_id l = i) f (lots db) in
      if list_all (\<lambda>l. lot_id l = i \<longrightarrow> lot_ok l) rows then Inr (db\<lparr>lots := rows\<rparr>)
      else Inl (constraint_error ''credit_lots_check''))"

definition set_lot_remaining :: "uuid \<Rightarrow> int \<Rightarrow> billing_db \<Rightarrow> go_error + billing_db" where
  "set_lot_remaining i r = update_lot i (\<lambda>l. l\<lparr>lot_remaining := r\<rparr>)"

definition set_lot_decay ::
  "uuid \<Rightarrow> int \<Rightarrow> int \<Rightarrow> instant option \<Rightarrow> billing_db \<Rightarrow> go_error + billing_db" where
  "set_lot_decay i r k next = update_lot i
     (\<lambda>l. l\<lparr>lot_remaining := r, lot_periods_applied := k, lot_next_decay_at := next\<rparr>)"

definition expire_lot_now :: "uuid \<Rightarrow> instant \<Rightarrow> billing_db \<Rightarrow> go_error + billing_db" where
  "expire_lot_now i now = update_lot i (\<lambda>l. l\<lparr>lot_expires_at := Some now\<rparr>)"

definition get_lot :: "uuid \<Rightarrow> billing_db \<Rightarrow> lot option" where
  "get_lot i db = find (\<lambda>l. lot_id l = i) (lots db)"

definition users_with_due_lots :: "instant \<Rightarrow> nat \<Rightarrow> billing_db \<Rightarrow> uuid list" where
  "users_with_due_lots now batch db =
     take batch (remdups (map lot_user (filter (lot_due now) (lots db))))"

section \<open>Holds\<close>

definition hold_ok :: "hold \<Rightarrow> bool" where
  "hold_ok h \<longleftrightarrow> 0 < hold_amount h \<and> hold_key h \<noteq> [] \<and>
     (hold_kind h = HoldCredits \<or> hold_kind h = HoldPlanQuota \<and> hold_period_start h \<noteq> None)"

definition insert_hold :: "hold \<Rightarrow> billing_db \<Rightarrow> go_error + billing_db" where
  "insert_hold h db =
     (if list_ex (\<lambda>x. hold_id x = hold_id h) (holds db) then Inl (constraint_error ''holds_pkey'')
      else if list_ex (\<lambda>x. hold_user x = hold_user h \<and> hold_key x = hold_key h) (holds db)
        then Inl (constraint_error ''holds_idempotency'')
      else if \<not> hold_ok h then Inl (constraint_error ''holds_check'')
      else Inr (db\<lparr>holds := holds db @ [h]\<rparr>))"

definition get_hold_by_key :: "uuid \<Rightarrow> string \<Rightarrow> billing_db \<Rightarrow> hold option" where
  "get_hold_by_key u k db = find (\<lambda>h. hold_user h = u \<and> hold_key h = k) (holds db)"

text \<open>The update keeps \<open>UNIQUE (user_id, idempotency_key)\<close> or fails.\<close>

definition supersede_hold_key :: "uuid \<Rightarrow> billing_db \<Rightarrow> go_error + billing_db" where
  "supersede_hold_key i db =
     (let rows = update_where (\<lambda>h. hold_id h = i \<and> hold_state h = StateReleased)
            (\<lambda>h. h\<lparr>hold_key := hold_key h @ '':superseded:'' @ hold_id h\<rparr>) (holds db) in
      if distinct (map (\<lambda>h. (hold_user h, hold_key h)) rows) then Inr (db\<lparr>holds := rows\<rparr>)
      else Inl (constraint_error ''holds_idempotency''))"

definition get_hold :: "uuid \<Rightarrow> billing_db \<Rightarrow> hold option" where
  "get_hold i db = find (\<lambda>h. hold_id h = i) (holds db)"

definition query_lock_hold :: "uuid \<Rightarrow> uuid \<Rightarrow> billing_db \<Rightarrow> hold option" where
  "query_lock_hold i u db = find (\<lambda>h. hold_id h = i \<and> hold_user h = u) (holds db)"

definition mark_hold_captured :: "uuid \<Rightarrow> instant \<Rightarrow> uuid option \<Rightarrow> billing_db \<Rightarrow> billing_db" where
  "mark_hold_captured i at m db = db\<lparr>holds := update_where (\<lambda>h. hold_id h = i)
     (\<lambda>h. h\<lparr>hold_state := StateCaptured, hold_captured_at := Some at, hold_meetup := m\<rparr>) (holds db)\<rparr>"

definition mark_hold_released :: "uuid \<Rightarrow> instant \<Rightarrow> string option \<Rightarrow> billing_db \<Rightarrow> billing_db" where
  "mark_hold_released i at reason db = db\<lparr>holds := update_where (\<lambda>h. hold_id h = i)
     (\<lambda>h. h\<lparr>hold_state := StateReleased, hold_released_at := Some at, hold_release_reason := reason\<rparr>)
     (holds db)\<rparr>"

definition expired_holds :: "instant \<Rightarrow> nat \<Rightarrow> billing_db \<Rightarrow> (uuid \<times> uuid) list" where
  "expired_holds now batch db =
     map (\<lambda>h. (hold_id h, hold_user h)) (take batch (sort_key hold_expires_at
       (filter (\<lambda>h. hold_state h = StateHeld \<and> hold_expires_at h \<le> now) (holds db))))"

section \<open>Allocations\<close>

definition insert_allocation :: "uuid \<Rightarrow> uuid \<Rightarrow> int \<Rightarrow> billing_db \<Rightarrow> go_error + billing_db" where
  "insert_allocation h l n db =
     (if \<not> list_ex (\<lambda>x. hold_id x = h) (holds db) \<or> \<not> list_ex (\<lambda>x. lot_id x = l) (lots db)
      then Inl (constraint_error ''hold_allocations_fkey'')
      else if n \<le> 0 then Inl (constraint_error ''hold_allocations_amount_check'')
      else if list_ex (\<lambda>a. al_hold a = h \<and> al_lot a = l \<and> \<not> in_i64 (al_amount a + n)) (allocs db)
      then Inl (PkgError ''ERROR: bigint out of range'')
      else if list_ex (\<lambda>a. al_hold a = h \<and> al_lot a = l) (allocs db)
      then Inr (db\<lparr>allocs := update_where (\<lambda>a. al_hold a = h \<and> al_lot a = l)
             (\<lambda>a. a\<lparr>al_amount := al_amount a + n\<rparr>) (allocs db)\<rparr>)
      else Inr (db\<lparr>allocs := allocs db @ [\<lparr>al_hold = h, al_lot = l, al_amount = n, al_refunded = 0\<rparr>]\<rparr>))"

text \<open>\<open>ORDER BY expires_at DESC NULLS FIRST, granted_at DESC, lot_id\<close>, joined with the lots.\<close>

definition refund_key :: "billing_db \<Rightarrow> alloc \<Rightarrow> (int \<times> int) \<times> int \<times> string" where
  "refund_key db a = (case get_lot (al_lot a) db of
       None \<Rightarrow> ((2, 0), 0, al_lot a)
     | Some l \<Rightarrow> ((case lot_expires_at l of None \<Rightarrow> (0, 0) | Some e \<Rightarrow> (1, - e)),
                  - lot_granted_at l, al_lot a))"

definition lock_allocations :: "uuid \<Rightarrow> billing_db \<Rightarrow> alloc list" where
  "lock_allocations h db = sort_key (refund_key db)
     (filter (\<lambda>a. al_hold a = h \<and> get_lot (al_lot a) db \<noteq> None) (allocs db))"

definition add_allocation_refund :: "uuid \<Rightarrow> uuid \<Rightarrow> int \<Rightarrow> billing_db \<Rightarrow> go_error + billing_db" where
  "add_allocation_refund h l n db =
     (let rows = update_where (\<lambda>a. al_hold a = h \<and> al_lot a = l)
            (\<lambda>a. a\<lparr>al_refunded := al_refunded a + n\<rparr>) (allocs db) in
      if list_all (\<lambda>a. al_hold a = h \<and> al_lot a = l \<longrightarrow> 0 \<le> al_refunded a \<and> al_refunded a \<le> al_amount a) rows
      then Inr (db\<lparr>allocs := rows\<rparr>)
      else Inl (constraint_error ''hold_allocations_refund_bounded''))"

section \<open>The ledger\<close>

text \<open>\<open>ON CONFLICT DO NOTHING\<close>: the result is the number of rows inserted.\<close>

definition insert_ledger_entry :: "ledger_entry \<Rightarrow> billing_db \<Rightarrow> go_error + (nat \<times> billing_db)" where
  "insert_ledger_entry e db =
     (if le_key e = [] then Inl (constraint_error ''ledger_entries_idempotency_key_check'')
      else if list_ex (\<lambda>x. le_user x = le_user e \<and> le_key x = le_key e) (ledger db) then Inr (0, db)
      else Inr (1, db\<lparr>ledger := ledger db @ [e]\<rparr>))"

definition ledger_key_exists :: "uuid \<Rightarrow> string \<Rightarrow> billing_db \<Rightarrow> bool" where
  "ledger_key_exists u k db = list_ex (\<lambda>e. le_user e = u \<and> le_key e = k) (ledger db)"

definition ledger_debt_for_key :: "uuid \<Rightarrow> string \<Rightarrow> billing_db \<Rightarrow> int" where
  "ledger_debt_for_key u k db = sum_where (\<lambda>e. le_user e = u \<and> le_key e = k) le_debt_delta (ledger db)"

definition insert_billing_outbox :: "string \<Rightarrow> billing_payload \<Rightarrow> billing_db \<Rightarrow> billing_db" where
  "insert_billing_outbox topic p db = db\<lparr>outbox := outbox db @ [\<lparr>ob_topic = topic, ob_payload = p\<rparr>]\<rparr>"

section \<open>Plan usage\<close>

definition ensure_plan_usage :: "uuid \<Rightarrow> instant \<Rightarrow> billing_db \<Rightarrow> billing_db" where
  "ensure_plan_usage u p db =
     (if list_ex (\<lambda>x. pu_user x = u \<and> pu_period_start x = p) (plan_usages db) then db
      else db\<lparr>plan_usages := plan_usages db @
             [\<lparr>pu_user = u, pu_period_start = p, pu_used = 0, pu_held = 0\<rparr>]\<rparr>)"

definition lock_plan_usage :: "uuid \<Rightarrow> instant \<Rightarrow> billing_db \<Rightarrow> plan_usage option" where
  "lock_plan_usage u p db = find (\<lambda>x. pu_user x = u \<and> pu_period_start x = p) (plan_usages db)"

definition set_plan_usage :: "uuid \<Rightarrow> instant \<Rightarrow> int \<Rightarrow> int \<Rightarrow> billing_db \<Rightarrow> go_error + billing_db" where
  "set_plan_usage u p used held db =
     (if list_ex (\<lambda>x. pu_user x = u \<and> pu_period_start x = p) (plan_usages db) \<and> (used < 0 \<or> held < 0)
      then Inl (constraint_error ''plan_usage_check'')
      else Inr (db\<lparr>plan_usages := update_where (\<lambda>x. pu_user x = u \<and> pu_period_start x = p)
        (\<lambda>x. x\<lparr>pu_used := used, pu_held := held\<rparr>) (plan_usages db)\<rparr>))"

definition get_plan_usage :: "uuid \<Rightarrow> instant \<Rightarrow> billing_db \<Rightarrow> plan_usage option" where
  "get_plan_usage u p db = find (\<lambda>x. pu_user x = u \<and> pu_period_start x = p) (plan_usages db)"

section \<open>Subscriptions\<close>

definition get_plan :: "string \<Rightarrow> billing_db \<Rightarrow> plan_row option" where
  "get_plan code db = find (\<lambda>p. pl_code p = code) (plans db)"

text \<open>The \<open>WHERE\<close> clause of \<open>GetActiveSubscription\<close>; \<open>GREATEST\<close> with a \<open>NULL\<close> grace end.\<close>

definition subscription_active :: "instant \<Rightarrow> subscription_row \<Rightarrow> bool" where
  "subscription_active now s \<longleftrightarrow> sr_period_start s \<le> now \<and>
     (sr_status s = ''active'' \<and> now < sr_period_end s \<or>
      sr_status s = ''grace_period'' \<and>
      now < max (sr_period_end s) (case sr_grace_period_end s of None \<Rightarrow> sr_period_end s | Some g \<Rightarrow> g))"

definition get_active_subscription ::
  "uuid \<Rightarrow> instant \<Rightarrow> billing_db \<Rightarrow> (subscription_row \<times> plan_row) option" where
  "get_active_subscription u now db =
     (case find (\<lambda>s. sr_user s = u \<and> subscription_active now s) (subscriptions db) of
        None \<Rightarrow> None
      | Some s \<Rightarrow> map_option (Pair s) (get_plan (sr_plan_code s) db))"

definition lock_subscription :: "uuid \<Rightarrow> billing_db \<Rightarrow> subscription_row option" where
  "lock_subscription u db = find (\<lambda>s. sr_user s = u) (subscriptions db)"

text \<open>\<open>INSERT ... ON CONFLICT (user_id) DO UPDATE\<close> with the table's constraints.\<close>

definition upsert_subscription :: "subscription_row \<Rightarrow> billing_db \<Rightarrow> go_error + billing_db" where
  "upsert_subscription s db =
     (if get_plan (sr_plan_code s) db = None then Inl (constraint_error ''subscriptions_plan_code_fkey'')
      else if sr_status s \<notin> set [''active'', ''grace_period'', ''past_due'', ''canceled'', ''expired'', ''revoked'']
      then Inl (constraint_error ''subscriptions_status_check'')
      else if sr_platform s \<notin> set [''ios'', ''android'', ''manual'']
      then Inl (constraint_error ''subscriptions_platform_check'')
      else if sr_period_end s \<le> sr_period_start s then Inl (constraint_error ''subscriptions_period_order'')
      else if sr_original_transaction_id s \<noteq> None \<and>
        list_ex (\<lambda>x. sr_user x \<noteq> sr_user s \<and> sr_platform x = sr_platform s \<and>
          sr_original_transaction_id x = sr_original_transaction_id s) (subscriptions db)
      then Inl (constraint_error ''idx_subscriptions_store_original'')
      else Inr (db\<lparr>subscriptions :=
        (if list_ex (\<lambda>x. sr_user x = sr_user s) (subscriptions db)
         then update_where (\<lambda>x. sr_user x = sr_user s) (\<lambda>x. s) (subscriptions db)
         else subscriptions db @ [s])\<rparr>))"

definition upsert_manual_subscription ::
  "uuid \<Rightarrow> string \<Rightarrow> string \<Rightarrow> instant \<Rightarrow> instant \<Rightarrow> billing_db \<Rightarrow> go_error + billing_db" where
  "upsert_manual_subscription u code status from_t until_t = upsert_subscription
     \<lparr>sr_user = u, sr_plan_code = code, sr_status = status, sr_platform = ''manual'',
      sr_original_transaction_id = None, sr_product_id = None, sr_period_start = from_t,
      sr_period_end = until_t, sr_grace_period_end = None, sr_auto_renew = False\<rparr>"

section \<open>Grants, refunds and operators\<close>

definition get_welcome_grant :: "uuid \<Rightarrow> billing_db \<Rightarrow> welcome_grant option" where
  "get_welcome_grant u db = find (\<lambda>g. wg_user g = u) (welcome_grants db)"

text \<open>A clash on either unique column makes it zero rows.\<close>

definition insert_welcome_grant :: "welcome_grant \<Rightarrow> billing_db \<Rightarrow> nat \<times> billing_db" where
  "insert_welcome_grant g db =
     (if list_ex (\<lambda>x. wg_user x = wg_user g \<or> wg_fingerprint x = wg_fingerprint g) (welcome_grants db)
      then (0, db) else (1, db\<lparr>welcome_grants := welcome_grants db @ [g]\<rparr>))"

definition refund_log_exists :: "uuid \<Rightarrow> billing_db \<Rightarrow> bool" where
  "refund_log_exists hid db = list_ex (\<lambda>r. rl_hold r = hid) (refund_log db)"

definition count_refunds_since :: "uuid \<Rightarrow> instant \<Rightarrow> billing_db \<Rightarrow> int" where
  "count_refunds_since u since db = int (length (filter
     (\<lambda>r. rl_user r = u \<and> (rl_outcome r = OutRefunded \<or> rl_outcome r = OutReleased) \<and>
          since < rl_created_at r) (refund_log db)))"

definition insert_refund_log :: "refund_log_row \<Rightarrow> billing_db \<Rightarrow> go_error + billing_db" where
  "insert_refund_log r db =
     (if rl_event r \<notin> set [''cancelled'', ''closed''] then Inl (constraint_error ''refund_log_event_check'')
      else if rl_percent r < 0 \<or> 100 < rl_percent r then Inl (constraint_error ''refund_log_percent_check'')
      else if rl_amount r < 0 then Inl (constraint_error ''refund_log_amount_check'')
      else if refund_log_exists (rl_hold r) db then Inr db
      else Inr (db\<lparr>refund_log := refund_log db @ [r]\<rparr>))"

definition sum_open_purchased_credits :: "uuid \<Rightarrow> billing_db \<Rightarrow> int" where
  "sum_open_purchased_credits u db = sum_where
     (\<lambda>l. lot_user l = u \<and> lot_kind l = KindPurchase \<and> lot_remaining l > 0) lot_remaining (lots db)"

definition insert_admin_audit :: "audit_row \<Rightarrow> billing_db \<Rightarrow> go_error + billing_db" where
  "insert_admin_audit a db =
     (if aa_operator a = [] \<or> aa_reason a = [] then Inl (constraint_error ''admin_audit_check'')
      else Inr (db\<lparr>admin_audits := admin_audits db @ [a]\<rparr>))"

definition reconciliation_run_exists :: "instant \<Rightarrow> billing_db \<Rightarrow> bool" where
  "reconciliation_run_exists d db = list_ex (\<lambda>r. rr_date r = d) (recon_runs db)"

definition insert_reconciliation_run :: "recon_run \<Rightarrow> billing_db \<Rightarrow> billing_db" where
  "insert_reconciliation_run r db =
     (if reconciliation_run_exists (rr_date r) db then db else db\<lparr>recon_runs := recon_runs db @ [r]\<rparr>)"

definition count_wallets :: "billing_db \<Rightarrow> int" where
  "count_wallets db = int (length (wallets db))"

section \<open>Reconciliation\<close>

text \<open>
  \<open>ReconcileWallets\<close>: every wallet whose stored figures disagree with its lots, with its open
  credit holds, or with its own ledger replayed.
\<close>

definition lots_remaining :: "uuid \<Rightarrow> billing_db \<Rightarrow> int" where
  "lots_remaining u db = sum_where (\<lambda>l. lot_user l = u) lot_remaining (lots db)"

definition holds_held :: "uuid \<Rightarrow> billing_db \<Rightarrow> int" where
  "holds_held u db = sum_where
     (\<lambda>h. hold_user h = u \<and> hold_state h = StateHeld \<and> hold_kind h = HoldCredits) hold_amount (holds db)"

definition ledger_balance :: "uuid \<Rightarrow> billing_db \<Rightarrow> int" where
  "ledger_balance u db = sum_where (\<lambda>e. le_user e = u) le_delta (ledger db)"

definition ledger_held :: "uuid \<Rightarrow> billing_db \<Rightarrow> int" where
  "ledger_held u db = sum_where (\<lambda>e. le_user e = u) le_held_delta (ledger db)"

definition ledger_debt :: "uuid \<Rightarrow> billing_db \<Rightarrow> int" where
  "ledger_debt u db = sum_where (\<lambda>e. le_user e = u) le_debt_delta (ledger db)"

definition wallet_mismatched :: "billing_db \<Rightarrow> wallet_row \<Rightarrow> bool" where
  "wallet_mismatched db w \<longleftrightarrow>
     w_balance w \<noteq> lots_remaining (w_user w) db \<or> w_held w \<noteq> holds_held (w_user w) db \<or>
     w_balance w \<noteq> ledger_balance (w_user w) db \<or> w_held w \<noteq> ledger_held (w_user w) db \<or>
     w_debt w \<noteq> ledger_debt (w_user w) db"

definition reconcile_wallets :: "billing_db \<Rightarrow> mismatch list" where
  "reconcile_wallets db =
     map (\<lambda>w. \<lparr>mm_user = w_user w, mm_balance = w_balance w, mm_held = w_held w, mm_debt = w_debt w,
          mm_lots_remaining = lots_remaining (w_user w) db, mm_holds_held = holds_held (w_user w) db,
          mm_ledger_balance = ledger_balance (w_user w) db, mm_ledger_held = ledger_held (w_user w) db,
          mm_ledger_debt = ledger_debt (w_user w) db\<rparr>)
       (sort_key w_user (filter (wallet_mismatched db) (wallets db)))"

lemma reconcile_wallets_Nil_iff:
  "reconcile_wallets db = [] \<longleftrightarrow> (\<forall>w \<in> set (wallets db). \<not> wallet_mismatched db w)"
proof -
  have "sort_key w_user xs = [] \<longleftrightarrow> xs = []" for xs :: "wallet_row list"
    by (metis length_0_conv length_sort)
  then show ?thesis by (auto simp: reconcile_wallets_def filter_empty_conv)
qed

end
