(* ===== verification/Wallet.thy ===== *)
theory Wallet
  imports Billing_Db
begin

text \<open>
  \<open>wallet/wallet.go\<close>: one user's locked wallet inside one transaction (\<open>Tx\<close>), the ledger
  write every operation goes through, grants, the debt settlement, the spend loop and the
  operator's removal. The database the transaction works on is a field of the state; UUIDs
  drawn while it runs (\<open>gen_random_uuid()\<close>, \<open>uuid.NewString()\<close>) come from the stream
  \<open>tx_uuids\<close>, which no theorem constrains unless it says so.
\<close>

section \<open>The transaction state\<close>

record tx =
  tx_db :: billing_db
  tx_user :: uuid
  tx_now :: instant
  tx_balance :: int
  tx_held :: int
  tx_debt :: int
  tx_start :: "int \<times> int \<times> int"
  tx_closed :: bool
  tx_changes :: "ledger_reason \<rightharpoonup> int"
  tx_uuids :: "nat \<Rightarrow> uuid"
  tx_drawn :: nat

definition release_settled :: string where
  "release_settled = ''refunded_before_capture''"

definition spend_batch :: nat where
  "spend_batch = 8"

definition err_already_applied :: go_error where
  "err_already_applied = PkgError ''wallet: operation already applied''"

definition err_quota_exhausted :: go_error where
  "err_quota_exhausted = PkgError ''wallet: plan quota exhausted''"

definition err_wallet_closed :: go_error where
  "err_wallet_closed = wrap1 ''wallet: the wallet is closed'' ErrForbidden"

definition err_insufficient_for_adjust :: go_error where
  "err_insufficient_for_adjust = wrap1 ''wallet: not enough credits to remove'' ErrInvalidInput"

definition available :: "tx \<Rightarrow> int" where
  "available t = max (tx_balance t - tx_held t) 0"

definition draw_uuid :: "tx \<Rightarrow> uuid \<times> tx" where
  "draw_uuid t = (tx_uuids t (tx_drawn t), t\<lparr>tx_drawn := Suc (tx_drawn t)\<rparr>)"

text \<open>Running a statement on the transaction's connection.\<close>

definition exec_db :: "(billing_db \<Rightarrow> go_error + billing_db) \<Rightarrow> tx \<Rightarrow> go_error + tx" where
  "exec_db q t = res_bind (q (tx_db t)) (\<lambda>db. Inr (t\<lparr>tx_db := db\<rparr>))"

section \<open>Writing the ledger\<close>

record entry =
  en_delta :: int
  en_held_delta :: int
  en_debt_delta :: int
  en_reason :: ledger_reason
  en_lot :: "uuid option"
  en_hold :: "uuid option"
  en_ref_type :: string
  en_ref_id :: string
  en_key :: string
  en_operator :: string
  en_note :: string

text \<open>The zero value of \<open>entry\<close>, which each composite literal overrides.\<close>

definition no_entry :: "ledger_reason \<Rightarrow> string \<Rightarrow> entry" where
  "no_entry reason key = \<lparr>en_delta = 0, en_held_delta = 0, en_debt_delta = 0, en_reason = reason,
     en_lot = None, en_hold = None, en_ref_type = [], en_ref_id = [], en_key = key,
     en_operator = [], en_note = []\<rparr>"

definition entry_row :: "tx \<Rightarrow> entry \<Rightarrow> int \<Rightarrow> int \<Rightarrow> int \<Rightarrow> ledger_entry" where
  "entry_row t e b h d = \<lparr>le_user = tx_user t, le_delta = en_delta e, le_held_delta = en_held_delta e,
     le_debt_delta = en_debt_delta e, le_reason = en_reason e, le_lot = en_lot e, le_hold = en_hold e,
     le_ref_type = null_text (en_ref_type e), le_ref_id = null_text (en_ref_id e),
     le_balance_after = b, le_held_after = h, le_debt_after = d, le_key = en_key e,
     le_operator = null_text (en_operator e), le_note = null_text (en_note e)\<rparr>"

definition record_change :: "ledger_reason \<Rightarrow> int \<Rightarrow> (ledger_reason \<rightharpoonup> int) \<Rightarrow> (ledger_reason \<rightharpoonup> int)" where
  "record_change r d m =
     (if d = 0 then m
      else m(r \<mapsto> i64 ((case m r of None \<Rightarrow> 0 | Some x \<Rightarrow> x) + d)))"

text \<open>The stored spelling of the ledger reasons.\<close>

fun reason_text :: "ledger_reason \<Rightarrow> string" where
  "reason_text RGrant = ''grant''"
| "reason_text RHold = ''hold''"
| "reason_text RCapture = ''capture''"
| "reason_text RRelease = ''release''"
| "reason_text RDecay = ''decay''"
| "reason_text RExpire = ''expire''"
| "reason_text RRefund = ''refund''"
| "reason_text RReversal = ''reversal''"
| "reason_text RAdminAdjust = ''admin_adjust''"

definition err_negative :: "ledger_reason \<Rightarrow> int \<Rightarrow> int \<Rightarrow> int \<Rightarrow> go_error" where
  "err_negative r b h d = wrap1 (''wallet: '' @ reason_text r @ '' would make balance '' @ string_of_int b @
     '', held '' @ string_of_int h @ '', debt '' @ string_of_int d) ErrInternal"

definition write_entry :: "entry \<Rightarrow> tx \<Rightarrow> go_error + tx" where
  "write_entry e t =
     (let b = i64 (tx_balance t + en_delta e);
          h = i64 (tx_held t + en_held_delta e);
          d = i64 (tx_debt t + en_debt_delta e) in
      if b < 0 \<or> h < 0 \<or> d < 0
      then Inl (err_negative (en_reason e) b h d)
      else res_bind (insert_ledger_entry (entry_row t e b h d) (tx_db t))
        (\<lambda>(n, db).
          if n = 0 then Inl (Annot err_already_applied ('' ('' @ en_key e @ '')''))
          else Inr (t\<lparr>tx_db := db, tx_balance := b, tx_held := h, tx_debt := d,
                 tx_changes := record_change (en_reason e) (en_delta e) (tx_changes t)\<rparr>)))"

definition key_used :: "string \<Rightarrow> tx \<Rightarrow> bool" where
  "key_used k t = ledger_key_exists (tx_user t) k (tx_db t)"

section \<open>Spending\<close>

text \<open>
  The closures the three callers of \<open>spendFrom\<close> pass: \<open>settleDebt\<close>, \<open>Remove\<close> and \<open>Capture\<close>.
  \<open>piece\<close> counts the lots drawn so far, which is \<open>Remove\<close>'s captured variable \<open>i\<close>.
\<close>

datatype taker =
    TakeDebt
  | TakeRemove string string string
  | TakeCapture uuid string

fun take_piece :: "taker \<Rightarrow> nat \<Rightarrow> uuid \<Rightarrow> int \<Rightarrow> tx \<Rightarrow> go_error + tx" where
  "take_piece TakeDebt piece lid n t =
     (let (u, t) = draw_uuid t in
      write_entry ((no_entry RReversal (''debt:'' @ u))\<lparr>en_delta := - n, en_debt_delta := - n,
        en_lot := Some lid, en_ref_type := ''debt''\<rparr>) t)"
| "take_piece (TakeRemove key operator note) piece lid n t =
     write_entry ((no_entry RAdminAdjust (key @ '':'' @ digits_of_nat (Suc piece)))\<lparr>en_delta := - n,
       en_lot := Some lid, en_ref_type := ''admin'', en_operator := operator, en_note := note\<rparr>) t"
| "take_piece (TakeCapture hid meetup) piece lid n t =
     res_bind (exec_db (insert_allocation hid lid n) t) (\<lambda>t.
     write_entry ((no_entry RCapture (''capture:'' @ hid @ '':'' @ lid))\<lparr>en_delta := - n,
       en_lot := Some lid, en_hold := Some hid, en_ref_type := ''meetup'', en_ref_id := meetup\<rparr>) t)"

text \<open>The inner loop over one batch of lots: stops early when nothing is needed any more.\<close>

fun spend_lots :: "taker \<Rightarrow> nat \<Rightarrow> int \<Rightarrow> lot list \<Rightarrow> tx \<Rightarrow> go_error + (nat \<times> int \<times> tx)" where
  "spend_lots k piece need [] t = Inr (piece, need, t)"
| "spend_lots k piece need (l # ls) t =
     (let n = min (lot_remaining l) need in
      res_bind (exec_db (set_lot_remaining (lot_id l) (lot_remaining l - n)) t) (\<lambda>t.
      res_bind (take_piece k piece (lot_id l) n t) (\<lambda>t.
      let need = need - n in
      if need = 0 then Inr (Suc piece, need, t) else spend_lots k (Suc piece) need ls t)))"

text \<open>Lots of the wallet that still hold credits: what shrinks with every batch.\<close>

definition open_lots :: "uuid \<Rightarrow> billing_db \<Rightarrow> nat" where
  "open_lots u db = length (filter (\<lambda>l. lot_user l = u \<and> lot_remaining l > 0) (lots db))"

subsection \<open>What the pieces leave alone\<close>

lemma exec_db_Inr [simp]:
  "exec_db q t = Inr t' \<longleftrightarrow> (\<exists>db. q (tx_db t) = Inr db \<and> t' = t\<lparr>tx_db := db\<rparr>)"
  by (auto simp: exec_db_def)

lemma write_entry_Inr:
  "write_entry e t = Inr t' \<longleftrightarrow>
    (let b = i64 (tx_balance t + en_delta e); h = i64 (tx_held t + en_held_delta e);
         d = i64 (tx_debt t + en_debt_delta e) in
     0 \<le> b \<and> 0 \<le> h \<and> 0 \<le> d \<and> en_key e \<noteq> [] \<and> \<not> key_used (en_key e) t \<and>
     t' = t\<lparr>tx_db := (tx_db t)\<lparr>ledger := ledger (tx_db t) @ [entry_row t e b h d]\<rparr>,
            tx_balance := b, tx_held := h, tx_debt := d,
            tx_changes := record_change (en_reason e) (en_delta e) (tx_changes t)\<rparr>)"
  by (auto simp: write_entry_def Let_def insert_ledger_entry_def key_used_def ledger_key_exists_def
      entry_row_def not_less split: if_splits)

lemma write_entry_frame:
  assumes "write_entry e t = Inr t'"
  shows "lots (tx_db t') = lots (tx_db t)" "holds (tx_db t') = holds (tx_db t)"
    "allocs (tx_db t') = allocs (tx_db t)" "tx_user t' = tx_user t" "tx_now t' = tx_now t"
  using assms by (auto simp: write_entry_Inr Let_def)

lemma take_piece_frame:
  assumes "take_piece k p lid n t = Inr t'"
  shows "lots (tx_db t') = lots (tx_db t) \<and> holds (tx_db t') = holds (tx_db t) \<and>
    tx_user t' = tx_user t \<and> tx_now t' = tx_now t"
  using assms
  by (cases k) (auto simp: draw_uuid_def insert_allocation_def write_entry_Inr Let_def split: if_splits)

lemma update_lot_Inr:
  "update_lot i f db = Inr db' \<longleftrightarrow>
    db' = db\<lparr>lots := update_where (\<lambda>l. lot_id l = i) f (lots db)\<rparr> \<and>
    list_all (\<lambda>l. lot_id l = i \<longrightarrow> lot_ok l) (update_where (\<lambda>l. lot_id l = i) f (lots db))"
  by (auto simp: update_lot_def Let_def split: if_splits)

lemma open_lots_zeroed_le:
  "length (filter (\<lambda>l. lot_user l = u \<and> lot_remaining l > 0)
     (update_where (\<lambda>l. lot_id l = i) (\<lambda>l. l\<lparr>lot_remaining := 0\<rparr>) rows))
   \<le> length (filter (\<lambda>l. lot_user l = u \<and> lot_remaining l > 0) rows)"
  by (induction rows) (auto simp: update_where_def)

lemma open_lots_zeroed_less:
  assumes "l \<in> set rows" "lot_id l = i" "lot_user l = u" "lot_remaining l > 0"
  shows "length (filter (\<lambda>l. lot_user l = u \<and> lot_remaining l > 0)
      (update_where (\<lambda>l. lot_id l = i) (\<lambda>l. l\<lparr>lot_remaining := 0\<rparr>) rows))
    < length (filter (\<lambda>l. lot_user l = u \<and> lot_remaining l > 0) rows)"
  using assms
proof (induction rows)
  case Nil
  then show ?case by simp
next
  case (Cons x xs)
  then show ?case using open_lots_zeroed_le [of u i xs] by (auto simp: update_where_def less_Suc_eq_le)
qed

lemma spend_lots_open:
  assumes "spend_lots k p need ls t = Inr (p', need', t')" "need' \<noteq> 0"
  shows "tx_user t' = tx_user t \<and> open_lots (tx_user t) (tx_db t') \<le> open_lots (tx_user t) (tx_db t)"
  using assms
proof (induction k p need ls t rule: spend_lots.induct)
  case (1 k piece need t)
  then show ?case by simp
next
  case (2 k p need l ls t)
  let ?n = "min (lot_remaining l) need"
  from "2.prems" obtain db t1 where
    upd: "set_lot_remaining (lot_id l) (lot_remaining l - ?n) (tx_db t) = Inr db" and
    tp: "take_piece k p (lot_id l) ?n (t\<lparr>tx_db := db\<rparr>) = Inr t1" and
    rest: "spend_lots k (Suc p) (need - ?n) ls t1 = Inr (p', need', t')" and ne: "need - ?n \<noteq> 0"
    by (auto simp: Let_def split: if_splits)
  from ne have z: "lot_remaining l - ?n = 0" by (auto simp: min_def split: if_splits)
  have "tx_user t' = tx_user t1 \<and> open_lots (tx_user t1) (tx_db t') \<le> open_lots (tx_user t1) (tx_db t1)"
    using "2.IH" [of _ "t\<lparr>tx_db := db\<rparr>" t1] upd tp rest ne "2.prems"(2) by simp
  moreover have "open_lots (tx_user t) db \<le> open_lots (tx_user t) (tx_db t)"
    using upd z open_lots_zeroed_le by (auto simp: set_lot_remaining_def update_lot_Inr open_lots_def)
  ultimately show ?case using take_piece_frame [OF tp] by (simp add: open_lots_def)
qed

lemma spend_lots_open_less:
  assumes r: "spend_lots k p need (l # ls) t = Inr (p', need', t')" and "need' \<noteq> 0"
    and l: "l \<in> set (lots (tx_db t))" "lot_user l = tx_user t" "lot_remaining l > 0"
  shows "tx_user t' = tx_user t \<and> open_lots (tx_user t) (tx_db t') < open_lots (tx_user t) (tx_db t)"
proof -
  let ?n = "min (lot_remaining l) need"
  from assms(1,2) obtain db t1 where
    upd: "set_lot_remaining (lot_id l) (lot_remaining l - ?n) (tx_db t) = Inr db" and
    tp: "take_piece k p (lot_id l) ?n (t\<lparr>tx_db := db\<rparr>) = Inr t1" and
    rest: "spend_lots k (Suc p) (need - ?n) ls t1 = Inr (p', need', t')" and ne: "need - ?n \<noteq> 0"
    by (auto simp: Let_def split: if_splits)
  from ne have z: "lot_remaining l - ?n = 0" by (auto simp: min_def split: if_splits)
  have "open_lots (tx_user t) db < open_lots (tx_user t) (tx_db t)"
    using upd z l open_lots_zeroed_less by (auto simp: set_lot_remaining_def update_lot_Inr open_lots_def)
  with spend_lots_open [OF rest assms(2)] take_piece_frame [OF tp] show ?thesis
    by (simp add: open_lots_def)
qed

subsection \<open>The spend loop\<close>

text \<open>
  \<open>spendFrom\<close>: batches of \<open>spend_batch\<close> lots in spend order until the amount is covered or no
  spendable lot is left. It returns what it could not cover. Every batch that leaves
  something needed has emptied all its lots, so the loop ends.
\<close>

function spend_from :: "taker \<Rightarrow> nat \<Rightarrow> int \<Rightarrow> tx \<Rightarrow> go_error + (int \<times> tx)" where
  "spend_from k piece need t =
     (if need > 0 then
        let ls = lock_spendable_lots (tx_user t) (ts (tx_now t)) spend_batch (tx_db t) in
        if ls = [] then Inr (need, t)
        else res_bind (spend_lots k piece need ls t) (\<lambda>(piece, need, t). spend_from k piece need t)
      else Inr (need, t))"
  by pat_completeness auto
termination
proof (relation "measure (\<lambda>(k, p, need, t). if need > 0 then Suc (open_lots (tx_user t) (tx_db t)) else 0)", goal_cases)
  case 1
  show ?case by simp
next
  case (2 k p need t ls x p' y need' t')
  have "ls \<noteq> []" using 2 by simp
  then obtain l ls' where ls: "ls = l # ls'" by (cases ls) auto
  have "l \<in> set ls" using ls by simp
  then have "l \<in> set (filter (\<lambda>l. lot_user l = tx_user t \<and> lot_spendable (ts (tx_now t)) l) (lots (tx_db t)))"
    using 2 in_set_takeD [of l] unfolding lock_spendable_lots_def by (metis set_sort)
  then have "l \<in> set (lots (tx_db t))" "lot_user l = tx_user t" "lot_remaining l > 0"
    by (auto simp: lot_spendable_def)
  then show ?case
    using 2 ls spend_lots_open_less [of k p need l ls' t p' need' t'] by auto
qed

declare spend_from.simps [simp del]

definition spend :: "taker \<Rightarrow> int \<Rightarrow> tx \<Rightarrow> go_error + tx" where
  "spend k amount t = res_bind (spend_from k 0 amount t) (\<lambda>(uncovered, t). Inr t)"

definition settle_debt :: "tx \<Rightarrow> go_error + tx" where
  "settle_debt t = (if tx_debt t = 0 then Inr t else spend TakeDebt (tx_debt t) t)"

section \<open>Grants and removals\<close>

record decay_config =
  dc_percent :: int
  dc_every :: duration

record grant_input =
  gi_kind :: lot_kind
  gi_amount :: int
  gi_expires_at :: "instant option"
  gi_decay :: "decay_config option"
  gi_source_ref :: string
  gi_reason :: "ledger_reason option"
  gi_key :: string
  gi_ref_type :: string
  gi_ref_id :: string
  gi_operator :: string
  gi_note :: string

definition every_interval :: "duration \<Rightarrow> interval" where
  "every_interval d = \<lparr>iv_microseconds = d sdiv 1000, iv_days = 0, iv_months = 0\<rparr>"

text \<open>The row \<open>InsertLot\<close> writes from the grant's parameters.\<close>

definition grant_lot :: "grant_input \<Rightarrow> uuid \<Rightarrow> tx \<Rightarrow> lot" where
  "grant_lot g lid t = \<lparr>lot_id = lid, lot_user = tx_user t, lot_kind = gi_kind g,
     lot_initial = gi_amount g, lot_remaining = gi_amount g, lot_granted_at = ts (tx_now t),
     lot_expires_at = map_option ts (gi_expires_at g),
     lot_decay_percent = map_option (\<lambda>d. i32 (dc_percent d)) (gi_decay g),
     lot_decay_every = map_option (\<lambda>d. every_interval (dc_every d)) (gi_decay g),
     lot_periods_applied = 0,
     lot_next_decay_at = map_option (\<lambda>d. ts (time_add (tx_now t) (dc_every d))) (gi_decay g),
     lot_source_ref = null_text (gi_source_ref g)\<rparr>"

definition grant :: "grant_input \<Rightarrow> tx \<Rightarrow> go_error + (uuid \<times> tx)" where
  "grant g t =
     (if gi_amount g \<le> 0 then Inl (wrap1 ''wallet: grant amount must be positive'' ErrInvalidInput)
      else
        let (lid, t) = draw_uuid t in
        res_bind (exec_db (insert_lot (grant_lot g lid t)) t) (\<lambda>t.
        res_bind (write_entry
          ((no_entry (case gi_reason g of None \<Rightarrow> RGrant | Some r \<Rightarrow> r) (gi_key g))\<lparr>
             en_delta := gi_amount g, en_lot := Some lid, en_ref_type := gi_ref_type g,
             en_ref_id := gi_ref_id g, en_operator := gi_operator g, en_note := gi_note g\<rparr>) t) (\<lambda>t.
        res_bind (settle_debt t) (\<lambda>t. Inr (lid, t)))))"

definition remove :: "int \<Rightarrow> string \<Rightarrow> string \<Rightarrow> string \<Rightarrow> tx \<Rightarrow> go_error + tx" where
  "remove amount key operator note t =
     (if amount \<le> 0 then Inl (wrap1 ''wallet: amount to remove must be positive'' ErrInvalidInput)
      else if amount > available t then Inl err_insufficient_for_adjust
      else spend (TakeRemove key operator note) amount t)"

end
