(* ===== verification/Wallet_Decay.thy ===== *)
theory Wallet_Decay
  imports Wallet
begin

text \<open>
  \<open>wallet/decay.go\<close>: how much of a decaying lot may remain after each period, and
  \<open>applyDue\<close>, which materialises every decay period and expiry that has come due before any
  operation runs. The arithmetic of \<open>AllowedAfter\<close> is \<open>int64\<close> and wraps; the lemmas say
  for which lots it does not.
\<close>

section \<open>The schedule of one lot\<close>

definition allowed_after :: "int \<Rightarrow> int \<Rightarrow> int \<Rightarrow> int" where
  "allowed_after initial percent k =
     (if k \<le> 0 then initial
      else let cut = i64 (i64 (initial * percent) * k) sdiv 100 in
        if cut \<ge> initial then 0 else i64 (initial - cut))"

text \<open>A zero \<open>percent\<close> panics in Go; the table allows 1 to 100.\<close>

definition max_periods :: "int \<Rightarrow> int" where
  "max_periods percent = i64 (i64 (100 + percent) - 1) sdiv percent"

definition interval_duration :: "interval option \<Rightarrow> duration" where
  "interval_duration i = (case i of None \<Rightarrow> 0 | Some i \<Rightarrow>
     i64 (i64 (i64 (iv_microseconds i * 1000) + i64 (i64 (iv_days i * 24) * hour)) +
          i64 (i64 (i64 (iv_months i * 30) * 24) * hour)))"

section \<open>Materialising what is due\<close>

text \<open>The loop over the periods \<open>js\<close> of one lot; the result is what remains of it.\<close>

fun decay_steps :: "lot \<Rightarrow> int \<Rightarrow> int list \<Rightarrow> int \<Rightarrow> tx \<Rightarrow> go_error + (int \<times> tx)" where
  "decay_steps l percent [] remaining t = Inr (remaining, t)"
| "decay_steps l percent (j # js) remaining t =
     (let allowed = allowed_after (lot_initial l) percent j in
      if remaining \<le> allowed then decay_steps l percent js remaining t
      else let cut = i64 (remaining - allowed) in
        res_bind (write_entry ((no_entry RDecay (''decay:'' @ lot_id l @ '':'' @ string_of_int j))\<lparr>
          en_delta := i64 (- cut), en_lot := Some (lot_id l)\<rparr>) t) (\<lambda>t.
        decay_steps l percent js allowed t))"

definition decay_due :: "instant \<Rightarrow> lot \<Rightarrow> bool" where
  "decay_due now l \<longleftrightarrow> lot_decay_percent l \<noteq> None \<and>
     (case lot_next_decay_at l of None \<Rightarrow> False | Some d \<Rightarrow> \<not> time_after d now)"

definition expiry_due :: "instant \<Rightarrow> lot \<Rightarrow> bool" where
  "expiry_due now l \<longleftrightarrow> (case lot_expires_at l of None \<Rightarrow> False | Some e \<Rightarrow> \<not> time_after e now)"

definition periods_due :: "instant \<Rightarrow> lot \<Rightarrow> duration \<Rightarrow> int \<Rightarrow> int" where
  "periods_due now l every percent =
     min (time_sub now (lot_granted_at l) sdiv every) (max_periods percent)"

definition decay_lot :: "lot \<Rightarrow> tx \<Rightarrow> go_error + (int \<times> tx)" where
  "decay_lot l t =
     (if \<not> decay_due (tx_now t) l then Inr (lot_remaining l, t)
      else let every = interval_duration (lot_decay_every l) in
        if every \<le> 0
        then Inl (wrap1 (''wallet: lot '' @ lot_id l @ '' has no decay interval'') ErrInternal)
        else let percent = the (lot_decay_percent l) in
        if percent = 0 then Inl (Panic ''integer divide by zero'')
        else let k = periods_due (tx_now t) l every percent in
        res_bind (decay_steps l percent [lot_periods_applied l + 1 .. k] (lot_remaining l) t)
          (\<lambda>(remaining, t).
            let next = (if k < max_periods percent
                        then Some (ts (time_add (lot_granted_at l) (i64 ((k + 1) * every)))) else None) in
            res_bind (exec_db (set_lot_decay (lot_id l) remaining (i32 k) next) t) (\<lambda>t.
            Inr (remaining, t))))"

definition expire_lot :: "lot \<Rightarrow> int \<Rightarrow> tx \<Rightarrow> go_error + tx" where
  "expire_lot l remaining t =
     (if expiry_due (tx_now t) l \<and> remaining > 0
      then res_bind (write_entry ((no_entry RExpire (''expire:'' @ lot_id l))\<lparr>
             en_delta := - remaining, en_lot := Some (lot_id l)\<rparr>) t) (\<lambda>t.
           exec_db (set_lot_remaining (lot_id l) 0) t)
      else Inr t)"

fun apply_due_lots :: "lot list \<Rightarrow> tx \<Rightarrow> go_error + tx" where
  "apply_due_lots [] t = Inr t"
| "apply_due_lots (l # ls) t =
     res_bind (decay_lot l t) (\<lambda>(remaining, t).
     res_bind (expire_lot l remaining t) (\<lambda>t.
     apply_due_lots ls t))"

definition apply_due :: "tx \<Rightarrow> go_error + tx" where
  "apply_due t = apply_due_lots (lock_due_lots (tx_user t) (ts (tx_now t)) (tx_db t)) t"

end
