(* ===== verification/Wallet_Holds.thy ===== *)
theory Wallet_Holds
  imports Wallet
begin

text \<open>
  \<open>wallet/holds.go\<close> and \<open>wallet/capture.go\<close>: reserving credits or one unit of plan quota,
  releasing it, and turning it into a spend. \<open>uuid.Parse\<close> is the parameter \<open>parse_uuid\<close>.
\<close>

section \<open>Holds\<close>

record hold_view =
  hv_id :: uuid
  hv_user :: uuid
  hv_kind :: hold_kind
  hv_amount :: int
  hv_state :: hold_state
  hv_meetup :: string

definition hold_from_row :: "hold \<Rightarrow> hold_view" where
  "hold_from_row h = \<lparr>hv_id = hold_id h, hv_user = hold_user h, hv_kind = hold_kind h,
     hv_amount = hold_amount h, hv_state = hold_state h, hv_meetup = text_or_empty (hold_meetup h)\<rparr>"

record reserve_input =
  ri_kind :: hold_kind
  ri_amount :: int
  ri_price_version :: int
  ri_ttl :: duration
  ri_key :: string
  ri_period_start :: instant
  ri_quota_included :: int

fun hold_kind_text :: "hold_kind \<Rightarrow> string" where
  "hold_kind_text HoldCredits = ''credits''"
| "hold_kind_text HoldPlanQuota = ''plan_quota''"
| "hold_kind_text (HoldOther s) = s"

fun hold_state_text :: "hold_state \<Rightarrow> string" where
  "hold_state_text StateHeld = ''held''"
| "hold_state_text StateCaptured = ''captured''"
| "hold_state_text StateReleased = ''released''"

text \<open>
  \<open>reuseHold\<close>: \<open>Some\<close> hold is the answer, \<open>None\<close> lets \<open>Reserve\<close> carry on with the old
  key moved aside.
\<close>

definition reuse_hold :: "hold \<Rightarrow> reserve_input \<Rightarrow> tx \<Rightarrow> go_error + (hold_view option \<times> tx)" where
  "reuse_hold h i t =
     (let want = (if ri_kind i = HoldPlanQuota then 1 else ri_amount i);
          same = (hold_kind h = ri_kind i \<and> hold_amount h = want \<and>
                  hold_price_version h = ri_price_version i) in
      if same \<and> (hold_state h = StateHeld \<or> hold_state h = StateCaptured)
      then Inr (Some (hold_from_row h), t)
      else if same \<and> hold_state h = StateReleased \<and>
              text_or_empty (hold_release_reason h) \<noteq> release_settled
      then res_bind (exec_db (supersede_hold_key (hold_id h)) t) (\<lambda>t. Inr (None, t))
      else Inl (Coded \<lparr>ce_sentinel = ErrConflict, ce_code = code_idempotency_key_reused,
        ce_message = ''billing: this request was already made differently; start a new one'',
        ce_fields = []\<rparr>))"

definition adjust_quota ::
  "instant \<Rightarrow> (int \<Rightarrow> int \<Rightarrow> go_error + (int \<times> int)) \<Rightarrow> tx \<Rightarrow> go_error + tx" where
  "adjust_quota period_start f t =
     (let db = ensure_plan_usage (tx_user t) (ts period_start) (tx_db t) in
      case lock_plan_usage (tx_user t) (ts period_start) db of
        None \<Rightarrow> Inl (Wrap ''wallet: lock plan usage'' [no_rows])
      | Some u \<Rightarrow>
          res_bind (f (pu_used u) (pu_held u)) (\<lambda>(used, held).
          exec_db (set_plan_usage (tx_user t) (ts period_start) (max used 0) (max held 0))
            (t\<lparr>tx_db := db\<rparr>)))"

definition reserve_quota :: "int \<Rightarrow> int \<Rightarrow> int \<Rightarrow> go_error + (int \<times> int)" where
  "reserve_quota included used held =
     (if i32 (used + held) \<ge> included then Inl err_quota_exhausted else Inr (used, i32 (held + 1)))"

definition err_credits_debt :: "int \<Rightarrow> go_error" where
  "err_credits_debt debt = Coded \<lparr>ce_sentinel = ErrPaymentRequired, ce_code = code_credits_debt,
     ce_message = ''billing: an earlier charge is unpaid; add credits to host again'',
     ce_fields = [(''debt'', debt)]\<rparr>"

definition err_insufficient_credits :: "int \<Rightarrow> int \<Rightarrow> go_error" where
  "err_insufficient_credits cost avail = Coded \<lparr>ce_sentinel = ErrPaymentRequired,
     ce_code = code_insufficient_credits,
     ce_message = ''billing: not enough credits to host this meetup'',
     ce_fields = [(''available'', avail), (''cost'', cost), (''shortfall'', cost - avail)]\<rparr>"

text \<open>The \<open>switch in.Kind\<close> of \<open>Reserve\<close>: the checks, and the amount and period of the row.\<close>

definition reserve_kind :: "reserve_input \<Rightarrow> tx \<Rightarrow> go_error + (int \<times> instant option \<times> tx)" where
  "reserve_kind i t = (case ri_kind i of
     HoldCredits \<Rightarrow>
       if ri_amount i \<le> 0
       then Inl (wrap1 ''wallet: reserve amount must be positive'' ErrInvalidInput)
       else if available t < ri_amount i
       then Inl (err_insufficient_credits (ri_amount i) (available t))
       else Inr (ri_amount i, None, t)
   | HoldPlanQuota \<Rightarrow>
       res_bind (adjust_quota (ri_period_start i) (reserve_quota (ri_quota_included i)) t) (\<lambda>t.
       Inr (1, Some (ts (ri_period_start i)), t))
   | HoldOther k \<Rightarrow> Inl (wrap1 (''wallet: unknown hold kind \"'' @ k @ ''\"'') ErrInvalidInput))"

definition new_hold :: "reserve_input \<Rightarrow> uuid \<Rightarrow> int \<Rightarrow> instant option \<Rightarrow> tx \<Rightarrow> hold" where
  "new_hold i hid amount period t = \<lparr>hold_id = hid, hold_user = tx_user t, hold_kind = ri_kind i,
     hold_amount = amount, hold_state = StateHeld, hold_price_version = i32 (ri_price_version i),
     hold_period_start = period, hold_expires_at = ts (time_add (tx_now t) (ri_ttl i)),
     hold_key = ri_key i, hold_meetup = None, hold_captured_at = None, hold_released_at = None,
     hold_release_reason = None\<rparr>"

definition reserve_new :: "reserve_input \<Rightarrow> tx \<Rightarrow> go_error + (hold_view \<times> tx)" where
  "reserve_new i t =
     (if tx_closed t then Inl err_wallet_closed
      else if tx_debt t > 0 then Inl (err_credits_debt (tx_debt t))
      else res_bind (reserve_kind i t) (\<lambda>(amount, period, t).
        let (hid, t) = draw_uuid t; row = new_hold i hid amount period t in
        res_bind (exec_db (insert_hold row) t) (\<lambda>t.
        res_bind (write_entry ((no_entry RHold (''hold:'' @ hid))\<lparr>
          en_held_delta := (if ri_kind i = HoldCredits then ri_amount i else 0),
          en_hold := Some hid, en_ref_type := hold_kind_text (ri_kind i)\<rparr>) t) (\<lambda>t.
        Inr (hold_from_row row, t)))))"

definition reserve :: "reserve_input \<Rightarrow> tx \<Rightarrow> go_error + (hold_view \<times> tx)" where
  "reserve i t =
     (case get_hold_by_key (tx_user t) (ri_key i) (tx_db t) of
        None \<Rightarrow> reserve_new i t
      | Some h \<Rightarrow> res_bind (reuse_hold h i t) (\<lambda>(reused, t).
          case reused of Some v \<Rightarrow> Inr (v, t) | None \<Rightarrow> reserve_new i t))"

definition lock_hold :: "uuid \<Rightarrow> tx \<Rightarrow> go_error + hold" where
  "lock_hold hid t = (case query_lock_hold hid (tx_user t) (tx_db t) of
     None \<Rightarrow> Inl (wrap1 (''wallet: hold '' @ hid) ErrNotFound)
   | Some h \<Rightarrow> Inr h)"

text \<open>A \<open>NULL\<close> period start reads as Go's zero time; no plan-quota row has one.\<close>

definition zero_time :: instant where
  "zero_time = - 62135596800000000000"

definition period_of :: "hold \<Rightarrow> instant" where
  "period_of h = (case hold_period_start h of None \<Rightarrow> zero_time | Some p \<Rightarrow> p)"

definition release :: "uuid \<Rightarrow> string \<Rightarrow> tx \<Rightarrow> go_error + (bool \<times> tx)" where
  "release hid reason t =
     res_bind (lock_hold hid t) (\<lambda>h.
     if hold_state h \<noteq> StateHeld then Inr (False, t)
     else res_bind
       (case hold_kind h of
          HoldPlanQuota \<Rightarrow>
            res_bind (adjust_quota (period_of h) (\<lambda>used held. Inr (used, i32 (held - 1))) t) (\<lambda>t.
            write_entry ((no_entry RRelease (''release:'' @ hold_id h))\<lparr>
              en_hold := Some (hold_id h), en_ref_type := reason\<rparr>) t)
        | _ \<Rightarrow> write_entry ((no_entry RRelease (''release:'' @ hold_id h))\<lparr>
              en_held_delta := - hold_amount h, en_hold := Some (hold_id h), en_ref_type := reason\<rparr>) t)
       (\<lambda>t. Inr (True, t\<lparr>tx_db := mark_hold_released (hold_id h) (ts (tx_now t)) (null_text reason)
                   (tx_db t)\<rparr>)))"

definition get_hold_state :: "uuid \<Rightarrow> tx \<Rightarrow> go_error + hold_view" where
  "get_hold_state hid t = res_bind (lock_hold hid t) (\<lambda>h. Inr (hold_from_row h))"

section \<open>Capture\<close>

record capture_result =
  cr_already_captured :: bool
  cr_spent :: int
  cr_debt :: int

definition capture_quota :: "bool \<Rightarrow> int \<Rightarrow> int \<Rightarrow> go_error + (int \<times> int)" where
  "capture_quota was_held used held =
     Inr (i32 (used + 1), if was_held then i32 (held - 1) else held)"

definition capture_entry :: "hold \<Rightarrow> string \<Rightarrow> string \<Rightarrow> entry" where
  "capture_entry h meetup suffix = (no_entry RCapture (''capture:'' @ hold_id h @ suffix))\<lparr>
     en_hold := Some (hold_id h), en_ref_type := ''meetup'', en_ref_id := meetup\<rparr>"

text \<open>The \<open>case HoldCredits\<close>: the hold is undone, lots are drawn, the rest becomes debt.\<close>

definition capture_credits :: "hold \<Rightarrow> string \<Rightarrow> tx \<Rightarrow> go_error + (int \<times> tx)" where
  "capture_credits h meetup t =
     res_bind (if hold_state h = StateHeld
       then write_entry ((capture_entry h meetup '':hold'')\<lparr>en_held_delta := - hold_amount h\<rparr>) t
       else Inr t) (\<lambda>t.
     res_bind (spend_from (TakeCapture (hold_id h) meetup) 0 (hold_amount h) t) (\<lambda>(uncovered, t).
     res_bind (if uncovered > 0
       then write_entry ((capture_entry h meetup '':debt'')\<lparr>en_debt_delta := uncovered,
              en_note := ''capture after the hold lapsed; balance did not cover it''\<rparr>) t
       else Inr t) (\<lambda>t. Inr (uncovered, t))))"

definition capture :: "(string \<Rightarrow> uuid option) \<Rightarrow> uuid \<Rightarrow> string \<Rightarrow> tx \<Rightarrow> go_error + (capture_result \<times> tx)" where
  "capture parse_uuid hid meetup t =
     res_bind (lock_hold hid t) (\<lambda>h.
     if hold_state h = StateCaptured \<or>
        hold_state h = StateReleased \<and> text_or_empty (hold_release_reason h) = release_settled
     then Inr (\<lparr>cr_already_captured = True, cr_spent = 0, cr_debt = 0\<rparr>, t)
     else res_bind
       (case hold_kind h of
          HoldPlanQuota \<Rightarrow>
            res_bind (adjust_quota (period_of h) (capture_quota (hold_state h = StateHeld)) t) (\<lambda>t.
            res_bind (write_entry (capture_entry h meetup []) t) (\<lambda>t.
            Inr (\<lparr>cr_already_captured = False, cr_spent = 0, cr_debt = 0\<rparr>, t)))
        | HoldCredits \<Rightarrow>
            res_bind (capture_credits h meetup t) (\<lambda>(uncovered, t).
            Inr (\<lparr>cr_already_captured = False, cr_spent = hold_amount h - uncovered,
                  cr_debt = (if uncovered > 0 then uncovered else 0)\<rparr>, t))
        | HoldOther k \<Rightarrow> Inr (\<lparr>cr_already_captured = False, cr_spent = 0, cr_debt = 0\<rparr>, t))
       (\<lambda>(res, t). Inr (res, t\<lparr>tx_db := mark_hold_captured (hold_id h) (ts (tx_now t))
          (parse_uuid meetup) (tx_db t)\<rparr>)))"

end
