(* ===== verification/Wallet_Refunds.thy ===== *)
theory Wallet_Refunds
  imports Wallet_Decay Wallet_Holds
begin

text \<open>
  \<open>wallet/refunds.go\<close>: returning part of a captured hold to the lots it came from, and
  revoking a lot whose purchase the store refunded.
\<close>

section \<open>Refunds\<close>

definition refund_entry :: "hold \<Rightarrow> string \<Rightarrow> string \<Rightarrow> string \<Rightarrow> entry" where
  "refund_entry h ref_type ref_id suffix = (no_entry RRefund (''refund:'' @ hold_id h @ suffix))\<lparr>
     en_hold := Some (hold_id h), en_ref_type := ref_type, en_ref_id := ref_id\<rparr>"

text \<open>A full refund writes off the debt that this hold's own capture recorded.\<close>

definition write_off_debt :: "hold \<Rightarrow> string \<Rightarrow> string \<Rightarrow> tx \<Rightarrow> go_error + tx" where
  "write_off_debt h ref_type ref_id t =
     (let owed = ledger_debt_for_key (tx_user t) (''capture:'' @ hold_id h @ '':debt'') (tx_db t);
          off = min owed (tx_debt t) in
      if off > 0
      then write_entry ((refund_entry h ref_type ref_id '':debt'')\<lparr>en_debt_delta := - off,
             en_note := ''debt from this hold's capture written off by a full refund''\<rparr>) t
      else Inr t)"

text \<open>\<open>spent += a.Amount - a.Refunded\<close> over the locked allocations.\<close>

definition refundable :: "alloc list \<Rightarrow> int" where
  "refundable rows = fold (\<lambda>a s. i64 (s + i64 (al_amount a - al_refunded a))) rows 0"

text \<open>
  The loop that gives credits back. \<open>rem\<close> is the Go map of what each lot holds now (a lot
  missing from it reads as 0).
\<close>

fun give_back :: "hold \<Rightarrow> string \<Rightarrow> string \<Rightarrow> alloc list \<Rightarrow> int \<Rightarrow> (uuid \<Rightarrow> int) \<Rightarrow> tx \<Rightarrow>
    go_error + tx" where
  "give_back h ref_type ref_id [] left rem t = Inr t"
| "give_back h ref_type ref_id (a # as) left rem t =
     (if left = 0 then Inr t
      else let give = min (i64 (al_amount a - al_refunded a)) left in
        if give \<le> 0 then give_back h ref_type ref_id as left rem t
        else
          let r = i64 (rem (al_lot a) + give) in
          res_bind (exec_db (set_lot_remaining (al_lot a) r) t) (\<lambda>t.
          res_bind (exec_db (add_allocation_refund (hold_id h) (al_lot a) give) t) (\<lambda>t.
          res_bind (write_entry ((refund_entry h ref_type ref_id ('':'' @ al_lot a))\<lparr>
            en_delta := give, en_lot := Some (al_lot a)\<rparr>) t) (\<lambda>t.
          give_back h ref_type ref_id as (left - give) (rem(al_lot a := r)) t))))"

text \<open>\<open>reapplyLots\<close>: what the rules of a lot let it hold now.\<close>

definition lot_allowance :: "instant \<Rightarrow> lot \<Rightarrow> int" where
  "lot_allowance now l =
     (if expiry_due now l then 0
      else case lot_decay_percent l of
          None \<Rightarrow> lot_remaining l
        | Some p \<Rightarrow> min (lot_remaining l) (allowed_after (lot_initial l) p (lot_periods_applied l)))"

fun reapply_lots :: "lot list \<Rightarrow> tx \<Rightarrow> go_error + tx" where
  "reapply_lots [] t = Inr t"
| "reapply_lots (l # ls) t =
     (let allowed = lot_allowance (tx_now t) l; cut = i64 (lot_remaining l - allowed) in
      if cut \<le> 0 then reapply_lots ls t
      else
        let reason = (if allowed = 0 \<and> expiry_due (tx_now t) l then RExpire else RDecay) in
        res_bind (exec_db (set_lot_remaining (lot_id l) allowed) t) (\<lambda>t.
        let (u, t) = draw_uuid t in
        res_bind (write_entry ((no_entry reason (reason_text reason @ '':refund:'' @ u))\<lparr>
          en_delta := - cut, en_lot := Some (lot_id l), en_ref_type := ''refund_trim''\<rparr>) t) (\<lambda>t.
        reapply_lots ls t)))"

definition lots_map :: "lot list \<Rightarrow> uuid \<Rightarrow> int" where
  "lots_map ls i = (case find (\<lambda>l. lot_id l = i) ls of None \<Rightarrow> 0 | Some l \<Rightarrow> lot_remaining l)"

definition refund_credits :: "hold \<Rightarrow> int \<Rightarrow> string \<Rightarrow> string \<Rightarrow> tx \<Rightarrow> go_error + (int \<times> tx)" where
  "refund_credits h percent ref_type ref_id t =
     res_bind (if percent = 100 then write_off_debt h ref_type ref_id t else Inr t) (\<lambda>t.
     let rows = lock_allocations (hold_id h) (tx_db t);
         left = i64 (refundable rows * percent) sdiv 100;
         ids = map al_lot rows in
     res_bind (give_back h ref_type ref_id rows left
       (lots_map (lock_lots_by_id ids (tx_user t) (tx_db t))) t) (\<lambda>t.
     res_bind (reapply_lots (lock_lots_by_id ids (tx_user t) (tx_db t)) t) (\<lambda>t.
     res_bind (settle_debt t) (\<lambda>t. Inr (left, t)))))"

definition refund :: "uuid \<Rightarrow> int \<Rightarrow> string \<Rightarrow> string \<Rightarrow> tx \<Rightarrow> go_error + (int \<times> tx)" where
  "refund hid percent ref_type ref_id t =
     (if percent \<le> 0 then Inr (0, t)
      else res_bind (lock_hold hid t) (\<lambda>h.
        if hold_state h \<noteq> StateCaptured
        then Inl (wrap1 (''wallet: refund of a hold in state \"'' @ hold_state_text (hold_state h) @ ''\"'')
               ErrConflict)
        else if hold_kind h = HoldPlanQuota
        then if percent < 100 then Inr (0, t)
          else res_bind (adjust_quota (period_of h) (\<lambda>used held. Inr (i32 (used - 1), held)) t) (\<lambda>t.
            res_bind (write_entry (refund_entry h ref_type ref_id []) t) (\<lambda>t. Inr (0, t)))
        else refund_credits h percent ref_type ref_id t))"

section \<open>Revoking a purchase\<close>

definition revoke_lot :: "uuid \<Rightarrow> string \<Rightarrow> string \<Rightarrow> string \<Rightarrow> tx \<Rightarrow> go_error + (int \<times> int \<times> tx)" where
  "revoke_lot lid key ref_type ref_id t =
     (case get_lot lid (tx_db t) of
        None \<Rightarrow> Inl (Wrap ''wallet: lock lot to revoke'' [no_rows])
      | Some l \<Rightarrow>
        if lot_user l \<noteq> tx_user t
        then Inl (wrap1 (''wallet: lot '' @ lid @ '' is not this wallet's'') ErrInternal)
        else
          let removed = lot_remaining l; debt = lot_initial l - lot_remaining l;
              e = (\<lambda>suffix. (no_entry RReversal (key @ suffix))\<lparr>en_lot := Some lid,
                     en_ref_type := ref_type, en_ref_id := ref_id\<rparr>) in
          res_bind (if removed > 0
            then res_bind (exec_db (set_lot_remaining lid 0) t)
                   (write_entry ((e '':remaining'')\<lparr>en_delta := - removed\<rparr>))
            else Inr t) (\<lambda>t.
          res_bind (if debt > 0 then write_entry ((e '':debt'')\<lparr>en_debt_delta := debt\<rparr>) t
            else Inr t) (\<lambda>t.
          res_bind (exec_db (expire_lot_now lid (ts (tx_now t))) t) (\<lambda>t. Inr (removed, debt, t)))))"

end
