(* ===== verification/Wallet_Books.thy ===== *)
theory Wallet_Books
  imports Wallet_Refunds "HOL-Library.Multiset"
begin

text \<open>
  The bookkeeping invariant of the wallet package and how each of its building blocks keeps
  it. \<open>books s b h t\<close> says that \<open>t\<close> is a later state of the transaction opened as \<open>s\<close>, that
  every table is well formed, that nobody else's figures moved, and that the transaction's own
  figures agree with the ledger, with its lots up to \<open>b\<close> and with its open holds up to
  \<open>h\<close>. The two offsets are what the code has written to a lot or a hold but not yet to
  the ledger, or the other way round; between operations both are 0.
\<close>

section \<open>Well-formed tables\<close>

definition lots_wf :: "lot list \<Rightarrow> bool" where
  "lots_wf rows \<longleftrightarrow> distinct (map lot_id rows) \<and> (\<forall>l \<in> set rows. lot_ok l \<and> in_i64 (lot_initial l))"

definition holds_wf :: "hold list \<Rightarrow> bool" where
  "holds_wf rows \<longleftrightarrow> distinct (map hold_id rows) \<and> (\<forall>h \<in> set rows. hold_ok h \<and> in_i64 (hold_amount h))"

definition allocs_wf :: "alloc list \<Rightarrow> bool" where
  "allocs_wf rows \<longleftrightarrow> distinct (map (\<lambda>a. (al_hold a, al_lot a)) rows) \<and>
     (\<forall>a \<in> set rows. 0 < al_amount a \<and> in_i64 (al_amount a) \<and> 0 \<le> al_refunded a \<and>
        al_refunded a \<le> al_amount a)"

text \<open>An allocation joins a hold and a lot of one owner.\<close>

definition allocs_owned :: "billing_db \<Rightarrow> bool" where
  "allocs_owned db \<longleftrightarrow> (\<forall>a \<in> set (allocs db). \<exists>h \<in> set (holds db). \<exists>l \<in> set (lots db).
     al_hold a = hold_id h \<and> al_lot a = lot_id l \<and> hold_user h = lot_user l)"

text \<open>The foreign keys into \<open>wallets\<close>.\<close>

definition has_wallet :: "wallet_row list \<Rightarrow> uuid \<Rightarrow> bool" where
  "has_wallet ws u \<longleftrightarrow> list_ex (\<lambda>w. w_user w = u) ws"

definition owned :: "billing_db \<Rightarrow> bool" where
  "owned db \<longleftrightarrow>
     (\<forall>l \<in> set (lots db). has_wallet (wallets db) (lot_user l)) \<and>
     (\<forall>h \<in> set (holds db). has_wallet (wallets db) (hold_user h)) \<and>
     (\<forall>e \<in> set (ledger db). has_wallet (wallets db) (le_user e))"

definition db_ok :: "billing_db \<Rightarrow> bool" where
  "db_ok db \<longleftrightarrow> lots_wf (lots db) \<and> holds_wf (holds db) \<and> allocs_wf (allocs db) \<and>
     allocs_owned db \<and> owned db \<and> distinct (map w_user (wallets db)) \<and>
     distinct (map (\<lambda>e. (le_user e, le_key e)) (ledger db))"

definition figure_ok :: "int \<Rightarrow> bool" where
  "figure_ok x \<longleftrightarrow> 0 \<le> x \<and> in_i64 x"

definition wallet_ok :: "billing_db \<Rightarrow> wallet_row \<Rightarrow> bool" where
  "wallet_ok db w \<longleftrightarrow> \<not> wallet_mismatched db w \<and>
     figure_ok (w_balance w) \<and> figure_ok (w_held w) \<and> figure_ok (w_debt w)"

definition all_ok :: "billing_db \<Rightarrow> bool" where
  "all_ok db \<longleftrightarrow> db_ok db \<and> (\<forall>w \<in> set (wallets db). wallet_ok db w)"

lemma all_ok_reconciles: "all_ok db \<Longrightarrow> reconcile_wallets db = []"
  by (auto simp: all_ok_def wallet_ok_def reconcile_wallets_Nil_iff)

section \<open>The invariant of a transaction\<close>

text \<open>The rows of everybody but \<open>u\<close>.\<close>

definition foreign :: "uuid \<Rightarrow> billing_db \<Rightarrow> lot list \<times> hold list \<times> ledger_entry list" where
  "foreign u db = (filter (\<lambda>l. lot_user l \<noteq> u) (lots db), filter (\<lambda>h. hold_user h \<noteq> u) (holds db),
     filter (\<lambda>e. le_user e \<noteq> u) (ledger db))"

lemma filter_update_where:
  "(\<And>r. r \<in> set rows \<Longrightarrow> p r \<Longrightarrow> \<not> q r \<and> \<not> q (f r)) \<Longrightarrow> filter q (update_where p f rows) = filter q rows"
  by (induction rows) auto

definition session :: "tx \<Rightarrow> tx \<Rightarrow> bool" where
  "session s t \<longleftrightarrow> tx_user t = tx_user s \<and> tx_now t = tx_now s \<and> tx_start t = tx_start s \<and>
     tx_closed t = tx_closed s \<and> tx_uuids t = tx_uuids s \<and>
     wallets (tx_db t) = wallets (tx_db s) \<and>
     foreign (tx_user s) (tx_db t) = foreign (tx_user s) (tx_db s)"

definition own_figures :: "int \<Rightarrow> int \<Rightarrow> tx \<Rightarrow> bool" where
  "own_figures b h t \<longleftrightarrow>
     lots_remaining (tx_user t) (tx_db t) = tx_balance t + b \<and>
     holds_held (tx_user t) (tx_db t) = tx_held t + h \<and>
     ledger_balance (tx_user t) (tx_db t) = tx_balance t \<and>
     ledger_held (tx_user t) (tx_db t) = tx_held t \<and>
     ledger_debt (tx_user t) (tx_db t) = tx_debt t \<and>
     figure_ok (tx_balance t) \<and> figure_ok (tx_held t) \<and> figure_ok (tx_debt t)"

definition others_ok :: "tx \<Rightarrow> bool" where
  "others_ok t \<longleftrightarrow> (\<forall>w \<in> set (wallets (tx_db t)). w_user w \<noteq> tx_user t \<longrightarrow> wallet_ok (tx_db t) w)"

definition books :: "tx \<Rightarrow> int \<Rightarrow> int \<Rightarrow> tx \<Rightarrow> bool" where
  "books s b h t \<longleftrightarrow> session s t \<and> db_ok (tx_db t) \<and> own_figures b h t \<and> others_ok t \<and>
     has_wallet (wallets (tx_db t)) (tx_user t)"

text \<open>Only these tables and figures matter.\<close>

definition same_books :: "billing_db \<Rightarrow> billing_db \<Rightarrow> bool" where
  "same_books a b \<longleftrightarrow> wallets a = wallets b \<and> lots a = lots b \<and> holds a = holds b \<and>
     allocs a = allocs b \<and> ledger a = ledger b"

lemmas sums_defs = lots_remaining_def holds_held_def ledger_balance_def ledger_held_def ledger_debt_def

lemma wallet_ok_cong:
  assumes "lots_remaining (w_user w) a = lots_remaining (w_user w) b"
    and "holds_held (w_user w) a = holds_held (w_user w) b"
    and "ledger_balance (w_user w) a = ledger_balance (w_user w) b"
    and "ledger_held (w_user w) a = ledger_held (w_user w) b"
    and "ledger_debt (w_user w) a = ledger_debt (w_user w) b"
  shows "wallet_ok a w = wallet_ok b w"
  using assms by (simp add: wallet_ok_def wallet_mismatched_def)

lemma same_books_sums:
  assumes "same_books a b"
  shows "lots_remaining u a = lots_remaining u b" "holds_held u a = holds_held u b"
    "ledger_balance u a = ledger_balance u b" "ledger_held u a = ledger_held u b"
    "ledger_debt u a = ledger_debt u b"
  using assms by (simp_all add: same_books_def sums_defs)

lemma same_books_db_ok: "same_books a b \<Longrightarrow> db_ok a = db_ok b"
  by (simp add: same_books_def db_ok_def owned_def allocs_owned_def)

lemma same_books_wallet_ok: "same_books a b \<Longrightarrow> wallet_ok a w = wallet_ok b w"
  by (intro wallet_ok_cong same_books_sums)

lemma books_same:
  assumes "books s b h t" "same_books (tx_db t) db"
  shows "books s b h (t\<lparr>tx_db := db\<rparr>)"
proof -
  have w: "wallets db = wallets (tx_db t)" and f: "foreign u db = foreign u (tx_db t)" for u
    using assms(2) by (simp_all add: same_books_def foreign_def)
  show ?thesis
    using assms(1) same_books_db_ok [OF assms(2)] same_books_sums [OF assms(2), symmetric]
      same_books_wallet_ok [OF assms(2)] w f
    by (auto simp: books_def session_def own_figures_def others_ok_def)
qed

lemma books_drawn [simp]: "books s b h (t\<lparr>tx_drawn := n\<rparr>) = books s b h t"
proof -
  have "session s (t\<lparr>tx_drawn := n\<rparr>) = session s t" by (simp add: session_def)
  moreover have "own_figures b h (t\<lparr>tx_drawn := n\<rparr>) = own_figures b h t" by (simp add: own_figures_def)
  moreover have "others_ok (t\<lparr>tx_drawn := n\<rparr>) = others_ok t" by (simp add: others_ok_def)
  ultimately show ?thesis by (simp add: books_def)
qed

lemma books_draw: "books s b h t \<Longrightarrow> draw_uuid t = (u, t') \<Longrightarrow> books s b h t'"
  by (auto simp: draw_uuid_def)

lemma books_figures:
  "books s b h t \<Longrightarrow> figure_ok (tx_balance t) \<and> figure_ok (tx_held t) \<and> figure_ok (tx_debt t)"
  by (simp add: books_def own_figures_def)

lemma books_session:
  "books s b h t \<Longrightarrow> tx_user t = tx_user s \<and> tx_now t = tx_now s"
  by (simp add: books_def session_def)

section \<open>The ledger write\<close>

lemma books_write:
  assumes B: "books s b h t" and W: "write_entry e t = Inr t'"
    and R: "in_i64 (en_delta e)" "in_i64 (en_held_delta e)" "in_i64 (en_debt_delta e)"
  shows "books s (b - en_delta e) (h - en_held_delta e) t'"
    and "tx_balance t' = tx_balance t + en_delta e \<and> tx_held t' = tx_held t + en_held_delta e \<and>
      tx_debt t' = tx_debt t + en_debt_delta e"
    and "lots (tx_db t') = lots (tx_db t) \<and> holds (tx_db t') = holds (tx_db t) \<and>
      allocs (tx_db t') = allocs (tx_db t) \<and> tx_user t' = tx_user t \<and> tx_now t' = tx_now t"
proof -
  have f: "figure_ok (tx_balance t)" "figure_ok (tx_held t)" "figure_ok (tx_debt t)"
    using books_figures [OF B] by auto
  let ?b = "i64 (tx_balance t + en_delta e)" and ?h = "i64 (tx_held t + en_held_delta e)"
    and ?d = "i64 (tx_debt t + en_debt_delta e)"
  from W have nn: "0 \<le> ?b" "0 \<le> ?h" "0 \<le> ?d" and fresh: "\<not> key_used (en_key e) t"
    and t': "t' = t\<lparr>tx_db := (tx_db t)\<lparr>ledger := ledger (tx_db t) @ [entry_row t e ?b ?h ?d]\<rparr>,
            tx_balance := ?b, tx_held := ?h, tx_debt := ?d,
            tx_changes := record_change (en_reason e) (en_delta e) (tx_changes t)\<rparr>"
    by (auto simp: write_entry_Inr Let_def)
  have w: "?b = tx_balance t + en_delta e" "?h = tx_held t + en_held_delta e"
    "?d = tx_debt t + en_debt_delta e"
    using f R nn by (auto simp: figure_ok_def intro!: i64_add_nonneg)
  have fo: "figure_ok ?b" "figure_ok ?h" "figure_ok ?d" using nn by (auto simp: figure_ok_def)
  show "tx_balance t' = tx_balance t + en_delta e \<and> tx_held t' = tx_held t + en_held_delta e \<and>
      tx_debt t' = tx_debt t + en_debt_delta e"
    using t' w by simp
  show "lots (tx_db t') = lots (tx_db t) \<and> holds (tx_db t') = holds (tx_db t) \<and>
      allocs (tx_db t') = allocs (tx_db t) \<and> tx_user t' = tx_user t \<and> tx_now t' = tx_now t"
    using t' by simp
  have "db_ok (tx_db t')"
    using B t' fresh
    by (auto simp: books_def db_ok_def owned_def allocs_owned_def entry_row_def key_used_def
        ledger_key_exists_def list_ex_iff)
  moreover have "own_figures (b - en_delta e) (h - en_held_delta e) t'"
    using B t' w fo by (auto simp: books_def own_figures_def sums_defs entry_row_def)
  moreover have "others_ok t'"
    using B t' by (auto simp: books_def others_ok_def wallet_ok_def wallet_mismatched_def sums_defs entry_row_def)
  moreover have "session s t'" "has_wallet (wallets (tx_db t')) (tx_user t')"
    using B t' by (auto simp: books_def session_def foreign_def entry_row_def)
  ultimately show "books s (b - en_delta e) (h - en_held_delta e) t'" by (simp add: books_def)
qed

text \<open>The same with the deltas of a concrete entry named, in one fact.\<close>

definition moved :: "int \<Rightarrow> int \<Rightarrow> int \<Rightarrow> tx \<Rightarrow> tx \<Rightarrow> bool" where
  "moved d hh dd t t' \<longleftrightarrow> tx_balance t' = tx_balance t + d \<and> tx_held t' = tx_held t + hh \<and>
     tx_debt t' = tx_debt t + dd \<and> lots (tx_db t') = lots (tx_db t) \<and>
     holds (tx_db t') = holds (tx_db t) \<and> allocs (tx_db t') = allocs (tx_db t) \<and>
     tx_user t' = tx_user t \<and> tx_now t' = tx_now t"

lemma books_write_at:
  assumes "books s b h t" "write_entry e t = Inr t'"
    and "en_delta e = d" "en_held_delta e = hh" "en_debt_delta e = dd"
    and "in_i64 d" "in_i64 hh" "in_i64 dd"
  shows "books s (b - d) (h - hh) t' \<and> moved d hh dd t t'"
  using books_write [OF assms(1,2)] assms(3-8) by (simp add: moved_def)

section \<open>Row updates\<close>

text \<open>Rewriting lots or holds without touching their ids and owners keeps the tables well formed.\<close>

lemma map_pair_ex:
  assumes "map (\<lambda>r. (f r, g r)) xs = map (\<lambda>r. (f r, g r)) ys"
  shows "(\<exists>r \<in> set xs. P (f r) (g r)) = (\<exists>r \<in> set ys. P (f r) (g r))"
    and "(\<forall>r \<in> set xs. P (f r) (g r)) = (\<forall>r \<in> set ys. P (f r) (g r))"
    and "map f xs = map f ys"
proof -
  have "(\<lambda>r. (f r, g r)) ` set xs = (\<lambda>r. (f r, g r)) ` set ys" using assms by (metis list.set_map)
  moreover have "(\<exists>r \<in> set zs. Q (f r) (g r)) = (\<exists>p \<in> (\<lambda>r. (f r, g r)) ` set zs. Q (fst p) (snd p))"
    for Q and zs by simp
  ultimately have a: "(\<exists>r \<in> set xs. Q (f r) (g r)) = (\<exists>r \<in> set ys. Q (f r) (g r))" for Q
    by presburger
  show "(\<exists>r \<in> set xs. P (f r) (g r)) = (\<exists>r \<in> set ys. P (f r) (g r))" by (rule a)
  show "(\<forall>r \<in> set xs. P (f r) (g r)) = (\<forall>r \<in> set ys. P (f r) (g r))"
    using a [of "\<lambda>x y. \<not> P x y"] by blast
  show "map f xs = map f ys" using arg_cong [OF assms, of "map fst"] by (simp add: comp_def)
qed

lemma db_ok_lots:
  assumes "db_ok db" "lots_wf rows"
    and m: "map (\<lambda>l. (lot_id l, lot_user l)) rows = map (\<lambda>l. (lot_id l, lot_user l)) (lots db)"
  shows "db_ok (db\<lparr>lots := rows\<rparr>)"
proof -
  have "allocs_owned (db\<lparr>lots := rows\<rparr>) = allocs_owned db"
    unfolding allocs_owned_def
    using map_pair_ex(1) [OF m, where P = "\<lambda>i u. x = i \<and> y = u" for x y]
    by simp
  moreover have "owned (db\<lparr>lots := rows\<rparr>) = owned db"
    unfolding owned_def using map_pair_ex(2) [OF m, of "\<lambda>i u. has_wallet (wallets db) u"] by simp
  ultimately show ?thesis using assms(1,2) by (simp add: db_ok_def)
qed

lemma db_ok_holds:
  assumes "db_ok db" "holds_wf rows"
    and m: "map (\<lambda>h. (hold_id h, hold_user h)) rows = map (\<lambda>h. (hold_id h, hold_user h)) (holds db)"
  shows "db_ok (db\<lparr>holds := rows\<rparr>)"
proof -
  have "allocs_owned (db\<lparr>holds := rows\<rparr>) = allocs_owned db"
    unfolding allocs_owned_def
    using map_pair_ex(1) [OF m, where P = "\<lambda>i u. \<exists>l \<in> set (lots db). x = i \<and> y = lot_id l \<and> u = lot_user l"
      for x y] by simp
  moreover have "owned (db\<lparr>holds := rows\<rparr>) = owned db"
    unfolding owned_def using map_pair_ex(2) [OF m, of "\<lambda>i u. has_wallet (wallets db) u"] by simp
  ultimately show ?thesis using assms(1,2) by (simp add: db_ok_def)
qed

lemma books_lots_wf: "books s b h t \<Longrightarrow> lots_wf (lots (tx_db t))"
  by (simp add: books_def db_ok_def)

lemma books_holds_wf: "books s b h t \<Longrightarrow> holds_wf (holds (tx_db t))"
  by (simp add: books_def db_ok_def)

lemma books_allocs_wf: "books s b h t \<Longrightarrow> allocs_wf (allocs (tx_db t))"
  by (simp add: books_def db_ok_def)

text \<open>Replacing the lots table, when only the transaction's own lots change in total.\<close>

lemma books_lots:
  assumes B: "books s b h t" and d: "db_ok ((tx_db t)\<lparr>lots := rows\<rparr>)"
    and own: "sum_where (\<lambda>l. lot_user l = tx_user t) lot_remaining rows = lots_remaining (tx_user t) (tx_db t) + x"
    and oth: "\<And>u. u \<noteq> tx_user t \<Longrightarrow>
      sum_where (\<lambda>l. lot_user l = u) lot_remaining rows = lots_remaining u (tx_db t)"
    and fo: "filter (\<lambda>l. lot_user l \<noteq> tx_user t) rows = filter (\<lambda>l. lot_user l \<noteq> tx_user t) (lots (tx_db t))"
  shows "books s (b + x) h (t\<lparr>tx_db := (tx_db t)\<lparr>lots := rows\<rparr>\<rparr>)"
proof -
  have "wallet_ok ((tx_db t)\<lparr>lots := rows\<rparr>) w = wallet_ok (tx_db t) w" if "w_user w \<noteq> tx_user t" for w
    using oth [OF that] by (intro wallet_ok_cong) (simp_all add: sums_defs)
  then have "others_ok (t\<lparr>tx_db := (tx_db t)\<lparr>lots := rows\<rparr>\<rparr>)"
    using B by (simp add: books_def others_ok_def)
  moreover have "own_figures (b + x) h (t\<lparr>tx_db := (tx_db t)\<lparr>lots := rows\<rparr>\<rparr>)"
    using B own by (simp add: books_def own_figures_def sums_defs)
  moreover have "session s (t\<lparr>tx_db := (tx_db t)\<lparr>lots := rows\<rparr>\<rparr>)"
    using B fo by (simp add: books_def session_def foreign_def)
  ultimately show ?thesis using B d by (simp add: books_def)
qed

lemma books_holds:
  assumes B: "books s b h t" and d: "db_ok ((tx_db t)\<lparr>holds := rows\<rparr>)"
    and own: "holds_held (tx_user t) ((tx_db t)\<lparr>holds := rows\<rparr>) = holds_held (tx_user t) (tx_db t) + x"
    and oth: "\<And>u. u \<noteq> tx_user t \<Longrightarrow>
      holds_held u ((tx_db t)\<lparr>holds := rows\<rparr>) = holds_held u (tx_db t)"
    and fo: "filter (\<lambda>h. hold_user h \<noteq> tx_user t) rows = filter (\<lambda>h. hold_user h \<noteq> tx_user t) (holds (tx_db t))"
  shows "books s b (h + x) (t\<lparr>tx_db := (tx_db t)\<lparr>holds := rows\<rparr>\<rparr>)"
proof -
  have "wallet_ok ((tx_db t)\<lparr>holds := rows\<rparr>) w = wallet_ok (tx_db t) w" if "w_user w \<noteq> tx_user t" for w
    using oth [OF that] by (intro wallet_ok_cong) (simp_all add: sums_defs)
  then have "others_ok (t\<lparr>tx_db := (tx_db t)\<lparr>holds := rows\<rparr>\<rparr>)"
    using B by (simp add: books_def others_ok_def)
  moreover have "own_figures b (h + x) (t\<lparr>tx_db := (tx_db t)\<lparr>holds := rows\<rparr>\<rparr>)"
    using B own by (simp add: books_def own_figures_def lots_remaining_def ledger_balance_def
      ledger_held_def ledger_debt_def)
  moreover have "session s (t\<lparr>tx_db := (tx_db t)\<lparr>holds := rows\<rparr>\<rparr>)"
    using B fo by (simp add: books_def session_def foreign_def)
  ultimately show ?thesis using B d by (simp add: books_def)
qed

subsection \<open>Lots\<close>

lemma lot_rows_update:
  assumes "lots_wf rows" "\<And>x. lot_id (f x) = lot_id x \<and> lot_initial (f x) = lot_initial x"
    and "list_all (\<lambda>l. lot_id l = i \<longrightarrow> lot_ok l) (update_where (\<lambda>l. lot_id l = i) f rows)"
  shows "lots_wf (update_where (\<lambda>l. lot_id l = i) f rows)"
proof -
  have "map lot_id (update_where (\<lambda>l. lot_id l = i) f rows) = map lot_id rows"
    using assms(2) by (simp add: map_update_where)
  moreover have "lot_ok l \<and> in_i64 (lot_initial l)" if "l \<in> set (update_where (\<lambda>l. lot_id l = i) f rows)" for l
    using that assms by (auto simp: lots_wf_def list_all_iff set_update_where)
  ultimately show ?thesis using assms(1) by (simp add: lots_wf_def)
qed

lemma books_update_lot:
  assumes B: "books s b h t" and l: "l \<in> set (lots (tx_db t))" "lot_user l = tx_user t"
    and f: "\<And>x. lot_id (f x) = lot_id x \<and> lot_user (f x) = lot_user x \<and> lot_initial (f x) = lot_initial x"
    and U: "update_lot (lot_id l) f (tx_db t) = Inr db"
  shows "books s (b + (lot_remaining (f l) - lot_remaining l)) h (t\<lparr>tx_db := db\<rparr>)"
    and "lot_ok (f l)"
    and "lots db = update_where (\<lambda>x. lot_id x = lot_id l) f (lots (tx_db t))"
    and "db = (tx_db t)\<lparr>lots := lots db\<rparr>"
proof -
  let ?rows = "update_where (\<lambda>x. lot_id x = lot_id l) f (lots (tx_db t))"
  from U have db: "db = (tx_db t)\<lparr>lots := ?rows\<rparr>"
    and la: "list_all (\<lambda>x. lot_id x = lot_id l \<longrightarrow> lot_ok x) ?rows"
    by (auto simp: update_lot_Inr)
  from db show "lots db = ?rows" by simp
  from db show "db = (tx_db t)\<lparr>lots := lots db\<rparr>" by simp
  have wf: "lots_wf ?rows" using books_lots_wf [OF B] f la by (intro lot_rows_update) auto
  show "lot_ok (f l)" using la l f by (auto simp: list_all_iff set_update_where)
  have "map (\<lambda>l. (lot_id l, lot_user l)) ?rows = map (\<lambda>l. (lot_id l, lot_user l)) (lots (tx_db t))"
    using f by (simp add: map_update_where)
  with B wf have d: "db_ok ((tx_db t)\<lparr>lots := ?rows\<rparr>)"
    by (intro db_ok_lots) (auto simp: books_def)
  have dis: "distinct (map lot_id (lots (tx_db t)))" using books_lots_wf [OF B] by (simp add: lots_wf_def)
  have "filter (\<lambda>l. lot_user l \<noteq> tx_user t) ?rows = filter (\<lambda>l. lot_user l \<noteq> tx_user t) (lots (tx_db t))"
    using distinct_key_unique [OF dis _ l(1)] f l by (intro filter_update_where) (metis (no_types, lifting))
  then show "books s (b + (lot_remaining (f l) - lot_remaining l)) h (t\<lparr>tx_db := db\<rparr>)"
    unfolding db using sum_where_update_key [OF dis l(1), where u = f] f l
    by (intro books_lots [OF B d]) (auto simp: lots_remaining_def)
qed

lemma update_lot_row:
  assumes "update_lot (lot_id l) f db = Inr db'" "l \<in> set (lots db)" "lot_id (f l) = lot_id l"
  shows "f l \<in> set (lots db') \<and> lot_ok (f l)"
proof -
  have "f l \<in> set (lots db')" using assms(1,2) by (auto simp: update_lot_Inr set_update_where)
  moreover have "\<forall>x \<in> set (lots db'). lot_id x = lot_id l \<longrightarrow> lot_ok x"
    using assms(1) by (auto simp: update_lot_Inr list_all_iff)
  ultimately show ?thesis using assms(3) by blast
qed

lemma update_lot_other:
  assumes "update_lot i f db = Inr db'" "x \<in> set (lots db)" "lot_id x \<noteq> i"
  shows "x \<in> set (lots db')"
  using assms by (auto simp: update_lot_Inr set_update_where)

lemma books_insert_lot:
  assumes B: "books s b h t" and u: "lot_user l = tx_user t" and r: "in_i64 (lot_initial l)"
    and I: "insert_lot l (tx_db t) = Inr db"
  shows "books s (b + lot_remaining l) h (t\<lparr>tx_db := db\<rparr>)"
proof -
  let ?rows = "lots (tx_db t) @ [l]"
  from I have db: "db = (tx_db t)\<lparr>lots := ?rows\<rparr>" and ok: "lot_ok l"
    and new: "\<forall>x \<in> set (lots (tx_db t)). lot_id x \<noteq> lot_id l"
    by (auto simp: insert_lot_def list_ex_iff split: if_splits)
  have "lots_wf ?rows" using books_lots_wf [OF B] ok new r by (auto simp: lots_wf_def)
  then have d: "db_ok ((tx_db t)\<lparr>lots := ?rows\<rparr>)"
    using B u by (fastforce simp: books_def db_ok_def owned_def allocs_owned_def)
  show ?thesis unfolding db using u
    by (intro books_lots [OF B d]) (auto simp: lots_remaining_def)
qed

subsection \<open>Holds\<close>

lemma holds_update_wf:
  assumes "holds_wf rows" "\<And>x. x \<in> set rows \<Longrightarrow> p x \<Longrightarrow>
      hold_id (f x) = hold_id x \<and> hold_amount (f x) = hold_amount x \<and> hold_ok (f x)"
  shows "holds_wf (update_where p f rows)"
proof -
  have "map hold_id (update_where p f rows) = map hold_id rows"
    using assms(2) by (auto simp: update_where_def)
  then show ?thesis using assms by (auto simp: holds_wf_def set_update_where)
qed

text \<open>A change of one hold moves what is held by the change on that hold.\<close>

definition held_part :: "hold \<Rightarrow> int" where
  "held_part x = (if hold_state x = StateHeld \<and> hold_kind x = HoldCredits then hold_amount x else 0)"

lemma holds_held_alt:
  "holds_held u db = sum_where (\<lambda>x. hold_user x = u) held_part (holds db)"
proof -
  have "sum_where (\<lambda>x. hold_user x = u \<and> hold_state x = StateHeld \<and> hold_kind x = HoldCredits) hold_amount xs
    = sum_where (\<lambda>x. hold_user x = u) held_part xs" for xs
    by (induction xs) (auto simp: held_part_def)
  then show ?thesis by (simp add: holds_held_def)
qed

lemma books_update_hold:
  assumes B: "books s b h t" and x: "x \<in> set (holds (tx_db t))" "hold_user x = tx_user t"
    and f: "\<And>y. hold_id (f y) = hold_id y \<and> hold_user (f y) = hold_user y \<and>
      hold_amount (f y) = hold_amount y \<and> hold_kind (f y) = hold_kind y \<and>
      hold_key (f y) = hold_key y \<and> hold_period_start (f y) = hold_period_start y"
  shows "books s b (h + (held_part (f x) - held_part x))
    (t\<lparr>tx_db := (tx_db t)\<lparr>holds := update_where (\<lambda>y. hold_id y = hold_id x) f (holds (tx_db t))\<rparr>\<rparr>)"
proof -
  let ?rows = "update_where (\<lambda>y. hold_id y = hold_id x) f (holds (tx_db t))"
  have ok: "hold_ok (f y) = hold_ok y" for y using f [of y] by (simp add: hold_ok_def)
  have wf: "holds_wf ?rows" using books_holds_wf [OF B] f ok
    by (intro holds_update_wf) (auto simp: holds_wf_def)
  have "map (\<lambda>h. (hold_id h, hold_user h)) ?rows = map (\<lambda>h. (hold_id h, hold_user h)) (holds (tx_db t))"
    using f by (simp add: map_update_where)
  with B wf have d: "db_ok ((tx_db t)\<lparr>holds := ?rows\<rparr>)" by (intro db_ok_holds) (auto simp: books_def)
  have dis: "distinct (map hold_id (holds (tx_db t)))" using books_holds_wf [OF B] by (simp add: holds_wf_def)
  have "filter (\<lambda>h. hold_user h \<noteq> tx_user t) ?rows = filter (\<lambda>h. hold_user h \<noteq> tx_user t) (holds (tx_db t))"
    using distinct_key_unique [OF dis _ x(1)] f x by (intro filter_update_where) (metis (no_types, lifting))
  then show ?thesis
    using sum_where_update_key [OF dis x(1), where u = f] f x
    by (intro books_holds [OF B d]) (auto simp: holds_held_alt)
qed

lemma books_insert_hold:
  assumes B: "books s b h t" and x: "hold_user x = tx_user t" "in_i64 (hold_amount x)"
    and I: "insert_hold x (tx_db t) = Inr db"
  shows "books s b (h + held_part x) (t\<lparr>tx_db := db\<rparr>)"
proof -
  let ?rows = "holds (tx_db t) @ [x]"
  from I have db: "db = (tx_db t)\<lparr>holds := ?rows\<rparr>" and ok: "hold_ok x"
    and new: "\<forall>y \<in> set (holds (tx_db t)). hold_id y \<noteq> hold_id x"
    by (auto simp: insert_hold_def list_ex_iff split: if_splits)
  have "holds_wf ?rows" using books_holds_wf [OF B] ok new x by (auto simp: holds_wf_def)
  then have d: "db_ok ((tx_db t)\<lparr>holds := ?rows\<rparr>)"
    using B x by (fastforce simp: books_def db_ok_def owned_def allocs_owned_def)
  show ?thesis unfolding db using x
    by (intro books_holds [OF B d]) (auto simp: holds_held_alt)
qed

text \<open>Moving the key of a released hold aside changes no figure.\<close>

lemma books_supersede:
  assumes B: "books s b h t" and x: "x \<in> set (holds (tx_db t))" "hold_user x = tx_user t"
    and S: "supersede_hold_key (hold_id x) (tx_db t) = Inr db"
  shows "books s b h (t\<lparr>tx_db := db\<rparr>)"
proof -
  let ?p = "\<lambda>h. hold_id h = hold_id x \<and> hold_state h = StateReleased"
    and ?f = "\<lambda>h. h\<lparr>hold_key := hold_key h @ '':superseded:'' @ hold_id h\<rparr>"
  let ?rows = "update_where ?p ?f (holds (tx_db t))"
  from S have db: "db = (tx_db t)\<lparr>holds := ?rows\<rparr>"
    by (auto simp: supersede_hold_key_def Let_def split: if_splits)
  have wf: "holds_wf ?rows" using books_holds_wf [OF B]
    by (intro holds_update_wf) (auto simp: holds_wf_def hold_ok_def)
  have "map (\<lambda>h. (hold_id h, hold_user h)) ?rows = map (\<lambda>h. (hold_id h, hold_user h)) (holds (tx_db t))"
    by (simp add: map_update_where)
  with B wf have d: "db_ok ((tx_db t)\<lparr>holds := ?rows\<rparr>)" by (intro db_ok_holds) (auto simp: books_def)
  have "sum_where (\<lambda>x. hold_user x = u) held_part (update_where ?p ?f xs) =
      sum_where (\<lambda>x. hold_user x = u) held_part xs" for u xs
    by (induction xs) (auto simp: held_part_def)
  then have "holds_held u db = holds_held u (tx_db t)" for u by (simp add: holds_held_alt db)
  moreover have dis: "distinct (map hold_id (holds (tx_db t)))" using books_holds_wf [OF B] by (simp add: holds_wf_def)
  have "filter (\<lambda>h. hold_user h \<noteq> tx_user t) ?rows = filter (\<lambda>h. hold_user h \<noteq> tx_user t) (holds (tx_db t))"
    using distinct_key_unique [OF dis _ x(1)] x by (intro filter_update_where) auto
  ultimately show ?thesis using books_holds [OF B d, of 0] by (simp add: db)
qed

subsection \<open>Allocations\<close>

lemma books_allocs:
  assumes B: "books s b h t" and wf: "allocs_wf rows" and ow: "allocs_owned ((tx_db t)\<lparr>allocs := rows\<rparr>)"
  shows "books s b h (t\<lparr>tx_db := (tx_db t)\<lparr>allocs := rows\<rparr>\<rparr>)"
proof -
  have "wallet_ok ((tx_db t)\<lparr>allocs := rows\<rparr>) w = wallet_ok (tx_db t) w" for w
    by (intro wallet_ok_cong) (simp_all add: sums_defs)
  then have "others_ok (t\<lparr>tx_db := (tx_db t)\<lparr>allocs := rows\<rparr>\<rparr>)"
    using B by (simp add: books_def others_ok_def)
  moreover have "own_figures b h (t\<lparr>tx_db := (tx_db t)\<lparr>allocs := rows\<rparr>\<rparr>)"
    using B by (simp add: books_def own_figures_def sums_defs)
  moreover have "session s (t\<lparr>tx_db := (tx_db t)\<lparr>allocs := rows\<rparr>\<rparr>)"
    using B by (simp add: books_def session_def foreign_def)
  moreover have "db_ok ((tx_db t)\<lparr>allocs := rows\<rparr>)"
    using B wf ow by (simp add: books_def db_ok_def owned_def)
  ultimately show ?thesis using B by (simp add: books_def)
qed

lemma allocs_owned_keys:
  assumes "allocs_owned db"
    and m: "map (\<lambda>a. (al_hold a, al_lot a)) rows = map (\<lambda>a. (al_hold a, al_lot a)) (allocs db)"
  shows "allocs_owned (db\<lparr>allocs := rows\<rparr>)"
  using assms(1) map_pair_ex(2) [OF m, of "\<lambda>i j. \<exists>h \<in> set (holds db). \<exists>l \<in> set (lots db).
    i = hold_id h \<and> j = lot_id l \<and> hold_user h = lot_user l"] by (simp add: allocs_owned_def)

lemma books_insert_allocation:
  assumes B: "books s b h t" and n: "in_i64 n"
    and H: "x \<in> set (holds (tx_db t))" and L: "l \<in> set (lots (tx_db t))"
    and U: "hold_user x = lot_user l"
    and I: "insert_allocation (hold_id x) (lot_id l) n (tx_db t) = Inr db"
  shows "books s b h (t\<lparr>tx_db := db\<rparr>)"
    and "db = (tx_db t)\<lparr>allocs := allocs db\<rparr>"
proof -
  let ?q = "\<lambda>a. al_hold a = hold_id x \<and> al_lot a = lot_id l"
  let ?upd = "update_where ?q (\<lambda>a. a\<lparr>al_amount := al_amount a + n\<rparr>) (allocs (tx_db t))"
  let ?new = "allocs (tx_db t) @ [\<lparr>al_hold = hold_id x, al_lot = lot_id l, al_amount = n, al_refunded = 0\<rparr>]"
  have wf0: "allocs_wf (allocs (tx_db t))" and ow0: "allocs_owned (tx_db t)"
    using B by (auto simp: books_def db_ok_def)
  from I have n0: "0 < n" by (auto simp: insert_allocation_def split: if_splits)
  from I consider "db = (tx_db t)\<lparr>allocs := ?upd\<rparr>" "\<forall>a \<in> set (allocs (tx_db t)). ?q a \<longrightarrow> in_i64 (al_amount a + n)"
    | "db = (tx_db t)\<lparr>allocs := ?new\<rparr>" "\<forall>a \<in> set (allocs (tx_db t)). \<not> ?q a"
    by (auto simp: insert_allocation_def list_ex_iff split: if_splits)
  then show "books s b h (t\<lparr>tx_db := db\<rparr>)"
  proof cases
    case 1
    have m: "map (\<lambda>a. (al_hold a, al_lot a)) ?upd = map (\<lambda>a. (al_hold a, al_lot a)) (allocs (tx_db t))"
      by (simp add: map_update_where)
    then have "allocs_wf ?upd" using wf0 1(2) n0 by (auto simp: allocs_wf_def set_update_where)
    moreover have "allocs_owned ((tx_db t)\<lparr>allocs := ?upd\<rparr>)"
      using ow0 m by (rule allocs_owned_keys)
    ultimately show ?thesis unfolding 1(1) by (rule books_allocs [OF B])
  next
    case 2
    have "allocs_wf ?new" using wf0 2(2) n n0 by (auto simp: allocs_wf_def)
    moreover have "allocs_owned ((tx_db t)\<lparr>allocs := ?new\<rparr>)"
      using ow0 H L U by (auto simp: allocs_owned_def)
    ultimately show ?thesis unfolding 2(1) by (rule books_allocs [OF B])
  qed
  show "db = (tx_db t)\<lparr>allocs := allocs db\<rparr>"
    using I by (auto simp: insert_allocation_def split: if_splits)
qed

lemma books_allocation_refund:
  assumes B: "books s b h t" and I: "add_allocation_refund i l n (tx_db t) = Inr db"
  shows "books s b h (t\<lparr>tx_db := db\<rparr>)"
    and "db = (tx_db t)\<lparr>allocs := allocs db\<rparr>"
    and "\<forall>a \<in> set (allocs (tx_db t)). al_lot a \<noteq> l \<longrightarrow> a \<in> set (allocs db)"
proof -
  let ?q = "\<lambda>a. al_hold a = i \<and> al_lot a = l"
  let ?upd = "update_where ?q (\<lambda>a. a\<lparr>al_refunded := al_refunded a + n\<rparr>) (allocs (tx_db t))"
  from I have db: "db = (tx_db t)\<lparr>allocs := ?upd\<rparr>"
    and c: "list_all (\<lambda>a. ?q a \<longrightarrow> 0 \<le> al_refunded a \<and> al_refunded a \<le> al_amount a) ?upd"
    by (auto simp: add_allocation_refund_def Let_def split: if_splits)
  show "db = (tx_db t)\<lparr>allocs := allocs db\<rparr>" using db by simp
  show "\<forall>a \<in> set (allocs (tx_db t)). al_lot a \<noteq> l \<longrightarrow> a \<in> set (allocs db)"
    using db by (auto simp: set_update_where)
  have wf0: "allocs_wf (allocs (tx_db t))" and ow0: "allocs_owned (tx_db t)"
    using B by (auto simp: books_def db_ok_def)
  have m: "map (\<lambda>a. (al_hold a, al_lot a)) ?upd = map (\<lambda>a. (al_hold a, al_lot a)) (allocs (tx_db t))"
    by (simp add: map_update_where)
  have "0 \<le> al_refunded a + n \<and> al_refunded a + n \<le> al_amount a" if "a \<in> set (allocs (tx_db t))" "?q a" for a
  proof -
    have "a\<lparr>al_refunded := al_refunded a + n\<rparr> \<in> set ?upd" using that by (auto simp: set_update_where)
    then show ?thesis using c that unfolding list_all_iff by (metis (no_types, lifting) alloc.ext_inject
      alloc.surjective alloc.update_convs(4))
  qed
  then have "allocs_wf ?upd" using wf0 m by (auto simp: allocs_wf_def set_update_where)
  moreover have "allocs_owned ((tx_db t)\<lparr>allocs := ?upd\<rparr>)"
    using ow0 m by (rule allocs_owned_keys)
  ultimately show "books s b h (t\<lparr>tx_db := db\<rparr>)" unfolding db by (rule books_allocs [OF B])
qed

subsection \<open>Plan usage\<close>

lemma books_adjust_quota:
  assumes B: "books s b h t" and A: "adjust_quota p f t = Inr t'"
  shows "books s b h t'" and "holds (tx_db t') = holds (tx_db t) \<and> tx_balance t' = tx_balance t \<and>
    tx_held t' = tx_held t \<and> tx_debt t' = tx_debt t \<and> tx_user t' = tx_user t \<and> lots (tx_db t') = lots (tx_db t)"
proof -
  have e: "same_books db (ensure_plan_usage u q db)" for db u q
    by (simp add: ensure_plan_usage_def same_books_def)
  from A obtain us hl db where
    db: "set_plan_usage (tx_user t) (ts p) us hl (ensure_plan_usage (tx_user t) (ts p) (tx_db t)) = Inr db"
    and t': "t' = t\<lparr>tx_db := db\<rparr>"
    by (auto simp: adjust_quota_def Let_def split: option.splits)
  from db have "same_books (ensure_plan_usage (tx_user t) (ts p) (tx_db t)) db"
    by (auto simp: set_plan_usage_def same_books_def split: if_splits)
  with e have sb: "same_books (tx_db t) db" unfolding same_books_def by metis
  with B t' show "books s b h t'" by (simp add: books_same)
  show "holds (tx_db t') = holds (tx_db t) \<and> tx_balance t' = tx_balance t \<and>
    tx_held t' = tx_held t \<and> tx_debt t' = tx_debt t \<and> tx_user t' = tx_user t \<and> lots (tx_db t') = lots (tx_db t)"
    using sb t' by (simp add: same_books_def)
qed

end
