(* ===== verification/Wallet_Keeps.thy ===== *)
theory Wallet_Keeps
  imports Wallet_Books
begin

text \<open>
  Every operation of the wallet package keeps the books, and what each one does to the
  wallet's figures: the spend loop, grants, removals, reservations, releases, captures,
  refunds, revocations and the decay that runs first.
\<close>

section \<open>The spend loop\<close>

text \<open>A capture draws for a hold of this wallet.\<close>

definition taker_ok :: "taker \<Rightarrow> tx \<Rightarrow> bool" where
  "taker_ok k t = (case k of
     TakeCapture hid m \<Rightarrow> \<exists>x \<in> set (holds (tx_db t)). hold_id x = hid \<and> hold_user x = tx_user t
   | _ \<Rightarrow> True)"

definition debt_part :: "taker \<Rightarrow> int \<Rightarrow> int" where
  "debt_part k n = (case k of TakeDebt \<Rightarrow> n | _ \<Rightarrow> 0)"

text \<open>What a (partial) spend of \<open>n\<close> credits does to the figures.\<close>

definition spent :: "taker \<Rightarrow> int \<Rightarrow> tx \<Rightarrow> tx \<Rightarrow> bool" where
  "spent k n t t' \<longleftrightarrow> tx_balance t' = tx_balance t - n \<and> tx_held t' = tx_held t \<and>
     tx_debt t' = tx_debt t - debt_part k n \<and> holds (tx_db t') = holds (tx_db t) \<and>
     tx_user t' = tx_user t \<and> tx_now t' = tx_now t"

lemma spent_trans: "spent k m t t' \<Longrightarrow> spent k n t' t'' \<Longrightarrow> spent k (m + n) t t''"
  by (auto simp: spent_def debt_part_def split: taker.splits)

lemma spent_refl [simp]: "spent k 0 t t"
  by (auto simp: spent_def debt_part_def split: taker.splits)

lemma taker_ok_spent: "taker_ok k t \<Longrightarrow> spent k n t t' \<Longrightarrow> taker_ok k t'"
  by (auto simp: taker_ok_def spent_def split: taker.splits)

lemma no_entry_sel [simp]:
  "en_delta (no_entry r k) = 0" "en_held_delta (no_entry r k) = 0" "en_debt_delta (no_entry r k) = 0"
  "en_key (no_entry r k) = k" "en_reason (no_entry r k) = r"
  by (simp_all add: no_entry_def)

lemma in_i64_zero [simp]: "in_i64 0"
  by (simp add: in_i64_def)

lemma in_i64_neg: "in_i64 n \<Longrightarrow> 0 \<le> n \<Longrightarrow> in_i64 (- n)"
  by (auto simp: in_i64_def)

lemma in_i64_le: "in_i64 n \<Longrightarrow> 0 \<le> m \<Longrightarrow> m \<le> n \<Longrightarrow> in_i64 m"
  by (auto simp: in_i64_def)

lemma take_piece_books:
  assumes B: "books s b h t" and n: "0 < n" "in_i64 n" and k: "taker_ok k t"
    and l: "l \<in> set (lots (tx_db t))" "lot_user l = tx_user t"
    and T: "take_piece k p (lot_id l) n t = Inr t'"
  shows "books s (b + n) h t' \<and> spent k n t t' \<and> lots (tx_db t') = lots (tx_db t)"
proof (cases k)
  case TakeDebt
  obtain u t1 where d: "draw_uuid t = (u, t1)" by (cases "draw_uuid t")
  then have t1: "t1 = t\<lparr>tx_drawn := Suc (tx_drawn t)\<rparr>" by (simp add: draw_uuid_def)
  from T TakeDebt d have W: "write_entry ((no_entry RReversal (''debt:'' @ u))\<lparr>en_delta := - n, en_debt_delta := - n,
        en_lot := Some (lot_id l), en_ref_type := ''debt''\<rparr>) t1 = Inr t'" by simp
  have "books s (b - - n) (h - 0) t' \<and> moved (- n) 0 (- n) t1 t'"
    by (rule books_write_at [OF books_draw [OF B d] W]) (use n in \<open>auto simp: in_i64_neg\<close>)
  then show ?thesis by (simp add: spent_def debt_part_def moved_def TakeDebt t1)
next
  case (TakeRemove key oper nte)
  with T have W: "write_entry ((no_entry RAdminAdjust (key @ '':'' @ digits_of_nat (Suc p)))\<lparr>en_delta := - n,
       en_lot := Some (lot_id l), en_ref_type := ''admin'', en_operator := oper, en_note := nte\<rparr>) t = Inr t'"
    by simp
  have "books s (b - - n) (h - 0) t' \<and> moved (- n) 0 0 t t'"
    by (rule books_write_at [OF B W]) (use n in \<open>auto simp: in_i64_neg\<close>)
  then show ?thesis by (simp add: spent_def debt_part_def moved_def TakeRemove)
next
  case (TakeCapture hid m)
  with k obtain x where x: "x \<in> set (holds (tx_db t))" "hold_id x = hid" "hold_user x = tx_user t"
    by (auto simp: taker_ok_def)
  from T TakeCapture obtain db where
    I: "insert_allocation (hold_id x) (lot_id l) n (tx_db t) = Inr db" and
    W: "write_entry ((no_entry RCapture (''capture:'' @ hid @ '':'' @ lot_id l))\<lparr>en_delta := - n,
       en_lot := Some (lot_id l), en_hold := Some hid, en_ref_type := ''meetup'', en_ref_id := m\<rparr>)
       (t\<lparr>tx_db := db\<rparr>) = Inr t'"
    using x by auto
  have U: "hold_user x = lot_user l" using x l by simp
  from books_insert_allocation [OF B n(2) x(1) l(1) U I]
  have B1: "books s b h (t\<lparr>tx_db := db\<rparr>)" and db: "db = (tx_db t)\<lparr>allocs := allocs db\<rparr>" by auto
  from db have "lots db = lots (tx_db t)" "holds db = holds (tx_db t)"
    by (metis billing_db.select_convs billing_db.surjective billing_db.update_convs(4))+
  moreover have "books s (b - - n) (h - 0) t' \<and> moved (- n) 0 0 (t\<lparr>tx_db := db\<rparr>) t'"
    by (rule books_write_at [OF B1 W]) (use n in \<open>auto simp: in_i64_neg\<close>)
  ultimately show ?thesis by (simp add: spent_def debt_part_def moved_def TakeCapture)
qed

text \<open>A batch read at its start stays true for the lots not yet drawn.\<close>

definition batch_ok :: "lot list \<Rightarrow> tx \<Rightarrow> bool" where
  "batch_ok ls t \<longleftrightarrow> distinct (map lot_id ls) \<and>
     (\<forall>l \<in> set ls. l \<in> set (lots (tx_db t)) \<and> lot_user l = tx_user t)"

lemma batch_ok_step:
  assumes "batch_ok (l # ls) t" "update_lot (lot_id l) f (tx_db t) = Inr db"
    and "lots (tx_db t') = lots db" "tx_user t' = tx_user t"
  shows "batch_ok ls t'"
  unfolding batch_ok_def
proof (intro conjI ballI)
  show "distinct (map lot_id ls)" using assms(1) by (simp add: batch_ok_def)
next
  fix x assume x: "x \<in> set ls"
  then have "lot_id x \<noteq> lot_id l" "x \<in> set (lots (tx_db t))" "lot_user x = tx_user t"
    using assms(1) by (auto simp: batch_ok_def image_iff) 
  then show "x \<in> set (lots (tx_db t'))" "lot_user x = tx_user t'"
    using update_lot_other [OF assms(2)] assms(3,4) by simp_all
qed

lemma distinct_submset:
  assumes "distinct ys" "mset xs \<subseteq># mset ys"
  shows "distinct xs"
proof -
  have c: "count (mset xs) a \<le> (if a \<in> set ys then 1 else 0)" for a
    using assms(1) mset_subset_eq_count [OF assms(2), of a] distinct_count_atmost_1 [of ys] by metis
  have "count (mset xs) a \<le> 1" for a by (rule order_trans [OF c]) simp
  moreover have "0 < count (mset xs) a" if "a \<in> set xs" for a using that by simp
  ultimately have "\<forall>a. count (mset xs) a = (if a \<in> set xs then 1 else 0)"
    by (metis count_mset_0_iff le_neq_implies_less less_one)
  then show ?thesis by (simp add: distinct_count_atmost_1)
qed

lemma mset_take_sub: "mset (take n xs) \<subseteq># mset xs"
  by (metis append_take_drop_id mset_append mset_subset_eq_add_left)

lemma batch_ok_filter:
  assumes "books s b h t" "mset ls \<subseteq># mset (filter (\<lambda>l. lot_user l = tx_user t \<and> P l) (lots (tx_db t)))"
  shows "batch_ok ls t"
proof -
  let ?fs = "filter (\<lambda>l. lot_user l = tx_user t \<and> P l) (lots (tx_db t))"
  have "distinct (map lot_id ?fs)"
    using books_lots_wf [OF assms(1)] by (simp add: lots_wf_def distinct_map_filter)
  moreover have "mset (map lot_id ls) \<subseteq># mset (map lot_id ?fs)"
    using image_mset_subseteq_mono [OF assms(2), of lot_id] by simp
  ultimately have "distinct (map lot_id ls)" by (rule distinct_submset)
  moreover have "set ls \<subseteq> set ?fs" using assms(2) by (metis set_mset_mono set_mset_mset)
  ultimately show ?thesis by (auto simp: batch_ok_def)
qed

text \<open>Every credit of the wallet that is left can be spent now.\<close>

definition fresh :: "tx \<Rightarrow> bool" where
  "fresh t \<longleftrightarrow> (\<forall>l \<in> set (lots (tx_db t)). lot_user l = tx_user t \<longrightarrow> 0 < lot_remaining l \<longrightarrow>
     lot_spendable (ts (tx_now t)) l)"

lemma fresh_lots:
  assumes "fresh t" "lots (tx_db t') = lots (tx_db t)" "tx_user t' = tx_user t" "tx_now t' = tx_now t"
  shows "fresh t'"
  using assms by (simp add: fresh_def)

lemma fresh_draw:
  assumes F: "fresh t" and d: "distinct (map lot_id (lots (tx_db t)))"
    and l: "l \<in> set (lots (tx_db t))" "lot_user l = tx_user t" and r: "r \<le> lot_remaining l"
    and U: "set_lot_remaining (lot_id l) r (tx_db t) = Inr db"
  shows "fresh (t\<lparr>tx_db := db\<rparr>)"
  unfolding fresh_def
proof (intro ballI impI)
  fix x assume "x \<in> set (lots (tx_db (t\<lparr>tx_db := db\<rparr>)))" and u: "lot_user x = tx_user (t\<lparr>tx_db := db\<rparr>)"
    and p: "0 < lot_remaining x"
  then consider y where "y \<in> set (lots (tx_db t))" "lot_id y = lot_id l" "x = y\<lparr>lot_remaining := r\<rparr>"
    | "x \<in> set (lots (tx_db t))"
    using U by (auto simp: set_lot_remaining_def update_lot_Inr set_update_where)
  then show "lot_spendable (ts (tx_now (t\<lparr>tx_db := db\<rparr>))) x"
  proof cases
    case 1
    with distinct_key_unique [OF d 1(1) l(1)] have "x = l\<lparr>lot_remaining := r\<rparr>" by simp
    moreover have "lot_spendable (ts (tx_now t)) l" using F l r p calculation by (simp add: fresh_def)
    ultimately show ?thesis using p by (simp add: lot_spendable_def)
  next
    case 2
    with F u p show ?thesis by (simp add: fresh_def)
  qed
qed

lemma spend_lots_books:
  assumes "books s b h t" "0 < need" "in_i64 need" "taker_ok k t" "batch_ok ls t"
    and "\<forall>l \<in> set ls. 0 < lot_remaining l"
    and "spend_lots k p need ls t = Inr (p', r, t')"
  shows "books s b h t' \<and> spent k (need - r) t t' \<and> 0 \<le> r \<and> r \<le> need \<and> (fresh t \<longrightarrow> fresh t')"
  using assms
proof (induction k p need ls t rule: spend_lots.induct)
  case (1 k p need t)
  then show ?case by simp
next
  case (2 k p need l ls t)
  let ?n = "min (lot_remaining l) need"
  from "2.prems"(7) obtain db t1 where
    upd: "set_lot_remaining (lot_id l) (lot_remaining l - ?n) (tx_db t) = Inr db" and
    tp: "take_piece k p (lot_id l) ?n (t\<lparr>tx_db := db\<rparr>) = Inr t1" and
    rest: "(if need - ?n = 0 then Inr (Suc p, need - ?n, t1) else spend_lots k (Suc p) (need - ?n) ls t1)
      = Inr (p', r, t')"
    by (auto simp: Let_def)
  have l: "l \<in> set (lots (tx_db t))" "lot_user l = tx_user t" "0 < lot_remaining l"
    using "2.prems"(5,6) by (auto simp: batch_ok_def)
  have n: "0 < ?n" "in_i64 ?n" using "2.prems"(2,3) l by (auto simp: in_i64_def)
  note U = books_update_lot [OF "2.prems"(1) l(1,2) _ upd [unfolded set_lot_remaining_def]]
  have B1: "books s (b - ?n) h (t\<lparr>tx_db := db\<rparr>)" and db: "db = (tx_db t)\<lparr>lots := lots db\<rparr>"
    using U(1,4) by auto
  have "holds db = holds (tx_db t)"
    using db by (metis billing_db.select_convs billing_db.surjective billing_db.update_convs(2))
  then have k1: "taker_ok k (t\<lparr>tx_db := db\<rparr>)" "spent k 0 t (t\<lparr>tx_db := db\<rparr>)"
    using "2.prems"(4) by (auto simp: taker_ok_def spent_def debt_part_def split: taker.splits)
  obtain l' where l': "l' \<in> set (lots db)" "lot_id l' = lot_id l" "lot_user l' = tx_user t"
    using U(3) l by (force simp: set_update_where)
  from take_piece_books [OF B1 n k1(1), of l'] l' tp
  have T: "books s b h t1" "spent k ?n (t\<lparr>tx_db := db\<rparr>) t1" "lots (tx_db t1) = lots db" by auto
  then have sp: "spent k ?n t t1" using spent_trans [OF k1(2)] by simp
  have fr: "fresh t \<longrightarrow> fresh t1"
  proof
    assume F: "fresh t"
    have "distinct (map lot_id (lots (tx_db t)))" using books_lots_wf [OF "2.prems"(1)] by (simp add: lots_wf_def)
    from fresh_draw [OF F this l(1,2) _ upd] n have "fresh (t\<lparr>tx_db := db\<rparr>)" by simp
    then show "fresh t1" by (rule fresh_lots) (use T sp in \<open>simp_all add: spent_def\<close>)
  qed
  show ?case
  proof (cases "need - ?n = 0")
    case True
    with rest T sp fr "2.prems"(2) show ?thesis by auto
  next
    case False
    have b1: "batch_ok ls t1"
      using batch_ok_step [OF "2.prems"(5) upd [unfolded set_lot_remaining_def] T(3)] sp
      by (simp add: spent_def)
    from False "2.prems"(2) have nn: "0 < need - ?n" "in_i64 (need - ?n)"
      using "2.prems"(3) l by (auto simp: in_i64_def)
    have IH: "books s b h t' \<and> spent k ((need - ?n) - r) t1 t' \<and> 0 \<le> r \<and> r \<le> need - ?n \<and> (fresh t1 \<longrightarrow> fresh t')"
      using "2.IH" [of _ "t\<lparr>tx_db := db\<rparr>" t1] upd tp False T(1) nn taker_ok_spent [OF "2.prems"(4) sp]
        b1 "2.prems"(6) rest by simp
    then have "spent k (?n + (need - ?n - r)) t t'" using spent_trans [OF sp] by blast
    moreover have "r \<le> need" using IH n(1) by linarith
    ultimately show ?thesis using IH fr by simp
  qed
qed

lemma spend_batch_ok:
  assumes "books s b h t"
  shows "batch_ok (lock_spendable_lots (tx_user t) (ts (tx_now t)) n (tx_db t)) t"
proof (rule batch_ok_filter [OF assms])
  show "mset (lock_spendable_lots (tx_user t) (ts (tx_now t)) n (tx_db t)) \<subseteq>#
      mset (filter (\<lambda>l. lot_user l = tx_user t \<and> lot_spendable (ts (tx_now t)) l) (lots (tx_db t)))"
    unfolding lock_spendable_lots_def by (rule subset_mset.order_trans [OF mset_take_sub]) simp
qed

lemma spend_from_books:
  assumes "books s b h t" "0 \<le> need" "in_i64 need" "taker_ok k t"
    and "spend_from k p need t = Inr (r, t')"
  shows "books s b h t' \<and> spent k (need - r) t t' \<and> 0 \<le> r \<and> r \<le> need \<and> (fresh t \<longrightarrow> fresh t') \<and>
    (0 < r \<longrightarrow> lock_spendable_lots (tx_user t) (ts (tx_now t)) spend_batch (tx_db t') = [])"
  using assms
proof (induction k p need t rule: spend_from.induct)
  case (1 k p need t)
  let ?ls = "lock_spendable_lots (tx_user t) (ts (tx_now t)) spend_batch (tx_db t)"
  show ?case
  proof (cases "0 < need \<and> ?ls \<noteq> []")
    case False
    with "1.prems" show ?thesis by (auto simp: spend_from.simps [of k p need t] Let_def split: if_splits)
  next
    case True
    with "1.prems"(5) obtain p' n' t1 where
      sl: "spend_lots k p need ?ls t = Inr (p', n', t1)" and rest: "spend_from k p' n' t1 = Inr (r, t')"
      by (auto simp: spend_from.simps [of k p need t] Let_def)
    have bo: "batch_ok ?ls t" by (rule spend_batch_ok [OF "1.prems"(1)])
    have pos: "\<forall>l \<in> set ?ls. 0 < lot_remaining l"
      unfolding lock_spendable_lots_def
      by (auto simp: lot_spendable_def dest!: in_set_takeD)
    from spend_lots_books [OF "1.prems"(1) _ "1.prems"(3,4) bo pos sl] True
    have S: "books s b h t1" "spent k (need - n') t t1" "0 \<le> n'" "n' \<le> need" "fresh t \<longrightarrow> fresh t1" by auto
    have n': "in_i64 n'" using "1.prems"(3) S(3,4) by (rule in_i64_le)
    from True have a: "0 < need" and b: "?ls \<noteq> []" by auto
    have IH: "books s b h t' \<and> spent k (n' - r) t1 t' \<and> 0 \<le> r \<and> r \<le> n' \<and> (fresh t1 \<longrightarrow> fresh t') \<and>
      (0 < r \<longrightarrow> lock_spendable_lots (tx_user t1) (ts (tx_now t1)) spend_batch (tx_db t') = [])"
      using "1.IH" [OF a refl b sl refl refl S(1,3) n' taker_ok_spent [OF "1.prems"(4) S(2)] rest] .
    then have "spent k ((need - n') + (n' - r)) t t'" using spent_trans [OF S(2)] by blast
    with IH S show ?thesis by (auto simp: spent_def)
  qed
qed

section \<open>Grants and removals\<close>

lemma settle_debt_books:
  assumes B: "books s b h t" and S: "settle_debt t = Inr t'"
  shows "\<exists>n. books s b h t' \<and> spent TakeDebt n t t' \<and> 0 \<le> n \<and> n \<le> tx_debt t \<and>
    (n < tx_debt t \<longrightarrow> lock_spendable_lots (tx_user t) (ts (tx_now t)) spend_batch (tx_db t') = [])"
proof (cases "tx_debt t = 0")
  case True
  with B S show ?thesis by (intro exI [of _ 0]) (simp add: settle_debt_def)
next
  case False
  with S obtain r where r: "spend_from TakeDebt 0 (tx_debt t) t = Inr (r, t')"
    by (auto simp: settle_debt_def spend_def)
  have "0 \<le> tx_debt t" "in_i64 (tx_debt t)" using books_figures [OF B] by (auto simp: figure_ok_def)
  from spend_from_books [OF B this _ r] show ?thesis
    by (intro exI [of _ "tx_debt t - r"]) (simp add: taker_ok_def)
qed

lemma grant_books:
  assumes B: "books s b h t" and a: "in_i64 (gi_amount g)" and G: "grant g t = Inr (lid, t')"
  shows "books s b h t' \<and> 0 < gi_amount g \<and>
    (\<exists>n. 0 \<le> n \<and> n \<le> tx_debt t \<and> tx_balance t' = tx_balance t + gi_amount g - n \<and>
       tx_debt t' = tx_debt t - n \<and> tx_held t' = tx_held t \<and>
       (n < tx_debt t \<longrightarrow> lock_spendable_lots (tx_user t) (ts (tx_now t)) spend_batch (tx_db t') = []))"
proof -
  obtain u t1 where d: "draw_uuid t = (u, t1)" by (cases "draw_uuid t")
  let ?l = "grant_lot g u t1"
  let ?e = "(no_entry (case gi_reason g of None \<Rightarrow> RGrant | Some r \<Rightarrow> r) (gi_key g))\<lparr>
             en_delta := gi_amount g, en_lot := Some u, en_ref_type := gi_ref_type g,
             en_ref_id := gi_ref_id g, en_operator := gi_operator g, en_note := gi_note g\<rparr>"
  from G d obtain db t2 where pos: "0 < gi_amount g" and I: "insert_lot ?l (tx_db t1) = Inr db"
    and W: "write_entry ?e (t1\<lparr>tx_db := db\<rparr>) = Inr t2" and S: "settle_debt t2 = Inr t'"
    by (auto simp: grant_def split: if_splits)
  have t1: "t1 = t\<lparr>tx_drawn := Suc (tx_drawn t)\<rparr>" using d by (simp add: draw_uuid_def)
  have B1: "books s (b + gi_amount g) h (t1\<lparr>tx_db := db\<rparr>)"
    using books_insert_lot [OF books_draw [OF B d] _ _ I] a by (simp add: grant_lot_def)
  have "books s (b + gi_amount g - gi_amount g) (h - 0) t2 \<and> moved (gi_amount g) 0 0 (t1\<lparr>tx_db := db\<rparr>) t2"
    by (rule books_write_at [OF B1 W]) (use a in auto)
  then have B2: "books s b h t2" and M: "moved (gi_amount g) 0 0 (t1\<lparr>tx_db := db\<rparr>) t2" by auto
  from settle_debt_books [OF B2 S] obtain n where
    n: "books s b h t'" "spent TakeDebt n t2 t'" "0 \<le> n" "n \<le> tx_debt t2"
      "n < tx_debt t2 \<longrightarrow> lock_spendable_lots (tx_user t2) (ts (tx_now t2)) spend_batch (tx_db t') = []"
    by blast
  have "tx_debt t2 = tx_debt t" "tx_balance t2 = tx_balance t + gi_amount g" "tx_held t2 = tx_held t"
    "tx_user t2 = tx_user t" "tx_now t2 = tx_now t"
    using M by (simp_all add: moved_def t1)
  with n pos show ?thesis by (auto simp: spent_def debt_part_def intro!: exI [of _ n])
qed

lemma remove_books:
  assumes B: "books s b h t" and a: "in_i64 amount" and R: "remove amount key oper nte t = Inr t'"
  shows "books s b h t' \<and> 0 < amount \<and> amount \<le> available t \<and>
    (\<exists>r. 0 \<le> r \<and> r \<le> amount \<and> spent (TakeRemove key oper nte) (amount - r) t t' \<and>
      (fresh t \<longrightarrow> fresh t') \<and> (0 < r \<longrightarrow> lock_spendable_lots (tx_user t) (ts (tx_now t)) spend_batch (tx_db t') = []))"
proof -
  from R obtain r where r: "spend_from (TakeRemove key oper nte) 0 amount t = Inr (r, t')"
    and p: "0 < amount" "amount \<le> available t"
    by (auto simp: remove_def spend_def split: if_splits)
  from spend_from_books [OF B _ a _ r] p show ?thesis by (auto simp: taker_ok_def)
qed

section \<open>Holds\<close>

lemma lock_hold_Inr:
  "lock_hold hid t = Inr x \<Longrightarrow> x \<in> set (holds (tx_db t)) \<and> hold_id x = hid \<and> hold_user x = tx_user t"
  by (auto simp: lock_hold_def query_lock_hold_def split: option.splits dest!: find_SomeD)

lemma books_mark_released:
  assumes "books s b h t" "x \<in> set (holds (tx_db t))" "hold_user x = tx_user t"
  shows "books s b (h - held_part x) (t\<lparr>tx_db := mark_hold_released (hold_id x) at why (tx_db t)\<rparr>)"
  using books_update_hold [OF assms, of "\<lambda>h. h\<lparr>hold_state := StateReleased, hold_released_at := Some at,
    hold_release_reason := why\<rparr>"]
  by (simp add: mark_hold_released_def held_part_def [of "x\<lparr>hold_state := StateReleased, hold_released_at := Some at,
    hold_release_reason := why\<rparr>"])

lemma books_mark_captured:
  assumes "books s b h t" "x \<in> set (holds (tx_db t))" "hold_user x = tx_user t"
  shows "books s b (h - held_part x) (t\<lparr>tx_db := mark_hold_captured (hold_id x) at m (tx_db t)\<rparr>)"
  using books_update_hold [OF assms, of "\<lambda>h. h\<lparr>hold_state := StateCaptured, hold_captured_at := Some at,
    hold_meetup := m\<rparr>"]
  by (simp add: mark_hold_captured_def held_part_def [of "x\<lparr>hold_state := StateCaptured, hold_captured_at := Some at,
    hold_meetup := m\<rparr>"])

lemma books_hold_kind:
  assumes "books s b h t" "x \<in> set (holds (tx_db t))"
  shows "hold_kind x = HoldCredits \<or> hold_kind x = HoldPlanQuota"
    and "0 < hold_amount x" "in_i64 (hold_amount x)"
  using books_holds_wf [OF assms(1)] assms(2) by (auto simp: holds_wf_def hold_ok_def)

lemma release_books:
  assumes B: "books s b h t" and R: "release hid reason t = Inr (done, t')"
  shows "books s b h t'"
proof -
  from R obtain x where L: "lock_hold hid t = Inr x" by (auto simp: release_def)
  note x = lock_hold_Inr [OF L]
  show ?thesis
  proof (cases "hold_state x = StateHeld")
    case False
    with R L B show ?thesis by (simp add: release_def)
  next
    case held: True
    show ?thesis
    proof (cases "hold_kind x = HoldPlanQuota")
      case True
      with R L held obtain t1 t2 where
        A: "adjust_quota (period_of x) (\<lambda>used held. Inr (used, i32 (held - 1))) t = Inr t1" and
        W: "write_entry ((no_entry RRelease (''release:'' @ hold_id x))\<lparr>
              en_hold := Some (hold_id x), en_ref_type := reason\<rparr>) t1 = Inr t2" and
        t': "t' = t2\<lparr>tx_db := mark_hold_released (hold_id x) (ts (tx_now t2)) (null_text reason) (tx_db t2)\<rparr>"
        by (auto simp: release_def)
      note B1 = books_adjust_quota [OF B A]
      have "books s (b - 0) (h - 0) t2 \<and> moved 0 0 0 t1 t2"
        by (rule books_write_at [OF B1(1) W]) auto
      then have "books s b h t2" "x \<in> set (holds (tx_db t2))" "hold_user x = tx_user t2"
        using B1(2) x by (auto simp: moved_def)
      from books_mark_released [OF this] show ?thesis by (simp add: t' held_part_def True)
    next
      case False
      with books_hold_kind [OF B] x have kc: "hold_kind x = HoldCredits" by blast
      with R L held obtain t2 where
        W: "write_entry ((no_entry RRelease (''release:'' @ hold_id x))\<lparr>
              en_held_delta := - hold_amount x, en_hold := Some (hold_id x), en_ref_type := reason\<rparr>) t = Inr t2" and
        t': "t' = t2\<lparr>tx_db := mark_hold_released (hold_id x) (ts (tx_now t2)) (null_text reason) (tx_db t2)\<rparr>"
        by (auto simp: release_def)
      have n: "in_i64 (- hold_amount x)" using books_hold_kind(2,3) [OF B] x by (auto intro!: in_i64_neg simp: less_imp_le)
      have "books s (b - 0) (h - - hold_amount x) t2 \<and> moved 0 (- hold_amount x) 0 t t2"
        by (rule books_write_at [OF B W]) (use n in auto)
      then have "books s b (h + hold_amount x) t2" "x \<in> set (holds (tx_db t2))" "hold_user x = tx_user t2"
        using x by (auto simp: moved_def)
      from books_mark_released [OF this] show ?thesis by (simp add: t' held_part_def held kc)
    qed
  qed
qed

lemma reserve_new_books:
  assumes B: "books s b h t" and a: "in_i64 (ri_amount i)" and R: "reserve_new i t = Inr (v, t')"
  shows "books s b h t' \<and> tx_balance t' = tx_balance t \<and> tx_debt t' = tx_debt t \<and> tx_debt t = 0 \<and>
    tx_held t' = tx_held t + (if ri_kind i = HoldCredits then ri_amount i else 0) \<and>
    (ri_kind i = HoldCredits \<longrightarrow> 0 < ri_amount i \<and> ri_amount i \<le> available t)"
proof -
  from R obtain amount period t1 u t2 db where
    nd: "tx_debt t \<le> 0" and
    K: "reserve_kind i t = Inr (amount, period, t1)" and d: "draw_uuid t1 = (u, t2)" and
    I: "insert_hold (new_hold i u amount period t2) (tx_db t2) = Inr db" and
    W: "write_entry ((no_entry RHold (''hold:'' @ u))\<lparr>
          en_held_delta := (if ri_kind i = HoldCredits then ri_amount i else 0),
          en_hold := Some u, en_ref_type := hold_kind_text (ri_kind i)\<rparr>) (t2\<lparr>tx_db := db\<rparr>) = Inr t'"
    by (auto simp: reserve_new_def Let_def draw_uuid_def simp del: append.simps split: if_splits)
  have k: "books s b h t1 \<and> tx_balance t1 = tx_balance t \<and> tx_debt t1 = tx_debt t \<and> tx_held t1 = tx_held t \<and>
      (ri_kind i = HoldCredits \<longrightarrow> amount = ri_amount i \<and> 0 < amount \<and> amount \<le> available t) \<and>
      (ri_kind i = HoldPlanQuota \<longrightarrow> amount = 1) \<and> (ri_kind i = HoldCredits \<or> ri_kind i = HoldPlanQuota)"
    using K B books_adjust_quota [OF B]
    by (auto simp: reserve_kind_def split: hold_kind.splits if_splits)
  have t2: "t2 = t1\<lparr>tx_drawn := Suc (tx_drawn t1)\<rparr>" using d by (simp add: draw_uuid_def)
  let ?x = "new_hold i u amount period t2"
  have "in_i64 amount" using k a by (auto simp: in_i64_def)
  then have B1: "books s b (h + held_part ?x) (t2\<lparr>tx_db := db\<rparr>)"
    using books_insert_hold [OF books_draw [OF _ d] _ _ I] k by (simp add: new_hold_def)
  let ?n = "if ri_kind i = HoldCredits then ri_amount i else 0"
  have hp: "held_part ?x = ?n" using k by (auto simp: held_part_def new_hold_def)
  have "books s (b - 0) (h + held_part ?x - ?n) t' \<and> moved 0 ?n 0 (t2\<lparr>tx_db := db\<rparr>) t'"
    by (rule books_write_at [OF B1 W]) (use a in auto)
  moreover have "tx_debt t = 0" using nd books_figures [OF B] by (simp add: figure_ok_def)
  ultimately show ?thesis using k hp by (auto simp: moved_def t2)
qed

lemma reuse_hold_books:
  assumes B: "books s b h t" and x: "x \<in> set (holds (tx_db t))" "hold_user x = tx_user t"
    and R: "reuse_hold x i t = Inr (v, t')"
  shows "books s b h t' \<and> tx_balance t' = tx_balance t \<and> tx_debt t' = tx_debt t \<and> tx_held t' = tx_held t \<and>
    tx_closed t' = tx_closed t"
  using R B books_supersede [OF B x] by (auto simp: reuse_hold_def Let_def split: if_splits)

lemma reserve_books:
  assumes B: "books s b h t" and a: "in_i64 (ri_amount i)" and R: "reserve i t = Inr (v, t')"
  shows "books s b h t' \<and> tx_balance t' = tx_balance t \<and> tx_debt t' = tx_debt t \<and>
    (tx_held t' = tx_held t \<or> tx_debt t = 0 \<and> ri_kind i = HoldCredits \<and> 0 < ri_amount i \<and>
       ri_amount i \<le> available t \<and> tx_held t' = tx_held t + ri_amount i)"
proof (cases "get_hold_by_key (tx_user t) (ri_key i) (tx_db t)")
  case None
  with R have "reserve_new i t = Inr (v, t')" by (simp add: reserve_def)
  with reserve_new_books [OF B a] show ?thesis by (auto split: if_splits)
next
  case (Some x)
  with R obtain w t1 where w: "reuse_hold x i t = Inr (w, t1)"
    and r: "(case w of Some v \<Rightarrow> Inr (v, t1) | None \<Rightarrow> reserve_new i t1) = Inr (v, t')"
    by (auto simp: reserve_def)
  from Some have x: "x \<in> set (holds (tx_db t))" "hold_user x = tx_user t"
    by (auto simp: get_hold_by_key_def dest!: find_SomeD)
  note B1 = reuse_hold_books [OF B x w]
  show ?thesis
  proof (cases w)
    case None
    with r have "reserve_new i t1 = Inr (v, t')" by simp
    with B1 have "books s b h t' \<and> tx_balance t' = tx_balance t1 \<and> tx_debt t' = tx_debt t1 \<and> tx_debt t1 = 0 \<and>
      tx_held t' = tx_held t1 + (if ri_kind i = HoldCredits then ri_amount i else 0) \<and>
      (ri_kind i = HoldCredits \<longrightarrow> 0 < ri_amount i \<and> ri_amount i \<le> available t1)"
      using reserve_new_books [OF _ a] by blast
    with B1 show ?thesis by (auto simp: available_def split: if_splits)
  next
    case (Some y)
    with r B1 show ?thesis by simp
  qed
qed

section \<open>Capture\<close>

lemma capture_entry_sel [simp]:
  "en_delta (capture_entry x m k) = 0" "en_held_delta (capture_entry x m k) = 0"
  "en_debt_delta (capture_entry x m k) = 0"
  by (simp_all add: capture_entry_def)

text \<open>
  A credit capture: what the lots give and what becomes debt add up to the amount of the
  hold, and debt is recorded only when no spendable credit of the wallet is left.
\<close>

lemma capture_credits_books:
  assumes B: "books s 0 h t" and x: "x \<in> set (holds (tx_db t))" "hold_user x = tx_user t"
    and k: "hold_kind x = HoldCredits" and C: "capture_credits x m t = Inr (r, t')"
  shows "books s 0 (h + held_part x) t' \<and> 0 \<le> r \<and> r \<le> hold_amount x \<and>
    tx_balance t' = tx_balance t - (hold_amount x - r) \<and> tx_debt t' = tx_debt t + r \<and>
    tx_held t' = tx_held t - held_part x \<and> holds (tx_db t') = holds (tx_db t) \<and>
    tx_user t' = tx_user t \<and> tx_now t' = tx_now t \<and> (fresh t \<longrightarrow> fresh t') \<and>
    (0 < r \<longrightarrow> lock_spendable_lots (tx_user t) (ts (tx_now t)) spend_batch (tx_db t') = [])"
proof -
  note n = books_hold_kind(2,3) [OF B x(1)]
  from C obtain t1 t2 where
    W1: "(if hold_state x = StateHeld
       then write_entry ((capture_entry x m '':hold'')\<lparr>en_held_delta := - hold_amount x\<rparr>) t
       else Inr t) = Inr t1" and
    SF: "spend_from (TakeCapture (hold_id x) m) 0 (hold_amount x) t1 = Inr (r, t2)" and
    W2: "(if r > 0
       then write_entry ((capture_entry x m '':debt'')\<lparr>en_debt_delta := r,
              en_note := ''capture after the hold lapsed; balance did not cover it''\<rparr>) t2
       else Inr t2) = Inr t'"
    by (auto simp: capture_credits_def)
  have h1: "books s 0 (h + held_part x) t1 \<and> moved 0 (- held_part x) 0 t t1"
  proof (cases "hold_state x = StateHeld")
    case True
    then have "books s (0 - 0) (h - - hold_amount x) t1 \<and> moved 0 (- hold_amount x) 0 t t1"
      by (intro books_write_at [OF B W1 [unfolded True if_True eqTrueI [OF refl]]])
        (use n in \<open>auto intro!: in_i64_neg\<close>)
    then show ?thesis using True k by (simp add: held_part_def)
  next
    case False
    with W1 B show ?thesis by (simp add: held_part_def moved_def)
  qed
  then have tk: "taker_ok (TakeCapture (hold_id x) m) t1"
    using x by (auto simp: taker_ok_def moved_def)
  from h1 have "books s 0 (h + held_part x) t1" by simp
  from spend_from_books [OF this _ n(2) tk SF] n(1)
  have S: "books s 0 (h + held_part x) t2" "spent (TakeCapture (hold_id x) m) (hold_amount x - r) t1 t2"
    "0 \<le> r" "r \<le> hold_amount x" "fresh t1 \<longrightarrow> fresh t2"
    "0 < r \<longrightarrow> lock_spendable_lots (tx_user t1) (ts (tx_now t1)) spend_batch (tx_db t2) = []"
    by auto
  have "books s 0 (h + held_part x) t' \<and> moved 0 0 r t2 t'"
  proof (cases "r > 0")
    case True
    with W2 have W: "write_entry ((capture_entry x m '':debt'')\<lparr>en_debt_delta := r,
              en_note := ''capture after the hold lapsed; balance did not cover it''\<rparr>) t2 = Inr t'" by simp
    have "books s (0 - 0) (h + held_part x - 0) t' \<and> moved 0 0 r t2 t'"
      by (rule books_write_at [OF S(1) W]) (use in_i64_le [OF n(2) S(3,4)] in auto)
    then show ?thesis by simp
  next
    case False
    with W2 S show ?thesis by (simp add: moved_def)
  qed
  with h1 S have "fresh t \<longrightarrow> fresh t'" by (auto simp: moved_def spent_def intro: fresh_lots)
  with h1 S \<open>books s 0 (h + held_part x) t' \<and> moved 0 0 r t2 t'\<close> show ?thesis
    by (auto simp: moved_def spent_def debt_part_def lock_spendable_lots_def)
qed

lemma capture_books:
  assumes B: "books s 0 h t" and C: "capture parse hid m t = Inr (res, t')"
  shows "books s 0 h t'"
proof -
  from C obtain x where L: "lock_hold hid t = Inr x" by (auto simp: capture_def)
  note x = lock_hold_Inr [OF L]
  show ?thesis
  proof (cases "hold_state x = StateCaptured \<or>
      hold_state x = StateReleased \<and> text_or_empty (hold_release_reason x) = release_settled")
    case True
    with C L B show ?thesis by (simp add: capture_def)
  next
    case False
    consider "hold_kind x = HoldCredits" | "hold_kind x = HoldPlanQuota"
      using books_hold_kind [OF B] x by blast
    then show ?thesis
    proof cases
      case 1
      with C L False obtain r t1 where K: "capture_credits x m t = Inr (r, t1)" and
        t': "t' = t1\<lparr>tx_db := mark_hold_captured (hold_id x) (ts (tx_now t1)) (parse m) (tx_db t1)\<rparr>"
        by (auto simp: capture_def simp del: de_Morgan_conj)
      have "books s 0 (h + held_part x) t1" "x \<in> set (holds (tx_db t1))" "hold_user x = tx_user t1"
        using capture_credits_books [OF B _ _ 1 K] x by auto
      from books_mark_captured [OF this] show ?thesis by (simp add: t')
    next
      case 2
      with C L False obtain t1 t2 where
        A: "adjust_quota (period_of x) (capture_quota (hold_state x = StateHeld)) t = Inr t1" and
        W: "write_entry (capture_entry x m []) t1 = Inr t2" and
        t': "t' = t2\<lparr>tx_db := mark_hold_captured (hold_id x) (ts (tx_now t2)) (parse m) (tx_db t2)\<rparr>"
        by (auto simp: capture_def simp del: de_Morgan_conj)
      note B1 = books_adjust_quota [OF B A]
      have "books s (0 - 0) (h - 0) t2 \<and> moved 0 0 0 t1 t2"
        by (rule books_write_at [OF B1(1) W]) auto
      then have "books s 0 h t2" "x \<in> set (holds (tx_db t2))" "hold_user x = tx_user t2"
        using B1(2) x by (auto simp: moved_def)
      from books_mark_captured [OF this] show ?thesis by (simp add: t' held_part_def 2)
    qed
  qed
qed

section \<open>Decay and expiry\<close>

lemma books_lot:
  assumes "books s b h t" "l \<in> set (lots (tx_db t))"
  shows "0 < lot_initial l" "0 \<le> lot_remaining l" "lot_remaining l \<le> lot_initial l"
    "in_i64 (lot_initial l)" "in_i64 (lot_remaining l)"
  using books_lots_wf [OF assms(1)] assms(2) by (auto simp: lots_wf_def lot_ok_def in_i64_def)

text \<open>
  The periods of one lot. The amount left only goes down, so if it ends non-negative no step
  wrapped and the entries written add up to the difference.
\<close>

lemma decay_steps_le:
  "decay_steps l p js rem t = Inr (rem', t') \<Longrightarrow> rem' \<le> rem"
proof (induction js arbitrary: rem t)
  case Nil
  then show ?case by simp
next
  case (Cons j js)
  then show ?case by (fastforce simp: Let_def split: if_splits)
qed

lemma decay_steps_books:
  assumes "books s b h t" "0 \<le> rem" "in_i64 rem" "0 \<le> rem'"
    and "decay_steps l p js rem t = Inr (rem', t')"
  shows "books s (b + (rem - rem')) h t' \<and> moved (rem' - rem) 0 0 t t'"
  using assms
proof (induction js arbitrary: rem t b)
  case Nil
  then show ?case by (simp add: moved_def)
next
  case (Cons j js)
  let ?a = "allowed_after (lot_initial l) p j"
  show ?case
  proof (cases "rem \<le> ?a")
    case True
    with Cons show ?thesis by simp
  next
    case False
    with Cons.prems(5) obtain t1 where
      W: "write_entry ((no_entry RDecay (''decay:'' @ lot_id l @ '':'' @ string_of_int j))\<lparr>
          en_delta := i64 (- i64 (rem - ?a)), en_lot := Some (lot_id l)\<rparr>) t = Inr t1" and
      R: "decay_steps l p js ?a t1 = Inr (rem', t')" by (auto simp: Let_def)
    have a: "0 \<le> ?a" using decay_steps_le [OF R] Cons.prems(4) by simp
    then have r: "in_i64 (rem - ?a)" "in_i64 ?a" "in_i64 (- (rem - ?a))"
      using False Cons.prems(2,3) by (auto simp: in_i64_def)
    have w: "books s (b - - (rem - ?a)) (h - 0) t1 \<and> moved (- (rem - ?a)) 0 0 t t1"
      by (rule books_write_at [OF Cons.prems(1) W]) (use r in auto)
    have "b - - (rem - ?a) = b + (rem - ?a)" "h - 0 = h" by simp_all
    with w have B1: "books s (b + (rem - ?a)) h t1" by (simp only:)
    from w have M: "moved (- (rem - ?a)) 0 0 t t1" ..
    from Cons.IH [OF B1 a r(2) Cons.prems(4) R] M show ?thesis
      by (auto simp: moved_def algebra_simps)
  qed
qed

lemma decay_lot_books:
  assumes B: "books s 0 h t" and l: "l \<in> set (lots (tx_db t))" "lot_user l = tx_user t"
    and bo: "batch_ok (l # ls) t" and D: "decay_lot l t = Inr (rem, t')"
  shows "books s 0 h t' \<and> batch_ok ls t' \<and> 0 \<le> rem \<and> rem \<le> lot_remaining l \<and>
    tx_user t' = tx_user t \<and> tx_now t' = tx_now t \<and>
    (\<exists>l' \<in> set (lots (tx_db t')). lot_id l' = lot_id l \<and> lot_user l' = tx_user t \<and> lot_remaining l' = rem)"
proof (cases "decay_due (tx_now t) l")
  case False
  with D B l bo books_lot [OF B l(1)] show ?thesis by (auto simp: decay_lot_def batch_ok_def)
next
  case True
  let ?p = "the (lot_decay_percent l)" and ?k = "periods_due (tx_now t) l (interval_duration (lot_decay_every l)) (the (lot_decay_percent l))"
  from True D obtain next_at t1 db where
    S: "decay_steps l ?p [lot_periods_applied l + 1 .. ?k] (lot_remaining l) t = Inr (rem, t1)" and
    U: "set_lot_decay (lot_id l) rem (i32 ?k) next_at (tx_db t1) = Inr db" and t': "t' = t1\<lparr>tx_db := db\<rparr>"
    by (auto simp: decay_lot_def Let_def split: if_splits)
  let ?f = "\<lambda>l. l\<lparr>lot_remaining := rem, lot_periods_applied := i32 ?k, lot_next_decay_at := next_at\<rparr>"
  have U': "update_lot (lot_id l) ?f (tx_db t1) = Inr db" using U by (simp add: set_lot_decay_def)
  have le: "rem \<le> lot_remaining l" by (rule decay_steps_le [OF S])
  have frame: "decay_steps l p js r t = Inr (r', t1) \<Longrightarrow> lots (tx_db t1) = lots (tx_db t)" for p js r t r' t1
  proof (induction js arbitrary: r t)
    case Nil
    then show ?case by simp
  next
    case (Cons j js)
    then show ?case by (fastforce simp: Let_def write_entry_Inr split: if_splits)
  qed
  have lin: "l \<in> set (lots (tx_db t1))" using frame [OF S] l by simp
  have row: "?f l \<in> set (lots db)" "lot_ok (?f l)" using update_lot_row [OF U' lin] by auto
  from row have z: "0 \<le> rem" by (simp add: lot_ok_def)
  from decay_steps_books [OF B books_lot(2,5) [OF B l(1)] z S]
  have B1: "books s (lot_remaining l - rem) h t1" and M: "moved (rem - lot_remaining l) 0 0 t t1" by auto
  have lu: "lot_user l = tx_user t1" using M l by (simp add: moved_def)
  note V = books_update_lot [OF B1 lin lu _ U']
  have "books s 0 h t'" using V(1) by (simp add: t')
  moreover have "batch_ok (l # ls) t1" using bo M by (simp add: batch_ok_def moved_def)
  then have "batch_ok ls t'" by (rule batch_ok_step [OF _ U']) (simp_all add: t')
  moreover have "\<exists>l' \<in> set (lots (tx_db t')). lot_id l' = lot_id l \<and> lot_user l' = tx_user t \<and> lot_remaining l' = rem"
    using row l by (intro bexI [of _ "?f l"]) (simp_all add: t')
  ultimately show ?thesis using z le M by (auto simp: moved_def t')
qed

lemma expire_lot_books:
  assumes B: "books s 0 h t" and bo: "batch_ok ls t" and rem: "0 \<le> rem" "in_i64 rem"
    and l': "l' \<in> set (lots (tx_db t))" "lot_id l' = lot_id l" "lot_user l' = tx_user t" "lot_remaining l' = rem"
    and d: "lot_id l \<notin> lot_id ` set ls" and E: "expire_lot l rem t = Inr t'"
  shows "books s 0 h t' \<and> batch_ok ls t' \<and> tx_user t' = tx_user t \<and> tx_now t' = tx_now t"
proof (cases "expiry_due (tx_now t) l \<and> rem > 0")
  case False
  with E B bo show ?thesis by (auto simp: expire_lot_def split: if_splits)
next
  case True
  with E obtain t1 db where
    W: "write_entry ((no_entry RExpire (''expire:'' @ lot_id l))\<lparr>
             en_delta := - rem, en_lot := Some (lot_id l)\<rparr>) t = Inr t1" and
    U: "set_lot_remaining (lot_id l) 0 (tx_db t1) = Inr db" and t': "t' = t1\<lparr>tx_db := db\<rparr>"
    by (auto simp: expire_lot_def)
  have "books s (0 - - rem) (h - 0) t1 \<and> moved (- rem) 0 0 t t1"
    by (rule books_write_at [OF B W]) (use rem in \<open>auto intro: in_i64_neg\<close>)
  then have B1: "books s rem h t1" and M: "moved (- rem) 0 0 t t1" by auto
  have U': "update_lot (lot_id l') (\<lambda>l. l\<lparr>lot_remaining := 0\<rparr>) (tx_db t1) = Inr db"
    using U l' by (simp add: set_lot_remaining_def)
  have l1: "l' \<in> set (lots (tx_db t1))" "lot_user l' = tx_user t1" using l' M by (auto simp: moved_def)
  note V = books_update_lot [OF B1 l1 _ U']
  have "books s 0 h t'" using V(1) l' by (simp add: t')
  moreover have "batch_ok ls t'" unfolding batch_ok_def
  proof (intro conjI ballI)
    show "distinct (map lot_id ls)" using bo by (simp add: batch_ok_def)
    fix x assume x: "x \<in> set ls"
    then have "lot_id x \<noteq> lot_id l'" using d l'(2) by (metis image_eqI)
    then show "x \<in> set (lots (tx_db t'))" "lot_user x = tx_user t'"
      using update_lot_other [OF U', of x] bo x M by (auto simp: t' batch_ok_def moved_def)
  qed
  ultimately show ?thesis using M by (simp add: t' moved_def)
qed

lemma apply_due_lots_books:
  assumes "books s 0 h t" "batch_ok ls t" "apply_due_lots ls t = Inr t'"
  shows "books s 0 h t'"
  using assms
proof (induction ls arbitrary: t)
  case Nil
  then show ?case by simp
next
  case (Cons l ls)
  then obtain rem t1 t2 where D: "decay_lot l t = Inr (rem, t1)" and E: "expire_lot l rem t1 = Inr t2"
    and R: "apply_due_lots ls t2 = Inr t'" by auto
  from Cons.prems have l: "l \<in> set (lots (tx_db t))" "lot_user l = tx_user t" and nin: "lot_id l \<notin> lot_id ` set ls"
    by (auto simp: batch_ok_def)
  from decay_lot_books [OF Cons.prems(1) l Cons.prems(2) D]
  obtain l' where P: "books s 0 h t1" "batch_ok ls t1" "0 \<le> rem" "rem \<le> lot_remaining l" "tx_user t1 = tx_user t"
    "l' \<in> set (lots (tx_db t1))" "lot_id l' = lot_id l" "lot_user l' = tx_user t" "lot_remaining l' = rem" by blast
  have "in_i64 rem" using books_lot(5) [OF Cons.prems(1) l(1)] P(3,4) by (rule in_i64_le)
  with P nin expire_lot_books [OF P(1,2,3) _ P(6,7) _ P(9) nin E] have "books s 0 h t2" "batch_ok ls t2" by auto
  from Cons.IH [OF this R] show ?case .
qed

lemma apply_due_books:
  assumes "books s 0 h t" "apply_due t = Inr t'"
  shows "books s 0 h t'"
proof -
  have "batch_ok (lock_due_lots (tx_user t) (ts (tx_now t)) (tx_db t)) t"
    by (rule batch_ok_filter [OF assms(1), of _ "lot_due (ts (tx_now t))"])
      (simp add: lock_due_lots_def)
  then show ?thesis using apply_due_lots_books assms by (simp add: apply_due_def)
qed

section \<open>Refunds\<close>

lemma refund_entry_sel [simp]:
  "en_delta (refund_entry x m i k) = 0" "en_held_delta (refund_entry x m i k) = 0"
  "en_debt_delta (refund_entry x m i k) = 0"
  by (simp_all add: refund_entry_def)

text \<open>The map of lot contents the loop keeps agrees with the table.\<close>

definition rem_ok :: "(uuid \<Rightarrow> int) \<Rightarrow> alloc list \<Rightarrow> tx \<Rightarrow> bool" where
  "rem_ok rem rows t \<longleftrightarrow> (\<forall>a \<in> set rows. \<exists>l \<in> set (lots (tx_db t)).
     lot_id l = al_lot a \<and> lot_user l = tx_user t \<and> rem (al_lot a) = lot_remaining l)"

definition allocs_range :: "alloc list \<Rightarrow> bool" where
  "allocs_range rows \<longleftrightarrow> distinct (map al_lot rows) \<and>
     (\<forall>a \<in> set rows. 0 \<le> al_refunded a \<and> al_refunded a \<le> al_amount a \<and> in_i64 (al_amount a))"

definition unrefunded :: "alloc list \<Rightarrow> int" where
  "unrefunded rows = sum_list (map (\<lambda>a. al_amount a - al_refunded a) rows)"

lemma allocs_range_Cons:
  "allocs_range (a # rows) \<Longrightarrow> allocs_range rows \<and> i64 (al_amount a - al_refunded a) = al_amount a - al_refunded a \<and>
    0 \<le> al_amount a - al_refunded a \<and> in_i64 (al_amount a - al_refunded a) \<and> al_lot a \<notin> al_lot ` set rows"
  by (auto simp: allocs_range_def in_i64_def intro!: i64_id)

text \<open>One step of the loop: credits go back to one lot, to its allocation and to the ledger.\<close>

lemma give_step_books:
  assumes B: "books s 0 h t" and l: "l \<in> set (lots (tx_db t))" "lot_user l = tx_user t"
    and g: "0 < give" "in_i64 give"
    and U: "set_lot_remaining (lot_id l) (i64 (lot_remaining l + give)) (tx_db t) = Inr db1"
    and A: "add_allocation_refund i (lot_id l) give db1 = Inr db2"
    and W: "write_entry ((refund_entry x ty ri k)\<lparr>en_delta := give, en_lot := Some (lot_id l)\<rparr>) (t\<lparr>tx_db := db2\<rparr>) = Inr t'"
  shows "books s 0 h t' \<and> tx_balance t' = tx_balance t + give \<and> tx_debt t' = tx_debt t \<and>
    tx_user t' = tx_user t \<and> tx_now t' = tx_now t \<and> holds (tx_db t') = holds (tx_db t) \<and>
    lots (tx_db t') = update_where (\<lambda>x. lot_id x = lot_id l) (\<lambda>x. x\<lparr>lot_remaining := lot_remaining l + give\<rparr>) (lots (tx_db t))"
proof -
  let ?r = "i64 (lot_remaining l + give)"
  note U' = U [unfolded set_lot_remaining_def]
  note V = books_update_lot [OF B l _ U', simplified]
  have "0 \<le> ?r" using V(2) by (simp add: lot_ok_def)
  then have r: "?r = lot_remaining l + give"
    using books_lot [OF B l(1)] g by (intro i64_add_nonneg) auto
  have B1: "books s (?r - lot_remaining l) h (t\<lparr>tx_db := db1\<rparr>)" using V(1) by simp
  have db1: "db1 = (tx_db t)\<lparr>lots := lots db1\<rparr>" using V(4) .
  note A' = books_allocation_refund [OF B1, simplified, OF A]
  have f2: "lots db2 = lots db1" "holds db2 = holds (tx_db t)"
    using A'(2) db1 by (metis billing_db.select_convs billing_db.surjective billing_db.update_convs(2,4))+
  have "books s (?r - lot_remaining l - give) (h - 0) t' \<and> moved give 0 0 (t\<lparr>tx_db := db2\<rparr>) t'"
    by (rule books_write_at [OF A'(1) W]) (use g in auto)
  then show ?thesis using r f2 V(3) by (simp add: moved_def)
qed

lemma give_back_books:
  assumes "books s 0 h t" "rem_ok rem rows t" "allocs_range rows"
    and "give_back x ty ri rows left rem t = Inr t'"
  shows "books s 0 h t' \<and> tx_debt t' = tx_debt t \<and> tx_user t' = tx_user t \<and> tx_now t' = tx_now t \<and>
    holds (tx_db t') = holds (tx_db t) \<and>
    tx_balance t' = tx_balance t + max 0 (min left (unrefunded rows))"
  using assms
proof (induction rows arbitrary: left rem t)
  case Nil
  then show ?case by (simp add: unrefunded_def)
next
  case (Cons a rows)
  note ar = allocs_range_Cons [OF Cons.prems(3)]
  have pos: "0 \<le> unrefunded rows"
    using ar unfolding unrefunded_def by (intro sum_list_nonneg) (auto simp: allocs_range_def)
  let ?x = "al_amount a - al_refunded a"
  have un: "unrefunded (a # rows) = ?x + unrefunded rows" by (simp add: unrefunded_def)
  have ro: "rem_ok rem rows t" using Cons.prems(2) by (simp add: rem_ok_def)
  consider "left = 0" | "left \<noteq> 0" "min ?x left \<le> 0" | "left \<noteq> 0" "0 < min ?x left" by linarith
  then show ?case
  proof cases
    case 1
    with Cons.prems pos ar un show ?thesis by simp
  next
    case 2
    with Cons.prems(4) ar have "give_back x ty ri rows left rem t = Inr t'" by simp
    from Cons.IH [OF Cons.prems(1) ro _ this] ar
    have IH: "books s 0 h t' \<and> tx_debt t' = tx_debt t \<and> tx_user t' = tx_user t \<and> tx_now t' = tx_now t \<and>
      holds (tx_db t') = holds (tx_db t) \<and> tx_balance t' = tx_balance t + max 0 (min left (unrefunded rows))"
      by blast
    have "0 \<le> ?x" using ar by blast
    with 2 have "?x = 0 \<or> left < 0" by linarith
    then have "max 0 (min left (unrefunded rows)) = max 0 (min left (unrefunded (a # rows)))"
      using pos un by auto
    with IH show ?thesis by simp
  next
    case 3
    obtain g where gd: "min ?x left = g" by blast
    from Cons.prems(2) obtain l where l: "l \<in> set (lots (tx_db t))" "lot_id l = al_lot a" "lot_user l = tx_user t"
      "rem (al_lot a) = lot_remaining l" by (auto simp: rem_ok_def)
    from 3 gd have g0: "left \<noteq> 0" "\<not> g \<le> 0" by auto
    have "i64 (al_amount a - al_refunded a) = ?x" using ar by blast
    with Cons.prems(4) g0 gd obtain db1 db2 t1 where
      U: "set_lot_remaining (lot_id l) (i64 (lot_remaining l + g)) (tx_db t) = Inr db1" and
      A: "add_allocation_refund (hold_id x) (lot_id l) g db1 = Inr db2" and
      W: "write_entry ((refund_entry x ty ri ('':'' @ lot_id l))\<lparr>en_delta := g, en_lot := Some (lot_id l)\<rparr>)
        (t\<lparr>tx_db := db2\<rparr>) = Inr t1" and
      R: "give_back x ty ri rows (left - g) (rem(al_lot a := i64 (lot_remaining l + g))) t1 = Inr t'"
      by (auto simp: Let_def l)
    have g: "0 < g" "in_i64 g" using g0 gd ar by (auto simp: in_i64_def)
    note S = give_step_books [OF Cons.prems(1) l(1,3) g U A W]
    have "rem_ok (rem(al_lot a := i64 (lot_remaining l + g))) rows t1"
      unfolding rem_ok_def
    proof
      fix c assume c: "c \<in> set rows"
      then have ne: "al_lot c \<noteq> al_lot a" using ar by (metis image_eqI)
      from ro c obtain m where m: "m \<in> set (lots (tx_db t))" "lot_id m = al_lot c" "lot_user m = tx_user t"
        "rem (al_lot c) = lot_remaining m" by (auto simp: rem_ok_def)
      then have "m \<in> set (lots (tx_db t1))" using S ne l by (auto simp: set_update_where)
      with m ne S show "\<exists>l' \<in> set (lots (tx_db t1)). lot_id l' = al_lot c \<and> lot_user l' = tx_user t1 \<and>
          (rem(al_lot a := i64 (lot_remaining l + g))) (al_lot c) = lot_remaining l'" by (intro bexI [of _ m]) auto
    qed
    from Cons.IH [OF _ this _ R] S ar
    have IH: "books s 0 h t' \<and> tx_debt t' = tx_debt t1 \<and> tx_user t' = tx_user t1 \<and> tx_now t' = tx_now t1 \<and>
      holds (tx_db t') = holds (tx_db t1) \<and>
      tx_balance t' = tx_balance t1 + max 0 (min (left - g) (unrefunded rows))" by blast
    moreover have "g + max 0 (min (left - g) (unrefunded rows)) = max 0 (min left (unrefunded (a # rows)))"
      using g0 gd pos un by linarith
    ultimately show ?thesis using S by auto
  qed
qed

lemma lot_allowance_le: "0 \<le> lot_remaining l \<Longrightarrow> lot_allowance now l \<le> lot_remaining l"
  by (auto simp: lot_allowance_def split: option.splits)

lemma reapply_lots_books:
  assumes "books s 0 h t" "batch_ok ls t" "reapply_lots ls t = Inr t'"
  shows "books s 0 h t' \<and> tx_debt t' = tx_debt t \<and> tx_user t' = tx_user t \<and> tx_now t' = tx_now t \<and>
    holds (tx_db t') = holds (tx_db t) \<and> tx_balance t' \<le> tx_balance t"
  using assms
proof (induction ls arbitrary: t)
  case Nil
  then show ?case by simp
next
  case (Cons l ls)
  have l: "l \<in> set (lots (tx_db t))" "lot_user l = tx_user t" using Cons.prems(2) by (auto simp: batch_ok_def)
  have bo: "batch_ok ls t" using Cons.prems(2) by (simp add: batch_ok_def)
  let ?a = "lot_allowance (tx_now t) l"
  let ?cut = "i64 (lot_remaining l - ?a)"
  let ?why = "if ?a = 0 \<and> expiry_due (tx_now t) l then RExpire else RDecay"
  show ?case
  proof (cases "?cut \<le> 0")
    case True
    with Cons bo show ?thesis by (simp add: Let_def)
  next
    case False
    with Cons.prems(3) obtain db t1 t2 u where
      U: "set_lot_remaining (lot_id l) ?a (tx_db t) = Inr db" and d: "draw_uuid (t\<lparr>tx_db := db\<rparr>) = (u, t1)" and
      W: "write_entry ((no_entry ?why (reason_text ?why @ '':refund:'' @ u))\<lparr>
          en_delta := - ?cut, en_lot := Some (lot_id l), en_ref_type := ''refund_trim''\<rparr>) t1 = Inr t2" and
      R: "reapply_lots ls t2 = Inr t'"
      by (auto simp: Let_def draw_uuid_def simp del: append.simps)
    note U' = U [unfolded set_lot_remaining_def]
    note V = books_update_lot [OF Cons.prems(1) l _ U', simplified]
    have "0 \<le> ?a" using V(2) by (simp add: lot_ok_def)
    moreover have "?a \<le> lot_remaining l" using books_lot [OF Cons.prems(1) l(1)] by (intro lot_allowance_le)
    ultimately have r: "in_i64 (lot_remaining l - ?a)" "in_i64 (- (lot_remaining l - ?a))" "?a \<le> lot_remaining l"
      using books_lot [OF Cons.prems(1) l(1)] by (auto simp: in_i64_def)
    have t1: "t1 = t\<lparr>tx_db := db, tx_drawn := Suc (tx_drawn t)\<rparr>" using d by (simp add: draw_uuid_def)
    have B1: "books s (?a - lot_remaining l) h t1" using V(1) by (simp add: t1)
    have "books s ((?a - lot_remaining l) - - ?cut) (h - 0) t2 \<and> moved (- ?cut) 0 0 t1 t2"
      by (rule books_write_at [OF B1 W]) (use r in auto)
    then have B2: "books s 0 h t2" and M: "moved (- ?cut) 0 0 t1 t2" using r by auto
    have "batch_ok ls t2" by (rule batch_ok_step [OF Cons.prems(2) U']) (use M in \<open>simp_all add: moved_def t1\<close>)
    from Cons.IH [OF B2 this R] M r V(4) show ?thesis
      by (auto simp: moved_def t1) (metis billing_db.select_convs(3) billing_db.surjective billing_db.update_convs(2))
  qed
qed

lemma write_off_books:
  assumes B: "books s b h t" and W: "write_off_debt x ty ri t = Inr t'"
  shows "books s b h t' \<and> (\<exists>d. 0 \<le> d \<and> d \<le> tx_debt t \<and> moved 0 0 (- d) t t')"
proof -
  let ?o = "ledger_debt_for_key (tx_user t) (''capture:'' @ hold_id x @ '':debt'') (tx_db t)"
  let ?d = "min ?o (tx_debt t)"
  have f: "0 \<le> tx_debt t" "in_i64 (tx_debt t)" using books_figures [OF B] by (auto simp: figure_ok_def)
  show ?thesis
  proof (cases "?d > 0")
    case False
    with W B f show ?thesis
      by (intro conjI exI [of _ 0]) (auto simp: write_off_debt_def Let_def moved_def split: if_splits)
  next
    case True
    with W have E: "write_entry ((refund_entry x ty ri '':debt'')\<lparr>en_debt_delta := - ?d,
             en_note := ''debt from this hold's capture written off by a full refund''\<rparr>) t = Inr t'"
      by (simp add: write_off_debt_def Let_def del: min_less_iff_conj)
    have "in_i64 (- ?d)" using True f by (intro in_i64_neg) (auto simp: in_i64_def)
    then have "books s (b - 0) (h - 0) t' \<and> moved 0 0 (- ?d) t t'"
      by (intro books_write_at [OF B E]) auto
    then show ?thesis using True by (auto intro!: exI [of _ ?d])
  qed
qed

lemma lock_allocations_ok:
  assumes B: "books s b h t" and x: "x \<in> set (holds (tx_db t))" "hold_user x = tx_user t"
  defines "rows \<equiv> lock_allocations (hold_id x) (tx_db t)"
  shows "allocs_range rows"
    and "rem_ok (lots_map (lock_lots_by_id (map al_lot rows) (tx_user t) (tx_db t))) rows t"
proof -
  have wf: "allocs_wf (allocs (tx_db t))" by (rule books_allocs_wf [OF B])
  have set_rows: "set rows \<subseteq> {a \<in> set (allocs (tx_db t)). al_hold a = hold_id x}"
    by (auto simp: rows_def lock_allocations_def)
  have "distinct (allocs (tx_db t))" "inj_on (\<lambda>a. (al_hold a, al_lot a)) (set (allocs (tx_db t)))"
    using wf by (simp_all add: allocs_wf_def distinct_map)
  then have "distinct (map al_lot rows)"
    by (auto simp: rows_def lock_allocations_def distinct_map inj_on_def)
  then show "allocs_range rows" using wf set_rows by (auto simp: allocs_range_def allocs_wf_def)
  show "rem_ok (lots_map (lock_lots_by_id (map al_lot rows) (tx_user t) (tx_db t))) rows t"
    unfolding rem_ok_def
  proof
    fix a assume a: "a \<in> set rows"
    with set_rows have aa: "a \<in> set (allocs (tx_db t))" "al_hold a = hold_id x" by auto
    have ow: "allocs_owned (tx_db t)" and dh: "distinct (map hold_id (holds (tx_db t)))"
      and dl: "distinct (map lot_id (lots (tx_db t)))"
      using B by (auto simp: books_def db_ok_def holds_wf_def lots_wf_def)
    from ow aa obtain y l where y: "y \<in> set (holds (tx_db t))" "al_hold a = hold_id y"
      and l: "l \<in> set (lots (tx_db t))" "al_lot a = lot_id l" "hold_user y = lot_user l"
      by (auto simp: allocs_owned_def)
    have "y = x" using distinct_key_unique [OF dh y(1) x(1)] y aa by simp
    then have u: "lot_user l = tx_user t" using l x by simp
    let ?ls = "lock_lots_by_id (map al_lot rows) (tx_user t) (tx_db t)"
    have "l \<in> set ?ls" using l u a by (force simp: lock_lots_by_id_def)
    moreover have "distinct (map lot_id ?ls)"
      using dl by (auto simp: lock_lots_by_id_def distinct_map inj_on_def)
    ultimately have "find (\<lambda>l. lot_id l = al_lot a) ?ls = Some l"
      using find_Some_iff_key [of lot_id ?ls "al_lot a" l] l by simp
    then have "lots_map ?ls (al_lot a) = lot_remaining l" by (simp add: lots_map_def)
    with l u show "\<exists>l \<in> set (lots (tx_db t)). lot_id l = al_lot a \<and> lot_user l = tx_user t \<and>
        lots_map ?ls (al_lot a) = lot_remaining l" by (intro bexI [of _ l]) auto
  qed
qed

lemma refund_credits_books:
  assumes B: "books s 0 h t" and x: "x \<in> set (holds (tx_db t))" "hold_user x = tx_user t"
    and R: "refund_credits x percent ty ri t = Inr (n, t')"
  shows "books s 0 h t'"
proof -
  from R obtain t1 t2 t3 where
    W: "(if percent = 100 then write_off_debt x ty ri t else Inr t) = Inr t1" and
    G: "give_back x ty ri (lock_allocations (hold_id x) (tx_db t1)) n
      (lots_map (lock_lots_by_id (map al_lot (lock_allocations (hold_id x) (tx_db t1))) (tx_user t1) (tx_db t1))) t1
      = Inr t2" and
    A: "reapply_lots (lock_lots_by_id (map al_lot (lock_allocations (hold_id x) (tx_db t1))) (tx_user t2) (tx_db t2)) t2
      = Inr t3" and
    S: "settle_debt t3 = Inr t'"
    by (auto simp: refund_credits_def Let_def)
  have B1: "books s 0 h t1 \<and> holds (tx_db t1) = holds (tx_db t) \<and> tx_user t1 = tx_user t"
    using W B write_off_books [OF B, of x ty ri t1] by (auto simp: moved_def split: if_splits)
  then have x1: "x \<in> set (holds (tx_db t1))" "hold_user x = tx_user t1" using x by auto
  from B1 have B1': "books s 0 h t1" by simp
  note L = lock_allocations_ok [OF B1' x1]
  have B2: "books s 0 h t2" using give_back_books [OF B1' L(2,1) G] by simp
  have "batch_ok (lock_lots_by_id ids (tx_user t2) (tx_db t2)) t2" for ids
    by (rule batch_ok_filter [OF B2, of _ "\<lambda>l. lot_id l \<in> set ids"])
      (simp add: lock_lots_by_id_def conj_commute)
  from reapply_lots_books [OF B2 this A] have "books s 0 h t3" by simp
  from settle_debt_books [OF this S] show ?thesis by blast
qed

lemma refund_books:
  assumes B: "books s 0 h t" and R: "refund hid percent ty ri t = Inr (n, t')"
  shows "books s 0 h t'"
proof (cases "percent \<le> 0")
  case True
  with B R show ?thesis by (simp add: refund_def)
next
  case False
  with R obtain x where L: "lock_hold hid t = Inr x" by (auto simp: refund_def)
  note x = lock_hold_Inr [OF L]
  show ?thesis
  proof (cases "hold_kind x = HoldPlanQuota")
    case False
    with R L \<open>\<not> percent \<le> 0\<close> have "refund_credits x percent ty ri t = Inr (n, t')"
      by (simp add: refund_def split: if_splits)
    with refund_credits_books [OF B] x show ?thesis by blast
  next
    case True
    with R L \<open>\<not> percent \<le> 0\<close> consider "t' = t" | t1 where
        "adjust_quota (period_of x) (\<lambda>used held. Inr (i32 (used - 1), held)) t = Inr t1"
        "write_entry (refund_entry x ty ri []) t1 = Inr t'"
      by (auto simp: refund_def split: if_splits)
    then show ?thesis
    proof cases
      case 1
      with B show ?thesis by simp
    next
      case 2
      have "books s (0 - 0) (h - 0) t' \<and> moved 0 0 0 t1 t'"
        by (rule books_write_at [OF books_adjust_quota(1) [OF B 2(1)] 2(2)]) auto
      then show ?thesis by simp
    qed
  qed
qed

section \<open>Revoking a lot\<close>

text \<open>
  Revoking a lot takes what is left of it and turns what was spent into debt: the two add up
  to what the lot was granted with.
\<close>

lemma revoke_lot_books:
  assumes B: "books s 0 h t" and R: "revoke_lot lid key ty ri t = Inr (removed, debt, t')"
  shows "books s 0 h t' \<and> 0 \<le> removed \<and> 0 \<le> debt \<and> tx_balance t' = tx_balance t - removed \<and>
    tx_debt t' = tx_debt t + debt \<and> tx_held t' = tx_held t \<and>
    (\<exists>l \<in> set (lots (tx_db t)). lot_id l = lid \<and> lot_user l = tx_user t \<and> removed + debt = lot_initial l)"
proof -
  from R obtain l where g: "get_lot lid (tx_db t) = Some l" and u: "lot_user l = tx_user t"
    by (auto simp: revoke_lot_def split: option.splits if_splits)
  then have l: "l \<in> set (lots (tx_db t))" "lot_id l = lid" by (auto simp: get_lot_def dest!: find_SomeD)
  note r = books_lot [OF B l(1)]
  let ?e = "\<lambda>suffix. (no_entry RReversal (key @ suffix))\<lparr>en_lot := Some lid, en_ref_type := ty, en_ref_id := ri\<rparr>"
  from R g u obtain t1 t2 db where
    rd: "removed = lot_remaining l" "debt = lot_initial l - lot_remaining l" and
    S1: "(if lot_remaining l > 0
            then res_bind (exec_db (set_lot_remaining lid 0) t)
                   (write_entry ((?e '':remaining'')\<lparr>en_delta := - lot_remaining l\<rparr>))
            else Inr t) = Inr t1" and
    S2: "(if lot_initial l - lot_remaining l > 0
            then write_entry ((?e '':debt'')\<lparr>en_debt_delta := lot_initial l - lot_remaining l\<rparr>) t1
            else Inr t1) = Inr t2" and
    E: "expire_lot_now lid (ts (tx_now t2)) (tx_db t2) = Inr db" and t': "t' = t2\<lparr>tx_db := db\<rparr>"
    by (auto simp: revoke_lot_def Let_def simp del: append.simps)
  have h1: "books s 0 h t1 \<and> tx_balance t1 = tx_balance t - removed \<and> tx_debt t1 = tx_debt t \<and>
    tx_held t1 = tx_held t \<and> tx_user t1 = tx_user t \<and>
    (\<exists>l' \<in> set (lots (tx_db t1)). lot_id l' = lid \<and> lot_user l' = tx_user t)"
  proof (cases "lot_remaining l > 0")
    case False
    with S1 B rd r l u show ?thesis by auto
  next
    case True
    with S1 obtain db1 where U: "set_lot_remaining lid 0 (tx_db t) = Inr db1" and
      W: "write_entry ((?e '':remaining'')\<lparr>en_delta := - lot_remaining l\<rparr>) (t\<lparr>tx_db := db1\<rparr>) = Inr t1"
      by auto
    have U': "update_lot (lot_id l) (\<lambda>l. l\<lparr>lot_remaining := 0\<rparr>) (tx_db t) = Inr db1"
      using U l by (simp add: set_lot_remaining_def)
    note V = books_update_lot [OF B l(1) u _ U']
    have B1: "books s (- lot_remaining l) h (t\<lparr>tx_db := db1\<rparr>)" using V(1) by simp
    have "books s (- lot_remaining l - - lot_remaining l) (h - 0) t1 \<and>
        moved (- lot_remaining l) 0 0 (t\<lparr>tx_db := db1\<rparr>) t1"
      by (rule books_write_at [OF B1 W]) (use r in_i64_neg in auto)
    moreover have "l\<lparr>lot_remaining := 0\<rparr> \<in> set (lots db1)" using update_lot_row [OF U' l(1)] by simp
    ultimately show ?thesis using l u rd by (auto simp: moved_def intro!: bexI [of _ "l\<lparr>lot_remaining := 0\<rparr>"])
  qed
  have "in_i64 debt" using r rd by (auto simp: in_i64_def)
  have h2: "books s 0 h t2 \<and> moved 0 0 debt t1 t2"
  proof (cases "debt > 0")
    case False
    with S2 h1 rd r show ?thesis by (auto simp: moved_def)
  next
    case True
    with S2 rd have W: "write_entry ((?e '':debt'')\<lparr>en_debt_delta := debt\<rparr>) t1 = Inr t2" by simp
    from h1 have "books s 0 h t1" by simp
    then have "books s (0 - 0) (h - 0) t2 \<and> moved 0 0 debt t1 t2"
      by (rule books_write_at [OF _ W]) (use \<open>in_i64 debt\<close> in auto)
    then show ?thesis by simp
  qed
  from h1 h2 obtain l' where l': "l' \<in> set (lots (tx_db t2))" "lot_id l' = lid" "lot_user l' = tx_user t2"
    by (auto simp: moved_def)
  have E': "update_lot (lot_id l') (\<lambda>x. x\<lparr>lot_expires_at := Some (ts (tx_now t2))\<rparr>) (tx_db t2) = Inr db"
    using E l' by (simp add: expire_lot_now_def)
  from h2 have "books s 0 h t2" by simp
  from books_update_lot(1) [OF this l'(1,3) _ E'] have "books s 0 h t'" by (simp add: t')
  with h1 h2 rd r l u show ?thesis by (auto simp: moved_def t')
qed

text \<open>A wallet with nothing spendable left after the due work has no credits at all.\<close>

lemma fresh_nothing_left:
  assumes B: "books s 0 h t" and F: "fresh t"
    and none: "lock_spendable_lots (tx_user t) (ts (tx_now t)) spend_batch (tx_db t) = []"
  shows "tx_balance t = 0"
proof -
  let ?fs = "filter (\<lambda>l. lot_user l = tx_user t \<and> lot_spendable (ts (tx_now t)) l) (lots (tx_db t))"
  have "length (take spend_batch (sort_key spend_key ?fs)) = 0"
    using none unfolding lock_spendable_lots_def by (simp only: list.size)
  then have "min (length ?fs) 8 = 0" by (simp only: length_take length_sort spend_batch_def)
  then have "length ?fs = 0" by linarith
  then have "?fs = []" by (simp only: length_0_conv)
  then have "\<forall>l \<in> set (lots (tx_db t)). lot_user l = tx_user t \<longrightarrow> \<not> 0 < lot_remaining l"
    using F by (auto simp: fresh_def filter_empty_conv)
  then have z: "\<forall>l \<in> set (lots (tx_db t)). lot_user l = tx_user t \<longrightarrow> lot_remaining l = 0"
    using books_lot(2) [OF B] by force
  have "sum_where (\<lambda>l. lot_user l = u) lot_remaining rows = 0"
    if "\<forall>l \<in> set rows. lot_user l = u \<longrightarrow> lot_remaining l = 0" for u and rows :: "lot list"
    using that by (induction rows) auto
  with z have "lots_remaining (tx_user t) (tx_db t) = 0" by (simp add: lots_remaining_def)
  with B show ?thesis by (simp add: books_def own_figures_def)
qed

end
