(* ===== verification/Wallet_Ledger.thy ===== *)
theory Wallet_Ledger
  imports Wallet_Keeps
begin

text \<open>
  \<open>Ledger.Do\<close> of \<open>wallet/wallet.go\<close>: one transaction opens, locks the wallet row, applies
  what is due, runs the operation, writes the wallet's new figures and commits, or leaves the
  database as it was. The row lock serialises the transactions of one user, and
  transactions of different users write different rows, so a history of the ledger is a
  sequence of such steps.
\<close>

section \<open>One transaction\<close>

definition open_tx :: "instant \<Rightarrow> (nat \<Rightarrow> uuid) \<Rightarrow> wallet_row \<Rightarrow> uuid \<Rightarrow> billing_db \<Rightarrow> tx" where
  "open_tx now uuids w u db = \<lparr>tx_db = db, tx_user = u, tx_now = now, tx_balance = w_balance w,
     tx_held = w_held w, tx_debt = w_debt w, tx_start = (w_balance w, w_held w, w_debt w),
     tx_closed = (w_closed_at w \<noteq> None), tx_changes = Map.empty, tx_uuids = uuids, tx_drawn = 0\<rparr>"

definition flush :: "tx \<Rightarrow> go_error + tx" where
  "flush t =
     (if (tx_balance t, tx_held t, tx_debt t) = tx_start t then Inr t
      else res_bind (exec_db (update_wallet (tx_user t) (tx_balance t) (tx_held t) (tx_debt t)) t) (\<lambda>t.
        Inr (t\<lparr>tx_db := insert_billing_outbox ''credits.changed''
               (CreditsChanged (tx_user t) (tx_balance t) (tx_held t) (tx_debt t) (available t)
                  (tx_changes t) (tx_now t)) (tx_db t),
             tx_start := (tx_balance t, tx_held t, tx_debt t), tx_changes := Map.empty\<rparr>)))"

definition run_locked ::
  "instant \<Rightarrow> (nat \<Rightarrow> uuid) \<Rightarrow> (tx \<Rightarrow> go_error + ('a \<times> tx)) \<Rightarrow> wallet_row \<Rightarrow> uuid \<Rightarrow> billing_db \<Rightarrow>
    go_error + ('a \<times> billing_db)" where
  "run_locked now uuids fn w u db =
     res_bind (apply_due (open_tx now uuids w u db)) (\<lambda>t.
     res_bind (fn t) (\<lambda>(x, t).
     res_bind (flush t) (\<lambda>t. Inr (x, tx_db t))))"

text \<open>
  \<open>do\<close>: the answer and the database afterwards, which is the old one unless the transaction
  commits. \<open>busy\<close> says whether another transaction holds the row when locked rows are
  skipped; a skipped wallet answers \<open>None\<close>.
\<close>

definition ledger_do_uuid ::
  "bool \<Rightarrow> bool \<Rightarrow> instant \<Rightarrow> (nat \<Rightarrow> uuid) \<Rightarrow> (tx \<Rightarrow> go_error + ('a \<times> tx)) \<Rightarrow> uuid \<Rightarrow> billing_db \<Rightarrow>
    (go_error + 'a option) \<times> billing_db" where
  "ledger_do_uuid skip busy now uuids fn u db =
     (let opened = (if skip then db else ensure_wallet u db);
          row = (if skip \<and> busy then None else lock_wallet u opened) in
      case row of
        None \<Rightarrow> (if skip then Inr None else Inl (Wrap ''wallet: lock'' [no_rows]), db)
      | Some w \<Rightarrow>
          (case run_locked now uuids fn w u opened of
             Inl e \<Rightarrow> (Inl e, db)
           | Inr (x, db') \<Rightarrow> (Inr (Some x), db')))"

definition ledger_do ::
  "(string \<Rightarrow> uuid option) \<Rightarrow> instant \<Rightarrow> (nat \<Rightarrow> uuid) \<Rightarrow> (tx \<Rightarrow> go_error + ('a \<times> tx)) \<Rightarrow> string \<Rightarrow>
    billing_db \<Rightarrow> (go_error + 'a option) \<times> billing_db" where
  "ledger_do parse_uuid now uuids fn user db =
     (case parse_uuid user of
        None \<Rightarrow> (Inl (wrap1 ''wallet: invalid user id'' ErrInvalidInput), db)
      | Some u \<Rightarrow> ledger_do_uuid False False now uuids fn u db)"

definition no_op :: "tx \<Rightarrow> go_error + (unit \<times> tx)" where
  "no_op t = Inr ((), t)"

text \<open>\<open>Ledger.ApplyDue\<close>, the sweep's transaction.\<close>

definition ledger_apply_due ::
  "bool \<Rightarrow> instant \<Rightarrow> (nat \<Rightarrow> uuid) \<Rightarrow> uuid \<Rightarrow> billing_db \<Rightarrow> (go_error + unit option) \<times> billing_db" where
  "ledger_apply_due busy now uuids u db = ledger_do_uuid True busy now uuids no_op u db"

section \<open>Opening and committing keep the tables right\<close>

lemma has_wallet_iff: "has_wallet ws u \<longleftrightarrow> u \<in> set (map w_user ws)"
  by (auto simp: has_wallet_def list_ex_iff)

lemma ensure_wallet_ok:
  assumes A: "all_ok db"
  shows "all_ok (ensure_wallet u db)"
proof (cases "list_ex (\<lambda>w. w_user w = u) (wallets db)")
  case True
  with A show ?thesis by (simp add: ensure_wallet_def)
next
  case False
  let ?w = "\<lparr>w_user = u, w_balance = 0, w_held = 0, w_debt = 0, w_version = 0, w_closed_at = None\<rparr>"
  have E: "ensure_wallet u db = db\<lparr>wallets := wallets db @ [?w]\<rparr>" using False by (simp add: ensure_wallet_def)
  have d: "db_ok db" using A by (simp add: all_ok_def)
  have new: "\<not> has_wallet (wallets db) u" using False by (simp add: has_wallet_def)
  then have none: "\<forall>l \<in> set (lots db). lot_user l \<noteq> u" "\<forall>h \<in> set (holds db). hold_user h \<noteq> u"
    "\<forall>e \<in> set (ledger db). le_user e \<noteq> u"
    using d by (auto simp: db_ok_def owned_def)
  have zero: "(\<forall>r \<in> set rows. \<not> p r) \<Longrightarrow> sum_where p f rows = 0" for p f and rows :: "'r list"
    by (induction rows) auto
  have "wallet_ok (ensure_wallet u db) ?w"
    using none by (simp add: E wallet_ok_def wallet_mismatched_def sums_defs zero figure_ok_def in_i64_def)
  moreover have "wallet_ok (ensure_wallet u db) w" if "w \<in> set (wallets db)" for w
  proof -
    have "wallet_ok (ensure_wallet u db) w = wallet_ok db w"
      by (intro wallet_ok_cong) (simp_all add: E sums_defs)
    with that A show ?thesis by (simp add: all_ok_def)
  qed
  moreover have "has_wallet (wallets db) v \<Longrightarrow> has_wallet (wallets db @ [?w]) v" for v by (simp add: has_wallet_def)
  then have "db_ok (ensure_wallet u db)"
    using d False by (auto simp: E db_ok_def owned_def allocs_owned_def list_ex_iff)
  ultimately show ?thesis by (auto simp: all_ok_def E)
qed

lemma open_tx_books:
  assumes A: "all_ok db" and w: "w \<in> set (wallets db)" "w_user w = u"
  shows "books (open_tx now uuids w u db) 0 0 (open_tx now uuids w u db)"
proof -
  have "wallet_ok db w" using A w by (simp add: all_ok_def)
  then have "own_figures 0 0 (open_tx now uuids w u db)"
    using w by (auto simp: own_figures_def open_tx_def wallet_ok_def wallet_mismatched_def)
  moreover have "has_wallet (wallets db) u" using w by (auto simp: has_wallet_def list_ex_iff)
  ultimately show ?thesis using A by (simp add: books_def session_def others_ok_def open_tx_def all_ok_def)
qed

lemma flush_ok:
  assumes B: "books s 0 0 t" and w: "w \<in> set (wallets (tx_db s))" "w_user w = tx_user s"
    and st: "tx_start s = (w_balance w, w_held w, w_debt w)" and F: "flush t = Inr t'"
  shows "all_ok (tx_db t')"
proof -
  have ws: "wallets (tx_db t) = wallets (tx_db s)" "tx_start t = tx_start s" "tx_user t = tx_user s"
    using B by (simp_all add: books_def session_def)
  have own: "own_figures 0 0 t" and oth: "others_ok t" and d: "db_ok (tx_db t)" using B by (simp_all add: books_def)
  have uniq: "x = w" if "x \<in> set (wallets (tx_db t))" "w_user x = tx_user t" for x
    using d that w ws distinct_key_unique [of w_user "wallets (tx_db t)" x w] by (simp add: db_ok_def)
  show ?thesis
  proof (cases "(tx_balance t, tx_held t, tx_debt t) = tx_start t")
    case True
    with F have t': "t' = t" by (simp add: flush_def)
    have "wallet_ok (tx_db t) w"
      using own True st ws w by (simp add: own_figures_def wallet_ok_def wallet_mismatched_def)
    with uniq oth d t' show ?thesis by (auto simp: all_ok_def others_ok_def)
  next
    case False
    let ?rows = "update_where (\<lambda>w. w_user w = tx_user t)
        (\<lambda>w. w\<lparr>w_balance := tx_balance t, w_held := tx_held t, w_debt := tx_debt t, w_version := w_version w + 1\<rparr>)
        (wallets (tx_db t))"
    from False F have db': "wallets (tx_db t') = ?rows" "lots (tx_db t') = lots (tx_db t)"
      "holds (tx_db t') = holds (tx_db t)" "allocs (tx_db t') = allocs (tx_db t)" "ledger (tx_db t') = ledger (tx_db t)"
      by (auto simp: flush_def update_wallet_def insert_billing_outbox_def split: if_splits)
    have sums: "lots_remaining u (tx_db t') = lots_remaining u (tx_db t)" "holds_held u (tx_db t') = holds_held u (tx_db t)"
      "ledger_balance u (tx_db t') = ledger_balance u (tx_db t)" "ledger_held u (tx_db t') = ledger_held u (tx_db t)"
      "ledger_debt u (tx_db t') = ledger_debt u (tx_db t)" for u
      using db' by (simp_all add: sums_defs)
    have users: "map w_user ?rows = map w_user (wallets (tx_db t))" by (simp add: map_update_where)
    have "has_wallet ?rows u = has_wallet (wallets (tx_db t)) u" for u
      by (simp only: has_wallet_iff users)
    then have "db_ok (tx_db t')"
      using d db' users by (simp add: db_ok_def owned_def allocs_owned_def)
    moreover have "wallet_ok (tx_db t') x" if "x \<in> set ?rows" for x
    proof -
      from that consider r where "r \<in> set (wallets (tx_db t))" "w_user r = tx_user t"
          "x = r\<lparr>w_balance := tx_balance t, w_held := tx_held t, w_debt := tx_debt t, w_version := w_version r + 1\<rparr>"
        | "x \<in> set (wallets (tx_db t))" "w_user x \<noteq> tx_user t"
        by (auto simp: set_update_where)
      then show ?thesis
      proof cases
        case 1
        with own sums show ?thesis by (simp add: own_figures_def wallet_ok_def wallet_mismatched_def)
      next
        case 2
        with oth have "wallet_ok (tx_db t) x" by (simp add: others_ok_def)
        moreover have "wallet_ok (tx_db t') x = wallet_ok (tx_db t) x" by (intro wallet_ok_cong sums)
        ultimately show ?thesis by simp
      qed
    qed
    ultimately show ?thesis using db' by (simp add: all_ok_def)
  qed
qed

definition foreign_wallets :: "uuid \<Rightarrow> billing_db \<Rightarrow> wallet_row list" where
  "foreign_wallets u db = filter (\<lambda>w. w_user w \<noteq> u) (wallets db)"

lemma foreign_ensure:
  "foreign u (ensure_wallet u db) = foreign u db \<and> foreign_wallets u (ensure_wallet u db) = foreign_wallets u db"
  by (simp add: foreign_def foreign_wallets_def ensure_wallet_def)

lemma foreign_flush:
  assumes "flush t = Inr t'"
  shows "foreign u (tx_db t') = foreign u (tx_db t) \<and>
    foreign_wallets (tx_user t) (tx_db t') = foreign_wallets (tx_user t) (tx_db t)"
  using assms
  by (auto simp: flush_def update_wallet_def insert_billing_outbox_def foreign_def foreign_wallets_def
      intro!: filter_update_where split: if_splits)

section \<open>The contract of an operation\<close>

text \<open>
  What \<open>Do\<close> relies on: an operation that succeeds on a legal input keeps the books. Every
  committed transaction then leaves every wallet reconciled, and an error leaves no trace.
\<close>

locale ledger_operation =
  fixes legal :: "'i \<Rightarrow> bool" and operation :: "'i \<Rightarrow> tx \<Rightarrow> go_error + ('o \<times> tx)"
  assumes keeps: "\<lbrakk>legal i; books s 0 0 t; operation i t = Inr (x, t')\<rbrakk> \<Longrightarrow> books s 0 0 t'"
begin

lemma committed:
  assumes "legal i" "all_ok db"
  shows "all_ok (snd (ledger_do_uuid skip busy now uuids (operation i) u db)) \<and>
    foreign u (snd (ledger_do_uuid skip busy now uuids (operation i) u db)) = foreign u db \<and>
    foreign_wallets u (snd (ledger_do_uuid skip busy now uuids (operation i) u db)) = foreign_wallets u db"
proof -
  let ?db = "if skip then db else ensure_wallet u db"
  have A: "all_ok ?db" using assms(2) ensure_wallet_ok by simp
  show ?thesis
  proof (cases "if skip \<and> busy then None else lock_wallet u ?db")
    case None
    with assms(2) show ?thesis by (simp add: ledger_do_uuid_def Let_def)
  next
    case (Some w)
    then have w: "w \<in> set (wallets ?db)" "w_user w = u"
      by (auto simp: lock_wallet_def split: if_splits dest!: find_SomeD)
    let ?s = "open_tx now uuids w u ?db"
    show ?thesis
    proof (cases "run_locked now uuids (operation i) w u ?db")
      case (Inl e)
      with Some assms(2) show ?thesis by (simp add: ledger_do_uuid_def Let_def)
    next
      case (Inr r)
      then obtain t1 x t2 t3 where
        r: "apply_due ?s = Inr t1" "operation i t1 = Inr (x, t2)" "flush t2 = Inr t3" "r = (x, tx_db t3)"
        by (auto simp: run_locked_def)
      have "books ?s 0 0 t1" by (rule apply_due_books [OF open_tx_books [OF A w] r(1)])
      from keeps [OF assms(1) this r(2)] have B: "books ?s 0 0 t2" .
      have "all_ok (tx_db t3)"
        by (rule flush_ok [OF B _ _ _ r(3), of w]) (use w in \<open>simp_all add: open_tx_def\<close>)
      moreover have "foreign u (tx_db t3) = foreign u ?db" "foreign_wallets u (tx_db t3) = foreign_wallets u ?db"
        using foreign_flush [OF r(3), of u] B
        by (simp_all add: books_def session_def open_tx_def foreign_wallets_def)
      ultimately show ?thesis using Some Inr r(4) foreign_ensure [of u db]
        by (auto simp: ledger_do_uuid_def Let_def)
    qed
  qed
qed

lemma committed_user:
  assumes "legal i" "all_ok db"
  shows "all_ok (snd (ledger_do parse now uuids (operation i) user db))"
  using assms conjunct1 [OF committed [OF assms]] by (simp add: ledger_do_def split: option.splits)

end

section \<open>The operations\<close>

definition discard :: "go_error + tx \<Rightarrow> go_error + (unit \<times> tx)" where
  "discard r = res_bind r (\<lambda>t. Inr ((), t))"

lemma discard_Inr [simp]: "discard r = Inr (x, t) \<longleftrightarrow> r = Inr t"
  by (cases r) (auto simp: discard_def)

interpretation grant_op: ledger_operation "\<lambda>g. in_i64 (gi_amount g)" grant
  by unfold_locales (rule conjunct1 [OF grant_books])

interpretation remove_op: ledger_operation "\<lambda>(n, key, oper, nte). in_i64 n"
    "\<lambda>(n, key, oper, nte) t. discard (remove n key oper nte t)"
  by unfold_locales (auto intro: conjunct1 [OF remove_books])

interpretation reserve_op: ledger_operation "\<lambda>i. in_i64 (ri_amount i)" reserve
  by unfold_locales (rule conjunct1 [OF reserve_books])

interpretation release_op: ledger_operation "\<lambda>_. True" "\<lambda>(hid, reason). release hid reason"
  by unfold_locales (auto intro: release_books)

interpretation capture_op: ledger_operation "\<lambda>_. True" "\<lambda>(parse, hid, meetup). capture parse hid meetup"
  by unfold_locales (auto intro: capture_books)

interpretation refund_op: ledger_operation "\<lambda>_. True" "\<lambda>(hid, percent, ty, ri). refund hid percent ty ri"
  by unfold_locales (auto intro: refund_books)

definition revoke_pair :: "uuid \<Rightarrow> string \<Rightarrow> string \<Rightarrow> string \<Rightarrow> tx \<Rightarrow> go_error + ((int \<times> int) \<times> tx)" where
  "revoke_pair lid key ty ri t = res_bind (revoke_lot lid key ty ri t) (\<lambda>(r, d, t). Inr ((r, d), t))"

interpretation revoke_op: ledger_operation "\<lambda>_. True" "\<lambda>(lid, key, ty, ri). revoke_pair lid key ty ri"
  by unfold_locales (auto simp: revoke_pair_def intro: conjunct1 [OF revoke_lot_books])

interpretation due_op: ledger_operation "\<lambda>_. True" "\<lambda>_. no_op"
  by unfold_locales (simp add: no_op_def)

section \<open>Histories\<close>

text \<open>
  The billing service runs several operations in one transaction; a script is such a
  sequence. A failing operation fails the transaction.
\<close>

datatype wallet_op =
    OpGrant grant_input
  | OpRemove int string string string
  | OpReserve reserve_input
  | OpRelease uuid string
  | OpCapture uuid string
  | OpRefund uuid int string string
  | OpRevoke uuid string string string

fun legal_op :: "wallet_op \<Rightarrow> bool" where
  "legal_op (OpGrant g) = in_i64 (gi_amount g)"
| "legal_op (OpRemove n key oper nte) = in_i64 n"
| "legal_op (OpReserve i) = in_i64 (ri_amount i)"
| "legal_op _ = True"

definition drop_answer :: "go_error + ('a \<times> tx) \<Rightarrow> go_error + tx" where
  "drop_answer r = res_bind r (\<lambda>(x, t). Inr t)"

fun run_op :: "(string \<Rightarrow> uuid option) \<Rightarrow> wallet_op \<Rightarrow> tx \<Rightarrow> go_error + tx" where
  "run_op parse (OpGrant g) t = drop_answer (grant g t)"
| "run_op parse (OpRemove n key oper nte) t = remove n key oper nte t"
| "run_op parse (OpReserve i) t = drop_answer (reserve i t)"
| "run_op parse (OpRelease hid reason) t = drop_answer (release hid reason t)"
| "run_op parse (OpCapture hid meetup) t = drop_answer (capture parse hid meetup t)"
| "run_op parse (OpRefund hid percent ty ri) t = drop_answer (refund hid percent ty ri t)"
| "run_op parse (OpRevoke lid key ty ri) t = drop_answer (revoke_pair lid key ty ri t)"

fun run_script :: "(string \<Rightarrow> uuid option) \<Rightarrow> wallet_op list \<Rightarrow> tx \<Rightarrow> go_error + (unit \<times> tx)" where
  "run_script parse [] t = Inr ((), t)"
| "run_script parse (p # ps) t = res_bind (run_op parse p t) (run_script parse ps)"

lemma drop_answer_Inr [simp]: "drop_answer r = Inr t \<longleftrightarrow> (\<exists>x. r = Inr (x, t))"
  by (cases r) (auto simp: drop_answer_def)

lemma run_op_keeps:
  assumes "legal_op p" "books s 0 0 t" "run_op parse p t = Inr t'"
  shows "books s 0 0 t'"
  using assms
  by (cases p) (auto simp: revoke_pair_def intro: conjunct1 [OF grant_books] conjunct1 [OF remove_books]
      conjunct1 [OF reserve_books] release_books capture_books refund_books conjunct1 [OF revoke_lot_books])

lemma run_script_keeps:
  "list_all legal_op ps \<Longrightarrow> books s 0 0 t \<Longrightarrow> run_script parse ps t = Inr (x, t') \<Longrightarrow> books s 0 0 t'"
  by (induction ps arbitrary: t) (auto dest: run_op_keeps)

interpretation script_op: ledger_operation "\<lambda>(parse, ps). list_all legal_op ps" "\<lambda>(parse, ps). run_script parse ps"
  by unfold_locales (auto intro: run_script_keeps)

text \<open>
  The databases a history of the service reaches: committed or rolled back transactions of any
  user at any time, the closing of a wallet, and changes to tables the books do not read
  (subscriptions, welcome grants, the refund log, the outbox and its drain).
\<close>

inductive reachable :: "(string \<Rightarrow> uuid option) \<Rightarrow> billing_db \<Rightarrow> bool" for parse where
  initial: "reachable parse empty_db"
| transaction: "reachable parse db \<Longrightarrow> list_all legal_op ps \<Longrightarrow>
    reachable parse (snd (ledger_do_uuid skip busy now uuids (run_script parse ps) u db))"
| closing: "reachable parse db \<Longrightarrow> reachable parse (snd (close_wallet u now db))"
| elsewhere: "reachable parse db \<Longrightarrow> same_books db db' \<Longrightarrow> reachable parse db'"

inductive_cases reachable_cases: "reachable parse db"

lemma close_wallet_ok:
  assumes A: "all_ok db"
  shows "all_ok (snd (close_wallet u now db))"
proof -
  let ?p = "\<lambda>w. w_user w = u \<and> w_closed_at w = None" and ?f = "\<lambda>w. w\<lparr>w_closed_at := Some (ts now)\<rparr>"
  let ?rows = "update_where ?p ?f (wallets db)"
  have E: "snd (close_wallet u now db) = db\<lparr>wallets := ?rows\<rparr>" by (simp add: close_wallet_def)
  have users: "map w_user ?rows = map w_user (wallets db)" by (simp add: map_update_where)
  then have "has_wallet ?rows v = has_wallet (wallets db) v" for v by (simp only: has_wallet_iff users)
  then have "db_ok (db\<lparr>wallets := ?rows\<rparr>)"
    using A users by (simp add: all_ok_def db_ok_def owned_def allocs_owned_def)
  moreover have "wallet_ok (db\<lparr>wallets := ?rows\<rparr>) x = wallet_ok db x" for x
    by (intro wallet_ok_cong) (simp_all add: sums_defs)
  moreover have "wallet_ok db (?f w) = wallet_ok db w" for w by (simp add: wallet_ok_def wallet_mismatched_def)
  ultimately show ?thesis using A unfolding E by (auto simp: all_ok_def set_update_where)
qed

lemma empty_db_ok: "all_ok empty_db"
  by (simp add: all_ok_def db_ok_def empty_db_def lots_wf_def holds_wf_def allocs_wf_def allocs_owned_def owned_def)

lemma same_books_ok: "same_books db db' \<Longrightarrow> all_ok db = all_ok db'"
  unfolding all_ok_def using same_books_db_ok [of db db'] same_books_wallet_ok [of db db']
  by (simp only: same_books_def) blast

lemma reachable_ok: "reachable parse db \<Longrightarrow> all_ok db"
proof (induction rule: reachable.induct)
  case initial
  show ?case by (rule empty_db_ok)
next
  case (transaction db ps skip busy now uuids u)
  then show ?case using script_op.committed [of "(parse, ps)" db skip busy now uuids u] by simp
next
  case (closing db u now)
  show ?case by (rule close_wallet_ok [OF closing.IH])
next
  case (elsewhere db db')
  then show ?case using same_books_ok by blast
qed

end
