(* ===== verification/Flags.thy ===== *)
theory Flags
  imports AppError
begin

text \<open>
  \<open>platform/flags\<close>: app versions (\<open>version.go\<close>), the evaluation of one flag for one subject
  (\<open>flags.go\<close>) and the cached table around it (\<open>service.go\<close>). The first four bytes of the
  SHA-256 of a rollout key are the argument \<open>sha\<close>; the table read, the clock and the e-mail
  lookup are the record \<open>flag_env\<close>.
\<close>

section \<open>Versions\<close>

text \<open>The loop over the segments: each a number from 0 to a million.\<close>

fun parse_segments :: "string list \<Rightarrow> int list option" where
  "parse_segments [] = Some []"
| "parse_segments (p # ps) =
     (case parse_int p of
        None \<Rightarrow> None
      | Some n \<Rightarrow> if n < 0 \<or> n > 1000000 then None else map_option ((#) n) (parse_segments ps))"

text \<open>\<open>parseVersion\<close>; the result stands for the array \<open>[3]int\<close>, whose missing entries are 0.\<close>

definition parse_version :: "string \<Rightarrow> int list option" where
  "parse_version v =
     (let v = trim_space (trim_prefix ''v'' v);
          v = takeWhile (\<lambda>c. c \<noteq> CHR ''+'' \<and> c \<noteq> CHR ''-'') v in
      if v = [] then None
      else let parts = split_on (CHR ''.'') v in
        if length parts > 3 then None
        else map_option (\<lambda>ns. ns @ replicate (3 - length ns) 0) (parse_segments parts))"

fun compare_segments :: "int list \<Rightarrow> int list \<Rightarrow> int" where
  "compare_segments (a # as) (b # bs) =
     (if a \<noteq> b then (if a < b then -1 else 1) else compare_segments as bs)"
| "compare_segments _ _ = 0"

definition compare_versions :: "string \<Rightarrow> string \<Rightarrow> int" where
  "compare_versions a b =
     (case (parse_version a, parse_version b) of
        (None, None) \<Rightarrow> 0
      | (None, Some _) \<Rightarrow> -1
      | (Some _, None) \<Rightarrow> 1
      | (Some va, Some vb) \<Rightarrow> compare_segments va vb)"

definition at_least :: "string \<Rightarrow> string \<Rightarrow> bool" where
  "at_least version min_version =
     (if parse_version version = None then False else compare_versions version min_version \<ge> 0)"

section \<open>Rules\<close>

datatype rule_type = RuleUserIDs | RuleEmailDomains | RuleMinAppVersion | RulePercentage | RuleUnknown string

record flag_rule =
  fr_type :: rule_type
  fr_values :: "string list"
  fr_version :: string
  fr_percent :: int
  fr_result :: "bool option"

record flag =
  fl_key :: string
  fl_enabled :: bool
  fl_rules :: "flag_rule list"
  fl_value :: string

record subject =
  sj_user_id :: string
  sj_email :: string
  sj_app_version :: string

fun rule_type_text :: "rule_type \<Rightarrow> string" where
  "rule_type_text RuleUserIDs = ''user_ids''"
| "rule_type_text RuleEmailDomains = ''email_domains''"
| "rule_type_text RuleMinAppVersion = ''min_app_version''"
| "rule_type_text RulePercentage = ''percentage''"
| "rule_type_text (RuleUnknown t) = t"

definition rule_problem :: "nat \<Rightarrow> flag_rule \<Rightarrow> go_error option" where
  "rule_problem i r =
     (let ruled = (\<lambda>rest. Some (PkgError (''flags: rule '' @ digits_of_nat i @ rest))) in
      case fr_type r of
        RuleUserIDs \<Rightarrow> if fr_values r = [] then ruled '' (user_ids) has no values'' else None
      | RuleEmailDomains \<Rightarrow> if fr_values r = [] then ruled '' (email_domains) has no values'' else None
      | RuleMinAppVersion \<Rightarrow>
          if parse_version (fr_version r) = None
          then ruled ('' has an unreadable version \"'' @ fr_version r @ ''\"'') else None
      | RulePercentage \<Rightarrow>
          if fr_percent r < 0 \<or> fr_percent r > 100
          then ruled ('' percent '' @ string_of_int (fr_percent r) @ '' is outside 0-100'') else None
      | RuleUnknown t \<Rightarrow> ruled ('' has unknown type \"'' @ t @ ''\"''))"

fun validate_rules :: "nat \<Rightarrow> flag_rule list \<Rightarrow> go_error option" where
  "validate_rules i [] = None"
| "validate_rules i (r # rs) =
     (case rule_problem i r of Some e \<Rightarrow> Some e | None \<Rightarrow> validate_rules (Suc i) rs)"

definition rollout_bucket :: "(string \<Rightarrow> nat) \<Rightarrow> string \<Rightarrow> string \<Rightarrow> int" where
  "rollout_bucket sha key user_id = int (sha (key @ [CHR 0x00] @ to_lower user_id) mod 100)"

definition rule_matches :: "(string \<Rightarrow> nat) \<Rightarrow> string \<Rightarrow> flag_rule \<Rightarrow> subject \<Rightarrow> bool" where
  "rule_matches sha key r s =
     (case fr_type r of
        RuleUserIDs \<Rightarrow>
          sj_user_id s \<noteq> [] \<and> list_ex (\<lambda>v. to_lower v = to_lower (sj_user_id s)) (fr_values r)
      | RuleEmailDomains \<Rightarrow>
          (case cut_at (CHR ''@'') (sj_email s) of
             None \<Rightarrow> False
           | Some (_, domain) \<Rightarrow> domain \<noteq> [] \<and>
               list_ex (\<lambda>v. to_lower (trim_prefix ''@'' v) = to_lower domain) (fr_values r))
      | RuleMinAppVersion \<Rightarrow>
          sj_app_version s \<noteq> [] \<and> compare_versions (sj_app_version s) (fr_version r) \<ge> 0
      | RulePercentage \<Rightarrow>
          sj_user_id s \<noteq> [] \<and> rollout_bucket sha key (sj_user_id s) < fr_percent r
      | RuleUnknown t \<Rightarrow> False)"

text \<open>The loop of \<open>Evaluate\<close>: the first rule that matches decides.\<close>

fun first_match :: "(string \<Rightarrow> nat) \<Rightarrow> string \<Rightarrow> flag_rule list \<Rightarrow> subject \<Rightarrow> bool option" where
  "first_match sha key [] s = None"
| "first_match sha key (r # rs) s =
     (if rule_matches sha key r s
      then Some (case fr_result r of Some b \<Rightarrow> b | None \<Rightarrow> True)
      else first_match sha key rs s)"

definition evaluate :: "(string \<Rightarrow> nat) \<Rightarrow> flag \<Rightarrow> subject \<Rightarrow> bool" where
  "evaluate sha f s =
     (case first_match sha (fl_key f) (fl_rules f) s of Some b \<Rightarrow> b | None \<Rightarrow> fl_enabled f)"

definition needs_email :: "flag \<Rightarrow> bool" where
  "needs_email f = list_ex (\<lambda>r. fr_type r = RuleEmailDomains) (fl_rules f)"

section \<open>The service\<close>

definition cache_ttl :: duration where
  "cache_ttl = 30 * second"

record flag_service =
  fs_ttl :: duration
  fs_cached :: "(string \<rightharpoonup> flag) option"
  fs_loaded_at :: instant

text \<open>
  What one call of the service meets: the clock when it asks and when it has loaded, the answer of
  \<open>Store.All\<close>, the e-mail resolver if one is wired, and the hash.
\<close>

record flag_env =
  fe_now :: instant
  fe_loaded :: instant
  fe_all :: "go_error + flag list"
  fe_emails :: "(string \<Rightarrow> go_error + string) option"
  fe_sha :: "string \<Rightarrow> nat"

text \<open>The table built from the rows: a flag with invalid rules is left out.\<close>

definition load_table :: "flag list \<Rightarrow> (string \<rightharpoonup> flag)" where
  "load_table fs = fold (\<lambda>f m. if validate_rules 0 (fl_rules f) = None then m(fl_key f \<mapsto> f) else m) fs Map.empty"

definition snapshot :: "flag_env \<Rightarrow> flag_service \<Rightarrow> (go_error + (string \<rightharpoonup> flag)) \<times> flag_service" where
  "snapshot e s =
     (case fs_cached s of
        Some m \<Rightarrow>
          if time_sub (fe_now e) (fs_loaded_at s) < fs_ttl s then (Inr m, s)
          else (case fe_all e of
              Inl err \<Rightarrow> (Inr m, s)
            | Inr fs \<Rightarrow> (Inr (load_table fs), s\<lparr>fs_cached := Some (load_table fs), fs_loaded_at := fe_loaded e\<rparr>))
      | None \<Rightarrow>
          (case fe_all e of
              Inl err \<Rightarrow> (Inl (Wrap ''flags: load'' [err]), s)
            | Inr fs \<Rightarrow> (Inr (load_table fs), s\<lparr>fs_cached := Some (load_table fs), fs_loaded_at := fe_loaded e\<rparr>)))"

definition with_email :: "flag_env \<Rightarrow> flag \<Rightarrow> subject \<Rightarrow> subject" where
  "with_email e f s =
     (if sj_email s \<noteq> [] \<or> sj_user_id s = [] \<or> \<not> needs_email f then s
      else case fe_emails e of
          None \<Rightarrow> s
        | Some resolve \<Rightarrow> (case resolve (sj_user_id s) of Inl err \<Rightarrow> s | Inr email \<Rightarrow> s\<lparr>sj_email := email\<rparr>))"

definition flag_enabled :: "flag_env \<Rightarrow> string \<Rightarrow> subject \<Rightarrow> flag_service \<Rightarrow> (go_error + bool) \<times> flag_service" where
  "flag_enabled e key subj s =
     (case snapshot e s of
        (Inl err, s) \<Rightarrow> (Inl err, s)
      | (Inr m, s) \<Rightarrow> (Inr (case m key of None \<Rightarrow> False | Some f \<Rightarrow> evaluate (fe_sha e) f (with_email e f subj)), s))"

definition allowlisted :: "flag_env \<Rightarrow> string \<Rightarrow> subject \<Rightarrow> flag_service \<Rightarrow> (go_error + bool) \<times> flag_service" where
  "allowlisted e key subj s =
     (case snapshot e s of
        (Inl err, s) \<Rightarrow> (Inl err, s)
      | (Inr m, s) \<Rightarrow> (Inr (case m key of None \<Rightarrow> False
          | Some f \<Rightarrow> evaluate (fe_sha e) (f\<lparr>fl_enabled := False\<rparr>) (with_email e f subj)), s))"

text \<open>
  \<open>EvaluateAll\<close> ranges over a Go map, in an order the language leaves open: \<open>keys\<close> is that
  order. The e-mail is fetched for the first flag that needs it and kept.
\<close>

fun evaluate_each :: "flag_env \<Rightarrow> (string \<rightharpoonup> flag) \<Rightarrow> string list \<Rightarrow> bool \<Rightarrow> subject \<Rightarrow>
    (string \<rightharpoonup> bool \<times> string) \<Rightarrow> (string \<rightharpoonup> bool \<times> string)" where
  "evaluate_each e m [] resolved subj out = out"
| "evaluate_each e m (k # ks) resolved subj out =
     (case m k of
        None \<Rightarrow> evaluate_each e m ks resolved subj out
      | Some f \<Rightarrow>
          let fetch = (\<not> resolved \<and> needs_email f);
              subj = (if fetch then with_email e f subj else subj) in
          evaluate_each e m ks (resolved \<or> fetch) subj (out(k \<mapsto> (evaluate (fe_sha e) f subj, fl_value f))))"

definition evaluate_all ::
  "flag_env \<Rightarrow> string list \<Rightarrow> subject \<Rightarrow> flag_service \<Rightarrow> (go_error + (string \<rightharpoonup> bool \<times> string)) \<times> flag_service" where
  "evaluate_all e keys subj s =
     (case snapshot e s of
        (Inl err, s) \<Rightarrow> (Inl err, s)
      | (Inr m, s) \<Rightarrow> (Inr (evaluate_each e m keys False subj Map.empty), s))"

end
