(* ===== verification/Billing_Service.thy ===== *)
theory Billing_Service
  imports Calendar Pricing Wallet_Ledger Flags
begin

text \<open>
  \<open>modules/billing\<close>: the service over the ledger. This theory holds the rules cache, the active
  plan, the welcome grant, the quote, and the reserve, release and capture that the meetup
  module calls (\<open>service.go\<close>, \<open>quote.go\<close>, \<open>welcome.go\<close>, \<open>subscriptions.go\<close>). What the request
  reads from outside is an \<open>env\<close>: the clock (one reading per call), \<open>uuid.Parse\<close>, fresh
  UUIDs per transaction, the active \<open>price_rules\<close> row with the JSON decoder, and the auth
  module's fingerprint.
\<close>

section \<open>State and surroundings\<close>

record 'raw env =
  e_now :: instant
  e_parse :: "string \<Rightarrow> uuid option"
  e_uuids :: "nat \<Rightarrow> nat \<Rightarrow> uuid"
  e_rules_row :: "go_error + int \<times> 'raw"
  e_decode :: "'raw \<Rightarrow> go_error + document"
  e_fingerprint :: "(string \<Rightarrow> go_error + string) option"

record service =
  sv_db :: billing_db
  sv_rules :: rules
  sv_rules_loaded_at :: instant

record caller =
  ca_user :: string
  ca_trust_level :: int

definition hosting_trust_level :: int where
  "hosting_trust_level = 3"

definition rules_cache_ttl :: duration where
  "rules_cache_ttl = 30 * second"

definition load_rules :: "'raw env \<Rightarrow> service \<Rightarrow> (go_error + rules) \<times> service" where
  "load_rules e sv =
     (let cached = (rules_version (sv_rules sv) \<noteq> 0) in
      if cached \<and> time_sub (e_now e) (sv_rules_loaded_at sv) < rules_cache_ttl
      then (Inr (sv_rules sv), sv)
      else case res_bind (e_rules_row e) (\<lambda>(version, raw). parse_rules (e_decode e) version raw) of
          Inr r \<Rightarrow> (Inr r, sv\<lparr>sv_rules := r, sv_rules_loaded_at := e_now e\<rparr>)
        | Inl err \<Rightarrow>
            if cached then (Inr (sv_rules sv), sv)
            else (Inl (Wrap ''billing: load price rules'' [Sentinel ErrInternal, err]), sv))"

definition parse_user :: "'raw env \<Rightarrow> string \<Rightarrow> go_error + uuid" where
  "parse_user e s = (case e_parse e s of
     None \<Rightarrow> Inl (wrap1 ''billing: invalid user id'' ErrUnauthorized) | Some u \<Rightarrow> Inr u)"

text \<open>One \<open>Ledger.Do\<close> of the request, the \<open>n\<close>-th transaction it opens.\<close>

definition service_do ::
  "'raw env \<Rightarrow> nat \<Rightarrow> string \<Rightarrow> (tx \<Rightarrow> go_error + ('a \<times> tx)) \<Rightarrow> service \<Rightarrow> (go_error + 'a option) \<times> service" where
  "service_do e n user fn sv =
     (let (r, db) = ledger_do (e_parse e) (e_now e) (e_uuids e n) fn user (sv_db sv) in
      (r, sv\<lparr>sv_db := db\<rparr>))"

section \<open>The active plan\<close>

record subscription =
  su_plan_code :: string
  su_status :: string
  su_period_start :: instant
  su_period_end :: instant
  su_meetups_included :: int
  su_max_capacity :: int
  su_max_advance_days :: int

definition active_subscription :: "uuid \<Rightarrow> instant \<Rightarrow> billing_db \<Rightarrow> subscription option" where
  "active_subscription u now db = map_option
     (\<lambda>(s, p). \<lparr>su_plan_code = sr_plan_code s, su_status = sr_status s,
        su_period_start = quota_window_start (sr_period_start s) now, su_period_end = sr_period_end s,
        su_meetups_included = pl_meetups_included p, su_max_capacity = pl_max_capacity p,
        su_max_advance_days = pl_max_advance_days p\<rparr>)
     (get_active_subscription u (ts now) db)"

definition plan_used :: "uuid \<Rightarrow> instant \<Rightarrow> billing_db \<Rightarrow> int" where
  "plan_used u period_start db = (case get_plan_usage u (ts period_start) db of
     None \<Rightarrow> 0 | Some x \<Rightarrow> i32 (pu_used x + pu_held x))"

definition limits_for :: "rules \<Rightarrow> subscription option \<Rightarrow> limits" where
  "limits_for r sub = (case sub of
     Some s \<Rightarrow> \<lparr>max_capacity = su_max_capacity s, max_advance_days = su_max_advance_days s\<rparr>
   | None \<Rightarrow> free (rules_doc r))"

section \<open>The welcome grant\<close>

definition err_no_welcome :: go_error where
  "err_no_welcome = PkgError ''billing: welcome grant not due''"

definition welcome_every :: "rules \<Rightarrow> duration" where
  "welcome_every r = i64 (i64 (decay_every_days (doc_welcome (rules_doc r)) * 24) * hour)"

definition welcome_input :: "rules \<Rightarrow> uuid \<Rightarrow> instant \<Rightarrow> grant_input" where
  "welcome_input r u now =
     (let w = doc_welcome (rules_doc r) in
      \<lparr>gi_kind = KindWelcome, gi_amount = welcome_credits w,
       gi_expires_at = Some (time_add now (i64 (welcome_every r * max_periods (decay_percent w)))),
       gi_decay = Some \<lparr>dc_percent = decay_percent w, dc_every = welcome_every r\<rparr>,
       gi_source_ref = [], gi_reason = None, gi_key = ''welcome:'' @ u, gi_ref_type = ''welcome'',
       gi_ref_id = [], gi_operator = [], gi_note = []\<rparr>)"

definition welcome_tx :: "rules \<Rightarrow> uuid \<Rightarrow> string \<Rightarrow> tx \<Rightarrow> go_error + (unit \<times> tx)" where
  "welcome_tx r u fingerprint t =
     (case grant (welcome_input r u (tx_now t)) t of
        Inl err \<Rightarrow>
          if errors_is_pkg err ''wallet: operation already applied'' then Inl err_no_welcome else Inl err
      | Inr (lid, t) \<Rightarrow>
          let (n, db) = insert_welcome_grant \<lparr>wg_user = u, wg_fingerprint = fingerprint, wg_lot = lid,
                wg_amount = welcome_credits (doc_welcome (rules_doc r))\<rparr> (tx_db t) in
          if n = 0 then Inl err_no_welcome else Inr ((), t\<lparr>tx_db := db\<rparr>))"

text \<open>\<open>ensureWelcome\<close> is best effort: it only ever changes the state.\<close>

definition ensure_welcome :: "'raw env \<Rightarrow> caller \<Rightarrow> service \<Rightarrow> service" where
  "ensure_welcome e ca sv =
     (if ca_trust_level ca < hosting_trust_level then sv
      else case e_fingerprint e of None \<Rightarrow> sv | Some fp_of \<Rightarrow>
      case e_parse e (ca_user ca) of None \<Rightarrow> sv | Some u \<Rightarrow>
      if get_welcome_grant u (sv_db sv) \<noteq> None then sv
      else case fp_of (ca_user ca) of Inl err \<Rightarrow> sv | Inr fingerprint \<Rightarrow>
      if fingerprint = [] then sv
      else case load_rules e sv of
          (Inl err, sv) \<Rightarrow> sv
        | (Inr r, sv) \<Rightarrow>
            if welcome_credits (doc_welcome (rules_doc r)) \<le> 0 then sv
            else snd (service_do e 0 (ca_user ca) (welcome_tx r u fingerprint) sv))"

section \<open>Quotes\<close>

record quote =
  qu_cost :: int
  qu_would_cost :: int
  qu_breakdown :: breakdown
  qu_price_version :: int
  qu_covered_by_plan :: bool
  qu_balance_available :: int
  qu_limits :: limits

record entitlements =
  et_plan_code :: string
  et_plan_status :: string
  et_period_end :: instant
  et_limits :: limits
  et_meetups_included :: int
  et_meetups_used :: int

definition get_entitlements :: "'raw env \<Rightarrow> caller \<Rightarrow> service \<Rightarrow> (go_error + entitlements) \<times> service" where
  "get_entitlements e ca sv =
     (case parse_user e (ca_user ca) of Inl err \<Rightarrow> (Inl err, sv) | Inr u \<Rightarrow>
      case load_rules e (ensure_welcome e ca sv) of
        (Inl err, sv) \<Rightarrow> (Inl err, sv)
      | (Inr r, sv) \<Rightarrow>
          let sub = active_subscription u (e_now e) (sv_db sv) in
          (Inr (case sub of
             None \<Rightarrow> \<lparr>et_plan_code = [], et_plan_status = [], et_period_end = zero_time,
               et_limits = limits_for r None, et_meetups_included = 0, et_meetups_used = 0\<rparr>
           | Some s \<Rightarrow> \<lparr>et_plan_code = su_plan_code s, et_plan_status = su_status s,
               et_period_end = su_period_end s, et_limits = limits_for r (Some s),
               et_meetups_included = su_meetups_included s,
               et_meetups_used = plan_used u (su_period_start s) (sv_db sv)\<rparr>), sv))"

definition price_quote ::
  "uuid \<Rightarrow> rules \<Rightarrow> int \<Rightarrow> instant \<Rightarrow> instant \<Rightarrow> int \<Rightarrow> billing_db \<Rightarrow> go_error + quote" where
  "price_quote u r capacity window_start now available_credits db =
     (let sub = active_subscription u now db; lim = limits_for r sub;
          lead = time_sub window_start now in
      if capacity < 1 \<or> capacity > max_capacity lim
      then Inl (wrap1 (''billing: capacity must be between 1 and '' @ string_of_int (max_capacity lim)) ErrInvalidInput)
      else if lead > i64 (i64 (max_advance_days lim * 24) * hour)
      then Inl (wrap1 (''billing: meetups can be scheduled at most '' @ string_of_int (max_advance_days lim) @
             '' days ahead'') ErrInvalidInput)
      else case price r \<lparr>in_capacity = capacity, in_lead = lead\<rparr> of
          Inl err \<Rightarrow> Inl (Wrap ''billing'' [err, Sentinel ErrInvalidInput])
        | Inr b \<Rightarrow>
            let covered = (case sub of None \<Rightarrow> False
                  | Some s \<Rightarrow> plan_used u (su_period_start s) db < su_meetups_included s) in
            Inr \<lparr>qu_cost = (if covered then 0 else bd_total b), qu_would_cost = bd_total b, qu_breakdown = b,
                 qu_price_version = rules_version r, qu_covered_by_plan = covered,
                 qu_balance_available = available_credits, qu_limits = lim\<rparr>)"

definition quote_tx :: "uuid \<Rightarrow> rules \<Rightarrow> int \<Rightarrow> instant \<Rightarrow> tx \<Rightarrow> go_error + (quote \<times> tx)" where
  "quote_tx u r capacity window_start t =
     res_bind (price_quote u r capacity window_start (tx_now t) (available t) (tx_db t)) (\<lambda>q. Inr (q, t))"

text \<open>The answer of a \<open>Do\<close> that never skips its wallet.\<close>

fun answered :: "go_error + 'a option \<Rightarrow> go_error + 'a" where
  "answered (Inl err) = Inl err"
| "answered (Inr None) = Inl no_rows"
| "answered (Inr (Some x)) = Inr x"

definition get_quote :: "'raw env \<Rightarrow> caller \<Rightarrow> int \<Rightarrow> instant \<Rightarrow> service \<Rightarrow> (go_error + quote) \<times> service" where
  "get_quote e ca capacity window_start sv =
     (case parse_user e (ca_user ca) of Inl err \<Rightarrow> (Inl err, sv) | Inr u \<Rightarrow>
      case load_rules e sv of
        (Inl err, sv) \<Rightarrow> (Inl err, sv)
      | (Inr r, sv) \<Rightarrow>
          let (a, sv) = service_do e 1 (ca_user ca) (quote_tx u r capacity window_start) (ensure_welcome e ca sv) in
          (answered a, sv))"

text \<open>
  \<open>QuoteForCreation\<close>: \<open>app_version\<close> is the version the client sent, \<open>min_version\<close> the configured
  \<open>MinCreditsAppVersion\<close>.
\<close>

definition quote_for_creation ::
  "string \<Rightarrow> string \<Rightarrow> 'raw env \<Rightarrow> caller \<Rightarrow> int \<Rightarrow> instant \<Rightarrow> service \<Rightarrow> (go_error + quote) \<times> service" where
  "quote_for_creation app_version min_version e ca capacity window_start sv =
     (case get_quote e ca capacity window_start sv of
        (Inl err, sv) \<Rightarrow> (Inl err, sv)
      | (Inr q, sv) \<Rightarrow>
          if \<not> at_least app_version min_version
          then (Inl (Coded \<lparr>ce_sentinel = ErrUpgradeRequired, ce_code = code_update_required,
                  ce_message = ''Update TieHere to host a meetup.'', ce_fields = []\<rparr>), sv)
          else (Inr q, sv))"

section \<open>Reserve, release, capture\<close>

record reserve_request =
  rq_cost :: int
  rq_price_version :: int
  rq_covered_by_plan :: bool

definition price_changed :: "rules \<Rightarrow> int \<Rightarrow> go_error" where
  "price_changed r cost = Coded \<lparr>ce_sentinel = ErrConflict, ce_code = code_price_changed,
     ce_message = ''billing: the price changed; check the new price and try again'',
     ce_fields = [(''cost'', cost), (''price_version'', rules_version r)]\<rparr>"

definition reserve_input_for :: "uuid \<Rightarrow> rules \<Rightarrow> reserve_request \<Rightarrow> string \<Rightarrow> tx \<Rightarrow> go_error + reserve_input" where
  "reserve_input_for u r req key t =
     (let base = \<lparr>ri_kind = HoldCredits, ri_amount = rq_cost req, ri_price_version = rules_version r,
            ri_ttl = hold_ttl r, ri_key = key, ri_period_start = zero_time, ri_quota_included = 0\<rparr> in
      if rq_covered_by_plan req
      then (case active_subscription u (tx_now t) (tx_db t) of
          None \<Rightarrow> Inl (price_changed r (rq_cost req))
        | Some s \<Rightarrow> Inr (base\<lparr>ri_kind := HoldPlanQuota, ri_period_start := su_period_start s,
              ri_quota_included := su_meetups_included s\<rparr>))
      else Inr base)"

text \<open>An exhausted quota means the quote is out of date.\<close>

fun quota_as_price_changed :: "rules \<Rightarrow> int \<Rightarrow> go_error + 'a \<Rightarrow> go_error + 'a" where
  "quota_as_price_changed r cost (Inl err) =
     (if errors_is_pkg err ''wallet: plan quota exhausted'' then Inl (price_changed r cost) else Inl err)"
| "quota_as_price_changed r cost (Inr x) = Inr x"

lemma quota_as_price_changed_Inr [simp]: "quota_as_price_changed r cost m = Inr x \<longleftrightarrow> m = Inr x"
  by (cases m) auto

definition reserve_tx :: "uuid \<Rightarrow> rules \<Rightarrow> reserve_request \<Rightarrow> string \<Rightarrow> tx \<Rightarrow> go_error + (uuid \<times> tx)" where
  "reserve_tx u r req key t =
     res_bind (reserve_input_for u r req key t) (\<lambda>i.
     res_bind (quota_as_price_changed r (rq_cost req) (reserve i t)) (\<lambda>(h, t). Inr (hv_id h, t)))"

definition service_reserve ::
  "'raw env \<Rightarrow> string \<Rightarrow> reserve_request \<Rightarrow> string \<Rightarrow> service \<Rightarrow> (go_error + string) \<times> service" where
  "service_reserve e user req key sv =
     (if rq_cost req = 0 \<and> \<not> rq_covered_by_plan req then (Inr [], sv)
      else if key = [] then (Inl (wrap1 ''billing: a reservation needs a key'' ErrInvalidInput), sv)
      else case parse_user e user of Inl err \<Rightarrow> (Inl err, sv) | Inr u \<Rightarrow>
      case load_rules e sv of
        (Inl err, sv) \<Rightarrow> (Inl err, sv)
      | (Inr r, sv) \<Rightarrow>
          if rules_version r \<noteq> rq_price_version req then (Inl (price_changed r (rq_cost req)), sv)
          else let (a, sv) = service_do e 1 user (reserve_tx u r req key) sv in (answered a, sv))"

definition hold_owner :: "'raw env \<Rightarrow> string \<Rightarrow> billing_db \<Rightarrow> go_error + uuid \<times> string" where
  "hold_owner e s db =
     (case e_parse e s of
        None \<Rightarrow> Inl (wrap1 ''billing: invalid hold id'' ErrInvalidInput)
      | Some hid \<Rightarrow> (case get_hold hid db of
          None \<Rightarrow> Inl (wrap1 (''billing: hold '' @ s) ErrNotFound)
        | Some h \<Rightarrow> Inr (hid, hold_user h)))"

definition service_release :: "'raw env \<Rightarrow> string \<Rightarrow> service \<Rightarrow> (go_error + unit) \<times> service" where
  "service_release e s sv =
     (case hold_owner e s (sv_db sv) of Inl err \<Rightarrow> (Inl err, sv) | Inr (hid, owner) \<Rightarrow>
      let (a, sv) = service_do e 1 owner (\<lambda>t. discard (drop_answer (release hid ''released'' t))) sv in
      (answered a, sv))"

text \<open>The spent credits go to a metric after the commit; here they are the answer.\<close>

definition service_capture :: "'raw env \<Rightarrow> string \<Rightarrow> string \<Rightarrow> service \<Rightarrow> (go_error + capture_result) \<times> service" where
  "service_capture e s meetup sv =
     (case hold_owner e s (sv_db sv) of Inl err \<Rightarrow> (Inl err, sv) | Inr (hid, owner) \<Rightarrow>
      let (a, sv) = service_do e 1 owner (capture (e_parse e) hid meetup) sv in
      (answered a, sv))"

section \<open>Entitlement in Go and in SQL\<close>

definition entitled_at :: "string \<Rightarrow> instant \<Rightarrow> instant \<Rightarrow> instant option \<Rightarrow> instant \<Rightarrow> bool" where
  "entitled_at status start end_t grace now =
     (if time_after start now then False
      else if status = ''active'' then time_after end_t now
      else if status = ''grace_period''
      then time_after (case grace of None \<Rightarrow> end_t | Some g \<Rightarrow> if time_after g end_t then g else end_t) now
      else False)"

record next_subscription =
  ns_plan_code :: string
  ns_status :: string
  ns_platform :: string
  ns_original_transaction_id :: string
  ns_product_id :: string
  ns_period_start :: instant
  ns_period_end :: instant
  ns_grace_period_end :: "instant option"
  ns_auto_renew :: bool

definition write_subscription ::
  "uuid \<Rightarrow> subscription_row option \<Rightarrow> next_subscription \<Rightarrow> instant \<Rightarrow> billing_db \<Rightarrow> go_error + billing_db" where
  "write_subscription u cur nxt now db =
     (let start = (if \<not> time_after (ns_period_end nxt) (ns_period_start nxt)
            then time_add (ns_period_end nxt) (- second) else ns_period_start nxt);
          row = \<lparr>sr_user = u, sr_plan_code = ns_plan_code nxt, sr_status = ns_status nxt,
            sr_platform = ns_platform nxt,
            sr_original_transaction_id = null_text (ns_original_transaction_id nxt),
            sr_product_id = null_text (ns_product_id nxt), sr_period_start = ts start,
            sr_period_end = ts (ns_period_end nxt),
            sr_grace_period_end = map_option ts (ns_grace_period_end nxt),
            sr_auto_renew = ns_auto_renew nxt\<rparr> in
      case upsert_subscription row db of
        Inl err \<Rightarrow> Inl (Wrap ''billing: write subscription'' [err])
      | Inr db \<Rightarrow>
      let was = (case cur of None \<Rightarrow> False | Some c \<Rightarrow>
            entitled_at (sr_status c) (sr_period_start c) (sr_period_end c) (sr_grace_period_end c) now);
          now_is = entitled_at (ns_status nxt) start (ns_period_end nxt) (ns_grace_period_end nxt) now in
      if was = now_is then Inr db
      else Inr (insert_billing_outbox
        (if now_is then ''subscription.activated'' else ''subscription.deactivated'')
        (SubscriptionEvent u (ns_plan_code nxt) (ns_status nxt) now) db))"

end
