(* ===== verification/Billing_Settle.thy ===== *)
theory Billing_Settle
  imports Billing_Service
begin

text \<open>
  \<open>modules/billing/refunds.go\<close>: what a charged meetup's cancellation or close means for money.
  The refund log, unique per hold, makes the settlement idempotent; the 30-day cap applies
  before anything is given back.
\<close>

record meetup_ended =
  me_hold_id :: string
  me_meetup_id :: string
  me_event :: string
  me_accepted_count :: int
  me_window_start :: instant
  me_ended_at :: instant

definition event_cancelled :: string where "event_cancelled = ''cancelled''"
definition event_closed :: string where "event_closed = ''closed''"

lemmas event_defs = event_cancelled_def event_closed_def

definition refund_percent :: "refund_policy \<Rightarrow> meetup_ended \<Rightarrow> int" where
  "refund_percent p e =
     (if me_event e = event_cancelled then
        let cutoff = time_add (me_window_start e) (i64 (i64 (- full_if_cancelled_hours_before p) * hour)) in
        if \<not> time_after (me_ended_at e) cutoff then 100 else 0
      else if me_event e = event_closed
      then if me_accepted_count e = 0 then no_participants_percent p else 0
      else 0)"

definition log_refund ::
  "uuid \<Rightarrow> uuid option \<Rightarrow> string \<Rightarrow> refund_outcome \<Rightarrow> int \<Rightarrow> int \<Rightarrow> tx \<Rightarrow> go_error + (unit \<times> tx)" where
  "log_refund hid meetup event outcome percent amount t = discard (exec_db (insert_refund_log
     \<lparr>rl_user = tx_user t, rl_hold = hid, rl_meetup = meetup, rl_event = event, rl_outcome = outcome,
      rl_percent = i32 percent, rl_amount = amount, rl_created_at = ts (tx_now t)\<rparr>) t)"

definition refund_capped :: "rules \<Rightarrow> int \<Rightarrow> tx \<Rightarrow> bool" where
  "refund_capped r percent t \<longleftrightarrow> percent > 0 \<and>
     count_refunds_since (tx_user t) (ts (time_add (tx_now t) (- (30 * 24 * hour)))) (tx_db t)
       \<ge> max_per_30_days (refunds (rules_doc r))"

text \<open>The \<open>switch\<close> at the end, once the hold is captured.\<close>

definition settle_captured ::
  "(string \<Rightarrow> uuid option) \<Rightarrow> uuid \<Rightarrow> int \<Rightarrow> bool \<Rightarrow> meetup_ended \<Rightarrow> tx \<Rightarrow> go_error + (unit \<times> tx)" where
  "settle_captured parse hid percent capped e t =
     (let logged = log_refund hid (parse (me_meetup_id e)) (me_event e) in
      if percent = 0 then logged OutNoRefund 0 0 t
      else if capped then logged OutSkippedCap percent 0 t
      else res_bind (refund hid percent (''meetup_'' @ me_event e) (me_meetup_id e) t) (\<lambda>(amount, t).
        logged OutRefunded percent amount t))"

definition settle_tx ::
  "(string \<Rightarrow> uuid option) \<Rightarrow> rules \<Rightarrow> uuid \<Rightarrow> meetup_ended \<Rightarrow> tx \<Rightarrow> go_error + (unit \<times> tx)" where
  "settle_tx parse r hid e t =
     (let percent = refund_percent (refunds (rules_doc r)) e in
      if refund_log_exists hid (tx_db t) then Inr ((), t)
      else let capped = refund_capped r percent t in
        res_bind (get_hold_state hid t) (\<lambda>h.
        if hv_state h = StateCaptured then settle_captured parse hid percent capped e t
        else if percent = 100 \<and> \<not> capped
        then res_bind (release hid release_settled t) (\<lambda>(released, t).
          log_refund hid (parse (me_meetup_id e)) (me_event e) OutReleased 100 0 t)
        else res_bind (capture parse hid (me_meetup_id e) t) (\<lambda>(res, t).
          settle_captured parse hid percent capped e t)))"

definition handle_meetup_ended :: "'raw env \<Rightarrow> meetup_ended \<Rightarrow> service \<Rightarrow> (go_error + unit) \<times> service" where
  "handle_meetup_ended e ev sv =
     (if me_event ev \<noteq> event_cancelled \<and> me_event ev \<noteq> event_closed
      then (Inl (wrap1 (''billing: unknown meetup event \"'' @ me_event ev @ ''\"'') ErrInvalidInput), sv)
      else case hold_owner e (me_hold_id ev) (sv_db sv) of
        Inl err \<Rightarrow> if errors_is err ErrNotFound then (Inr (), sv) else (Inl err, sv)
      | Inr (hid, owner) \<Rightarrow>
          (case load_rules e sv of
             (Inl err, sv) \<Rightarrow> (Inl err, sv)
           | (Inr r, sv) \<Rightarrow>
               let (a, sv) = service_do e 1 owner (settle_tx (e_parse e) r hid ev) sv in (answered a, sv)))"

end
