(* ===== verification/Billing_Ops.thy ===== *)
theory Billing_Ops
  imports Billing_Settle
begin

text \<open>
  \<open>modules/billing/sweeps.go\<close>, \<open>admin.go\<close> and the wallet page of \<open>view.go\<close>: the background
  sweeps, the operator's actions and the closing of a deleted account.
\<close>

section \<open>Sweeps\<close>

definition sweep_batch :: nat where
  "sweep_batch = 200"

text \<open>The loop stops at the first error, which is then the sweep's answer.\<close>

fun sweep_holds :: "'raw env \<Rightarrow> nat \<Rightarrow> (uuid \<times> uuid) list \<Rightarrow> int \<Rightarrow> service \<Rightarrow> (go_error + int) \<times> service" where
  "sweep_holds e n [] released sv = (Inr released, sv)"
| "sweep_holds e n ((hid, owner) # rows) released sv =
     (let (a, sv) = service_do e n owner (release hid ''expired'') sv in
      case answered a of
        Inl err \<Rightarrow> (Inl err, sv)
      | Inr ok \<Rightarrow> sweep_holds e (Suc n) rows (if ok then released + 1 else released) sv)"

definition sweep_expired_holds :: "'raw env \<Rightarrow> service \<Rightarrow> (go_error + int) \<times> service" where
  "sweep_expired_holds e sv =
     sweep_holds e 1 (expired_holds (ts (e_now e)) sweep_batch (sv_db sv)) 0 sv"

text \<open>\<open>busy\<close> tells which wallets a request holds while the sweep comes by.\<close>

fun sweep_due :: "(uuid \<Rightarrow> bool) \<Rightarrow> 'raw env \<Rightarrow> nat \<Rightarrow> uuid list \<Rightarrow> service \<Rightarrow> (go_error + unit) \<times> service" where
  "sweep_due busy e n [] sv = (Inr (), sv)"
| "sweep_due busy e n (u # us) sv =
     (let (a, db) = ledger_apply_due (busy u) (e_now e) (e_uuids e n) u (sv_db sv); sv = sv\<lparr>sv_db := db\<rparr> in
      case a of
        Inl err \<Rightarrow> (Inl err, sv)
      | Inr _ \<Rightarrow> sweep_due busy e (Suc n) us sv)"

definition sweep_decay_and_expiry :: "(uuid \<Rightarrow> bool) \<Rightarrow> 'raw env \<Rightarrow> service \<Rightarrow> (go_error + int) \<times> service" where
  "sweep_decay_and_expiry busy e sv =
     (let us = users_with_due_lots (ts (e_now e)) sweep_batch (sv_db sv); (a, sv) = sweep_due busy e 1 us sv in
      (case a of Inl err \<Rightarrow> Inl err | Inr _ \<Rightarrow> Inr (int (length us)), sv))"

definition find_mismatches :: "billing_db \<Rightarrow> mismatch list" where
  "find_mismatches db = reconcile_wallets db"

definition reconcile :: "'raw env \<Rightarrow> service \<Rightarrow> int \<times> service" where
  "reconcile e sv =
     (let today = utc_day (e_now e); db = sv_db sv in
      if reconciliation_run_exists today db then (0, sv)
      else let ms = find_mismatches db; checked = count_wallets db in
        (checked, sv\<lparr>sv_db := insert_reconciliation_run
           \<lparr>rr_date = today, rr_checked = i32 checked, rr_mismatches = i32 (int (length ms)), rr_detail = ms\<rparr> db\<rparr>))"

section \<open>Operators\<close>

record admin_action =
  aa_action_operator :: string
  aa_action_reason :: string
  aa_action_key :: string

definition err_operator_required :: go_error where
  "err_operator_required = wrap1 ''billing: --operator and --reason are required'' ErrInvalidInput"

definition validate_action :: "admin_action \<Rightarrow> go_error option" where
  "validate_action a =
     (if blank (aa_action_operator a) \<or> blank (aa_action_reason a) then Some err_operator_required
      else if blank (aa_action_key a)
      then Some (wrap1 ''billing: an idempotency key is required'' ErrInvalidInput)
      else None)"

definition admin_input ::
  "int \<Rightarrow> instant option \<Rightarrow> ledger_reason option \<Rightarrow> string \<Rightarrow> admin_action \<Rightarrow> grant_input" where
  "admin_input amount expires reason key a =
     \<lparr>gi_kind = KindAdmin, gi_amount = amount, gi_expires_at = expires, gi_decay = None,
      gi_source_ref = [], gi_reason = reason, gi_key = key, gi_ref_type = ''admin'', gi_ref_id = [],
      gi_operator = aa_action_operator a, gi_note = aa_action_reason a\<rparr>"

definition admin_grant_tx :: "int \<Rightarrow> duration \<Rightarrow> admin_action \<Rightarrow> tx \<Rightarrow> go_error + (bool \<times> tx)" where
  "admin_grant_tx amount expires_in a t =
     (let key = ''admin:'' @ aa_action_key a in
      if key_used key t then Inr (False, t)
      else res_bind (grant (admin_input amount
             (if expires_in > 0 then Some (time_add (tx_now t) expires_in) else None) None key a) t)
        (\<lambda>(lid, t). Inr (True, t)))"

definition admin_grant ::
  "'raw env \<Rightarrow> string \<Rightarrow> int \<Rightarrow> duration \<Rightarrow> admin_action \<Rightarrow> service \<Rightarrow> (go_error + bool) \<times> service" where
  "admin_grant e user amount expires_in a sv =
     (case validate_action a of Some err \<Rightarrow> (Inl err, sv) | None \<Rightarrow>
      let (r, sv) = service_do e 1 user (admin_grant_tx amount expires_in a) sv in (answered r, sv))"

definition admin_adjust_tx :: "int \<Rightarrow> admin_action \<Rightarrow> tx \<Rightarrow> go_error + (bool \<times> tx)" where
  "admin_adjust_tx delta a t =
     (let key = ''adjust:'' @ aa_action_key a in
      if key_used key t \<or> key_used (key @ '':1'') t then Inr (False, t)
      else if delta > 0
      then res_bind (grant (admin_input delta None (Some RAdminAdjust) key a) t) (\<lambda>(lid, t). Inr (True, t))
      else res_bind (remove (i64 (- delta)) key (aa_action_operator a) (aa_action_reason a) t) (\<lambda>t. Inr (True, t)))"

definition admin_adjust ::
  "'raw env \<Rightarrow> string \<Rightarrow> int \<Rightarrow> admin_action \<Rightarrow> service \<Rightarrow> (go_error + bool) \<times> service" where
  "admin_adjust e user delta a sv =
     (case validate_action a of Some err \<Rightarrow> (Inl err, sv) | None \<Rightarrow>
      if delta = 0 then (Inl (wrap1 ''billing: delta must not be zero'' ErrInvalidInput), sv)
      else let (r, sv) = service_do e 1 user (admin_adjust_tx delta a) sv in (answered r, sv))"

definition plan_none :: string where
  "plan_none = ''none''"

definition admin_set_plan ::
  "'raw env \<Rightarrow> string \<Rightarrow> string \<Rightarrow> instant \<Rightarrow> admin_action \<Rightarrow> service \<Rightarrow> (go_error + unit) \<times> service" where
  "admin_set_plan e user plan until_t a sv =
     (if blank (aa_action_operator a) \<or> blank (aa_action_reason a) then (Inl err_operator_required, sv)
      else case parse_user e user of Inl err \<Rightarrow> (Inl err, sv) | Inr u \<Rightarrow>
      let now = e_now e; cancel = (plan = plan_none);
          until_at = (if cancel then time_add now second else until_t) in
      if \<not> cancel \<and> get_plan plan (sv_db sv) = None
      then (Inl (wrap1 (''billing: no plan \"'' @ plan @ ''\"'') ErrInvalidInput), sv)
      else if \<not> cancel \<and> \<not> time_after until_t now
      then (Inl (wrap1 ''billing: --until must be in the future'' ErrInvalidInput), sv)
      else case res_bind (upsert_manual_subscription u (if cancel then ''pro'' else plan)
               (if cancel then ''canceled'' else ''active'') (ts now) (ts until_at) (sv_db sv))
             (insert_admin_audit \<lparr>aa_user = u, aa_action = ''set_plan'', aa_detail = PlanSet plan until_at,
                aa_operator = aa_action_operator a, aa_reason = aa_action_reason a\<rparr>) of
          Inl err \<Rightarrow> (Inl err, sv)
        | Inr db \<Rightarrow> (Inr (), sv\<lparr>sv_db := db\<rparr>))"

definition handle_user_deleted :: "'raw env \<Rightarrow> string \<Rightarrow> service \<Rightarrow> (go_error + unit) \<times> service" where
  "handle_user_deleted e user sv =
     (case e_parse e user of None \<Rightarrow> (Inr (), sv) | Some u \<Rightarrow>
      let (n, db) = close_wallet u (e_now e) (sv_db sv) in
      if n = 0 then (Inr (), sv)
      else case insert_admin_audit \<lparr>aa_user = u, aa_action = ''account_deleted'',
               aa_detail = RemainingPurchased (sum_open_purchased_credits u db),
               aa_operator = ''system'', aa_reason = ''account deleted''\<rparr> db of
          Inl err \<Rightarrow> (Inl err, sv)
        | Inr db \<Rightarrow> (Inr (), sv\<lparr>sv_db := db\<rparr>))"

section \<open>The wallet page\<close>

definition expiring_window :: duration where
  "expiring_window = 14 * 24 * hour"

record expiring_lot =
  ex_kind :: lot_kind
  ex_remaining :: int
  ex_expires_at :: "instant option"
  ex_next_decay_at :: "instant option"
  ex_next_decay_credits :: int

record wallet_view =
  wv_balance :: int
  wv_held :: int
  wv_available :: int
  wv_debt :: int
  wv_expiring_soon :: "expiring_lot list"

definition expiring :: "instant \<Rightarrow> lot \<Rightarrow> expiring_lot option" where
  "expiring horizon l =
     (let exp = (case lot_expires_at l of None \<Rightarrow> None | Some x \<Rightarrow> if time_before x horizon then Some x else None);
          dec = (case lot_decay_percent l of None \<Rightarrow> None | Some p \<Rightarrow>
                 (case lot_next_decay_at l of None \<Rightarrow> None | Some x \<Rightarrow> if time_before x horizon then Some (x, p) else None))
      in if exp = None \<and> dec = None then None
         else Some \<lparr>ex_kind = lot_kind l, ex_remaining = lot_remaining l, ex_expires_at = exp,
           ex_next_decay_at = map_option fst dec,
           ex_next_decay_credits = (case dec of None \<Rightarrow> 0 | Some (x, p) \<Rightarrow>
             max (i64 (lot_remaining l - allowed_after (lot_initial l) p (i64 (lot_periods_applied l + 1)))) 0)\<rparr>)"

definition wallet_view_tx :: "tx \<Rightarrow> go_error + (wallet_view \<times> tx)" where
  "wallet_view_tx t = Inr (\<lparr>wv_balance = tx_balance t, wv_held = tx_held t, wv_available = available t,
     wv_debt = tx_debt t, wv_expiring_soon = List.map_filter
       (expiring (time_add (tx_now t) expiring_window)) (list_open_lots (tx_user t) (tx_db t))\<rparr>, t)"

definition get_wallet_view :: "'raw env \<Rightarrow> caller \<Rightarrow> service \<Rightarrow> (go_error + wallet_view) \<times> service" where
  "get_wallet_view e ca sv =
     (case parse_user e (ca_user ca) of Inl err \<Rightarrow> (Inl err, sv) | Inr u \<Rightarrow>
      let (a, sv) = service_do e 1 (ca_user ca) wallet_view_tx (ensure_welcome e ca sv) in (answered a, sv))"

end
