(* ===== verification/Samples.thy ===== *)
theory Samples
  imports Wallet_Ledger
begin

text \<open>
  One small ledger on which the theorems are applied to concrete values: a wallet of 10
  credits in one lot that never expires and does not decay, with a hold of 4 on it, and the two entries that
  explain them.
\<close>

definition sample_lot :: lot where
  "sample_lot = \<lparr>lot_id = ''l'', lot_user = ''u'', lot_kind = KindPurchase, lot_initial = 10, lot_remaining = 10,
     lot_granted_at = 0, lot_expires_at = None, lot_decay_percent = None, lot_decay_every = None,
     lot_periods_applied = 0, lot_next_decay_at = None, lot_source_ref = None\<rparr>"

definition sample_hold :: hold where
  "sample_hold = \<lparr>hold_id = ''h'', hold_user = ''u'', hold_kind = HoldCredits, hold_amount = 4,
     hold_state = StateHeld, hold_price_version = 1, hold_period_start = None, hold_expires_at = 1000000,
     hold_key = ''k'', hold_meetup = None, hold_captured_at = None, hold_released_at = None,
     hold_release_reason = None\<rparr>"

definition sample_entry :: ledger_entry where
  "sample_entry = \<lparr>le_user = ''u'', le_delta = 10, le_held_delta = 0, le_debt_delta = 0, le_reason = RGrant,
     le_lot = Some ''l'', le_hold = None, le_ref_type = Some ''grant'', le_ref_id = None, le_balance_after = 10,
     le_held_after = 0, le_debt_after = 0, le_key = ''g1'', le_operator = None, le_note = None\<rparr>"

definition sample_db :: billing_db where
  "sample_db = empty_db\<lparr>
     wallets := [\<lparr>w_user = ''u'', w_balance = 10, w_held = 4, w_debt = 0, w_version = 2, w_closed_at = None\<rparr>],
     lots := [sample_lot], holds := [sample_hold],
     ledger := [sample_entry, sample_entry\<lparr>le_delta := 0, le_held_delta := 4, le_reason := RHold, le_lot := None,
       le_hold := Some ''h'', le_held_after := 4, le_key := ''hold:h''\<rparr>]\<rparr>"

lemmas sample_defs = sample_db_def empty_db_def sample_lot_def sample_hold_def sample_entry_def

lemma sample_ok: "all_ok sample_db"
  by (simp add: all_ok_def db_ok_def sample_defs lots_wf_def holds_wf_def allocs_wf_def allocs_owned_def owned_def
      has_wallet_def wallet_ok_def wallet_mismatched_def sums_defs figure_ok_def in_i64_def lot_ok_def hold_ok_def)

text \<open>The state an operation finds: the wallet locked and everything due applied.\<close>

definition start_tx :: "instant \<Rightarrow> (nat \<Rightarrow> uuid) \<Rightarrow> uuid \<Rightarrow> billing_db \<Rightarrow> go_error + tx" where
  "start_tx now uuids u db = (case lock_wallet u db of
     None \<Rightarrow> Inl no_rows | Some w \<Rightarrow> apply_due (open_tx now uuids w u db))"

text \<open>The transaction that opens on it at one microsecond; nothing is due.\<close>

abbreviation sample_uuids :: "nat \<Rightarrow> uuid" where
  "sample_uuids \<equiv> \<lambda>n. ''q''"

definition sample_tx :: tx where
  "sample_tx = open_tx 1000 sample_uuids (hd (wallets sample_db)) ''u'' sample_db"

lemma sample_due: "apply_due sample_tx = Inr sample_tx"
  by (simp add: sample_tx_def apply_due_def lock_due_lots_def open_tx_def lot_due_def sample_defs)

lemma sample_row: "lock_wallet ''u'' sample_db = Some (hd (wallets sample_db))"
  by (simp add: lock_wallet_def sample_defs)

lemma sample_hold_locked: "lock_hold ''h'' sample_tx = Inr sample_hold"
  by (simp add: lock_hold_def query_lock_hold_def sample_tx_def open_tx_def sample_defs)

text \<open>A database a history reaches: the empty ledger after a grant of ten credits to the user.\<close>

definition sample_grant :: grant_input where
  "sample_grant = \<lparr>gi_kind = KindPurchase, gi_amount = 10, gi_expires_at = None, gi_decay = None,
     gi_source_ref = '''', gi_reason = None, gi_key = ''g1'', gi_ref_type = ''grant'', gi_ref_id = '''',
     gi_operator = '''', gi_note = ''''\<rparr>"

definition sample_reached :: billing_db where
  "sample_reached = snd (ledger_do_uuid False False 1000 sample_uuids (run_script (\<lambda>s. Some s) [OpGrant sample_grant]) ''u'' empty_db)"

lemma sample_reachable: "reachable (\<lambda>s. Some s) sample_reached"
  unfolding sample_reached_def
  by (rule reachable.transaction [OF reachable.initial]) (simp add: sample_grant_def in_i64_def)

lemma sample_start: "start_tx 1000 sample_uuids ''u'' sample_db = Inr sample_tx"
  by (simp add: start_tx_def sample_row sample_due sample_tx_def [symmetric])

lemma right_pair: "\<not> isl r \<Longrightarrow> r = Inr (fst (projr r), snd (projr r))"
  by (cases r) auto

lemma right_value: "\<not> isl r \<Longrightarrow> r = Inr (projr r)"
  by (cases r) auto


lemma sample_tx_balance: "tx_balance sample_tx = 10" "tx_debt sample_tx = 0" "tx_user sample_tx = ''u''"
  by (simp_all add: sample_tx_def open_tx_def sample_defs)

definition sample_reserve :: reserve_input where
  "sample_reserve = \<lparr>ri_kind = HoldCredits, ri_amount = 3, ri_price_version = 1, ri_ttl = 60000000000,
     ri_key = ''k2'', ri_period_start = 0, ri_quota_included = 0\<rparr>"

text \<open>A lot of 100 that loses 10 percent a day, seen half a day after its third period.\<close>

definition sample_fading :: lot where
  "sample_fading = sample_lot\<lparr>lot_kind := KindWelcome, lot_initial := 100, lot_remaining := 100,
     lot_decay_percent := Some 10, lot_decay_every := Some (every_interval 86400000000000),
     lot_next_decay_at := Some 86400000000000\<rparr>"

definition sample_fading_tx :: tx where
  "sample_fading_tx = open_tx 302400000000000 sample_uuids
     \<lparr>w_user = ''u'', w_balance = 100, w_held = 0, w_debt = 0, w_version = 1, w_closed_at = None\<rparr> ''u''
     (empty_db\<lparr>lots := [sample_fading]\<rparr>)"

text \<open>The database after the hold has been captured, and the transaction that finds it so.\<close>

definition sample_captured :: billing_db where
  "sample_captured = snd (ledger_do_uuid False False 1000 sample_uuids (run_script Some [OpCapture ''h'' ''m'']) ''u'' sample_db)"

lemma sample_captured_ok: "all_ok sample_captured"
  using script_op.committed [of "(Some, [OpCapture ''h'' ''m''])", OF _ sample_ok, of False False 1000 sample_uuids "''u''"]
  by (simp add: sample_captured_def)

definition sample_captured_tx :: tx where
  "sample_captured_tx = projr (start_tx 2000 sample_uuids ''u'' sample_captured)"

lemma sample_captured_start: "start_tx 2000 sample_uuids ''u'' sample_captured = Inr sample_captured_tx"
proof -
  have "\<not> isl (start_tx 2000 sample_uuids ''u'' sample_captured)" by code_simp
  then show ?thesis by (simp add: right_value sample_captured_tx_def)
qed

end
