(* ===== verification/Wallet_Facts.thy ===== *)
theory Wallet_Facts
  imports Samples
begin

text \<open>
  What the ledger promises its callers: every reachable database reconciles, users are
  isolated from each other, a capture is paid or owed in full, a removal takes exactly what it
  was asked for, reservations and captures can be retried, and what is left in a lot follows
  its decay schedule.
\<close>

section \<open>After the due work\<close>

text \<open>\<open>t'\<close> differs from \<open>t\<close> in the lots table at most in what lot \<open>i\<close> holds and in its decay columns.\<close>

definition touches :: "uuid \<Rightarrow> tx \<Rightarrow> tx \<Rightarrow> bool" where
  "touches i t t' \<longleftrightarrow> (\<exists>f. lots (tx_db t') = update_where (\<lambda>x. lot_id x = i) f (lots (tx_db t)) \<and>
     (\<forall>x. lot_id (f x) = lot_id x \<and> lot_user (f x) = lot_user x \<and> lot_expires_at (f x) = lot_expires_at x))"

lemma touches_refl: "lots (tx_db t') = lots (tx_db t) \<Longrightarrow> touches i t t'"
  unfolding touches_def by (rule exI [of _ "\<lambda>x. x"]) (simp add: update_where_def)

lemma touches_update:
  assumes "update_lot i f (tx_db t1) = Inr db" "lots (tx_db t1) = lots (tx_db t)"
    and "\<And>x. lot_id (f x) = lot_id x \<and> lot_user (f x) = lot_user x \<and> lot_expires_at (f x) = lot_expires_at x"
  shows "touches i t (t1\<lparr>tx_db := db\<rparr>)"
  unfolding touches_def by (rule exI [of _ f]) (use assms in \<open>auto simp: update_lot_Inr\<close>)

lemma touches_trans:
  assumes "touches i t t1" "touches i t1 t2"
  shows "touches i t t2"
proof -
  from assms obtain f g where
    f: "lots (tx_db t1) = update_where (\<lambda>x. lot_id x = i) f (lots (tx_db t))"
      "\<And>x. lot_id (f x) = lot_id x \<and> lot_user (f x) = lot_user x \<and> lot_expires_at (f x) = lot_expires_at x" and
    g: "lots (tx_db t2) = update_where (\<lambda>x. lot_id x = i) g (lots (tx_db t1))"
      "\<And>x. lot_id (g x) = lot_id x \<and> lot_user (g x) = lot_user x \<and> lot_expires_at (g x) = lot_expires_at x"
    unfolding touches_def by blast
  have "lots (tx_db t2) = update_where (\<lambda>x. lot_id x = i) (g \<circ> f) (lots (tx_db t))"
    using f g by (simp add: update_where_def)
  with f g show ?thesis unfolding touches_def by (intro exI [of _ "g \<circ> f"]) simp
qed

lemma touches_back:
  assumes "touches i t t'" "x \<in> set (lots (tx_db t'))"
  shows "\<exists>y \<in> set (lots (tx_db t)). lot_id y = lot_id x \<and> lot_user y = lot_user x \<and>
    lot_expires_at y = lot_expires_at x \<and> (lot_id x \<noteq> i \<longrightarrow> y = x)"
  using assms unfolding touches_def by (fastforce simp: set_update_where)

lemma decay_steps_lots:
  "decay_steps l p js r t = Inr (r', t') \<Longrightarrow> lots (tx_db t') = lots (tx_db t)"
proof (induction js arbitrary: r t)
  case Nil
  then show ?case by simp
next
  case (Cons j js)
  then show ?case by (fastforce simp: Let_def write_entry_Inr split: if_splits)
qed

lemma decay_lot_touches: "decay_lot l t = Inr (r, t') \<Longrightarrow> touches (lot_id l) t t'"
  by (auto simp: decay_lot_def Let_def set_lot_decay_def touches_refl
      intro!: touches_update dest: decay_steps_lots split: if_splits)

lemma expire_lot_touches: "expire_lot l r t = Inr t' \<Longrightarrow> touches (lot_id l) t t'"
  by (auto simp: expire_lot_def set_lot_remaining_def touches_refl
      intro!: touches_update dest: write_entry_frame(1) split: if_splits)

lemma expire_lot_empties:
  assumes "expire_lot l r t = Inr t'" "expiry_due (tx_now t) l" "0 < r"
    and "x \<in> set (lots (tx_db t'))" "lot_id x = lot_id l"
  shows "lot_remaining x = 0"
  using assms by (auto simp: expire_lot_def set_lot_remaining_def update_lot_Inr set_update_where)

text \<open>One due lot is dealt with: it is empty, or it can be spent.\<close>

definition pending :: "lot list \<Rightarrow> tx \<Rightarrow> bool" where
  "pending ls t \<longleftrightarrow> (\<forall>x \<in> set (lots (tx_db t)). lot_user x = tx_user t \<longrightarrow> 0 < lot_remaining x \<longrightarrow>
     lot_spendable (ts (tx_now t)) x \<or> lot_id x \<in> lot_id ` set ls)"

lemma pending_step:
  assumes B: "books s 0 h t" and bo: "batch_ok (l # ls) t" and P: "pending (l # ls) t"
    and D: "decay_lot l t = Inr (r, t1)" and E: "expire_lot l r t1 = Inr t2"
  shows "books s 0 h t2 \<and> batch_ok ls t2 \<and> pending ls t2 \<and> tx_user t2 = tx_user t \<and> tx_now t2 = tx_now t"
proof -
  have l: "l \<in> set (lots (tx_db t))" "lot_user l = tx_user t" and nin: "lot_id l \<notin> lot_id ` set ls"
    using bo by (auto simp: batch_ok_def)
  from decay_lot_books [OF B l bo D]
  obtain l' where d: "books s 0 h t1" "batch_ok ls t1" "0 \<le> r" "r \<le> lot_remaining l" "tx_user t1 = tx_user t"
    "tx_now t1 = tx_now t"
    "l' \<in> set (lots (tx_db t1))" "lot_id l' = lot_id l" "lot_user l' = tx_user t" "lot_remaining l' = r" by blast
  have "in_i64 r" using books_lot(5) [OF B l(1)] d(3,4) by (rule in_i64_le)
  with d nin expire_lot_books [OF d(1,2,3) _ d(7,8) _ d(10) nin E]
  have e: "books s 0 h t2" "batch_ok ls t2" "tx_user t2 = tx_user t" "tx_now t2 = tx_now t" by auto
  have T: "touches (lot_id l) t t2" "touches (lot_id l) t1 t2"
    using touches_trans [OF decay_lot_touches [OF D] expire_lot_touches [OF E]] expire_lot_touches [OF E] by auto
  have "pending ls t2" unfolding pending_def
  proof (intro ballI impI)
    fix x assume x: "x \<in> set (lots (tx_db t2))" "lot_user x = tx_user t2" "0 < lot_remaining x"
    from touches_back [OF T(1) x(1)] obtain y where y: "y \<in> set (lots (tx_db t))" "lot_id y = lot_id x"
      "lot_user y = lot_user x" "lot_expires_at y = lot_expires_at x" "lot_id x \<noteq> lot_id l \<longrightarrow> y = x" by blast
    show "lot_spendable (ts (tx_now t2)) x \<or> lot_id x \<in> lot_id ` set ls"
    proof (cases "lot_id x = lot_id l")
      case False
      with P y x e show ?thesis by (auto simp: pending_def)
    next
      case True
      have "distinct (map lot_id (lots (tx_db t)))" using books_lots_wf [OF B] by (simp add: lots_wf_def)
      from distinct_key_unique [OF this y(1) l(1)] y True have yl: "y = l" by simp
      from touches_back [OF T(2) x(1)] obtain z where z: "z \<in> set (lots (tx_db t1))" "lot_id z = lot_id x" by blast
      have "distinct (map lot_id (lots (tx_db t1)))" using books_lots_wf [OF d(1)] by (simp add: lots_wf_def)
      from distinct_key_unique [OF this z(1) d(7)] z True d have zr: "z = l'" by simp
      have "\<not> (expiry_due (tx_now t) l \<and> 0 < r)"
        using expire_lot_empties [OF E _ _ x(1) True] x(3) d(6) by auto
      moreover have "0 < r"
      proof (rule ccontr)
        assume "\<not> 0 < r"
        with E d(6) have "t2 = t1" by (simp add: expire_lot_def)
        with x(1) z zr True distinct_key_unique [OF \<open>distinct (map lot_id (lots (tx_db t1)))\<close> _ d(7), of x] d
        have "x = l'" by auto
        with x(3) d(10) \<open>\<not> 0 < r\<close> show False by simp
      qed
      ultimately have "\<not> expiry_due (tx_now t) l" by simp
      then have "lot_spendable (ts (tx_now t)) x"
        using y(4) yl x(3) order.strict_trans1 [OF ts_le, of "tx_now t"]
        by (auto simp: expiry_due_def lot_spendable_def time_after_def split: option.splits)
      with e show ?thesis by simp
    qed
  qed
  with e show ?thesis by simp
qed

lemma apply_due_lots_fresh:
  assumes "books s 0 h t" "batch_ok ls t" "pending ls t" "apply_due_lots ls t = Inr t'"
  shows "fresh t' \<and> tx_user t' = tx_user t \<and> tx_now t' = tx_now t"
  using assms
proof (induction ls arbitrary: t)
  case Nil
  then show ?case by (auto simp: fresh_def pending_def)
next
  case (Cons l ls)
  then obtain r t1 t2 where D: "decay_lot l t = Inr (r, t1)" and E: "expire_lot l r t1 = Inr t2"
    and R: "apply_due_lots ls t2 = Inr t'" by auto
  from pending_step [OF Cons.prems(1-3) D E] Cons.IH [OF _ _ _ R] show ?case by auto
qed

lemma apply_due_fresh:
  assumes B: "books s 0 h t" and A: "apply_due t = Inr t'"
  shows "fresh t'" "tx_user t' = tx_user t" "tx_now t' = tx_now t"
proof -
  let ?ls = "lock_due_lots (tx_user t) (ts (tx_now t)) (tx_db t)"
  have "batch_ok ?ls t"
    by (rule batch_ok_filter [OF B, of _ "lot_due (ts (tx_now t))"]) (simp add: lock_due_lots_def)
  moreover have "lot_spendable (ts (tx_now t)) x \<or> lot_id x \<in> lot_id ` set ?ls"
    if "x \<in> set (lots (tx_db t))" "lot_user x = tx_user t" "0 < lot_remaining x" for x
  proof (cases "lot_due (ts (tx_now t)) x")
    case True
    with that show ?thesis by (simp add: lock_due_lots_def)
  next
    case False
    with that show ?thesis by (auto simp: lot_due_def lot_spendable_def split: option.splits)
  qed
  then have "pending ?ls t" by (simp add: pending_def)
  ultimately have "fresh t' \<and> tx_user t' = tx_user t \<and> tx_now t' = tx_now t"
    by (rule apply_due_lots_fresh [OF B _ _ A [unfolded apply_due_def]])
  then show "fresh t'" "tx_user t' = tx_user t" "tx_now t' = tx_now t" by auto
qed

section \<open>The books\<close>

text \<open>
  C1. Whatever sequence of transactions, closings and changes elsewhere the database has been
  through, the reconciliation query finds no wallet whose stored balance, held amount or debt
  disagrees with its lots, its open holds or its replayed ledger.
\<close>

theorem wallets_always_reconcile:
  assumes "reachable parse db"
  shows "reconcile_wallets db = []"
  by (rule all_ok_reconciles [OF reachable_ok [OF assms]])

lemma wallets_always_reconcile_witness:
  "reconcile_wallets sample_reached = [] \<and> map w_balance (wallets sample_reached) = [10]"
  using wallets_always_reconcile [OF sample_reachable] by (auto intro: TrueI) code_simp

text \<open>
  A transaction on one user's wallet, whatever it does and whether it commits or fails,
  leaves every lot, hold, ledger entry and wallet row of every other user exactly as it was.
\<close>

lemma transaction_isolated:
  assumes "reachable parse db" "list_all legal_op ps"
  shows "let db' = snd (ledger_do_uuid skip busy now uuids (run_script parse ps) u db) in
    foreign u db' = foreign u db \<and> foreign_wallets u db' = foreign_wallets u db"
  using script_op.committed [of "(parse, ps)" db skip busy now uuids u] reachable_ok [OF assms(1)] assms(2)
  by (simp add: Let_def)

section \<open>Inside a transaction\<close>

lemma start_tx_books:
  assumes "all_ok db" "start_tx now uuids u db = Inr t"
  shows "\<exists>s. books s 0 0 t \<and> fresh t \<and> tx_user t = u"
proof -
  from assms(2) obtain w where w: "lock_wallet u db = Some w" and A: "apply_due (open_tx now uuids w u db) = Inr t"
    by (auto simp: start_tx_def split: option.splits)
  from w have w': "w \<in> set (wallets db)" "w_user w = u" by (auto simp: lock_wallet_def dest!: find_SomeD)
  note B = open_tx_books [OF assms(1) w', of now uuids]
  from apply_due_books [OF B A] apply_due_fresh [OF B A] show ?thesis by (auto simp: open_tx_def)
qed

text \<open>
  C24. Capturing a credit hold charges exactly its amount: what came out of lots and what
  was recorded as debt add up to it, the balance falls by the one and the debt rises by the
  other, and debt is recorded only when the wallet's balance has been used up to nothing.
\<close>

theorem capture_charges_exactly:
  assumes "all_ok db" "start_tx now uuids u db = Inr t"
    and "lock_hold hid t = Inr x" "hold_kind x = HoldCredits"
    and "capture parse hid m t = Inr (res, t')" "\<not> cr_already_captured res"
  shows "cr_spent res + cr_debt res = hold_amount x \<and> 0 \<le> cr_spent res \<and> 0 \<le> cr_debt res \<and>
    tx_balance t' = tx_balance t - cr_spent res \<and> tx_debt t' = tx_debt t + cr_debt res \<and>
    (0 < cr_debt res \<longrightarrow> tx_balance t' = 0)"
proof -
  from start_tx_books [OF assms(1,2)] obtain s where B: "books s 0 0 t" and F: "fresh t" by blast
  note x = lock_hold_Inr [OF assms(3)]
  from assms(3-6) obtain r t1 where C: "capture_credits x m t = Inr (r, t1)"
    and res: "res = \<lparr>cr_already_captured = False, cr_spent = hold_amount x - r, cr_debt = (if r > 0 then r else 0)\<rparr>"
    and t': "t' = t1\<lparr>tx_db := mark_hold_captured (hold_id x) (ts (tx_now t1)) (parse m) (tx_db t1)\<rparr>"
    by (auto simp: capture_def split: if_splits)
  from x have xx: "x \<in> set (holds (tx_db t))" "hold_user x = tx_user t" by auto
  note K = capture_credits_books [OF B xx assms(4) C]
  then have B1: "books s 0 (0 + held_part x) t1" and F1: "fresh t1" using F by auto
  have "0 < r \<Longrightarrow> tx_balance t1 = 0"
    using fresh_nothing_left [OF B1 F1] K by simp
  with K show ?thesis by (auto simp: res t')
qed

lemma capture_charges_exactly_witness:
  "let r = projr (capture Some ''h'' ''m'' sample_tx) in
     cr_spent (fst r) + cr_debt (fst r) = 4 \<and> tx_balance (snd r) = 10 - cr_spent (fst r)"
proof -
  have "\<not> isl (capture Some ''h'' ''m'' sample_tx)" by code_simp
  note e = right_pair [OF this]
  have "\<not> cr_already_captured (fst (projr (capture Some ''h'' ''m'' sample_tx)))" by code_simp
  moreover have "hold_kind sample_hold = HoldCredits" by (simp add: sample_hold_def)
  ultimately show ?thesis
    using capture_charges_exactly [OF sample_ok sample_start sample_hold_locked _ e] sample_tx_balance
    by (simp add: Let_def sample_hold_def)
qed

text \<open>
  An operator's removal takes exactly the amount asked for out of the balance, never
  creates debt and never touches reserved credits: it is refused when it exceeds what is
  available.
\<close>

lemma remove_takes_exactly:
  assumes "all_ok db" "start_tx now uuids u db = Inr t" "in_i64 amount"
    and "remove amount key oper nte t = Inr t'"
  shows "tx_balance t' = tx_balance t - amount \<and> tx_debt t' = tx_debt t \<and> tx_held t' = tx_held t \<and>
    0 < amount \<and> tx_held t' \<le> tx_balance t'"
proof -
  from start_tx_books [OF assms(1,2)] obtain s where B: "books s 0 0 t" and F: "fresh t" by blast
  from remove_books [OF B assms(3,4)] F obtain r where R: "books s 0 0 t'" "0 < amount" "amount \<le> available t"
    "0 \<le> r" "r \<le> amount" "spent (TakeRemove key oper nte) (amount - r) t t'" "fresh t'"
    "0 < r \<longrightarrow> lock_spendable_lots (tx_user t) (ts (tx_now t)) spend_batch (tx_db t') = []" by blast
  have h: "0 \<le> tx_held t" using books_figures [OF B] by (simp add: figure_ok_def)
  have "r = 0"
  proof (rule ccontr)
    assume "r \<noteq> 0"
    then have "tx_balance t' = 0" using R fresh_nothing_left [OF R(1,7)] by (simp add: spent_def)
    with R \<open>r \<noteq> 0\<close> h show False by (auto simp: spent_def available_def)
  qed
  with R h show ?thesis by (auto simp: spent_def debt_part_def available_def)
qed

section \<open>Retries\<close>

text \<open>
  A reservation that succeeded can be repeated: the same request under the same key
  returns the same hold and changes nothing.
\<close>

lemma reserve_retry:
  assumes R: "reserve i t = Inr (v, t')" and pv: "in_i32 (ri_price_version i)"
  shows "reserve i t' = Inr (v, t')"
proof -
  have new: "reserve i t2 = Inr (v, t2)" if N: "reserve_new i t1 = Inr (v, t2)" for t1 t2
  proof -
    from N obtain amount period t3 u t4 db where
      K: "reserve_kind i t1 = Inr (amount, period, t3)" and d: "draw_uuid t3 = (u, t4)" and
      I: "insert_hold (new_hold i u amount period t4) (tx_db t4) = Inr db" and
      v: "v = hold_from_row (new_hold i u amount period t4)" and
      W: "write_entry ((no_entry RHold (''hold:'' @ u))\<lparr>
          en_held_delta := (if ri_kind i = HoldCredits then ri_amount i else 0),
          en_hold := Some u, en_ref_type := hold_kind_text (ri_kind i)\<rparr>) (t4\<lparr>tx_db := db\<rparr>) = Inr t2"
      by (auto simp: reserve_new_def Let_def draw_uuid_def simp del: append.simps split: if_splits)
    let ?x = "new_hold i u amount period t4"
    have h2: "holds (tx_db t2) = holds (tx_db t4) @ [?x]" "tx_user t2 = tx_user t4"
      using I write_entry_frame [OF W] by (auto simp: insert_hold_def split: if_splits)
    have "\<not> (hold_user y = tx_user t4 \<and> hold_key y = ri_key i)" if "y \<in> set (holds (tx_db t4))" for y
      using I that by (auto simp: insert_hold_def new_hold_def list_ex_iff split: if_splits)
    then have "find (\<lambda>h. hold_user h = tx_user t4 \<and> hold_key h = ri_key i) (holds (tx_db t4)) = None"
      by (simp add: find_None_iff)
    then have "get_hold_by_key (tx_user t2) (ri_key i) (tx_db t2) = Some ?x"
      using h2 by (simp add: get_hold_by_key_def find_append new_hold_def)
    moreover have "amount = (if ri_kind i = HoldPlanQuota then 1 else ri_amount i)"
      using K by (auto simp: reserve_kind_def split: hold_kind.splits if_splits)
    then have "reuse_hold ?x i t2 = Inr (Some v, t2)"
      using pv v by (simp add: reuse_hold_def new_hold_def)
    ultimately show ?thesis by (simp add: reserve_def)
  qed
  show ?thesis
  proof (cases "get_hold_by_key (tx_user t) (ri_key i) (tx_db t)")
    case None
    with R new show ?thesis by (simp add: reserve_def)
  next
    case (Some x)
    with R obtain w t1 where w: "reuse_hold x i t = Inr (w, t1)"
      and r: "(case w of Some v \<Rightarrow> Inr (v, t1) | None \<Rightarrow> reserve_new i t1) = Inr (v, t')"
      by (auto simp: reserve_def)
    show ?thesis
    proof (cases w)
      case None
      with r new show ?thesis by simp
    next
      case (Some y)
      with w r have "t1 = t" "y = v" "t' = t1" by (auto simp: reuse_hold_def Let_def split: if_splits)
      with R show ?thesis by simp
    qed
  qed
qed

text \<open>
  A wallet that is closed or owes anything gets no new reservation: unless the key already
  names a live hold of the same request, the request is refused.
\<close>

lemma reserve_blocked:
  assumes "tx_closed t \<or> 0 < tx_debt t"
    and "get_hold_by_key (tx_user t) (ri_key i) (tx_db t) = None"
  shows "reserve i t = Inl (if tx_closed t then err_wallet_closed else err_credits_debt (tx_debt t))"
proof (cases "tx_closed t")
  case True
  with assms(2) show ?thesis by (simp add: reserve_def reserve_new_def)
next
  case False
  with assms have "0 < tx_debt t" by simp
  with False assms(2) show ?thesis by (simp only: reserve_def reserve_new_def option.case if_False if_True)
qed

text \<open>
  A new credit reservation never promises credits twice: it takes its amount out of
  what is available, and what is available afterwards is what is left.
\<close>

lemma reserve_within_available:
  assumes "all_ok db" "start_tx now uuids u db = Inr t" "in_i64 (ri_amount i)"
    and "ri_kind i = HoldCredits" "get_hold_by_key (tx_user t) (ri_key i) (tx_db t) = None"
    and "reserve i t = Inr (v, t')"
  shows "hv_amount v = ri_amount i \<and> 0 < ri_amount i \<and> tx_balance t' = tx_balance t \<and>
    tx_held t' = tx_held t + ri_amount i \<and> available t' = available t - ri_amount i"
proof -
  from start_tx_books [OF assms(1,2)] obtain s where B: "books s 0 0 t" by blast
  from assms(5,6) have N: "reserve_new i t = Inr (v, t')" by (simp add: reserve_def)
  have "hv_amount v = ri_amount i"
    using N assms(4) by (auto simp: reserve_new_def Let_def draw_uuid_def reserve_kind_def new_hold_def
      hold_from_row_def split: if_splits)
  with reserve_new_books [OF B assms(3) N] assms(4) show ?thesis by (auto simp: available_def)
qed

lemma spend_lots_frame:
  "spend_lots k p need ls t = Inr (p', r, t') \<Longrightarrow>
    holds (tx_db t') = holds (tx_db t) \<and> tx_user t' = tx_user t"
proof (induction k p need ls t rule: spend_lots.induct)
  case (1 k p need t)
  then show ?case by simp
next
  case (2 k p need l ls t)
  let ?n = "min (lot_remaining l) need"
  from "2.prems" obtain db t1 where
    upd: "set_lot_remaining (lot_id l) (lot_remaining l - ?n) (tx_db t) = Inr db" and
    tp: "take_piece k p (lot_id l) ?n (t\<lparr>tx_db := db\<rparr>) = Inr t1" and
    rest: "(if need - ?n = 0 then Inr (Suc p, need - ?n, t1) else spend_lots k (Suc p) (need - ?n) ls t1)
      = Inr (p', r, t')"
    by (auto simp: Let_def)
  have "holds (tx_db t1) = holds (tx_db t)" "tx_user t1 = tx_user t"
    using take_piece_frame [OF tp] upd by (auto simp: set_lot_remaining_def update_lot_Inr)
  then show ?case
    using rest "2.IH" [of _ "t\<lparr>tx_db := db\<rparr>" t1] upd tp by (auto split: if_splits)
qed

lemma spend_from_frame:
  "spend_from k p need t = Inr (r, t') \<Longrightarrow> holds (tx_db t') = holds (tx_db t) \<and> tx_user t' = tx_user t"
proof (induction k p need t rule: spend_from.induct)
  case (1 k p need t)
  let ?ls = "lock_spendable_lots (tx_user t) (ts (tx_now t)) spend_batch (tx_db t)"
  show ?case
  proof (cases "0 < need \<and> ?ls \<noteq> []")
    case False
    with "1.prems" show ?thesis by (auto simp: spend_from.simps [of k p need t] Let_def split: if_splits)
  next
    case True
    with "1.prems" obtain p' n' t1 where
      sl: "spend_lots k p need ?ls t = Inr (p', n', t1)" and rest: "spend_from k p' n' t1 = Inr (r, t')"
      by (auto simp: spend_from.simps [of k p need t] Let_def)
    from True have a: "0 < need" and b: "?ls \<noteq> []" by auto
    from "1.IH" [OF a refl b sl refl refl rest] spend_lots_frame [OF sl] show ?thesis by simp
  qed
qed

lemma adjust_quota_frame:
  "adjust_quota p f t = Inr t' \<Longrightarrow> holds (tx_db t') = holds (tx_db t) \<and> tx_user t' = tx_user t"
  by (auto simp: adjust_quota_def Let_def set_plan_usage_def ensure_plan_usage_def split: option.splits if_splits)

lemma write_entry_same:
  "write_entry e t = Inr t' \<Longrightarrow> holds (tx_db t') = holds (tx_db t) \<and> tx_user t' = tx_user t"
  using write_entry_frame(2,4) by blast

lemma capture_credits_frame:
  assumes "capture_credits x m t = Inr (r, t')"
  shows "holds (tx_db t') = holds (tx_db t) \<and> tx_user t' = tx_user t"
  using assms unfolding capture_credits_def
  by (auto dest!: spend_from_frame write_entry_same split: if_splits)

lemma capture_frame:
  assumes "capture parse hid m t = Inr (res, t')" "lock_hold hid t = Inr x"
    and "\<not> (hold_state x = StateCaptured \<or>
      hold_state x = StateReleased \<and> text_or_empty (hold_release_reason x) = release_settled)"
  obtains t1 where "holds (tx_db t1) = holds (tx_db t) \<and> tx_user t1 = tx_user t"
    and "t' = t1\<lparr>tx_db := mark_hold_captured (hold_id x) (ts (tx_now t1)) (parse m) (tx_db t1)\<rparr>"
proof (cases "hold_kind x")
  case HoldCredits
  with assms that show ?thesis
    by (auto simp: capture_def dest!: capture_credits_frame simp del: de_Morgan_conj)
next
  case HoldPlanQuota
  with assms obtain t1 t2 where q: "adjust_quota (period_of x) (capture_quota (hold_state x = StateHeld)) t = Inr t1"
    "write_entry (capture_entry x m []) t1 = Inr t2"
    "t' = t2\<lparr>tx_db := mark_hold_captured (hold_id x) (ts (tx_now t2)) (parse m) (tx_db t2)\<rparr>"
    by (auto simp: capture_def simp del: de_Morgan_conj)
  with that [of t2] adjust_quota_frame [OF q(1)] write_entry_frame(2,4) [OF q(2)] show ?thesis by simp
next
  case (HoldOther k)
  with assms that [of t] show ?thesis by (auto simp: capture_def simp del: de_Morgan_conj)
qed

text \<open>
  Capturing a hold that was just captured does nothing: the second capture answers
  "already captured" and leaves the transaction as it is.
\<close>

lemma capture_retry:
  assumes C: "capture parse hid m t = Inr (res, t')"
  shows "capture parse hid m t' = Inr (\<lparr>cr_already_captured = True, cr_spent = 0, cr_debt = 0\<rparr>, t')"
proof -
  from C obtain x where L: "lock_hold hid t = Inr x" by (auto simp: capture_def)
  show ?thesis
  proof (cases "hold_state x = StateCaptured \<or>
      hold_state x = StateReleased \<and> text_or_empty (hold_release_reason x) = release_settled")
    case True
    with C L show ?thesis by (auto simp: capture_def)
  next
    case False
    from C L False obtain t1 where holds1: "holds (tx_db t1) = holds (tx_db t) \<and> tx_user t1 = tx_user t"
      and t': "t' = t1\<lparr>tx_db := mark_hold_captured (hold_id x) (ts (tx_now t1)) (parse m) (tx_db t1)\<rparr>"
      by (rule capture_frame)
    let ?f = "\<lambda>h. h\<lparr>hold_state := StateCaptured, hold_captured_at := Some (ts (tx_now t1)), hold_meetup := parse m\<rparr>"
    have xid: "hold_id x = hid" using lock_hold_Inr [OF L] by simp
    have fnd: "find (\<lambda>h. hold_id h = hid \<and> hold_user h = tx_user t) (update_where (\<lambda>h. hold_id h = hid) ?f rows) =
      map_option ?f (find (\<lambda>h. hold_id h = hid \<and> hold_user h = tx_user t) rows)" for rows
      by (induction rows) auto
    have "query_lock_hold hid (tx_user t') (tx_db t') = Some (?f x)"
      using L holds1 fnd [of "holds (tx_db t)"] xid
      by (simp add: t' mark_hold_captured_def query_lock_hold_def lock_hold_def split: option.splits)
    then have "lock_hold hid t' = Inr (?f x)" by (simp add: lock_hold_def)
    then show ?thesis by (simp add: capture_def)
  qed
qed

section \<open>Decay\<close>

text \<open>Within range the schedule is the documented formula.\<close>

lemma allowed_after_exact:
  assumes "0 < initial" "in_i64 initial" "0 \<le> percent" "0 \<le> k" "in_i64 (initial * percent * k)"
  shows "allowed_after initial percent k = max 0 (initial - initial * percent * k div 100)"
proof (cases "k = 0")
  case True
  with assms show ?thesis by (simp add: allowed_after_def)
next
  case False
  have ip: "0 \<le> initial * percent" using assms by simp
  with False assms(4) have "initial * percent * 1 \<le> initial * percent * k" by (intro mult_left_mono) auto
  with ip assms(5) have r: "in_i64 (initial * percent)" by (auto simp: in_i64_def)
  have "0 \<le> initial * percent * k" using ip assms(4) by simp
  then have z: "0 \<le> initial * percent * k div 100" by simp
  have "in_i64 (initial - c)" if "0 \<le> c" "c < initial" for c
    using that assms(2) by (auto simp: in_i64_def)
  then show ?thesis using assms False r z by (auto simp: allowed_after_def Let_def)
qed

lemma max_periods_exact:
  assumes "1 \<le> percent" "percent \<le> 100"
  shows "max_periods percent = (99 + percent) div percent" and "100 \<le> percent * max_periods percent"
    and "1 \<le> max_periods percent"
proof -
  have "in_i64 (100 + percent)" "in_i64 (99 + percent)" using assms by (auto simp: in_i64_def)
  then show e: "max_periods percent = (99 + percent) div percent"
    using assms by (simp add: max_periods_def)
  have "99 + percent = percent * ((99 + percent) div percent) + (99 + percent) mod percent"
    by (rule mult_div_mod_eq [symmetric])
  moreover have "(99 + percent) mod percent < percent" using assms by simp
  ultimately show "100 \<le> percent * max_periods percent" unfolding e by linarith
  show "1 \<le> max_periods percent" unfolding e using assms by (simp add: int_one_le_iff_zero_less pos_imp_zdiv_pos_iff)
qed

text \<open>
  A decaying lot only ever shrinks, from its initial size down to exactly nothing at its
  last period: for a lot small enough that the multiplication does not wrap, what may
  remain after period k is between 0 and the initial size, falls with k, and is 0 at
  \<open>MaxPeriods\<close>.
\<close>

lemma decay_schedule_sound:
  assumes "0 < initial" "1 \<le> percent" "percent \<le> 100"
    and "in_i64 (initial * percent * max_periods percent)"
    and "0 \<le> j" "j \<le> k" "k \<le> max_periods percent"
  shows "0 \<le> allowed_after initial percent k \<and>
    allowed_after initial percent k \<le> allowed_after initial percent j \<and>
    allowed_after initial percent j \<le> initial \<and>
    allowed_after initial percent (max_periods percent) = 0"
proof -
  note m = max_periods_exact [OF assms(2,3)]
  have ip: "initial \<le> initial * percent" "0 \<le> initial * percent" using assms by auto
  have mono: "initial * percent * a \<le> initial * percent * b" if "a \<le> b" for a b
    using ip that by (intro mult_left_mono) auto
  have r: "in_i64 (initial * percent * i)" if "0 \<le> i" "i \<le> max_periods percent" for i
    using mono [OF that(2)] ip that assms(4) by (auto simp: in_i64_def intro: order.trans [of _ 0])
  have "initial * percent * 1 \<le> initial * percent * max_periods percent" by (rule mono [OF m(3)])
  with ip(1) have "initial \<le> initial * percent * max_periods percent" by linarith
  then have ri: "in_i64 initial" using assms(1,4) unfolding in_i64_def by linarith
  have e: "allowed_after initial percent i = max 0 (initial - initial * percent * i div 100)"
    if "0 \<le> i" "i \<le> max_periods percent" for i
    using allowed_after_exact [OF assms(1) ri _ that(1) r [OF that]] assms(2) by simp
  have "initial * 100 \<le> initial * (percent * max_periods percent)"
    using m(2) assms(1) by (intro mult_left_mono) auto
  then have "initial * 100 div 100 \<le> initial * percent * max_periods percent div 100"
    by (intro zdiv_mono1) (auto simp: mult.assoc)
  then have "initial \<le> initial * percent * max_periods percent div 100" by simp
  moreover have "initial * percent * j div 100 \<le> initial * percent * k div 100"
    using mono [OF assms(6)] by (intro zdiv_mono1) auto
  moreover have "0 \<le> initial * percent * j" using ip(2) assms(5) by (rule mult_nonneg_nonneg)
  then have "0 \<le> initial * percent * j div 100" by (simp add: pos_imp_zdiv_nonneg_iff)
  ultimately show ?thesis using e [of j] e [of k] e [of "max_periods percent"] assms m(3)
    by (auto simp: max_def)
qed

lemma decay_steps_caps:
  "decay_steps l p js r t = Inr (r', t') \<Longrightarrow> j \<in> set js \<Longrightarrow> r' \<le> allowed_after (lot_initial l) p j"
proof (induction js arbitrary: r t)
  case Nil
  then show ?case by simp
next
  case (Cons i js)
  show ?case
  proof (cases "r \<le> allowed_after (lot_initial l) p i")
    case True
    with Cons.prems have D: "decay_steps l p js r t = Inr (r', t')" by simp
    from decay_steps_le [OF D] Cons.IH [OF D] Cons.prems(2) True show ?thesis by auto
  next
    case False
    with Cons.prems obtain t1 where D: "decay_steps l p js (allowed_after (lot_initial l) p i) t1 = Inr (r', t')"
      by (auto simp: Let_def)
    from decay_steps_le [OF D] Cons.IH [OF D] Cons.prems(2) show ?thesis by auto
  qed
qed

text \<open>
  When a lot's decay is due, every period that has passed since the last one recorded is
  applied: what is left of the lot is at most what each of those periods allows.
\<close>

lemma decay_catches_up:
  assumes "decay_lot l t = Inr (r, t')" "decay_due (tx_now t) l"
    and "lot_periods_applied l < j"
    and "j \<le> periods_due (tx_now t) l (interval_duration (lot_decay_every l)) (the (lot_decay_percent l))"
  shows "r \<le> allowed_after (lot_initial l) (the (lot_decay_percent l)) j"
proof -
  from assms(1,2) obtain t1 where
    "decay_steps l (the (lot_decay_percent l)) [lot_periods_applied l + 1 ..
       periods_due (tx_now t) l (interval_duration (lot_decay_every l)) (the (lot_decay_percent l))]
       (lot_remaining l) t = Inr (r, t1)"
    by (auto simp: decay_lot_def Let_def split: if_splits)
  then show ?thesis by (rule decay_steps_caps) (use assms(3,4) in simp)
qed

section \<open>The order of spending\<close>

text \<open>
  The reference: all spendable lots in spend order at once, each emptied before the next is
  touched, until nothing more is needed.
\<close>

fun draw_all :: "int \<Rightarrow> lot list \<Rightarrow> lot list \<Rightarrow> lot list" where
  "draw_all need [] rows = rows"
| "draw_all need (l # ls) rows =
     (if need \<le> 0 then rows
      else let n = min (lot_remaining l) need in
        draw_all (need - n) ls
          (update_where (\<lambda>x. lot_id x = lot_id l) (\<lambda>x. x\<lparr>lot_remaining := lot_remaining l - n\<rparr>) rows))"

definition spend_list :: "tx \<Rightarrow> lot list" where
  "spend_list t = sort_key spend_key
     (filter (\<lambda>l. lot_user l = tx_user t \<and> lot_spendable (ts (tx_now t)) l) (lots (tx_db t)))"

abbreviation credits :: "lot list \<Rightarrow> int" where
  "credits ls \<equiv> sum_list (map lot_remaining ls)"

lemma draw_all_done [simp]: "need \<le> 0 \<Longrightarrow> draw_all need ls rows = rows"
  by (cases ls) auto

lemma draw_all_append:
  "\<forall>l \<in> set xs. 0 < lot_remaining l \<Longrightarrow>
    draw_all need (xs @ ys) rows = draw_all (max 0 (need - credits xs)) ys (draw_all need xs rows)"
proof (induction xs arbitrary: need rows)
  case Nil
  then show ?case by (cases "need \<le> 0") auto
next
  case (Cons l xs)
  then have pos: "0 \<le> credits xs" by (intro sum_list_nonneg) force
  show ?case
  proof (cases "need \<le> 0")
    case True
    with Cons.prems pos show ?thesis by (auto simp: max_def)
  next
    case False
    have "max 0 (need - min (lot_remaining l) need - credits xs) = max 0 (need - credits (l # xs))"
      using pos by (auto simp: max_def min_def)
    with False Cons show ?thesis by (simp add: Let_def)
  qed
qed

lemma draw_all_emptied:
  "credits ls < need \<Longrightarrow> \<forall>l \<in> set ls. 0 < lot_remaining l \<Longrightarrow>
    draw_all need ls rows = update_where (\<lambda>x. lot_id x \<in> lot_id ` set ls) (\<lambda>x. x\<lparr>lot_remaining := 0\<rparr>) rows"
proof (induction ls arbitrary: need rows)
  case Nil
  then show ?case by (simp add: update_where_def)
next
  case (Cons l ls)
  from Cons.prems have "0 \<le> credits ls" by (intro sum_list_nonneg) force
  with Cons.prems have "\<not> need \<le> 0" "min (lot_remaining l) need = lot_remaining l" "credits ls < need - lot_remaining l"
    by auto
  with Cons show ?case by (simp add: Let_def update_where_def comp_def)
qed

lemma spend_lots_draws:
  assumes "spend_lots k p need ls t = Inr (p', r, t')" "0 < need" "\<forall>l \<in> set ls. 0 < lot_remaining l"
  shows "lots (tx_db t') = draw_all need ls (lots (tx_db t)) \<and> r = max 0 (need - credits ls) \<and>
    tx_user t' = tx_user t \<and> tx_now t' = tx_now t"
  using assms
proof (induction k p need ls t rule: spend_lots.induct)
  case (1 k p need t)
  then show ?case by simp
next
  case (2 k p need l ls t)
  let ?n = "min (lot_remaining l) need"
  from "2.prems"(1) obtain db t1 where
    upd: "set_lot_remaining (lot_id l) (lot_remaining l - ?n) (tx_db t) = Inr db" and
    tp: "take_piece k p (lot_id l) ?n (t\<lparr>tx_db := db\<rparr>) = Inr t1" and
    rest: "(if need - ?n = 0 then Inr (Suc p, need - ?n, t1) else spend_lots k (Suc p) (need - ?n) ls t1)
      = Inr (p', r, t')"
    by (auto simp: Let_def)
  have pos: "0 \<le> credits ls" using "2.prems"(3) by (intro sum_list_nonneg) force
  have t1: "lots (tx_db t1) = update_where (\<lambda>x. lot_id x = lot_id l)
      (\<lambda>x. x\<lparr>lot_remaining := lot_remaining l - ?n\<rparr>) (lots (tx_db t))" "tx_user t1 = tx_user t" "tx_now t1 = tx_now t"
    using take_piece_frame [OF tp] upd by (auto simp: set_lot_remaining_def update_lot_Inr)
  show ?case
  proof (cases "need - ?n = 0")
    case True
    then have "need \<le> lot_remaining l" by (simp add: min_def split: if_splits)
    with rest True t1 pos "2.prems"(2) show ?thesis by (auto simp: Let_def max_def)
  next
    case False
    then have n: "?n = lot_remaining l" "0 < need - ?n" using "2.prems"(2) by (auto simp: min_def split: if_splits)
    have "lots (tx_db t') = draw_all (need - ?n) ls (lots (tx_db t1)) \<and> r = max 0 (need - ?n - credits ls) \<and>
      tx_user t' = tx_user t1 \<and> tx_now t' = tx_now t1"
      using "2.IH" [of _ "t\<lparr>tx_db := db\<rparr>" t1] upd tp False rest n(2) "2.prems"(3) by simp
    with t1 n "2.prems"(2) show ?thesis by (simp add: Let_def algebra_simps)
  qed
qed

lemma filter_taken:
  assumes "distinct (map f xs)"
  shows "filter (\<lambda>x. f x \<notin> f ` set (take n xs)) xs = drop n xs"
proof -
  have "filter (\<lambda>x. f x \<notin> f ` set ys) (ys @ zs) = zs" if "distinct (map f (ys @ zs))" for ys zs
    using that by (auto simp: filter_empty_conv filter_id_conv)
  from this [of "take n xs" "drop n xs"] assms show ?thesis by simp
qed

lemma spend_list_after:
  assumes d: "distinct (map lot_id (lots (tx_db t)))"
    and t1: "lots (tx_db t1) = update_where (\<lambda>x. lot_id x \<in> lot_id ` set (take n (spend_list t)))
        (\<lambda>x. x\<lparr>lot_remaining := 0\<rparr>) (lots (tx_db t))" "tx_user t1 = tx_user t" "tx_now t1 = tx_now t"
  shows "spend_list t1 = drop n (spend_list t)"
proof -
  let ?P = "\<lambda>l. lot_user l = tx_user t \<and> lot_spendable (ts (tx_now t)) l"
  let ?Z = "lot_id ` set (take n (spend_list t))"
  have "filter ?P (update_where (\<lambda>x. lot_id x \<in> ?Z) (\<lambda>x. x\<lparr>lot_remaining := 0\<rparr>) rows) =
      filter (\<lambda>l. lot_id l \<notin> ?Z) (filter ?P rows)" for rows
    by (induction rows) (auto simp: lot_spendable_def)
  then have "spend_list t1 = filter (\<lambda>l. lot_id l \<notin> ?Z) (spend_list t)"
    using t1 by (simp only: spend_list_def filter_sort)
  moreover have "distinct (map lot_id (spend_list t))"
    using d by (simp add: spend_list_def distinct_map inj_on_def)
  ultimately show ?thesis using filter_taken by simp
qed

lemma spend_list_positive: "\<forall>l \<in> set (spend_list t). 0 < lot_remaining l"
  by (auto simp: spend_list_def lot_spendable_def)

lemma spend_list_credits: "0 \<le> credits (spend_list t)"
  using spend_list_positive [of t] by (intro sum_list_nonneg) force

lemma spend_from_greedy:
  assumes "books s b h t" "in_i64 need" "0 \<le> need" "taker_ok k t" "spend_from k p need t = Inr (r, t')"
  shows "lots (tx_db t') = draw_all need (spend_list t) (lots (tx_db t)) \<and> r = max 0 (need - credits (spend_list t))"
  using assms
proof (induction k p need t arbitrary: b rule: spend_from.induct)
  case (1 k p need t)
  let ?ls = "lock_spendable_lots (tx_user t) (ts (tx_now t)) spend_batch (tx_db t)"
  have batch: "?ls = take spend_batch (spend_list t)" by (simp add: lock_spendable_lots_def spend_list_def)
  then have pos: "\<forall>l \<in> set ?ls. 0 < lot_remaining l" using spend_list_positive [of t] by (auto dest: in_set_takeD)
  show ?case
  proof (cases "0 < need \<and> ?ls \<noteq> []")
    case False
    have "spend_list t = []" if "?ls = []" using that batch by (simp add: spend_batch_def)
    then show ?thesis using False "1.prems"(3,5) spend_list_credits [of t]
      by (auto simp: max_def spend_from.simps [of k p need t] Let_def split: if_splits)
  next
    case True
    with "1.prems"(5) obtain p' n' t1 where
      sl: "spend_lots k p need ?ls t = Inr (p', n', t1)" and rest: "spend_from k p' n' t1 = Inr (r, t')"
      by (auto simp: spend_from.simps [of k p need t] Let_def)
    have bo: "batch_ok ?ls t" by (rule spend_batch_ok [OF "1.prems"(1)])
    from spend_lots_books [OF "1.prems"(1) _ "1.prems"(2,4) bo pos sl] True
    have S: "books s b h t1" "spent k (need - n') t t1" "0 \<le> n'" "n' \<le> need" by auto
    note D = spend_lots_draws [OF sl _ pos] 
    from True have a: "0 < need" and b: "?ls \<noteq> []" by auto
    have n': "in_i64 n'" using "1.prems"(2) S(3,4) by (rule in_i64_le)
    note IH = "1.IH" [OF a refl b sl refl refl S(1) n' S(3) taker_ok_spent [OF "1.prems"(4) S(2)] rest]
    have all: "spend_list t = ?ls @ drop spend_batch (spend_list t)" unfolding batch by simp
    have pd: "0 \<le> credits (drop spend_batch (spend_list t))"
      using spend_list_positive [of t] by (intro sum_list_nonneg) (auto dest: in_set_dropD intro: less_imp_le)
    have split: "draw_all need (spend_list t) (lots (tx_db t)) =
        draw_all n' (drop spend_batch (spend_list t)) (lots (tx_db t1))"
      "credits (spend_list t) = credits ?ls + credits (drop spend_batch (spend_list t))"
      using D [OF a] draw_all_append [OF pos, of need "drop spend_batch (spend_list t)"]
      by (subst all, simp)+
    show ?thesis
    proof (cases "n' = 0")
      case True
      with IH D [OF a] split pd spend_list_credits [of t1] show ?thesis by (auto simp: max_def)
    next
      case False
      with S(3) D [OF a] have less: "credits ?ls < need" "n' = need - credits ?ls" by auto
      have "distinct (map lot_id (lots (tx_db t)))" using books_lots_wf [OF "1.prems"(1)] by (simp add: lots_wf_def)
      then have "spend_list t1 = drop spend_batch (spend_list t)"
        using spend_list_after [of t t1 spend_batch] D [OF a] draw_all_emptied [OF less(1) pos] batch by simp
      with IH split less pd show ?thesis by auto
    qed
  qed
qed

text \<open>
  C27. The loop that draws lots eight at a time, reading the table again between batches, takes
  exactly what one pass over all spendable lots in spend order would take, and reports
  exactly what they do not cover.
\<close>

theorem spend_is_greedy:
  assumes "all_ok db" "start_tx now uuids u db = Inr t" "in_i64 need" "0 \<le> need"
    and "\<forall>hid m. k = TakeCapture hid m \<longrightarrow> (\<exists>x. lock_hold hid t = Inr x)"
    and "spend_from k p need t = Inr (r, t')"
  shows "lots (tx_db t') = draw_all need (spend_list t) (lots (tx_db t)) \<and>
    r = max 0 (need - credits (spend_list t))"
proof -
  from start_tx_books [OF assms(1,2)] obtain s where B: "books s 0 0 t" by blast
  have "taker_ok k t" using assms(5) by (cases k) (auto simp: taker_ok_def dest: lock_hold_Inr)
  from spend_from_greedy [OF B assms(3,4) this assms(6)] show ?thesis .
qed

lemma spend_is_greedy_witness:
  "map lot_remaining (lots (tx_db (snd (projr (spend_from (TakeRemove ''a'' ''op'' ''n'') 0 7 sample_tx))))) = [3]"
proof -
  have "\<not> isl (spend_from (TakeRemove ''a'' ''op'' ''n'') 0 7 sample_tx)" by code_simp
  from spend_is_greedy [OF sample_ok sample_start _ _ _ right_pair [OF this]]
  have "lots (tx_db (snd (projr (spend_from (TakeRemove ''a'' ''op'' ''n'') 0 7 sample_tx)))) =
      draw_all 7 (spend_list sample_tx) (lots (tx_db sample_tx))" by (simp add: in_i64_def)
  moreover have "map lot_remaining (draw_all 7 (spend_list sample_tx) (lots (tx_db sample_tx))) = [3]" by code_simp
  ultimately show ?thesis by simp
qed

section \<open>Refunds\<close>

























end
