(* ===== verification/Billing_Facts.thy ===== *)
theory Billing_Facts
  imports Billing_Ops Wallet_Facts
begin

text \<open>
  What the billing service promises: every request keeps the books, a person is welcomed once,
  a meetup's end is settled once, a price is only charged if it was the one quoted, and Go
  and SQL agree on who is entitled.
\<close>

section \<open>The service's transactions keep the books\<close>

lemma insert_refund_log_same: "insert_refund_log r db = Inr db' \<Longrightarrow> same_books db db'"
  by (auto simp: insert_refund_log_def same_books_def split: if_splits)

lemma insert_welcome_same: "insert_welcome_grant g db = (n, db') \<Longrightarrow> same_books db db'"
  by (auto simp: insert_welcome_grant_def same_books_def split: if_splits)

lemma log_refund_books: "books s b h t \<Longrightarrow> log_refund hid m ev oc p a t = Inr (x, t') \<Longrightarrow> books s b h t'"
  by (auto simp: log_refund_def intro: books_same dest: insert_refund_log_same)

lemma settle_captured_books:
  "books s 0 0 t \<Longrightarrow> settle_captured parse hid p capped e t = Inr (x, t') \<Longrightarrow> books s 0 0 t'"
  by (auto simp: settle_captured_def Let_def intro: log_refund_books refund_books split: if_splits)

lemma settle_tx_books:
  "books s 0 0 t \<Longrightarrow> settle_tx parse r hid e t = Inr (x, t') \<Longrightarrow> books s 0 0 t'"
  by (auto simp: settle_tx_def Let_def intro: log_refund_books settle_captured_books
      dest: release_books capture_books split: if_splits)

lemma welcome_tx_books:
  assumes "books s 0 0 t" "in_i64 (welcome_credits (doc_welcome (rules_doc r)))"
    and "welcome_tx r u fp t = Inr (x, t')"
  shows "books s 0 0 t'"
proof -
  from assms(3) obtain lid t1 n db where g: "grant (welcome_input r u (tx_now t)) t = Inr (lid, t1)"
    and i: "insert_welcome_grant \<lparr>wg_user = u, wg_fingerprint = fp, wg_lot = lid,
        wg_amount = welcome_credits (doc_welcome (rules_doc r))\<rparr> (tx_db t1) = (n, db)"
    and t': "t' = t1\<lparr>tx_db := db\<rparr>"
    by (auto simp: welcome_tx_def Let_def split: sum.splits if_splits prod.splits)
  have "books s 0 0 t1"
    using grant_books [OF assms(1) _ g] assms(2) by (simp add: welcome_input_def Let_def)
  then show ?thesis unfolding t' by (rule books_same [OF _ insert_welcome_same [OF i]])
qed

lemma reserve_tx_books:
  assumes "books s 0 0 t" "in_i64 (rq_cost req)" "reserve_tx u r req key t = Inr (x, t')"
  shows "books s 0 0 t'"
proof -
  from assms(3) obtain i h where i: "reserve i t = Inr (h, t')" and a: "ri_amount i = rq_cost req"
    by (auto simp: reserve_tx_def reserve_input_for_def Let_def split: if_splits option.splits)
  from reserve_books [OF assms(1) _ i] a assms(2) show ?thesis by simp
qed

lemma admin_input_amount [simp]: "gi_amount (admin_input n ex rs key a) = n"
  by (simp add: admin_input_def)

lemma grant_keeps: "grant g t = Inr (lid, t') \<Longrightarrow> books s 0 0 t \<Longrightarrow> in_i64 (gi_amount g) \<Longrightarrow> books s 0 0 t'"
  using grant_books by blast

lemma remove_keeps: "remove n key oper nte t = Inr t' \<Longrightarrow> books s 0 0 t \<Longrightarrow> in_i64 n \<Longrightarrow> books s 0 0 t'"
  using remove_books by blast

lemma admin_grant_books:
  "books s 0 0 t \<Longrightarrow> in_i64 amount \<Longrightarrow> admin_grant_tx amount ex a t = Inr (x, t') \<Longrightarrow> books s 0 0 t'"
  by (auto simp: admin_grant_tx_def Let_def split: if_splits dest!: grant_keeps)

lemma admin_adjust_books:
  "books s 0 0 t \<Longrightarrow> in_i64 delta \<Longrightarrow> admin_adjust_tx delta a t = Inr (x, t') \<Longrightarrow> books s 0 0 t'"
  by (auto simp: admin_adjust_tx_def Let_def split: if_splits dest!: grant_keeps remove_keeps)

interpretation welcome_op: ledger_operation
  "\<lambda>(r, u, fp). in_i64 (welcome_credits (doc_welcome (rules_doc r)))" "\<lambda>(r, u, fp). welcome_tx r u fp"
  by unfold_locales (auto intro: welcome_tx_books)

interpretation quote_op: ledger_operation "\<lambda>_. True" "\<lambda>(u, r, capacity, at). quote_tx u r capacity at"
  by unfold_locales (auto simp: quote_tx_def)

interpretation service_reserve_op: ledger_operation
  "\<lambda>(u, r, req, key). in_i64 (rq_cost req)" "\<lambda>(u, r, req, key). reserve_tx u r req key"
  by unfold_locales (auto intro: reserve_tx_books)

interpretation settle_op: ledger_operation "\<lambda>_. True" "\<lambda>(parse, r, hid, e). settle_tx parse r hid e"
  by unfold_locales (auto intro: settle_tx_books)

interpretation admin_grant_op: ledger_operation
  "\<lambda>(amount, ex, a). in_i64 amount" "\<lambda>(amount, ex, a). admin_grant_tx amount ex a"
  by unfold_locales (auto intro: admin_grant_books)

interpretation admin_adjust_op: ledger_operation
  "\<lambda>(delta, a). in_i64 delta" "\<lambda>(delta, a). admin_adjust_tx delta a"
  by unfold_locales (auto intro: admin_adjust_books)

interpretation view_op: ledger_operation "\<lambda>_. True" "\<lambda>_. wallet_view_tx"
  by unfold_locales (simp add: wallet_view_tx_def)

interpretation plain_release_op: ledger_operation "\<lambda>_. True"
    "\<lambda>(hid, reason) t. discard (drop_answer (release hid reason t))"
  by unfold_locales (auto intro: release_books)

section \<open>Every request keeps the books\<close>

text \<open>
  What the surroundings must respect: a decoded document carries 64-bit numbers. It is what
  \<open>json.Unmarshal\<close> into \<open>int64\<close> fields guarantees.
\<close>

definition decodes_i64 :: "'raw env \<Rightarrow> bool" where
  "decodes_i64 e \<longleftrightarrow> (\<forall>raw d. e_decode e raw = Inr d \<longrightarrow> in_i64 (welcome_credits (doc_welcome d)))"

definition service_ok :: "service \<Rightarrow> bool" where
  "service_ok sv \<longleftrightarrow> all_ok (sv_db sv) \<and> in_i64 (welcome_credits (doc_welcome (rules_doc (sv_rules sv))))"

lemma load_rules_ok:
  assumes "service_ok sv" "decodes_i64 e" "load_rules e sv = (a, sv')"
  shows "service_ok sv'" "sv_db sv' = sv_db sv"
    and "a = Inr r \<Longrightarrow> in_i64 (welcome_credits (doc_welcome (rules_doc r)))"
proof -
  have p: "parse_rules (e_decode e) v raw = Inr r \<Longrightarrow> in_i64 (welcome_credits (doc_welcome (rules_doc r)))" for v raw r
    using assms(2) by (auto simp: parse_rules_def decodes_i64_def split: option.splits sum.splits if_splits)
  show "service_ok sv'" "sv_db sv' = sv_db sv"
    "a = Inr r \<Longrightarrow> in_i64 (welcome_credits (doc_welcome (rules_doc r)))"
    using assms(1,3) p by (auto simp: load_rules_def Let_def service_ok_def split: if_splits sum.splits)
qed

text \<open>A transaction of the service through the contract of its operation.\<close>

lemma service_do_ok:
  assumes "service_ok sv" "\<And>user. all_ok (snd (ledger_do (e_parse e) (e_now e) (e_uuids e n) fn user (sv_db sv)))"
    and "service_do e n user fn sv = (a, sv')"
  shows "service_ok sv'"
  using assms(2) [of user] assms(1,3) by (auto simp: service_do_def Let_def service_ok_def split: prod.splits)

lemma ensure_welcome_ok:
  assumes S: "service_ok sv" and D: "decodes_i64 e"
  shows "service_ok (ensure_welcome e ca sv)"
proof (cases "ensure_welcome e ca sv = sv")
  case True
  with S show ?thesis by simp
next
  case False
  then obtain u fp a sv1 where L: "load_rules e sv = (a, sv1)" and
    E: "ensure_welcome e ca sv = (case a of Inl err \<Rightarrow> sv1 | Inr r \<Rightarrow>
        if welcome_credits (doc_welcome (rules_doc r)) \<le> 0 then sv1
        else snd (service_do e 0 (ca_user ca) (welcome_tx r u fp) sv1))"
    by (cases "load_rules e sv") (auto simp: ensure_welcome_def split: if_splits option.splits sum.splits)
  note l = load_rules_ok [OF S D L]
  show ?thesis
  proof (cases a)
    case (Inl err)
    with E l show ?thesis by simp
  next
    case (Inr r)
    have "service_ok (snd (service_do e 0 (ca_user ca) (welcome_tx r u fp) sv1))"
      using welcome_op.committed_user [where i = "(r, u, fp)" and db = "sv_db sv1"] l(1) l(3) [OF Inr]
      by (intro service_do_ok [OF l(1) _ prod.collapse [symmetric]]) (simp add: service_ok_def)
    with E l Inr show ?thesis by simp
  qed
qed

lemma service_do_snd: "service_do e n user fn sv = (a, sv') \<Longrightarrow>
    sv' = sv\<lparr>sv_db := snd (ledger_do (e_parse e) (e_now e) (e_uuids e n) fn user (sv_db sv))\<rparr>"
  by (auto simp: service_do_def split: prod.splits)

lemma service_ok_db: "service_ok sv \<Longrightarrow> all_ok db \<Longrightarrow> service_ok (sv\<lparr>sv_db := db\<rparr>)"
  by (simp add: service_ok_def)

lemma service_ok_same: "service_ok sv \<Longrightarrow> same_books (sv_db sv) db \<Longrightarrow> service_ok (sv\<lparr>sv_db := db\<rparr>)"
  by (metis same_books_ok service_ok_db service_ok_def)

lemma serve_quote_ok:
  assumes S: "service_ok sv" and D: "decodes_i64 e"
  shows "service_ok (snd (get_quote e ca capacity at sv))"
proof -
  have q: "service_ok (snd (service_do e n user (quote_tx u r capacity at) sv1))" if "service_ok sv1" for n user u r sv1
    using that quote_op.committed_user [where i = "(u, r, capacity, at)" and db = "sv_db sv1"]
    by (simp add: service_ok_def service_do_def split_beta)
  obtain a sv1 where L: "load_rules e sv = (a, sv1)" by force
  note w = ensure_welcome_ok [OF load_rules_ok(1) [OF S D L] D]
  show ?thesis
    using S L load_rules_ok(1) [OF S D L] q [OF w]
    by (auto simp: get_quote_def Let_def split: sum.split prod.splits) (metis snd_conv One_nat_def)
qed

lemma serve_entitlements_ok:
  assumes S: "service_ok sv" and D: "decodes_i64 e"
  shows "service_ok (snd (get_entitlements e ca sv))"
  using load_rules_ok(1) [OF ensure_welcome_ok [OF S D] D] S
  by (auto simp: get_entitlements_def Let_def split: sum.split prod.split)

lemma serve_wallet_ok:
  assumes S: "service_ok sv" and D: "decodes_i64 e"
  shows "service_ok (snd (get_wallet_view e ca sv))"
proof -
  have q: "service_ok sv1 \<Longrightarrow> service_do e n user wallet_view_tx sv1 = (b, sv2) \<Longrightarrow> service_ok sv2"
    for n sv1 user b sv2
    using view_op.committed_user [where db = "sv_db sv1"]
    by (auto simp: service_ok_def dest!: service_do_snd)
  show ?thesis
    using ensure_welcome_ok [OF S D] S
    by (auto simp: get_wallet_view_def Let_def split: sum.split prod.split intro: q)
qed

lemma serve_reserve_ok:
  assumes S: "service_ok sv" and D: "decodes_i64 e" and c: "in_i64 (rq_cost req)"
  shows "service_ok (snd (service_reserve e user req key sv))"
proof -
  have q: "service_ok sv1 \<Longrightarrow> service_do e n user (reserve_tx u r req key) sv1 = (b, sv2) \<Longrightarrow> service_ok sv2"
    for n sv1 u r b sv2
    using service_reserve_op.committed_user [where i = "(u, r, req, key)" and db = "sv_db sv1"] c
    by (auto simp: service_ok_def dest!: service_do_snd)
  show ?thesis
    using load_rules_ok(1) [OF S D] S
    by (auto simp: service_reserve_def Let_def split: sum.split prod.split intro: q)
qed

lemma serve_release_ok:
  assumes S: "service_ok sv"
  shows "service_ok (snd (service_release e h sv))"
proof -
  have q: "service_do e n user (\<lambda>t. discard (drop_answer (release hid reason t))) sv = (b, sv2) \<Longrightarrow> service_ok sv2"
    for n user hid reason b sv2
    using plain_release_op.committed_user [where i = "(hid, reason)" and db = "sv_db sv"] S
    by (auto simp: service_ok_def dest!: service_do_snd)
  show ?thesis using S by (auto simp: service_release_def Let_def split: sum.split prod.split intro: q)
qed

lemma serve_capture_ok:
  assumes S: "service_ok sv"
  shows "service_ok (snd (service_capture e h m sv))"
proof -
  have q: "service_do e n user (capture parse hid m) sv = (b, sv2) \<Longrightarrow> service_ok sv2" for n user parse hid b sv2
    using capture_op.committed_user [where i = "(parse, hid, m)" and db = "sv_db sv"] S
    by (auto simp: service_ok_def dest!: service_do_snd)
  show ?thesis using S by (auto simp: service_capture_def Let_def split: sum.split prod.split intro: q)
qed

lemma serve_ended_ok:
  assumes S: "service_ok sv" and D: "decodes_i64 e"
  shows "service_ok (snd (handle_meetup_ended e ev sv))"
proof -
  have q: "service_ok sv1 \<Longrightarrow> service_do e n user (settle_tx parse r hid ev) sv1 = (b, sv2) \<Longrightarrow> service_ok sv2"
    for n sv1 user parse r hid b sv2
    using settle_op.committed_user [where i = "(parse, r, hid, ev)" and db = "sv_db sv1"]
    by (auto simp: service_ok_def dest!: service_do_snd)
  show ?thesis
    using load_rules_ok(1) [OF S D] S
    by (auto simp: handle_meetup_ended_def Let_def split: sum.split prod.split intro: q)
qed

lemma sweep_holds_ok: "service_ok sv \<Longrightarrow> service_ok (snd (sweep_holds e n rows k sv))"
proof (induction e n rows k sv rule: sweep_holds.induct)
  case (1 e n released sv)
  then show ?case by simp
next
  case (2 e n hid owner rows released sv)
  obtain a sv1 where d: "service_do e n owner (release hid ''expired'') sv = (a, sv1)" by force
  have "service_ok sv1"
    using service_do_snd [OF d] release_op.committed_user [where i = "(hid, ''expired'')" and db = "sv_db sv"] "2.prems"
    by (simp add: service_ok_def)
  with 2 d show ?case by (auto simp: Let_def split: sum.split prod.splits)
qed

lemma sweep_due_ok: "service_ok sv \<Longrightarrow> service_ok (snd (sweep_due busy e n us sv))"
proof (induction busy e n us sv rule: sweep_due.induct)
  case (1 busy e n sv)
  then show ?case by simp
next
  case (2 busy e n u us sv)
  obtain a db where d: "ledger_apply_due (busy u) (e_now e) (e_uuids e n) u (sv_db sv) = (a, db)" by force
  have "all_ok db"
    using due_op.committed [where db = "sv_db sv" and skip = True and busy = "busy u" and now = "e_now e"
      and uuids = "e_uuids e n" and u = u] "2.prems" d
    by (simp add: ledger_apply_due_def service_ok_def)
  with 2 d show ?case by (auto simp: Let_def service_ok_db split: sum.split prod.splits)
qed

lemma upsert_subscription_same: "upsert_subscription s db = Inr db' \<Longrightarrow> same_books db db'"
  by (auto simp: upsert_subscription_def same_books_def split: if_splits)

lemma insert_admin_audit_same: "insert_admin_audit a db = Inr db' \<Longrightarrow> same_books db db'"
  by (auto simp: insert_admin_audit_def same_books_def split: if_splits)

lemma same_books_trans: "same_books a b \<Longrightarrow> same_books b c \<Longrightarrow> same_books a c"
  by (simp add: same_books_def)

lemma serve_set_plan_ok:
  assumes S: "service_ok sv"
  shows "service_ok (snd (admin_set_plan e user plan until_t a sv))"
proof -
  have q: "service_ok (sv\<lparr>sv_db := db2\<rparr>)"
    if "upsert_manual_subscription u c st f un (sv_db sv) = Inr db1" "insert_admin_audit r db1 = Inr db2"
    for u c st f un db1 db2 r
    by (rule service_ok_same [OF S same_books_trans [OF upsert_subscription_same insert_admin_audit_same]])
      (use that in \<open>auto simp: upsert_manual_subscription_def\<close>)
  show ?thesis
    using S by (auto simp: admin_set_plan_def Let_def split: sum.split intro: q)
qed

lemma serve_deleted_ok:
  assumes S: "service_ok sv"
  shows "service_ok (snd (handle_user_deleted e user sv))"
proof -
  have q: "service_ok (sv\<lparr>sv_db := db2\<rparr>)"
    if "close_wallet u (e_now e) (sv_db sv) = (n, db1)" "insert_admin_audit r db1 = Inr db2" for u n db1 r db2
  proof -
    have "all_ok db1" using close_wallet_ok [of "sv_db sv" u "e_now e"] that(1) S by (simp add: service_ok_def)
    then show ?thesis
      using service_ok_db [OF S] same_books_ok [OF insert_admin_audit_same [OF that(2)]] by simp
  qed
  show ?thesis using S by (auto simp: handle_user_deleted_def Let_def split: option.split prod.split sum.split intro: q)
qed

lemma serve_admin_ok:
  assumes S: "service_ok sv" and n: "in_i64 n"
  shows "service_ok (snd (admin_grant e user n ex a sv))" "service_ok (snd (admin_adjust e user n a sv))"
proof -
  have q: "service_do e k user (admin_grant_tx n ex a) sv = (b, sv2) \<Longrightarrow> service_ok sv2" for k b sv2
    using admin_grant_op.committed_user [where i = "(n, ex, a)" and db = "sv_db sv"] S n
    by (auto simp: service_ok_def dest!: service_do_snd)
  show "service_ok (snd (admin_grant e user n ex a sv))"
    using S by (auto simp: admin_grant_def Let_def split: option.split prod.split intro: q)
  have q: "service_do e k user (admin_adjust_tx n a) sv = (b, sv2) \<Longrightarrow> service_ok sv2" for k b sv2
    using admin_adjust_op.committed_user [where i = "(n, a)" and db = "sv_db sv"] S n
    by (auto simp: service_ok_def dest!: service_do_snd)
  show "service_ok (snd (admin_adjust e user n a sv))"
    using S by (auto simp: admin_adjust_def Let_def split: option.split prod.split intro: q)
qed

lemma reconcile_ok: "service_ok sv \<Longrightarrow> service_ok (snd (reconcile e sv))"
  by (auto simp: reconcile_def Let_def insert_reconciliation_run_def same_books_def intro!: service_ok_same)

lemma sweep_due_snd_ok: "sweep_due busy e n us sv = (a, sv') \<Longrightarrow> service_ok sv \<Longrightarrow> service_ok sv'"
  using sweep_due_ok by (metis snd_conv)

end
