(* ===== verification/Breaker.thy ===== *)
theory Breaker
  imports AppError
begin

text \<open>
  \<open>platform/breaker/breaker.go\<close>. \<open>allow\<close> and \<open>record\<close> each run under the mutex; \<open>Execute\<close> runs
  the protected call between them without it, so with several callers the two are separate
  steps: \<open>breaker_event\<close> interleaves them. The clock is an argument.
\<close>

section \<open>The breaker\<close>

datatype breaker_state = Closed | Open | HalfOpen

record breaker =
  br_threshold :: int
  br_timeout :: duration
  br_state :: breaker_state
  br_failures :: int
  br_opened_at :: instant

definition err_open :: go_error where
  "err_open = PkgError ''breaker: circuit open''"

definition new_breaker :: "int \<Rightarrow> duration \<Rightarrow> breaker" where
  "new_breaker threshold timeout = \<lparr>br_threshold = threshold, br_timeout = timeout, br_state = Closed,
     br_failures = 0, br_opened_at = - 62135596800000000000\<rparr>"

definition breaker_allow :: "instant \<Rightarrow> breaker \<Rightarrow> bool \<times> breaker" where
  "breaker_allow now b =
     (case br_state b of
        Open \<Rightarrow>
          if time_sub now (br_opened_at b) < br_timeout b then (False, b)
          else (True, b\<lparr>br_state := HalfOpen\<rparr>)
      | _ \<Rightarrow> (True, b))"

definition breaker_record :: "instant \<Rightarrow> bool \<Rightarrow> breaker \<Rightarrow> breaker" where
  "breaker_record now ok b =
     (if ok then b\<lparr>br_failures := 0, br_state := Closed\<rparr>
      else
        let b = b\<lparr>br_failures := i64 (br_failures b + 1)\<rparr> in
        if br_state b = HalfOpen \<or> br_failures b \<ge> br_threshold b
        then b\<lparr>br_state := Open, br_opened_at := now\<rparr> else b)"

text \<open>
  \<open>Execute\<close> by one caller alone: \<open>fn\<close> is the outcome of the protected call, \<open>now\<close> the clock
  when it is asked for, \<open>later\<close> when it is recorded.
\<close>

definition breaker_execute :: "instant \<Rightarrow> instant \<Rightarrow> go_error option \<Rightarrow> breaker \<Rightarrow> go_error option \<times> breaker" where
  "breaker_execute now later fn b =
     (case breaker_allow now b of
        (False, b) \<Rightarrow> (Some err_open, b)
      | (True, b) \<Rightarrow> (fn, breaker_record later (fn = None) b))"

section \<open>Several callers\<close>

datatype breaker_event = Ask instant | Done instant bool

text \<open>
  The second component counts the protected calls that are running. Every call that runs returns: \<open>Execute\<close> calls
  \<open>fn\<close> without a \<open>defer\<close>, so a call that panics records nothing, and such a step is not modelled. It would
  leave the breaker as it is, a half-open one without a running call, and the next caller would be admitted.
\<close>

inductive breaker_step :: "breaker \<times> nat \<Rightarrow> breaker_event \<Rightarrow> breaker \<times> nat \<Rightarrow> bool" where
  admitted: "breaker_allow now b = (True, b') \<Longrightarrow> breaker_step (b, n) (Ask now) (b', Suc n)"
| refused: "breaker_allow now b = (False, b') \<Longrightarrow> breaker_step (b, n) (Ask now) (b', n)"
| finished: "breaker_step (b, Suc n) (Done now ok) (breaker_record now ok b, n)"

inductive_cases breaker_step_cases: "breaker_step s ev s'"

inductive breaker_reachable :: "int \<Rightarrow> duration \<Rightarrow> breaker \<times> nat \<Rightarrow> bool" for threshold timeout where
  fresh: "breaker_reachable threshold timeout (new_breaker threshold timeout, 0)"
| step: "breaker_reachable threshold timeout s \<Longrightarrow> breaker_step s ev s' \<Longrightarrow> breaker_reachable threshold timeout s'"

section \<open>Facts\<close>

definition breaker_ok :: "int \<Rightarrow> duration \<Rightarrow> breaker \<times> nat \<Rightarrow> bool" where
  "breaker_ok threshold timeout s \<longleftrightarrow> (case s of (b, n) \<Rightarrow>
     br_threshold b = threshold \<and> br_timeout b = timeout \<and> in_i64 (br_failures b) \<and>
     (br_state b = HalfOpen \<longrightarrow> 0 < n) \<and> (br_state b = Closed \<longrightarrow> br_failures b < threshold))"

lemma breaker_step_ok:
  assumes "breaker_step s ev s'" "0 < threshold" "breaker_ok threshold timeout s"
  shows "breaker_ok threshold timeout s'"
proof -
  have "in_i64 0" by (simp add: in_i64_def)
  with assms show ?thesis
    by (cases rule: breaker_step.cases)
      (auto simp: breaker_ok_def breaker_allow_def breaker_record_def Let_def split: breaker_state.splits if_splits)
qed

text \<open>
  C31. However callers interleave, a closed breaker has counted fewer failures than its
  threshold, and a half-open breaker is never stuck: a call is running whose outcome will
  close or open it. (The protected calls return; a panic is not modelled.)
\<close>

theorem breaker_never_stuck:
  assumes "breaker_reachable threshold timeout (b, n)" "0 < threshold"
  shows "(br_state b = HalfOpen \<longrightarrow> 0 < n) \<and> (br_state b = Closed \<longrightarrow> br_failures b < threshold) \<and>
    (br_state b = HalfOpen \<longrightarrow> (\<forall>now ok. br_state (breaker_record now ok b) = (if ok then Closed else Open)))"
proof -
  have "breaker_ok threshold timeout s" if "breaker_reachable threshold timeout s" for s
    using that
  proof (induction rule: breaker_reachable.induct)
    case fresh
    show ?case using assms(2) by (simp add: breaker_ok_def new_breaker_def in_i64_def)
  next
    case (step s ev s')
    then show ?case using breaker_step_ok assms(2) by blast
  qed
  from this [OF assms(1)] show ?thesis by (simp add: breaker_ok_def breaker_record_def Let_def)
qed

lemma breaker_never_stuck_witness:
  "br_state (new_breaker 3 minute) = Closed \<and> br_failures (new_breaker 3 minute) < 3"
  using breaker_never_stuck [OF breaker_reachable.fresh, of 3 minute] by (simp add: new_breaker_def)

text \<open>
  While the breaker is open and its timeout has not run out, every call is refused without
  being made and nothing about the breaker changes; afterwards the next caller gets its trial.
\<close>

lemma breaker_open_refuses:
  assumes "br_state b = Open"
  shows "(time_sub now (br_opened_at b) < br_timeout b \<longrightarrow>
      breaker_execute now later fn b = (Some err_open, b) \<and> breaker_step (b, n) (Ask now) (b, n)) \<and>
    (br_timeout b \<le> time_sub now (br_opened_at b) \<longrightarrow>
      fst (breaker_execute now later fn b) = fn \<and>
      br_state (snd (breaker_execute now later fn b)) = (if fn = None then Closed else Open))"
  using assms
  by (auto simp: breaker_execute_def breaker_allow_def breaker_record_def Let_def intro: breaker_step.refused)

section \<open>Consecutive failures\<close>

text \<open>
  The specification the package states: it opens after \<open>threshold\<close> failures in a row. A run
  of calls by one caller is the list of their outcomes.
\<close>

fun run_calls :: "(instant \<times> go_error option) list \<Rightarrow> breaker \<Rightarrow> breaker" where
  "run_calls [] b = b"
| "run_calls ((now, fn) # cs) b = run_calls cs (snd (breaker_execute now now fn b))"

fun trailing_failures :: "go_error option list \<Rightarrow> nat \<Rightarrow> nat" where
  "trailing_failures [] n = n"
| "trailing_failures (x # xs) n = trailing_failures xs (if x = None then 0 else Suc n)"

lemma run_calls_closed:
  assumes "br_state b = Closed" "br_failures b = int n" "n < k" "br_threshold b = int k" "in_i64 (int k)"
    and "\<forall>j \<le> length cs. trailing_failures (map snd (take j cs)) n < k"
  shows "br_state (run_calls cs b) = Closed \<and> br_failures (run_calls cs b) = int (trailing_failures (map snd cs) n)"
  using assms
proof (induction cs arbitrary: b n)
  case Nil
  then show ?case by simp
next
  case (Cons c cs)
  obtain now fn where c: "c = (now, fn)" by (cases c)
  let ?b = "snd (breaker_execute now now fn b)" and ?n = "if fn = None then 0 else Suc n"
  have all: "\<forall>j \<le> length cs. trailing_failures (map snd (take j cs)) ?n < k"
  proof (intro allI impI)
    fix j assume "j \<le> length cs"
    then show "trailing_failures (map snd (take j cs)) ?n < k"
      using Cons.prems(6) [rule_format, of "Suc j"] c by simp
  qed
  then have n: "?n < k" by (metis le0 list.map(1) take0 trailing_failures.simps(1))
  have "in_i64 (int n + 1)" using Cons.prems(3,5) by (auto simp: in_i64_def)
  then have "br_state ?b = Closed \<and> br_failures ?b = int ?n \<and> br_threshold ?b = int k"
    using Cons.prems(1-4) n by (auto simp: breaker_execute_def breaker_allow_def breaker_record_def Let_def split: if_splits)
  with Cons.IH [OF _ _ n _ Cons.prems(5) all] c show ?case by simp
qed

text \<open>
  A caller that uses the breaker on its own finds it closed exactly as long as no
  \<open>threshold\<close> calls in a row have failed, and the call that completes such a run opens it.
\<close>

lemma breaker_counts_consecutive:
  assumes "0 < k" "in_i64 (int k)"
    and "\<forall>j < length cs. trailing_failures (map snd (take j cs)) 0 < k"
  shows "br_state (run_calls cs (new_breaker (int k) timeout)) =
    (if trailing_failures (map snd cs) 0 < k then Closed else Open)"
proof (cases "trailing_failures (map snd cs) 0 < k")
  case True
  then have "\<forall>j \<le> length cs. trailing_failures (map snd (take j cs)) 0 < k"
    using assms(3) by (auto simp: le_less)
  with True run_calls_closed [of "new_breaker (int k) timeout" 0 k cs] assms(1,2) show ?thesis
    by (simp add: new_breaker_def)
next
  case False
  with assms(1) obtain ds d where ds: "cs = ds @ [d]" by (cases cs rule: rev_cases) auto
  obtain now fn where d: "d = (now, fn)" by (cases d)
  have append: "run_calls (xs @ [d]) b = snd (breaker_execute now now fn (run_calls xs b))" for xs b
    by (induction xs arbitrary: b) (auto simp: d)
  have trail: "trailing_failures (ys @ [y]) n = (if y = None then 0 else Suc (trailing_failures ys n))" for ys y n
    by (induction ys arbitrary: n) auto
  let ?b = "run_calls ds (new_breaker (int k) timeout)"
  have all: "\<forall>j \<le> length ds. trailing_failures (map snd (take j ds)) 0 < k"
    using assms(3) ds by (auto simp: less_Suc_eq_le)
  have thr: "br_threshold (run_calls xs b) = br_threshold b" for xs b
    by (induction xs b rule: run_calls.induct)
      (auto simp: breaker_execute_def breaker_allow_def breaker_record_def Let_def split: breaker_state.splits bool.splits)
  have b: "br_state ?b = Closed" "br_failures ?b = int (trailing_failures (map snd ds) 0)" "br_threshold ?b = int k"
    using run_calls_closed [of "new_breaker (int k) timeout" 0 k ds] all assms(1,2) thr
    by (simp_all add: new_breaker_def)
  have t: "trailing_failures (map snd ds) 0 < k" using all by auto
  with False ds d trail have "fn \<noteq> None" "Suc (trailing_failures (map snd ds) 0) = k" by (auto split: if_splits)
  moreover from this have "i64 (int (trailing_failures (map snd ds) 0) + 1) = int k"
    using assms(2) by (auto simp: add.commute)
  ultimately have "br_state (snd (breaker_execute now now fn ?b)) = Open"
    using b by (auto simp: breaker_execute_def breaker_allow_def breaker_record_def Let_def)
  with False show ?thesis by (simp add: ds append)
qed

text \<open>
  The package promises exactly one trial call once the timeout has run out. It does not
  keep the promise: a second caller that asks while the trial is still running is admitted
  too.
\<close>

lemma breaker_admits_two_trials:
  assumes "br_state b = Open" "br_timeout b \<le> time_sub now (br_opened_at b)"
  shows "\<exists>b1 b2. breaker_step (b, 0) (Ask now) (b1, 1) \<and> breaker_step (b1, 1) (Ask later) (b2, 2) \<and>
    br_state b2 = HalfOpen"
proof -
  let ?b = "b\<lparr>br_state := HalfOpen\<rparr>"
  have "breaker_allow now b = (True, ?b)" "breaker_allow later ?b = (True, ?b)"
    using assms by (simp_all add: breaker_allow_def)
  then have "breaker_step (b, 0) (Ask now) (?b, Suc 0)" "breaker_step (?b, Suc 0) (Ask later) (?b, Suc (Suc 0))"
    by (auto intro: breaker_step.admitted)
  then show ?thesis by (intro exI [of _ ?b]) (simp add: numeral_2_eq_2)
qed

end
