(* ===== verification/Store.thy ===== *)
theory Store
  imports Breaker
begin

text \<open>
  \<open>billing/store\<close>: what a store is asked and answers (\<open>store.go\<close>), and the breaker and retry around
  every call (\<open>resilient.go\<close>). The clients of the two stores are arguments.
\<close>

section \<open>Requests and answers\<close>

record store_request =
  sq_platform :: string
  sq_kind :: string
  sq_product :: string
  sq_token :: string

record store_tx =
  tr_platform :: string
  tr_transaction_id :: string
  tr_original_id :: string
  tr_product_id :: string
  tr_app_id :: string
  tr_environment :: string
  tr_account_token :: string
  tr_purchased_at :: instant
  tr_expires_at :: "instant option"
  tr_auto_renew :: bool
  tr_revoked :: bool
  tr_pending :: bool
  tr_token_hash :: string
  tr_raw :: string

definition ios :: string where "ios = ''ios''"
definition android :: string where "android = ''android''"
definition consumable :: string where "consumable = ''consumable''"
definition subscription_kind :: string where "subscription_kind = ''subscription''"
definition production :: string where "production = ''production''"

lemmas store_words = ios_def android_def consumable_def subscription_kind_def production_def

definition err_not_configured :: go_error where
  "err_not_configured = PkgError ''store: verification is not configured for this platform''"

definition err_store_unavailable :: go_error where
  "err_store_unavailable = PkgError ''store: temporarily unavailable''"

definition err_rejected :: go_error where
  "err_rejected = PkgError ''store: purchase rejected''"

definition is_not_configured :: "go_error \<Rightarrow> bool" where
  "is_not_configured e = errors_is_pkg e ''store: verification is not configured for this platform''"

definition is_unavailable :: "go_error \<Rightarrow> bool" where
  "is_unavailable e = errors_is_pkg e ''store: temporarily unavailable''"

type_synonym verifier = "store_request \<Rightarrow> go_error + store_tx"
type_synonym finisher = "string \<Rightarrow> string \<Rightarrow> string \<Rightarrow> string \<Rightarrow> go_error option"

definition or_unconfigured :: "verifier option \<Rightarrow> verifier" where
  "or_unconfigured v = (case v of None \<Rightarrow> (\<lambda>r. Inl err_not_configured) | Some f \<Rightarrow> f)"

definition by_platform_verify :: "verifier option \<Rightarrow> verifier option \<Rightarrow> verifier" where
  "by_platform_verify apple google r =
     (if sq_platform r = ios then or_unconfigured apple r
      else if sq_platform r = android then or_unconfigured google r
      else Inl err_rejected)"

definition by_platform_finish :: "finisher option \<Rightarrow> finisher" where
  "by_platform_finish google platform kind product token =
     (if platform = ios then None
      else if platform = android
      then (case google of None \<Rightarrow> Some err_not_configured | Some f \<Rightarrow> f platform kind product token)
      else Some err_rejected)"

section \<open>Retry and breaker\<close>

definition store_max_attempts :: nat where "store_max_attempts = 2"
definition store_breaker_threshold :: int where "store_breaker_threshold = 5"
definition store_breaker_reset :: duration where "store_breaker_reset = 30 * second"

definition new_resilient :: breaker where
  "new_resilient = new_breaker store_breaker_threshold store_breaker_reset"

definition transient :: "go_error + 'a \<Rightarrow> go_error option" where
  "transient a = (case a of Inl e \<Rightarrow> if is_unavailable e then Some e else None | Inr x \<Rightarrow> None)"

text \<open>
  \<open>run\<close>: attempt \<open>k\<close> with \<open>left\<close> more allowed. \<open>call k\<close> is what the store answers to it, \<open>clock k\<close> the time
  it is asked and recorded, \<open>cancelled k\<close> whether the context ends while waiting for the next.
\<close>

fun resilient_attempt ::
  "(nat \<Rightarrow> instant \<times> instant) \<Rightarrow> (nat \<Rightarrow> bool) \<Rightarrow> (nat \<Rightarrow> go_error + 'a) \<Rightarrow> nat \<Rightarrow> nat \<Rightarrow> breaker \<Rightarrow> (go_error + 'a) \<times> breaker" where
  "resilient_attempt clock cancelled call left k b =
     (let answer = call k;
          (err, b) = breaker_execute (fst (clock k)) (snd (clock k)) (transient answer) b in
      if (case err of None \<Rightarrow> False | Some e \<Rightarrow> errors_is_pkg e ''breaker: circuit open'')
      then (Inl err_store_unavailable, b)
      else if transient answer = None then (answer, b)
      else (case left of
          0 \<Rightarrow> (answer, b)
        | Suc n \<Rightarrow> if cancelled k then (Inl err_store_unavailable, b)
            else resilient_attempt clock cancelled call n (Suc k) b))"

declare resilient_attempt.simps [simp del]

definition resilient_run ::
  "(nat \<Rightarrow> instant \<times> instant) \<Rightarrow> (nat \<Rightarrow> bool) \<Rightarrow> (nat \<Rightarrow> go_error + 'a) \<Rightarrow> breaker \<Rightarrow> (go_error + 'a) \<times> breaker" where
  "resilient_run clock cancelled call b = resilient_attempt clock cancelled call (store_max_attempts - 1) 1 b"

definition resilient_verify ::
  "(nat \<Rightarrow> instant \<times> instant) \<Rightarrow> (nat \<Rightarrow> bool) \<Rightarrow> (nat \<Rightarrow> verifier) \<Rightarrow> store_request \<Rightarrow> breaker \<Rightarrow> (go_error + store_tx) \<times> breaker" where
  "resilient_verify clock cancelled v r b = resilient_run clock cancelled (\<lambda>k. v k r) b"

definition resilient_finish ::
  "(nat \<Rightarrow> instant \<times> instant) \<Rightarrow> (nat \<Rightarrow> bool) \<Rightarrow> (nat \<Rightarrow> finisher) option \<Rightarrow> string \<Rightarrow> string \<Rightarrow> string \<Rightarrow> string \<Rightarrow>
    breaker \<Rightarrow> go_error option \<times> breaker" where
  "resilient_finish clock cancelled f platform kind product token b =
     (case f of
        None \<Rightarrow> (Some err_not_configured, b)
      | Some f \<Rightarrow> (case resilient_run clock cancelled
            (\<lambda>k. case f k platform kind product token of Some e \<Rightarrow> Inl e | None \<Rightarrow> Inr ()) b of
            (Inl e, b) \<Rightarrow> (Some e, b) | (Inr u, b) \<Rightarrow> (None, b)))"

section \<open>Facts\<close>

text \<open>What an outage costs: the answers of a store that is reached but does not say it is unavailable.\<close>

lemma resilient_definite:
  assumes "br_state b \<noteq> Open" "transient (call 1) = None"
  shows "resilient_run clock cancelled call b = (call 1, b\<lparr>br_failures := 0, br_state := Closed\<rparr>)"
  using assms
  by (simp add: resilient_run_def resilient_attempt.simps breaker_execute_def breaker_allow_def breaker_record_def
      split: breaker_state.splits)

text \<open>
  A store that answers, even to say a purchase is rejected, never opens its breaker and is never asked
  twice: after any number of such answers the next caller still gets the store's own answer.
\<close>

lemma rejections_never_open_breaker:
  assumes "\<forall>(clock, cancelled, call) \<in> set calls. transient (call (1::nat)) = None"
  shows "fold (\<lambda>(clock, cancelled, call) (answers, b).
      case resilient_run clock cancelled call b of (a, b) \<Rightarrow> (answers @ [a], b)) calls ([], new_resilient) =
    (map (\<lambda>(clock, cancelled, call). call 1) calls, new_resilient)"
proof -
  have "fold (\<lambda>(clock, cancelled, call) (answers, b).
      case resilient_run clock cancelled call b of (a, b) \<Rightarrow> (answers @ [a], b)) calls (as, new_resilient) =
    (as @ map (\<lambda>(clock, cancelled, call). call 1) calls, new_resilient)" for as
    using assms
  proof (induction calls arbitrary: as)
    case Nil
    then show ?case by simp
  next
    case (Cons c calls)
    obtain clock cancelled call where c: "c = (clock, cancelled, call)" by (cases c)
    have "br_state new_resilient \<noteq> Open" "new_resilient\<lparr>br_failures := 0, br_state := Closed\<rparr> = new_resilient"
      by (simp_all add: new_resilient_def new_breaker_def)
    with resilient_definite [of new_resilient call clock cancelled] Cons.prems Cons.IH c show ?case by simp
  qed
  from this [of "[]"] show ?thesis by simp
qed

end
