(* ===== verification/Purchases.thy ===== *)
theory Purchases
  imports Billing_Ops Store
begin

text \<open>
  Store purchases: \<open>billing/purchases.go\<close>, the reads of \<open>subscriptions.go\<close> and \<open>catalog.go\<close>, and the
  statements of \<open>store.sql.go\<close> they run. The stores and the flag service answer through the record
  \<open>store_env\<close>.
\<close>

section \<open>Statements\<close>

definition get_store_product :: "string \<Rightarrow> billing_db \<Rightarrow> product_row option" where
  "get_store_product p db = find (\<lambda>r. pr_id r = p \<and> pr_active r) (products db)"

definition get_store_purchase :: "string \<Rightarrow> string \<Rightarrow> billing_db \<Rightarrow> purchase_row option" where
  "get_store_purchase platform tid db =
     find (\<lambda>r. sp_platform r = platform \<and> sp_transaction_id r = tid) (purchases db)"

definition get_store_purchase_by_id :: "uuid \<Rightarrow> billing_db \<Rightarrow> purchase_row option" where
  "get_store_purchase_by_id i db = find (\<lambda>r. sp_id r = i) (purchases db)"

definition lock_store_purchase :: "uuid \<Rightarrow> billing_db \<Rightarrow> purchase_row option" where
  "lock_store_purchase i db = find (\<lambda>r. sp_id r = i) (purchases db)"

definition find_purchase_by_original :: "string \<Rightarrow> string \<Rightarrow> billing_db \<Rightarrow> purchase_row option" where
  "find_purchase_by_original platform orig db =
     (case sort_key sp_verified_at (filter (\<lambda>r. sp_platform r = platform \<and> sp_original_id r = orig) (purchases db)) of
        [] \<Rightarrow> None | r # rs \<Rightarrow> Some r)"

definition find_purchase_by_token_hash :: "string \<Rightarrow> string \<Rightarrow> billing_db \<Rightarrow> purchase_row option" where
  "find_purchase_by_token_hash platform h db =
     (case sort_key (\<lambda>r. - sp_verified_at r) (filter (\<lambda>r. sp_platform r = platform \<and> sp_token_hash r = Some h) (purchases db)) of
        [] \<Rightarrow> None | r # rs \<Rightarrow> Some r)"

text \<open>\<open>ON CONFLICT (platform, transaction_id) DO NOTHING\<close>: \<open>False\<close> when the row was there.\<close>

definition insert_store_purchase :: "purchase_row \<Rightarrow> billing_db \<Rightarrow> go_error + (bool \<times> billing_db)" where
  "insert_store_purchase r db =
     (if sp_platform r \<notin> set [ios, android] then Inl (constraint_error ''store_purchases_platform_check'')
      else if sp_kind r \<notin> set [consumable, subscription_kind] then Inl (constraint_error ''store_purchases_kind_check'')
      else if sp_environment r \<notin> set [production, ''sandbox''] then Inl (constraint_error ''store_purchases_environment_check'')
      else if get_store_purchase (sp_platform r) (sp_transaction_id r) db \<noteq> None then Inr (False, db)
      else if get_store_purchase_by_id (sp_id r) db \<noteq> None then Inl (constraint_error ''store_purchases_pkey'')
      else Inr (True, db\<lparr>purchases := purchases db @ [r]\<rparr>))"

definition set_store_purchase_grant :: "uuid \<Rightarrow> int \<Rightarrow> uuid \<Rightarrow> billing_db \<Rightarrow> billing_db" where
  "set_store_purchase_grant i credits lot db = db\<lparr>purchases := update_where (\<lambda>r. sp_id r = i)
     (\<lambda>r. r\<lparr>sp_credits := Some credits, sp_lot := Some lot\<rparr>) (purchases db)\<rparr>"

definition mark_purchase_finished :: "uuid \<Rightarrow> instant \<Rightarrow> billing_db \<Rightarrow> billing_db" where
  "mark_purchase_finished i now db = db\<lparr>purchases := update_where (\<lambda>r. sp_id r = i)
     (\<lambda>r. r\<lparr>sp_finished_at := Some (ts now), sp_finish_token := None\<rparr>) (purchases db)\<rparr>"

definition mark_purchase_refunded :: "uuid \<Rightarrow> instant \<Rightarrow> billing_db \<Rightarrow> billing_db" where
  "mark_purchase_refunded i now db = db\<lparr>purchases := update_where (\<lambda>r. sp_id r = i \<and> sp_refunded_at r = None)
     (\<lambda>r. r\<lparr>sp_refunded_at := Some (ts now), sp_finish_token := None\<rparr>) (purchases db)\<rparr>"

section \<open>Surroundings\<close>

text \<open>
  \<open>se_sha1\<close> is \<open>uuid.NewSHA1\<close> under \<open>AccountTokenNamespace\<close>. \<open>se_flags\<close> is the flag service, when one is
  wired, asked about \<open>billing.plans.visible\<close>: \<open>Allowlisted\<close> and \<open>Enabled\<close> for a user.
\<close>

record store_env =
  se_verify :: verifier
  se_finish :: finisher
  se_sha1 :: "string \<Rightarrow> uuid"
  se_google_package :: string
  se_apple_bundle :: string
  se_production :: bool
  se_flags :: "((string \<Rightarrow> go_error + bool) \<times> (string \<Rightarrow> go_error + bool)) option"

definition account_token :: "store_env \<Rightarrow> string \<Rightarrow> uuid" where
  "account_token se user = se_sha1 se (to_lower user)"

definition max_purchase_token :: nat where
  "max_purchase_token = 16384"

definition sandbox_allowed :: "store_env \<Rightarrow> string \<Rightarrow> bool" where
  "sandbox_allowed se user =
     (if \<not> se_production se then True
      else case se_flags se of None \<Rightarrow> False
        | Some (allowed, enabled) \<Rightarrow> (case allowed user of Inl err \<Rightarrow> False | Inr ok \<Rightarrow> ok))"

definition plans_visible_to :: "store_env \<Rightarrow> string \<Rightarrow> bool" where
  "plans_visible_to se user =
     (case se_flags se of None \<Rightarrow> False
      | Some (allowed, enabled) \<Rightarrow> (case enabled user of Inl err \<Rightarrow> False | Inr on \<Rightarrow> on))"

section \<open>Checking a purchase\<close>

definition verify_error :: "go_error \<Rightarrow> go_error" where
  "verify_error err =
     (if is_not_configured err then wrap1 ''billing: purchases cannot be verified right now'' ErrUnavailable
      else if is_unavailable err then wrap1 ''billing: purchases cannot be verified right now'' ErrUnavailable
      else wrap1 ''billing: this purchase could not be verified'' ErrInvalidInput)"

definition rejected :: "string \<Rightarrow> go_error option" where
  "rejected why = Some (wrap1 (''billing: this purchase could not be verified ('' @ why @ '')'') ErrInvalidInput)"

definition check_transaction ::
  "instant \<Rightarrow> store_env \<Rightarrow> string \<Rightarrow> string \<Rightarrow> product_row \<Rightarrow> store_tx \<Rightarrow> go_error option" where
  "check_transaction now se user platform p tr =
     (if tr_product_id tr \<noteq> pr_id p then rejected ''a different product''
      else if tr_app_id tr \<noteq> (if platform = ios then se_apple_bundle se else se_google_package se)
      then rejected ''another app''
      else if tr_environment tr \<noteq> production \<and> \<not> sandbox_allowed se user then rejected ''a sandbox purchase''
      else if tr_account_token tr \<noteq> account_token se user
      then Some (wrap1 ''billing: this purchase belongs to another account'' ErrForbidden)
      else if tr_revoked tr then rejected ''refunded or revoked''
      else if tr_pending tr then Some (wrap1 ''billing: this purchase is still pending with the store'' ErrConflict)
      else if pr_kind p = subscription_kind \<and>
        (case tr_expires_at tr of None \<Rightarrow> True | Some x \<Rightarrow> \<not> time_after x now)
      then rejected ''an expired subscription''
      else None)"

section \<open>Recording and granting\<close>

text \<open>\<open>uuid.MustParse\<close> panics on a token that is no UUID; the transaction is then rolled back.\<close>

definition record_purchase ::
  "(string \<Rightarrow> uuid option) \<Rightarrow> uuid \<Rightarrow> product_row \<Rightarrow> store_tx \<Rightarrow> string \<Rightarrow> tx \<Rightarrow> go_error + ((purchase_row \<times> bool) \<times> tx)" where
  "record_purchase parse u p tr finish_token t =
     (case parse (tr_account_token tr) of
        None \<Rightarrow> Inl (Panic ''uuid: Parse: invalid UUID'')
      | Some account \<Rightarrow>
        let (pid, t) = draw_uuid t;
            row = \<lparr>sp_id = pid, sp_user = u, sp_platform = tr_platform tr, sp_transaction_id = tr_transaction_id tr,
              sp_original_id = tr_original_id tr, sp_token_hash = null_text (tr_token_hash tr),
              sp_product_id = pr_id p, sp_kind = pr_kind p, sp_account_token = account,
              sp_environment = tr_environment tr, sp_credits = None, sp_lot = None,
              sp_raw = (if tr_raw tr = [] then ''{}'' else tr_raw tr), sp_verified_at = ts (tx_now t),
              sp_finish_token = null_text finish_token, sp_finished_at = None, sp_refunded_at = None\<rparr> in
        (case insert_store_purchase row (tx_db t) of
           Inl err \<Rightarrow> Inl (Wrap ''billing: record purchase'' [err])
         | Inr (False, db) \<Rightarrow>
             (case get_store_purchase (tr_platform tr) (tr_transaction_id tr) db of
                None \<Rightarrow> Inl (Wrap ''billing: read repeated purchase'' [no_rows])
              | Some r \<Rightarrow>
                  if sp_user r \<noteq> u then Inl (wrap1 ''billing: this purchase belongs to another account'' ErrForbidden)
                  else Inr ((r, True), t\<lparr>tx_db := db\<rparr>))
         | Inr (True, db) \<Rightarrow>
             let db = insert_billing_outbox ''purchase.verified''
                   (PurchaseVerified u (tr_platform tr) (pr_kind p) (pr_id p)) db;
                 db = (if finish_token \<noteq> [] then insert_billing_outbox ''store.finish'' (StoreFinish pid) db else db) in
             Inr ((row, False), t\<lparr>tx_db := db\<rparr>)))"

definition purchase_grant :: "uuid \<Rightarrow> int \<Rightarrow> grant_input" where
  "purchase_grant pid amount = \<lparr>gi_kind = KindPurchase, gi_amount = amount, gi_expires_at = None, gi_decay = None,
     gi_source_ref = pid, gi_reason = None, gi_key = ''purchase:'' @ pid, gi_ref_type = ''store_purchase'',
     gi_ref_id = pid, gi_operator = [], gi_note = []\<rparr>"

text \<open>The transaction of \<open>grantPack\<close>: the purchase, the credits it is worth, and whether it is a repeat.\<close>

definition grant_pack_tx ::
  "(string \<Rightarrow> uuid option) \<Rightarrow> uuid \<Rightarrow> product_row \<Rightarrow> store_tx \<Rightarrow> string \<Rightarrow> tx \<Rightarrow> go_error + ((uuid \<times> int \<times> bool) \<times> tx)" where
  "grant_pack_tx parse u p tr finish_token t =
     res_bind (record_purchase parse u p tr finish_token t) (\<lambda>((row, repeat), t).
     if repeat then Inr ((sp_id row, case sp_credits row of None \<Rightarrow> 0 | Some c \<Rightarrow> c, True), t)
     else let granted = i64 ((case pr_credits p of None \<Rightarrow> 0 | Some c \<Rightarrow> c) + pr_bonus p) in
       res_bind (grant (purchase_grant (sp_id row) granted) t) (\<lambda>(lot, t).
       Inr ((sp_id row, granted, False), t\<lparr>tx_db := set_store_purchase_grant (sp_id row) granted lot (tx_db t)\<rparr>)))"

definition period_start :: "instant \<Rightarrow> string \<Rightarrow> instant \<Rightarrow> instant \<Rightarrow> instant" where
  "period_start end_t period purchased now =
     (let start = (if period = ''year'' then add_months end_t (- 12) else add_months end_t (- 1));
          start = (if time_after purchased start \<and> time_before purchased end_t then purchased else start) in
      if time_after start now then now else start)"

definition err_other_account :: go_error where
  "err_other_account = wrap1 ''billing: this subscription belongs to another account'' ErrForbidden"

text \<open>The transaction of \<open>activateSubscription\<close>: a later period already stored is kept.\<close>

definition next_for_purchase ::
  "subscription_row option \<Rightarrow> instant \<Rightarrow> instant \<Rightarrow> product_row \<Rightarrow> store_tx \<Rightarrow> next_subscription" where
  "next_for_purchase cur start end_t p tr =
     (let (start, end_t) = (case cur of
            None \<Rightarrow> (start, end_t)
          | Some c \<Rightarrow> if text_or_empty (sr_original_transaction_id c) = tr_original_id tr \<and> time_after (sr_period_end c) end_t
              then (sr_period_start c, sr_period_end c) else (start, end_t)) in
      \<lparr>ns_plan_code = text_or_empty (pr_plan_code p), ns_status = ''active'', ns_platform = tr_platform tr,
       ns_original_transaction_id = tr_original_id tr, ns_product_id = pr_id p, ns_period_start = start,
       ns_period_end = end_t, ns_grace_period_end = None, ns_auto_renew = tr_auto_renew tr\<rparr>)"

definition activate_tx ::
  "(string \<Rightarrow> uuid option) \<Rightarrow> instant \<Rightarrow> instant \<Rightarrow> uuid \<Rightarrow> product_row \<Rightarrow> store_tx \<Rightarrow> string \<Rightarrow> tx \<Rightarrow>
    go_error + ((uuid \<times> bool) \<times> tx)" where
  "activate_tx parse start end_t u p tr finish_token t =
     (if (case find_purchase_by_original (tr_platform tr) (tr_original_id tr) (tx_db t) of
            None \<Rightarrow> False | Some owner \<Rightarrow> sp_user owner \<noteq> u)
      then Inl err_other_account
      else res_bind (record_purchase parse u p tr finish_token t) (\<lambda>((row, repeat), t).
        let cur = lock_subscription u (tx_db t) in
        res_bind (write_subscription u cur (next_for_purchase cur start end_t p tr) (tx_now t) (tx_db t)) (\<lambda>db.
        Inr ((sp_id row, repeat), t\<lparr>tx_db := db\<rparr>))))"

definition grant_pack ::
  "'raw env \<Rightarrow> uuid \<Rightarrow> product_row \<Rightarrow> store_tx \<Rightarrow> string \<Rightarrow> service \<Rightarrow> (go_error + (uuid \<times> int \<times> bool)) \<times> service" where
  "grant_pack e u p tr finish_token sv =
     (let (a, sv) = service_do e 2 u (grant_pack_tx (e_parse e) u p tr finish_token) sv in (answered a, sv))"

definition activate_subscription ::
  "'raw env \<Rightarrow> string \<Rightarrow> uuid \<Rightarrow> product_row \<Rightarrow> store_tx \<Rightarrow> string \<Rightarrow> service \<Rightarrow> (go_error + (uuid \<times> bool)) \<times> service" where
  "activate_subscription e user u p tr finish_token sv =
     (case tr_expires_at tr of
        None \<Rightarrow> (Inl (Panic ''nil pointer dereference''), sv)
      | Some end_t \<Rightarrow>
        let start = period_start end_t (text_or_empty (pr_period p)) (tr_purchased_at tr) (e_now e);
            (a, sv) = service_do e 2 user (activate_tx (e_parse e) start end_t u p tr finish_token) sv in
        (answered a, sv))"

section \<open>Finishing with Google\<close>

definition finish_purchase :: "'raw env \<Rightarrow> store_env \<Rightarrow> uuid \<Rightarrow> service \<Rightarrow> go_error option \<times> service" where
  "finish_purchase e se pid sv =
     (case get_store_purchase_by_id pid (sv_db sv) of
        None \<Rightarrow> (None, sv)
      | Some r \<Rightarrow> (case sp_finish_token r of
            None \<Rightarrow> (None, sv)
          | Some token \<Rightarrow>
              if sp_finished_at r \<noteq> None \<or> sp_refunded_at r \<noteq> None then (None, sv)
              else (case se_finish se (sp_platform r) (sp_kind r) (sp_product_id r) token of
                  Some err \<Rightarrow> (Some (Wrap (''billing: finish purchase '' @ pid) [err]), sv)
                | None \<Rightarrow> (None, sv\<lparr>sv_db := mark_purchase_finished pid (e_now e) (sv_db sv)\<rparr>))))"

text \<open>
  The consumer of \<open>billing_outbox\<close>: \<open>decode\<close> is \<open>json.Unmarshal\<close> of a \<open>store.finish\<close> payload to its purchase id.
\<close>

definition handle_outbox_event ::
  "'raw env \<Rightarrow> store_env \<Rightarrow> ('j \<Rightarrow> go_error + string) \<Rightarrow> string \<Rightarrow> 'j \<Rightarrow> service \<Rightarrow> go_error option \<times> service" where
  "handle_outbox_event e se decode topic payload sv =
     (if topic \<noteq> ''store.finish'' then (None, sv)
      else case decode payload of
        Inl err \<Rightarrow> (Some (Wrap ''billing: decode store.finish'' [err]), sv)
      | Inr pid \<Rightarrow> (case e_parse e pid of
            None \<Rightarrow> (Some (Wrap ''billing: store.finish purchase id'' [PkgError ''invalid UUID'']), sv)
          | Some u \<Rightarrow> finish_purchase e se u sv))"

section \<open>The subscription page\<close>

record subscription_view =
  sw_status :: string
  sw_plan_code :: string
  sw_platform :: string
  sw_product_id :: string
  sw_period_end :: "instant option"
  sw_auto_renew :: bool
  sw_entitled :: bool

definition get_subscription_view :: "uuid \<Rightarrow> billing_db \<Rightarrow> subscription_row option" where
  "get_subscription_view u db = (case find (\<lambda>s. sr_user s = u) (subscriptions db) of
     None \<Rightarrow> None | Some s \<Rightarrow> if get_plan (sr_plan_code s) db = None then None else Some s)"

definition subscription_of :: "'raw env \<Rightarrow> caller \<Rightarrow> service \<Rightarrow> go_error + subscription_view" where
  "subscription_of e ca sv =
     (case parse_user e (ca_user ca) of Inl err \<Rightarrow> Inl err | Inr u \<Rightarrow>
      (case get_subscription_view u (sv_db sv) of
         None \<Rightarrow> Inr \<lparr>sw_status = ''none'', sw_plan_code = [], sw_platform = [], sw_product_id = [],
           sw_period_end = None, sw_auto_renew = False, sw_entitled = False\<rparr>
       | Some s \<Rightarrow> Inr \<lparr>sw_status = sr_status s, sw_plan_code = sr_plan_code s, sw_platform = sr_platform s,
           sw_product_id = text_or_empty (sr_product_id s), sw_period_end = Some (sr_period_end s),
           sw_auto_renew = sr_auto_renew s,
           sw_entitled = entitled_at (sr_status s) (sr_period_start s) (sr_period_end s) (sr_grace_period_end s) (e_now e)\<rparr>))"

section \<open>Verifying\<close>

record purchase_request =
  pq_platform :: string
  pq_product :: string
  pq_token :: string

record purchase_result =
  px_kind :: string
  px_product :: string
  px_credits :: int
  px_already :: bool
  px_wallet :: wallet_view
  px_subscription :: subscription_view

text \<open>Granting, and then telling Google, whose failure is left to the outbox.\<close>

definition grant_verified ::
  "'raw env \<Rightarrow> store_env \<Rightarrow> caller \<Rightarrow> uuid \<Rightarrow> purchase_request \<Rightarrow> product_row \<Rightarrow> store_tx \<Rightarrow> service \<Rightarrow>
    (go_error + (int \<times> bool)) \<times> service" where
  "grant_verified e se ca u q p tr sv =
     (let finish_token = (if pq_platform q = android then pq_token q else []);
          (a, sv) = (if pr_kind p = consumable then grant_pack e u p tr finish_token sv
            else case activate_subscription e (ca_user ca) u p tr finish_token sv of
                (Inl err, sv) \<Rightarrow> (Inl err, sv) | (Inr (pid, repeat), sv) \<Rightarrow> (Inr (pid, 0, repeat), sv)) in
      case a of
        Inl err \<Rightarrow> (Inl err, sv)
      | Inr (pid, granted, repeat) \<Rightarrow>
          (Inr (granted, repeat), if pq_platform q = android then snd (finish_purchase e se pid sv) else sv))"

definition verify_purchase ::
  "'raw env \<Rightarrow> store_env \<Rightarrow> caller \<Rightarrow> purchase_request \<Rightarrow> service \<Rightarrow> (go_error + purchase_result) \<times> service" where
  "verify_purchase e se ca q sv =
     (case parse_user e (ca_user ca) of Inl err \<Rightarrow> (Inl err, sv) | Inr u \<Rightarrow>
      if pq_platform q \<noteq> ios \<and> pq_platform q \<noteq> android
      then (Inl (wrap1 ''billing: platform must be ios or android'' ErrInvalidInput), sv)
      else if pq_token q = [] \<or> length (pq_token q) > max_purchase_token
      then (Inl (wrap1 ''billing: a purchase token is required'' ErrInvalidInput), sv)
      else case get_store_product (pq_product q) (sv_db sv) of
        None \<Rightarrow> (Inl (wrap1 (''billing: \"'' @ pq_product q @ ''\" is not something TieHere sells'') ErrInvalidInput), sv)
      | Some p \<Rightarrow> (case se_verify se \<lparr>sq_platform = pq_platform q, sq_kind = pr_kind p, sq_product = pr_id p,
              sq_token = pq_token q\<rparr> of
          Inl err \<Rightarrow> (Inl (verify_error err), sv)
        | Inr tr \<Rightarrow> (case check_transaction (e_now e) se (ca_user ca) (pq_platform q) p tr of
            Some err \<Rightarrow> (Inl err, sv)
          | None \<Rightarrow> (case grant_verified e se ca u q p tr sv of
              (Inl err, sv) \<Rightarrow> (Inl err, sv)
            | (Inr (granted, repeat), sv) \<Rightarrow> (case get_wallet_view e ca sv of
                (Inl err, sv) \<Rightarrow> (Inl err, sv)
              | (Inr w, sv) \<Rightarrow> (case subscription_of e ca sv of
                  Inl err \<Rightarrow> (Inl err, sv)
                | Inr s \<Rightarrow> (Inr \<lparr>px_kind = pr_kind p, px_product = pr_id p, px_credits = granted,
                    px_already = repeat, px_wallet = w, px_subscription = s\<rparr>, sv)))))))"

section \<open>The catalog\<close>

record credit_pack =
  cp_product :: string
  cp_credits :: int
  cp_bonus :: int
  cp_badge :: string
  cp_sort :: int

record catalog_plan =
  cl_code :: string
  cl_product_ids :: "(string \<times> string) list"
  cl_period :: string
  cl_title :: string
  cl_perks :: "string list"
  cl_featured :: bool

record catalog_config =
  cc_version :: int
  cc_terms_url :: string
  cc_privacy_url :: string

record catalog =
  ct_version :: int
  ct_packs :: "credit_pack list"
  ct_visible :: bool
  ct_plans :: "catalog_plan list"
  ct_terms_url :: string
  ct_privacy_url :: string
  ct_account_token :: string

text \<open>\<open>ListCatalogProducts\<close>: \<open>LEFT JOIN\<close> of a product with its plan.\<close>

definition list_catalog_products :: "billing_db \<Rightarrow> (product_row \<times> plan_row option) list" where
  "list_catalog_products db =
     (let joined = map (\<lambda>p. (p, case pr_plan_code p of None \<Rightarrow> None | Some c \<Rightarrow> get_plan c db)) (products db) in
      sort_key (\<lambda>(p, pl). (pr_sort p, pr_id p))
        (filter (\<lambda>(p, pl). pr_active p \<and> (pr_plan_code p = None \<or> (case pl of None \<Rightarrow> False | Some x \<Rightarrow> pl_active x))) joined))"

text \<open>The loop over the rows; \<open>decode\<close> is \<open>json.Unmarshal\<close> of a plan's perks.\<close>

fun catalog_rows ::
  "(string \<Rightarrow> go_error + string list) \<Rightarrow> (product_row \<times> plan_row option) list \<Rightarrow> catalog \<Rightarrow> go_error + catalog" where
  "catalog_rows decode [] c = Inr c"
| "catalog_rows decode ((p, pl) # rows) c =
     (if pr_kind p = consumable
      then catalog_rows decode rows (c\<lparr>ct_packs := ct_packs c @ [\<lparr>cp_product = pr_id p,
             cp_credits = i64 ((case pr_credits p of None \<Rightarrow> 0 | Some n \<Rightarrow> n) + pr_bonus p), cp_bonus = pr_bonus p,
             cp_badge = text_or_empty (pr_badge p), cp_sort = pr_sort p\<rparr>]\<rparr>)
      else if pr_kind p = subscription_kind \<and> ct_visible c
      then (case decode (case pl of None \<Rightarrow> ''[]'' | Some x \<Rightarrow> pl_perks x) of
          Inl err \<Rightarrow> Inl (Wrap (''billing: plan '' @ text_or_empty (pr_plan_code p) @ '' perks'') [err])
        | Inr perks \<Rightarrow> catalog_rows decode rows (c\<lparr>ct_plans := ct_plans c @ [\<lparr>cl_code = text_or_empty (pr_plan_code p),
             cl_product_ids = [(ios, pr_id p), (android, pr_id p)], cl_period = text_or_empty (pr_period p),
             cl_title = (case pl of None \<Rightarrow> [] | Some x \<Rightarrow> pl_title x), cl_perks = perks, cl_featured = pr_featured p\<rparr>]\<rparr>))
      else catalog_rows decode rows c)"

definition get_catalog ::
  "'raw env \<Rightarrow> store_env \<Rightarrow> catalog_config \<Rightarrow> (string \<Rightarrow> go_error + string list) \<Rightarrow> string \<Rightarrow> service \<Rightarrow> go_error + catalog" where
  "get_catalog e se cfg decode user sv =
     catalog_rows decode (list_catalog_products (sv_db sv))
       \<lparr>ct_version = cc_version cfg, ct_packs = [], ct_visible = plans_visible_to se user, ct_plans = [],
        ct_terms_url = cc_terms_url cfg, ct_privacy_url = cc_privacy_url cfg,
        ct_account_token = (if user \<noteq> [] \<and> e_parse e user \<noteq> None then account_token se user else [])\<rparr>"

end
