(* ===== verification/Webhooks.thy ===== *)
theory Webhooks
  imports Purchases
begin

text \<open>
  The store webhooks of \<open>billing/notifications.go\<close>. What a verified notification says is a record
  (\<open>apple.Notification\<close>, \<open>google.Notification\<close>); the signature and push checks and the decoders are
  arguments.
\<close>

section \<open>Notices\<close>

definition max_notification :: nat where "max_notification = 262144"

definition outcome_applied :: string where "outcome_applied = ''applied''"
definition outcome_refunded :: string where "outcome_refunded = ''refunded''"
definition outcome_ignored :: string where "outcome_ignored = ''ignored''"
definition outcome_unknown :: string where "outcome_unknown = ''unknown_purchase''"
definition outcome_other_app :: string where "outcome_other_app = ''other_app''"
definition outcome_test :: string where "outcome_test = ''test''"
definition outcome_stale :: string where "outcome_stale = ''stale''"

lemmas outcome_words = outcome_applied_def outcome_refunded_def outcome_ignored_def outcome_unknown_def
  outcome_other_app_def outcome_test_def outcome_stale_def

record notice =
  nt_platform :: string
  nt_id :: string
  nt_type :: string
  nt_subtype :: string

record sub_change =
  cg_status :: string
  cg_period_start :: "instant option"
  cg_period_end :: "instant option"
  cg_grace_end :: "instant option"
  cg_auto_renew :: "bool option"
  cg_as_of :: "instant option"

definition no_change :: sub_change where
  "no_change = \<lparr>cg_status = [], cg_period_start = None, cg_period_end = None, cg_grace_end = None,
     cg_auto_renew = None, cg_as_of = None\<rparr>"

text \<open>\<open>InsertProcessedNotification\<close>: zero rows when the notification was handled before.\<close>

definition insert_notice :: "notice_row \<Rightarrow> billing_db \<Rightarrow> go_error + (nat \<times> billing_db)" where
  "insert_notice r db =
     (if nr_platform r \<notin> set [ios, android] then Inl (constraint_error ''processed_store_notifications_platform_check'')
      else if list_ex (\<lambda>x. nr_platform x = nr_platform r \<and> nr_id x = nr_id r) (notices db) then Inr (0, db)
      else Inr (1, db\<lparr>notices := notices db @ [r]\<rparr>))"

definition count_notices :: "string \<Rightarrow> string \<Rightarrow> billing_db \<Rightarrow> nat" where
  "count_notices platform i db = length (filter (\<lambda>x. nr_platform x = platform \<and> nr_id x = i) (notices db))"

definition record_notice :: "notice \<Rightarrow> string \<Rightarrow> billing_db \<Rightarrow> go_error + (bool \<times> billing_db)" where
  "record_notice nt outcome db =
     (case insert_notice \<lparr>nr_platform = nt_platform nt, nr_id = nt_id nt, nr_type = nt_type nt,
            nr_subtype = null_text (nt_subtype nt), nr_outcome = outcome\<rparr> db of
        Inl err \<Rightarrow> Inl (Wrap ''billing: record notification'' [err])
      | Inr (n, db) \<Rightarrow> Inr (n = 1, db))"

definition record_only :: "notice \<Rightarrow> string \<Rightarrow> service \<Rightarrow> (go_error + bool) \<times> service" where
  "record_only nt outcome sv =
     (case record_notice nt outcome (sv_db sv) of
        Inl err \<Rightarrow> (Inl err, sv) | Inr (isnew, db) \<Rightarrow> (Inr isnew, sv\<lparr>sv_db := db\<rparr>))"

definition seen_notice :: "notice \<Rightarrow> service \<Rightarrow> bool" where
  "seen_notice nt sv = (count_notices (nt_platform nt) (nt_id nt) (sv_db sv) > 0)"

section \<open>Changing a subscription\<close>

definition product_period :: "billing_db \<Rightarrow> string \<Rightarrow> string" where
  "product_period db p = (case get_store_product p db of
     Some r \<Rightarrow> (case pr_period r of Some x \<Rightarrow> x | None \<Rightarrow> ''month'') | None \<Rightarrow> ''month'')"

definition time_or :: "instant option \<Rightarrow> instant" where
  "time_or t = (case t of None \<Rightarrow> zero_time | Some x \<Rightarrow> x)"

definition from_stored :: "subscription_row \<Rightarrow> next_subscription" where
  "from_stored r = \<lparr>ns_plan_code = sr_plan_code r, ns_status = sr_status r, ns_platform = sr_platform r,
     ns_original_transaction_id = text_or_empty (sr_original_transaction_id r),
     ns_product_id = text_or_empty (sr_product_id r), ns_period_start = sr_period_start r,
     ns_period_end = sr_period_end r, ns_grace_period_end = sr_grace_period_end r,
     ns_auto_renew = sr_auto_renew r\<rparr>"

definition change_outcome :: "subscription_row option \<Rightarrow> string \<Rightarrow> sub_change \<Rightarrow> string" where
  "change_outcome cur orig c =
     (case cur of
        None \<Rightarrow> outcome_ignored
      | Some r \<Rightarrow>
          if text_or_empty (sr_original_transaction_id r) \<noteq> orig then outcome_ignored
          else case cg_as_of c of
              Some x \<Rightarrow> if cg_status c \<noteq> ''active'' \<and> time_before x (time_add (sr_period_end r) (- second))
                then outcome_stale else outcome_applied
            | None \<Rightarrow> outcome_applied)"

definition changed_subscription :: "billing_db \<Rightarrow> instant \<Rightarrow> subscription_row \<Rightarrow> sub_change \<Rightarrow> next_subscription" where
  "changed_subscription db now cur c =
     (let n = from_stored cur;
          n = (if cg_status c \<noteq> [] then n\<lparr>ns_status := cg_status c\<rparr> else n);
          n = (case cg_period_end c of
              Some x \<Rightarrow> if time_after x (ns_period_end n)
                then n\<lparr>ns_period_end := x,
                  ns_period_start := period_start x (product_period db (ns_product_id n)) (time_or (cg_period_start c)) now\<rparr>
                else n
            | None \<Rightarrow> n);
          n = (if cg_status c \<noteq> [] \<and> cg_status c \<noteq> ''grace_period'' then n\<lparr>ns_grace_period_end := None\<rparr> else n);
          n = (case cg_grace_end c of Some g \<Rightarrow> n\<lparr>ns_grace_period_end := Some g\<rparr> | None \<Rightarrow> n) in
      case cg_auto_renew c of Some b \<Rightarrow> n\<lparr>ns_auto_renew := b\<rparr> | None \<Rightarrow> n)"

definition change_tx :: "notice \<Rightarrow> string \<Rightarrow> sub_change \<Rightarrow> uuid \<Rightarrow> tx \<Rightarrow> go_error + (bool \<times> tx)" where
  "change_tx nt orig c owner t =
     (let cur = lock_subscription owner (tx_db t); outcome = change_outcome cur orig c in
      res_bind (record_notice nt outcome (tx_db t)) (\<lambda>(isnew, db).
      if \<not> isnew \<or> outcome \<noteq> outcome_applied then Inr (isnew, t\<lparr>tx_db := db\<rparr>)
      else case cur of
          None \<Rightarrow> Inr (isnew, t\<lparr>tx_db := db\<rparr>)
        | Some r \<Rightarrow> res_bind (write_subscription owner cur (changed_subscription db (tx_now t) r c) (tx_now t) db) (\<lambda>db.
            Inr (isnew, t\<lparr>tx_db := db\<rparr>))))"

definition apply_subscription_change ::
  "'raw env \<Rightarrow> notice \<Rightarrow> string \<Rightarrow> sub_change \<Rightarrow> service \<Rightarrow> (go_error + bool) \<times> service" where
  "apply_subscription_change e nt orig c sv =
     (case find_purchase_by_original (nt_platform nt) orig (sv_db sv) of
        None \<Rightarrow> record_only nt outcome_unknown sv
      | Some p \<Rightarrow> let (a, sv) = service_do e 2 (sp_user p) (change_tx nt orig c (sp_user p)) sv in (answered a, sv))"

section \<open>A refunded pack\<close>

definition refund_pack_tx :: "notice \<Rightarrow> uuid \<Rightarrow> tx \<Rightarrow> go_error + (bool \<times> tx)" where
  "refund_pack_tx nt pid t =
     res_bind (record_notice nt outcome_refunded (tx_db t)) (\<lambda>(isnew, db).
     if \<not> isnew then Inr (False, t\<lparr>tx_db := db\<rparr>)
     else case lock_store_purchase pid db of
         None \<Rightarrow> Inl (Wrap ''billing: lock refunded purchase'' [no_rows])
       | Some r \<Rightarrow> (case sp_lot r of
             None \<Rightarrow> Inr (True, t\<lparr>tx_db := db\<rparr>)
           | Some lot \<Rightarrow>
               if sp_refunded_at r \<noteq> None then Inr (True, t\<lparr>tx_db := db\<rparr>)
               else res_bind (revoke_lot lot (''store_refund:'' @ pid) ''store_purchase'' pid (t\<lparr>tx_db := db\<rparr>)) (\<lambda>(removed, debt, t).
                 Inr (True, t\<lparr>tx_db := mark_purchase_refunded pid (tx_now t) (tx_db t)\<rparr>))))"

definition refund_pack :: "'raw env \<Rightarrow> notice \<Rightarrow> purchase_row \<Rightarrow> service \<Rightarrow> (go_error + bool) \<times> service" where
  "refund_pack e nt p sv =
     (let (a, sv) = service_do e 2 (sp_user p) (refund_pack_tx nt (sp_id p)) sv in (answered a, sv))"

section \<open>Apple\<close>

record apple_notification =
  an_id :: string
  an_type :: string
  an_subtype :: string
  an_bundle :: string
  an_tx :: "store_tx option"
  an_grace_end :: "instant option"
  an_auto_renew :: "bool option"

definition apple_change :: "apple_notification \<Rightarrow> store_tx \<Rightarrow> sub_change option" where
  "apple_change n tr =
     (if an_type n = ''SUBSCRIBED'' \<or> an_type n = ''DID_RENEW''
      then (if tr_expires_at tr = None then None
        else Some (no_change\<lparr>cg_status := ''active'', cg_period_end := tr_expires_at tr, cg_auto_renew := an_auto_renew n,
               cg_period_start := (if tr_purchased_at tr = zero_time then None else Some (tr_purchased_at tr))\<rparr>))
      else if an_type n = ''DID_CHANGE_RENEWAL_STATUS''
      then Some (no_change\<lparr>cg_auto_renew := Some (an_subtype n = ''AUTO_RENEW_ENABLED'')\<rparr>)
      else if an_type n = ''DID_FAIL_TO_RENEW''
      then (if an_subtype n = ''GRACE_PERIOD''
        then Some (no_change\<lparr>cg_status := ''grace_period'', cg_grace_end := an_grace_end n, cg_as_of := tr_expires_at tr\<rparr>)
        else Some (no_change\<lparr>cg_status := ''past_due'', cg_as_of := tr_expires_at tr\<rparr>))
      else if an_type n = ''GRACE_PERIOD_EXPIRED'' \<or> an_type n = ''EXPIRED''
      then Some (no_change\<lparr>cg_status := ''expired'', cg_as_of := tr_expires_at tr\<rparr>)
      else if an_type n = ''REFUND'' \<or> an_type n = ''REVOKE''
      then Some (no_change\<lparr>cg_status := ''revoked'', cg_as_of := tr_expires_at tr\<rparr>)
      else None)"

definition apple_event :: "'raw env \<Rightarrow> store_env \<Rightarrow> apple_notification \<Rightarrow> service \<Rightarrow> (go_error + bool) \<times> service" where
  "apple_event e se n sv =
     (let nt = \<lparr>nt_platform = ios, nt_id = an_id n, nt_type = an_type n, nt_subtype = an_subtype n\<rparr> in
      if an_type n = ''TEST'' then record_only nt outcome_test sv
      else if an_bundle n \<noteq> [] \<and> an_bundle n \<noteq> se_apple_bundle se then record_only nt outcome_other_app sv
      else case an_tx n of
          None \<Rightarrow> record_only nt outcome_ignored sv
        | Some tr \<Rightarrow>
            let pack = (if an_type n = ''REFUND'' \<or> an_type n = ''REVOKE''
                  then get_store_purchase ios (tr_transaction_id tr) (sv_db sv) else None) in
            (case (if (case pack of None \<Rightarrow> False | Some p \<Rightarrow> sp_kind p = consumable) then pack else None) of
               Some p \<Rightarrow> refund_pack e nt p sv
             | None \<Rightarrow> (case apple_change n tr of
                   None \<Rightarrow> record_only nt outcome_ignored sv
                 | Some c \<Rightarrow> apply_subscription_change e nt (tr_original_id tr) c sv)))"

text \<open>\<open>roots\<close> is the parser under the configured Apple roots, if there are any.\<close>

definition handle_apple ::
  "'raw env \<Rightarrow> store_env \<Rightarrow> (string \<Rightarrow> go_error + apple_notification) option \<Rightarrow> string \<Rightarrow> service \<Rightarrow> (go_error + bool) \<times> service" where
  "handle_apple e se roots payload sv =
     (if payload = [] \<or> length payload > max_notification
      then (Inl (wrap1 ''billing: no notification'' ErrInvalidInput), sv)
      else case roots of
        None \<Rightarrow> (Inl (wrap1 ''billing: apple notifications are not configured'' ErrUnavailable), sv)
      | Some parse \<Rightarrow> (case parse payload of
            Inl err \<Rightarrow> (Inl (if errors_is_pkg err ''apple: notification signature does not verify''
              then wrap1 ''billing: notification signature does not verify'' ErrUnauthorized
              else wrap1 ''billing: unreadable apple notification'' ErrInvalidInput), sv)
          | Inr n \<Rightarrow> apple_event e se n sv))"

section \<open>Google\<close>

record google_subscription =
  gs_type :: int
  gs_product :: string
  gs_token_hash :: string
  gs_token :: string

record google_voided =
  gv_token_hash :: string
  gv_order_id :: string
  gv_product_type :: int

record google_notification =
  gn_id :: string
  gn_package :: string
  gn_subscription :: "google_subscription option"
  gn_voided :: "google_voided option"
  gn_test :: bool

definition google_voided_event :: "'raw env \<Rightarrow> notice \<Rightarrow> google_voided \<Rightarrow> service \<Rightarrow> (go_error + bool) \<times> service" where
  "google_voided_event e nt v sv =
     (case (case find_purchase_by_token_hash android (gv_token_hash v) (sv_db sv) of
          Some p \<Rightarrow> Some p
        | None \<Rightarrow> if gv_order_id v \<noteq> [] then get_store_purchase android (gv_order_id v) (sv_db sv) else None) of
        None \<Rightarrow> record_only nt outcome_unknown sv
      | Some p \<Rightarrow>
          if sp_kind p = consumable then refund_pack e nt p sv
          else apply_subscription_change e nt (sp_original_id p) (no_change\<lparr>cg_status := ''revoked''\<rparr>) sv)"

definition google_extends :: "int \<Rightarrow> bool" where
  "google_extends k \<longleftrightarrow> k \<in> set [1, 2, 4, 7, 6]"

definition google_ends :: "int \<Rightarrow> bool" where
  "google_ends k \<longleftrightarrow> k \<in> set [5, 10, 13]"

definition refresh_failed :: "go_error \<Rightarrow> go_error" where
  "refresh_failed err = Wrap ''billing: refresh google subscription'' [Sentinel ErrUnavailable, err]"

definition google_subscription_event ::
  "'raw env \<Rightarrow> store_env \<Rightarrow> notice \<Rightarrow> google_subscription \<Rightarrow> service \<Rightarrow> (go_error + bool) \<times> service" where
  "google_subscription_event e se nt g sv =
     (if seen_notice nt sv then (Inr False, sv)
      else let ask = se_verify se \<lparr>sq_platform = android, sq_kind = subscription_kind, sq_product = gs_product g, sq_token = gs_token g\<rparr>;
          change = (\<lambda>c. apply_subscription_change e nt (gs_token_hash g) c sv) in
      if google_extends (gs_type g)
      then (case ask of
          Inl err \<Rightarrow> if is_unavailable err \<or> is_not_configured err then (Inl (refresh_failed err), sv)
            else record_only nt outcome_ignored sv
        | Inr tr \<Rightarrow>
            if tr_expires_at tr = None then record_only nt outcome_ignored sv
            else let c = no_change\<lparr>cg_status := ''active'', cg_period_end := tr_expires_at tr, cg_auto_renew := Some (tr_auto_renew tr)\<rparr> in
              change (if gs_type g = 6 then c\<lparr>cg_status := ''grace_period'', cg_grace_end := tr_expires_at tr\<rparr> else c))
      else if gs_type g = 3 then change (no_change\<lparr>cg_auto_renew := Some False\<rparr>)
      else if google_ends (gs_type g)
      then (case ask of
          Inl err \<Rightarrow> if is_unavailable err \<or> is_not_configured err then (Inl (refresh_failed err), sv)
            else change (no_change\<lparr>cg_status := if gs_type g = 13 then ''expired'' else ''past_due''\<rparr>)
        | Inr tr \<Rightarrow>
            if (case tr_expires_at tr of None \<Rightarrow> False | Some x \<Rightarrow> time_after x (e_now e)) \<and> \<not> tr_revoked tr
            then record_only nt outcome_stale sv
            else change (no_change\<lparr>cg_status := if gs_type g = 13 then ''expired'' else ''past_due''\<rparr>))
      else if gs_type g = 12 then change (no_change\<lparr>cg_status := ''revoked''\<rparr>)
      else record_only nt outcome_ignored sv)"

definition google_event :: "'raw env \<Rightarrow> store_env \<Rightarrow> google_notification \<Rightarrow> service \<Rightarrow> (go_error + bool) \<times> service" where
  "google_event e se n sv =
     (let nt = (\<lambda>typ. \<lparr>nt_platform = android, nt_id = gn_id n, nt_type = typ, nt_subtype = []\<rparr>) in
      if gn_test n then record_only (nt ''test'') outcome_test sv
      else if gn_package n \<noteq> se_google_package se then record_only (nt ''other_app'') outcome_other_app sv
      else case gn_voided n of
          Some v \<Rightarrow> google_voided_event e (nt (''voided:'' @ string_of_int (gv_product_type v))) v sv
        | None \<Rightarrow> (case gn_subscription n of
            Some g \<Rightarrow> google_subscription_event e se (nt (''subscription:'' @ string_of_int (gs_type g))) g sv
          | None \<Rightarrow> record_only (nt ''other'') outcome_ignored sv))"

text \<open>\<open>push\<close> is the push verifier, if one is configured; \<open>parse\<close> decodes a message.\<close>

definition handle_google ::
  "'raw env \<Rightarrow> store_env \<Rightarrow> (string \<Rightarrow> go_error option) option \<Rightarrow> (string \<Rightarrow> string \<Rightarrow> go_error + google_notification) \<Rightarrow>
    string \<Rightarrow> string \<Rightarrow> string \<Rightarrow> service \<Rightarrow> (go_error + bool) \<times> service" where
  "handle_google e se push parse authorization message_id data sv =
     (case push of
        None \<Rightarrow> (Inl (wrap1 ''billing: google notifications are not configured'' ErrUnavailable), sv)
      | Some verify \<Rightarrow>
          if verify authorization \<noteq> None
          then (Inl (wrap1 ''billing: push authorization does not verify'' ErrUnauthorized), sv)
          else if length data > max_notification
          then (Inl (wrap1 ''billing: notification too large'' ErrInvalidInput), sv)
          else (case parse message_id data of
              Inl err \<Rightarrow> (Inl (wrap1 ''billing: unreadable google notification'' ErrInvalidInput), sv)
            | Inr n \<Rightarrow> google_event e se n sv))"

end
