(* ===== verification/Store_Books.thy ===== *)
theory Store_Books
  imports Billing_Facts Webhooks
begin

text \<open>
  Purchases and webhooks keep the books: their transactions as instances of the contract of the
  ledger, and the handlers around them.
\<close>

section \<open>Statements that touch no book\<close>

lemma insert_store_purchase_same: "insert_store_purchase r db = Inr (n, db') \<Longrightarrow> same_books db db'"
  by (auto simp: insert_store_purchase_def same_books_def split: if_splits)

lemma purchase_marks_same:
  "same_books db (set_store_purchase_grant i c l db)"
  "same_books db (mark_purchase_finished i now db)"
  "same_books db (mark_purchase_refunded i now db)"
  "same_books db (insert_billing_outbox topic payload db)"
  by (simp_all add: set_store_purchase_grant_def mark_purchase_finished_def mark_purchase_refunded_def
      insert_billing_outbox_def same_books_def)

lemma record_notice_same: "record_notice nt oc db = Inr (n, db') \<Longrightarrow> same_books db db'"
  by (auto simp: record_notice_def insert_notice_def same_books_def split: if_splits)

lemma write_subscription_same: "write_subscription u cur nxt now db = Inr db' \<Longrightarrow> same_books db db'"
  by (auto simp: write_subscription_def Let_def split: if_splits sum.splits
      dest: upsert_subscription_same intro: same_books_trans purchase_marks_same)

lemma draw_uuid_books: "draw_uuid t = (i, t') \<Longrightarrow> books s b h t \<Longrightarrow> books s b h t'"
  by (auto simp: draw_uuid_def)

section \<open>Transactions\<close>

lemma record_purchase_steps:
  assumes "record_purchase parse u p tr ft t = Inr ((row, repeat), t')"
  obtains pid t1 row0 db where "draw_uuid t = (pid, t1)" "sp_id row0 = pid" "sp_user row0 = u"
      "sp_platform row0 = tr_platform tr" "sp_transaction_id row0 = tr_transaction_id tr"
      "insert_store_purchase row0 (tx_db t1) = Inr (\<not> repeat, db)"
      "if repeat then get_store_purchase (tr_platform tr) (tr_transaction_id tr) db = Some row \<and> sp_user row = u \<and>
         t' = t1\<lparr>tx_db := db\<rparr>
       else row = row0 \<and> (\<exists>evs. t' = t1\<lparr>tx_db := fold (\<lambda>(topic, e). insert_billing_outbox topic e) evs db\<rparr>)"
proof -
  obtain pid t1 where d: "draw_uuid t = (pid, t1)" by force
  from assms obtain account where p: "parse (tr_account_token tr) = Some account"
    by (cases "parse (tr_account_token tr)") (simp_all add: record_purchase_def)
  let ?row = "\<lparr>sp_id = pid, sp_user = u, sp_platform = tr_platform tr, sp_transaction_id = tr_transaction_id tr,
              sp_original_id = tr_original_id tr, sp_token_hash = null_text (tr_token_hash tr),
              sp_product_id = pr_id p, sp_kind = pr_kind p, sp_account_token = account,
              sp_environment = tr_environment tr, sp_credits = None, sp_lot = None,
              sp_raw = (if tr_raw tr = [] then ''{}'' else tr_raw tr), sp_verified_at = ts (tx_now t1),
              sp_finish_token = null_text ft, sp_finished_at = None, sp_refunded_at = None\<rparr>"
  have R: "(case insert_store_purchase ?row (tx_db t1) of
      Inl err \<Rightarrow> Inl (Wrap ''billing: record purchase'' [err])
    | Inr (False, db) \<Rightarrow>
        (case get_store_purchase (tr_platform tr) (tr_transaction_id tr) db of
           None \<Rightarrow> Inl (Wrap ''billing: read repeated purchase'' [no_rows])
         | Some r \<Rightarrow>
             if sp_user r \<noteq> u then Inl (wrap1 ''billing: this purchase belongs to another account'' ErrForbidden)
             else Inr ((r, True), t1\<lparr>tx_db := db\<rparr>))
    | Inr (True, db) \<Rightarrow>
        let db = insert_billing_outbox ''purchase.verified''
              (PurchaseVerified u (tr_platform tr) (pr_kind p) (pr_id p)) db;
            db = (if ft \<noteq> [] then insert_billing_outbox ''store.finish'' (StoreFinish pid) db else db) in
        Inr ((?row, False), t1\<lparr>tx_db := db\<rparr>)) = Inr ((row, repeat), t')"
    using assms by (simp only: record_purchase_def p option.case d prod.case Let_def)
  show ?thesis
  proof (cases "insert_store_purchase ?row (tx_db t1)")
    case (Inl err)
    with R show ?thesis by simp
  next
    case (Inr a)
    obtain n db where a: "a = (n, db)" by (cases a)
    show ?thesis
    proof (cases n)
      case True
      let ?evs = "(''purchase.verified'', PurchaseVerified u (tr_platform tr) (pr_kind p) (pr_id p)) #
        (if ft \<noteq> [] then [(''store.finish'', StoreFinish pid)] else [])"
      from R Inr a True have "row = ?row" "repeat = False"
        "t' = t1\<lparr>tx_db := fold (\<lambda>(topic, e). insert_billing_outbox topic e) ?evs db\<rparr>"
        by (auto simp: Let_def)
      then have "\<not> repeat" "row = ?row"
        "\<exists>evs. t' = t1\<lparr>tx_db := fold (\<lambda>(topic, e). insert_billing_outbox topic e) evs db\<rparr>"
        by blast+
      with True a Inr show ?thesis by (intro that [OF d, of ?row db]) simp_all
    next
      case False
      with R Inr a have "get_store_purchase (tr_platform tr) (tr_transaction_id tr) db = Some row" "sp_user row = u"
        "repeat" "t' = t1\<lparr>tx_db := db\<rparr>"
        by (auto split: option.splits if_splits)
      with False a Inr show ?thesis by (intro that [OF d, of ?row db]) auto
    qed
  qed
qed

lemma outbox_events_same: "same_books db (fold (\<lambda>(topic, e). insert_billing_outbox topic e) evs db)"
proof (induction evs arbitrary: db)
  case Nil
  then show ?case by (simp add: same_books_def)
next
  case (Cons ev evs)
  then show ?case by (cases ev) (auto intro: same_books_trans purchase_marks_same)
qed

lemma record_purchase_books:
  assumes B: "books s 0 0 t" and R: "record_purchase parse u p tr ft t = Inr ((row, repeat), t')"
  shows "books s 0 0 t'"
proof -
  obtain pid t1 row0 db where
    d: "draw_uuid t = (pid, t1)" and i: "insert_store_purchase row0 (tx_db t1) = Inr (\<not> repeat, db)"
    and c: "if repeat then get_store_purchase (tr_platform tr) (tr_transaction_id tr) db = Some row \<and> sp_user row = u \<and>
         t' = t1\<lparr>tx_db := db\<rparr>
       else row = row0 \<and> (\<exists>evs. t' = t1\<lparr>tx_db := fold (\<lambda>(topic, e). insert_billing_outbox topic e) evs db\<rparr>)"
    by (rule record_purchase_steps [OF R])
  have "\<exists>evs. t' = t1\<lparr>tx_db := fold (\<lambda>(topic, e). insert_billing_outbox topic e) evs db\<rparr>"
  proof (cases repeat)
    case True
    with c have "t' = t1\<lparr>tx_db := fold (\<lambda>(topic, e). insert_billing_outbox topic e) [] db\<rparr>" by simp
    then show ?thesis by blast
  qed (use c in simp)
  then obtain evs where t': "t' = t1\<lparr>tx_db := fold (\<lambda>(topic, e). insert_billing_outbox topic e) evs db\<rparr>" by blast
  show ?thesis unfolding t'
    by (rule books_same [OF draw_uuid_books [OF d B]
          same_books_trans [OF insert_store_purchase_same [OF i] outbox_events_same]])
qed

lemma grant_pack_steps:
  assumes "grant_pack_tx parse u p tr ft t = Inr ((pid, granted, repeat), t')"
  obtains row t1 where "record_purchase parse u p tr ft t = Inr ((row, repeat), t1)" "pid = sp_id row"
    "if repeat then t' = t1 \<and> granted = (case sp_credits row of None \<Rightarrow> 0 | Some c \<Rightarrow> c)
     else granted = i64 ((case pr_credits p of None \<Rightarrow> 0 | Some c \<Rightarrow> c) + pr_bonus p) \<and>
       (\<exists>lot t2. grant (purchase_grant (sp_id row) granted) t1 = Inr (lot, t2) \<and>
          t' = t2\<lparr>tx_db := set_store_purchase_grant (sp_id row) granted lot (tx_db t2)\<rparr>)"
proof -
  from assms obtain row again t1 where r: "record_purchase parse u p tr ft t = Inr ((row, again), t1)"
    by (cases "record_purchase parse u p tr ft t") (auto simp: grant_pack_tx_def)
  show ?thesis
  proof (rule that [of row t1])
    show "record_purchase parse u p tr ft t = Inr ((row, repeat), t1)" "pid = sp_id row"
      using assms r by (auto simp: grant_pack_tx_def Let_def split: if_splits)
    show "if repeat then t' = t1 \<and> granted = (case sp_credits row of None \<Rightarrow> 0 | Some c \<Rightarrow> c)
     else granted = i64 ((case pr_credits p of None \<Rightarrow> 0 | Some c \<Rightarrow> c) + pr_bonus p) \<and>
       (\<exists>lot t2. grant (purchase_grant (sp_id row) granted) t1 = Inr (lot, t2) \<and>
          t' = t2\<lparr>tx_db := set_store_purchase_grant (sp_id row) granted lot (tx_db t2)\<rparr>)"
      using assms r by (auto simp: grant_pack_tx_def Let_def split: if_splits)
  qed
qed

lemma grant_pack_books:
  assumes B: "books s 0 0 t" and G: "grant_pack_tx parse u p tr ft t = Inr ((pid, granted, repeat), t')"
  shows "books s 0 0 t'"
proof (rule grant_pack_steps [OF G])
  fix row t1
  assume r: "record_purchase parse u p tr ft t = Inr ((row, repeat), t1)"
    and c: "if repeat then t' = t1 \<and> granted = (case sp_credits row of None \<Rightarrow> 0 | Some c \<Rightarrow> c)
     else granted = i64 ((case pr_credits p of None \<Rightarrow> 0 | Some c \<Rightarrow> c) + pr_bonus p) \<and>
       (\<exists>lot t2. grant (purchase_grant (sp_id row) granted) t1 = Inr (lot, t2) \<and>
          t' = t2\<lparr>tx_db := set_store_purchase_grant (sp_id row) granted lot (tx_db t2)\<rparr>)"
  note B1 = record_purchase_books [OF B r]
  show ?thesis
  proof (cases repeat)
    case True
    with B1 c show ?thesis by simp
  next
    case False
    with c obtain lot t2 where g: "grant (purchase_grant (sp_id row) granted) t1 = Inr (lot, t2)"
      and n: "in_i64 granted" and t': "t' = t2\<lparr>tx_db := set_store_purchase_grant (sp_id row) granted lot (tx_db t2)\<rparr>"
      by auto
    have "books s 0 0 t2" by (rule grant_keeps [OF g B1]) (simp add: purchase_grant_def n)
    then show ?thesis unfolding t' by (rule books_same) (rule purchase_marks_same)
  qed
qed

lemma activate_steps:
  assumes "activate_tx parse a b u p tr ft t = Inr ((pid, repeat), t')"
  obtains row t1 db where "record_purchase parse u p tr ft t = Inr ((row, repeat), t1)" "pid = sp_id row"
    "write_subscription u (lock_subscription u (tx_db t1))
       (next_for_purchase (lock_subscription u (tx_db t1)) a b p tr) (tx_now t1) (tx_db t1) = Inr db"
    "t' = t1\<lparr>tx_db := db\<rparr>"
    "\<And>owner. find_purchase_by_original (tr_platform tr) (tr_original_id tr) (tx_db t) = Some owner \<Longrightarrow> sp_user owner = u"
proof -
  from assms obtain row again t1 where r: "record_purchase parse u p tr ft t = Inr ((row, again), t1)"
    by (cases "record_purchase parse u p tr ft t") (auto simp: activate_tx_def split: if_splits)
  with assms that show ?thesis
    by (cases "write_subscription u (lock_subscription u (tx_db t1))
       (next_for_purchase (lock_subscription u (tx_db t1)) a b p tr) (tx_now t1) (tx_db t1)")
      (auto simp: activate_tx_def Let_def split: if_splits option.splits)
qed

lemma activate_books:
  assumes B: "books s 0 0 t" and A: "activate_tx parse a b u p tr ft t = Inr ((pid, repeat), t')"
  shows "books s 0 0 t'"
proof (rule activate_steps [OF A])
  fix row t1 db
  assume r: "record_purchase parse u p tr ft t = Inr ((row, repeat), t1)" and t': "t' = t1\<lparr>tx_db := db\<rparr>"
    and w: "write_subscription u (lock_subscription u (tx_db t1))
       (next_for_purchase (lock_subscription u (tx_db t1)) a b p tr) (tx_now t1) (tx_db t1) = Inr db"
  show ?thesis unfolding t' by (rule books_same [OF record_purchase_books [OF B r] write_subscription_same [OF w]])
qed

lemma change_books:
  "books s 0 0 t \<Longrightarrow> change_tx nt orig c owner t = Inr (x, t') \<Longrightarrow> books s 0 0 t'"
  by (auto simp: change_tx_def Let_def split: if_splits option.splits
      intro: books_same same_books_trans dest!: record_notice_same write_subscription_same)

lemma refund_pack_books:
  "books s 0 0 t \<Longrightarrow> refund_pack_tx nt pid t = Inr (x, t') \<Longrightarrow> books s 0 0 t'"
  by (auto simp: refund_pack_tx_def Let_def split: if_splits option.splits
      intro!: books_same [OF _ purchase_marks_same(3)] dest!: record_notice_same
      intro: books_same dest: revoke_lot_books [THEN conjunct1, rotated])

interpretation grant_pack_op: ledger_operation "\<lambda>_. True"
    "\<lambda>(parse, u, p, tr, ft). grant_pack_tx parse u p tr ft"
  by unfold_locales (auto intro: grant_pack_books)

interpretation activate_op: ledger_operation "\<lambda>_. True"
    "\<lambda>(parse, a, b, u, p, tr, ft). activate_tx parse a b u p tr ft"
  by unfold_locales (auto intro: activate_books)

interpretation change_op: ledger_operation "\<lambda>_. True" "\<lambda>(nt, orig, c, owner). change_tx nt orig c owner"
  by unfold_locales (auto intro: change_books)

interpretation refund_pack_op: ledger_operation "\<lambda>_. True" "\<lambda>(nt, pid). refund_pack_tx nt pid"
  by unfold_locales (auto intro: refund_pack_books)

section \<open>Handlers\<close>

lemma grant_pack_ok: "service_ok sv \<Longrightarrow> grant_pack e u p tr ft sv = (a, sv') \<Longrightarrow> service_ok sv'"
  using grant_pack_op.committed_user [where i = "(e_parse e, u, p, tr, ft)" and db = "sv_db sv"]
  by (auto simp: grant_pack_def service_ok_def split: prod.splits dest!: service_do_snd)

lemma activate_subscription_ok:
  assumes S: "service_ok sv" and A: "activate_subscription e user u p tr ft sv = (a, sv')"
  shows "service_ok sv'"
proof -
  have q: "service_do e n user (activate_tx (e_parse e) x y u p tr ft) sv = (b, sv2) \<Longrightarrow> service_ok sv2" for n x y b sv2
    using activate_op.committed_user [where i = "(e_parse e, x, y, u, p, tr, ft)" and db = "sv_db sv"] S
    by (auto simp: service_ok_def dest!: service_do_snd)
  show ?thesis using S A by (auto simp: activate_subscription_def Let_def split: option.splits prod.splits intro: q)
qed

lemma finish_purchase_ok: "service_ok sv \<Longrightarrow> service_ok (snd (finish_purchase e se pid sv))"
  by (auto simp: finish_purchase_def split: option.split if_splits intro: service_ok_same purchase_marks_same)

lemma outbox_event_ok: "service_ok sv \<Longrightarrow> service_ok (snd (handle_outbox_event e se decode topic payload sv))"
  by (auto simp: handle_outbox_event_def split: option.split sum.split intro: finish_purchase_ok)

lemma grant_verified_ok:
  assumes S: "service_ok sv" and G: "grant_verified e se ca u q p tr sv = (a, sv')"
  shows "service_ok sv'"
  using S G
  by (auto simp: grant_verified_def Let_def split: if_splits sum.splits prod.splits
      intro!: finish_purchase_ok intro: grant_pack_ok activate_subscription_ok)

lemma verify_purchase_ok:
  assumes S: "service_ok sv" and D: "decodes_i64 e"
  shows "service_ok (snd (verify_purchase e se ca q sv))"
proof -
  have w: "service_ok sv1 \<Longrightarrow> get_wallet_view e ca sv1 = (b, sv2) \<Longrightarrow> service_ok sv2" for sv1 b sv2
    using serve_wallet_ok [OF _ D, of sv1 ca] by auto
  show ?thesis
    using S by (auto simp: verify_purchase_def Let_def split: sum.split option.split prod.split
        intro: grant_verified_ok w)
qed

lemma record_only_ok: "service_ok sv \<Longrightarrow> service_ok (snd (record_only nt oc sv))"
  by (auto simp: record_only_def split: sum.split intro: service_ok_same record_notice_same)

lemma subscription_change_ok:
  assumes S: "service_ok sv"
  shows "service_ok (snd (apply_subscription_change e nt orig c sv))"
proof -
  have q: "service_do e n user (change_tx nt orig c owner) sv = (b, sv2) \<Longrightarrow> service_ok sv2" for n user owner b sv2
    using change_op.committed_user [where i = "(nt, orig, c, owner)" and db = "sv_db sv"] S
    by (auto simp: service_ok_def dest!: service_do_snd)
  show ?thesis
    using S by (auto simp: apply_subscription_change_def split: option.split prod.split intro: record_only_ok q)
qed

lemma refund_pack_ok:
  assumes S: "service_ok sv"
  shows "service_ok (snd (refund_pack e nt p sv))"
proof -
  have q: "service_do e n user (refund_pack_tx nt pid) sv = (b, sv2) \<Longrightarrow> service_ok sv2" for n user pid b sv2
    using refund_pack_op.committed_user [where i = "(nt, pid)" and db = "sv_db sv"] S
    by (auto simp: service_ok_def dest!: service_do_snd)
  show ?thesis by (auto simp: refund_pack_def split: prod.split intro: q)
qed

lemmas notice_ok = record_only_ok subscription_change_ok refund_pack_ok

lemma apple_event_ok: "service_ok sv \<Longrightarrow> service_ok (snd (apple_event e se n sv))"
  by (simp add: apple_event_def Let_def notice_ok split: option.split)

lemma handle_apple_ok: "service_ok sv \<Longrightarrow> service_ok (snd (handle_apple e se roots payload sv))"
  by (simp add: handle_apple_def apple_event_ok split: option.split sum.split)

lemma google_voided_ok: "service_ok sv \<Longrightarrow> service_ok (snd (google_voided_event e nt v sv))"
  by (simp add: google_voided_event_def notice_ok split: option.split)

lemma google_subscription_ok: "service_ok sv \<Longrightarrow> service_ok (snd (google_subscription_event e se nt g sv))"
  by (simp add: google_subscription_event_def Let_def notice_ok split: option.split sum.split)

lemma google_event_ok: "service_ok sv \<Longrightarrow> service_ok (snd (google_event e se n sv))"
  by (simp add: google_event_def Let_def notice_ok google_voided_ok google_subscription_ok split: option.split)

lemma handle_google_ok: "service_ok sv \<Longrightarrow> service_ok (snd (handle_google e se push parse auth mid data sv))"
  by (simp add: handle_google_def google_event_ok split: option.split sum.split)

end
