(* ===== verification/Requests.thy ===== *)
theory Requests
  imports Store_Books
begin

text \<open>
  The running service: every request it answers, from a schema that holds only the plans and
  products an operator seeded, and the books after any sequence of them.
\<close>

text \<open>The requests the service answers, and the state each leaves.\<close>

datatype service_request =
    RqQuote caller int instant
  | RqEntitlements caller
  | RqWallet caller
  | RqReserve string reserve_request string
  | RqRelease string
  | RqCapture string string
  | RqMeetupEnded meetup_ended
  | RqSweepHolds
  | RqSweepDue "uuid \<Rightarrow> bool"
  | RqReconcile
  | RqAdminGrant string int duration admin_action
  | RqAdminAdjust string int admin_action
  | RqAdminSetPlan string string instant admin_action
  | RqUserDeleted string
  | RqVerify store_env caller purchase_request
  | RqOutboxEvent store_env string "go_error + string"
  | RqApple store_env "(string \<Rightarrow> go_error + apple_notification) option" string
  | RqGoogle store_env "(string \<Rightarrow> go_error option) option" "string \<Rightarrow> string \<Rightarrow> go_error + google_notification"
      string string string

fun serve :: "'raw env \<Rightarrow> service_request \<Rightarrow> service \<Rightarrow> service" where
  "serve e (RqQuote ca capacity at) sv = snd (get_quote e ca capacity at sv)"
| "serve e (RqEntitlements ca) sv = snd (get_entitlements e ca sv)"
| "serve e (RqWallet ca) sv = snd (get_wallet_view e ca sv)"
| "serve e (RqReserve user req key) sv = snd (service_reserve e user req key sv)"
| "serve e (RqRelease h) sv = snd (service_release e h sv)"
| "serve e (RqCapture h m) sv = snd (service_capture e h m sv)"
| "serve e (RqMeetupEnded ev) sv = snd (handle_meetup_ended e ev sv)"
| "serve e RqSweepHolds sv = snd (sweep_expired_holds e sv)"
| "serve e (RqSweepDue busy) sv = snd (sweep_decay_and_expiry busy e sv)"
| "serve e RqReconcile sv = snd (reconcile e sv)"
| "serve e (RqAdminGrant user n ex a) sv = snd (admin_grant e user n ex a sv)"
| "serve e (RqAdminAdjust user n a) sv = snd (admin_adjust e user n a sv)"
| "serve e (RqAdminSetPlan user plan until_t a) sv = snd (admin_set_plan e user plan until_t a sv)"
| "serve e (RqUserDeleted user) sv = snd (handle_user_deleted e user sv)"
| "serve e (RqVerify se ca q) sv = snd (verify_purchase e se ca q sv)"
| "serve e (RqOutboxEvent se topic purchase_id) sv = snd (handle_outbox_event e se (\<lambda>x. x) topic purchase_id sv)"
| "serve e (RqApple se roots payload) sv = snd (handle_apple e se roots payload sv)"
| "serve e (RqGoogle se push parse auth mid data) sv = snd (handle_google e se push parse auth mid data sv)"

text \<open>Amounts arrive as Go \<open>int64\<close> values.\<close>

fun legal_request :: "service_request \<Rightarrow> bool" where
  "legal_request (RqReserve user req key) = in_i64 (rq_cost req)"
| "legal_request (RqAdminGrant user n ex a) = in_i64 n"
| "legal_request (RqAdminAdjust user n a) = in_i64 n"
| "legal_request _ = True"

lemma serve_ok:
  assumes "service_ok sv" "decodes_i64 e" "legal_request q"
  shows "service_ok (serve e q sv)"
  using assms
  by (cases q) (auto simp: sweep_expired_holds_def sweep_decay_and_expiry_def Let_def
      intro: serve_quote_ok serve_entitlements_ok serve_wallet_ok serve_reserve_ok serve_release_ok
        serve_capture_ok serve_ended_ok sweep_holds_ok serve_set_plan_ok serve_deleted_ok serve_admin_ok reconcile_ok
        verify_purchase_ok outbox_event_ok handle_apple_ok handle_google_ok
      split: prod.split dest: sweep_due_snd_ok)

text \<open>The states of the running service, from an empty schema on.\<close>

definition no_document :: document where
  "no_document = \<lparr>base_credits = 0, includes_capacity = 0, per_extra_person = 0, lead_time = [],
     free = \<lparr>max_capacity = 0, max_advance_days = 0\<rparr>,
     doc_welcome = \<lparr>welcome_credits = 0, decay_percent = 0, decay_every_days = 0\<rparr>,
     refunds = \<lparr>full_if_cancelled_hours_before = 0, no_participants_percent = 0, max_per_30_days = 0\<rparr>,
     hold_ttl_minutes = 0\<rparr>"

definition new_service :: "plan_row list \<Rightarrow> product_row list \<Rightarrow> service" where
  "new_service ps prods = \<lparr>sv_db = empty_db\<lparr>plans := ps, products := prods\<rparr>,
     sv_rules = \<lparr>rules_version = 0, rules_doc = no_document\<rparr>, sv_rules_loaded_at = zero_time\<rparr>"

inductive service_reachable :: "'raw itself \<Rightarrow> service \<Rightarrow> bool" for raw where
  started: "service_reachable raw (new_service ps prods)"
| request: "service_reachable raw sv \<Longrightarrow> decodes_i64 (e :: 'raw env) \<Longrightarrow> legal_request q \<Longrightarrow>
    service_reachable raw (serve e q sv)"

lemma service_reachable_ok: "service_reachable raw sv \<Longrightarrow> service_ok sv"
proof (induction rule: service_reachable.induct)
  case (started ps prods)
  have "same_books empty_db (empty_db\<lparr>plans := ps, products := prods\<rparr>)" by (simp add: same_books_def)
  then have "all_ok (empty_db\<lparr>plans := ps, products := prods\<rparr>)" using same_books_ok empty_db_ok by blast
  then show ?case by (simp add: service_ok_def new_service_def no_document_def)
next
  case (request sv e q)
  then show ?case by (intro serve_ok)
qed

definition sample_env :: "unit env" where
  "sample_env = \<lparr>e_now = 1000, e_parse = Some, e_uuids = (\<lambda>k n. ''q''), e_rules_row = Inr (1, ()),
     e_decode = (\<lambda>_. Inr first_document), e_fingerprint = Some (\<lambda>u. Inr (''f'' @ u))\<rparr>"

text \<open>
  C2. Whatever sequence of requests, purchases, store notifications, operator actions, account
  deletions and sweeps the
  billing service has served, each committed or rolled back, the nightly reconciliation
  records a run with no mismatch.
\<close>

theorem nightly_reconciliation_clean:
  assumes "service_reachable raw sv" "\<not> reconciliation_run_exists (utc_day (e_now e)) (sv_db sv)"
  shows "\<exists>run. recon_runs (sv_db (snd (reconcile e sv))) = recon_runs (sv_db sv) @ [run] \<and>
    rr_mismatches run = 0 \<and> rr_detail run = []"
proof -
  have "reconcile_wallets (sv_db sv) = []"
    using service_reachable_ok [OF assms(1)] by (simp add: service_ok_def all_ok_reconciles)
  with assms(2) show ?thesis
    by (simp add: reconcile_def Let_def find_mismatches_def insert_reconciliation_run_def in_i32_def)
qed

lemma nightly_reconciliation_clean_witness:
  "\<exists>run. recon_runs (sv_db (snd (reconcile sample_env (new_service [] [])))) = [run] \<and> rr_mismatches run = 0"
proof -
  have "service_reachable TYPE(unit) (new_service [] [])" by (rule service_reachable.started)
  moreover have "recon_runs (sv_db (new_service [] [])) = []" by (simp add: new_service_def empty_db_def)
  ultimately show ?thesis
    using nightly_reconciliation_clean [of "TYPE(unit)" "new_service [] []" sample_env]
    by (auto simp: reconciliation_run_exists_def)
qed

end
