(* ===== verification/Billing_Props.thy ===== *)
theory Billing_Props
  imports Requests
begin

text \<open>
  Properties of the service: settlement happens once per hold, entitlement means the same in
  Go and in SQL, a plan's quota is never exceeded, a reservation that is released is as if it
  had never been, one that is affordable succeeds, and a person is welcomed once.
\<close>

section \<open>Settlement\<close>

lemma log_refund_logged:
  "log_refund hid m ev oc p a t = Inr (x, t') \<Longrightarrow> refund_log_exists hid (tx_db t')"
  by (auto simp: log_refund_def insert_refund_log_def refund_log_exists_def split: if_splits)

lemma settle_captured_logged:
  "settle_captured parse hid p c e t = Inr (x, t') \<Longrightarrow> refund_log_exists hid (tx_db t')"
  by (auto simp: settle_captured_def Let_def dest: log_refund_logged split: if_splits)

lemma settle_tx_logged:
  "settle_tx parse r hid e t = Inr (x, t') \<Longrightarrow> refund_log_exists hid (tx_db t')"
  by (auto simp: settle_tx_def Let_def dest: log_refund_logged settle_captured_logged split: if_splits)

text \<open>
  Once a hold's ended meetup has been settled, no later event for it, of either kind and
  under any price rules, does anything: the refund log row blocks it.
\<close>

lemma settle_once:
  assumes "settle_tx parse r hid e t = Inr (x, t')"
  shows "settle_tx parse r' hid e' t' = Inr ((), t')"
  using settle_tx_logged [OF assms] by (simp add: settle_tx_def)

definition sample_rules :: rules where
  "sample_rules = \<lparr>rules_version = 1, rules_doc = first_document\<rparr>"

definition sample_ended :: meetup_ended where
  "sample_ended = \<lparr>me_hold_id = ''h'', me_meetup_id = ''m'', me_event = event_closed, me_accepted_count = 0,
     me_window_start = 400000000000000, me_ended_at = 3000\<rparr>"

section \<open>Subscriptions\<close>

lemma ts_less_aligned: "ts e = e \<Longrightarrow> ts now < e \<longleftrightarrow> now < e"
proof -
  assume e: "ts e = e"
  have "now = now div 1000 * 1000 + now mod 1000" "0 \<le> now mod 1000" "now mod 1000 < 1000"
    "e = e div 1000 * 1000"
    using e by (simp_all add: ts_def)
  then show ?thesis unfolding ts_def by (cases "now div 1000 < e div 1000") linarith+
qed

lemma ts_le_aligned: "ts e = e \<Longrightarrow> e \<le> ts now \<longleftrightarrow> e \<le> now"
  using ts_less_aligned [of e now] by (simp add: not_less [symmetric])

text \<open>
  The Go function that decides whether a subscription entitles its user agrees with the
  \<open>WHERE\<close> clause of the query that reads it, for rows whose times are stored timestamps and
  at every instant of the clock.
\<close>

lemma entitled_in_go_as_in_sql:
  assumes "ts (sr_period_start s) = sr_period_start s" "ts (sr_period_end s) = sr_period_end s"
    and "case sr_grace_period_end s of None \<Rightarrow> True | Some g \<Rightarrow> ts g = g"
  shows "entitled_at (sr_status s) (sr_period_start s) (sr_period_end s) (sr_grace_period_end s) now \<longleftrightarrow>
    subscription_active (ts now) s"
  using assms
  by (auto simp: entitled_at_def subscription_active_def time_after_def ts_less_aligned ts_le_aligned max_def
      split: option.splits)

section \<open>Reservations\<close>

definition usage :: "uuid \<Rightarrow> instant \<Rightarrow> billing_db \<Rightarrow> int \<times> int" where
  "usage u p db = (case lock_plan_usage u p db of None \<Rightarrow> (0, 0) | Some x \<Rightarrow> (pu_used x, pu_held x))"

lemma usage_ensure: "usage u p (ensure_plan_usage u p db) = usage u p db"
  by (auto simp: usage_def lock_plan_usage_def ensure_plan_usage_def find_append list_ex_iff find_None_iff
      split: option.splits dest: find_SomeD)

lemma usage_set:
  assumes "lock_plan_usage u p db = Some x" "set_plan_usage u p a b db = Inr db'"
  shows "usage u p db' = (a, b)"
proof -
  let ?p = "\<lambda>x. pu_user x = u \<and> pu_period_start x = p" and ?f = "\<lambda>x. x\<lparr>pu_used := a, pu_held := b\<rparr>"
  have e: "find ?p (update_where ?p ?f rows) = map_option ?f (find ?p rows)" for rows
    by (induction rows) auto
  have "plan_usages db' = update_where ?p ?f (plan_usages db)"
    using assms(2) by (auto simp: set_plan_usage_def split: if_splits)
  with assms(1) show ?thesis by (simp only: usage_def lock_plan_usage_def e) simp
qed

lemma usage_adjust:
  assumes "adjust_quota p f t = Inr t'"
  shows "\<exists>a b. f (fst (usage (tx_user t) (ts p) (tx_db t))) (snd (usage (tx_user t) (ts p) (tx_db t))) = Inr (a, b) \<and>
    usage (tx_user t) (ts p) (tx_db t') = (max a 0, max b 0) \<and> tx_user t' = tx_user t"
proof -
  let ?db = "ensure_plan_usage (tx_user t) (ts p) (tx_db t)"
  from assms obtain x a b db where x: "lock_plan_usage (tx_user t) (ts p) ?db = Some x"
    and f: "f (pu_used x) (pu_held x) = Inr (a, b)"
    and s: "set_plan_usage (tx_user t) (ts p) (max a 0) (max b 0) ?db = Inr db" "t' = t\<lparr>tx_db := db\<rparr>"
    by (auto simp: adjust_quota_def Let_def split: option.splits)
  have "usage (tx_user t) (ts p) (tx_db t) = (pu_used x, pu_held x)"
    using x usage_ensure [of "tx_user t" "ts p" "tx_db t"] by (simp add: usage_def)
  with f s usage_set [OF x s(1)] show ?thesis by auto
qed

lemma usage_write: "write_entry e t = Inr t' \<Longrightarrow> usage u p (tx_db t') = usage u p (tx_db t)"
  by (auto simp: write_entry_Inr Let_def insert_ledger_entry_def usage_def lock_plan_usage_def split: if_splits)

text \<open>
  A plan-quota reservation counts one unit as held and succeeds only while used and held
  units together stay within the plan's included meetups.
\<close>

lemma quota_never_exceeded:
  assumes R: "reserve i t = Inr (v, t')" and "ri_kind i = HoldPlanQuota"
    and "get_hold_by_key (tx_user t) (ri_key i) (tx_db t) = None"
    and "usage (tx_user t) (ts (ri_period_start i)) (tx_db t) = (a, b)" "0 \<le> a" "0 \<le> b" "in_i32 (a + b + 1)"
  shows "usage (tx_user t) (ts (ri_period_start i)) (tx_db t') = (a, b + 1) \<and> a + (b + 1) \<le> ri_quota_included i"
proof -
  let ?p = "ts (ri_period_start i)"
  from assms(1-3) obtain t1 hid t2 db where
    A: "adjust_quota (ri_period_start i) (reserve_quota (ri_quota_included i)) t = Inr t1" and
    I: "insert_hold (new_hold i hid 1 (Some ?p) t2) (tx_db t1) = Inr db" and t2: "tx_db t2 = tx_db t1" and
    W: "write_entry ((no_entry RHold (''hold:'' @ hid))\<lparr>en_held_delta := 0, en_hold := Some hid,
          en_ref_type := ''plan_quota''\<rparr>) (t2\<lparr>tx_db := db\<rparr>) = Inr t'"
    by (auto simp: reserve_def reserve_new_def reserve_kind_def Let_def draw_uuid_def split: if_splits)
  from I have db: "plan_usages db = plan_usages (tx_db t1)" by (auto simp: insert_hold_def split: if_splits)
  have "usage (tx_user t) ?p (tx_db t') = usage (tx_user t) ?p (tx_db t1)"
    using usage_write [OF W, of "tx_user t" ?p] db by (simp add: usage_def lock_plan_usage_def)
  moreover have "in_i32 (a + b)" "in_i32 (b + 1)" using assms(5-7) by (auto simp: in_i32_def)
  ultimately show ?thesis using usage_adjust [OF A] assms(4-6)
    by (auto simp: reserve_quota_def split: if_splits)
qed

section \<open>Reserving and releasing\<close>

lemma find_updated:
  assumes "\<And>x. p x \<Longrightarrow> q x" "\<And>x. p (f x) \<longleftrightarrow> p x"
  shows "find p (update_where q f rows) = map_option f (find p rows)"
  using assms by (induction rows) auto

lemma release_figures:
  assumes B: "books s b h t" and L: "lock_hold hid t = Inr x"
    and k: "hold_kind x = HoldCredits" "hold_state x = StateHeld" and R: "release hid reason t = Inr (ok, t')"
  shows "ok \<and> tx_held t' = tx_held t - hold_amount x \<and> tx_balance t' = tx_balance t \<and> tx_debt t' = tx_debt t \<and>
    release hid reason' t' = Inr (False, t')"
proof -
  note x = lock_hold_Inr [OF L]
  from R L k obtain t2 where ok
    and W: "write_entry ((no_entry RRelease (''release:'' @ hold_id x))\<lparr>
        en_held_delta := - hold_amount x, en_hold := Some (hold_id x), en_ref_type := reason\<rparr>) t = Inr t2"
    and t': "t' = t2\<lparr>tx_db := mark_hold_released (hold_id x) (ts (tx_now t2)) (null_text reason) (tx_db t2)\<rparr>"
    by (auto simp: release_def)
  let ?f = "\<lambda>h. h\<lparr>hold_state := StateReleased, hold_released_at := Some (ts (tx_now t2)),
      hold_release_reason := null_text reason\<rparr>"
  have n: "in_i64 (- hold_amount x)"
    using books_hold_kind(2,3) [OF B] x by (auto intro!: in_i64_neg simp: less_imp_le)
  have m: "moved 0 (- hold_amount x) 0 t t2"
    using books_write_at [OF B W, of 0 "- hold_amount x" 0] n by simp
  have "query_lock_hold hid (tx_user t) (tx_db t) = Some x"
    using L by (simp add: lock_hold_def split: option.splits)
  then have "find (\<lambda>h. hold_id h = hid \<and> hold_user h = tx_user t) (update_where (\<lambda>h. hold_id h = hid) ?f (holds (tx_db t)))
      = Some (?f x)"
    using find_updated [of "\<lambda>h. hold_id h = hid \<and> hold_user h = tx_user t" "\<lambda>h. hold_id h = hid" ?f "holds (tx_db t)"]
    by (simp add: query_lock_hold_def)
  then have "lock_hold hid t' = Inr (?f x)"
    using m x by (simp add: t' lock_hold_def query_lock_hold_def mark_hold_released_def moved_def)
  then have "release hid reason' t' = Inr (False, t')" by (simp add: release_def)
  with \<open>ok\<close> m show ?thesis by (simp add: moved_def t')
qed

lemma reserve_new_row:
  assumes "reserve_new i t = Inr (v, t')"
  shows "\<exists>x. lock_hold (hv_id v) t' = Inr x \<and> hold_state x = StateHeld \<and> hold_kind x = ri_kind i \<and>
    hold_amount x = hv_amount v"
proof -
  from assms obtain amount period t1 u t2 db where
    "reserve_kind i t = Inr (amount, period, t1)" "draw_uuid t1 = (u, t2)" and
    I: "insert_hold (new_hold i u amount period t2) (tx_db t2) = Inr db" and
    v: "v = hold_from_row (new_hold i u amount period t2)" and
    W: "write_entry ((no_entry RHold (''hold:'' @ u))\<lparr>
          en_held_delta := (if ri_kind i = HoldCredits then ri_amount i else 0),
          en_hold := Some u, en_ref_type := hold_kind_text (ri_kind i)\<rparr>) (t2\<lparr>tx_db := db\<rparr>) = Inr t'"
    by (auto simp: reserve_new_def Let_def draw_uuid_def simp del: append.simps split: if_splits)
  let ?x = "new_hold i u amount period t2"
  from I have db: "holds db = holds (tx_db t2) @ [?x]" and new: "\<forall>y \<in> set (holds (tx_db t2)). hold_id y \<noteq> u"
    by (auto simp: insert_hold_def list_ex_iff new_hold_def split: if_splits)
  from new have "find (\<lambda>h. hold_id h = u \<and> hold_user h = w) (holds (tx_db t2)) = None" for w
    by (auto simp: find_None_iff)
  with db write_entry_frame(2,4) [OF W] v have "lock_hold (hv_id v) t' = Inr ?x"
    by (simp add: lock_hold_def query_lock_hold_def find_append hold_from_row_def new_hold_def)
  then show ?thesis using v by (simp add: new_hold_def hold_from_row_def)
qed

text \<open>
  C29. Releasing a fresh credit reservation gives back exactly what it took: balance, held
  amount and debt are what they were, and releasing it again does nothing.
\<close>

theorem reserve_release_roundtrip:
  assumes "all_ok db" "start_tx now uuids u db = Inr t" "in_i64 (ri_amount i)"
    and "ri_kind i = HoldCredits" "get_hold_by_key (tx_user t) (ri_key i) (tx_db t) = None"
    and "reserve i t = Inr (v, t1)" "release (hv_id v) reason t1 = Inr (ok, t2)"
  shows "ok \<and> tx_balance t2 = tx_balance t \<and> tx_held t2 = tx_held t \<and> tx_debt t2 = tx_debt t \<and>
    release (hv_id v) reason' t2 = Inr (False, t2)"
proof -
  from start_tx_books [OF assms(1,2)] obtain s where B: "books s 0 0 t" by blast
  from assms(5,6) have N: "reserve_new i t = Inr (v, t1)" by (simp add: reserve_def)
  note K = reserve_new_books [OF B assms(3) N]
  from reserve_new_row [OF N] assms(4) obtain x where x: "lock_hold (hv_id v) t1 = Inr x" "hold_state x = StateHeld"
    "hold_kind x = HoldCredits" "hold_amount x = hv_amount v" by auto
  have "hv_amount v = ri_amount i"
    using N assms(4) by (auto simp: reserve_new_def Let_def draw_uuid_def reserve_kind_def new_hold_def
      hold_from_row_def split: if_splits)
  with release_figures [OF conjunct1 [OF K] x(1,3,2) assms(7), of reason'] K x(4) assms(4) show ?thesis by simp
qed

lemma reserve_release_roundtrip_witness:
  "let r = projr (reserve sample_reserve sample_tx) in
     tx_held (snd (projr (release (hv_id (fst r)) ''x'' (snd r)))) = tx_held sample_tx"
proof -
  let ?r = "projr (reserve sample_reserve sample_tx)"
  have "\<not> isl (reserve sample_reserve sample_tx)" by code_simp
  note e = right_pair [OF this]
  have "\<not> isl (release (hv_id (fst ?r)) ''x'' (snd ?r))" by code_simp
  note f = right_pair [OF this]
  have "get_hold_by_key (tx_user sample_tx) (ri_key sample_reserve) (tx_db sample_tx) = None" by code_simp
  from reserve_release_roundtrip [OF sample_ok sample_start _ _ this e f] show ?thesis
    by (simp add: Let_def sample_reserve_def in_i64_def)
qed

text \<open>
  C28. A reservation the caller can afford goes through: on an open wallet without debt, with a
  new key and an unused identifier, an amount within the available credits is reserved.
\<close>

theorem reserve_succeeds:
  assumes "all_ok db" "start_tx now uuids u db = Inr t" "\<not> tx_closed t" "tx_debt t = 0"
    and "ri_kind i = HoldCredits" "0 < ri_amount i" "ri_amount i \<le> available t" "ri_key i \<noteq> []"
    and "get_hold_by_key (tx_user t) (ri_key i) (tx_db t) = None"
    and "\<forall>h \<in> set (holds (tx_db t)). hold_id h \<noteq> tx_uuids t (tx_drawn t)"
    and "\<not> key_used (''hold:'' @ tx_uuids t (tx_drawn t)) t"
  shows "\<exists>v t'. reserve i t = Inr (v, t') \<and> hv_state v = StateHeld \<and> hv_amount v = ri_amount i"
proof -
  from start_tx_books [OF assms(1,2)] obtain s where B: "books s 0 0 t" by blast
  note f = books_figures [OF B, unfolded figure_ok_def]
  let ?u = "tx_uuids t (tx_drawn t)"
  let ?t = "t\<lparr>tx_drawn := Suc (tx_drawn t)\<rparr>"
  let ?x = "new_hold i ?u (ri_amount i) None ?t"
  have le: "tx_held t + ri_amount i \<le> tx_balance t" using assms(6,7) by (simp add: available_def)
  then have in64: "in_i64 (tx_held t + ri_amount i)" "0 \<le> tx_held t + ri_amount i"
    using f assms(6) by (auto simp: in_i64_def)
  have key: "\<not> list_ex (\<lambda>x. hold_user x = tx_user t \<and> hold_key x = ri_key i) (holds (tx_db t))"
    using assms(9) by (auto simp: get_hold_by_key_def find_None_iff list_ex_iff)
  have "insert_hold ?x (tx_db t) = Inr ((tx_db t)\<lparr>holds := holds (tx_db t) @ [?x]\<rparr>)"
    using key assms(5,6,8,10) by (auto simp: insert_hold_def new_hold_def hold_ok_def list_ex_iff)
  moreover have "\<exists>t'. write_entry ((no_entry RHold (''hold:'' @ ?u))\<lparr>en_held_delta := ri_amount i,
      en_hold := Some ?u, en_ref_type := ''credits''\<rparr>)
      (?t\<lparr>tx_db := (tx_db t)\<lparr>holds := holds (tx_db t) @ [?x]\<rparr>\<rparr>) = Inr t'"
    using f in64 assms(11) by (simp add: write_entry_Inr Let_def no_entry_def key_used_def ledger_key_exists_def)
  ultimately show ?thesis using assms(3-7,9)
    by (auto simp: reserve_def reserve_new_def reserve_kind_def draw_uuid_def Let_def hold_from_row_def
        new_hold_def not_less)
qed

lemma reserve_succeeds_witness:
  "\<exists>v t'. reserve (sample_reserve\<lparr>ri_amount := 6\<rparr>) sample_tx = Inr (v, t') \<and> hv_amount v = 6"
proof -
  have "get_hold_by_key (tx_user sample_tx) (ri_key sample_reserve) (tx_db sample_tx) = None"
    "\<forall>h \<in> set (holds (tx_db sample_tx)). hold_id h \<noteq> tx_uuids sample_tx (tx_drawn sample_tx)"
    "\<not> key_used (''hold:'' @ tx_uuids sample_tx (tx_drawn sample_tx)) sample_tx"
    "available sample_tx = 6" "\<not> tx_closed sample_tx" by code_simp+
  with reserve_succeeds [OF sample_ok sample_start, of "sample_reserve\<lparr>ri_amount := 6\<rparr>"] sample_tx_balance
  show ?thesis by (auto simp: sample_reserve_def)
qed

section \<open>The welcome grant is one per person\<close>

text \<open>The tables no wallet operation writes.\<close>

definition beside :: "billing_db \<Rightarrow> welcome_grant list \<times> refund_log_row list \<times> subscription_row list" where
  "beside db = (welcome_grants db, refund_log db, subscriptions db)"

lemma beside_write: "write_entry e t = Inr t' \<Longrightarrow> beside (tx_db t') = beside (tx_db t)"
  by (auto simp: write_entry_Inr Let_def beside_def)

lemma beside_lot: "update_lot i f db = Inr db' \<Longrightarrow> beside db' = beside db"
  by (auto simp: update_lot_Inr beside_def)

lemma beside_piece: "take_piece k p l n t = Inr t' \<Longrightarrow> beside (tx_db t') = beside (tx_db t)"
  by (cases k) (auto simp: insert_allocation_def beside_def draw_uuid_def Let_def dest!: beside_write split: if_splits)

lemma beside_spend_lots: "spend_lots k p need ls t = Inr (p', r, t') \<Longrightarrow> beside (tx_db t') = beside (tx_db t)"
proof (induction k p need ls t rule: spend_lots.induct)
  case (1 k p need t)
  then show ?case by simp
next
  case (2 k p need l ls t)
  let ?n = "min (lot_remaining l) need"
  from "2.prems" obtain db t1 where
    upd: "set_lot_remaining (lot_id l) (lot_remaining l - ?n) (tx_db t) = Inr db" and
    tp: "take_piece k p (lot_id l) ?n (t\<lparr>tx_db := db\<rparr>) = Inr t1" and
    rest: "(if need - ?n = 0 then Inr (Suc p, need - ?n, t1) else spend_lots k (Suc p) (need - ?n) ls t1)
      = Inr (p', r, t')"
    by (auto simp: Let_def)
  have "beside (tx_db t1) = beside (tx_db t)"
    using beside_piece [OF tp] beside_lot upd by (auto simp: set_lot_remaining_def)
  then show ?case
    using rest "2.IH" [of _ "t\<lparr>tx_db := db\<rparr>" t1] upd tp by (auto split: if_splits)
qed

lemma beside_spend_from: "spend_from k p need t = Inr (r, t') \<Longrightarrow> beside (tx_db t') = beside (tx_db t)"
proof (induction k p need t rule: spend_from.induct)
  case (1 k p need t)
  let ?ls = "lock_spendable_lots (tx_user t) (ts (tx_now t)) spend_batch (tx_db t)"
  show ?case
  proof (cases "0 < need \<and> ?ls \<noteq> []")
    case False
    with "1.prems" show ?thesis by (auto simp: spend_from.simps [of k p need t] Let_def split: if_splits)
  next
    case True
    with "1.prems" obtain p' n' t1 where
      sl: "spend_lots k p need ?ls t = Inr (p', n', t1)" and rest: "spend_from k p' n' t1 = Inr (r, t')"
      by (auto simp: spend_from.simps [of k p need t] Let_def)
    from True have a: "0 < need" and b: "?ls \<noteq> []" by auto
    from "1.IH" [OF a refl b sl refl refl rest] beside_spend_lots [OF sl] show ?thesis by simp
  qed
qed

lemma beside_grant: "grant g t = Inr (l, t') \<Longrightarrow> beside (tx_db t') = beside (tx_db t)"
  by (auto simp: grant_def Let_def draw_uuid_def insert_lot_def settle_debt_def spend_def beside_def [symmetric]
      dest!: beside_write beside_spend_from split: if_splits) (auto simp: beside_def)

lemma beside_decay_steps: "decay_steps l p js r t = Inr (r', t') \<Longrightarrow> beside (tx_db t') = beside (tx_db t)"
proof (induction js arbitrary: r t)
  case Nil
  then show ?case by simp
next
  case (Cons j js)
  then show ?case by (fastforce simp: Let_def dest!: beside_write split: if_splits)
qed

lemma beside_apply_due_lots: "apply_due_lots ls t = Inr t' \<Longrightarrow> beside (tx_db t') = beside (tx_db t)"
proof (induction ls arbitrary: t)
  case Nil
  then show ?case by simp
next
  case (Cons l ls)
  then obtain r t1 t2 where D: "decay_lot l t = Inr (r, t1)" and E: "expire_lot l r t1 = Inr t2"
    and R: "apply_due_lots ls t2 = Inr t'" by auto
  have "beside (tx_db t1) = beside (tx_db t)"
    using D by (auto simp: decay_lot_def Let_def set_lot_decay_def dest!: beside_decay_steps beside_lot split: if_splits)
  moreover have "beside (tx_db t2) = beside (tx_db t1)"
    using E by (auto simp: expire_lot_def set_lot_remaining_def dest!: beside_write beside_lot split: if_splits)
  ultimately show ?case using Cons.IH [OF R] by simp
qed

text \<open>
  Welcome credits are granted once per person: when the account or the identity
  fingerprint already has a grant, another attempt leaves the database as it is.
\<close>

lemma welcome_once_per_person:
  assumes "g \<in> set (welcome_grants (sv_db sv))" "wg_user g = u \<or> wg_fingerprint g = fp"
    and "e_parse e (ca_user ca) = Some u" "e_fingerprint e = Some fp_of" "fp_of (ca_user ca) = Inr fp"
  shows "sv_db (ensure_welcome e ca sv) = sv_db sv"
proof -
  have blocked: "\<not> (\<exists>x t'. welcome_tx r u fp t = Inr (x, t'))"
    if "beside (tx_db t) = beside (sv_db sv)" for r t
    using that assms(1,2)
    by (auto simp: welcome_tx_def insert_welcome_grant_def list_ex_iff beside_def dest!: beside_grant
        split: sum.splits if_splits)
  have "run_locked now uuids (welcome_tx r u fp) w v (ensure_wallet v (sv_db sv)) \<noteq> Inr y" for now uuids r w v y
  proof
    assume "run_locked now uuids (welcome_tx r u fp) w v (ensure_wallet v (sv_db sv)) = Inr y"
    then obtain t x t2 where A: "apply_due (open_tx now uuids w v (ensure_wallet v (sv_db sv))) = Inr t"
      and W: "welcome_tx r u fp t = Inr (x, t2)" by (auto simp: run_locked_def)
    have "beside (tx_db t) = beside (sv_db sv)"
      using beside_apply_due_lots [OF A [unfolded apply_due_def]]
      by (auto simp: open_tx_def ensure_wallet_def beside_def)
    with W blocked show False by blast
  qed
  then have "snd (ledger_do_uuid False False now uuids (welcome_tx r u fp) v (sv_db sv)) = sv_db sv" for now uuids r v
    by (auto simp: ledger_do_uuid_def Let_def split: option.splits sum.splits)
  then have same: "sv_db (snd (service_do e n (ca_user ca) (welcome_tx r u fp) sv')) = sv_db sv"
    if "sv_db sv' = sv_db sv" for n r sv'
    using that assms(3) by (simp add: service_do_def ledger_do_def split_beta)
  obtain a sv' where L: "load_rules e sv = (a, sv')" by fastforce
  then have eq: "sv_db sv' = sv_db sv" by (auto simp: load_rules_def Let_def split: if_splits sum.splits)
  show ?thesis using assms(3-5) L eq same [OF eq, of 0]
    by (cases a) (simp_all add: ensure_welcome_def)
qed

section \<open>A hold the sweep let go\<close>

text \<open>
  Nothing of a hold has been charged yet: its keys are unused and no lot it could draw on has an allocation of it. The ids
  of lots are UUIDs, so none is the word that ends the key of a debt.
\<close>

definition uncharged :: "uuid \<Rightarrow> tx \<Rightarrow> bool" where
  "uncharged hid t \<longleftrightarrow> \<not> key_used (''capture:'' @ hid @ '':debt'') t \<and>
     (\<forall>l \<in> set (lots (tx_db t)). lot_id l \<noteq> ''debt'' \<and> (lot_user l = tx_user t \<longrightarrow> 0 < lot_remaining l \<longrightarrow>
        \<not> key_used (''capture:'' @ hid @ '':'' @ lot_id l) t \<and>
        (\<forall>a \<in> set (allocs (tx_db t)). \<not> (al_hold a = hid \<and> al_lot a = lot_id l))))"

lemma set_remaining_goes:
  assumes B: "books s b h t" and l: "l \<in> set (lots (tx_db t))" and r: "0 \<le> r" "r \<le> lot_remaining l"
  shows "set_lot_remaining (lot_id l) r (tx_db t) =
    Inr ((tx_db t)\<lparr>lots := update_where (\<lambda>x. lot_id x = lot_id l) (\<lambda>x. x\<lparr>lot_remaining := r\<rparr>) (lots (tx_db t))\<rparr>)"
proof -
  have d: "distinct (map lot_id (lots (tx_db t)))" and ok: "\<forall>x \<in> set (lots (tx_db t)). lot_ok x"
    using books_lots_wf [OF B] by (auto simp: lots_wf_def)
  have "lot_ok x" if x: "x \<in> set (update_where (\<lambda>x. lot_id x = lot_id l) (\<lambda>x. x\<lparr>lot_remaining := r\<rparr>) (lots (tx_db t)))"
    "lot_id x = lot_id l" for x
  proof -
    from x obtain y where y: "y \<in> set (lots (tx_db t))" "lot_id y = lot_id l" "x = y\<lparr>lot_remaining := r\<rparr>"
      by (auto simp: set_update_where)
    with d l have "y = l" by (auto dest: distinct_key_unique)
    with y(3) ok l r books_lot(3) [OF B l] show ?thesis by (auto simp: lot_ok_def split: option.splits)
  qed
  then show ?thesis by (auto simp: set_lot_remaining_def update_lot_Inr list_all_iff)
qed

lemma piece_goes:
  assumes B: "books s 0 h t" and x: "x \<in> set (holds (tx_db t))" "hold_id x = hid"
    and l: "l \<in> set (lots (tx_db t))" "lot_user l = tx_user t" and n: "0 < n" "n \<le> lot_remaining l" and u: "uncharged hid t"
  defines "db \<equiv> (tx_db t)\<lparr>lots := update_where (\<lambda>x. lot_id x = lot_id l) (\<lambda>x. x\<lparr>lot_remaining := lot_remaining l - n\<rparr>) (lots (tx_db t))\<rparr>"
  shows "\<exists>t1. take_piece (TakeCapture hid m) p (lot_id l) n (t\<lparr>tx_db := db\<rparr>) = Inr t1 \<and> (n = lot_remaining l \<longrightarrow> uncharged hid t1)"
proof -
  let ?db = "db\<lparr>allocs := allocs (tx_db t) @ [\<lparr>al_hold = hid, al_lot = lot_id l, al_amount = n, al_refunded = 0\<rparr>]\<rparr>"
  let ?e = "(no_entry RCapture (''capture:'' @ hid @ '':'' @ lot_id l))\<lparr>en_delta := - n,
       en_lot := Some (lot_id l), en_hold := Some hid, en_ref_type := ''meetup'', en_ref_id := m\<rparr>"
  from u l n have free: "\<not> key_used (''capture:'' @ hid @ '':'' @ lot_id l) t"
    "\<forall>a \<in> set (allocs (tx_db t)). \<not> (al_hold a = hid \<and> al_lot a = lot_id l)" by (auto simp: uncharged_def)
  have "map lot_id (lots db) = map lot_id (lots (tx_db t))" by (simp add: db_def map_update_where)
  then have "lot_id l \<in> set (map lot_id (lots db))" using l(1) by simp
  then have "list_ex (\<lambda>x. lot_id x = lot_id l) (lots db)" by (auto simp: list_ex_iff)
  moreover have "\<not> list_ex (\<lambda>a. al_hold a = hid \<and> al_lot a = lot_id l \<and> Q a) (allocs (tx_db t))" for Q
    using free(2) by (auto simp: list_ex_iff)
  from this [of "\<lambda>_. True"] this [of "\<lambda>a. \<not> in_i64 (al_amount a + n)"]
  have "\<not> list_ex (\<lambda>a. al_hold a = hid \<and> al_lot a = lot_id l) (allocs (tx_db t))"
    "\<not> list_ex (\<lambda>a. al_hold a = hid \<and> al_lot a = lot_id l \<and> \<not> in_i64 (al_amount a + n)) (allocs (tx_db t))" by simp_all
  ultimately have I: "insert_allocation hid (lot_id l) n db = Inr ?db"
    using x n(1) by (auto simp: insert_allocation_def list_ex_iff db_def)
  have "lot_remaining l \<le> lots_remaining (tx_user t) (tx_db t)"
    unfolding lots_remaining_def using l books_lot(2) [OF B] by (intro sum_where_ge_member) auto
  then have bal: "0 \<le> tx_balance t - n" using B n(2) by (simp add: books_def own_figures_def)
  note f = books_figures [OF B, unfolded figure_ok_def]
  have "in_i64 (tx_balance t - n)" using bal f n(1) by (auto simp: in_i64_def)
  with bal f free(1) obtain t1 where W: "write_entry ?e (t\<lparr>tx_db := ?db\<rparr>) = Inr t1"
    by (auto simp: write_entry_Inr Let_def key_used_def ledger_key_exists_def db_def)
  have "uncharged hid t1" if z: "n = lot_remaining l"
  proof -
    have lots1: "lots (tx_db t1) = lots db" and allocs1: "allocs (tx_db t1) = allocs ?db" and user1: "tx_user t1 = tx_user t"
      using write_entry_frame [OF W] by simp_all
    have k: "key_used k t1 \<longleftrightarrow> key_used k t \<or> k = ''capture:'' @ hid @ '':'' @ lot_id l" for k
      using W by (auto simp: write_entry_Inr Let_def key_used_def ledger_key_exists_def entry_row_def db_def)
    have row: "(\<exists>y \<in> set (lots (tx_db t)). y = z \<and> lot_id y \<noteq> lot_id l) \<or> lot_remaining z = 0 \<and> lot_id z = lot_id l" if "z \<in> set (lots db)" for z
      using that \<open>n = lot_remaining l\<close> by (auto simp: db_def set_update_where)
    show ?thesis unfolding uncharged_def
    proof (intro conjI ballI impI)
      show "\<not> key_used (''capture:'' @ hid @ '':debt'') t1" using u l(1) by (auto simp: k uncharged_def)
    next
      fix y assume "y \<in> set (lots (tx_db t1))"
      with lots1 row [of y] u l(1) show "lot_id y \<noteq> ''debt''" by (auto simp: uncharged_def)
    next
      fix y assume y: "y \<in> set (lots (tx_db t1))" "lot_user y = tx_user t1" "0 < lot_remaining y"
      with lots1 row [of y] have yy: "y \<in> set (lots (tx_db t))" "lot_id y \<noteq> lot_id l" by auto
      with u y user1 show "\<not> key_used (''capture:'' @ hid @ '':'' @ lot_id y) t1" by (auto simp: k uncharged_def)
      fix a assume "a \<in> set (allocs (tx_db t1))"
      then have "a \<in> set (allocs (tx_db t)) \<or> al_lot a = lot_id l" using allocs1 by auto
      with yy u y user1 show "\<not> (al_hold a = hid \<and> al_lot a = lot_id y)" by (auto simp: uncharged_def)
    qed
  qed
  with I W show ?thesis by auto
qed

lemma spend_lots_goes:
  assumes "books s 0 h t" "0 < need" "in_i64 need" "taker_ok (TakeCapture hid m) t" "batch_ok ls t"
    and "\<forall>l \<in> set ls. 0 < lot_remaining l" "uncharged hid t"
  shows "\<exists>p' r t'. spend_lots (TakeCapture hid m) p need ls t = Inr (p', r, t') \<and> (0 < r \<longrightarrow> uncharged hid t')"
  using assms
proof (induction ls arbitrary: p need t)
  case Nil
  then show ?case by simp
next
  case (Cons l ls)
  let ?k = "TakeCapture hid m" and ?n = "min (lot_remaining l) need"
  let ?db = "(tx_db t)\<lparr>lots := update_where (\<lambda>x. lot_id x = lot_id l) (\<lambda>x. x\<lparr>lot_remaining := lot_remaining l - ?n\<rparr>) (lots (tx_db t))\<rparr>"
  have l: "l \<in> set (lots (tx_db t))" "lot_user l = tx_user t" "0 < lot_remaining l"
    using Cons.prems(5,6) by (auto simp: batch_ok_def)
  from Cons.prems(4) obtain x where x: "x \<in> set (holds (tx_db t))" "hold_id x = hid" by (auto simp: taker_ok_def)
  have n: "0 < ?n" "?n \<le> lot_remaining l" using Cons.prems(2) l by auto
  have upd: "set_lot_remaining (lot_id l) (lot_remaining l - ?n) (tx_db t) = Inr ?db"
    by (rule set_remaining_goes [OF Cons.prems(1) l(1)]) (use n in auto)
  from piece_goes [OF Cons.prems(1) x l(1,2) n Cons.prems(7), of m p] obtain t1 where
    tp: "take_piece ?k p (lot_id l) ?n (t\<lparr>tx_db := ?db\<rparr>) = Inr t1" and u1: "?n = lot_remaining l \<longrightarrow> uncharged hid t1" by blast
  show ?case
  proof (cases "need - ?n = 0")
    case True
    then show ?thesis using upd tp by (simp add: Let_def del: take_piece.simps)
  next
    case False
    have one: "spend_lots ?k p (lot_remaining l) [l] t = Inr (Suc p, 0, t1)"
      using upd tp False by (auto simp: Let_def min_def simp del: take_piece.simps split: if_splits)
    have bo: "batch_ok [l] t" using l by (simp add: batch_ok_def)
    have i: "in_i64 (lot_remaining l)" by (rule books_lot(5) [OF Cons.prems(1) l(1)])
    from spend_lots_books [OF Cons.prems(1) l(3) i Cons.prems(4) bo _ one] l
    have S: "books s 0 h t1" "spent ?k (lot_remaining l) t t1" by auto
    have "lots (tx_db t1) = lots ?db" using take_piece_frame [OF tp] by simp
    then have b1: "batch_ok ls t1"
      using batch_ok_step [OF Cons.prems(5) upd [unfolded set_lot_remaining_def]] S(2) by (simp add: spent_def)
    have nn: "0 < need - ?n" "in_i64 (need - ?n)" using False Cons.prems(2,3) l by (auto simp: in_i64_def)
    have "uncharged hid t1" using u1 False by (auto simp: min_def split: if_splits)
    moreover have "\<forall>l \<in> set ls. 0 < lot_remaining l" using Cons.prems(6) by simp
    ultimately obtain p' r t' where "spend_lots ?k (Suc p) (need - ?n) ls t1 = Inr (p', r, t')" "0 < r \<longrightarrow> uncharged hid t'"
      using Cons.IH [OF S(1) nn taker_ok_spent [OF Cons.prems(4) S(2)] b1, of "Suc p"] by blast
    then show ?thesis using upd tp False by (simp add: Let_def del: take_piece.simps)
  qed
qed

lemma spend_from_goes:
  assumes "k = TakeCapture hid m" "books s 0 h t" "0 \<le> need" "in_i64 need" "taker_ok k t" "uncharged hid t"
  shows "\<exists>r t'. spend_from k p need t = Inr (r, t') \<and> (0 < r \<longrightarrow> uncharged hid t')"
  using assms
proof (induction k p need t rule: spend_from.induct)
  case (1 k p need t)
  let ?ls = "lock_spendable_lots (tx_user t) (ts (tx_now t)) spend_batch (tx_db t)"
  show ?case
  proof (cases "0 < need \<and> ?ls \<noteq> []")
    case False
    with "1.prems"(3,6) show ?thesis by (subst spend_from.simps) (auto simp: Let_def)
  next
    case True
    then have a: "0 < need" and b: "?ls \<noteq> []" by auto
    have bo: "batch_ok ?ls t" by (rule spend_batch_ok [OF "1.prems"(2)])
    have pos: "\<forall>l \<in> set ?ls. 0 < lot_remaining l"
      unfolding lock_spendable_lots_def by (auto simp: lot_spendable_def dest!: in_set_takeD)
    from spend_lots_goes [OF "1.prems"(2) a "1.prems"(4,5) [unfolded "1.prems"(1)] bo pos "1.prems"(6)]
    obtain p' n' t1 where sl: "spend_lots k p need ?ls t = Inr (p', n', t1)" and u: "0 < n' \<longrightarrow> uncharged hid t1"
      using "1.prems"(1) by blast
    from spend_lots_books [OF "1.prems"(2) a "1.prems"(4,5) bo pos sl]
    have S: "books s 0 h t1" "spent k (need - n') t t1" "0 \<le> n'" "n' \<le> need" by auto
    have n': "in_i64 n'" using "1.prems"(4) S(3,4) by (rule in_i64_le)
    have eq: "spend_from k p need t = spend_from k p' n' t1"
      using a b sl by (simp add: spend_from.simps [of k p need t] Let_def)
    show ?thesis
    proof (cases "0 < n'")
      case True
      with "1.IH" [OF a refl b sl refl refl "1.prems"(1) S(1,3) n' taker_ok_spent [OF "1.prems"(5) S(2)]] u
      show ?thesis unfolding eq by blast
    next
      case False
      then show ?thesis unfolding eq by (simp add: spend_from.simps [of k p' n' t1])
    qed
  qed
qed

text \<open>A capture of a hold the sweep let go, and that was not charged, goes through, and charges the whole amount.\<close>

lemma capture_goes:
  assumes B: "books s 0 0 t" and L: "lock_hold hid t = Inr x" and k: "hold_kind x = HoldCredits" "hold_state x = StateReleased"
      "text_or_empty (hold_release_reason x) \<noteq> release_settled"
    and u: "uncharged hid t" and i: "in_i64 (tx_debt t + hold_amount x)"
  shows "\<exists>res t2 t3. capture parse hid m t = Inr (res, t2) \<and> flush t2 = Inr t3 \<and> \<not> cr_already_captured res \<and>
    cr_spent res + cr_debt res = hold_amount x \<and>
    tx_balance t2 = tx_balance t - cr_spent res \<and> tx_debt t2 = tx_debt t + cr_debt res"
proof -
  note x = lock_hold_Inr [OF L]
  note n = books_hold_kind(2,3) [OF B conjunct1 [OF x]]
  let ?k = "TakeCapture (hold_id x) m"
  have tk: "taker_ok ?k t" using x by (auto simp: taker_ok_def)
  have "uncharged (hold_id x) t" "0 \<le> hold_amount x" using u x n(1) by simp_all
  then obtain r t1 where
    SF: "spend_from ?k 0 (hold_amount x) t = Inr (r, t1)" and u1: "0 < r \<longrightarrow> uncharged (hold_id x) t1"
    using spend_from_goes [OF refl B _ n(2) tk] by blast
  from spend_from_books [OF B _ n(2) tk SF] n(1)
  have S: "books s 0 0 t1" "spent ?k (hold_amount x - r) t t1" "0 \<le> r" "r \<le> hold_amount x" by auto
  note f = books_figures [OF S(1), unfolded figure_ok_def]
  have "\<exists>t2. (if r > 0
       then write_entry ((capture_entry x m '':debt'')\<lparr>en_debt_delta := r,
              en_note := ''capture after the hold lapsed; balance did not cover it''\<rparr>) t1
       else Inr t1) = Inr t2"
  proof (cases "r > 0")
    case True
    with u1 have "\<not> key_used (''capture:'' @ hold_id x @ '':debt'') t1" using x by (simp add: uncharged_def)
    moreover have "tx_debt t1 = tx_debt t" using S(2) by (simp add: spent_def debt_part_def)
    then have "in_i64 (tx_debt t1 + r)" "0 \<le> tx_debt t1 + r" using i S(3,4) f by (auto simp: in_i64_def)
    ultimately show ?thesis using f True
      by (auto simp: write_entry_Inr Let_def capture_entry_def no_entry_def)
  qed simp
  then obtain t2 where "capture_credits x m t = Inr (r, t2)"
    using SF k by (auto simp: capture_credits_def)
  moreover from capture_credits_books [OF B _ _ k(1) this] x
  have C: "books s 0 (held_part x) t2" "0 \<le> r" "r \<le> hold_amount x" "tx_balance t2 = tx_balance t - (hold_amount x - r)"
    "tx_debt t2 = tx_debt t + r" "x \<in> set (holds (tx_db t2))" "hold_user x = tx_user t2" by auto
  let ?t3 = "t2\<lparr>tx_db := mark_hold_captured (hold_id x) (ts (tx_now t2)) (parse m) (tx_db t2)\<rparr>"
  have "books s 0 0 ?t3" using books_mark_captured [OF C(1,6,7)] by simp
  from books_figures [OF this] have "\<exists>t4. flush ?t3 = Inr t4"
    by (auto simp: flush_def update_wallet_def figure_ok_def)
  ultimately show ?thesis using L k C(2-5)
    by (intro exI [of _ "\<lparr>cr_already_captured = False, cr_spent = hold_amount x - r, cr_debt = (if r > 0 then r else 0)\<rparr>"])
      (auto simp: capture_def)
qed

text \<open>Applying what is due, and committing, leave holds and the refund log alone.\<close>

lemma decay_steps_holds: "decay_steps l p js r t = Inr (r', t') \<Longrightarrow> holds (tx_db t') = holds (tx_db t) \<and> tx_user t' = tx_user t"
proof (induction js arbitrary: r t)
  case (Cons j js)
  then show ?case by (fastforce simp: Let_def dest: write_entry_frame split: if_splits)
qed simp

lemma apply_due_lots_holds: "apply_due_lots ls t = Inr t' \<Longrightarrow> holds (tx_db t') = holds (tx_db t) \<and> tx_user t' = tx_user t"
proof (induction ls arbitrary: t)
  case (Cons l ls)
  then obtain r t1 t2 where D: "decay_lot l t = Inr (r, t1)" and E: "expire_lot l r t1 = Inr t2"
    and R: "apply_due_lots ls t2 = Inr t'" by auto
  have "holds (tx_db t1) = holds (tx_db t) \<and> tx_user t1 = tx_user t"
    using D by (auto simp: decay_lot_def Let_def set_lot_decay_def update_lot_Inr dest!: decay_steps_holds split: if_splits)
  moreover have "holds (tx_db t2) = holds (tx_db t1) \<and> tx_user t2 = tx_user t1"
    using E by (auto simp: expire_lot_def set_lot_remaining_def update_lot_Inr
        dest: write_entry_frame(2) write_entry_frame(4) split: if_splits)
  ultimately show ?case using Cons.IH [OF R] by simp
qed simp

lemma start_tx_frame:
  assumes "start_tx now uuids u db = Inr t"
  shows "lock_hold hid t = (case query_lock_hold hid u db of
      None \<Rightarrow> Inl (wrap1 (''wallet: hold '' @ hid) ErrNotFound) | Some h \<Rightarrow> Inr h)" "beside (tx_db t) = beside db" "tx_user t = u"
proof -
  from assms obtain w where A: "apply_due_lots (lock_due_lots u (ts now) db) (open_tx now uuids w u db) = Inr t"
    by (auto simp: start_tx_def apply_due_def open_tx_def split: option.splits)
  from apply_due_lots_holds [OF A] beside_apply_due_lots [OF A]
  show "lock_hold hid t = (case query_lock_hold hid u db of
      None \<Rightarrow> Inl (wrap1 (''wallet: hold '' @ hid) ErrNotFound) | Some h \<Rightarrow> Inr h)" "beside (tx_db t) = beside db" "tx_user t = u"
    by (auto simp: open_tx_def lock_hold_def query_lock_hold_def split: option.splits)
qed

lemma flush_frame: "flush t = Inr t' \<Longrightarrow> holds (tx_db t') = holds (tx_db t) \<and> beside (tx_db t') = beside (tx_db t)"
  by (auto simp: flush_def update_wallet_def insert_billing_outbox_def beside_def split: if_splits)

text \<open>
  C30. A hold the sweep released before the cancellation arrives stays chargeable: the settlement of a fully refundable
  cancellation commits, logs the hold as released and leaves its row as it is; in every later transaction, if nothing
  was charged for the hold in between, a capture succeeds and commits, and takes the whole amount of the cancelled
  meetup's hold from the balance or puts it down as debt, while the logged row blocks any refund.
\<close>

theorem expired_hold_stays_chargeable:
  assumes "all_ok db" "start_tx now uuids u db = Inr t"
    and x: "lock_hold hid t = Inr x" "hold_kind x = HoldCredits" "hold_state x = StateReleased"
      "text_or_empty (hold_release_reason x) \<noteq> release_settled"
    and "refund_percent (refunds (rules_doc r)) e = 100" "\<not> refund_capped r 100 t" "\<not> refund_log_exists hid (tx_db t)"
    and settled: "settle_tx parse r hid e t = Inr (v, t')" "flush t' = Inr tc"
    and later: "start_tx now1 uuids1 u (tx_db tc) = Inr t1" "uncharged hid t1" "in_i64 (tx_debt t1 + hold_amount x)"
  shows "refund_log_exists hid (tx_db t1) \<and> lock_hold hid t1 = Inr x \<and>
    (\<exists>res t2 t3. capture parse hid m t1 = Inr (res, t2) \<and> flush t2 = Inr t3 \<and> \<not> cr_already_captured res \<and>
      cr_spent res + cr_debt res = hold_amount x \<and>
      tx_balance t2 = tx_balance t1 - cr_spent res \<and> tx_debt t2 = tx_debt t1 + cr_debt res)"
proof -
  from assms(2) obtain w where w: "lock_wallet u db = Some w" and A: "apply_due (open_tx now uuids w u db) = Inr t"
    by (auto simp: start_tx_def split: option.splits)
  from w have w': "w \<in> set (wallets db)" "w_user w = u" by (auto simp: lock_wallet_def dest!: find_SomeD)
  let ?o = "open_tx now uuids w u db"
  from apply_due_books [OF open_tx_books [OF assms(1) w'] A] have B: "books ?o 0 0 t" .
  from flush_ok [OF settle_tx_books [OF B settled(1)] _ _ _ settled(2), of w] w'
  have ok: "all_ok (tx_db tc)" by (simp add: open_tx_def)
  have "hv_state (hold_from_row x) \<noteq> StateCaptured" using x by (simp add: hold_from_row_def)
  with assms obtain db1 where
    I: "insert_refund_log \<lparr>rl_user = tx_user t, rl_hold = hid, rl_meetup = parse (me_meetup_id e), rl_event = me_event e,
      rl_outcome = OutReleased, rl_percent = i32 100, rl_amount = 0, rl_created_at = ts (tx_now t)\<rparr> (tx_db t) = Inr db1"
    and t': "t' = t\<lparr>tx_db := db1\<rparr>"
    by (auto simp: settle_tx_def Let_def get_hold_state_def release_def log_refund_def)
  from I have "holds db1 = holds (tx_db t)" by (auto simp: insert_refund_log_def split: if_splits)
  moreover have user: "tx_user t = u" by (rule start_tx_frame(3) [OF assms(2)])
  moreover note fl = flush_frame [OF settled(2)]
  moreover have "query_lock_hold hid u (tx_db t) = Some x" using x(1) user by (simp add: lock_hold_def split: option.splits)
  ultimately have "query_lock_hold hid u (tx_db tc) = Some x" by (simp add: t' query_lock_hold_def)
  with start_tx_frame(1) [OF later(1), of hid] have L: "lock_hold hid t1 = Inr x" by simp
  have log: "refund_log_exists hid (tx_db t1)"
    using settle_tx_logged [OF settled(1)] fl start_tx_frame(2) [OF later(1)] by (simp add: refund_log_exists_def beside_def)
  from start_tx_books [OF ok later(1)] obtain s where "books s 0 0 t1" by blast
  from capture_goes [OF this L x(2-4) later(2,3), of parse m] log L show ?thesis by blast
qed

text \<open>The sweep lets the hold of four credits go, the meetup is cancelled in time and settled, and the charge arrives.\<close>

definition sample_lapsed :: billing_db where
  "sample_lapsed = snd (ledger_do_uuid False False 1000 sample_uuids (run_script Some [OpRelease ''h'' ''expired'']) ''u'' sample_db)"

definition sample_lapsed_tx :: tx where
  "sample_lapsed_tx = projr (start_tx 2000 sample_uuids ''u'' sample_lapsed)"

definition sample_in_time :: meetup_ended where
  "sample_in_time = sample_ended\<lparr>me_event := event_cancelled\<rparr>"

definition sample_settled_tx :: tx where
  "sample_settled_tx = projr (flush (snd (projr (settle_tx Some sample_rules ''h'' sample_in_time sample_lapsed_tx))))"

definition sample_late_tx :: tx where
  "sample_late_tx = projr (start_tx 3000 sample_uuids ''u'' (tx_db sample_settled_tx))"

lemma sample_lapsed_ok: "all_ok sample_lapsed"
  using script_op.committed [of "(Some, [OpRelease ''h'' ''expired''])", OF _ sample_ok, of False False 1000 sample_uuids "''u''"]
  by (simp add: sample_lapsed_def)

lemma expired_hold_stays_chargeable_witness:
  "refund_log_exists ''h'' (tx_db sample_late_tx) \<and> tx_balance sample_late_tx = 10 \<and>
   (\<exists>res t2. capture Some ''h'' ''m'' sample_late_tx = Inr (res, t2) \<and> \<not> cr_already_captured res \<and>
     cr_spent res + cr_debt res = 4 \<and> tx_balance t2 = 10 - cr_spent res)"
proof -
  let ?s = "settle_tx Some sample_rules ''h'' sample_in_time sample_lapsed_tx"
  have "\<not> isl (start_tx 2000 sample_uuids ''u'' sample_lapsed)" by code_simp
  from right_value [OF this] have st: "start_tx 2000 sample_uuids ''u'' sample_lapsed = Inr sample_lapsed_tx"
    by (simp add: sample_lapsed_tx_def)
  have "\<not> isl ?s" by code_simp
  note se = right_pair [OF this]
  have "\<not> isl (flush (snd (projr ?s)))" by code_simp
  from right_value [OF this] have fl: "flush (snd (projr ?s)) = Inr sample_settled_tx" by (simp add: sample_settled_tx_def)
  have "\<not> isl (start_tx 3000 sample_uuids ''u'' (tx_db sample_settled_tx))" by code_simp
  from right_value [OF this] have lt: "start_tx 3000 sample_uuids ''u'' (tx_db sample_settled_tx) = Inr sample_late_tx"
    by (simp add: sample_late_tx_def)
  have l: "lock_hold ''h'' sample_lapsed_tx = Inr (projr (lock_hold ''h'' sample_lapsed_tx))"
    by (rule right_value) code_simp
  have h: "hold_kind (projr (lock_hold ''h'' sample_lapsed_tx)) = HoldCredits"
    "hold_state (projr (lock_hold ''h'' sample_lapsed_tx)) = StateReleased"
    "text_or_empty (hold_release_reason (projr (lock_hold ''h'' sample_lapsed_tx))) \<noteq> release_settled"
    and a: "hold_amount (projr (lock_hold ''h'' sample_lapsed_tx)) = 4" by code_simp+
  have p: "refund_percent (refunds (rules_doc sample_rules)) sample_in_time = 100"
    and c: "\<not> refund_capped sample_rules 100 sample_lapsed_tx" and g: "\<not> refund_log_exists ''h'' (tx_db sample_lapsed_tx)"
    and u: "uncharged ''h'' sample_late_tx" and d: "tx_debt sample_late_tx = 0" and b: "tx_balance sample_late_tx = 10" by code_simp+
  from expired_hold_stays_chargeable [OF sample_lapsed_ok st l h p c g se fl lt u, of "''m''"] a b d show ?thesis
    by (auto simp: in_i64_def)
qed

end
