(* ===== verification/Store_Frame.thy ===== *)
theory Store_Frame
  imports Requests
begin

text \<open>
  The wallet never touches the store's tables: purchases, notices, products, subscriptions and
  plans are the same after every wallet operation. On top of it, the contract of a relation that
  every request of the service respects.
\<close>

section \<open>Wallet operations\<close>

definition store_part :: "billing_db \<Rightarrow> product_row list \<times> purchase_row list \<times> notice_row list \<times> subscription_row list \<times> plan_row list" where
  "store_part db = (products db, purchases db, notices db, subscriptions db, plans db)"

lemma store_part_update [simp]:
  "store_part (db\<lparr>wallets := x1\<rparr>) = store_part db" "store_part (db\<lparr>lots := x2\<rparr>) = store_part db"
  "store_part (db\<lparr>holds := x3\<rparr>) = store_part db" "store_part (db\<lparr>allocs := x4\<rparr>) = store_part db"
  "store_part (db\<lparr>ledger := x5\<rparr>) = store_part db" "store_part (db\<lparr>plan_usages := x6\<rparr>) = store_part db"
  "store_part (db\<lparr>outbox := x7\<rparr>) = store_part db" "store_part (db\<lparr>welcome_grants := x8\<rparr>) = store_part db"
  "store_part (db\<lparr>refund_log := x9\<rparr>) = store_part db" "store_part (db\<lparr>admin_audits := x10\<rparr>) = store_part db"
  "store_part (db\<lparr>recon_runs := x11\<rparr>) = store_part db"
  by (simp_all add: store_part_def)

named_theorems store_frame

lemma queries_store [store_frame]:
  "update_lot i f db = Inr db' \<Longrightarrow> store_part db' = store_part db"
  "set_lot_remaining i n db = Inr db' \<Longrightarrow> store_part db' = store_part db"
  "set_lot_decay i n k0 nxt db = Inr db' \<Longrightarrow> store_part db' = store_part db"
  "expire_lot_now i now db = Inr db' \<Longrightarrow> store_part db' = store_part db"
  "insert_lot l db = Inr db' \<Longrightarrow> store_part db' = store_part db"
  "insert_allocation hid lid n db = Inr db' \<Longrightarrow> store_part db' = store_part db"
  "add_allocation_refund hid lid n db = Inr db' \<Longrightarrow> store_part db' = store_part db"
  "insert_hold h db = Inr db' \<Longrightarrow> store_part db' = store_part db"
  "supersede_hold_key i db = Inr db' \<Longrightarrow> store_part db' = store_part db"
  "set_plan_usage u p used held db = Inr db' \<Longrightarrow> store_part db' = store_part db"
  "update_wallet u b k d db = Inr db' \<Longrightarrow> store_part db' = store_part db"
  "insert_refund_log r db = Inr db' \<Longrightarrow> store_part db' = store_part db"
  "insert_admin_audit a db = Inr db' \<Longrightarrow> store_part db' = store_part db"
  by (auto simp: update_lot_Inr set_lot_remaining_def set_lot_decay_def expire_lot_now_def insert_lot_def
      insert_allocation_def add_allocation_refund_def insert_hold_def supersede_hold_key_def set_plan_usage_def
      update_wallet_def insert_refund_log_def insert_admin_audit_def Let_def split: if_splits)

lemma marks_store [simp]:
  "store_part (mark_hold_released i now r db) = store_part db"
  "store_part (mark_hold_captured i now m db) = store_part db"
  "store_part (ensure_plan_usage u p db) = store_part db"
  "store_part (ensure_wallet u db) = store_part db"
  "store_part (insert_billing_outbox topic e db) = store_part db"
  "store_part (snd (close_wallet u now db)) = store_part db"
  "store_part (insert_reconciliation_run run db) = store_part db"
  "store_part (snd (insert_welcome_grant g db)) = store_part db"
  by (simp_all add: mark_hold_released_def mark_hold_captured_def ensure_plan_usage_def ensure_wallet_def
      insert_billing_outbox_def close_wallet_def insert_reconciliation_run_def insert_welcome_grant_def)

lemma draw_uuid_db [simp]: "tx_db (snd (draw_uuid t)) = tx_db t"
  by (simp add: draw_uuid_def)

lemma write_entry_store [store_frame]: "write_entry e t = Inr t' \<Longrightarrow> store_part (tx_db t') = store_part (tx_db t)"
  by (auto simp: write_entry_Inr Let_def)

lemma take_piece_store [store_frame]: "take_piece k p lid n t = Inr t' \<Longrightarrow> store_part (tx_db t') = store_part (tx_db t)"
  by (cases k) (auto simp: draw_uuid_def dest!: store_frame)

lemma spend_lots_store [store_frame]:
  "spend_lots k p need ls t = Inr (p', need', t') \<Longrightarrow> store_part (tx_db t') = store_part (tx_db t)"
  by (induction k p need ls t rule: spend_lots.induct) (fastforce simp: Let_def split: if_splits dest: store_frame)+

lemma spend_from_store [store_frame]:
  "spend_from k p need t = Inr (need', t') \<Longrightarrow> store_part (tx_db t') = store_part (tx_db t)"
proof (induction k p need t rule: spend_from.induct)
  case (1 k p need t)
  from "1.prems" show ?case
  proof (subst (asm) spend_from.simps, cases "need > 0 \<and> lock_spendable_lots (tx_user t) (ts (tx_now t)) spend_batch (tx_db t) \<noteq> []")
    case True
    then obtain p1 need1 t1 where s: "spend_lots k p need (lock_spendable_lots (tx_user t) (ts (tx_now t)) spend_batch (tx_db t)) t = Inr (p1, need1, t1)"
      and r: "spend_from k p1 need1 t1 = Inr (need', t')"
      using "1.prems" by (subst (asm) spend_from.simps) (auto simp: Let_def)
    from "1.IH" [OF _ refl _ s refl refl r] True spend_lots_store [OF s] show ?thesis by simp
  next
    case False
    with "1.prems" show ?thesis by (subst (asm) spend_from.simps) (auto simp: Let_def split: if_splits)
  qed
qed

lemma settle_debt_store [store_frame]: "settle_debt t = Inr t' \<Longrightarrow> store_part (tx_db t') = store_part (tx_db t)"
  by (auto simp: settle_debt_def spend_def split: if_splits dest!: store_frame)

lemma grant_store [store_frame]: "grant g t = Inr (lid, t') \<Longrightarrow> store_part (tx_db t') = store_part (tx_db t)"
  by (auto simp: grant_def draw_uuid_def Let_def split: if_splits dest!: store_frame)

lemma remove_store [store_frame]: "remove n key oper nte t = Inr t' \<Longrightarrow> store_part (tx_db t') = store_part (tx_db t)"
  by (auto simp: remove_def spend_def split: if_splits dest!: store_frame)

lemma decay_steps_store [store_frame]:
  "decay_steps l p js r t = Inr (r', t') \<Longrightarrow> store_part (tx_db t') = store_part (tx_db t)"
  by (induction l p js r t rule: decay_steps.induct) (fastforce simp: Let_def split: if_splits dest: store_frame)+

lemma decay_lot_store [store_frame]: "decay_lot l t = Inr (r, t') \<Longrightarrow> store_part (tx_db t') = store_part (tx_db t)"
  by (auto simp: decay_lot_def Let_def split: if_splits dest!: store_frame)

lemma expire_lot_store [store_frame]: "expire_lot l r t = Inr t' \<Longrightarrow> store_part (tx_db t') = store_part (tx_db t)"
  by (auto simp: expire_lot_def split: if_splits dest!: store_frame)

lemma apply_due_lots_store: "apply_due_lots ls t = Inr t' \<Longrightarrow> store_part (tx_db t') = store_part (tx_db t)"
  by (induction ls t rule: apply_due_lots.induct) (fastforce dest: store_frame)+

lemma apply_due_store [store_frame]: "apply_due t = Inr t' \<Longrightarrow> store_part (tx_db t') = store_part (tx_db t)"
  by (simp add: apply_due_def apply_due_lots_store)

lemma adjust_quota_store [store_frame]: "adjust_quota p f t = Inr t' \<Longrightarrow> store_part (tx_db t') = store_part (tx_db t)"
  by (auto simp: adjust_quota_def Let_def split: option.splits dest!: store_frame)

lemma reserve_new_store [store_frame]: "reserve_new i t = Inr (v, t') \<Longrightarrow> store_part (tx_db t') = store_part (tx_db t)"
  by (auto simp: reserve_new_def reserve_kind_def draw_uuid_def Let_def split: if_splits hold_kind.splits dest!: store_frame)

lemma reserve_store [store_frame]: "reserve i t = Inr (v, t') \<Longrightarrow> store_part (tx_db t') = store_part (tx_db t)"
  by (auto simp: reserve_def reuse_hold_def Let_def split: if_splits option.splits dest!: store_frame)

lemma release_store [store_frame]: "release i r t = Inr (x, t') \<Longrightarrow> store_part (tx_db t') = store_part (tx_db t)"
  by (auto simp: release_def split: if_splits hold_kind.splits dest!: store_frame)

lemma capture_store [store_frame]: "capture parse i m t = Inr (x, t') \<Longrightarrow> store_part (tx_db t') = store_part (tx_db t)"
  by (auto simp: capture_def capture_credits_def split: if_splits hold_kind.splits dest!: store_frame simp del: de_Morgan_conj)

lemma give_back_store [store_frame]:
  "give_back h ty ri as left rem t = Inr t' \<Longrightarrow> store_part (tx_db t') = store_part (tx_db t)"
  by (induction h ty ri as left rem t rule: give_back.induct) (fastforce simp: Let_def split: if_splits dest: store_frame)+

lemma reapply_lots_store [store_frame]:
  "reapply_lots ls t = Inr t' \<Longrightarrow> store_part (tx_db t') = store_part (tx_db t)"
  by (induction ls t rule: reapply_lots.induct) (fastforce simp: draw_uuid_def Let_def split: if_splits dest: store_frame)+

lemma refund_store [store_frame]: "refund i p ty ri t = Inr (x, t') \<Longrightarrow> store_part (tx_db t') = store_part (tx_db t)"
  by (auto simp: refund_def refund_credits_def write_off_debt_def Let_def split: if_splits dest!: store_frame)

lemma revoke_lot_store [store_frame]:
  "revoke_lot i key ty ri t = Inr (x, y, t') \<Longrightarrow> store_part (tx_db t') = store_part (tx_db t)"
  by (auto simp: revoke_lot_def Let_def split: if_splits option.splits dest!: store_frame)

end
