(* ===== verification/Store_History.thy ===== *)
theory Store_History
  imports Store_Frame
begin

text \<open>
  Relations between an earlier and a later database that every request of the service respects.
  The contract asks only what the store's own statements do; that the wallet, the sweeps and the
  operators respect it follows once, inside the locale.
\<close>

section \<open>One transaction\<close>

lemma flush_store: "flush t = Inr t' \<Longrightarrow> store_part (tx_db t') = store_part (tx_db t)"
  by (auto simp: flush_def split: if_splits dest!: store_frame)

lemma store_settle [store_frame]:
  "settle_captured parse hid p capped e t = Inr (x, t') \<Longrightarrow> store_part (tx_db t') = store_part (tx_db t)"
  by (auto simp: settle_captured_def log_refund_def Let_def split: if_splits dest!: store_frame)

lemma store_settle_tx [store_frame]:
  "settle_tx parse r hid e t = Inr (x, t') \<Longrightarrow> store_part (tx_db t') = store_part (tx_db t)"
  by (auto simp: settle_tx_def log_refund_def Let_def split: if_splits dest!: store_frame)

lemma store_welcome [store_frame]:
  assumes "welcome_tx r u fp t = Inr (x, t')"
  shows "store_part (tx_db t') = store_part (tx_db t)"
proof -
  from assms obtain lid t1 n db where g: "grant (welcome_input r u (tx_now t)) t = Inr (lid, t1)"
    and i: "insert_welcome_grant \<lparr>wg_user = u, wg_fingerprint = fp, wg_lot = lid,
        wg_amount = welcome_credits (doc_welcome (rules_doc r))\<rparr> (tx_db t1) = (n, db)"
    and t': "t' = t1\<lparr>tx_db := db\<rparr>"
    by (auto simp: welcome_tx_def Let_def split: sum.splits if_splits prod.splits)
  from arg_cong [OF i, of snd] have "store_part db = store_part (tx_db t1)" by (metis marks_store(8) snd_conv)
  with grant_store [OF g] t' show ?thesis by simp
qed

lemma store_admin [store_frame]:
  "admin_grant_tx n ex a t = Inr (y, t') \<Longrightarrow> store_part (tx_db t') = store_part (tx_db t)"
  "admin_adjust_tx n a t = Inr (y, t') \<Longrightarrow> store_part (tx_db t') = store_part (tx_db t)"
  by (auto simp: admin_grant_tx_def admin_adjust_tx_def Let_def split: if_splits dest!: store_frame)

lemma store_reserve_tx [store_frame]:
  assumes "reserve_tx u r req key t = Inr (y, t')"
  shows "store_part (tx_db t') = store_part (tx_db t)"
proof -
  from assms obtain i h where "reserve i t = Inr (h, t')"
    by (auto simp: reserve_tx_def split: if_splits option.splits)
  then show ?thesis by (rule reserve_store)
qed

lemma store_reads [store_frame]:
  "quote_tx u r capacity at t = Inr (y1, t') \<Longrightarrow> store_part (tx_db t') = store_part (tx_db t)"
  "wallet_view_tx t = Inr (y2, t') \<Longrightarrow> store_part (tx_db t') = store_part (tx_db t)"
  "no_op t = Inr (y3, t') \<Longrightarrow> store_part (tx_db t') = store_part (tx_db t)"
  "discard (drop_answer (release hid reason t)) = Inr (y4, t') \<Longrightarrow> store_part (tx_db t') = store_part (tx_db t)"
  by (auto simp: quote_tx_def wallet_view_tx_def no_op_def dest!: store_frame)

section \<open>The contract\<close>

locale store_history =
  fixes R :: "billing_db \<Rightarrow> billing_db \<Rightarrow> bool"
  assumes same: "store_part a = store_part b \<Longrightarrow> R a b"
    and trans: "R a b \<Longrightarrow> R b c \<Longrightarrow> R a c"
    and planned: "upsert_subscription s a = Inr b \<Longrightarrow> R a b"
    and recorded: "record_purchase parse u p tr ft t = Inr ((row, repeat), t') \<Longrightarrow> R (tx_db t) (tx_db t')"
    and credited: "record_purchase parse u p tr ft t = Inr ((row, False), t') \<Longrightarrow> store_part (tx_db t') = store_part b \<Longrightarrow>
      R (tx_db t) (set_store_purchase_grant (sp_id row) n lot b)"
    and finished: "R a (mark_purchase_finished i now a)"
    and refunded: "R a (mark_purchase_refunded i now a)"
    and noticed: "record_notice nt oc a = Inr (isnew, b) \<Longrightarrow> R a b"
begin

lemma refl: "R a a"
  by (rule same) simp

lemma done_uuid:
  assumes "\<And>t x t'. fn t = Inr (x, t') \<Longrightarrow> R (tx_db t) (tx_db t')"
  shows "R db (snd (ledger_do_uuid skip busy now uuids fn u db))"
proof -
  let ?db = "if skip then db else ensure_wallet u db"
  have e: "R db ?db" by (rule same) simp
  show ?thesis
  proof (cases "if skip \<and> busy then None else lock_wallet u ?db")
    case None
    then show ?thesis by (simp add: ledger_do_uuid_def Let_def refl)
  next
    case (Some w)
    show ?thesis
    proof (cases "run_locked now uuids fn w u ?db")
      case (Inl err)
      with Some show ?thesis by (simp add: ledger_do_uuid_def Let_def refl)
    next
      case (Inr r)
      then obtain t1 x t2 t3 where
        r: "apply_due (open_tx now uuids w u ?db) = Inr t1" "fn t1 = Inr (x, t2)" "flush t2 = Inr t3" "r = (x, tx_db t3)"
        by (auto simp: run_locked_def)
      have "R ?db (tx_db t1)" by (rule same) (use apply_due_store [OF r(1)] in \<open>simp add: open_tx_def\<close>)
      moreover have "R (tx_db t2) (tx_db t3)" by (rule same) (use flush_store [OF r(3)] in simp)
      ultimately have "R db (tx_db t3)" using e assms [OF r(2)] trans by blast
      with Some Inr r(4) show ?thesis by (simp add: ledger_do_uuid_def Let_def)
    qed
  qed
qed

lemma done_do:
  assumes F: "\<And>t x t'. fn t = Inr (x, t') \<Longrightarrow> R (tx_db t) (tx_db t')" and D: "service_do e n user fn sv = (a, sv')"
  shows "R (sv_db sv) (sv_db sv')"
proof (cases "e_parse e user")
  case None
  then show ?thesis using service_do_snd [OF D] by (simp add: ledger_do_def refl)
next
  case (Some u)
  have "R (sv_db sv) (snd (ledger_do_uuid False False (e_now e) (e_uuids e n) fn u (sv_db sv)))"
    by (rule done_uuid) (rule F)
  with Some show ?thesis using service_do_snd [OF D] by (simp add: ledger_do_def)
qed

lemma done_wallet:
  assumes F: "\<And>t x t'. fn t = Inr (x, t') \<Longrightarrow> store_part (tx_db t') = store_part (tx_db t)"
    and D: "service_do e n user fn sv = (a, sv')"
  shows "R (sv_db sv) (sv_db sv')"
proof (rule done_do [OF _ D])
  fix t x t'
  assume "fn t = Inr (x, t')"
  from F [OF this] show "R (tx_db t) (tx_db t')" by (intro same) simp
qed

lemma rules_loaded: "load_rules e sv = (a, sv') \<Longrightarrow> sv_db sv' = sv_db sv"
  by (auto simp: load_rules_def Let_def split: if_splits sum.splits)

lemma wallet_steps:
  "service_do e n user (welcome_tx r u fp) sv = (a1, sv') \<Longrightarrow> R (sv_db sv) (sv_db sv')"
  "service_do e n user (quote_tx u r capacity at) sv = (a2, sv') \<Longrightarrow> R (sv_db sv) (sv_db sv')"
  "service_do e n user wallet_view_tx sv = (a3, sv') \<Longrightarrow> R (sv_db sv) (sv_db sv')"
  "service_do e n user (\<lambda>t. discard (drop_answer (release hid reason t))) sv = (a4, sv') \<Longrightarrow> R (sv_db sv) (sv_db sv')"
  "service_do e n user (reserve_tx u r req key) sv = (a5, sv') \<Longrightarrow> R (sv_db sv) (sv_db sv')"
  "service_do e n user (release hid reason) sv = (a6, sv') \<Longrightarrow> R (sv_db sv) (sv_db sv')"
  "service_do e n user (capture parse hid m) sv = (a7, sv') \<Longrightarrow> R (sv_db sv) (sv_db sv')"
  "service_do e n user (settle_tx parse r hid ev) sv = (a8, sv') \<Longrightarrow> R (sv_db sv) (sv_db sv')"
  "service_do e n user (admin_grant_tx k ex a0) sv = (a9, sv') \<Longrightarrow> R (sv_db sv) (sv_db sv')"
  "service_do e n user (admin_adjust_tx k a0) sv = (a10, sv') \<Longrightarrow> R (sv_db sv) (sv_db sv')"
  by (rule done_wallet [rotated], assumption, erule store_frame)+

lemma after_rules: "load_rules e sv = (a, sv1) \<Longrightarrow> R (sv_db sv1) db \<Longrightarrow> R (sv_db sv) db"
  using rules_loaded by metis

lemma after_rules': "load_rules e sv = (a, sv1) \<Longrightarrow> R db (sv_db sv) \<Longrightarrow> R db (sv_db sv1)"
  using rules_loaded by metis

lemma welcomed: "R (sv_db sv) (sv_db (ensure_welcome e ca sv))"
  by (auto simp: ensure_welcome_def refl split: option.split sum.split prod.split
      intro: after_rules wallet_steps [OF prod.collapse [symmetric]] after_rules')

lemma after_welcome: "R (sv_db (ensure_welcome e ca sv)) db \<Longrightarrow> R (sv_db sv) db"
  by (rule trans [OF welcomed])

lemma quoted: "R (sv_db sv) (sv_db (snd (get_quote e ca capacity at sv)))"
  by (auto simp: get_quote_def Let_def refl split: sum.split prod.split;
      blast intro: after_rules after_rules' after_welcome wallet_steps refl)

lemma entitled: "R (sv_db sv) (sv_db (snd (get_entitlements e ca sv)))"
  by (auto simp: get_entitlements_def Let_def refl split: sum.split prod.split;
      blast intro: after_rules' after_welcome refl)

lemma viewed: "R (sv_db sv) (sv_db (snd (get_wallet_view e ca sv)))"
  by (auto simp: get_wallet_view_def Let_def refl split: sum.split prod.split
      intro: after_welcome wallet_steps refl)

lemma reserved: "R (sv_db sv) (sv_db (snd (service_reserve e user req key sv)))"
  by (auto simp: service_reserve_def Let_def refl split: sum.split prod.split
      intro: after_rules after_rules' wallet_steps refl)

lemma released: "R (sv_db sv) (sv_db (snd (service_release e h sv)))"
  by (auto simp: service_release_def Let_def refl split: sum.split prod.split intro: wallet_steps)

lemma captured: "R (sv_db sv) (sv_db (snd (service_capture e h m sv)))"
  by (auto simp: service_capture_def Let_def refl split: sum.split prod.split intro: wallet_steps)

lemma ended: "R (sv_db sv) (sv_db (snd (handle_meetup_ended e ev sv)))"
  by (auto simp: handle_meetup_ended_def Let_def refl split: sum.split prod.split
      intro: after_rules after_rules' wallet_steps refl)

lemma operated:
  "R (sv_db sv) (sv_db (snd (admin_grant e user k ex a sv)))"
  "R (sv_db sv) (sv_db (snd (admin_adjust e user k a sv)))"
  by (auto simp: admin_grant_def admin_adjust_def Let_def refl split: option.split prod.split intro: wallet_steps)

lemma swept_holds: "R (sv_db sv) (sv_db (snd (sweep_holds e n rows k sv)))"
proof (induction e n rows k sv rule: sweep_holds.induct)
  case (1 e n released sv)
  show ?case by (simp add: refl)
next
  case (2 e n hid owner rows released sv)
  obtain a sv1 where d: "service_do e n owner (release hid ''expired'') sv = (a, sv1)" by force
  note s = wallet_steps(6) [OF d]
  from trans [OF s] "2.IH" d show ?case by (auto simp: s split: sum.split)
qed

lemma swept_due: "R (sv_db sv) (sv_db (snd (sweep_due busy e n us sv)))"
proof (induction busy e n us sv rule: sweep_due.induct)
  case (1 busy e n sv)
  show ?case by (simp add: refl)
next
  case (2 busy e n u us sv)
  obtain a db where d: "ledger_apply_due (busy u) (e_now e) (e_uuids e n) u (sv_db sv) = (a, db)" by force
  have "R (sv_db sv) (snd (ledger_apply_due (busy u) (e_now e) (e_uuids e n) u (sv_db sv)))"
    unfolding ledger_apply_due_def by (rule done_uuid) (auto simp: no_op_def refl)
  then have s: "R (sv_db sv) db" using d by simp
  from trans [OF s] "2.IH" d show ?case by (auto simp: s Let_def split: sum.split)
qed

lemma plan_set: "R (sv_db sv) (sv_db (snd (admin_set_plan e user plan until_t a sv)))"
proof -
  have q: "R (sv_db sv) db2"
    if "upsert_manual_subscription u c st f un (sv_db sv) = Inr db1" "insert_admin_audit r db1 = Inr db2"
    for u c st f un db1 db2 r
  proof (rule trans [OF planned same])
    show "upsert_subscription \<lparr>sr_user = u, sr_plan_code = c, sr_status = st, sr_platform = ''manual'',
      sr_original_transaction_id = None, sr_product_id = None, sr_period_start = f,
      sr_period_end = un, sr_grace_period_end = None, sr_auto_renew = False\<rparr> (sv_db sv) = Inr db1"
      using that(1) by (simp add: upsert_manual_subscription_def)
    show "store_part db1 = store_part db2" using queries_store(13) [OF that(2)] by simp
  qed
  show ?thesis by (auto simp: admin_set_plan_def Let_def refl split: sum.split intro: q)
qed

lemma user_deleted: "R (sv_db sv) (sv_db (snd (handle_user_deleted e user sv)))"
proof -
  have q: "R (sv_db sv) db2" if c: "close_wallet u (e_now e) (sv_db sv) = (n, db1)" "insert_admin_audit r db1 = Inr db2" for u n db1 r db2
  proof (rule same)
    from arg_cong [OF c(1), of snd] have "store_part db1 = store_part (sv_db sv)" by (metis marks_store(6) snd_conv)
    with queries_store(13) [OF c(2)] show "store_part (sv_db sv) = store_part db2" by simp
  qed
  show ?thesis by (auto simp: handle_user_deleted_def Let_def refl split: option.split prod.split sum.split intro: q)
qed

lemma reconciled: "R (sv_db sv) (sv_db (snd (reconcile e sv)))"
  by (auto simp: reconcile_def Let_def intro: same)

subsection \<open>Purchases\<close>

lemma same_right: "R a b \<Longrightarrow> store_part c = store_part b \<Longrightarrow> R a c"
  by (rule trans, assumption, rule same) simp

lemma pack_granted:
  assumes G: "grant_pack_tx parse u p tr ft t = Inr ((pid, granted, repeat), t')"
  shows "R (tx_db t) (tx_db t')"
proof (rule grant_pack_steps [OF G])
  fix row t1
  assume r: "record_purchase parse u p tr ft t = Inr ((row, repeat), t1)"
    and c: "if repeat then t' = t1 \<and> granted = (case sp_credits row of None \<Rightarrow> 0 | Some c \<Rightarrow> c)
     else granted = i64 ((case pr_credits p of None \<Rightarrow> 0 | Some c \<Rightarrow> c) + pr_bonus p) \<and>
       (\<exists>lot t2. grant (purchase_grant (sp_id row) granted) t1 = Inr (lot, t2) \<and>
          t' = t2\<lparr>tx_db := set_store_purchase_grant (sp_id row) granted lot (tx_db t2)\<rparr>)"
  show ?thesis
  proof (cases repeat)
    case True
    with c recorded [OF r] show ?thesis by simp
  next
    case False
    with c obtain lot t2 where g: "grant (purchase_grant (sp_id row) granted) t1 = Inr (lot, t2)"
      and t': "t' = t2\<lparr>tx_db := set_store_purchase_grant (sp_id row) granted lot (tx_db t2)\<rparr>" by auto
    have "R (tx_db t) (set_store_purchase_grant (sp_id row) granted lot (tx_db t2))"
      by (rule credited) (use r False grant_store [OF g] in simp_all)
    then show ?thesis by (simp add: t')
  qed
qed

lemma subscription_written: "write_subscription u cur nxt now a = Inr b \<Longrightarrow> R a b"
  by (auto simp: write_subscription_def Let_def split: sum.splits if_splits intro: planned same_right [OF planned])

lemma activated:
  assumes A: "activate_tx parse a b u p tr ft t = Inr ((pid, repeat), t')"
  shows "R (tx_db t) (tx_db t')"
proof (rule activate_steps [OF A])
  fix row t1 db
  assume "record_purchase parse u p tr ft t = Inr ((row, repeat), t1)" "t' = t1\<lparr>tx_db := db\<rparr>"
    and "write_subscription u (lock_subscription u (tx_db t1))
       (next_for_purchase (lock_subscription u (tx_db t1)) a b p tr) (tx_now t1) (tx_db t1) = Inr db"
  then show ?thesis using trans [OF recorded subscription_written] by simp
qed

lemma pack_bought: "grant_pack e u p tr ft sv = (a, sv') \<Longrightarrow> R (sv_db sv) (sv_db sv')"
  by (auto simp: grant_pack_def split: prod.splits intro!: done_do [where fn = "grant_pack_tx (e_parse e) u p tr ft"]
      intro: pack_granted)

lemma subscribed: "activate_subscription e user u p tr ft sv = (a, sv') \<Longrightarrow> R (sv_db sv) (sv_db sv')"
proof -
  have q: "service_do e n user (activate_tx (e_parse e) x y u p tr ft) sv = (b, sv2) \<Longrightarrow> R (sv_db sv) (sv_db sv2)" for n x y b sv2
    by (rule done_do [where fn = "activate_tx (e_parse e) x y u p tr ft"]) (auto intro: activated)
  assume "activate_subscription e user u p tr ft sv = (a, sv')"
  then show ?thesis by (auto simp: activate_subscription_def Let_def refl split: option.splits prod.splits intro: q)
qed

lemma finish: "R (sv_db sv) (sv_db (snd (finish_purchase e se pid sv)))"
  by (simp add: finish_purchase_def refl finished split: option.split)

lemma outbox_event: "R (sv_db sv) (sv_db (snd (handle_outbox_event e se decode topic payload sv)))"
  by (simp add: handle_outbox_event_def refl finish split: option.split sum.split)

lemma after_finish: "R a (sv_db sv) \<Longrightarrow> R a (sv_db (snd (finish_purchase e se pid sv)))"
  by (rule trans [OF _ finish])

lemma verified_grant:
  assumes G: "grant_verified e se ca u q p tr sv = (a, sv')"
  shows "R (sv_db sv) (sv_db sv')"
  using G
  by (auto simp: grant_verified_def Let_def split: if_splits sum.splits prod.splits
      intro!: after_finish intro: pack_bought subscribed)

lemma after_view: "get_wallet_view e ca sv = (a, sv') \<Longrightarrow> R b (sv_db sv) \<Longrightarrow> R b (sv_db sv')"
  using trans [OF _ viewed] by (metis snd_conv)

lemma purchased: "R (sv_db sv) (sv_db (snd (verify_purchase e se ca q sv)))"
  by (auto simp: verify_purchase_def Let_def refl split: sum.split option.split prod.split
      intro: verified_grant after_view)

subsection \<open>Notices\<close>

lemma recorded_only: "R (sv_db sv) (sv_db (snd (record_only nt oc sv)))"
  by (auto simp: record_only_def refl split: sum.split intro: noticed)

lemma changed:
  assumes C: "change_tx nt orig c owner t = Inr (x, t')"
  shows "R (tx_db t) (tx_db t')"
  using C
  by (auto simp: change_tx_def Let_def split: if_splits option.splits
      dest!: noticed subscription_written intro: trans)

lemma pack_revoked:
  assumes C: "refund_pack_tx nt pid t = Inr (x, t')"
  shows "R (tx_db t) (tx_db t')"
  using C
  by (auto simp: refund_pack_tx_def Let_def split: if_splits option.splits
      dest!: noticed revoke_lot_store intro: trans [OF same_right refunded])

lemma change_applied: "R (sv_db sv) (sv_db (snd (apply_subscription_change e nt orig c sv)))"
proof -
  have q: "service_do e n user (change_tx nt orig c owner) sv = (b, sv2) \<Longrightarrow> R (sv_db sv) (sv_db sv2)" for n user owner b sv2
    by (rule done_do [where fn = "change_tx nt orig c owner"]) (auto intro: changed)
  show ?thesis by (auto simp: apply_subscription_change_def recorded_only split: option.split prod.split intro: q)
qed

lemma refund_applied: "R (sv_db sv) (sv_db (snd (refund_pack e nt p sv)))"
proof -
  have q: "service_do e n user (refund_pack_tx nt pid) sv = (b, sv2) \<Longrightarrow> R (sv_db sv) (sv_db sv2)" for n user pid b sv2
    by (rule done_do [where fn = "refund_pack_tx nt pid"]) (auto intro: pack_revoked)
  show ?thesis by (auto simp: refund_pack_def split: prod.split intro: q)
qed

lemmas notice_steps = recorded_only change_applied refund_applied refl

lemma apple: "R (sv_db sv) (sv_db (snd (handle_apple e se roots payload sv)))"
  by (simp add: handle_apple_def apple_event_def Let_def notice_steps split: option.split sum.split)

lemma google: "R (sv_db sv) (sv_db (snd (handle_google e se push parse auth mid data sv)))"
  by (simp add: handle_google_def google_event_def google_voided_event_def google_subscription_event_def Let_def
      notice_steps split: option.split sum.split)

subsection \<open>Any request\<close>

lemma served: "R (sv_db sv) (sv_db (serve e q sv))"
proof (cases q)
  case RqSweepHolds
  then show ?thesis by (simp add: sweep_expired_holds_def swept_holds)
next
  case (RqSweepDue busy)
  then show ?thesis using swept_due [of sv busy e 1 "users_with_due_lots (ts (e_now e)) sweep_batch (sv_db sv)"]
    by (auto simp: sweep_decay_and_expiry_def Let_def split: prod.split)
qed (simp_all add: quoted entitled viewed reserved released captured ended operated plan_set user_deleted
    reconciled purchased outbox_event apple google)

end

section \<open>Histories\<close>

text \<open>The state after a list of requests, each with what its surroundings answer.\<close>

definition serve_all :: "('raw env \<times> service_request) list \<Rightarrow> service \<Rightarrow> service" where
  "serve_all reqs sv = fold (\<lambda>(e, q). serve e q) reqs sv"

context store_history begin

lemma served_all: "R (sv_db sv) (sv_db (serve_all reqs sv))"
proof (induction reqs arbitrary: sv)
  case Nil
  show ?case by (simp add: serve_all_def refl)
next
  case (Cons r reqs)
  obtain e q where r: "r = (e, q)" by force
  from trans [OF served Cons.IH] show ?case by (simp add: serve_all_def r)
qed

end

end
