(* ===== verification/Store_Props.thy ===== *)
theory Store_Props
  imports Store_History Samples
begin

text \<open>
  What the store purchases promise over any history of requests: a store transaction is paid out
  once and to one account, a refunded pack is taken back once, a notification counts once, and
  notifications never shorten the period a person has paid for.
\<close>

section \<open>Purchases are kept\<close>

definition purchase_kept :: "purchase_row \<Rightarrow> purchase_row \<Rightarrow> bool" where
  "purchase_kept r r' \<longleftrightarrow> sp_id r' = sp_id r \<and> sp_user r' = sp_user r \<and> sp_platform r' = sp_platform r \<and>
     sp_transaction_id r' = sp_transaction_id r \<and> sp_credits r' = sp_credits r \<and> sp_lot r' = sp_lot r \<and>
     (sp_refunded_at r \<noteq> None \<longrightarrow> sp_refunded_at r' \<noteq> None)"

lemma purchase_kept_refl [simp]: "purchase_kept r r"
  by (simp add: purchase_kept_def)

lemma purchase_kept_trans: "purchase_kept a b \<Longrightarrow> purchase_kept b c \<Longrightarrow> purchase_kept a c"
  by (auto simp: purchase_kept_def)

definition row_kept :: "(purchase_row \<Rightarrow> bool) \<Rightarrow> billing_db \<Rightarrow> billing_db \<Rightarrow> bool" where
  "row_kept P a b \<longleftrightarrow>
     (\<forall>r. find P (purchases a) = Some r \<longrightarrow> (\<exists>r'. find P (purchases b) = Some r' \<and> purchase_kept r r'))"

abbreviation has_key :: "string \<Rightarrow> string \<Rightarrow> purchase_row \<Rightarrow> bool" where
  "has_key pl tid \<equiv> \<lambda>r. sp_platform r = pl \<and> sp_transaction_id r = tid"

definition purchases_kept :: "billing_db \<Rightarrow> billing_db \<Rightarrow> bool" where
  "purchases_kept a b \<longleftrightarrow> (\<forall>pl tid. row_kept (has_key pl tid) a b) \<and> (\<forall>i. row_kept (\<lambda>r. sp_id r = i) a b)"

lemmas find_defs = get_store_purchase_def get_store_purchase_by_id_def lock_store_purchase_def

lemma row_kept_update:
  assumes "\<And>r. r \<in> set (purchases a) \<Longrightarrow> q r \<Longrightarrow> purchase_kept r (f r)" "\<And>r. P (f r) = P r"
  shows "row_kept P a (a\<lparr>purchases := update_where q f (purchases a)\<rparr>)"
  unfolding row_kept_def using assms(1) find_update_where [of P f, OF assms(2)] by (auto dest!: find_SomeD)

lemma row_kept_trans: "row_kept P a b \<Longrightarrow> row_kept P b c \<Longrightarrow> row_kept P a c"
  unfolding row_kept_def using purchase_kept_trans by blast

lemma purchases_kept_update:
  assumes "\<And>r. q r \<Longrightarrow> purchase_kept r (f r)"
    and "\<And>r. sp_id (f r) = sp_id r" "\<And>r. sp_platform (f r) = sp_platform r"
      "\<And>r. sp_transaction_id (f r) = sp_transaction_id r"
  shows "purchases_kept a (a\<lparr>purchases := update_where q f (purchases a)\<rparr>)"
  unfolding purchases_kept_def by (intro conjI allI row_kept_update) (simp_all add: assms)

lemma purchases_kept_trans: "purchases_kept a b \<Longrightarrow> purchases_kept b c \<Longrightarrow> purchases_kept a c"
  unfolding purchases_kept_def by (intro conjI allI; rule row_kept_trans [of _ a b]; simp)

lemma purchases_kept_same: "purchases a = purchases b \<Longrightarrow> purchases_kept a b"
  by (simp add: purchases_kept_def row_kept_def)

lemma store_part_purchases: "store_part a = store_part b \<Longrightarrow> purchases a = purchases b \<and> notices a = notices b \<and>
    subscriptions a = subscriptions b \<and> products a = products b \<and> plans a = plans b"
  by (simp add: store_part_def)

lemma upsert_subscription_store: "upsert_subscription s a = Inr b \<Longrightarrow> purchases b = purchases a \<and> notices b = notices a"
  by (auto simp: upsert_subscription_def split: if_splits)

lemma record_notice_store: "record_notice nt oc a = Inr (isnew, b) \<Longrightarrow>
    purchases b = purchases a \<and> subscriptions b = subscriptions a \<and> products b = products a \<and> plans b = plans a"
  by (auto simp: record_notice_def insert_notice_def split: if_splits)

lemma inserted_purchase:
  assumes "insert_store_purchase r a = Inr (True, b)"
  shows "purchases b = purchases a @ [r]" "get_store_purchase (sp_platform r) (sp_transaction_id r) a = None"
    "get_store_purchase_by_id (sp_id r) a = None" "notices b = notices a"
  using assms by (auto simp: insert_store_purchase_def split: if_splits)

lemma insert_refused: "insert_store_purchase r a = Inr (False, b) \<Longrightarrow> b = a"
  by (auto simp: insert_store_purchase_def split: if_splits)

lemma outbox_events_purchases [simp]:
  "purchases (fold (\<lambda>(topic, e). insert_billing_outbox topic e) evs db) = purchases db"
  "notices (fold (\<lambda>(topic, e). insert_billing_outbox topic e) evs db) = notices db"
  by (induction evs arbitrary: db) (auto simp: insert_billing_outbox_def)

lemma recorded_purchase:
  assumes R: "record_purchase parse u p tr ft t = Inr ((row, repeat), t')"
  shows "if repeat then purchases (tx_db t') = purchases (tx_db t) \<and> sp_user row = u \<and>
       get_store_purchase (tr_platform tr) (tr_transaction_id tr) (tx_db t) = Some row
     else purchases (tx_db t') = purchases (tx_db t) @ [row] \<and> sp_user row = u \<and> sp_platform row = tr_platform tr \<and>
       sp_transaction_id row = tr_transaction_id tr \<and>
       get_store_purchase (tr_platform tr) (tr_transaction_id tr) (tx_db t) = None \<and>
       get_store_purchase_by_id (sp_id row) (tx_db t) = None" (is ?A)
    and "notices (tx_db t') = notices (tx_db t)" (is ?B)
proof -
  obtain pid t1 row0 db where
    d: "draw_uuid t = (pid, t1)" and k: "sp_user row0 = u" "sp_platform row0 = tr_platform tr"
      "sp_transaction_id row0 = tr_transaction_id tr"
    and i: "insert_store_purchase row0 (tx_db t1) = Inr (\<not> repeat, db)"
    and c: "if repeat then get_store_purchase (tr_platform tr) (tr_transaction_id tr) db = Some row \<and> sp_user row = u \<and>
         t' = t1\<lparr>tx_db := db\<rparr>
       else row = row0 \<and> (\<exists>evs. t' = t1\<lparr>tx_db := fold (\<lambda>(topic, e). insert_billing_outbox topic e) evs db\<rparr>)"
    by (rule record_purchase_steps [OF R])
  have t1: "tx_db t1 = tx_db t" using d by (auto simp: draw_uuid_def)
  have "?A \<and> ?B"
  proof (cases repeat)
    case True
    with i have "db = tx_db t" using insert_refused t1 by simp
    with True c show ?thesis by simp
  next
    case False
    with i have "insert_store_purchase row0 (tx_db t) = Inr (True, db)" by (simp add: t1)
    from inserted_purchase [OF this] k False c show ?thesis by auto
  qed
  then show ?A ?B by auto
qed

lemma recorded_kept:
  assumes R: "record_purchase parse u p tr ft t = Inr ((row, repeat), t')"
  shows "purchases_kept (tx_db t) (tx_db t')"
proof (cases repeat)
  case True
  with recorded_purchase(1) [OF R] show ?thesis by (simp add: purchases_kept_same)
next
  case False
  with recorded_purchase(1) [OF R] show ?thesis
    by (auto simp: purchases_kept_def row_kept_def find_defs find_snoc split: option.split)
qed

lemma credited_kept:
  assumes R: "record_purchase parse u p tr ft t = Inr ((row, False), t')" and s: "store_part (tx_db t') = store_part b"
  shows "purchases_kept (tx_db t) (set_store_purchase_grant (sp_id row) n lot b)"
proof -
  have p: "purchases b = purchases (tx_db t) @ [row]" and new: "get_store_purchase_by_id (sp_id row) (tx_db t) = None"
    using recorded_purchase(1) [OF R] store_part_purchases [OF s] by simp_all
  have old: "sp_id r \<noteq> sp_id row" if "r \<in> set (purchases (tx_db t))" for r
    using new that by (auto simp: get_store_purchase_by_id_def find_None_iff)
  have u: "update_where (\<lambda>r. sp_id r = sp_id row) f (purchases (tx_db t) @ [row]) = purchases (tx_db t) @ [f row]"
    for f :: "purchase_row \<Rightarrow> purchase_row"
    using old by (simp add: update_where_def map_idI)
  show ?thesis
    by (auto simp: purchases_kept_def row_kept_def set_store_purchase_grant_def p u find_snoc split: option.split)
qed

interpretation kept: store_history purchases_kept
proof (unfold_locales, goal_cases)
  case (1 a b) then show ?case by (intro purchases_kept_same) (simp add: store_part_def)
next
  case 2 then show ?case by (rule purchases_kept_trans)
next
  case 3 then show ?case by (intro purchases_kept_same) (drule upsert_subscription_store, simp)
next
  case 4 then show ?case by (rule recorded_kept)
next
  case 5 then show ?case by (rule credited_kept)
next
  case 6 show ?case unfolding mark_purchase_finished_def by (rule purchases_kept_update) (simp_all add: purchase_kept_def)
next
  case 7 show ?case unfolding mark_purchase_refunded_def by (rule purchases_kept_update) (simp_all add: purchase_kept_def)
next
  case 8 then show ?case by (intro purchases_kept_same) (drule record_notice_store, simp)
qed

section \<open>A transaction is paid out once\<close>

text \<open>What \<open>service_do\<close> answers when it answers: the transaction ran on the opened and refreshed wallet.\<close>

lemma service_do_Inr:
  assumes "service_do e n user fn sv = (a, sv')" "answered a = Inr x"
  obtains u w t t1 t2 where "e_parse e user = Some u" "w \<in> set (wallets (ensure_wallet u (sv_db sv)))" "w_user w = u"
    "t = open_tx (e_now e) (e_uuids e n) w u (ensure_wallet u (sv_db sv))"
    "apply_due t = Inr t1" "fn t1 = Inr (x, t2)"
    "\<exists>t3. flush t2 = Inr t3 \<and> sv' = sv\<lparr>sv_db := tx_db t3\<rparr>"
proof -
  from assms obtain u where u: "e_parse e user = Some u" and d:
    "ledger_do_uuid False False (e_now e) (e_uuids e n) fn u (sv_db sv) = (a, sv_db sv')" and s: "sv' = sv\<lparr>sv_db := sv_db sv'\<rparr>"
    by (auto simp: service_do_def ledger_do_def split: option.splits prod.splits)
  from d assms(2) obtain w where w: "lock_wallet u (ensure_wallet u (sv_db sv)) = Some w"
    by (auto simp: ledger_do_uuid_def Let_def split: option.splits)
  with d assms(2) obtain db where r: "run_locked (e_now e) (e_uuids e n) fn w u (ensure_wallet u (sv_db sv)) = Inr (x, db)"
    and db: "sv_db sv' = db"
    by (auto simp: ledger_do_uuid_def Let_def split: sum.splits)
  from r obtain t1 t2 t3 where "apply_due (open_tx (e_now e) (e_uuids e n) w u (ensure_wallet u (sv_db sv))) = Inr t1"
    "fn t1 = Inr (x, t2)" "flush t2 = Inr t3" "db = tx_db t3"
    by (auto simp: run_locked_def)
  with u s db w show ?thesis by (intro that) (auto simp: lock_wallet_def dest!: find_SomeD)
qed

lemma service_do_store:
  assumes "service_do e n user fn sv = (a, sv')" "answered a = Inr x"
  obtains t1 t2 where "store_part (tx_db t1) = store_part (sv_db sv)" "fn t1 = Inr (x, t2)"
    "store_part (sv_db sv') = store_part (tx_db t2)"
    "lots (tx_db t2) = lots (sv_db sv')"
proof -
  obtain u w t t1 t2 where
    o: "t = open_tx (e_now e) (e_uuids e n) w u (ensure_wallet u (sv_db sv))" "apply_due t = Inr t1" "fn t1 = Inr (x, t2)"
    and f: "\<exists>t3. flush t2 = Inr t3 \<and> sv' = sv\<lparr>sv_db := tx_db t3\<rparr>"
    by (rule service_do_Inr [OF assms])
  from f obtain t3 where f: "flush t2 = Inr t3" "sv' = sv\<lparr>sv_db := tx_db t3\<rparr>" by blast
  have "lots (tx_db t3) = lots (tx_db t2)"
    using f(1) by (auto simp: flush_def update_wallet_def insert_billing_outbox_def split: if_splits)
  then show ?thesis
    using that [OF _ o(3)] apply_due_store [OF o(2)] flush_store [OF f(1)] o(1) f(2) by (simp add: open_tx_def)
qed

text \<open>What a successful \<open>grantPack\<close> leaves: the row of the transaction, with its buyer and its credits.\<close>

lemma granted_pack:
  assumes "grant_pack e u p tr ft sv = (Inr (pid, n, again), sv')"
  shows "\<exists>r. get_store_purchase (tr_platform tr) (tr_transaction_id tr) (sv_db sv') = Some r \<and> sp_user r = u \<and>
      sp_id r = pid \<and> n = (case sp_credits r of None \<Rightarrow> 0 | Some c \<Rightarrow> c) \<and>
      (again \<longrightarrow> get_store_purchase (tr_platform tr) (tr_transaction_id tr) (sv_db sv) = Some r) \<and>
      (\<not> again \<longrightarrow> get_store_purchase (tr_platform tr) (tr_transaction_id tr) (sv_db sv) = None)"
proof -
  from assms obtain a where d: "service_do e 2 u (grant_pack_tx (e_parse e) u p tr ft) sv = (a, sv')" "answered a = Inr (pid, n, again)"
    by (auto simp: grant_pack_def split: prod.splits)
  obtain t1 t2 where b: "store_part (tx_db t1) = store_part (sv_db sv)"
    and g: "grant_pack_tx (e_parse e) u p tr ft t1 = Inr ((pid, n, again), t2)"
    and l: "store_part (sv_db sv') = store_part (tx_db t2)"
    by (rule service_do_store [OF d])
  note before = store_part_purchases [OF b] and after = store_part_purchases [OF l]
  show ?thesis
  proof (rule grant_pack_steps [OF g])
    fix row t0
    assume r: "record_purchase (e_parse e) u p tr ft t1 = Inr ((row, again), t0)" and pid: "pid = sp_id row"
      and c: "if again then t2 = t0 \<and> n = (case sp_credits row of None \<Rightarrow> 0 | Some c \<Rightarrow> c)
     else n = i64 ((case pr_credits p of None \<Rightarrow> 0 | Some c \<Rightarrow> c) + pr_bonus p) \<and>
       (\<exists>lot t3. grant (purchase_grant (sp_id row) n) t0 = Inr (lot, t3) \<and>
          t2 = t3\<lparr>tx_db := set_store_purchase_grant (sp_id row) n lot (tx_db t3)\<rparr>)"
    note q = recorded_purchase(1) [OF r]
    show ?thesis
    proof (cases again)
      case True
      with q c pid before after show ?thesis by (simp add: get_store_purchase_def)
    next
      case False
      with c obtain lot t3 where gr: "grant (purchase_grant (sp_id row) n) t0 = Inr (lot, t3)"
        and t2: "t2 = t3\<lparr>tx_db := set_store_purchase_grant (sp_id row) n lot (tx_db t3)\<rparr>" by auto
      have p3: "purchases (tx_db t3) = purchases (tx_db t1) @ [row]"
        using q False store_part_purchases [OF grant_store [OF gr]] by simp
      have p2: "purchases (tx_db t2) = update_where (\<lambda>r. sp_id r = sp_id row)
          (\<lambda>r. r\<lparr>sp_credits := Some n, sp_lot := Some lot\<rparr>) (purchases (tx_db t1) @ [row])"
        by (simp add: t2 set_store_purchase_grant_def p3)
      from q False have "find (has_key (tr_platform tr) (tr_transaction_id tr)) (purchases (tx_db t1)) = None"
        "sp_platform row = tr_platform tr" "sp_transaction_id row = tr_transaction_id tr" "sp_user row = u"
        by (simp_all add: get_store_purchase_def)
      then show ?thesis
        using False p2 pid before after
        by (simp add: get_store_purchase_def find_update_where find_snoc)
    qed
  qed
qed

text \<open>
  What credits are ever granted: the lots, without what is left of them, and the entries of the ledger but for those that
  let a lot decay or expire, which every transaction on a wallet writes first when they are due.
\<close>

definition lot_faces :: "billing_db \<Rightarrow> (uuid \<times> uuid \<times> int) list" where
  "lot_faces db = map (\<lambda>l. (lot_id l, lot_user l, lot_initial l)) (lots db)"

definition entries_but_decay :: "billing_db \<Rightarrow> ledger_entry list" where
  "entries_but_decay db = filter (\<lambda>x. le_reason x \<noteq> RDecay \<and> le_reason x \<noteq> RExpire) (ledger db)"

definition granted_entries :: "billing_db \<Rightarrow> ledger_entry list" where
  "granted_entries db = filter (\<lambda>x. le_reason x = RGrant) (ledger db)"

definition uncredited :: "billing_db \<Rightarrow> billing_db \<Rightarrow> bool" where
  "uncredited a b \<longleftrightarrow> lot_faces b = lot_faces a \<and> entries_but_decay b = entries_but_decay a"

lemma uncredited_same: "lots b = lots a \<Longrightarrow> ledger b = ledger a \<Longrightarrow> uncredited a b"
  by (simp add: uncredited_def lot_faces_def entries_but_decay_def)

lemma uncredited_trans: "uncredited a b \<Longrightarrow> uncredited b c \<Longrightarrow> uncredited a c"
  by (simp add: uncredited_def)

lemma granted_filter: "granted_entries db = filter (\<lambda>x. le_reason x = RGrant) (entries_but_decay db)"
  by (auto simp: granted_entries_def entries_but_decay_def intro!: filter_cong)

lemma faces_update_lot:
  assumes "update_lot i f db = Inr db'" "\<And>l. lot_id (f l) = lot_id l \<and> lot_user (f l) = lot_user l \<and> lot_initial (f l) = lot_initial l"
  shows "lot_faces db' = lot_faces db" "ledger db' = ledger db"
  using assms by (auto simp: update_lot_Inr lot_faces_def update_where_def)

lemma write_entry_ledger:
  "write_entry e t = Inr t' \<Longrightarrow> \<exists>x. ledger (tx_db t') = ledger (tx_db t) @ [x] \<and> le_reason x = en_reason e \<and>
     le_user x = tx_user t \<and> le_delta x = en_delta e \<and> le_lot x = en_lot e"
  by (auto simp: write_entry_Inr Let_def entry_row_def)

text \<open>Decay and expiry of a wallet's lots.\<close>

definition only_decayed :: "tx \<Rightarrow> tx \<Rightarrow> bool" where
  "only_decayed t t' \<longleftrightarrow> uncredited (tx_db t) (tx_db t') \<and> tx_user t' = tx_user t"

lemma only_decayed_refl: "only_decayed t t"
  by (simp add: only_decayed_def uncredited_def)

lemma only_decayed_trans: "only_decayed a b \<Longrightarrow> only_decayed b c \<Longrightarrow> only_decayed a c"
  by (simp add: only_decayed_def uncredited_def)

lemma decay_entry:
  assumes "write_entry e t = Inr t'" "en_reason e = RDecay \<or> en_reason e = RExpire"
  shows "only_decayed t t'"
  using write_entry_ledger [OF assms(1)] write_entry_frame(1,4) [OF assms(1)] assms(2)
  by (auto simp: only_decayed_def uncredited_def lot_faces_def entries_but_decay_def)

lemma decayed_lot:
  assumes "update_lot i f (tx_db t) = Inr db" "\<And>l. lot_id (f l) = lot_id l \<and> lot_user (f l) = lot_user l \<and> lot_initial (f l) = lot_initial l"
  shows "only_decayed t (t\<lparr>tx_db := db\<rparr>)"
  using faces_update_lot [OF assms] by (simp add: only_decayed_def uncredited_def entries_but_decay_def)

lemma decay_steps_only: "decay_steps l p js r t = Inr (r', t') \<Longrightarrow> only_decayed t t'"
proof (induction js arbitrary: r t)
  case Nil
  then show ?case by (simp add: only_decayed_refl)
next
  case (Cons j js)
  let ?a = "allowed_after (lot_initial l) p j"
  show ?case
  proof (cases "r \<le> ?a")
    case True
    with Cons show ?thesis by (simp add: Let_def)
  next
    case False
    with Cons.prems obtain t1 where w: "write_entry ((no_entry RDecay (''decay:'' @ lot_id l @ '':'' @ string_of_int j))\<lparr>
          en_delta := i64 (- i64 (r - ?a)), en_lot := Some (lot_id l)\<rparr>) t = Inr t1"
      and r: "decay_steps l p js ?a t1 = Inr (r', t')"
      by (auto simp: Let_def)
    from only_decayed_trans [OF decay_entry [OF w] Cons.IH [OF r]] show ?thesis by simp
  qed
qed

lemma decay_lot_only: "decay_lot l t = Inr (r, t') \<Longrightarrow> only_decayed t t'"
proof (cases "decay_due (tx_now t) l")
  case True
  assume "decay_lot l t = Inr (r, t')"
  with True obtain t1 k nxt db where d: "decay_steps l (the (lot_decay_percent l)) [lot_periods_applied l + 1 .. k] (lot_remaining l) t = Inr (r, t1)"
    and s: "set_lot_decay (lot_id l) r (i32 k) nxt (tx_db t1) = Inr db" and t': "t' = t1\<lparr>tx_db := db\<rparr>"
    by (auto simp: decay_lot_def Let_def split: if_splits)
  from decayed_lot [OF s [unfolded set_lot_decay_def]] have "only_decayed t1 t'" by (simp add: t')
  with only_decayed_trans decay_steps_only [OF d] show ?thesis by blast
qed (auto simp: decay_lot_def only_decayed_refl)

lemma expire_lot_only: "expire_lot l r t = Inr t' \<Longrightarrow> only_decayed t t'"
proof (cases "expiry_due (tx_now t) l \<and> r > 0")
  case True
  assume "expire_lot l r t = Inr t'"
  with True obtain t1 db where w: "write_entry ((no_entry RExpire (''expire:'' @ lot_id l))\<lparr>
             en_delta := - r, en_lot := Some (lot_id l)\<rparr>) t = Inr t1"
    and s: "set_lot_remaining (lot_id l) 0 (tx_db t1) = Inr db" and t': "t' = t1\<lparr>tx_db := db\<rparr>"
    by (auto simp: expire_lot_def)
  from decayed_lot [OF s [unfolded set_lot_remaining_def]] have "only_decayed t1 t'" by (simp add: t')
  with only_decayed_trans [OF decay_entry [OF w]] show ?thesis by simp
qed (auto simp: expire_lot_def only_decayed_refl)

lemma apply_due_lots_only: "apply_due_lots ls t = Inr t' \<Longrightarrow> only_decayed t t'"
proof (induction ls arbitrary: t)
  case (Cons l ls)
  then obtain r t1 t2 where d: "decay_lot l t = Inr (r, t1)" and x: "expire_lot l r t1 = Inr t2"
    and rest: "apply_due_lots ls t2 = Inr t'" by auto
  show ?case
    by (rule only_decayed_trans [OF decay_lot_only [OF d] only_decayed_trans [OF expire_lot_only [OF x] Cons.IH [OF rest]]])
qed (simp add: only_decayed_refl)

text \<open>Drawing on lots to settle a debt grants nothing and takes no grant back.\<close>

definition no_grant :: "billing_db \<Rightarrow> billing_db \<Rightarrow> bool" where
  "no_grant a b \<longleftrightarrow> lot_faces b = lot_faces a \<and> granted_entries b = granted_entries a"

lemma debt_piece_no_grant:
  assumes "take_piece TakeDebt p lid n t = Inr t'"
  shows "no_grant (tx_db t) (tx_db t')"
proof -
  obtain u t0 where d: "draw_uuid t = (u, t0)" by force
  with assms have w: "write_entry ((no_entry RReversal (''debt:'' @ u))\<lparr>en_delta := - n, en_debt_delta := - n,
        en_lot := Some lid, en_ref_type := ''debt''\<rparr>) t0 = Inr t'" by simp
  from write_entry_ledger [OF w] write_entry_frame(1) [OF w] d show ?thesis
    by (auto simp: no_grant_def lot_faces_def granted_entries_def draw_uuid_def)
qed

lemma spend_lots_no_grant: "spend_lots TakeDebt p need ls t = Inr (p', r, t') \<Longrightarrow> no_grant (tx_db t) (tx_db t')"
proof (induction ls arbitrary: p need t)
  case (Cons l ls)
  let ?n = "min (lot_remaining l) need"
  from Cons.prems obtain db t1 where upd: "set_lot_remaining (lot_id l) (lot_remaining l - ?n) (tx_db t) = Inr db"
    and tp: "take_piece TakeDebt p (lot_id l) ?n (t\<lparr>tx_db := db\<rparr>) = Inr t1"
    and rest: "t' = t1 \<or> spend_lots TakeDebt (Suc p) (need - ?n) ls t1 = Inr (p', r, t')"
    by (auto simp: Let_def simp del: take_piece.simps split: if_splits)
  from faces_update_lot [OF upd [unfolded set_lot_remaining_def]] debt_piece_no_grant [OF tp]
  have "no_grant (tx_db t) (tx_db t1)" by (simp add: no_grant_def granted_entries_def)
  with rest Cons.IH show ?case by (metis no_grant_def)
qed (simp add: no_grant_def)

lemma spend_from_no_grant: "k = TakeDebt \<Longrightarrow> spend_from k p need t = Inr (r, t') \<Longrightarrow> no_grant (tx_db t) (tx_db t')"
proof (induction k p need t rule: spend_from.induct)
  case (1 k p need t)
  let ?ls = "lock_spendable_lots (tx_user t) (ts (tx_now t)) spend_batch (tx_db t)"
  show ?case
  proof (cases "0 < need \<and> ?ls \<noteq> []")
    case False
    with "1.prems"(2) show ?thesis by (auto simp: spend_from.simps [of k p need t] Let_def no_grant_def split: if_splits)
  next
    case True
    with "1.prems" obtain p' n' t1 where
      sl: "spend_lots k p need ?ls t = Inr (p', n', t1)" and rest: "spend_from k p' n' t1 = Inr (r, t')"
      by (auto simp: spend_from.simps [of TakeDebt p need t] Let_def)
    from True have a: "0 < need" and b: "?ls \<noteq> []" by auto
    from "1.IH" [OF a refl b sl refl refl "1.prems"(1) rest] spend_lots_no_grant [OF sl [unfolded "1.prems"(1)]]
    show ?thesis by (simp add: no_grant_def)
  qed
qed

lemma settle_debt_no_grant: "settle_debt t = Inr t' \<Longrightarrow> no_grant (tx_db t) (tx_db t')"
  using spend_from_no_grant [OF refl] by (fastforce simp: settle_debt_def spend_def no_grant_def split: if_splits)

text \<open>A grant: one new lot of its amount for the wallet's user, and the one entry that grants it.\<close>

definition credited_once :: "uuid \<Rightarrow> int \<Rightarrow> billing_db \<Rightarrow> billing_db \<Rightarrow> bool" where
  "credited_once u n a b \<longleftrightarrow> (\<exists>lot x. lot_faces b = lot_faces a @ [(lot, u, n)] \<and> granted_entries b = granted_entries a @ [x] \<and>
     le_user x = u \<and> le_delta x = n \<and> le_lot x = Some lot)"

lemma grant_credits:
  assumes "grant g t = Inr (lot, t')" "gi_reason g = None"
  shows "credited_once (tx_user t) (gi_amount g) (tx_db t) (tx_db t')" "0 < gi_amount g"
proof -
  let ?e = "(no_entry RGrant (gi_key g))\<lparr>en_delta := gi_amount g, en_lot := Some lot, en_ref_type := gi_ref_type g,
      en_ref_id := gi_ref_id g, en_operator := gi_operator g, en_note := gi_note g\<rparr>"
  from assms obtain t0 db t1 where d: "draw_uuid t = (lot, t0)" and i: "insert_lot (grant_lot g lot t0) (tx_db t0) = Inr db"
    and w: "write_entry ?e (t0\<lparr>tx_db := db\<rparr>) = Inr t1" and s: "settle_debt t1 = Inr t'" and p: "0 < gi_amount g"
    by (auto simp: grant_def Let_def draw_uuid_def split: if_splits)
  have t0: "tx_db t0 = tx_db t" "tx_user t0 = tx_user t" using d by (auto simp: draw_uuid_def)
  have db: "lots db = lots (tx_db t) @ [grant_lot g lot t0]" "ledger db = ledger (tx_db t)"
    using i t0 by (auto simp: insert_lot_def split: if_splits)
  from write_entry_ledger [OF w] t0 obtain x where x: "ledger (tx_db t1) = ledger (tx_db t) @ [x]" "le_reason x = RGrant"
    "le_user x = tx_user t" "le_delta x = gi_amount g" "le_lot x = Some lot" using db by auto
  have "lot_faces (tx_db t') = lot_faces (tx_db t) @ [(lot, tx_user t, gi_amount g)]"
    "granted_entries (tx_db t') = granted_entries (tx_db t) @ [x]"
    using settle_debt_no_grant [OF s] write_entry_frame(1) [OF w] db t0 x
    by (simp_all add: no_grant_def lot_faces_def granted_entries_def grant_lot_def)
  with x(3-5) show "credited_once (tx_user t) (gi_amount g) (tx_db t) (tx_db t')" by (auto simp: credited_once_def)
  show "0 < gi_amount g" by (rule p)
qed

lemma recorded_books:
  assumes "record_purchase parse u p tr ft t = Inr ((row, again), t')"
  shows "lots (tx_db t') = lots (tx_db t) \<and> ledger (tx_db t') = ledger (tx_db t) \<and> tx_user t' = tx_user t"
proof -
  have ev: "lots (fold (\<lambda>(topic, e). insert_billing_outbox topic e) evs db) = lots db \<and>
      ledger (fold (\<lambda>(topic, e). insert_billing_outbox topic e) evs db) = ledger db" for evs db
    by (induction evs arbitrary: db) (auto simp: insert_billing_outbox_def)
  show ?thesis
    by (rule record_purchase_steps [OF assms])
      (use ev in \<open>auto simp: draw_uuid_def insert_store_purchase_def split: if_splits\<close>)
qed

lemma credited_after:
  assumes "uncredited a b" "credited_once u n b c"
  shows "credited_once u n a c"
  using assms by (simp add: uncredited_def credited_once_def granted_filter)

text \<open>What a call of \<open>grantPack\<close> does to lots and ledger: one grant when it is new, and nothing when it is a repeat or fails.\<close>

lemma grant_pack_credits:
  assumes "grant_pack e u p tr ft sv = (Inr (pid, n, again), sv')"
  shows "if again then uncredited (sv_db sv) (sv_db sv')
    else \<exists>v. e_parse e u = Some v \<and> 0 < n \<and> credited_once v n (sv_db sv) (sv_db sv')"
proof -
  from assms obtain a where d: "service_do e 2 u (grant_pack_tx (e_parse e) u p tr ft) sv = (a, sv')" "answered a = Inr (pid, n, again)"
    by (auto simp: grant_pack_def split: prod.splits)
  obtain v w t t1 t2 where v: "e_parse e u = Some v"
    and t: "t = open_tx (e_now e) (e_uuids e 2) w v (ensure_wallet v (sv_db sv))" and due: "apply_due t = Inr t1"
    and g: "grant_pack_tx (e_parse e) u p tr ft t1 = Inr ((pid, n, again), t2)"
    and f: "\<exists>t3. flush t2 = Inr t3 \<and> sv' = sv\<lparr>sv_db := tx_db t3\<rparr>"
    by (rule service_do_Inr [OF d])
  from apply_due_lots_only [OF due [unfolded apply_due_def]] have only: "only_decayed t t1" .
  then have user: "tx_user t1 = v" by (simp add: only_decayed_def t open_tx_def)
  have "uncredited (sv_db sv) (tx_db t)" unfolding t by (simp add: open_tx_def uncredited_same ensure_wallet_def)
  with only uncredited_trans have before: "uncredited (sv_db sv) (tx_db t1)" unfolding only_decayed_def by blast
  from f have after: "lots (sv_db sv') = lots (tx_db t2)" "ledger (sv_db sv') = ledger (tx_db t2)"
    by (auto simp: flush_def update_wallet_def insert_billing_outbox_def split: if_splits)
  show ?thesis
  proof (rule grant_pack_steps [OF g])
    fix row t0
    assume r: "record_purchase (e_parse e) u p tr ft t1 = Inr ((row, again), t0)"
      and c: "if again then t2 = t0 \<and> n = (case sp_credits row of None \<Rightarrow> 0 | Some c \<Rightarrow> c)
     else n = i64 ((case pr_credits p of None \<Rightarrow> 0 | Some c \<Rightarrow> c) + pr_bonus p) \<and>
       (\<exists>lot t3. grant (purchase_grant (sp_id row) n) t0 = Inr (lot, t3) \<and>
          t2 = t3\<lparr>tx_db := set_store_purchase_grant (sp_id row) n lot (tx_db t3)\<rparr>)"
    note q = recorded_books [OF r]
    have booked: "uncredited (sv_db sv) (tx_db t0)" by (rule uncredited_trans [OF before uncredited_same]) (simp_all add: q)
    show ?thesis
    proof (cases again)
      case True
      with c after uncredited_trans [OF booked uncredited_same] show ?thesis by simp
    next
      case False
      with c obtain lot t3 where gr: "grant (purchase_grant (sp_id row) n) t0 = Inr (lot, t3)"
        and t2: "t2 = t3\<lparr>tx_db := set_store_purchase_grant (sp_id row) n lot (tx_db t3)\<rparr>" by auto
      from grant_credits [OF gr] q user
      have c: "credited_once v n (tx_db t0) (tx_db t3)" "0 < n" by (simp_all add: purchase_grant_def)
      then have "credited_once v n (tx_db t0) (sv_db sv')"
        using after t2 by (simp add: credited_once_def lot_faces_def granted_entries_def set_store_purchase_grant_def)
      with credited_after [OF booked] v c(2) False show ?thesis by simp
    qed
  qed
qed

lemma grant_pack_fails: "grant_pack e u p tr ft sv = (Inl err, sv') \<Longrightarrow> sv_db sv' = sv_db sv"
  by (auto simp: grant_pack_def service_do_def ledger_do_def ledger_do_uuid_def Let_def
      split: prod.splits option.splits sum.splits if_splits)

text \<open>
  C39. A store transaction pays out once and to one account. A call of \<open>grantPack\<close> that succeeds and does not answer
  ``already processed'' makes exactly one lot, for the buyer and of exactly the credits it answers, with exactly one entry
  of the ledger that grants it. Whatever requests the service serves afterwards, a later call for the same transaction,
  under whatever account, product and payload, makes no lot and writes no entry of the ledger at all, except that what was
  due on the lots decays or expires; it succeeds only for the same account, and then it answers the first purchase and its
  credits, marked as already processed.
\<close>

theorem transaction_paid_once:
  assumes "grant_pack e u p tr ft sv = (Inr (pid, n, again), sv1)"
    and "grant_pack e' u' p' tr' ft' (serve_all reqs sv1) = (res, sv2)"
    and "tr_platform tr' = tr_platform tr" "tr_transaction_id tr' = tr_transaction_id tr"
  shows "(if again then uncredited (sv_db sv) (sv_db sv1)
      else \<exists>v. e_parse e u = Some v \<and> 0 < n \<and> credited_once v n (sv_db sv) (sv_db sv1)) \<and>
    uncredited (sv_db (serve_all reqs sv1)) (sv_db sv2) \<and>
    (case res of Inl _ \<Rightarrow> True | Inr (pid', n', again') \<Rightarrow> u' = u \<and> pid' = pid \<and> n' = n \<and> again')"
proof -
  let ?get = "get_store_purchase (tr_platform tr) (tr_transaction_id tr)"
  from granted_pack [OF assms(1)] obtain r where r: "?get (sv_db sv1) = Some r" "sp_user r = u" "sp_id r = pid"
    "n = (case sp_credits r of None \<Rightarrow> 0 | Some c \<Rightarrow> c)" by blast
  have "purchases_kept (sv_db sv1) (sv_db (serve_all reqs sv1))" by (rule kept.served_all)
  with r(1) obtain r' where r': "?get (sv_db (serve_all reqs sv1)) = Some r'" "purchase_kept r r'"
    unfolding purchases_kept_def row_kept_def get_store_purchase_def by blast
  have second: "uncredited (sv_db (serve_all reqs sv1)) (sv_db sv2) \<and>
    (case res of Inl _ \<Rightarrow> True | Inr (pid', n', again') \<Rightarrow> u' = u \<and> pid' = pid \<and> n' = n \<and> again')"
  proof (cases res)
    case (Inl err)
    with grant_pack_fails [of e' u' p' tr' ft' "serve_all reqs sv1" err sv2] assms(2) show ?thesis
      by (simp add: uncredited_def lot_faces_def entries_but_decay_def)
  next
    case (Inr x)
    obtain pid' n' again' where x: "x = (pid', n', again')" by (cases x)
    note call = assms(2) [unfolded Inr x]
    from granted_pack [OF call] r' have "sp_user r' = u'" "sp_id r' = pid'"
      "n' = (case sp_credits r' of None \<Rightarrow> 0 | Some c \<Rightarrow> c)" "again'"
      unfolding assms(3,4) by auto
    with grant_pack_credits [OF call] r r'(2) Inr x show ?thesis by (simp add: purchase_kept_def)
  qed
  with grant_pack_credits [OF assms(1)] show ?thesis by blast
qed

text \<open>A pack, a purchase of it, and a service that sells it.\<close>

definition sample_pack :: product_row where
  "sample_pack = \<lparr>pr_id = ''pack'', pr_kind = consumable, pr_credits = Some 10, pr_bonus = 2, pr_plan_code = None,
     pr_period = None, pr_badge = None, pr_sort = 1, pr_featured = False, pr_active = True\<rparr>"

definition sample_store_tx :: store_tx where
  "sample_store_tx = \<lparr>tr_platform = ios, tr_transaction_id = ''t1'', tr_original_id = ''t1'', tr_product_id = ''pack'',
     tr_app_id = ''app'', tr_environment = production, tr_account_token = ''u'', tr_purchased_at = 0,
     tr_expires_at = None, tr_auto_renew = False, tr_revoked = False, tr_pending = False, tr_token_hash = [], tr_raw = []\<rparr>"

definition sample_bought :: "(go_error + (uuid \<times> int \<times> bool)) \<times> service" where
  "sample_bought = grant_pack sample_env ''u'' sample_pack sample_store_tx [] (new_service [] [sample_pack])"

definition sample_bought_again :: "(go_error + (uuid \<times> int \<times> bool)) \<times> service" where
  "sample_bought_again = grant_pack sample_env ''u'' sample_pack sample_store_tx [] (serve_all ([] :: (unit env \<times> service_request) list) (snd sample_bought))"

lemma transaction_paid_once_witness:
  "fst sample_bought = Inr (''q'', 12, False) \<and> fst sample_bought_again = Inr (''q'', 12, True) \<and>
   map snd (lot_faces (sv_db (snd sample_bought_again))) = [(''u'', 12)] \<and>
   map le_delta (granted_entries (sv_db (snd sample_bought_again))) = [12]"
proof -
  have f: "fst sample_bought = Inr (''q'', 12, False)" by code_simp
  obtain res where g: "fst sample_bought_again = res" by simp
  have "sample_bought = (Inr (''q'', 12, False), snd sample_bought)" using f by (metis prod.collapse)
  moreover have "sample_bought_again = (res, snd sample_bought_again)" using g by (metis prod.collapse)
  ultimately have t: "(\<exists>v. e_parse sample_env ''u'' = Some v \<and> (0 :: int) < 12 \<and>
      credited_once v 12 (sv_db (new_service [] [sample_pack])) (sv_db (snd sample_bought))) \<and>
    uncredited (sv_db (serve_all ([] :: (unit env \<times> service_request) list) (snd sample_bought))) (sv_db (snd sample_bought_again)) \<and>
    (case res of Inl _ \<Rightarrow> True | Inr (pid', n', again') \<Rightarrow> ''u'' = ''u'' \<and> pid' = ''q'' \<and> n' = 12 \<and> again')"
    using transaction_paid_once [of sample_env "''u''" sample_pack sample_store_tx "[]" "new_service [] [sample_pack]" "''q''" 12 False
        "snd sample_bought" sample_env "''u''" sample_pack sample_store_tx "[]" "[] :: (unit env \<times> service_request) list"
        res "snd sample_bought_again"]
    unfolding sample_bought_again_def sample_bought_def by simp
  have "\<not> isl res" unfolding g [symmetric] by code_simp
  with t have "res = Inr (''q'', 12, True)" by (cases res) auto
  moreover have "e_parse sample_env ''u'' = Some ''u''" by code_simp
  moreover have "lots (sv_db (new_service [] [sample_pack])) = [] \<and> ledger (sv_db (new_service [] [sample_pack])) = []"
    by code_simp
  moreover have "serve_all ([] :: (unit env \<times> service_request) list) (snd sample_bought) = snd sample_bought" by (simp add: serve_all_def)
  ultimately show ?thesis using f g t
    by (auto simp: uncredited_def credited_once_def granted_filter lot_faces_def entries_but_decay_def)
qed

section \<open>A refunded pack is taken back once\<close>

lemma refund_pack_marks:
  assumes "refund_pack_tx nt pid t = Inr (True, t')"
  shows "\<exists>r. get_store_purchase_by_id pid (tx_db t') = Some r \<and> (sp_lot r \<noteq> None \<longrightarrow> sp_refunded_at r \<noteq> None)"
proof -
  from assms obtain isnew db where n: "record_notice nt outcome_refunded (tx_db t) = Inr (isnew, db)"
    by (cases "record_notice nt outcome_refunded (tx_db t)") (auto simp: refund_pack_tx_def)
  with assms have isnew by (cases isnew) (auto simp: refund_pack_tx_def)
  with assms n obtain r where r: "lock_store_purchase pid db = Some r"
    by (auto simp: refund_pack_tx_def split: option.splits)
  show ?thesis
  proof (cases "sp_lot r = None \<or> sp_refunded_at r \<noteq> None")
    case True
    with assms n \<open>isnew\<close> r have "tx_db t' = db" by (auto simp: refund_pack_tx_def split: option.splits if_splits)
    with True r show ?thesis by (auto simp: find_defs)
  next
    case False
    then obtain lot where lot: "sp_lot r = Some lot" "sp_refunded_at r = None" by auto
    with assms n \<open>isnew\<close> r obtain removed debt t2 where
      v: "revoke_lot lot (''store_refund:'' @ pid) ''store_purchase'' pid (t\<lparr>tx_db := db\<rparr>) = Inr (removed, debt, t2)"
      and t': "t' = t2\<lparr>tx_db := mark_purchase_refunded pid (tx_now t2) (tx_db t2)\<rparr>"
      by (auto simp: refund_pack_tx_def split: option.splits if_splits)
    have "purchases (tx_db t2) = purchases db" using store_part_purchases [OF revoke_lot_store [OF v]] by simp
    with r lot show ?thesis
      by (auto simp: t' mark_purchase_refunded_def find_defs find_update_where dest!: find_SomeD)
  qed
qed

lemma refund_pack_after:
  assumes "get_store_purchase_by_id pid (tx_db t) = Some r" "sp_lot r \<noteq> None \<longrightarrow> sp_refunded_at r \<noteq> None"
    and "refund_pack_tx nt pid t = Inr (b, t')"
  shows "same_books (tx_db t) (tx_db t') \<and> tx_balance t' = tx_balance t \<and> tx_debt t' = tx_debt t \<and> tx_held t' = tx_held t"
proof -
  from assms(3) obtain isnew db where n: "record_notice nt outcome_refunded (tx_db t) = Inr (isnew, db)"
    by (cases "record_notice nt outcome_refunded (tx_db t)") (auto simp: refund_pack_tx_def)
  have "lock_store_purchase pid db = Some r"
    using assms(1) record_notice_store [OF n] by (simp add: find_defs)
  with assms(2,3) n have "t' = t\<lparr>tx_db := db\<rparr>" by (auto simp: refund_pack_tx_def split: option.splits if_splits)
  with record_notice_same [OF n] show ?thesis by simp
qed

text \<open>
  A refunded pack is taken back once. After a store refund of a purchase was applied, no
  later refund notification for it, under whatever id and after whatever requests, moves a credit
  or adds to a debt: its transaction leaves the books as it found them.
\<close>

lemma pack_refunded_once:
  assumes "refund_pack e nt p sv = (Inr True, sv1)"
    and "store_part (tx_db t) = store_part (sv_db (serve_all reqs sv1))"
    and "refund_pack_tx nt' (sp_id p) t = Inr (b, t')"
  shows "same_books (tx_db t) (tx_db t') \<and> tx_balance t' = tx_balance t \<and> tx_debt t' = tx_debt t \<and> tx_held t' = tx_held t"
proof -
  from assms(1) obtain a where d: "service_do e 2 (sp_user p) (refund_pack_tx nt (sp_id p)) sv = (a, sv1)" "answered a = Inr True"
    by (auto simp: refund_pack_def split: prod.splits)
  obtain t1 t2 where g: "refund_pack_tx nt (sp_id p) t1 = Inr (True, t2)" and l: "store_part (sv_db sv1) = store_part (tx_db t2)"
    by (rule service_do_store [OF d])
  from refund_pack_marks [OF g] obtain r where r: "find (\<lambda>r. sp_id r = sp_id p) (purchases (sv_db sv1)) = Some r"
    "sp_lot r \<noteq> None \<longrightarrow> sp_refunded_at r \<noteq> None"
    using store_part_purchases [OF l] by (auto simp: get_store_purchase_by_id_def)
  have "purchases_kept (sv_db sv1) (sv_db (serve_all reqs sv1))" by (rule kept.served_all)
  then have "row_kept (\<lambda>r. sp_id r = sp_id p) (sv_db sv1) (sv_db (serve_all reqs sv1))"
    unfolding purchases_kept_def by blast
  with r(1) obtain r' where "find (\<lambda>r. sp_id r = sp_id p) (purchases (sv_db (serve_all reqs sv1))) = Some r'"
    and k: "purchase_kept r r'"
    unfolding row_kept_def by blast
  then have r': "find (\<lambda>r. sp_id r = sp_id p) (purchases (tx_db t)) = Some r'"
    using store_part_purchases [OF assms(2)] by simp
  show ?thesis
    by (rule refund_pack_after [OF _ _ assms(3), of r']) (use r r' k in \<open>auto simp: find_defs purchase_kept_def\<close>)
qed

definition sample_notice :: "string \<Rightarrow> notice" where
  "sample_notice i = \<lparr>nt_platform = ios, nt_id = i, nt_type = ''REFUND'', nt_subtype = []\<rparr>"

definition sample_refunded :: "(go_error + bool) \<times> service" where
  "sample_refunded = refund_pack sample_env (sample_notice ''n1'') (hd (purchases (sv_db (snd sample_bought)))) (snd sample_bought)"

definition sample_late_refund :: "go_error + (bool \<times> tx)" where
  "sample_late_refund = refund_pack_tx (sample_notice ''n2'') ''q'' (sample_tx\<lparr>tx_db := sv_db (snd sample_refunded)\<rparr>)"

section \<open>A notification counts once\<close>

definition notices_kept :: "billing_db \<Rightarrow> billing_db \<Rightarrow> bool" where
  "notices_kept a b \<longleftrightarrow> set (notices a) \<subseteq> set (notices b)"

lemma record_notice_grows: "record_notice nt oc a = Inr (isnew, b) \<Longrightarrow> notices_kept a b"
  by (auto simp: record_notice_def insert_notice_def notices_kept_def split: if_splits)

interpretation noted: store_history notices_kept
proof (unfold_locales, goal_cases)
  case (1 a b) then show ?case by (simp add: store_part_def notices_kept_def)
next
  case 2 then show ?case by (auto simp: notices_kept_def)
next
  case 3 then show ?case using upsert_subscription_store by (auto simp: notices_kept_def)
next
  case 4 then show ?case using recorded_purchase(2) by (auto simp: notices_kept_def)
next
  case 5
  from recorded_purchase(2) [OF 5(1)] store_part_purchases [OF 5(2)] show ?case
    by (simp add: notices_kept_def set_store_purchase_grant_def)
next
  case 6 show ?case by (simp add: notices_kept_def mark_purchase_finished_def)
next
  case 7 show ?case by (simp add: notices_kept_def mark_purchase_refunded_def)
next
  case 8 then show ?case by (rule record_notice_grows)
qed

definition noticed :: "string \<Rightarrow> string \<Rightarrow> billing_db \<Rightarrow> bool" where
  "noticed pl i db \<longleftrightarrow> (\<exists>r \<in> set (notices db). nr_platform r = pl \<and> nr_id r = i)"

lemma noticed_kept: "noticed pl i a \<Longrightarrow> notices_kept a b \<Longrightarrow> noticed pl i b"
  by (auto simp: noticed_def notices_kept_def)

lemma noticed_same: "store_part a = store_part b \<Longrightarrow> noticed pl i a = noticed pl i b"
  by (simp add: store_part_def noticed_def)

lemma record_notice_noticed: "record_notice nt oc a = Inr (isnew, b) \<Longrightarrow> noticed (nt_platform nt) (nt_id nt) b"
  by (auto simp: record_notice_def insert_notice_def noticed_def list_ex_iff split: if_splits)

lemma record_notice_again:
  "noticed (nt_platform nt) (nt_id nt) a \<Longrightarrow> record_notice nt oc a = Inr (isnew, b) \<Longrightarrow> \<not> isnew \<and> b = a"
  by (auto simp: record_notice_def insert_notice_def noticed_def list_ex_iff split: if_splits)

text \<open>What every handler does with the notice it was given.\<close>

definition counted :: "string \<Rightarrow> string \<Rightarrow> service \<Rightarrow> (go_error + bool) \<times> service \<Rightarrow> bool" where
  "counted pl i sv res \<longleftrightarrow> (case res of (Inl err, sv') \<Rightarrow> True | (Inr b, sv') \<Rightarrow>
     noticed pl i (sv_db sv') \<and>
     (noticed pl i (sv_db sv) \<longrightarrow> \<not> b \<and> store_part (sv_db sv') = store_part (sv_db sv)))"

lemma counted_Inl [simp]: "counted pl i sv (Inl err, sv')"
  by (simp add: counted_def)

lemma counted_seen: "seen_notice nt sv \<Longrightarrow> counted (nt_platform nt) (nt_id nt) sv (Inr False, sv)"
  by (auto simp: counted_def seen_notice_def count_notices_def noticed_def filter_empty_conv)

lemma record_only_counted: "counted (nt_platform nt) (nt_id nt) sv (record_only nt oc sv)"
  by (auto simp: counted_def record_only_def split: sum.split dest: record_notice_noticed record_notice_again)

lemma noticing_tx_counted:
  assumes F: "\<And>t b t'. fn t = Inr (b, t') \<Longrightarrow> noticed pl i (tx_db t') \<and>
      (noticed pl i (tx_db t) \<longrightarrow> \<not> b \<and> store_part (tx_db t') = store_part (tx_db t))"
    and D: "service_do e n user fn sv = (a, sv')"
  shows "counted pl i sv (answered a, sv')"
proof (cases "answered a")
  case (Inr b)
  obtain t1 t2 where t: "store_part (tx_db t1) = store_part (sv_db sv)" "fn t1 = Inr (b, t2)"
    "store_part (sv_db sv') = store_part (tx_db t2)"
    by (rule service_do_store [OF D Inr])
  note f = F [OF t(2)] and s = noticed_same [OF t(1), of pl i] noticed_same [OF t(3), of pl i]
  show ?thesis using f by (simp add: counted_def Inr s t(1,3))
qed simp

lemma change_tx_once:
  assumes C: "change_tx nt orig c owner t = Inr (b, t')"
  shows "noticed (nt_platform nt) (nt_id nt) (tx_db t') \<and> (noticed (nt_platform nt) (nt_id nt) (tx_db t) \<longrightarrow> \<not> b \<and> tx_db t' = tx_db t)"
proof -
  let ?oc = "change_outcome (lock_subscription owner (tx_db t)) orig c"
  from C obtain isnew db where n: "record_notice nt ?oc (tx_db t) = Inr (isnew, db)"
    by (cases "record_notice nt ?oc (tx_db t)") (auto simp: change_tx_def Let_def)
  note N = record_notice_noticed [OF n]
  have W: "noticed (nt_platform nt) (nt_id nt) db'" if "write_subscription owner cur nxt now db = Inr db'" for cur nxt now db'
    using noticed_kept [OF N noted.subscription_written [OF that]] .
  from C n N W record_notice_again [OF _ n] show ?thesis
    by (auto simp: change_tx_def Let_def split: if_splits option.splits)
qed

lemma refund_tx_once:
  assumes C: "refund_pack_tx nt pid t = Inr (b, t')"
  shows "noticed (nt_platform nt) (nt_id nt) (tx_db t') \<and> (noticed (nt_platform nt) (nt_id nt) (tx_db t) \<longrightarrow> \<not> b \<and> tx_db t' = tx_db t)"
proof -
  from C obtain isnew db where n: "record_notice nt outcome_refunded (tx_db t) = Inr (isnew, db)"
    by (cases "record_notice nt outcome_refunded (tx_db t)") (auto simp: refund_pack_tx_def)
  note N = record_notice_noticed [OF n]
  have V: "noticed (nt_platform nt) (nt_id nt) (mark_purchase_refunded pid now (tx_db t2))"
    if "revoke_lot lot key ty ri (t\<lparr>tx_db := db\<rparr>) = Inr (x, y, t2)" for lot key ty ri x y t2 now
    using revoke_lot_store [OF that] N noticed_same [of "tx_db t2" db]
    by (simp add: noticed_def mark_purchase_refunded_def)
  show ?thesis
  proof (cases isnew)
    case True
    with record_notice_again [OF _ n] have "\<not> noticed (nt_platform nt) (nt_id nt) (tx_db t)" by blast
    with C n N V True show ?thesis by (auto simp: refund_pack_tx_def split: if_splits option.splits)
  next
    case False
    with C n N record_notice_again [OF _ n] show ?thesis by (auto simp: refund_pack_tx_def)
  qed
qed

lemma change_counted: "counted (nt_platform nt) (nt_id nt) sv (apply_subscription_change e nt orig c sv)"
proof (cases "find_purchase_by_original (nt_platform nt) orig (sv_db sv)")
  case None
  then show ?thesis by (simp add: apply_subscription_change_def record_only_counted)
next
  case (Some p)
  obtain a sv' where d: "service_do e 2 (sp_user p) (change_tx nt orig c (sp_user p)) sv = (a, sv')" by force
  have "counted (nt_platform nt) (nt_id nt) sv (answered a, sv')"
    by (rule noticing_tx_counted [OF _ d]) (drule change_tx_once, simp)
  with Some d show ?thesis by (simp add: apply_subscription_change_def)
qed

lemma refund_counted: "counted (nt_platform nt) (nt_id nt) sv (refund_pack e nt p sv)"
proof -
  obtain a sv' where d: "service_do e 2 (sp_user p) (refund_pack_tx nt (sp_id p)) sv = (a, sv')" by force
  have "counted (nt_platform nt) (nt_id nt) sv (answered a, sv')"
    by (rule noticing_tx_counted [OF _ d]) (drule refund_tx_once, simp)
  with d show ?thesis by (simp add: refund_pack_def)
qed

lemmas counted_rules = record_only_counted change_counted refund_counted

lemma apple_counted: "counted ios (an_id n) sv (apple_event e se n sv)"
proof -
  let ?nt = "\<lambda>ty sub. \<lparr>nt_platform = ios, nt_id = an_id n, nt_type = ty, nt_subtype = sub\<rparr>"
  have k: "counted ios (an_id n) sv (record_only (?nt ty sub) oc sv)" "counted ios (an_id n) sv (refund_pack e (?nt ty sub) p sv)"
    "counted ios (an_id n) sv (apply_subscription_change e (?nt ty sub) orig c sv)" for ty sub oc p orig c
    using counted_rules [of "?nt ty sub"] by simp_all
  show ?thesis by (simp add: apple_event_def Let_def k split: option.split)
qed

lemma google_counted: "counted android (gn_id n) sv (google_event e se n sv)"
proof -
  let ?nt = "\<lambda>ty. \<lparr>nt_platform = android, nt_id = gn_id n, nt_type = ty, nt_subtype = []\<rparr>"
  have k: "counted android (gn_id n) sv (record_only (?nt ty) oc sv)" "counted android (gn_id n) sv (refund_pack e (?nt ty) p sv)"
    "counted android (gn_id n) sv (apply_subscription_change e (?nt ty) orig c sv)"
    "seen_notice (?nt ty) sv \<Longrightarrow> counted android (gn_id n) sv (Inr False, sv)" for ty oc p orig c
    using counted_rules [of "?nt ty"] counted_seen [of "?nt ty"] by simp_all
  show ?thesis
    by (simp add: google_event_def google_voided_event_def google_subscription_event_def Let_def k split: option.split sum.split)
qed

text \<open>
  A store notification counts once. After Apple's notification was answered without an error,
  delivering it again, after any requests and to a service configured in any way, answers False
  when it succeeds, and no purchase, notice, subscription, plan or product changes.
\<close>

lemma notification_counts_once:
  assumes "apple_event e se n sv = (Inr b, sv1)"
    and "apple_event e' se' n (serve_all reqs sv1) = (Inr b', sv2)"
  shows "\<not> b' \<and> store_part (sv_db sv2) = store_part (sv_db (serve_all reqs sv1))"
proof -
  have "noticed ios (an_id n) (sv_db sv1)" using apple_counted [of n sv e se] assms(1) by (simp add: counted_def)
  then have "noticed ios (an_id n) (sv_db (serve_all reqs sv1))" by (rule noticed_kept) (rule noted.served_all)
  then show ?thesis using apple_counted [of n "serve_all reqs sv1" e' se'] assms(2) by (simp add: counted_def)
qed

definition sample_store_env :: store_env where
  "sample_store_env = \<lparr>se_verify = (\<lambda>r. Inl err_rejected), se_finish = (\<lambda>a b c d. None), se_sha1 = (\<lambda>s. s),
     se_google_package = ''pkg'', se_apple_bundle = ''app'', se_production = True, se_flags = None\<rparr>"

definition sample_apple :: apple_notification where
  "sample_apple = \<lparr>an_id = ''n1'', an_type = ''REFUND'', an_subtype = [], an_bundle = ''app'', an_tx = Some sample_store_tx,
     an_grace_end = None, an_auto_renew = None\<rparr>"

definition sample_told :: "service \<Rightarrow> (go_error + bool) \<times> service" where
  "sample_told sv = apple_event sample_env sample_store_env sample_apple sv"

lemma google_counts_once:
  assumes "google_event e se n sv = (Inr b, sv1)"
    and "google_event e' se' n (serve_all reqs sv1) = (Inr b', sv2)"
  shows "\<not> b' \<and> store_part (sv_db sv2) = store_part (sv_db (serve_all reqs sv1))"
proof -
  have "noticed android (gn_id n) (sv_db sv1)" using google_counted [of n sv e se] assms(1) by (simp add: counted_def)
  then have "noticed android (gn_id n) (sv_db (serve_all reqs sv1))" by (rule noticed_kept) (rule noted.served_all)
  then show ?thesis using google_counted [of n "serve_all reqs sv1" e' se'] assms(2) by (simp add: counted_def)
qed

section \<open>Periods paid for\<close>

lemma changed_period_end: "ns_period_end (changed_subscription db now r c) \<ge> sr_period_end r"
  by (simp add: changed_subscription_def from_stored_def Let_def time_after_def split: option.split)

lemma upserted_subscription:
  assumes "upsert_subscription s a = Inr b"
  shows "lock_subscription (sr_user s) b = Some s" "u \<noteq> sr_user s \<Longrightarrow> lock_subscription u b = lock_subscription u a"
proof -
  let ?rows = "subscriptions a"
  have old: "find (\<lambda>x. sr_user x = sr_user s) (update_where (\<lambda>x. sr_user x = sr_user s) (\<lambda>x. s) rows) = Some s"
    if "list_ex (\<lambda>x. sr_user x = sr_user s) rows" for rows
    using that by (induction rows) auto
  have other: "find (\<lambda>x. sr_user x = u) (update_where (\<lambda>x. sr_user x = sr_user s) (\<lambda>x. s) rows) = find (\<lambda>x. sr_user x = u) rows"
    if "u \<noteq> sr_user s" for rows
    using that by (induction rows) auto
  have new: "find (\<lambda>x. sr_user x = sr_user s) (rows @ [s]) = Some s" if "\<not> list_ex (\<lambda>x. sr_user x = sr_user s) rows" for rows
    using that by (induction rows) auto
  show "lock_subscription (sr_user s) b = Some s" "u \<noteq> sr_user s \<Longrightarrow> lock_subscription u b = lock_subscription u a"
    using assms old [of ?rows] other [of ?rows] new [of ?rows]
    by (auto simp: upsert_subscription_def lock_subscription_def find_snoc split: if_splits option.split)
qed

lemma lock_outbox [simp]: "lock_subscription u (insert_billing_outbox topic ev db) = lock_subscription u db"
  by (simp add: lock_subscription_def insert_billing_outbox_def)

lemma written_subscription:
  assumes "write_subscription owner cur nxt now db = Inr db'"
  shows "u \<noteq> owner \<Longrightarrow> lock_subscription u db' = lock_subscription u db"
    and "\<exists>r'. lock_subscription owner db' = Some r' \<and> sr_period_end r' = ts (ns_period_end nxt)"
proof -
  obtain row db1 where r: "upsert_subscription row db = Inr db1" "sr_user row = owner" "sr_period_end row = ts (ns_period_end nxt)"
    and l: "lock_subscription v db' = lock_subscription v db1" for v
    using assms by (auto simp: write_subscription_def Let_def split: sum.splits if_splits)
  show "u \<noteq> owner \<Longrightarrow> lock_subscription u db' = lock_subscription u db"
    using upserted_subscription(2) [OF r(1)] r(2) l by simp
  show "\<exists>r'. lock_subscription owner db' = Some r' \<and> sr_period_end r' = ts (ns_period_end nxt)"
    using upserted_subscription(1) [OF r(1)] r(2,3) l by auto
qed

definition overtaken :: "sub_change \<Rightarrow> subscription_row \<Rightarrow> bool" where
  "overtaken c r \<longleftrightarrow> cg_status c \<noteq> ''active'' \<and>
     (case cg_as_of c of None \<Rightarrow> False | Some x \<Rightarrow> time_before x (time_add (sr_period_end r) (- second)))"

lemma change_tx_subscription:
  assumes C: "change_tx nt orig c owner t = Inr (b, t')" and L: "lock_subscription u (tx_db t) = Some r"
  shows "\<exists>r'. lock_subscription u (tx_db t') = Some r' \<and> ts (sr_period_end r) \<le> sr_period_end r' \<and> (overtaken c r \<longrightarrow> r' = r)"
proof -
  let ?cur = "lock_subscription owner (tx_db t)"
  from C obtain isnew db where n: "record_notice nt (change_outcome ?cur orig c) (tx_db t) = Inr (isnew, db)"
    by (cases "record_notice nt (change_outcome ?cur orig c) (tx_db t)") (auto simp: change_tx_def Let_def)
  have db: "lock_subscription v db = lock_subscription v (tx_db t)" for v
    using record_notice_store [OF n] by (simp add: lock_subscription_def)
  show ?thesis
  proof (cases "isnew \<and> change_outcome ?cur orig c = outcome_applied \<and> ?cur \<noteq> None")
    case False
    with C n have "tx_db t' = db" by (auto simp: change_tx_def Let_def split: if_splits option.splits)
    with L db show ?thesis by auto
  next
    case True
    then obtain q where q: "?cur = Some q" by blast
    with True C n obtain db2 where
      w: "write_subscription owner ?cur (changed_subscription db (tx_now t) q c) (tx_now t) db = Inr db2" "tx_db t' = db2"
      by (auto simp: change_tx_def Let_def)
    show ?thesis
    proof (cases "u = owner")
      case False
      with written_subscription(1) [OF w(1), of u] w(2) L db show ?thesis by auto
    next
      case True
      with L q have rq: "q = r" by simp
      have "\<not> overtaken c r"
        using \<open>isnew \<and> change_outcome ?cur orig c = outcome_applied \<and> ?cur \<noteq> None\<close> q rq
        by (auto simp: change_outcome_def overtaken_def outcome_words split: if_splits option.splits)
      moreover have "ts (sr_period_end r) \<le> ts (ns_period_end (changed_subscription db (tx_now t) q c))"
        unfolding rq by (rule ts_mono [OF changed_period_end])
      ultimately show ?thesis using written_subscription(2) [OF w(1)] w(2) True by auto
    qed
  qed
qed

text \<open>
  C40. No notification shortens a period that was paid for, and one that was overtaken changes
  nothing: for every user, after any subscription change the stored period ends no earlier (up to
  the microseconds the column keeps), and a change that would end access, but speaks of an earlier
  period than the stored one, leaves the row as it was.
\<close>

theorem notice_never_shortens:
  assumes "apply_subscription_change e nt orig c sv = (Inr b, sv')" and "lock_subscription u (sv_db sv) = Some r"
  shows "\<exists>r'. lock_subscription u (sv_db sv') = Some r' \<and> ts (sr_period_end r) \<le> sr_period_end r' \<and> (overtaken c r \<longrightarrow> r' = r)"
proof (cases "find_purchase_by_original (nt_platform nt) orig (sv_db sv)")
  case None
  with assms show ?thesis
    by (auto simp: apply_subscription_change_def record_only_def lock_subscription_def split: sum.splits
        dest!: record_notice_store)
next
  case (Some p)
  obtain a sv1 where d: "service_do e 2 (sp_user p) (change_tx nt orig c (sp_user p)) sv = (a, sv1)" by force
  with Some assms(1) have s: "sv1 = sv'" "answered a = Inr b" by (simp_all add: apply_subscription_change_def)
  obtain t1 t2 where t: "store_part (tx_db t1) = store_part (sv_db sv)" "change_tx nt orig c (sp_user p) t1 = Inr (b, t2)"
    "store_part (sv_db sv1) = store_part (tx_db t2)"
    by (rule service_do_store [OF d s(2)])
  have l: "lock_subscription v (tx_db t1) = lock_subscription v (sv_db sv)"
    "lock_subscription v (sv_db sv') = lock_subscription v (tx_db t2)" for v
    using store_part_purchases [OF t(1)] store_part_purchases [OF t(3)] s(1) by (simp_all add: lock_subscription_def)
  show ?thesis using change_tx_subscription [OF t(2), of u r] assms(2) l by simp
qed

definition sample_subscription :: subscription_row where
  "sample_subscription = \<lparr>sr_user = ''u'', sr_plan_code = ''pro'', sr_status = ''active'', sr_platform = ios,
     sr_original_transaction_id = Some ''t1'', sr_product_id = Some ''pack'', sr_period_start = 0,
     sr_period_end = 90000000000000, sr_grace_period_end = None, sr_auto_renew = True\<rparr>"

definition sample_subscriber :: service where
  "sample_subscriber = (snd sample_bought)\<lparr>sv_db := (sv_db (snd sample_bought))\<lparr>subscriptions := [sample_subscription]\<rparr>\<rparr>"

definition sample_expired :: "(go_error + bool) \<times> service" where
  "sample_expired = apply_subscription_change sample_env (sample_notice ''n3'') ''t1''
     (no_change\<lparr>cg_status := ''expired'', cg_as_of := Some 5000\<rparr>) sample_subscriber"

lemma notice_never_shortens_witness:
  "fst sample_expired = Inr True \<and> lock_subscription ''u'' (sv_db (snd sample_expired)) = Some sample_subscription"
proof -
  let ?c = "no_change\<lparr>cg_status := ''expired'', cg_as_of := Some 5000\<rparr>"
  have f: "fst sample_expired = Inr True" by code_simp
  then have "apply_subscription_change sample_env (sample_notice ''n3'') ''t1'' ?c sample_subscriber = (Inr True, snd sample_expired)"
    by (simp add: prod_eq_iff sample_expired_def)
  moreover have "lock_subscription ''u'' (sv_db sample_subscriber) = Some sample_subscription"
    by (simp add: sample_subscriber_def lock_subscription_def sample_subscription_def)
  moreover have "overtaken ?c sample_subscription" by code_simp
  ultimately show ?thesis using notice_never_shortens f by blast
qed

end
