(* ===== verification/Flags_Facts.thy ===== *)
theory Flags_Facts
  imports Flags "HOL-Library.Option_ord"
begin

text \<open>
  Versions are ordered by their numbers, a minimum version can only be raised against an app,
  and the answer for every flag does not depend on the order a map is ranged over.
\<close>

section \<open>Versions\<close>

lemma parse_segments_props:
  "parse_segments ps = Some ns \<Longrightarrow> length ns = length ps \<and> (\<forall>n \<in> set ns. 0 \<le> n \<and> n \<le> 1000000)"
  by (induction ps arbitrary: ns) (auto split: option.splits if_splits)

lemma parse_version_length: "parse_version v = Some a \<Longrightarrow> length a = 3"
  by (auto simp: parse_version_def Let_def dest!: parse_segments_props split: if_splits)

lemma compare_segments_order:
  "length as = length bs \<Longrightarrow> compare_segments as bs = (if as < bs then -1 else if as = bs then 0 else 1)"
  by (induction as bs rule: compare_segments.induct) (auto simp: Cons_less_Cons)

text \<open>
  Comparing two version strings is comparing what they parse to: lexicographically by
  major, minor and patch number, missing numbers counting as 0, and an unreadable version
  before every readable one.
\<close>

lemma version_order:
  "compare_versions a b =
    (if parse_version a < parse_version b then -1 else if parse_version a = parse_version b then 0 else 1)"
  using parse_version_length [of a] parse_version_length [of b]
  by (auto simp: compare_versions_def compare_segments_order split: option.splits)

lemma version_compare_ge: "compare_versions a b \<ge> 0 \<longleftrightarrow> parse_version b \<le> parse_version a"
  using parse_version_length [of a] parse_version_length [of b]
  by (auto simp: compare_versions_def compare_segments_order not_less order.order_iff_strict split: option.splits)

text \<open>
  A minimum version only ever excludes: an app that is new enough for a minimum is new
  enough for every older one, and an app whose version cannot be read is never new enough.
\<close>

lemma at_least_downward:
  "(at_least v m \<and> compare_versions m m' \<ge> 0 \<longrightarrow> at_least v m') \<and>
   (parse_version v = None \<longrightarrow> \<not> at_least v m)"
  by (auto simp: at_least_def version_compare_ge)

lemma digits_plain:
  "list_all (\<lambda>c. \<not> is_space c \<and> c \<noteq> CHR ''.'' \<and> c \<noteq> CHR ''+'' \<and> c \<noteq> CHR ''-'' \<and> c \<noteq> CHR ''v'') (digits_of_nat n)"
proof -
  have "is_digit c \<Longrightarrow> \<not> is_space c \<and> c \<noteq> CHR ''.'' \<and> c \<noteq> CHR ''+'' \<and> c \<noteq> CHR ''-'' \<and> c \<noteq> CHR ''v''" for c
    by (auto simp: is_digit_def is_space_def)
  with digits_of_nat_props [of n] show ?thesis by (auto simp: list_all_iff)
qed

text \<open>
  A version written as three decimal numbers up to a million reads back as those numbers.
\<close>

lemma version_roundtrip:
  assumes "a \<le> 1000000" "b \<le> 1000000" "c \<le> 1000000"
  shows "parse_version (digits_of_nat a @ ''.'' @ digits_of_nat b @ ''.'' @ digits_of_nat c) = Some [int a, int b, int c]"
proof -
  let ?v = "digits_of_nat a @ ''.'' @ digits_of_nat b @ ''.'' @ digits_of_nat c"
  note p = digits_plain [of a] digits_plain [of b] digits_plain [of c]
  obtain x xs where x: "digits_of_nat a = x # xs" using digits_of_nat_props [of a] by (cases "digits_of_nat a") auto
  with p(1) have np: "trim_prefix ''v'' ?v = ?v" by (auto simp: trim_prefix_def)
  have dot: "\<not> is_space (CHR ''.'')" by (simp add: is_space_def)
  then have "list_all (\<lambda>c. \<not> is_space c) ?v" using p by (simp add: list_all_iff ball_Un)
  then have ts: "trim_space ?v = ?v" by (rule trim_space_plain)
  have "\<forall>c \<in> set ?v. c \<noteq> CHR ''+'' \<and> c \<noteq> CHR ''-''" using p by (simp add: list_all_iff ball_Un)
  then have tw: "takeWhile (\<lambda>c. c \<noteq> CHR ''+'' \<and> c \<noteq> CHR ''-'') ?v = ?v" by (simp add: takeWhile_eq_all_conv)
  have nodot: "CHR ''.'' \<notin> set (digits_of_nat n)" for n using digits_plain [of n] by (auto simp: list_all_iff)
  have "split_on (CHR ''.'') ?v = [digits_of_nat a, digits_of_nat b, digits_of_nat c]"
    by (simp add: nodot split_on_append split_on_plain)
  note sp = this
  have pi: "parse_int (digits_of_nat n) = Some (int n)" if "n \<le> 1000000" for n
    using parse_int_string_of_int [of "int n"] that by (simp add: string_of_int_def in_i64_def)
  have ne: "?v \<noteq> []" by simp
  show ?thesis by (simp only: parse_version_def Let_def np ts tw ne sp if_False) (use assms in \<open>simp add: pi not_less\<close>)
qed

section \<open>Rollouts\<close>

text \<open>
  A percentage rollout only grows: a user it matches at one percentage is matched at every
  higher one; at 0 it matches nobody and at 100 everyone with an id.
\<close>

lemma rollout_grows:
  assumes "fr_type r = RulePercentage"
  shows "(p \<le> q \<and> rule_matches sha key (r\<lparr>fr_percent := p\<rparr>) s \<longrightarrow> rule_matches sha key (r\<lparr>fr_percent := q\<rparr>) s) \<and>
    \<not> rule_matches sha key (r\<lparr>fr_percent := 0\<rparr>) s \<and>
    (rule_matches sha key (r\<lparr>fr_percent := 100\<rparr>) s \<longleftrightarrow> sj_user_id s \<noteq> [])"
  using assms by (auto simp: rule_matches_def rollout_bucket_def not_less)

section \<open>All flags\<close>

lemma matches_email:
  "fr_type r \<noteq> RuleEmailDomains \<Longrightarrow> rule_matches sha key r (s\<lparr>sj_email := x\<rparr>) = rule_matches sha key r s"
  by (cases "fr_type r") (auto simp: rule_matches_def)

lemma first_match_email:
  "\<not> list_ex (\<lambda>r. fr_type r = RuleEmailDomains) rs \<Longrightarrow>
    first_match sha key rs (s\<lparr>sj_email := x\<rparr>) = first_match sha key rs s"
  by (induction rs) (auto simp: matches_email)

lemma evaluate_email: "\<not> needs_email f \<Longrightarrow> evaluate sha f (s\<lparr>sj_email := x\<rparr>) = evaluate sha f s"
  by (simp add: evaluate_def needs_email_def first_match_email)

text \<open>The subject with its e-mail looked up, whichever flag asked for it.\<close>

definition looked_up :: "flag_env \<Rightarrow> subject \<Rightarrow> subject" where
  "looked_up e s =
     (if sj_email s \<noteq> [] \<or> sj_user_id s = [] then s
      else case fe_emails e of None \<Rightarrow> s
        | Some resolve \<Rightarrow> (case resolve (sj_user_id s) of Inl err \<Rightarrow> s | Inr email \<Rightarrow> s\<lparr>sj_email := email\<rparr>))"

lemma with_email_alt: "with_email e f s = (if needs_email f then looked_up e s else s)"
  by (simp add: with_email_def looked_up_def)

lemma evaluate_looked_up: "\<not> needs_email f \<Longrightarrow> evaluate sha f (looked_up e s) = evaluate sha f s"
  by (auto simp: looked_up_def evaluate_email split: option.splits sum.splits)

lemma evaluate_each_agrees:
  assumes "subj = (if resolved then looked_up e s else s)"
  shows "evaluate_each e m ks resolved subj out k =
    (if k \<in> set ks \<and> m k \<noteq> None then Some (evaluate (fe_sha e) (the (m k)) (with_email e (the (m k)) s), fl_value (the (m k)))
     else out k)"
  using assms
proof (induction ks arbitrary: resolved subj out)
  case Nil
  then show ?case by simp
next
  case (Cons j ks)
  show ?case
  proof (cases "m j")
    case None
    with Cons show ?thesis by (auto simp: Cons.IH [OF Cons.prems])
  next
    case (Some f)
    let ?fetch = "\<not> resolved \<and> needs_email f"
    let ?subj = "if ?fetch then with_email e f subj else subj"
    have next_subj: "?subj = (if resolved \<or> ?fetch then looked_up e s else s)"
      using Cons.prems by (simp add: with_email_alt)
    have "evaluate (fe_sha e) f ?subj = evaluate (fe_sha e) f (with_email e f s)"
      using Cons.prems by (simp add: with_email_alt evaluate_looked_up)
    moreover have "evaluate_each e m (j # ks) resolved subj out =
        evaluate_each e m ks (resolved \<or> ?fetch) ?subj (out(j \<mapsto> (evaluate (fe_sha e) f ?subj, fl_value f)))"
      by (simp add: Some Let_def del: if_split)
    ultimately show ?thesis using Some
      by (simp only: Cons.IH [OF next_subj]) (auto simp del: fun_upd_apply simp: fun_upd_def)
  qed
qed

text \<open>
  Evaluating all flags at once gives, whatever order the map is ranged over, for each
  flag the answer it gives on its own, although the e-mail is fetched at most once.
\<close>

lemma evaluate_all_agrees:
  assumes "snapshot e sv = (Inr m, sv')" "dom m \<subseteq> set ks"
  shows "\<exists>out. fst (evaluate_all e ks s sv) = Inr out \<and> dom out = dom m \<and>
    (\<forall>k f. m k = Some f \<longrightarrow> fst (flag_enabled e k s sv) = Inr (fst (the (out k))) \<and> snd (the (out k)) = fl_value f)"
proof -
  let ?out = "evaluate_each e m ks False s Map.empty"
  have o: "?out k = (if m k \<noteq> None then Some (evaluate (fe_sha e) (the (m k)) (with_email e (the (m k)) s), fl_value (the (m k)))
      else None)" for k
    using evaluate_each_agrees [of s False e s m ks Map.empty k] assms(2) by auto
  have "dom ?out = dom m" by (auto simp: o dom_def split: if_splits)
  moreover have "fst (flag_enabled e k s sv) = Inr (fst (the (?out k))) \<and> snd (the (?out k)) = fl_value f"
    if "m k = Some f" for k f
    using that assms(1) o [of k] by (simp add: flag_enabled_def)
  moreover have "fst (evaluate_all e ks s sv) = Inr ?out" using assms(1) by (simp add: evaluate_all_def)
  ultimately show ?thesis by blast
qed

definition sample_flag :: flag where
  "sample_flag = \<lparr>fl_key = ''f'', fl_enabled = False,
     fl_rules = [\<lparr>fr_type = RuleEmailDomains, fr_values = [''@x.org''], fr_version = [], fr_percent = 0, fr_result = None\<rparr>],
     fl_value = []\<rparr>"

definition sample_flag_env :: flag_env where
  "sample_flag_env = \<lparr>fe_now = 0, fe_loaded = 0, fe_all = Inr [sample_flag], fe_emails = Some (\<lambda>u. Inr ''a@X.org''),
     fe_sha = length\<rparr>"

end
