(* ===== verification/Rate_Limit.thy ===== *)
theory Rate_Limit
  imports AppError
begin

text \<open>
  \<open>platform/ratelimit\<close>: the in-memory fixed-window limiter of the gateway (\<open>ratelimit.go\<close>)
  and the limiter every instance shares through PostgreSQL (\<open>shared.go\<close>). Each operation runs
  under a mutex or in one SQL statement, so a history is a sequence of operations. SHA-256 and whether
  the database answers are arguments.
\<close>

section \<open>In memory\<close>

record bucket =
  bk_count :: int
  bk_reset_at :: instant

text \<open>
  The Go map from keys to list elements, and the list of those elements oldest first; an
  element is known by the key of its bucket.
\<close>

record limiter =
  rl_buckets :: "string \<rightharpoonup> bucket"
  rl_order :: "string list"
  rl_max_keys :: int

definition default_max_keys :: int where
  "default_max_keys = 100000"

definition new_limiter :: "int \<Rightarrow> limiter" where
  "new_limiter max_keys = \<lparr>rl_buckets = Map.empty, rl_order = [], rl_max_keys = max_keys\<rparr>"

text \<open>The eviction loop. \<open>Front\<close> of an empty list is nil, and reading its value panics.\<close>

fun evict_oldest :: "int \<Rightarrow> string list \<Rightarrow> (string \<rightharpoonup> bucket) \<Rightarrow> go_error + (string list \<times> (string \<rightharpoonup> bucket))" where
  "evict_oldest max_keys [] m =
     (if 0 \<ge> max_keys then Inl (Panic ''nil pointer dereference'') else Inr ([], m))"
| "evict_oldest max_keys (k # ks) m =
     (if int (length (k # ks)) \<ge> max_keys then evict_oldest max_keys ks (m(k := None)) else Inr (k # ks, m))"

definition limiter_allow ::
  "instant \<Rightarrow> string \<Rightarrow> int \<Rightarrow> duration \<Rightarrow> limiter \<Rightarrow> go_error + (bool \<times> limiter)" where
  "limiter_allow now key limit window l =
     (case rl_buckets l key of
        Some b \<Rightarrow>
          if time_before now (bk_reset_at b)
          then let c = i64 (bk_count b + 1) in
            Inr (c \<le> limit, l\<lparr>rl_buckets := (rl_buckets l)(key \<mapsto> b\<lparr>bk_count := c\<rparr>)\<rparr>)
          else Inr (True, l\<lparr>rl_buckets := (rl_buckets l)(key \<mapsto> \<lparr>bk_count = 1, bk_reset_at = time_add now window\<rparr>),
                 rl_order := remove1 key (rl_order l) @ [key]\<rparr>)
      | None \<Rightarrow>
          res_bind (evict_oldest (rl_max_keys l) (rl_order l) (rl_buckets l)) (\<lambda>(order, m).
          Inr (True, l\<lparr>rl_buckets := m(key \<mapsto> \<lparr>bk_count = 1, bk_reset_at = time_add now window\<rparr>),
                 rl_order := order @ [key]\<rparr>)))"

text \<open>\<open>sweep\<close> drops every expired bucket; the order the map is ranged over does not show.\<close>

definition limiter_sweep :: "instant \<Rightarrow> limiter \<Rightarrow> limiter" where
  "limiter_sweep now l =
     (let live = (\<lambda>k. case rl_buckets l k of None \<Rightarrow> False | Some b \<Rightarrow> time_before now (bk_reset_at b)) in
      l\<lparr>rl_buckets := (\<lambda>k. if live k then rl_buckets l k else None), rl_order := filter live (rl_order l)\<rparr>)"

datatype limiter_event = Request instant string int duration | Sweep instant

fun event_time :: "limiter_event \<Rightarrow> instant" where
  "event_time (Request now key limit window) = now"
| "event_time (Sweep now) = now"

fun run_limiter :: "limiter_event list \<Rightarrow> limiter \<Rightarrow> go_error + bool list" where
  "run_limiter [] l = Inr []"
| "run_limiter (Request now key limit window # es) l =
     res_bind (limiter_allow now key limit window l) (\<lambda>(ok, l).
     res_bind (run_limiter es l) (\<lambda>oks. Inr (ok # oks)))"
| "run_limiter (Sweep now # es) l = run_limiter es (limiter_sweep now l)"

section \<open>Shared\<close>

record limit_rule =
  lr_name :: string
  lr_limit :: int
  lr_window :: duration
  lr_fail_closed :: bool

text \<open>A row of \<open>ops.rate_counters\<close>.\<close>

record 'h counter_row =
  rc_hash :: 'h
  rc_start :: instant
  rc_count :: int
  rc_expires :: instant

definition colombo_offset_seconds :: int where
  "colombo_offset_seconds = 19800"

text \<open>The \<open>WITH w\<close> of \<open>claimSQL\<close>, over instants in nanoseconds: \<open>secs\<close> is \<open>$2\<close>.\<close>

definition window_start :: "instant \<Rightarrow> int \<Rightarrow> instant" where
  "window_start now secs =
     (now + colombo_offset_seconds * second) div (secs * second) * (secs * second) - colombo_offset_seconds * second"

text \<open>\<open>claimSQL\<close>: the new count, or no row when the window is full.\<close>

definition claim_use ::
  "instant \<Rightarrow> 'h \<Rightarrow> int \<Rightarrow> int \<Rightarrow> 'h counter_row list \<Rightarrow> int option \<times> 'h counter_row list" where
  "claim_use now h secs limit rows =
     (let start = window_start now secs in
      case find (\<lambda>r. rc_hash r = h \<and> rc_start r = start) rows of
        None \<Rightarrow> (Some 1, rows @ [\<lparr>rc_hash = h, rc_start = start, rc_count = 1, rc_expires = start + secs * second\<rparr>])
      | Some r \<Rightarrow>
          if rc_count r < limit
          then (Some (rc_count r + 1),
                update_where (\<lambda>r. rc_hash r = h \<and> rc_start r = start) (\<lambda>r. r\<lparr>rc_count := rc_count r + 1\<rparr>) rows)
          else (None, rows))"

text \<open>
  \<open>Check\<close> of a limiter that is wired; \<open>up\<close> says whether the database answers. Without an error the
  use is allowed.
\<close>

definition shared_check ::
  "bool \<Rightarrow> instant \<Rightarrow> (string \<Rightarrow> 'h) \<Rightarrow> limit_rule \<Rightarrow> string \<Rightarrow> 'h counter_row list \<Rightarrow>
    go_error option \<times> 'h counter_row list" where
  "shared_check up now sha rule subj rows =
     (if lr_limit rule \<le> 0 \<or> lr_window rule < second
      then (Some (wrap1 (''ratelimit: rule \"'' @ lr_name rule @ ''\" is not a limit'') ErrInternal), rows)
      else if up
      then (case claim_use now (sha (lr_name rule @ [CHR 0x00] @ subj)) (lr_window rule sdiv second) (lr_limit rule) rows of
          (Some n, rows) \<Rightarrow> (None, rows)
        | (None, rows) \<Rightarrow> (Some (wrap1 ''too many attempts, please try again later'' ErrRateLimited), rows))
      else if lr_fail_closed rule then (Some (wrap1 ''please try again in a moment'' ErrUnavailable), rows)
      else (None, rows))"

definition shared_sweep :: "instant \<Rightarrow> 'h counter_row list \<Rightarrow> nat \<times> 'h counter_row list" where
  "shared_sweep now rows =
     (length (filter (\<lambda>r. rc_expires r < now) rows), filter (\<lambda>r. \<not> rc_expires r < now) rows)"

datatype shared_event = Check instant limit_rule string | SharedSweep instant

fun shared_event_time :: "shared_event \<Rightarrow> instant" where
  "shared_event_time (Check now rule subj) = now"
| "shared_event_time (SharedSweep now) = now"

fun run_shared :: "(string \<Rightarrow> 'h) \<Rightarrow> shared_event list \<Rightarrow> 'h counter_row list \<Rightarrow> go_error option list" where
  "run_shared sha [] rows = []"
| "run_shared sha (Check now rule subj # es) rows =
     (let (answer, rows) = shared_check True now sha rule subj rows in answer # run_shared sha es rows)"
| "run_shared sha (SharedSweep now # es) rows = run_shared sha es (snd (shared_sweep now rows))"

end
