(* ===== verification/Rate_Limit_Facts.thy ===== *)
theory Rate_Limit_Facts
  imports Rate_Limit
begin

text \<open>
  The in-memory limiter refines one counter per key and window as long as no key is evicted, and
  never holds more buckets than its cap; the shared limiter never grants more uses in a window
  than its rule allows, whatever is swept in between.
\<close>

section \<open>The buckets\<close>

definition limiter_ok :: "limiter \<Rightarrow> bool" where
  "limiter_ok l \<longleftrightarrow> 0 < rl_max_keys l \<and> distinct (rl_order l) \<and> set (rl_order l) = dom (rl_buckets l) \<and>
     int (length (rl_order l)) \<le> rl_max_keys l"

lemma evict_oldest_ok:
  assumes "distinct ks" "set ks = dom m" "0 < max_keys"
  shows "\<exists>ks' m'. evict_oldest max_keys ks m = Inr (ks', m') \<and> distinct ks' \<and> set ks' = dom m' \<and>
    int (length ks') < max_keys \<and> set ks' \<subseteq> set ks \<and> (\<forall>k \<in> set ks'. m' k = m k)"
  using assms
proof (induction ks arbitrary: m)
  case Nil
  then show ?case by auto
next
  case (Cons k ks)
  show ?case
  proof (cases "int (length (k # ks)) \<ge> max_keys")
    case True
    have "set ks = dom (m(k := None))" "distinct ks" using Cons.prems by auto
    from Cons.IH [OF this(2,1) Cons.prems(3)] obtain ks' m' where
      "evict_oldest max_keys ks (m(k := None)) = Inr (ks', m')" "distinct ks'" "set ks' = dom m'"
      "int (length ks') < max_keys" "set ks' \<subseteq> set ks" "\<forall>j \<in> set ks'. m' j = (m(k := None)) j" by blast
    with True Cons.prems(1) show ?thesis by (intro exI [of _ ks'] exI [of _ m']) auto
  next
    case False
    with Cons.prems show ?thesis by auto
  qed
qed

lemma evict_nothing:
  "int (length ks) < max_keys \<Longrightarrow> evict_oldest max_keys ks m = Inr (ks, m)"
  by (cases ks) auto

lemma limiter_allow_ok:
  assumes "limiter_ok l"
  shows "\<exists>ok l'. limiter_allow now key limit window l = Inr (ok, l') \<and> limiter_ok l' \<and> rl_max_keys l' = rl_max_keys l"
proof (cases "rl_buckets l key")
  case None
  from assms have o: "distinct (rl_order l)" "set (rl_order l) = dom (rl_buckets l)" "0 < rl_max_keys l"
    by (auto simp: limiter_ok_def)
  from evict_oldest_ok [OF o] obtain ks m where
    e: "evict_oldest (rl_max_keys l) (rl_order l) (rl_buckets l) = Inr (ks, m)" "distinct ks" "set ks = dom m"
      "int (length ks) < rl_max_keys l" "set ks \<subseteq> set (rl_order l)" by blast
  have "key \<notin> set ks" using None o(2) e(5) by auto
  with None e o(3) show ?thesis by (auto simp: limiter_allow_def limiter_ok_def)
next
  case (Some b)
  with assms have k: "key \<in> set (rl_order l)" by (auto simp: limiter_ok_def)
  with assms have "0 < length (rl_order l)" by (auto simp: length_pos_if_in_set)
  with Some assms k show ?thesis
    by (auto simp: limiter_allow_def limiter_ok_def Let_def length_remove1 of_nat_diff)
qed

lemma limiter_sweep_ok: "limiter_ok l \<Longrightarrow> limiter_ok (limiter_sweep now l)"
  by (auto simp: limiter_ok_def limiter_sweep_def Let_def dom_def split: option.splits
      intro: order.trans [OF of_nat_mono [OF length_filter_le]])

fun limiter_after :: "limiter_event list \<Rightarrow> limiter \<Rightarrow> limiter" where
  "limiter_after [] l = l"
| "limiter_after (Request now key limit window # es) l =
     (case limiter_allow now key limit window l of Inl e \<Rightarrow> l | Inr (ok, l') \<Rightarrow> limiter_after es l')"
| "limiter_after (Sweep now # es) l = limiter_after es (limiter_sweep now l)"

text \<open>
  Whatever requests arrive and however often it is swept, the limiter never panics, never
  holds more buckets than its cap, and its eviction list names exactly the buckets of its
  map, each once.
\<close>

lemma limiter_bounded:
  assumes "0 < max_keys"
  shows "(\<exists>oks. run_limiter es (new_limiter max_keys) = Inr oks) \<and>
    int (card (dom (rl_buckets (limiter_after es (new_limiter max_keys))))) \<le> max_keys \<and>
    set (rl_order (limiter_after es (new_limiter max_keys))) = dom (rl_buckets (limiter_after es (new_limiter max_keys))) \<and>
    distinct (rl_order (limiter_after es (new_limiter max_keys)))"
proof -
  have "(\<exists>oks. run_limiter es l = Inr oks) \<and> limiter_ok (limiter_after es l) \<and> rl_max_keys (limiter_after es l) = rl_max_keys l"
    if "limiter_ok l" for l
    using that
  proof (induction es arbitrary: l)
    case Nil
    then show ?case by simp
  next
    case (Cons e es)
    show ?case
    proof (cases e)
      case (Request now key limit window)
      from limiter_allow_ok [OF Cons.prems] obtain ok l' where
        "limiter_allow now key limit window l = Inr (ok, l')" "limiter_ok l'" "rl_max_keys l' = rl_max_keys l" by blast
      with Cons.IH [of l'] Request show ?thesis by auto
    next
      case (Sweep now)
      have "rl_max_keys (limiter_sweep now l) = rl_max_keys l" by (simp add: limiter_sweep_def Let_def)
      with Cons.IH [OF limiter_sweep_ok [OF Cons.prems]] Sweep show ?thesis by simp
    qed
  qed
  moreover have "limiter_ok (new_limiter max_keys)" using assms by (simp add: limiter_ok_def new_limiter_def)
  ultimately have r: "\<exists>oks. run_limiter es (new_limiter max_keys) = Inr oks"
    and ok: "limiter_ok (limiter_after es (new_limiter max_keys))"
    and m: "rl_max_keys (limiter_after es (new_limiter max_keys)) = max_keys"
    by (auto simp: new_limiter_def)
  have "card (dom (rl_buckets l)) = length (rl_order l)" if "limiter_ok l" for l
    using that distinct_card [of "rl_order l"] by (simp add: limiter_ok_def)
  with r ok ok [unfolded limiter_ok_def] m show ?thesis by simp
qed

section \<open>Refinement of one counter per window\<close>

text \<open>The specification: per key, how many requests have landed in its window and when it ends.\<close>

type_synonym windows = "string \<rightharpoonup> int \<times> instant"

definition live :: "instant \<Rightarrow> (int \<times> instant) option \<Rightarrow> (int \<times> instant) option" where
  "live now w = (case w of None \<Rightarrow> None | Some (c, r) \<Rightarrow> if now < r then w else None)"

definition window_allow :: "instant \<Rightarrow> string \<Rightarrow> int \<Rightarrow> duration \<Rightarrow> windows \<Rightarrow> bool \<times> windows" where
  "window_allow now key limit window a = (case live now (a key) of
     Some (c, r) \<Rightarrow> (i64 (c + 1) \<le> limit, a(key \<mapsto> (i64 (c + 1), r)))
   | None \<Rightarrow> (True, a(key \<mapsto> (1, now + window))))"

fun run_windows :: "limiter_event list \<Rightarrow> windows \<Rightarrow> bool list" where
  "run_windows [] a = []"
| "run_windows (Request now key limit window # es) a =
     (let (ok, a) = window_allow now key limit window a in ok # run_windows es a)"
| "run_windows (Sweep now # es) a = run_windows es a"

text \<open>The simulation relation: the same live windows.\<close>

definition same_windows :: "instant \<Rightarrow> limiter \<Rightarrow> windows \<Rightarrow> bool" where
  "same_windows now l a \<longleftrightarrow>
     (\<forall>k. live now (map_option (\<lambda>b. (bk_count b, bk_reset_at b)) (rl_buckets l k)) = live now (a k))"

lemma live_later: "now \<le> later \<Longrightarrow> live now x = live now y \<Longrightarrow> live later x = live later y"
  by (auto simp: live_def split: option.splits if_splits)

lemma same_windows_later: "now \<le> later \<Longrightarrow> same_windows now l a \<Longrightarrow> same_windows later l a"
  by (auto simp: same_windows_def intro: live_later)

lemma same_windows_sweep:
  assumes "same_windows now l a"
  shows "same_windows now (limiter_sweep now l) a"
proof -
  have "live now (map_option (\<lambda>b. (bk_count b, bk_reset_at b)) (rl_buckets (limiter_sweep now l) k)) =
      live now (map_option (\<lambda>b. (bk_count b, bk_reset_at b)) (rl_buckets l k))" for k
    by (cases "rl_buckets l k") (auto simp: limiter_sweep_def live_def Let_def time_before_def)
  with assms show ?thesis by (simp add: same_windows_def)
qed

lemma same_windows_allow:
  assumes S: "same_windows now l a" and room: "rl_buckets l key \<noteq> None \<or> int (length (rl_order l)) < rl_max_keys l"
  shows "\<exists>l'. limiter_allow now key limit window l = Inr (fst (window_allow now key limit window a), l') \<and>
    same_windows now l' (snd (window_allow now key limit window a)) \<and> dom (rl_buckets l') = insert key (dom (rl_buckets l))"
proof -
  have k: "live now (map_option (\<lambda>b. (bk_count b, bk_reset_at b)) (rl_buckets l key)) = live now (a key)"
    using S by (simp add: same_windows_def)
  show ?thesis
  proof (cases "rl_buckets l key")
    case None
    with room have e: "evict_oldest (rl_max_keys l) (rl_order l) (rl_buckets l) = Inr (rl_order l, rl_buckets l)"
      by (simp add: evict_nothing)
    from None k have "live now (a key) = None" by (simp add: live_def)
    with None e S show ?thesis
      by (auto simp: limiter_allow_def window_allow_def same_windows_def time_add_def)
  next
    case (Some b)
    show ?thesis
    proof (cases "now < bk_reset_at b")
      case True
      with Some k have "live now (a key) = Some (bk_count b, bk_reset_at b)" by (simp add: live_def)
      with Some True S show ?thesis
        by (auto simp: limiter_allow_def window_allow_def same_windows_def time_before_def Let_def)
    next
      case False
      with Some k have "live now (a key) = None" by (simp add: live_def)
      with Some False S show ?thesis
        by (auto simp: limiter_allow_def window_allow_def same_windows_def time_before_def time_add_def)
    qed
  qed
qed

fun event_keys :: "limiter_event list \<Rightarrow> string set" where
  "event_keys [] = {}"
| "event_keys (Request now key limit window # es) = insert key (event_keys es)"
| "event_keys (Sweep now # es) = event_keys es"

lemma finite_event_keys [simp]: "finite (event_keys es)"
  by (induction es rule: event_keys.induct) auto

lemma run_refines:
  assumes "limiter_ok l" "same_windows now l a" "sorted (now # map event_time es)"
    and "finite K" "dom (rl_buckets l) \<union> event_keys es \<subseteq> K" "int (card K) \<le> rl_max_keys l"
  shows "run_limiter es l = Inr (run_windows es a)"
  using assms
proof (induction es arbitrary: now l a)
  case Nil
  then show ?case by simp
next
  case (Cons e es)
  have le: "now \<le> event_time e" "sorted (event_time e # map event_time es)" using Cons.prems(3) by auto
  have S: "same_windows (event_time e) l a" by (rule same_windows_later [OF le(1) Cons.prems(2)])
  show ?case
  proof (cases e)
    case (Request t key limit window)
    have "rl_buckets l key \<noteq> None \<or> int (length (rl_order l)) < rl_max_keys l"
    proof (cases "rl_buckets l key")
      case None
      then have "insert key (dom (rl_buckets l)) \<subseteq> K" "key \<notin> dom (rl_buckets l)" using Cons.prems(5) Request by auto
      moreover have "length (rl_order l) = card (dom (rl_buckets l))"
        using Cons.prems(1) distinct_card [of "rl_order l"] by (simp add: limiter_ok_def)
      moreover have "finite (dom (rl_buckets l))" using Cons.prems(4,5) by (auto intro: finite_subset)
      ultimately have "Suc (length (rl_order l)) = card (insert key (dom (rl_buckets l)))" by simp
      also have "\<dots> \<le> card K" by (rule card_mono [OF Cons.prems(4)]) fact
      finally have "Suc (length (rl_order l)) \<le> card K" .
      with Cons.prems(6) show ?thesis by simp
    qed simp
    from same_windows_allow [OF S [unfolded Request event_time.simps] this] obtain l' where
      A: "limiter_allow t key limit window l = Inr (fst (window_allow t key limit window a), l')"
        "same_windows t l' (snd (window_allow t key limit window a))" "dom (rl_buckets l') = insert key (dom (rl_buckets l))"
      by blast
    have ok: "limiter_ok l' \<and> rl_max_keys l' = rl_max_keys l"
      using limiter_allow_ok [OF Cons.prems(1), of t key limit window] A(1) by auto
    have "run_limiter es l' = Inr (run_windows es (snd (window_allow t key limit window a)))"
    proof (rule Cons.IH [OF _ A(2) _ Cons.prems(4)])
      show "limiter_ok l'" "int (card K) \<le> rl_max_keys l'" using ok Cons.prems(6) by simp_all
      show "sorted (t # map event_time es)" using le(2) Request by simp
      show "dom (rl_buckets l') \<union> event_keys es \<subseteq> K" using Cons.prems(5) Request by (simp add: A(3))
    qed
    with A Request show ?thesis by (auto simp: Let_def split_beta)
  next
    case (Sweep t)
    have "run_limiter es (limiter_sweep t l) = Inr (run_windows es a)"
    proof (rule Cons.IH [OF limiter_sweep_ok [OF Cons.prems(1)] same_windows_sweep [OF S [unfolded Sweep event_time.simps]] _ Cons.prems(4)])
      show "dom (rl_buckets (limiter_sweep t l)) \<union> event_keys es \<subseteq> K"
        using Cons.prems(5) Sweep by (auto simp: limiter_sweep_def Let_def split: if_splits)
    qed (use le(2) Sweep Cons.prems(6) in \<open>auto simp: limiter_sweep_def Let_def\<close>)
    with Sweep show ?thesis by simp
  qed
qed

text \<open>
  C32. As long as no more keys are in play than the cap, the limiter with its map, its eviction
  list and its sweeps answers every request exactly as one counter per key and window would.
\<close>

theorem limiter_refines_windows:
  assumes "sorted (map event_time es)" "int (card (event_keys es)) \<le> max_keys" "0 < max_keys"
  shows "run_limiter es (new_limiter max_keys) = Inr (run_windows es Map.empty)"
proof (cases es)
  case Nil
  then show ?thesis by simp
next
  case (Cons e es')
  have "limiter_ok (new_limiter max_keys)" using assms(3) by (simp add: limiter_ok_def new_limiter_def)
  moreover have "same_windows (event_time e) (new_limiter max_keys) Map.empty"
    by (simp add: same_windows_def new_limiter_def)
  ultimately show ?thesis
    by (rule run_refines [of _ _ _ _ "event_keys es"]) (use assms Cons in \<open>auto simp: new_limiter_def\<close>)
qed

lemma limiter_refines_windows_witness:
  "run_limiter [Request 0 ''a'' 1 10, Request 5 ''a'' 1 10, Sweep 20, Request 21 ''a'' 1 10] (new_limiter 2) =
     Inr [True, False, True]"
proof -
  let ?es = "[Request 0 ''a'' 1 10, Request 5 ''a'' 1 10, Sweep 20, Request 21 ''a'' 1 10]"
  have "run_windows ?es Map.empty = [True, False, True]"
    by (simp add: window_allow_def live_def Let_def in_i64_def)
  with limiter_refines_windows [of ?es 2] show ?thesis by simp
qed

text \<open>
  In one window of a key, from the request that opens it, exactly the first \<open>limit\<close>
  requests are allowed.
\<close>

lemma window_allows_limit:
  assumes "1 \<le> limit" "\<forall>t \<in> set asked. start \<le> t \<and> t < start + window" "0 < window"
    and "in_i64 (int (Suc (length asked)))" "live start (a key) = None"
  shows "run_windows (map (\<lambda>t. Request t key limit window) (start # asked)) a =
    map (\<lambda>i. int i < limit) [0 ..< Suc (length asked)]"
proof -
  have later: "run_windows (map (\<lambda>t. Request t key limit window) asked) a =
      map (\<lambda>i. int i + c < limit) [0 ..< length asked]"
    if "\<forall>t \<in> set asked. t < r" "a key = Some (c, r)" "0 \<le> c" "in_i64 (c + int (length asked))" for asked a c r
    using that
  proof (induction asked arbitrary: a c)
    case Nil
    then show ?case by simp
  next
    case (Cons t asked)
    have i: "i64 (c + 1) = c + 1" using Cons.prems(3,4) by (intro i64_id) (auto simp: in_i64_def)
    have "run_windows (map (\<lambda>t. Request t key limit window) asked) (a(key \<mapsto> (c + 1, r))) =
        map (\<lambda>i. int i + (c + 1) < limit) [0 ..< length asked]"
      by (rule Cons.IH) (use Cons.prems in \<open>auto simp: algebra_simps\<close>)
    moreover have "[0 ..< length (t # asked)] = 0 # map Suc [0 ..< length asked]"
      by (simp add: map_Suc_upt upt_conv_Cons del: upt_Suc)
    ultimately show ?case using Cons.prems(1,2) i
      by (simp add: window_allow_def live_def Let_def algebra_simps del: upt_Suc) presburger
  qed
  have "run_windows (map (\<lambda>t. Request t key limit window) asked) (a(key \<mapsto> (1, start + window))) =
      map (\<lambda>i. int i + 1 < limit) [0 ..< length asked]"
    by (rule later) (use assms(2,4) in auto)
  moreover have "[0 ..< Suc (length asked)] = 0 # map Suc [0 ..< length asked]"
    by (simp add: map_Suc_upt upt_conv_Cons del: upt_Suc)
  ultimately show ?thesis using assms(1,5)
    by (simp add: window_allow_def Let_def algebra_simps del: upt_Suc)
qed

section \<open>The shared limiter\<close>

lemma window_start_bounds:
  assumes "0 < secs"
  shows "window_start now secs \<le> now" "now < window_start now secs + secs * second"
proof -
  have s: "0 < secs * second" using assms by (simp add: second_def)
  let ?x = "now + colombo_offset_seconds * second"
  have "?x div (secs * second) * (secs * second) + ?x mod (secs * second) = ?x" by (rule div_mult_mod_eq)
  moreover have "0 \<le> ?x mod (secs * second)" "?x mod (secs * second) < secs * second"
    using s by (simp_all del: mult_eq_0_iff)
  ultimately show "window_start now secs \<le> now" "now < window_start now secs + secs * second"
    unfolding window_start_def by linarith+
qed

definition rule_key :: "(string \<Rightarrow> 'h) \<Rightarrow> limit_rule \<Rightarrow> string \<Rightarrow> 'h" where
  "rule_key sha rule subj = sha (lr_name rule @ [CHR 0x00] @ subj)"

text \<open>How many uses of one rule by one subject were allowed in the window that starts at \<open>start\<close>.\<close>

fun allowed_uses :: "(string \<Rightarrow> 'h) \<Rightarrow> limit_rule \<Rightarrow> string \<Rightarrow> instant \<Rightarrow> shared_event list \<Rightarrow> 'h counter_row list \<Rightarrow> nat" where
  "allowed_uses sha rule subj start [] rows = 0"
| "allowed_uses sha rule subj start (Check now r s # es) rows =
     (let (answer, rows') = shared_check True now sha r s rows in
      (if r = rule \<and> s = subj \<and> window_start now (lr_window rule sdiv second) = start \<and> answer = None then 1 else 0) +
      allowed_uses sha rule subj start es rows')"
| "allowed_uses sha rule subj start (SharedSweep now # es) rows =
     allowed_uses sha rule subj start es (snd (shared_sweep now rows))"

definition window_count :: "'h \<Rightarrow> instant \<Rightarrow> 'h counter_row list \<Rightarrow> int" where
  "window_count h start rows =
     (case find (\<lambda>r. rc_hash r = h \<and> rc_start r = start) rows of None \<Rightarrow> 0 | Some r \<Rightarrow> rc_count r)"

definition expires_ok :: "'h \<Rightarrow> int \<Rightarrow> 'h counter_row list \<Rightarrow> bool" where
  "expires_ok h secs rows \<longleftrightarrow> (\<forall>r \<in> set rows. rc_hash r = h \<longrightarrow> rc_expires r = rc_start r + secs * second)"

lemma window_count_append:
  "window_count h start (rows @ [r]) =
     (if find (\<lambda>r. rc_hash r = h \<and> rc_start r = start) rows = None \<and> rc_hash r = h \<and> rc_start r = start
      then rc_count r else window_count h start rows)"
  by (induction rows) (auto simp: window_count_def)

lemma window_count_bump:
  "window_count h start (update_where (\<lambda>r. rc_hash r = g \<and> rc_start r = s) (\<lambda>r. r\<lparr>rc_count := rc_count r + 1\<rparr>) rows) =
     (if find (\<lambda>r. rc_hash r = h \<and> rc_start r = start) rows \<noteq> None \<and> g = h \<and> s = start
      then window_count h start rows + 1 else window_count h start rows)"
  by (induction rows) (auto simp: window_count_def update_where_def)

lemma window_count_sweep:
  assumes "expires_ok h secs rows" "\<not> start + secs * second < now"
  shows "window_count h start (snd (shared_sweep now rows)) = window_count h start rows"
  using assms by (induction rows) (auto simp: window_count_def expires_ok_def shared_sweep_def)

lemma expires_ok_sweep: "expires_ok h secs rows \<Longrightarrow> expires_ok h secs (snd (shared_sweep now rows))"
  by (auto simp: expires_ok_def shared_sweep_def)

lemma expires_ok_bump:
  "expires_ok h secs (update_where P (\<lambda>r. r\<lparr>rc_count := c r\<rparr>) rows) = expires_ok h secs rows"
  by (induction rows) (auto simp: expires_ok_def update_where_def)

lemma expires_ok_check:
  assumes "expires_ok h secs rows" "rule_key sha r s = h \<longrightarrow> lr_window r sdiv second = secs"
  shows "expires_ok h secs (snd (shared_check True now sha r s rows))"
  using assms
  by (auto simp: shared_check_def claim_use_def Let_def expires_ok_bump rule_key_def split: option.splits)
    (auto simp: expires_ok_def)

lemma window_count_check:
  fixes rows :: "'h counter_row list"
  defines "secs r \<equiv> lr_window r sdiv second"
  shows "window_count h start (snd (shared_check True now sha r s rows)) =
    window_count h start rows +
    (if rule_key sha r s = h \<and> window_start now (secs r) = start \<and> fst (shared_check True now sha r s rows) = None then 1 else 0)"
  unfolding secs_def
  by (auto simp: shared_check_def claim_use_def Let_def rule_key_def window_count_append window_count_bump split: option.splits)
    (auto simp: window_count_def)

lemma check_within_limit:
  assumes "fst (shared_check True now sha r s rows) = None"
  shows "window_count (rule_key sha r s) (window_start now (lr_window r sdiv second)) rows < lr_limit r"
  using assms
  by (auto simp: shared_check_def claim_use_def Let_def rule_key_def window_count_def split: option.splits if_splits)

lemma no_uses_later:
  assumes "0 < lr_window rule sdiv second" "sorted (map shared_event_time es)"
    and "\<forall>e \<in> set es. start + lr_window rule sdiv second * second \<le> shared_event_time e"
  shows "allowed_uses sha rule subj start es rows = 0"
  using assms
proof (induction es arbitrary: rows)
  case (Cons e es)
  then show ?case
  proof (cases e)
    case (Check now r s)
    with Cons.prems have "window_start now (lr_window rule sdiv second) \<noteq> start"
      using window_start_bounds(2) [OF Cons.prems(1), of now] by auto
    with Cons Check show ?thesis by (auto simp: Let_def split_beta)
  qed auto
qed simp

text \<open>
  C33. However the instances' checks and sweeps interleave in the database, no more than \<open>limit\<close>
  uses of a rule by a subject are allowed in one window, when its hash is its own and the
  database's clock does not run backwards.
\<close>

theorem shared_never_over:
  assumes "sorted (map shared_event_time es)" "second \<le> lr_window rule"
    and "\<forall>now r s. Check now r s \<in> set es \<and> rule_key sha r s = rule_key sha rule subj \<longrightarrow> r = rule \<and> s = subj"
  shows "int (allowed_uses sha rule subj start es []) \<le> max 0 (lr_limit rule)"
proof -
  let ?h = "rule_key sha rule subj" and ?secs = "lr_window rule sdiv second"
  have secs: "0 < ?secs" using assms(2) by (simp add: second_def)
  have "int (allowed_uses sha rule subj start es rows) \<le> max 0 (lr_limit rule - window_count ?h start rows)"
    if "sorted (map shared_event_time es)" "expires_ok ?h ?secs rows"
      "\<forall>now r s. Check now r s \<in> set es \<and> rule_key sha r s = ?h \<longrightarrow> r = rule \<and> s = subj" for rows
    using that
  proof (induction es arbitrary: rows)
    case (Cons e es)
    show ?case
    proof (cases e)
      case (Check now r s)
      let ?a = "shared_check True now sha r s rows"
      have same: "rule_key sha r s = ?h \<longrightarrow> r = rule \<and> s = subj" using Cons.prems(3) Check by auto
      have "int (allowed_uses sha rule subj start es (snd ?a)) \<le> max 0 (lr_limit rule - window_count ?h start (snd ?a))"
        by (rule Cons.IH) (use Cons.prems Check same in \<open>auto intro!: expires_ok_check\<close>)
      moreover have "window_count ?h start rows < lr_limit rule"
        if "r = rule" "s = subj" "window_start now ?secs = start" "fst ?a = None"
        using check_within_limit [of now sha r s rows] that by simp
      ultimately show ?thesis using same Check
        by (auto simp: Let_def split_beta window_count_check)
    next
      case (SharedSweep now)
      let ?rows = "snd (shared_sweep now rows)"
      show ?thesis
      proof (cases "start + ?secs * second < now")
        case True
        have "\<forall>e \<in> set es. start + ?secs * second \<le> shared_event_time e"
          using Cons.prems(1) SharedSweep True by fastforce
        then have "allowed_uses sha rule subj start es ?rows = 0"
          by (intro no_uses_later [OF secs]) (use Cons.prems(1) in auto)
        with SharedSweep show ?thesis by simp
      next
        case False
        have "int (allowed_uses sha rule subj start es ?rows) \<le> max 0 (lr_limit rule - window_count ?h start ?rows)"
          by (rule Cons.IH) (use Cons.prems SharedSweep in \<open>auto intro: expires_ok_sweep\<close>)
        with SharedSweep window_count_sweep [OF Cons.prems(2) False] show ?thesis by simp
      qed
    qed
  qed simp
  from this [of "[]"] assms(1,3) show ?thesis by (simp add: expires_ok_def window_count_def)
qed

lemma shared_never_over_witness:
  "allowed_uses (\<lambda>x. x) \<lparr>lr_name = ''otp'', lr_limit = 1, lr_window = second, lr_fail_closed = True\<rparr> ''u'' 0
     [Check 5 \<lparr>lr_name = ''otp'', lr_limit = 1, lr_window = second, lr_fail_closed = True\<rparr> ''u'', SharedSweep 6,
      Check 7 \<lparr>lr_name = ''otp'', lr_limit = 1, lr_window = second, lr_fail_closed = True\<rparr> ''u''] [] \<le> 1"
  using shared_never_over [of "[Check 5 \<lparr>lr_name = ''otp'', lr_limit = 1, lr_window = second, lr_fail_closed = True\<rparr> ''u'', SharedSweep 6,
      Check 7 \<lparr>lr_name = ''otp'', lr_limit = 1, lr_window = second, lr_fail_closed = True\<rparr> ''u'']"
      "\<lparr>lr_name = ''otp'', lr_limit = 1, lr_window = second, lr_fail_closed = True\<rparr>" "\<lambda>x. x" "''u''" 0]
  by auto

end
