(* ===== verification/Outbox.thy ===== *)
theory Outbox
  imports AppError
begin

text \<open>
  \<open>platform/outbox/outbox.go\<close>: the poller that claims due rows, delivers them and records what
  happened, and the tables it drives: the billing outbox (\<open>billing/outbox.go\<close>, \<open>ops.sql.go\<close>)
  and the notification outbox with its leases (\<open>meetup/repository/outbox_postgres.go\<close>,
  \<open>notification_outbox.sql.go\<close>). A store is a record of functions on a state \<open>'s\<close>, as the Go
  interfaces \<open>Store\<close> and \<open>Leaser\<close> are; \<open>'p\<close> is the opaque payload. The goroutine of \<open>Run\<close> and
  the \<open>Wake\<close> channel only decide when \<open>drain\<close> runs.
\<close>

section \<open>The poller\<close>

record 'p outbox_row =
  ow_id :: uuid
  ow_payload :: 'p
  ow_attempts :: int
  ow_lease :: "instant option"

record ('p, 's) leaser =
  ls_renew :: "'p outbox_row \<Rightarrow> 's \<Rightarrow> (go_error + 'p outbox_row \<times> bool) \<times> 's"
  ls_processed :: "'p outbox_row \<Rightarrow> 's \<Rightarrow> (go_error + bool) \<times> 's"

record ('p, 's) outbox_store =
  st_claim :: "int \<Rightarrow> 's \<Rightarrow> (go_error + 'p outbox_row list) \<times> 's"
  st_processed :: "uuid \<Rightarrow> 's \<Rightarrow> go_error option \<times> 's"
  st_failed :: "uuid \<Rightarrow> instant \<Rightarrow> string \<Rightarrow> 's \<Rightarrow> go_error option \<times> 's"
  st_dead :: "uuid \<Rightarrow> string \<Rightarrow> 's \<Rightarrow> go_error option \<times> 's"
  st_pending :: "'s \<Rightarrow> go_error + int"
  st_leaser :: "('p, 's) leaser option"

datatype observed = Delivered | Failed | DeadLettered | PendingCount int

text \<open>
  \<open>po_now\<close> reads the clock and \<open>po_done\<close> is \<open>ctx.Err()\<close>; both may change while a row is
  processed, so they are read from the state.
\<close>

record ('p, 's) poller =
  po_store :: "('p, 's) outbox_store"
  po_process :: "'p outbox_row \<Rightarrow> 's \<Rightarrow> go_error option \<times> 's"
  po_batch :: int
  po_base :: duration
  po_max_delay :: duration
  po_max_attempts :: int
  po_observer :: "(observed \<Rightarrow> 's \<Rightarrow> 's) option"
  po_now :: "'s \<Rightarrow> instant"
  po_done :: "'s \<Rightarrow> go_error option"

definition default_batch_size :: int where "default_batch_size = 50"
definition default_base_delay :: duration where "default_base_delay = 5 * second"
definition default_max_delay :: duration where "default_max_delay = 10 * minute"
definition default_max_attempts :: int where "default_max_attempts = 10"

definition new_poller ::
  "('p, 's) outbox_store \<Rightarrow> ('p outbox_row \<Rightarrow> 's \<Rightarrow> go_error option \<times> 's) \<Rightarrow> ('s \<Rightarrow> instant) \<Rightarrow>
    ('s \<Rightarrow> go_error option) \<Rightarrow> ('p, 's) poller" where
  "new_poller store process now cancelled = \<lparr>po_store = store, po_process = process,
     po_batch = default_batch_size, po_base = default_base_delay, po_max_delay = default_max_delay,
     po_max_attempts = default_max_attempts, po_observer = None, po_now = now, po_done = cancelled\<rparr>"

definition err_permanent :: go_error where
  "err_permanent = PkgError ''outbox: permanent failure, do not retry''"

text \<open>
  \<open>base * 2^(attempts-1)\<close> is computed in \<open>float64\<close>; it is exact for a base below \<open>2^53\<close> ns. Go
  leaves the conversion of a larger float to \<open>int64\<close> to the machine: the minimum on amd64, written
  here, and the maximum on arm64; either way the code takes \<open>maxDelay\<close>.
\<close>

definition float_to_duration :: "int \<Rightarrow> duration" where
  "float_to_duration x = (if in_i64 x then x else - 9223372036854775808)"

definition backoff :: "('p, 's) poller \<Rightarrow> int \<Rightarrow> duration" where
  "backoff p attempts =
     (let attempts = (if attempts < 1 then 1 else attempts) in
      if attempts > 32 then po_max_delay p
      else let delay = float_to_duration (po_base p * 2 ^ nat (attempts - 1)) in
        if delay > po_max_delay p \<or> delay \<le> 0 then po_max_delay p else delay)"

definition observe :: "('p, 's) poller \<Rightarrow> observed \<Rightarrow> 's \<Rightarrow> 's" where
  "observe p x s = (case po_observer p of None \<Rightarrow> s | Some f \<Rightarrow> f x s)"

text \<open>The head of \<open>deliver\<close>: under a leaser the row's claim is renewed, or the row is skipped.\<close>

definition renew_row :: "('p, 's) poller \<Rightarrow> 'p outbox_row \<Rightarrow> 's \<Rightarrow> 'p outbox_row option \<times> 's" where
  "renew_row p row s =
     (case st_leaser (po_store p) of
        None \<Rightarrow> (Some row, s)
      | Some l \<Rightarrow> (case ls_renew l row s of
            (Inl err, s) \<Rightarrow> (None, s)
          | (Inr (renewed, held), s) \<Rightarrow> (if held then Some renewed else None, s)))"

definition record_delivered :: "('p, 's) poller \<Rightarrow> 'p outbox_row \<Rightarrow> 's \<Rightarrow> 's" where
  "record_delivered p row s =
     (case st_leaser (po_store p) of
        Some l \<Rightarrow> (case ls_processed l row s of
            (Inl err, s) \<Rightarrow> s
          | (Inr held, s) \<Rightarrow> if held then observe p Delivered s else s)
      | None \<Rightarrow> (case st_processed (po_store p) (ow_id row) s of
            (Some err, s) \<Rightarrow> s
          | (None, s) \<Rightarrow> observe p Delivered s))"

definition record_failure :: "('p, 's) poller \<Rightarrow> 'p outbox_row \<Rightarrow> go_error \<Rightarrow> 's \<Rightarrow> 's" where
  "record_failure p row err s =
     (let attempts = i64 (ow_attempts row + 1);
          permanent = errors_is_pkg err ''outbox: permanent failure, do not retry'' in
      if permanent \<or> attempts \<ge> po_max_attempts p
      then (case st_dead (po_store p) (ow_id row) (error_text err) s of
          (Some e, s) \<Rightarrow> s
        | (None, s) \<Rightarrow> observe p DeadLettered s)
      else (case st_failed (po_store p) (ow_id row) (time_add (po_now p s) (backoff p attempts)) (error_text err) s of
          (Some e, s) \<Rightarrow> s
        | (None, s) \<Rightarrow> observe p Failed s))"

definition deliver :: "('p, 's) poller \<Rightarrow> 'p outbox_row \<Rightarrow> 's \<Rightarrow> 's" where
  "deliver p row s =
     (case renew_row p row s of
        (None, s) \<Rightarrow> s
      | (Some row, s) \<Rightarrow> (case po_process p row s of
            (None, s) \<Rightarrow> record_delivered p row s
          | (Some err, s) \<Rightarrow> record_failure p row err s))"

definition claim_and_process :: "('p, 's) poller \<Rightarrow> 's \<Rightarrow> (go_error + int) \<times> 's" where
  "claim_and_process p s =
     (case st_claim (po_store p) (po_batch p) s of
        (Inl err, s) \<Rightarrow> (Inl err, s)
      | (Inr rows, s) \<Rightarrow> (Inr (int (length rows)), fold (deliver p) rows s))"

text \<open>The loop of \<open>Drain\<close> may run for ever, so its result is an option.\<close>

partial_function (option) drain_loop ::
  "('p, 's) poller \<Rightarrow> int \<Rightarrow> 's \<Rightarrow> ((int \<times> go_error option) \<times> 's) option" where
  "drain_loop p acc s =
     (case po_done p s of
        Some err \<Rightarrow> Some ((acc, Some err), s)
      | None \<Rightarrow> (case claim_and_process p s of
            (Inl err, s) \<Rightarrow> Some ((acc, Some err), s)
          | (Inr claimed, s) \<Rightarrow>
              if claimed < po_batch p then Some ((i64 (acc + claimed), None), s)
              else drain_loop p (i64 (acc + claimed)) s))"

definition drain :: "('p, 's) poller \<Rightarrow> 's \<Rightarrow> ((int \<times> go_error option) \<times> 's) option" where
  "drain p s = map_option
     (\<lambda>((acc, err), s). case err of
        Some e \<Rightarrow> ((acc, err), s)
      | None \<Rightarrow> ((acc, None),
          case po_observer p of None \<Rightarrow> s | Some f \<Rightarrow>
            (case st_pending (po_store p) s of Inl e \<Rightarrow> s | Inr n \<Rightarrow> f (PendingCount n) s)))
     (drain_loop p 0 s)"

section \<open>The tables\<close>

text \<open>
  A row of an outbox table; the three outboxes modelled have the same columns beside their
  payload's. The order in which \<open>RETURNING\<close> lists rows is open in SQL; here it is the table's.
\<close>

record 'p outbox_entry =
  oe_id :: uuid
  oe_payload :: 'p
  oe_attempts :: int
  oe_next :: instant
  oe_processed :: "instant option"
  oe_dead :: "instant option"
  oe_error :: "string option"

definition oe_pending :: "'p outbox_entry \<Rightarrow> bool" where
  "oe_pending e \<longleftrightarrow> oe_processed e = None \<and> oe_dead e = None"

definition due_ids :: "instant \<Rightarrow> nat \<Rightarrow> 'p outbox_entry list \<Rightarrow> uuid list" where
  "due_ids now limit es = map oe_id (take limit (sort_key oe_next (filter (\<lambda>e. oe_pending e \<and> oe_next e \<le> now) es)))"

definition claim_outbox_batch ::
  "duration \<Rightarrow> int \<Rightarrow> instant \<Rightarrow> 'p outbox_entry list \<Rightarrow> (go_error + 'p outbox_entry list) \<times> 'p outbox_entry list" where
  "claim_outbox_batch timeout limit now es =
     (let ids = due_ids now (nat limit) es in
      if limit < 0 then (Inl (PkgError ''LIMIT must not be negative''), es)
      else if list_ex (\<lambda>e. oe_id e \<in> set ids \<and> \<not> in_i32 (oe_attempts e + 1)) es
      then (Inl (PkgError ''integer out of range''), es)
      else let es = update_where (\<lambda>e. oe_id e \<in> set ids)
              (\<lambda>e. e\<lparr>oe_attempts := oe_attempts e + 1, oe_next := now + timeout\<rparr>) es in
        (Inr (filter (\<lambda>e. oe_id e \<in> set ids) es), es))"

definition mark_outbox_processed :: "uuid \<Rightarrow> instant \<Rightarrow> 'p outbox_entry list \<Rightarrow> 'p outbox_entry list" where
  "mark_outbox_processed i now = update_where (\<lambda>e. oe_id e = i) (\<lambda>e. e\<lparr>oe_processed := Some now, oe_error := None\<rparr>)"

definition mark_outbox_failed :: "uuid \<Rightarrow> instant \<Rightarrow> string option \<Rightarrow> 'p outbox_entry list \<Rightarrow> 'p outbox_entry list" where
  "mark_outbox_failed i next_at err = update_where (\<lambda>e. oe_id e = i) (\<lambda>e. e\<lparr>oe_next := ts next_at, oe_error := err\<rparr>)"

definition mark_outbox_dead :: "uuid \<Rightarrow> instant \<Rightarrow> string option \<Rightarrow> 'p outbox_entry list \<Rightarrow> 'p outbox_entry list" where
  "mark_outbox_dead i now err = update_where (\<lambda>e. oe_id e = i) (\<lambda>e. e\<lparr>oe_dead := Some now, oe_error := err\<rparr>)"

definition count_outbox_pending :: "'p outbox_entry list \<Rightarrow> int" where
  "count_outbox_pending es = int (length (filter oe_pending es))"

text \<open>The two retention deletes; which rows a \<open>LIMIT\<close> without an order picks is open in SQL.\<close>

definition drop_first :: "nat \<Rightarrow> ('p outbox_entry \<Rightarrow> bool) \<Rightarrow> 'p outbox_entry list \<Rightarrow> int \<times> 'p outbox_entry list" where
  "drop_first limit old es =
     (let ids = map oe_id (take limit (filter old es)) in
      (int (length (filter (\<lambda>e. oe_id e \<in> set ids) es)), filter (\<lambda>e. oe_id e \<notin> set ids) es))"

definition delete_outbox_processed :: "instant \<Rightarrow> nat \<Rightarrow> 'p outbox_entry list \<Rightarrow> int \<times> 'p outbox_entry list" where
  "delete_outbox_processed older limit =
     drop_first limit (\<lambda>e. case oe_processed e of None \<Rightarrow> False | Some t \<Rightarrow> t < older)"

definition delete_outbox_dead :: "instant \<Rightarrow> nat \<Rightarrow> 'p outbox_entry list \<Rightarrow> int \<times> 'p outbox_entry list" where
  "delete_outbox_dead older limit =
     drop_first limit (\<lambda>e. case oe_dead e of None \<Rightarrow> False | Some t \<Rightarrow> t < older)"

text \<open>The renewal of one claim, and the processed mark under a lease.\<close>

definition renew_claim ::
  "duration \<Rightarrow> uuid \<Rightarrow> instant \<Rightarrow> instant \<Rightarrow> 'p outbox_entry list \<Rightarrow> instant option \<times> 'p outbox_entry list" where
  "renew_claim timeout i lease now es =
     (let mine = (\<lambda>e. oe_id e = i \<and> oe_next e = lease \<and> oe_pending e) in
      if list_ex mine es then (Some (now + timeout), update_where mine (\<lambda>e. e\<lparr>oe_next := now + timeout\<rparr>) es)
      else (None, es))"

definition mark_processed_leased ::
  "uuid \<Rightarrow> instant \<Rightarrow> instant \<Rightarrow> 'p outbox_entry list \<Rightarrow> nat \<times> 'p outbox_entry list" where
  "mark_processed_leased i lease now es =
     (let mine = (\<lambda>e. oe_id e = i \<and> oe_next e = lease) in
      (length (filter mine es), update_where mine (\<lambda>e. e\<lparr>oe_processed := Some now, oe_error := None\<rparr>) es))"

section \<open>The stores\<close>

text \<open>
  A desk is an outbox table and everything outside it. \<open>clk\<close> reads the time from the outside; the
  database's clock and the process's are one. The database answers every statement.
\<close>

record ('p, 'w) desk =
  ds_table :: "'p outbox_entry list"
  ds_world :: 'w

definition on_table :: "('p outbox_entry list \<Rightarrow> 'p outbox_entry list) \<Rightarrow> ('p, 'w) desk \<Rightarrow> ('p, 'w) desk" where
  "on_table f d = d\<lparr>ds_table := f (ds_table d)\<rparr>"

text \<open>A process function that acts on the outside alone.\<close>

definition at_desk :: "('q \<Rightarrow> 'w \<Rightarrow> go_error option \<times> 'w) \<Rightarrow> 'q \<Rightarrow> ('p, 'w) desk \<Rightarrow> go_error option \<times> ('p, 'w) desk" where
  "at_desk f row d = (case f row (ds_world d) of (e, w) \<Rightarrow> (e, d\<lparr>ds_world := w\<rparr>))"

definition outbox_visibility_timeout :: duration where
  "outbox_visibility_timeout = 60 * second"

definition truncate_text :: "string \<Rightarrow> string" where
  "truncate_text s = (if length s > 1000 then take 1000 s else s)"

text \<open>\<open>billing/outbox.go\<close>; \<open>enc\<close> is \<open>json.Marshal\<close> of the row's event.\<close>

fun encode_rows :: "('p \<Rightarrow> go_error + 'q) \<Rightarrow> ('p outbox_entry \<Rightarrow> instant option) \<Rightarrow> 'p outbox_entry list \<Rightarrow> go_error + 'q outbox_row list" where
  "encode_rows enc lease [] = Inr []"
| "encode_rows enc lease (e # es) =
     res_bind (enc (oe_payload e)) (\<lambda>q.
     res_bind (encode_rows enc lease es) (\<lambda>rows.
     Inr (\<lparr>ow_id = oe_id e, ow_payload = q, ow_attempts = oe_attempts e, ow_lease = lease e\<rparr> # rows)))"

definition billing_claim_batch ::
  "('w \<Rightarrow> instant) \<Rightarrow> ('p \<Rightarrow> go_error + 'q) \<Rightarrow> int \<Rightarrow> ('p, 'w) desk \<Rightarrow> (go_error + 'q outbox_row list) \<times> ('p, 'w) desk" where
  "billing_claim_batch clk enc limit d =
     (case claim_outbox_batch outbox_visibility_timeout (i32 limit) (ts (clk (ds_world d))) (ds_table d) of
        (Inl err, es) \<Rightarrow> (Inl (Wrap ''billing: claim outbox'' [err]), d\<lparr>ds_table := es\<rparr>)
      | (Inr rows, es) \<Rightarrow> (encode_rows enc (\<lambda>e. None) rows, d\<lparr>ds_table := es\<rparr>))"

definition with_id ::
  "(string \<Rightarrow> uuid option) \<Rightarrow> go_error \<Rightarrow> string \<Rightarrow> (uuid \<Rightarrow> ('p, 'w) desk \<Rightarrow> ('p, 'w) desk) \<Rightarrow> ('p, 'w) desk \<Rightarrow> go_error option \<times> ('p, 'w) desk" where
  "with_id parse err i f d = (case parse i of None \<Rightarrow> (Some err, d) | Some u \<Rightarrow> (None, f u d))"

definition err_uuid :: go_error where
  "err_uuid = PkgError ''invalid UUID''"

definition billing_outbox_store ::
  "('w \<Rightarrow> instant) \<Rightarrow> (string \<Rightarrow> uuid option) \<Rightarrow> ('p \<Rightarrow> go_error + 'q) \<Rightarrow> ('q, ('p, 'w) desk) outbox_store" where
  "billing_outbox_store clk parse enc =
     \<lparr>st_claim = billing_claim_batch clk enc,
      st_processed = (\<lambda>i. with_id parse err_uuid i (\<lambda>u d. on_table (mark_outbox_processed u (ts (clk (ds_world d)))) d)),
      st_failed = (\<lambda>i t err. with_id parse err_uuid i (\<lambda>u. on_table (mark_outbox_failed u t (Some (truncate_text err))))),
      st_dead = (\<lambda>i err. with_id parse err_uuid i
        (\<lambda>u d. on_table (mark_outbox_dead u (ts (clk (ds_world d))) (Some (truncate_text err))) d)),
      st_pending = (\<lambda>d. Inr (count_outbox_pending (ds_table d))),
      st_leaser = None\<rparr>"

text \<open>
  The event of \<open>OutboxEvent\<close>, and \<open>OutboxProcess\<close>: every consumer in turn until one fails. A
  consumer acts on the outside.
\<close>

record 'j outbox_event =
  ev_id :: string
  ev_topic :: string
  ev_payload :: 'j

fun consume_all ::
  "('j outbox_event \<Rightarrow> 'w \<Rightarrow> go_error option \<times> 'w) list \<Rightarrow> 'j outbox_event \<Rightarrow> 'w \<Rightarrow> go_error option \<times> 'w" where
  "consume_all [] e w = (None, w)"
| "consume_all (c # cs) e w = (case c e w of (Some err, w) \<Rightarrow> (Some err, w) | (None, w) \<Rightarrow> consume_all cs e w)"

definition outbox_process ::
  "('q \<Rightarrow> go_error + 'j outbox_event) \<Rightarrow> ('j outbox_event \<Rightarrow> 'w \<Rightarrow> go_error option \<times> 'w) list \<Rightarrow>
    'q outbox_row \<Rightarrow> 'w \<Rightarrow> go_error option \<times> 'w" where
  "outbox_process dec consumers row w =
     (case dec (ow_payload row) of
        Inl err \<Rightarrow> (Some (Wrap ''billing: decode outbox row'' [err]), w)
      | Inr e \<Rightarrow> consume_all consumers (e\<lparr>ev_id := ow_id row\<rparr>) w)"

text \<open>
  The notification outbox. A lease travels as text, \<open>RFC3339Nano\<close> of the row's stamp; the stamp is a whole
  number of microseconds, which that text keeps, so the row carries the stamp itself.
\<close>

definition truncate_error :: "string \<Rightarrow> string" where
  "truncate_error s = (if length s \<le> 1000 then s else take 1000 s @ map char_of [0xE2, 0x80, 0xA6 :: nat] @ '' (truncated)'')"

definition text_or_null :: "string \<Rightarrow> string option" where
  "text_or_null s = (if s = [] then None else Some s)"

definition bad_outbox_id :: "string \<Rightarrow> go_error" where
  "bad_outbox_id i = wrap1 (''repository: invalid outbox row id \"'' @ i @ ''\"'') ErrInvalidInput"

definition notification_claim_batch ::
  "('w \<Rightarrow> instant) \<Rightarrow> ('p \<Rightarrow> go_error + 'q) \<Rightarrow> int \<Rightarrow> ('p, 'w) desk \<Rightarrow> (go_error + 'q outbox_row list) \<times> ('p, 'w) desk" where
  "notification_claim_batch clk enc limit d =
     (case claim_outbox_batch outbox_visibility_timeout (i32 limit) (ts (clk (ds_world d))) (ds_table d) of
        (Inl err, es) \<Rightarrow> (Inl (Wrap ''repository: claim notification outbox batch'' [err]), d\<lparr>ds_table := es\<rparr>)
      | (Inr rows, es) \<Rightarrow>
          (case encode_rows enc (\<lambda>e. Some (oe_next e)) rows of
             Inl err \<Rightarrow> Inl (Wrap ''repository: encode outbox payload'' [err]) | Inr out \<Rightarrow> Inr out, d\<lparr>ds_table := es\<rparr>))"

definition renew_notification ::
  "('w \<Rightarrow> instant) \<Rightarrow> (string \<Rightarrow> uuid option) \<Rightarrow> 'q outbox_row \<Rightarrow> ('p, 'w) desk \<Rightarrow> (go_error + 'q outbox_row \<times> bool) \<times> ('p, 'w) desk" where
  "renew_notification clk parse row d =
     (case parse (ow_id row) of None \<Rightarrow> (Inl (bad_outbox_id (ow_id row)), d)
      | Some u \<Rightarrow> (case ow_lease row of
            None \<Rightarrow> (Inl (wrap1 ''repository: bad outbox lease \"\"'' ErrInvalidInput), d)
          | Some lease \<Rightarrow> (case renew_claim outbox_visibility_timeout u lease (ts (clk (ds_world d))) (ds_table d) of
                (None, es) \<Rightarrow> (Inr (row, False), d\<lparr>ds_table := es\<rparr>)
              | (Some stamp, es) \<Rightarrow> (Inr (row\<lparr>ow_lease := Some stamp\<rparr>, True), d\<lparr>ds_table := es\<rparr>))))"

definition mark_notification_leased ::
  "('w \<Rightarrow> instant) \<Rightarrow> (string \<Rightarrow> uuid option) \<Rightarrow> 'q outbox_row \<Rightarrow> ('p, 'w) desk \<Rightarrow> (go_error + bool) \<times> ('p, 'w) desk" where
  "mark_notification_leased clk parse row d =
     (case parse (ow_id row) of None \<Rightarrow> (Inl (bad_outbox_id (ow_id row)), d)
      | Some u \<Rightarrow> (case ow_lease row of
            None \<Rightarrow> (Inl (wrap1 ''repository: bad outbox lease \"\"'' ErrInvalidInput), d)
          | Some lease \<Rightarrow> (case mark_processed_leased u lease (ts (clk (ds_world d))) (ds_table d) of
                (n, es) \<Rightarrow> (Inr (n = 1), d\<lparr>ds_table := es\<rparr>))))"

definition notification_outbox_store ::
  "('w \<Rightarrow> instant) \<Rightarrow> (string \<Rightarrow> uuid option) \<Rightarrow> ('p \<Rightarrow> go_error + 'q) \<Rightarrow> ('q, ('p, 'w) desk) outbox_store" where
  "notification_outbox_store clk parse enc =
     \<lparr>st_claim = notification_claim_batch clk enc,
      st_processed = (\<lambda>i. with_id parse (bad_outbox_id i) i (\<lambda>u d. on_table (mark_outbox_processed u (ts (clk (ds_world d)))) d)),
      st_failed = (\<lambda>i t err. with_id parse (bad_outbox_id i) i
        (\<lambda>u. on_table (mark_outbox_failed u t (text_or_null (truncate_error err))))),
      st_dead = (\<lambda>i err. with_id parse (bad_outbox_id i) i
        (\<lambda>u d. on_table (mark_outbox_dead u (ts (clk (ds_world d))) (text_or_null (truncate_error err))) d)),
      st_pending = (\<lambda>d. Inr (count_outbox_pending (ds_table d))),
      st_leaser = Some \<lparr>ls_renew = renew_notification clk parse, ls_processed = mark_notification_leased clk parse\<rparr>\<rparr>"

section \<open>Retention\<close>

text \<open>
  \<open>notification/retention.go\<close>: one sweep deletes batch after batch until one comes back short or
  fifty are done. \<open>del\<close> is the store's delete for one age.
\<close>

definition retention_batch_size :: int where "retention_batch_size = 1000"
definition retention_max_batches :: nat where "retention_max_batches = 50"

fun sweep_batches :: "nat \<Rightarrow> ('s \<Rightarrow> go_error option) \<Rightarrow> ('s \<Rightarrow> (go_error + int) \<times> 's) \<Rightarrow> int \<Rightarrow> 's \<Rightarrow> (int \<times> go_error option) \<times> 's" where
  "sweep_batches 0 cancelled del acc s = ((acc, None), s)"
| "sweep_batches (Suc k) cancelled del acc s =
     (case cancelled s of Some e \<Rightarrow> ((acc, None), s) | None \<Rightarrow>
        (case del s of
           (Inl err, s) \<Rightarrow> ((acc, Some err), s)
         | (Inr deleted, s) \<Rightarrow>
             if deleted < retention_batch_size then ((i64 (acc + deleted), None), s)
             else sweep_batches k cancelled del (i64 (acc + deleted)) s))"

definition retention_sweep :: "('s \<Rightarrow> go_error option) \<Rightarrow> ('s \<Rightarrow> (go_error + int) \<times> 's) \<Rightarrow> 's \<Rightarrow> (int \<times> go_error option) \<times> 's" where
  "retention_sweep cancelled del s = sweep_batches retention_max_batches cancelled del 0 s"

end
