(* ===== verification/Outbox_Facts.thy ===== *)
theory Outbox_Facts
  imports Outbox
begin

text \<open>
  What the poller guarantees over a store that keeps the contract \<open>outbox_contract\<close>: its loop
  ends, whatever the deliveries do; on the billing outbox it leaves nothing due behind. The
  contract speaks of a store as a map from the pending ids to their attempts.
\<close>

section \<open>The contract of a store without leases\<close>

locale outbox_contract =
  fixes store :: "('p, 's) outbox_store"
    and pending :: "'s \<Rightarrow> (uuid \<rightharpoonup> int)"
    and ok :: "'s \<Rightarrow> bool"
  assumes no_leaser: "st_leaser store = None"
    and finite_pending: "ok s \<Longrightarrow> finite (dom (pending s))"
    and claim_refused: "ok s \<Longrightarrow> st_claim store n s = (Inl e, s') \<Longrightarrow> ok s'"
    and claim_ok: "ok s \<Longrightarrow> st_claim store n s = (Inr rows, s') \<Longrightarrow>
      ok s' \<and> distinct (map ow_id rows) \<and>
      (\<forall>r \<in> set rows. in_i32 (ow_attempts r) \<and> pending s (ow_id r) = Some (ow_attempts r - 1) \<and> pending s' (ow_id r) = Some (ow_attempts r)) \<and>
      (\<forall>i. i \<notin> ow_id ` set rows \<longrightarrow> pending s' i = pending s i)"
    and processed_ok: "ok s \<Longrightarrow> pending s i \<noteq> None \<Longrightarrow>
      \<exists>s'. st_processed store i s = (None, s') \<and> ok s' \<and> pending s' = (pending s)(i := None)"
    and failed_ok: "ok s \<Longrightarrow> pending s i \<noteq> None \<Longrightarrow>
      \<exists>s'. st_failed store i t err s = (None, s') \<and> ok s' \<and> pending s' = pending s"
    and dead_ok: "ok s \<Longrightarrow> pending s i \<noteq> None \<Longrightarrow>
      \<exists>s'. st_dead store i err s = (None, s') \<and> ok s' \<and> pending s' = (pending s)(i := None)"

text \<open>A poller over such a store, whose process function leaves the store alone.\<close>

locale outbox_worker = outbox_contract store pending ok
  for store :: "('p, 's) outbox_store" and pending :: "'s \<Rightarrow> (uuid \<rightharpoonup> int)" and ok :: "'s \<Rightarrow> bool" +
  fixes p :: "('p, 's) poller"
  assumes its_store: "po_store p = store"
    and no_observer: "po_observer p = None"
    and batch: "0 < po_batch p"
    and process_ok: "ok s \<Longrightarrow> po_process p r s = (e, s') \<Longrightarrow> ok s' \<and> pending s' = pending s"
begin

lemma deliver_settles:
  assumes "ok s" "pending s (ow_id r) = Some (ow_attempts r)" "in_i32 (ow_attempts r)"
  shows "ok (deliver p r s) \<and>
    (pending (deliver p r s) = (pending s)(ow_id r := None) \<or>
     pending (deliver p r s) = pending s \<and> ow_attempts r + 1 < po_max_attempts p)"
proof -
  obtain e s' where e: "po_process p r s = (e, s')" by (cases "po_process p r s")
  with assms have s': "ok s'" "pending s' = pending s" "pending s' (ow_id r) \<noteq> None" using process_ok by auto
  have renewed: "renew_row p r s = (Some r, s)" by (simp add: renew_row_def its_store no_leaser)
  have a: "i64 (ow_attempts r + 1) = ow_attempts r + 1"
    using assms(3) by (intro i64_id) (auto simp: in_i32_def in_i64_def)
  show ?thesis
  proof (cases e)
    case None
    from processed_ok [OF s'(1,3)] obtain s'' where "st_processed store (ow_id r) s' = (None, s'')"
      "ok s''" "pending s'' = (pending s')(ow_id r := None)" by blast
    with None e renewed s' show ?thesis
      by (simp add: deliver_def record_delivered_def its_store no_leaser observe_def no_observer)
  next
    case (Some err)
    from dead_ok [OF s'(1,3), of "error_text err"] obtain d where
      "st_dead store (ow_id r) (error_text err) s' = (None, d)" "ok d" "pending d = (pending s')(ow_id r := None)" by blast
    moreover from failed_ok [OF s'(1,3)] obtain f where
      "st_failed store (ow_id r) (time_add (po_now p s') (backoff p (ow_attempts r + 1))) (error_text err) s' = (None, f)"
      "ok f" "pending f = pending s'" by blast
    ultimately show ?thesis using Some e renewed s' a
      by (simp add: deliver_def record_failure_def its_store observe_def no_observer Let_def)
  qed
qed

lemma batch_settles:
  assumes "ok s" "distinct (map ow_id rows)"
    and "\<forall>r \<in> set rows. in_i32 (ow_attempts r) \<and> pending s (ow_id r) = Some (ow_attempts r)"
  shows "ok (fold (deliver p) rows s) \<and>
    (\<forall>i. i \<notin> ow_id ` set rows \<longrightarrow> pending (fold (deliver p) rows s) i = pending s i) \<and>
    (\<forall>r \<in> set rows. pending (fold (deliver p) rows s) (ow_id r) = None \<or>
      pending (fold (deliver p) rows s) (ow_id r) = Some (ow_attempts r) \<and> ow_attempts r + 1 < po_max_attempts p)"
  using assms
proof (induction rows arbitrary: s)
  case Nil
  then show ?case by simp
next
  case (Cons r rows)
  have r: "in_i32 (ow_attempts r)" "pending s (ow_id r) = Some (ow_attempts r)" using Cons.prems(3) by simp_all
  note settled = deliver_settles [OF Cons.prems(1) r(2,1)]
  have same: "pending (deliver p r s) i = pending s i" if "i \<noteq> ow_id r" for i using settled that by auto
  have "\<forall>x \<in> set rows. in_i32 (ow_attempts x) \<and> pending (deliver p r s) (ow_id x) = Some (ow_attempts x)"
    using Cons.prems(2,3) same by (metis image_eqI list.set_map distinct.simps(2) list.simps(9) list.set_intros(2))
  with Cons.IH [of "deliver p r s"] settled Cons.prems(2) same r(2) show ?case by (auto simp: fun_upd_def)
qed

text \<open>What is left to try: each round takes one from every row it claims.\<close>

definition tries :: "int option \<Rightarrow> nat" where
  "tries x = (case x of None \<Rightarrow> 0 | Some a \<Rightarrow> Suc (nat (po_max_attempts p - a)))"

definition work :: "'s \<Rightarrow> nat" where
  "work s = (\<Sum>i \<in> dom (pending s). tries (pending s i))"

lemma work_superset: "finite D \<Longrightarrow> dom (pending s) \<subseteq> D \<Longrightarrow> work s = (\<Sum>i \<in> D. tries (pending s i))"
  unfolding work_def by (rule sum.mono_neutral_left) (auto simp: tries_def split: option.splits)

lemma round_settles:
  assumes "ok s" "st_claim store (po_batch p) s = (Inr rows, c)"
  defines "s' \<equiv> fold (deliver p) rows c"
  shows "ok s'" "i \<notin> ow_id ` set rows \<Longrightarrow> pending s' i = pending s i"
    and "i \<in> ow_id ` set rows \<Longrightarrow> tries (pending s' i) < tries (pending s i)"
proof -
  note claimed = claim_ok [OF assms(1,2)]
  then have settled: "ok s'" "\<forall>i. i \<notin> ow_id ` set rows \<longrightarrow> pending s' i = pending c i"
      "\<forall>r \<in> set rows. pending s' (ow_id r) = None \<or>
        pending s' (ow_id r) = Some (ow_attempts r) \<and> ow_attempts r + 1 < po_max_attempts p"
    using batch_settles [of c rows] by (simp_all add: s'_def)
  show "ok s'" by (fact settled(1))
  show "pending s' i = pending s i" if "i \<notin> ow_id ` set rows"
    using that settled(2) claimed by simp
  show "tries (pending s' i) < tries (pending s i)" if "i \<in> ow_id ` set rows"
  proof -
    from that obtain r where r: "r \<in> set rows" "i = ow_id r" by blast
    with claimed have "pending s i = Some (ow_attempts r - 1)" by blast
    moreover from settled(3) r have "pending s' i = None \<or>
        pending s' i = Some (ow_attempts r) \<and> ow_attempts r + 1 < po_max_attempts p" by auto
    ultimately show ?thesis by (auto simp: tries_def)
  qed
qed

lemma round_makes_progress:
  assumes "ok s" "st_claim store (po_batch p) s = (Inr rows, c)" "rows \<noteq> []"
  shows "work (fold (deliver p) rows c) < work s"
proof -
  let ?s' = "fold (deliver p) rows c" and ?D = "dom (pending s)"
  note settled = round_settles [OF assms(1,2)]
  have le: "tries (pending ?s' i) \<le> tries (pending s i)" for i
    using settled(2,3) [of i] by (cases "i \<in> ow_id ` set rows") auto
  have "dom (pending ?s') \<subseteq> ?D"
  proof
    fix i assume "i \<in> dom (pending ?s')"
    then have "0 < tries (pending ?s' i)" by (auto simp: tries_def)
    with le [of i] have "0 < tries (pending s i)" by simp
    then show "i \<in> ?D" by (auto simp: tries_def split: option.splits)
  qed
  then have "work ?s' = (\<Sum>i \<in> ?D. tries (pending ?s' i))"
    by (rule work_superset [OF finite_pending [OF assms(1)]])
  also have "\<dots> < (\<Sum>i \<in> ?D. tries (pending s i))"
  proof (rule sum_strict_mono_ex1 [OF finite_pending [OF assms(1)]])
    from assms(3) obtain r where r: "r \<in> set rows" by (cases rows) auto
    with claim_ok [OF assms(1,2)] have "ow_id r \<in> ?D" by blast
    with settled(3) [of "ow_id r"] r show "\<exists>i \<in> ?D. tries (pending ?s' i) < tries (pending s i)" by blast
  qed (use le in blast)
  finally show ?thesis by (simp add: work_def)
qed

lemma drain_returns:
  assumes "ok s"
  shows "\<exists>res. drain_loop p acc s = Some res \<and> ok (snd res)"
  using assms
proof (induction "work s" arbitrary: s acc rule: less_induct)
  case less
  obtain x c where x: "st_claim store (po_batch p) s = (x, c)" by (cases "st_claim store (po_batch p) s")
  show ?case
  proof (cases "po_done p s")
    case (Some e)
    then show ?thesis using less.prems by (simp add: drain_loop.simps)
  next
    case None
    show ?thesis
    proof (cases x)
      case (Inl err)
      with None x claim_refused [OF less.prems] show ?thesis
        by (simp add: drain_loop.simps claim_and_process_def its_store)
    next
      case (Inr rows)
      note round = round_settles(1) [OF less.prems x [unfolded Inr]]
      show ?thesis
      proof (cases "int (length rows) < po_batch p")
        case True
        with None Inr x round show ?thesis by (simp add: drain_loop.simps claim_and_process_def its_store)
      next
        case False
        with batch have "rows \<noteq> []" by auto
        from less.hyps [OF round_makes_progress [OF less.prems x [unfolded Inr] this] round] False None Inr x
        show ?thesis by (subst drain_loop.simps) (simp add: claim_and_process_def its_store)
      qed
    qed
  qed
qed

end

section \<open>The billing outbox keeps the contract\<close>

definition entry_of :: "uuid \<Rightarrow> 'p outbox_entry list \<Rightarrow> 'p outbox_entry option" where
  "entry_of i es = find (\<lambda>e. oe_id e = i) es"

definition desk_pending :: "('p, 'w) desk \<Rightarrow> (uuid \<rightharpoonup> int)" where
  "desk_pending d i = (case entry_of i (ds_table d) of None \<Rightarrow> None | Some e \<Rightarrow> if oe_pending e then Some (oe_attempts e) else None)"

definition desk_ok :: "(string \<Rightarrow> uuid option) \<Rightarrow> ('p, 'w) desk \<Rightarrow> bool" where
  "desk_ok parse d \<longleftrightarrow> distinct (map oe_id (ds_table d)) \<and> (\<forall>e \<in> set (ds_table d). parse (oe_id e) = Some (oe_id e))"

lemma entry_update:
  assumes "\<And>e. oe_id (f e) = oe_id e"
  shows "entry_of i (update_where (\<lambda>e. Q (oe_id e)) f es) = map_option (\<lambda>e. if Q i then f e else e) (entry_of i es)"
  by (induction es) (auto simp: entry_of_def assms)

lemma entry_of_mem: "distinct (map oe_id es) \<Longrightarrow> e \<in> set es \<Longrightarrow> entry_of (oe_id e) es = Some e"
  by (induction es) (auto simp: entry_of_def)

lemma entry_of_Some: "entry_of i es = Some e \<Longrightarrow> e \<in> set es \<and> oe_id e = i"
  by (auto simp: entry_of_def find_Some_iff)

lemma entry_of_ids: "i \<in> oe_id ` set es \<longleftrightarrow> (\<exists>e. entry_of i es = Some e)"
  by (induction es) (auto simp: entry_of_def)

lemma desk_ok_entry: "desk_ok parse d \<Longrightarrow> entry_of i (ds_table d) = Some e \<Longrightarrow> parse i = Some i"
  by (auto simp: desk_ok_def dest!: entry_of_Some)

lemma desk_ok_update:
  fixes d :: "('p, 'w) desk"
  assumes "\<And>e. oe_id (f e) = oe_id e"
  shows "desk_ok parse (d\<lparr>ds_table := update_where P f (ds_table d)\<rparr>) = desk_ok parse d"
proof -
  have "map oe_id (update_where P f es) = map oe_id es" for es by (induction es) (auto simp: assms)
  then have "map oe_id (update_where P f (ds_table d)) = map oe_id (ds_table d)" .
  moreover have ok: "desk_ok parse d \<longleftrightarrow> distinct (map oe_id (ds_table d)) \<and> (\<forall>i \<in> set (map oe_id (ds_table d)). parse i = Some i)"
    for d :: "('p, 'w) desk"
    by (simp add: desk_ok_def)
  ultimately show ?thesis by (simp del: set_map)
qed

lemma desk_world [simp]:
  "desk_pending (d\<lparr>ds_world := w\<rparr>) = desk_pending d" "desk_ok parse (d\<lparr>ds_world := w\<rparr>) = desk_ok parse d"
  by (simp_all add: desk_pending_def desk_ok_def fun_eq_iff)

lemma encode_rows_same:
  "encode_rows enc lease es = Inr rows \<Longrightarrow> map ow_id rows = map oe_id es \<and> map ow_attempts rows = map oe_attempts es"
  by (induction es arbitrary: rows) auto

lemma due_ids_pending:
  assumes "i \<in> set (due_ids now n es)"
  shows "\<exists>e \<in> set es. oe_id e = i \<and> oe_pending e \<and> oe_next e \<le> now"
proof -
  from assms obtain e where "oe_id e = i" "e \<in> set (take n (sort_key oe_next (filter (\<lambda>e. oe_pending e \<and> oe_next e \<le> now) es)))"
    by (auto simp: due_ids_def)
  from this(1) in_set_takeD [OF this(2)] show ?thesis by auto
qed

lemma claim_entries:
  assumes "claim_outbox_batch timeout n now es = (Inr xs, es')" "distinct (map oe_id es)"
  defines "ids \<equiv> due_ids now (nat n) es"
  shows "map oe_id es' = map oe_id es" "oe_id ` set xs = set ids" "distinct (map oe_id xs)"
    and "entry_of i es' = map_option (\<lambda>e. if i \<in> set ids then e\<lparr>oe_attempts := oe_attempts e + 1, oe_next := now + timeout\<rparr> else e) (entry_of i es)"
    and "x \<in> set xs \<Longrightarrow> entry_of (oe_id x) es' = Some x \<and> oe_pending x \<and>
      (\<exists>e. entry_of (oe_id x) es = Some e \<and> oe_pending e \<and> oe_attempts x = oe_attempts e + 1 \<and> in_i32 (oe_attempts x))"
proof -
  let ?bump = "\<lambda>e. e\<lparr>oe_attempts := oe_attempts e + 1, oe_next := now + timeout\<rparr>"
  from assms(1) have es': "es' = update_where (\<lambda>e. oe_id e \<in> set ids) ?bump es"
    and xs: "xs = filter (\<lambda>e. oe_id e \<in> set ids) es'"
    and range: "\<forall>e \<in> set es. oe_id e \<in> set ids \<longrightarrow> in_i32 (oe_attempts e + 1)"
    by (auto simp: claim_outbox_batch_def Let_def ids_def list_ex_iff split: if_splits)
  show same: "map oe_id es' = map oe_id es" by (simp add: es' map_update_where)
  have "set ids \<subseteq> oe_id ` set es" using due_ids_pending by (fastforce simp: ids_def)
  moreover have "oe_id ` set es' = oe_id ` set es" using same by (metis list.set_map)
  ultimately show "oe_id ` set xs = set ids" by (auto simp: xs)
  have d: "distinct (map oe_id es')" using same assms(2) by simp
  then show "distinct (map oe_id xs)" by (simp add: xs distinct_map_filter)
  show step: "entry_of i es' = map_option (\<lambda>e. if i \<in> set ids then ?bump e else e) (entry_of i es)" for i
    unfolding es' by (rule entry_update) simp
  show "entry_of (oe_id x) es' = Some x \<and> oe_pending x \<and>
      (\<exists>e. entry_of (oe_id x) es = Some e \<and> oe_pending e \<and> oe_attempts x = oe_attempts e + 1 \<and> in_i32 (oe_attempts x))"
    if "x \<in> set xs"
  proof -
    have x: "x \<in> set es'" "oe_id x \<in> set ids" using that by (auto simp: xs)
    note found = entry_of_mem [OF d x(1)]
    with step [of "oe_id x"] x(2) obtain e where e: "entry_of (oe_id x) es = Some e" "x = ?bump e"
      by (cases "entry_of (oe_id x) es") auto
    from due_ids_pending [OF x(2) [unfolded ids_def]] obtain e' where
      e': "e' \<in> set es" "oe_id e' = oe_id x" "oe_pending e'" by blast
    with entry_of_mem [OF assms(2) e'(1)] e(1) have "e' = e" by simp
    moreover have "oe_attempts x = oe_attempts e + 1" "oe_pending x = oe_pending e"
      by (subst e(2), simp add: oe_pending_def)+
    ultimately show ?thesis using found e(1) e'(1,3) range x(2) e'(2) by auto
  qed
qed

lemma desk_pending_closed:
  assumes "\<And>e. oe_id (f e) = oe_id e" "\<And>e. \<not> oe_pending (f e)"
  shows "desk_pending (d\<lparr>ds_table := update_where (\<lambda>e. oe_id e = u) f (ds_table d)\<rparr>) = (desk_pending d)(u := None)"
  using entry_update [of f _ "\<lambda>j. j = u" "ds_table d"] assms
  by (auto simp: desk_pending_def fun_eq_iff split: option.splits)

lemma desk_pending_same:
  assumes "\<And>e. oe_id (f e) = oe_id e" "\<And>e. oe_pending (f e) = oe_pending e" "\<And>e. oe_attempts (f e) = oe_attempts e"
  shows "desk_pending (d\<lparr>ds_table := update_where (\<lambda>e. oe_id e = u) f (ds_table d)\<rparr>) = desk_pending d"
  using entry_update [of f _ "\<lambda>j. j = u" "ds_table d"] assms
  by (auto simp: desk_pending_def fun_eq_iff split: option.splits)

lemma desk_ok_pending: "desk_ok parse d \<Longrightarrow> desk_pending d i \<noteq> None \<Longrightarrow> parse i = Some i"
  by (auto simp: desk_pending_def split: option.splits intro: desk_ok_entry)

lemma finite_desk_pending: "finite (dom (desk_pending d))"
proof (rule finite_subset)
  show "dom (desk_pending d) \<subseteq> oe_id ` set (ds_table d)"
    by (auto simp: desk_pending_def entry_of_ids split: option.splits)
qed simp

lemma billing_claim_refused:
  assumes "desk_ok parse d" "billing_claim_batch clk enc n d = (x, d')"
  shows "desk_ok parse d'"
  using assms
  by (auto simp: billing_claim_batch_def claim_outbox_batch_def Let_def desk_ok_update split: prod.splits sum.splits if_splits)

lemma billing_claim_ok:
  assumes "desk_ok parse d" "billing_claim_batch clk enc n d = (Inr rows, d')"
  shows "desk_ok parse d' \<and> distinct (map ow_id rows) \<and>
    (\<forall>r \<in> set rows. in_i32 (ow_attempts r) \<and> desk_pending d (ow_id r) = Some (ow_attempts r - 1) \<and>
      desk_pending d' (ow_id r) = Some (ow_attempts r)) \<and>
    (\<forall>i. i \<notin> ow_id ` set rows \<longrightarrow> desk_pending d' i = desk_pending d i)"
proof -
  let ?now = "ts (clk (ds_world d))"
  from assms(2) obtain xs es where c: "claim_outbox_batch outbox_visibility_timeout (i32 n) ?now (ds_table d) = (Inr xs, es)"
    and rows: "encode_rows enc (\<lambda>e. None) xs = Inr rows" and d': "d' = d\<lparr>ds_table := es\<rparr>"
    by (auto simp: billing_claim_batch_def split: prod.splits sum.splits)
  from assms(1) have dist: "distinct (map oe_id (ds_table d))" by (simp add: desk_ok_def)
  note claimed = claim_entries [OF c dist]
  from encode_rows_same [OF rows] have same: "map ow_id rows = map oe_id xs" "map ow_attempts rows = map oe_attempts xs" by simp_all
  have "in_i32 (ow_attempts r) \<and> desk_pending d (ow_id r) = Some (ow_attempts r - 1) \<and> desk_pending d' (ow_id r) = Some (ow_attempts r)"
    if "r \<in> set rows" for r
  proof -
    from that obtain k where k: "k < length rows" "r = rows ! k" by (auto simp: in_set_conv_nth)
    from same have "length rows = length xs" by (metis length_map)
    with k same have x: "xs ! k \<in> set xs" "ow_id r = oe_id (xs ! k)" "ow_attempts r = oe_attempts (xs ! k)"
      by (metis nth_mem, metis nth_map, metis nth_map)
    from claimed(5) [OF x(1)] claimed(4) [of "oe_id (xs ! k)"] claimed(2) x(1) show ?thesis
      by (auto simp: x(2,3) desk_pending_def d')
  qed
  moreover have "desk_pending d' i = desk_pending d i" if "i \<notin> ow_id ` set rows" for i
  proof -
    have "i \<notin> set (due_ids ?now (nat (i32 n)) (ds_table d))" using that same(1) claimed(2) by (metis list.set_map)
    then show ?thesis using claimed(4) [of i] by (simp add: desk_pending_def d' option.map_ident)
  qed
  ultimately show ?thesis using billing_claim_refused [OF assms] claimed(3) same(1) by simp
qed

lemmas store_defs = billing_outbox_store_def with_id_def on_table_def mark_outbox_processed_def mark_outbox_failed_def mark_outbox_dead_def

interpretation billing_outbox: outbox_contract "billing_outbox_store clk parse enc" desk_pending "desk_ok parse"
  for clk :: "'w \<Rightarrow> instant" and parse and enc :: "'p \<Rightarrow> go_error + 'q"
proof unfold_locales
  fix s s' :: "('p, 'w) desk" and i t err n e and rows :: "'q outbox_row list"
  show "st_leaser (billing_outbox_store clk parse enc) = None" by (simp add: store_defs)
  show "finite (dom (desk_pending s))" by (rule finite_desk_pending)
  show "desk_ok parse s'" if "desk_ok parse s" "st_claim (billing_outbox_store clk parse enc) n s = (Inl e, s')"
    using billing_claim_refused that by (simp add: store_defs) blast
  show "desk_ok parse s' \<and> distinct (map ow_id rows) \<and>
      (\<forall>r \<in> set rows. in_i32 (ow_attempts r) \<and> desk_pending s (ow_id r) = Some (ow_attempts r - 1) \<and> desk_pending s' (ow_id r) = Some (ow_attempts r)) \<and>
      (\<forall>i. i \<notin> ow_id ` set rows \<longrightarrow> desk_pending s' i = desk_pending s i)"
    if "desk_ok parse s" "st_claim (billing_outbox_store clk parse enc) n s = (Inr rows, s')"
    using billing_claim_ok that by (simp add: store_defs)
  assume s: "desk_ok parse s" "desk_pending s i \<noteq> None"
  then have i: "parse i = Some i" by (rule desk_ok_pending)
  show "\<exists>s'. st_processed (billing_outbox_store clk parse enc) i s = (None, s') \<and> desk_ok parse s' \<and>
      desk_pending s' = (desk_pending s)(i := None)"
    using i s(1) by (simp add: store_defs desk_ok_update) (subst desk_pending_closed; simp add: oe_pending_def)
  show "\<exists>s'. st_failed (billing_outbox_store clk parse enc) i t err s = (None, s') \<and> desk_ok parse s' \<and>
      desk_pending s' = desk_pending s"
    using i s(1) by (simp add: store_defs desk_ok_update) (subst desk_pending_same; simp add: oe_pending_def)
  show "\<exists>s'. st_dead (billing_outbox_store clk parse enc) i err s = (None, s') \<and> desk_ok parse s' \<and>
      desk_pending s' = (desk_pending s)(i := None)"
    using i s(1) by (simp add: store_defs desk_ok_update) (subst desk_pending_closed; simp add: oe_pending_def)
qed

definition billing_poller ::
  "('w \<Rightarrow> instant) \<Rightarrow> (string \<Rightarrow> uuid option) \<Rightarrow> ('p \<Rightarrow> go_error + 'q) \<Rightarrow> ('q \<Rightarrow> go_error + 'j outbox_event) \<Rightarrow>
    ('j outbox_event \<Rightarrow> 'w \<Rightarrow> go_error option \<times> 'w) list \<Rightarrow> ('w \<Rightarrow> go_error option) \<Rightarrow> ('q, ('p, 'w) desk) poller" where
  "billing_poller clk parse enc dec consumers cancelled =
     new_poller (billing_outbox_store clk parse enc) (at_desk (outbox_process dec consumers)) (clk \<circ> ds_world) (cancelled \<circ> ds_world)"

interpretation billing_worker: outbox_worker "billing_outbox_store clk parse enc" desk_pending "desk_ok parse"
    "billing_poller clk parse enc dec consumers cancelled"
  for clk parse enc dec consumers cancelled
proof unfold_locales
  fix s r e s'
  show "po_store (billing_poller clk parse enc dec consumers cancelled) = billing_outbox_store clk parse enc"
    and "po_observer (billing_poller clk parse enc dec consumers cancelled) = None"
    and "0 < po_batch (billing_poller clk parse enc dec consumers cancelled)"
    by (simp_all add: billing_poller_def new_poller_def default_batch_size_def)
  show "desk_ok parse s' \<and> desk_pending s' = desk_pending s"
    if "desk_ok parse s" "po_process (billing_poller clk parse enc dec consumers cancelled) r s = (e, s')"
  proof -
    obtain x w where "outbox_process dec consumers r (ds_world s) = (x, w)" by fastforce
    with that have "s' = s\<lparr>ds_world := w\<rparr>" by (simp add: billing_poller_def new_poller_def at_desk_def)
    with that(1) show ?thesis by simp
  qed
qed

text \<open>
  C34. The billing worker's drain always returns, whatever its consumers do and however long they
  take: every round spends one of the tries of each row it claims.
\<close>

theorem billing_drain_terminates:
  assumes "distinct (map oe_id (ds_table d))" "\<forall>e \<in> set (ds_table d). parse (oe_id e) = Some (oe_id e)"
  shows "\<exists>n err d'. drain (billing_poller clk parse enc dec consumers cancelled) d = Some ((n, err), d')"
proof -
  have "desk_ok parse d" using assms by (simp add: desk_ok_def)
  from billing_worker.drain_returns [OF this, of clk enc dec consumers cancelled 0] obtain res
    where "drain_loop (billing_poller clk parse enc dec consumers cancelled) 0 d = Some res" by blast
  then show ?thesis by (cases res) (auto simp: drain_def split: option.splits)
qed

lemma billing_drain_terminates_witness:
  "\<exists>n err d'. drain (billing_poller (\<lambda>w::int. w) Some Inr Inr [] (\<lambda>w. None))
     \<lparr>ds_table = [\<lparr>oe_id = ''a'', oe_payload = \<lparr>ev_id = [], ev_topic = ''t'', ev_payload = ()\<rparr>, oe_attempts = 0,
       oe_next = 0, oe_processed = None, oe_dead = None, oe_error = None\<rparr>], ds_world = 0\<rparr> = Some ((n, err), d')"
  by (rule billing_drain_terminates) simp_all

section \<open>Backoff\<close>

lemma pow_in_range:
  assumes "0 < base" "in_i64 m" "base * 2 ^ k \<le> m"
  shows "in_i64 (base * 2 ^ k)"
proof -
  have "0 < base * 2 ^ k" using assms(1) by simp
  with assms(2,3) show ?thesis by (simp add: in_i64_def)
qed

lemma backoff_exact:
  assumes "0 < po_base p" "in_i64 (po_max_delay p)" "1 \<le> n" "po_base p * 2 ^ 32 > po_max_delay p"
  shows "backoff p n = min (po_max_delay p) (po_base p * 2 ^ nat (n - 1))"
proof (cases "n > 32")
  case True
  then have "(2::int) ^ 32 \<le> 2 ^ nat (n - 1)" by (intro power_increasing) auto
  then have "po_base p * 2 ^ 32 \<le> po_base p * 2 ^ nat (n - 1)" using assms(1) by (intro mult_left_mono) auto
  with True assms(4) show ?thesis by (simp add: backoff_def)
next
  case False
  let ?x = "po_base p * 2 ^ nat (n - 1)"
  have pos: "0 < ?x" using assms(1) by simp
  show ?thesis
  proof (cases "?x \<le> po_max_delay p")
    case True
    from pow_in_range [OF assms(1,2) True] have "float_to_duration ?x = ?x" by (simp add: float_to_duration_def)
    with True False pos assms(3) show ?thesis by (simp add: backoff_def Let_def)
  next
    case above: False
    then have "float_to_duration ?x \<le> 0 \<or> float_to_duration ?x = ?x" by (simp add: float_to_duration_def)
    with above False assms(3) show ?thesis by (auto simp: backoff_def Let_def)
  qed
qed

lemma backoff_ge_base:
  assumes "0 < po_base p" "po_base p \<le> po_max_delay p" "in_i64 (po_max_delay p)" "po_base p * 2 ^ 32 > po_max_delay p"
  shows "po_base p \<le> backoff p n"
proof -
  have pow: "po_base p \<le> po_base p * 2 ^ k" for k using assms(1) by simp
  have "po_base p \<le> backoff p k" if "1 \<le> k" for k
    using backoff_exact [OF assms(1,3) that assms(4)] assms(2) pow [of "nat (k - 1)"] by simp
  from this [of n] this [of 1] show ?thesis by (cases "n \<le> 1") (auto simp: backoff_def Let_def)
qed

text \<open>
  The delay before the next attempt never falls as attempts are counted, starts at the base, doubles
  until it reaches the ceiling and stays there; a corrupted count changes nothing about that.
\<close>

lemma backoff_doubles_to_ceiling:
  assumes "0 < po_base p" "po_base p \<le> po_max_delay p" "in_i64 (po_max_delay p)" "po_base p * 2 ^ 32 > po_max_delay p"
  shows "(m \<le> n \<longrightarrow> backoff p m \<le> backoff p n) \<and> po_base p \<le> backoff p n \<and> backoff p n \<le> po_max_delay p \<and>
    backoff p 1 = po_base p \<and> (1 \<le> n \<longrightarrow> backoff p (n + 1) = min (po_max_delay p) (2 * backoff p n))"
proof -
  have low: "backoff p k = backoff p 1" if "k \<le> 1" for k using that by (auto simp: backoff_def Let_def)
  note exact = backoff_exact [OF assms(1,3) _ assms(4)]
  have one: "backoff p 1 = po_base p" using exact [of 1] assms(2) by simp
  note ge = backoff_ge_base [OF assms]
  have le: "backoff p k \<le> po_max_delay p" for k
    using low [of k] one exact [of k] assms(2) by (cases "k \<le> 1") auto
  have mono: "backoff p m \<le> backoff p n" if "m \<le> n"
  proof (cases "m \<le> 1")
    case True
    with low [of m] one ge [of n] show ?thesis by simp
  next
    case False
    with that have "(2::int) ^ nat (m - 1) \<le> 2 ^ nat (n - 1)" by (intro power_increasing) auto
    then have "po_base p * 2 ^ nat (m - 1) \<le> po_base p * 2 ^ nat (n - 1)" using assms(1) by (intro mult_left_mono) auto
    with False that exact [of m] exact [of n] show ?thesis by auto
  qed
  have "backoff p (n + 1) = min (po_max_delay p) (2 * backoff p n)" if "1 \<le> n"
  proof -
    have "nat n = Suc (nat (n - 1))" using that by simp
    then have "po_base p * 2 ^ nat n = 2 * (po_base p * 2 ^ nat (n - 1))" by simp
    with exact [of n] exact [of "n + 1"] that assms(1,2) show ?thesis by (auto simp: min_def)
  qed
  with mono ge le one show ?thesis by blast
qed

definition idle_poller :: "(unit, unit) poller" where
  "idle_poller = new_poller \<lparr>st_claim = (\<lambda>n s. (Inr [], s)), st_processed = (\<lambda>i s. (None, s)), st_failed = (\<lambda>i t e s. (None, s)),
     st_dead = (\<lambda>i e s. (None, s)), st_pending = (\<lambda>s. Inr 0), st_leaser = None\<rparr> (\<lambda>r s. (None, s)) (\<lambda>s. 0) (\<lambda>s. None)"

section \<open>Nothing due is left behind\<close>

text \<open>At time \<open>t\<close> nothing is due on the table, and the clock has not gone back behind \<open>t\<close>.\<close>

definition caught_up :: "('w \<Rightarrow> instant) \<Rightarrow> instant \<Rightarrow> ('p, 'w) desk \<Rightarrow> bool" where
  "caught_up clk t d \<longleftrightarrow> t \<le> ts (clk (ds_world d)) \<and> (\<forall>e \<in> set (ds_table d). oe_pending e \<longrightarrow> t < oe_next e)"

lemma caught_up_update:
  assumes "caught_up clk t d" "\<And>e. oe_pending (f e) \<Longrightarrow> oe_pending e \<Longrightarrow> t < oe_next e \<Longrightarrow> t < oe_next (f e)"
    and "\<And>e. oe_pending (f e) \<Longrightarrow> oe_pending e"
  shows "caught_up clk t (d\<lparr>ds_table := update_where P f (ds_table d)\<rparr>)"
  using assms by (auto simp: caught_up_def set_update_where)

lemma ts_plus: "1000 \<le> b \<Longrightarrow> ts t < ts (t + b)"
proof -
  assume "1000 \<le> b"
  then have "(t + 1000) div 1000 \<le> (t + b) div 1000" by (intro zdiv_mono1) auto
  then show ?thesis by (simp add: ts_def)
qed

text \<open>The consumers never set the clock back.\<close>

definition clock_forward :: "('w \<Rightarrow> instant) \<Rightarrow> ('q outbox_row \<Rightarrow> 'w \<Rightarrow> go_error option \<times> 'w) \<Rightarrow> bool" where
  "clock_forward clk process \<longleftrightarrow> (\<forall>r w. clk w \<le> clk (snd (process r w)))"

lemma clock_step: "clock_forward clk process \<Longrightarrow> process r w = (e, w') \<Longrightarrow> clk w \<le> clk w'"
  unfolding clock_forward_def by (metis snd_conv)

lemma poller_parts:
  assumes "p = billing_poller clk parse enc dec consumers cancelled"
  shows "po_store p = billing_outbox_store clk parse enc" "po_observer p = None" "po_batch p = 50"
  "po_process p = at_desk (outbox_process dec consumers)" "po_now p = clk \<circ> ds_world" "po_max_attempts p = 10"
  "po_base p = 5 * second" "po_max_delay p = 10 * minute"
  by (simp_all add: assms billing_poller_def new_poller_def default_batch_size_def default_max_attempts_def
      default_base_delay_def default_max_delay_def)

lemma its_backoff:
  assumes "p = billing_poller clk parse enc dec consumers cancelled"
  shows "1000 \<le> backoff p n"
  using backoff_ge_base [of p n] by (simp add: poller_parts [OF assms] duration_defs in_i64_def)

lemma deliver_caught_up:
  assumes "caught_up clk t d" and p: "p = billing_poller clk parse enc dec consumers cancelled" and fw: "clock_forward clk (outbox_process dec consumers)"
  shows "caught_up clk t (deliver p r d) \<and> clk (ds_world d) \<le> clk (ds_world (deliver p r d))"
proof -
  obtain e w where w: "outbox_process dec consumers r (ds_world d) = (e, w)" by fastforce
  let ?d = "d\<lparr>ds_world := w\<rparr>"
  note parts = poller_parts [OF p]
  from clock_step [OF fw w] have le: "clk (ds_world d) \<le> clk w" .
  have d: "caught_up clk t ?d" using assms(1) ts_mono [OF le] by (simp add: caught_up_def)
  have next_at: "t < ts (clk w + backoff p n)" for n
    using d ts_plus [OF its_backoff [OF p], of "clk w" n] by (simp add: caught_up_def)
  have renewed: "renew_row p r d = (Some r, d)" by (simp add: renew_row_def parts billing_outbox_store_def)
  show ?thesis
  proof (cases e)
    case None
    have "caught_up clk t (on_table (mark_outbox_processed u x) ?d)" for u x
      using caught_up_update [OF d, of "\<lambda>e. e\<lparr>oe_processed := Some x, oe_error := None\<rparr>" "\<lambda>e. oe_id e = u"]
      by (simp add: on_table_def mark_outbox_processed_def oe_pending_def)
    with None le d renewed w show ?thesis
      by (auto simp: deliver_def parts at_desk_def record_delivered_def billing_outbox_store_def with_id_def
          observe_def on_table_def split: option.splits)
  next
    case (Some err)
    have "caught_up clk t (on_table (mark_outbox_dead u x y) ?d)" for u x y
      using caught_up_update [OF d, of "\<lambda>e. e\<lparr>oe_dead := Some x, oe_error := y\<rparr>" "\<lambda>e. oe_id e = u"]
      by (simp add: on_table_def mark_outbox_dead_def oe_pending_def)
    moreover have "caught_up clk t (on_table (mark_outbox_failed u (clk w + backoff p n) y) ?d)" for u n y
      using caught_up_update [OF d, of "\<lambda>e. e\<lparr>oe_next := ts (clk w + backoff p n), oe_error := y\<rparr>" "\<lambda>e. oe_id e = u"] next_at
      by (simp add: on_table_def mark_outbox_failed_def oe_pending_def)
    ultimately show ?thesis using Some le d renewed w
      by (auto simp: deliver_def parts at_desk_def record_failure_def billing_outbox_store_def with_id_def
          observe_def on_table_def time_add_def Let_def split: option.splits)
  qed
qed

lemma batch_caught_up:
  assumes "p = billing_poller clk parse enc dec consumers cancelled" "clock_forward clk (outbox_process dec consumers)"
  shows "caught_up clk t d \<Longrightarrow> caught_up clk t (fold (deliver p) rows d)"
  by (induction rows arbitrary: d) (auto dest: deliver_caught_up [OF _ assms])

lemma clock_of_batch:
  assumes p: "p = billing_poller clk parse enc dec consumers cancelled" and fw: "clock_forward clk (outbox_process dec consumers)"
  shows "clk (ds_world d) \<le> clk (ds_world (fold (deliver p) rows d))"
proof -
  have "clk (ds_world d) \<le> clk (ds_world (deliver p r d))" for r d
  proof -
    obtain e w where w: "outbox_process dec consumers r (ds_world d) = (e, w)" by fastforce
    with clock_step [OF fw w] show ?thesis
      by (auto simp: deliver_def renew_row_def poller_parts [OF p] at_desk_def record_failure_def record_delivered_def
          billing_outbox_store_def with_id_def observe_def on_table_def Let_def split: option.splits)
  qed
  then show ?thesis by (induction rows arbitrary: d) (auto intro: order_trans)
qed

text \<open>A batch shorter than asked for has taken everything due.\<close>

lemma short_claim:
  assumes "desk_ok parse d" "st_claim (po_store p) (po_batch p) d = (Inr rows, d')" "length rows < 50"
    and p: "p = billing_poller clk parse enc dec consumers cancelled"
  shows "caught_up clk (ts (clk (ds_world d))) d'"
proof -
  let ?now = "ts (clk (ds_world d))"
  from assms(2) obtain xs es where c: "claim_outbox_batch outbox_visibility_timeout 50 ?now (ds_table d) = (Inr xs, es)"
    and rows: "encode_rows enc (\<lambda>e. None) xs = Inr rows" and d': "d' = d\<lparr>ds_table := es\<rparr>"
    by (auto simp: poller_parts [OF p] billing_outbox_store_def billing_claim_batch_def in_i32_def split: prod.splits sum.splits)
  have dist: "distinct (map oe_id (ds_table d))" using assms(1) by (simp add: desk_ok_def)
  note claimed = claim_entries [OF c dist]
  let ?due = "sort_key oe_next (filter (\<lambda>e. oe_pending e \<and> oe_next e \<le> ?now) (ds_table d))"
  have "distinct (map oe_id (filter (\<lambda>e. oe_pending e \<and> oe_next e \<le> ?now) (ds_table d)))"
    using dist by (rule distinct_map_filter)
  then have "distinct (map oe_id ?due)" by (simp add: distinct_map)
  then have "distinct (due_ids ?now 50 (ds_table d))" by (simp add: due_ids_def take_map [symmetric] distinct_take)
  moreover have "length rows = length xs" using encode_rows_same [OF rows] by (metis length_map)
  ultimately have "length (due_ids ?now 50 (ds_table d)) < 50"
    using assms(3) claimed(2,3) by (metis distinct_card length_map list.set_map nat_numeral)
  then have "length ?due < 50" by (simp add: due_ids_def)
  then have all: "set (due_ids ?now 50 (ds_table d)) = oe_id ` {e \<in> set (ds_table d). oe_pending e \<and> oe_next e \<le> ?now}"
    by (simp add: due_ids_def)
  have "?now < oe_next e" if e: "e \<in> set es" "oe_pending e" for e
  proof -
    have "entry_of (oe_id e) es = Some e" using entry_of_mem claimed(1) dist e(1) by metis
    with claimed(4) [of "oe_id e"] obtain e0 where e0: "entry_of (oe_id e) (ds_table d) = Some e0"
      "e = (if oe_id e \<in> set (due_ids ?now 50 (ds_table d))
        then e0\<lparr>oe_attempts := oe_attempts e0 + 1, oe_next := ?now + outbox_visibility_timeout\<rparr> else e0)"
      by (cases "entry_of (oe_id e) (ds_table d)") auto
    show ?thesis
    proof (cases "oe_id e \<in> set (due_ids ?now 50 (ds_table d))")
      case True
      with e0(2) have "oe_next e = ?now + outbox_visibility_timeout" by (metis outbox_entry.select_convs(4) outbox_entry.update_convs(4) outbox_entry.surjective)
      then show ?thesis by (simp add: outbox_visibility_timeout_def second_def)
    next
      case False
      with e0 have "e \<in> set (ds_table d)" using entry_of_Some by fastforce
      with False all e(2) show ?thesis by force
    qed
  qed
  then show ?thesis by (auto simp: caught_up_def d')
qed

lemma drain_loop_caught_up:
  assumes "drain_loop p n d = Some y" "snd (fst y) = None" "desk_ok parse d" "t \<le> ts (clk (ds_world d))"
    and p: "p = billing_poller clk parse enc dec consumers cancelled" and fw: "clock_forward clk (outbox_process dec consumers)"
  shows "\<exists>t' \<ge> t. caught_up clk t' (snd y)"
proof -
  note parts = poller_parts [OF p]
  from assms(1) have "p = p \<longrightarrow> snd (fst y) = None \<longrightarrow> desk_ok parse d \<longrightarrow> t \<le> ts (clk (ds_world d)) \<longrightarrow> (\<exists>t' \<ge> t. caught_up clk t' (snd y))"
  proof (rule drain_loop.raw_induct [where P = "\<lambda>q n d y. q = p \<longrightarrow> snd (fst y) = None \<longrightarrow> desk_ok parse d \<longrightarrow>
      t \<le> ts (clk (ds_world d)) \<longrightarrow> (\<exists>t' \<ge> t. caught_up clk t' (snd y))", rotated])
    fix loop q n d y
    assume IH: "\<And>q n d y. loop q n d = Some y \<Longrightarrow> q = p \<longrightarrow> snd (fst y) = None \<longrightarrow> desk_ok parse d \<longrightarrow>
        t \<le> ts (clk (ds_world d)) \<longrightarrow> (\<exists>t' \<ge> t. caught_up clk t' (snd y))"
      and result: "(case po_done q d of Some err \<Rightarrow> Some ((n, Some err), d)
        | None \<Rightarrow> (case claim_and_process q d of (Inl err, d) \<Rightarrow> Some ((n, Some err), d)
          | (Inr claimed, d) \<Rightarrow> if claimed < po_batch q then Some ((i64 (n + claimed), None), d)
              else loop q (i64 (n + claimed)) d)) = Some y"
    show "q = p \<longrightarrow> snd (fst y) = None \<longrightarrow> desk_ok parse d \<longrightarrow> t \<le> ts (clk (ds_world d)) \<longrightarrow> (\<exists>t' \<ge> t. caught_up clk t' (snd y))"
    proof (intro impI)
      assume prems: "q = p" "snd (fst y) = None" "desk_ok parse d" "t \<le> ts (clk (ds_world d))"
      obtain x c where x: "st_claim (po_store p) (po_batch p) d = (x, c)" by (cases "st_claim (po_store p) (po_batch p) d")
      from result prems x obtain rows where rows: "x = Inr rows"
        and body: "(if int (length rows) < 50 then Some ((i64 (n + int (length rows)), None), fold (deliver p) rows c)
          else loop p (i64 (n + int (length rows))) (fold (deliver p) rows c)) = Some y"
        by (auto simp: claim_and_process_def parts(3) split: option.splits sum.splits if_splits)
      have same: "ds_world c = ds_world d" using x rows
        by (auto simp: parts billing_outbox_store_def billing_claim_batch_def split: prod.splits sum.splits)
      show "\<exists>t' \<ge> t. caught_up clk t' (snd y)"
      proof (cases "int (length rows) < 50")
        case True
        with short_claim [OF prems(3) x [unfolded rows] _ p] batch_caught_up [OF p fw] body prems(4) show ?thesis by fastforce
      next
        case False
        have "desk_ok parse (fold (deliver p) rows c)"
          using billing_worker.round_settles(1) [OF prems(3), of clk enc dec consumers cancelled rows c] x rows
          unfolding p poller_parts(1) [OF refl] by blast
        moreover have "t \<le> ts (clk (ds_world (fold (deliver p) rows c)))"
          using prems(4) ts_mono [OF clock_of_batch [OF p fw, of c rows]] same by simp
        ultimately show ?thesis using IH [of p "i64 (n + int (length rows))" "fold (deliver p) rows c" y] body False prems(2) by simp
      qed
    qed
  qed
  with assms(2-4) show ?thesis by blast
qed

text \<open>
  C35. When a drain of the billing outbox returns without an error, no row that is still to be delivered was
  due when it started: each was delivered, dead-lettered, or given a later attempt.
\<close>

theorem drain_leaves_nothing_due:
  assumes "drain (billing_poller clk parse enc dec consumers cancelled) d = Some ((n, None), d')"
    and "distinct (map oe_id (ds_table d))" "\<forall>e \<in> set (ds_table d). parse (oe_id e) = Some (oe_id e)"
    and "clock_forward clk (outbox_process dec consumers)"
  shows "\<forall>e \<in> set (ds_table d'). oe_pending e \<longrightarrow> ts (clk (ds_world d)) < oe_next e"
proof -
  let ?p = "billing_poller clk parse enc dec consumers cancelled"
  have "desk_ok parse d" using assms(2,3) by (simp add: desk_ok_def)
  moreover from assms(1) have "drain_loop ?p 0 d = Some ((n, None), d')"
    by (auto simp: drain_def poller_parts(2) [OF refl] split: option.splits)
  ultimately obtain t where "ts (clk (ds_world d)) \<le> t" "caught_up clk t d'"
    using drain_loop_caught_up [OF _ _ _ order_refl refl assms(4)] by fastforce
  then show ?thesis by (fastforce simp: caught_up_def)
qed

lemma drain_leaves_nothing_due_witness:
  "\<exists>d'. drain (billing_poller (\<lambda>w::int. w) Some Inr Inr [\<lambda>e w. (Some err_permanent, w)] (\<lambda>w. None))
     \<lparr>ds_table = [\<lparr>oe_id = ''a'', oe_payload = \<lparr>ev_id = [], ev_topic = ''t'', ev_payload = ()\<rparr>, oe_attempts = 0,
       oe_next = 0, oe_processed = None, oe_dead = None, oe_error = None\<rparr>], ds_world = 0\<rparr> = Some ((1, None), d') \<and>
     (\<forall>e \<in> set (ds_table d'). oe_pending e \<longrightarrow> 0 < oe_next e)"
proof -
  let ?d = "\<lparr>ds_table = [\<lparr>oe_id = ''a'', oe_payload = \<lparr>ev_id = [], ev_topic = ''t'', ev_payload = ()\<rparr>, oe_attempts = 0,
       oe_next = 0, oe_processed = None, oe_dead = None, oe_error = None\<rparr>], ds_world = 0::int\<rparr>"
  let ?p = "billing_poller (\<lambda>w::int. w) Some Inr Inr [\<lambda>e w. (Some err_permanent, w)] (\<lambda>w. None)"
  have parts: "fst (claim_and_process ?p ?d) = Inr 1" "po_done ?p ?d = None" "po_batch ?p = 50" "po_observer ?p = None"
    by code_simp+
  then obtain d' where d': "claim_and_process ?p ?d = (Inr 1, d')" by (cases "claim_and_process ?p ?d") simp
  have "drain_loop ?p 0 ?d = Some ((1, None), d')"
    by (subst drain_loop.simps) (simp only: parts d' option.case prod.case sum.case in_i64_def, simp add: in_i64_def)
  then have result: "drain ?p ?d = Some ((1, None), d')" by (simp only: drain_def parts option.case option.map prod.case)
  have "\<forall>e \<in> set (ds_table d'). oe_pending e \<longrightarrow> ts (ds_world ?d) < oe_next e"
    by (rule drain_leaves_nothing_due [OF result]) (simp_all add: clock_forward_def outbox_process_def)
  then show ?thesis using result by (intro exI [of _ d']) (simp add: ts_def)
qed

section \<open>The retry budget\<close>

text \<open>
  C36. Claiming counts the delivery and the failure counts it again: a row whose deliveries fail waits
  after its \<open>k\<close>-th delivery as if it were the \<open>k + 1\<close>-th, and is dead-lettered after its ninth, where
  \<open>DefaultMaxAttempts\<close> grants ten.
\<close>

theorem retry_budget_one_short:
  assumes "oe_pending e" "oe_next e \<le> ts (clk w)" "oe_attempts e = k - 1" "1 \<le> k" "k < 100"
    and "parse (oe_id e) = Some (oe_id e)" "enc (oe_payload e) = Inr q"
    and "\<And>r. outbox_process dec consumers r w = (Some err, w)"
    and "\<not> errors_is_pkg err ''outbox: permanent failure, do not retry''"
  shows "\<exists>e'. claim_and_process (billing_poller clk parse enc dec consumers cancelled) \<lparr>ds_table = [e], ds_world = w\<rparr> =
      (Inr 1, \<lparr>ds_table = [e'], ds_world = w\<rparr>) \<and>
    oe_attempts e' = k \<and> oe_processed e' = None \<and>
    (if 9 \<le> k then oe_dead e' = Some (ts (clk w))
     else oe_dead e' = None \<and>
       oe_next e' = ts (clk w + backoff (billing_poller clk parse enc dec consumers cancelled) (k + 1)))"
proof -
  let ?p = "billing_poller clk parse enc dec consumers cancelled"
  let ?e = "e\<lparr>oe_attempts := oe_attempts e + 1, oe_next := ts (clk w) + outbox_visibility_timeout\<rparr>"
  let ?d = "\<lparr>ds_table = [?e], ds_world = w\<rparr>"
  let ?r = "\<lparr>ow_id = oe_id e, ow_payload = q, ow_attempts = k, ow_lease = None\<rparr>"
  note parts = poller_parts [of ?p, OF refl]
  have "in_i32 k" using assms(4,5) by (simp add: in_i32_def)
  then have claim: "st_claim (po_store ?p) (po_batch ?p) \<lparr>ds_table = [e], ds_world = w\<rparr> = (Inr [?r], ?d)"
    using assms(1-3,7)
    by (simp add: parts billing_outbox_store_def billing_claim_batch_def claim_outbox_batch_def due_ids_def in_i32_def Let_def)
  have "in_i64 (k + 1)" using assms(4,5) by (simp add: in_i64_def)
  then have "deliver ?p ?r ?d = (if 9 \<le> k then ?d\<lparr>ds_table := [?e\<lparr>oe_dead := Some (ts (clk w)), oe_error := Some (truncate_text (error_text err))\<rparr>]\<rparr>
      else ?d\<lparr>ds_table := [?e\<lparr>oe_next := ts (clk w + backoff ?p (k + 1)), oe_error := Some (truncate_text (error_text err))\<rparr>]\<rparr>)"
    using assms(6,8,9)
    by (simp add: deliver_def renew_row_def parts at_desk_def record_failure_def store_defs observe_def time_add_def Let_def)
  with claim assms(1,3) show ?thesis
    by (simp add: claim_and_process_def oe_pending_def)
qed

lemma retry_budget_one_short_witness:
  "\<exists>e'. claim_and_process (billing_poller (\<lambda>w::int. w) Some Inr Inr [\<lambda>e w. (Some (Panic ''x''), w)] (\<lambda>w. None))
     \<lparr>ds_table = [\<lparr>oe_id = ''a'', oe_payload = \<lparr>ev_id = [], ev_topic = ''t'', ev_payload = ()\<rparr>, oe_attempts = 8,
       oe_next = 0, oe_processed = None, oe_dead = None, oe_error = None\<rparr>], ds_world = 0\<rparr> =
     (Inr 1, \<lparr>ds_table = [e'], ds_world = 0\<rparr>) \<and> oe_dead e' = Some 0"
proof -
  let ?e = "\<lparr>oe_id = ''a'', oe_payload = \<lparr>ev_id = [], ev_topic = ''t'', ev_payload = ()\<rparr>, oe_attempts = 8,
       oe_next = 0, oe_processed = None, oe_dead = None, oe_error = None\<rparr>"
  have "oe_pending ?e" by (simp add: oe_pending_def)
  from retry_budget_one_short [OF this, where clk = "\<lambda>w::int. w" and w = 0 and k = 9 and parse = Some and enc = Inr
      and q = "oe_payload ?e" and dec = Inr and consumers = "[\<lambda>e w. (Some (Panic ''x''), w)]" and err = "Panic ''x''"
      and cancelled = "\<lambda>w. None"]
  show ?thesis by (auto simp: outbox_process_def ts_def)
qed

end
