(* ===== verification/Outbox_Lease.thy ===== *)
theory Outbox_Lease
  imports Outbox
begin

text \<open>
  The leases of the notification outbox (\<open>meetup/repository/outbox_postgres.go\<close>): several
  instances claim, renew, deliver and mark rows of one table. \<open>lease_step\<close> interleaves their SQL
  statements; each runs at a time of its own. The second half is the user's list of notifications and what a
  late failure does to it.
\<close>

section \<open>Several claimers\<close>

text \<open>
  A token is a claimer's memory of one row: its id and the stamp its last claim or renewal wrote.
  A claimer that crashes keeps its tokens and never uses them.
\<close>

record 'p lease_state =
  le_table :: "'p outbox_entry list"
  le_now :: instant
  le_tokens :: "(nat \<times> uuid \<times> instant) set"

inductive lease_step :: "'p lease_state \<Rightarrow> 'p lease_state \<Rightarrow> bool" where
  later: "ts (le_now s) < ts t \<Longrightarrow> lease_step s (s\<lparr>le_now := t\<rparr>)"
| enqueue: "oe_id e \<notin> oe_id ` set (le_table s) \<Longrightarrow> lease_step s (s\<lparr>le_table := le_table s @ [e]\<rparr>)"
| claim: "claim_outbox_batch outbox_visibility_timeout n (ts (le_now s)) (le_table s) = (Inr rows, es) \<Longrightarrow> ts (le_now s) < ts t \<Longrightarrow>
    lease_step s (s\<lparr>le_table := es, le_now := t, le_tokens := le_tokens s \<union> (\<lambda>e. (c, oe_id e, oe_next e)) ` set rows\<rparr>)"
| renewed: "(c, i, l) \<in> le_tokens s \<Longrightarrow> renew_claim outbox_visibility_timeout i l (ts (le_now s)) (le_table s) = (Some l', es) \<Longrightarrow>
    ts (le_now s) < ts t \<Longrightarrow>
    lease_step s (s\<lparr>le_table := es, le_now := t, le_tokens := insert (c, i, l') (le_tokens s - {(c, i, l)})\<rparr>)"
| skipped: "(c, i, l) \<in> le_tokens s \<Longrightarrow> renew_claim outbox_visibility_timeout i l (ts (le_now s)) (le_table s) = (None, es) \<Longrightarrow>
    lease_step s (s\<lparr>le_tokens := le_tokens s - {(c, i, l)}\<rparr>)"
| processed: "(c, i, l) \<in> le_tokens s \<Longrightarrow> mark_processed_leased i l (ts (le_now s)) (le_table s) = (n, es) \<Longrightarrow>
    lease_step s (s\<lparr>le_table := es, le_tokens := le_tokens s - {(c, i, l)}\<rparr>)"
| failed: "(c, i, l) \<in> le_tokens s \<Longrightarrow>
    lease_step s (s\<lparr>le_table := mark_outbox_failed i next_at err (le_table s), le_tokens := le_tokens s - {(c, i, l)}\<rparr>)"
| dead: "(c, i, l) \<in> le_tokens s \<Longrightarrow>
    lease_step s (s\<lparr>le_table := mark_outbox_dead i (ts (le_now s)) err (le_table s), le_tokens := le_tokens s - {(c, i, l)}\<rparr>)"

inductive_cases lease_step_cases: "lease_step s s'"

definition lease_start :: "instant \<Rightarrow> 'p lease_state" where
  "lease_start now = \<lparr>le_table = [], le_now = now, le_tokens = {}\<rparr>"

inductive lease_reachable :: "instant \<Rightarrow> 'p lease_state \<Rightarrow> bool" for now where
  start: "lease_reachable now (lease_start now)"
| step: "lease_reachable now s \<Longrightarrow> lease_step s s' \<Longrightarrow> lease_reachable now s'"

text \<open>A stamp names one claimer: every new one is later than all before it.\<close>

definition stamps_ok :: "'p lease_state \<Rightarrow> bool" where
  "stamps_ok s \<longleftrightarrow> distinct (map oe_id (le_table s)) \<and>
     (\<forall>c i l. (c, i, l) \<in> le_tokens s \<longrightarrow> l < ts (le_now s) + outbox_visibility_timeout) \<and>
     (\<forall>c c' i l. (c, i, l) \<in> le_tokens s \<longrightarrow> (c', i, l) \<in> le_tokens s \<longrightarrow> c = c')"

lemma ids_update: "(\<And>e. oe_id (f e) = oe_id e) \<Longrightarrow> map oe_id (update_where P f es) = map oe_id es"
  by (induction es) auto

lemma claimed_stamp:
  assumes "claim_outbox_batch timeout n now es = (Inr rows, es')"
  shows "map oe_id es' = map oe_id es" "\<forall>e \<in> set rows. oe_next e = now + timeout"
  using assms
  by (auto simp: claim_outbox_batch_def Let_def ids_update set_update_where split: if_splits)

lemma stamps_ok_less:
  assumes "stamps_ok s" "distinct (map oe_id (le_table s'))" "ts (le_now s) \<le> ts (le_now s')" "le_tokens s' \<subseteq> le_tokens s"
  shows "stamps_ok s'"
proof -
  have "l < ts (le_now s') + outbox_visibility_timeout" if "(c, i, l) \<in> le_tokens s'" for c i l
  proof -
    from that assms(4) have "(c, i, l) \<in> le_tokens s" by blast
    with assms(1) have "l < ts (le_now s) + outbox_visibility_timeout" by (auto simp: stamps_ok_def)
    with assms(3) show ?thesis by simp
  qed
  moreover have "\<forall>c c' i l. (c, i, l) \<in> le_tokens s' \<longrightarrow> (c', i, l) \<in> le_tokens s' \<longrightarrow> c = c'"
    using assms(1,4) unfolding stamps_ok_def by blast
  ultimately show ?thesis using assms(2) unfolding stamps_ok_def by blast
qed

lemma stamps_step:
  assumes "lease_step s s'" "stamps_ok s"
  shows "stamps_ok s'"
  using assms
proof (cases rule: lease_step.cases)
  case (claim n rows es t c)
  note stamp = claimed_stamp [OF claim(2)]
  have old: "l < ts (le_now s) + outbox_visibility_timeout" if "(a, i, l) \<in> le_tokens s" for a i l
    using assms(2) that by (simp add: stamps_ok_def)
  have new: "l = ts (le_now s) + outbox_visibility_timeout" if "(a, i, l) \<in> (\<lambda>e. (c, oe_id e, oe_next e)) ` set rows" for a i l
    using that stamp(2) by auto
  have "distinct (map oe_id es)" using assms(2) stamp(1) by (simp add: stamps_ok_def)
  moreover have "l < ts t + outbox_visibility_timeout" if "(a, i, l) \<in> le_tokens s'" for a i l
    using that old [of a i l] new [of a i l] claim(1,3) by auto
  moreover have "a = a'" if "(a, i, l) \<in> le_tokens s'" "(a', i, l) \<in> le_tokens s'" for a a' i l
  proof (cases "(a, i, l) \<in> le_tokens s \<and> (a', i, l) \<in> le_tokens s")
    case True
    with assms(2) show ?thesis unfolding stamps_ok_def by blast
  next
    case False
    from that have "(b, i, l) \<in> le_tokens s \<or> (b, i, l) \<in> (\<lambda>e. (c, oe_id e, oe_next e)) ` set rows" if "b \<in> {a, a'}" for b
      using that claim(1) by auto
    then have one: "(b, i, l) \<in> le_tokens s \<or> b = c \<and> l = ts (le_now s) + outbox_visibility_timeout" if "b \<in> {a, a'}" for b
      using that new [of b i l] by blast
    with False old [of a i l] old [of a' i l] show ?thesis by (metis insertI1 insertI2 less_irrefl)
  qed
  ultimately show ?thesis using claim(1) by (simp add: stamps_ok_def)
next
  case (renewed c i l l' es t)
  from renewed(3) have l': "l' = ts (le_now s) + outbox_visibility_timeout" and ids: "map oe_id es = map oe_id (le_table s)"
    by (auto simp: renew_claim_def Let_def ids_update split: if_splits)
  have old: "x < l'" if "(a, j, x) \<in> le_tokens s" for a j x
    using assms(2) that unfolding l' stamps_ok_def by blast
  have "x < ts (le_now s') + outbox_visibility_timeout" if "(a, j, x) \<in> le_tokens s'" for a j x
    using that old [of a j x] l' renewed(1,4) by auto
  moreover have "a = a'" if "(a, j, x) \<in> le_tokens s'" "(a', j, x) \<in> le_tokens s'" for a a' j x
  proof (cases "(a, j, x) \<in> le_tokens s \<and> (a', j, x) \<in> le_tokens s")
    case True
    with assms(2) show ?thesis unfolding stamps_ok_def by blast
  next
    case False
    have "(b, j, x) \<in> le_tokens s \<or> b = c \<and> x = l'" if "b \<in> {a, a'}" for b
      using that \<open>(a, j, x) \<in> le_tokens s'\<close> \<open>(a', j, x) \<in> le_tokens s'\<close> renewed(1) by auto
    with False old [of a j x] old [of a' j x] show ?thesis by (metis insertI1 insertI2 less_irrefl)
  qed
  moreover have "distinct (map oe_id (le_table s'))" using renewed(1) ids assms(2) unfolding stamps_ok_def by simp
  ultimately show ?thesis unfolding stamps_ok_def by blast
next
  case (later t)
  with assms(2) show ?thesis by (intro stamps_ok_less [OF assms(2)]) (auto simp: stamps_ok_def)
next
  case (enqueue e)
  with assms(2) show ?thesis by (intro stamps_ok_less [OF assms(2)]) (auto simp: stamps_ok_def)
next
  case (skipped c i l es)
  with assms(2) show ?thesis by (intro stamps_ok_less [OF assms(2)]) (auto simp: stamps_ok_def)
next
  case (processed c i l n es)
  from processed(3) have "map oe_id es = map oe_id (le_table s)"
    by (auto simp: mark_processed_leased_def Let_def ids_update)
  with processed(1) assms(2) show ?thesis by (intro stamps_ok_less [OF assms(2)]) (auto simp: stamps_ok_def)
next
  case (failed c i l next_at err)
  have "map oe_id (mark_outbox_failed i next_at err (le_table s)) = map oe_id (le_table s)"
    by (simp add: mark_outbox_failed_def ids_update)
  with failed(1) assms(2) show ?thesis by (intro stamps_ok_less [OF assms(2)]) (auto simp: stamps_ok_def)
next
  case (dead c i l err)
  have "map oe_id (mark_outbox_dead i (ts (le_now s)) err (le_table s)) = map oe_id (le_table s)"
    by (simp add: mark_outbox_dead_def ids_update)
  with dead(1) assms(2) show ?thesis by (intro stamps_ok_less [OF assms(2)]) (auto simp: stamps_ok_def)
qed

lemma reachable_stamps: "lease_reachable start s \<Longrightarrow> stamps_ok s"
  by (induction rule: lease_reachable.induct) (simp add: lease_start_def stamps_ok_def, blast intro: stamps_step)

text \<open>A claimer holds a row while the row still carries the stamp the claimer wrote.\<close>

definition holds :: "'p lease_state \<Rightarrow> nat \<Rightarrow> uuid \<Rightarrow> bool" where
  "holds s c i \<longleftrightarrow> (\<exists>l e. (c, i, l) \<in> le_tokens s \<and> e \<in> set (le_table s) \<and> oe_id e = i \<and> oe_next e = l)"

text \<open>
  C37. However claims, renewals, deliveries, failures and crashes of any number of instances interleave,
  at most one of them holds a row: a renewal or a leased mark by any other one finds nothing.
\<close>

theorem lease_exclusive:
  assumes "lease_reachable start s" "holds s c i" "(c', i, l) \<in> le_tokens s" "c' \<noteq> c"
  shows "fst (renew_claim outbox_visibility_timeout i l (ts (le_now s)) (le_table s)) = None \<and>
    fst (mark_processed_leased i l (ts (le_now s)) (le_table s)) = 0 \<and> \<not> holds s c' i"
proof -
  have ok: "stamps_ok s" by (rule reachable_stamps [OF assms(1)])
  from assms(2) obtain k e where k: "(c, i, k) \<in> le_tokens s" and e: "e \<in> set (le_table s)" "oe_id e = i" "oe_next e = k"
    by (auto simp: holds_def)
  have only: "x = e" if "x \<in> set (le_table s)" "oe_id x = i" for x
    using ok that e by (simp add: stamps_ok_def distinct_map inj_on_def)
  have differ: "k \<noteq> m" if "(c', i, m) \<in> le_tokens s" for m
    using ok k that assms(4) unfolding stamps_ok_def by blast
  with only e assms(3) have none: "\<forall>x \<in> set (le_table s). \<not> (oe_id x = i \<and> oe_next x = l)" by blast
  then have "fst (renew_claim outbox_visibility_timeout i l (ts (le_now s)) (le_table s)) = None"
    by (auto simp: renew_claim_def Let_def list_ex_iff)
  moreover from none have "fst (mark_processed_leased i l (ts (le_now s)) (le_table s)) = 0"
    by (simp add: mark_processed_leased_def Let_def filter_empty_conv)
  moreover have "\<not> holds s c' i" using only e differ by (fastforce simp: holds_def)
  ultimately show ?thesis by blast
qed

lemma lease_exclusive_witness:
  "\<exists>s :: unit lease_state. lease_reachable 0 s \<and> holds s 1 ''a'' \<and> (0, ''a'', 60 * second) \<in> le_tokens s \<and>
     fst (renew_claim outbox_visibility_timeout ''a'' (60 * second) (ts (le_now s)) (le_table s)) = None"
proof -
  let ?e = "\<lambda>n t. \<lparr>oe_id = ''a'', oe_payload = (), oe_attempts = n, oe_next = t, oe_processed = None, oe_dead = None, oe_error = None\<rparr>"
  let ?s1 = "\<lparr>le_table = [?e 0 0], le_now = 0, le_tokens = {}\<rparr>"
  let ?s2 = "\<lparr>le_table = [?e 1 (60 * second)], le_now = 60 * second, le_tokens = {(0, ''a'', 60 * second)}\<rparr>"
  let ?s3 = "\<lparr>le_table = [?e 2 (120 * second)], le_now = 61 * second, le_tokens = {(0, ''a'', 60 * second), (1, ''a'', 120 * second)}\<rparr>"
  have c1: "claim_outbox_batch outbox_visibility_timeout 50 (ts 0) [?e 0 0] = (Inr [?e 1 (60 * second)], [?e 1 (60 * second)])"
    by code_simp
  have c2: "claim_outbox_batch outbox_visibility_timeout 50 (ts (60 * second)) [?e 1 (60 * second)] =
      (Inr [?e 2 (120 * second)], [?e 2 (120 * second)])"
    by code_simp
  have "lease_step (lease_start 0) ?s1" using lease_step.enqueue [of "?e 0 0" "lease_start 0"] by (simp add: lease_start_def)
  moreover have "lease_step ?s1 ?s2"
    using lease_step.claim [of 50 ?s1 _ _ "60 * second" 0] c1 by (simp add: ts_def second_def)
  moreover have "lease_step ?s2 ?s3"
    using lease_step.claim [of 50 ?s2 _ _ "61 * second" 1] c2 by (simp add: ts_def second_def insert_commute)
  ultimately have r: "lease_reachable 0 ?s3" by (blast intro: lease_reachable.intros)
  have h: "holds ?s3 1 ''a''" by (auto simp: holds_def)
  from lease_exclusive [OF r h, of 0 "60 * second"]
  have "fst (renew_claim outbox_visibility_timeout ''a'' (60 * second) (ts (le_now ?s3)) (le_table ?s3)) = None" by simp
  with r h show ?thesis by (intro exI [of _ ?s3]) simp
qed

section \<open>The user's notifications\<close>

text \<open>What the notification outbox keeps beside the columns of every outbox.\<close>

record notification =
  nf_tokens :: "string list"
  nf_title :: string
  nf_body :: string
  nf_data :: string
  nf_user :: "uuid option"
  nf_created :: instant

record user_notification =
  un_id :: uuid
  un_title :: string
  un_body :: string
  un_data :: "string \<rightharpoonup> string"
  un_created :: instant
  un_delivered :: bool

definition list_notifications_rows ::
  "uuid \<Rightarrow> instant \<Rightarrow> nat \<Rightarrow> notification outbox_entry list \<Rightarrow> notification outbox_entry list" where
  "list_notifications_rows u since limit es =
     take limit (sort_key (\<lambda>e. - nf_created (oe_payload e))
       (filter (\<lambda>e. nf_user (oe_payload e) = Some u \<and> since \<le> nf_created (oe_payload e) \<and> oe_dead e = None) es))"

text \<open>\<open>ListForUser\<close>; \<open>decode\<close> is \<open>json.Unmarshal\<close> of the data column, whose failure is ignored.\<close>

definition list_for_user ::
  "(string \<Rightarrow> uuid option) \<Rightarrow> (string \<Rightarrow> (string \<rightharpoonup> string) option) \<Rightarrow> string \<Rightarrow> instant \<Rightarrow> nat \<Rightarrow>
    notification outbox_entry list \<Rightarrow> go_error + user_notification list" where
  "list_for_user parse decode user since limit es =
     (case parse user of
        None \<Rightarrow> Inl (wrap1 (''repository: invalid user id \"'' @ user @ ''\"'') ErrInvalidInput)
      | Some u \<Rightarrow> Inr (map (\<lambda>e. \<lparr>un_id = oe_id e, un_title = nf_title (oe_payload e), un_body = nf_body (oe_payload e),
            un_data = (case decode (nf_data (oe_payload e)) of None \<Rightarrow> Map.empty | Some m \<Rightarrow> m),
            un_created = nf_created (oe_payload e), un_delivered = (oe_processed e \<noteq> None)\<rparr>)
          (list_notifications_rows u (ts since) limit es)))"

text \<open>
  C38. The mark of a failure does not check the lease: when a claimer that lost a row fails late on what
  it counts as the ninth attempt or more, the row that another claimer delivered and marked processed is
  dead-lettered after all, and the delivered notification vanishes from the user's list.
\<close>

theorem late_failure_hides_delivered:
  assumes "e \<in> set (ds_table d)" "oe_processed e = Some t" "oe_id e = ow_id row" "parse (ow_id row) = Some (ow_id row)"
    and "9 \<le> ow_attempts row" "in_i32 (ow_attempts row)"
    and "p = new_poller (notification_outbox_store clk parse enc) process now cancelled"
  shows "(\<exists>e' \<in> set (ds_table (record_failure p row err d)).
      oe_id e' = oe_id e \<and> oe_payload e' = oe_payload e \<and> oe_processed e' = Some t \<and> oe_dead e' = Some (ts (clk (ds_world d)))) \<and>
    (\<forall>es. list_for_user parse decode user since limit (ds_table (record_failure p row err d)) = Inr es \<longrightarrow>
      oe_id e \<notin> un_id ` set es)"
proof -
  have "i64 (ow_attempts row + 1) \<ge> 10"
    using assms(5,6) by (subst i64_id) (auto simp: in_i32_def in_i64_def)
  then have after: "ds_table (record_failure p row err d) =
      mark_outbox_dead (ow_id row) (ts (clk (ds_world d))) (text_or_null (truncate_error (error_text err))) (ds_table d)"
    using assms(4,7)
    by (simp add: record_failure_def new_poller_def notification_outbox_store_def with_id_def on_table_def observe_def
        default_max_attempts_def Let_def)
  let ?dead = "\<lambda>x. x\<lparr>oe_dead := Some (ts (clk (ds_world d))), oe_error := text_or_null (truncate_error (error_text err))\<rparr>"
  have "?dead e \<in> set (ds_table (record_failure p row err d))"
    unfolding after mark_outbox_dead_def set_update_where using assms(1,3) by blast
  moreover have gone: "oe_dead x \<noteq> None" if "x \<in> set (ds_table (record_failure p row err d))" "oe_id x = oe_id e" for x
    using that assms(3) unfolding after mark_outbox_dead_def set_update_where by auto
  moreover have "oe_id e \<notin> un_id ` set es"
    if "list_for_user parse decode user since limit (ds_table (record_failure p row err d)) = Inr es" for es
  proof
    assume "oe_id e \<in> un_id ` set es"
    with that obtain x u where "oe_id x = oe_id e"
        "x \<in> set (list_notifications_rows u (ts since) limit (ds_table (record_failure p row err d)))"
      by (auto simp: list_for_user_def split: option.splits)
    moreover from in_set_takeD [OF this(2) [unfolded list_notifications_rows_def]]
    have "x \<in> set (ds_table (record_failure p row err d))" "oe_dead x = None" by simp_all
    ultimately show False using gone by blast
  qed
  ultimately show ?thesis using assms(2) by (intro conjI bexI [of _ "?dead e"]) auto
qed

lemma late_failure_hides_delivered_witness:
  "\<not> (\<exists>es. list_for_user Some (\<lambda>s. None) ''u'' 0 50 (ds_table (record_failure
     (new_poller (notification_outbox_store (\<lambda>w::int. w) Some Inr) (\<lambda>r d. (Some err_permanent, d)) ds_world (\<lambda>d. None))
     \<lparr>ow_id = ''a'', ow_payload = \<lparr>nf_tokens = [], nf_title = [], nf_body = [], nf_data = [], nf_user = Some ''u'', nf_created = 1\<rparr>,
       ow_attempts = 9, ow_lease = Some 60\<rparr> (Panic ''x'')
     \<lparr>ds_table = [\<lparr>oe_id = ''a'', oe_payload = \<lparr>nf_tokens = [], nf_title = [], nf_body = [], nf_data = [], nf_user = Some ''u'',
       nf_created = 1\<rparr>, oe_attempts = 10, oe_next = 0, oe_processed = Some 5, oe_dead = None, oe_error = None\<rparr>], ds_world = 0\<rparr>)) = Inr es \<and>
     ''a'' \<in> un_id ` set es)"
proof -
  let ?n = "\<lparr>nf_tokens = [], nf_title = [], nf_body = [], nf_data = [], nf_user = Some ''u'', nf_created = 1\<rparr>"
  let ?e = "\<lparr>oe_id = ''a'', oe_payload = ?n, oe_attempts = 10, oe_next = 0, oe_processed = Some 5, oe_dead = None, oe_error = None\<rparr>"
  let ?row = "\<lparr>ow_id = ''a'', ow_payload = ?n, ow_attempts = 9, ow_lease = Some 60\<rparr>"
  have "in_i32 9" by (simp add: in_i32_def)
  then show ?thesis
    using late_failure_hides_delivered [OF _ _ _ _ _ _ refl, of ?e "\<lparr>ds_table = [?e], ds_world = 0::int\<rparr>" 5 ?row Some "\<lambda>w. w" Inr
        "\<lambda>r d. (Some err_permanent, d)" ds_world "\<lambda>d. None" "Panic ''x''" "\<lambda>s. None" "''u''" 0 50] by simp
qed

end
