(* ===== verification/Geo.thy ===== *)
theory Geo
  imports AppError Complex_Main
begin

text \<open>
  \<open>platform/geo\<close>. A Go \<open>float64\<close> is a finite value, an infinity or not a number; the finite
  values are rationals. Distances are PostGIS's, an argument where they are used.
\<close>

datatype float64 = NaN | PosInf | NegInf | Finite rat

definition browse_radius_meters :: int where "browse_radius_meters = 50000"
definition browse_radius_km :: int where "browse_radius_km = browse_radius_meters div 1000"
definition location_fresh_for :: duration where "location_fresh_for = 24 * hour"

definition is_nan :: "float64 \<Rightarrow> bool" where "is_nan x \<longleftrightarrow> x = NaN"
definition is_inf :: "float64 \<Rightarrow> bool" where "is_inf x \<longleftrightarrow> x = PosInf \<or> x = NegInf"

fun float_less :: "float64 \<Rightarrow> float64 \<Rightarrow> bool" where
  "float_less (Finite a) (Finite b) = (a < b)"
| "float_less NegInf PosInf = True"
| "float_less NegInf (Finite b) = True"
| "float_less (Finite a) PosInf = True"
| "float_less _ _ = False"

text \<open>\<open>fmt\<close> is the \<open>%v\<close> of a float.\<close>

definition validate_lat_lng :: "(float64 \<Rightarrow> string) \<Rightarrow> float64 \<Rightarrow> float64 \<Rightarrow> go_error option" where
  "validate_lat_lng fmt lat lng =
     (if is_nan lat \<or> is_nan lng then Some (PkgError ''latitude/longitude must not be NaN'')
      else if is_inf lat \<or> is_inf lng then Some (PkgError ''latitude/longitude must be finite'')
      else if lat = Finite 0 \<and> lng = Finite 0
      then Some (PkgError ''latitude/longitude of exactly (0, 0) is not a real location; this usually means a location fix was never acquired'')
      else if float_less lat (Finite (- 90)) \<or> float_less (Finite 90) lat
      then Some (PkgError (''latitude '' @ fmt lat @ '' out of range [-90, 90]''))
      else if float_less lng (Finite (- 180)) \<or> float_less (Finite 180) lng
      then Some (PkgError (''longitude '' @ fmt lng @ '' out of range [-180, 180]''))
      else None)"

lemma validate_lat_lng_accepts:
  "validate_lat_lng fmt lat lng = None \<longleftrightarrow>
     (\<exists>a b. lat = Finite a \<and> lng = Finite b \<and> - 90 \<le> a \<and> a \<le> 90 \<and> - 180 \<le> b \<and> b \<le> 180 \<and> (a \<noteq> 0 \<or> b \<noteq> 0))"
  by (cases lat; cases lng) (auto simp: validate_lat_lng_def is_nan_def is_inf_def)

end
