(* ===== verification/Meetup_Db.thy ===== *)
theory Meetup_Db
  imports Geo Outbox_Lease
begin

text \<open>
  The \<open>meetup\<close> schema (migrations 0002 to 0035) as one record per table, and the statements of
  \<open>meetup/repository/sqlcgen\<close> that create, move and end meetups and the requests to join them. \<open>now\<close> is
  the transaction's time, a whole number of microseconds. A row's \<open>location\<close> is what a trigger derives from its
  coordinates, so it is no column here.
\<close>

section \<open>Rows\<close>

datatype meetup_status = MOpen | MFull | MCancelled | MCompleted

datatype request_status = Pending | Accepted | Rejected | Withdrawn

record meetup_row =
  m_id :: uuid
  m_host :: uuid
  m_intent :: string
  m_lat :: float64
  m_lng :: float64
  m_label :: string
  m_capacity :: int
  m_status :: meetup_status
  m_created_at :: instant
  m_cancelled_at :: "instant option"
  m_start :: instant
  m_end :: instant
  m_closed_at :: "instant option"
  m_reason :: "string option"
  m_soon_at :: "instant option"
  m_key :: "string option"
  m_hold :: "uuid option"
  m_hash :: "string option"

record request_row =
  q_id :: uuid
  q_meetup :: uuid
  q_requester :: uuid
  q_status :: request_status
  q_auto :: bool
  q_created_at :: instant
  q_resolved_at :: "instant option"
  q_note :: "string option"

record display_row =
  di_user :: uuid
  di_name :: string
  di_photo :: "string option"
  di_trust :: int
  di_updated :: instant

record rating_row =
  ra_id :: uuid
  ra_meetup :: uuid
  ra_rater :: uuid
  ra_rated :: uuid
  ra_score :: int
  ra_created :: instant
  ra_traits :: "string list"

record feedback_row =
  fb_meetup :: uuid
  fb_user :: uuid
  fb_happened :: bool
  fb_safe :: "bool option"
  fb_accurate :: "bool option"
  fb_again :: "bool option"
  fb_submitted :: instant
  fb_notes :: "string option"
  fb_score :: "int option"
  fb_reviewed :: "instant option"

record safety_row =
  sa_meetup :: uuid
  sa_user :: uuid
  sa_ack_at :: "instant option"
  sa_checked_at :: "instant option"
  sa_declined_at :: "instant option"
  sa_reason :: "string option"

record share_row =
  sh_meetup :: uuid
  sh_user :: uuid
  sh_contact :: uuid
  sh_at :: instant

record token_row =
  to_user :: uuid
  to_fcm :: string

record location_row =
  lo_user :: uuid
  lo_lat :: float64
  lo_lng :: float64
  lo_updated :: instant

record tier_row =
  ti_user :: uuid
  ti_tier :: string
  ti_entitled :: bool
  ti_updated :: instant

text \<open>The events the module queues for the billing and the analytics module.\<close>

record billing_event =
  be_topic :: string
  be_meetup :: uuid
  be_host :: uuid
  be_hold :: uuid
  be_accepted :: int
  be_start :: instant
  be_ended :: "instant option"

record activity_event =
  ac_topic :: string
  ac_request :: uuid
  ac_meetup :: uuid
  ac_requester :: uuid
  ac_host :: uuid
  ac_at :: instant

record meetup_db =
  meetups :: "meetup_row list"
  requests :: "request_row list"
  displays :: "display_row list"
  ratings :: "rating_row list"
  feedbacks :: "feedback_row list"
  safety_states :: "safety_row list"
  safety_shares :: "share_row list"
  device_tokens :: "token_row list"
  locations :: "location_row list"
  tiers :: "tier_row list"
  billing_queue :: "billing_event outbox_entry list"
  activity_queue :: "activity_event outbox_entry list"
  completed_queue :: "uuid list outbox_entry list"
  notices_queue :: "notification outbox_entry list"

definition empty_meetup_db :: meetup_db where
  "empty_meetup_db = \<lparr>meetups = [], requests = [], displays = [], ratings = [], feedbacks = [],
     safety_states = [], safety_shares = [], device_tokens = [], locations = [], tiers = [],
     billing_queue = [], activity_queue = [], completed_queue = [], notices_queue = []\<rparr>"

text \<open>What PostgreSQL answers when a write breaks a unique index (23505) or a check (23514).\<close>

definition unique_violation :: go_error where
  "unique_violation = PkgError ''SQLSTATE 23505''"

definition check_violation :: go_error where
  "check_violation = PkgError ''SQLSTATE 23514''"

definition foreign_key_violation :: go_error where
  "foreign_key_violation = PkgError ''SQLSTATE 23503''"

definition bad_enum :: go_error where
  "bad_enum = PkgError ''SQLSTATE 22P02''"

definition is_pg_error :: "go_error \<Rightarrow> go_error \<Rightarrow> bool" where
  "is_pg_error code err \<longleftrightarrow> (case code of PkgError s \<Rightarrow> errors_is_pkg err s | _ \<Rightarrow> False)"

section \<open>A transaction\<close>

record mtx =
  x_db :: meetup_db
  x_now :: instant
  x_uuids :: "nat \<Rightarrow> uuid"
  x_drawn :: nat

definition draw_id :: "mtx \<Rightarrow> uuid \<times> mtx" where
  "draw_id t = (x_uuids t (x_drawn t), t\<lparr>x_drawn := Suc (x_drawn t)\<rparr>)"

definition run_tx ::
  "instant \<Rightarrow> (nat \<Rightarrow> uuid) \<Rightarrow> (mtx \<Rightarrow> 'e + ('a \<times> mtx)) \<Rightarrow> meetup_db \<Rightarrow> ('e + 'a) \<times> meetup_db" where
  "run_tx now uuids fn db =
     (case fn \<lparr>x_db = db, x_now = ts now, x_uuids = uuids, x_drawn = 0\<rparr> of
        Inl e \<Rightarrow> (Inl e, db) | Inr (x, t) \<Rightarrow> (Inr x, x_db t))"

text \<open>A row appended to one of the outbox tables.\<close>

definition outbox_insert :: "'p \<Rightarrow> uuid \<Rightarrow> instant \<Rightarrow> 'p outbox_entry list \<Rightarrow> go_error + 'p outbox_entry list" where
  "outbox_insert p i now es =
     (if list_ex (\<lambda>e. oe_id e = i) es then Inl unique_violation
      else Inr (es @ [\<lparr>oe_id = i, oe_payload = p, oe_attempts = 0, oe_next = now, oe_processed = None,
        oe_dead = None, oe_error = None\<rparr>]))"

definition insert_billing_event :: "billing_event \<Rightarrow> mtx \<Rightarrow> go_error + mtx" where
  "insert_billing_event p t = (let (i, t) = draw_id t in
     res_bind (outbox_insert p i (x_now t) (billing_queue (x_db t)))
       (\<lambda>es. Inr (t\<lparr>x_db := (x_db t)\<lparr>billing_queue := es\<rparr>\<rparr>)))"

definition insert_activity_event :: "activity_event \<Rightarrow> mtx \<Rightarrow> go_error + mtx" where
  "insert_activity_event p t = (let (i, t) = draw_id t in
     res_bind (outbox_insert p i (x_now t) (activity_queue (x_db t)))
       (\<lambda>es. Inr (t\<lparr>x_db := (x_db t)\<lparr>activity_queue := es\<rparr>\<rparr>)))"

definition enqueue_meetups_completed :: "uuid list \<Rightarrow> mtx \<Rightarrow> go_error + mtx" where
  "enqueue_meetups_completed p t = (let (i, t) = draw_id t in
     res_bind (outbox_insert p i (x_now t) (completed_queue (x_db t)))
       (\<lambda>es. Inr (t\<lparr>x_db := (x_db t)\<lparr>completed_queue := es\<rparr>\<rparr>)))"

definition enqueue_notification :: "notification \<Rightarrow> mtx \<Rightarrow> go_error + mtx" where
  "enqueue_notification p t = (let (i, t) = draw_id t in
     res_bind (outbox_insert (p\<lparr>nf_created := x_now t\<rparr>) i (x_now t) (notices_queue (x_db t)))
       (\<lambda>es. Inr (t\<lparr>x_db := (x_db t)\<lparr>notices_queue := es\<rparr>\<rparr>)))"

section \<open>Meetups\<close>

definition live :: "meetup_row \<Rightarrow> bool" where
  "live m \<longleftrightarrow> m_status m = MOpen \<or> m_status m = MFull"

definition intent_type :: "string list" where
  "intent_type = [''coffee'', ''lunch'', ''networking'', ''mentorship'', ''ride_share'', ''dating'', ''outing'']"

definition same_key :: "meetup_row \<Rightarrow> meetup_row \<Rightarrow> bool" where
  "same_key a b \<longleftrightarrow> m_host a = m_host b \<and> m_key a = m_key b \<and> m_key a \<noteq> None"

definition create_meetup_row :: "meetup_row \<Rightarrow> meetup_db \<Rightarrow> go_error + meetup_db" where
  "create_meetup_row m db =
     (if m_intent m \<notin> set intent_type then Inl bad_enum
      else if m_capacity m < 1 \<or> 30 < m_capacity m \<or> m_end m \<le> m_start m \<or>
        (case m_key m of None \<Rightarrow> False | Some k \<Rightarrow> k = [] \<or> 128 < length k) \<or>
        (case m_hash m of None \<Rightarrow> False | Some h \<Rightarrow> length h \<noteq> 64)
      then Inl check_violation
      else if list_ex (\<lambda>x. m_id x = m_id m \<or> same_key x m) (meetups db) then Inl unique_violation
      else Inr (db\<lparr>meetups := meetups db @ [m]\<rparr>))"

definition get_meetup :: "uuid \<Rightarrow> meetup_db \<Rightarrow> meetup_row option" where
  "get_meetup i db = find (\<lambda>m. m_id m = i) (meetups db)"

definition get_meetup_by_key :: "uuid \<Rightarrow> string option \<Rightarrow> meetup_db \<Rightarrow> meetup_row option" where
  "get_meetup_by_key host k db = find (\<lambda>m. m_host m = host \<and> m_key m = k \<and> k \<noteq> None) (meetups db)"

text \<open>\<open>UPDATE ... WHERE id = ... RETURNING\<close>: the row as written, when one matched.\<close>

definition update_meetup ::
  "(meetup_row \<Rightarrow> bool) \<Rightarrow> (meetup_row \<Rightarrow> meetup_row) \<Rightarrow> meetup_db \<Rightarrow> meetup_row option \<times> meetup_db" where
  "update_meetup p f db = (map_option f (find p (meetups db)), db\<lparr>meetups := update_where p f (meetups db)\<rparr>)"

definition cancel_meetup_row ::
  "uuid \<Rightarrow> string option \<Rightarrow> uuid \<Rightarrow> instant \<Rightarrow> meetup_db \<Rightarrow> meetup_row option \<times> meetup_db" where
  "cancel_meetup_row i reason host now = update_meetup (\<lambda>m. m_id m = i \<and> m_host m = host \<and> live m)
     (\<lambda>m. m\<lparr>m_status := MCancelled, m_cancelled_at := Some now, m_reason := reason\<rparr>)"

definition close_meetup_row :: "uuid \<Rightarrow> uuid \<Rightarrow> instant \<Rightarrow> meetup_db \<Rightarrow> meetup_row option \<times> meetup_db" where
  "close_meetup_row i host now = update_meetup (\<lambda>m. m_id m = i \<and> m_host m = host \<and> live m \<and> m_start m \<le> now)
     (\<lambda>m. m\<lparr>m_status := MCompleted, m_closed_at := Some now\<rparr>)"

definition mark_meetup_full :: "uuid \<Rightarrow> meetup_db \<Rightarrow> meetup_db" where
  "mark_meetup_full i db = db\<lparr>meetups := update_where (\<lambda>m. m_id m = i) (\<lambda>m. m\<lparr>m_status := MFull\<rparr>) (meetups db)\<rparr>"

text \<open>The claiming statements of the two sweeps; \<open>RETURNING\<close> lists the rows in the table's order.\<close>

definition claim_meetups ::
  "(meetup_row \<Rightarrow> bool) \<Rightarrow> (meetup_row \<Rightarrow> instant) \<Rightarrow> (meetup_row \<Rightarrow> meetup_row) \<Rightarrow> int \<Rightarrow> meetup_db \<Rightarrow>
    (go_error + meetup_row list) \<times> meetup_db" where
  "claim_meetups due key f limit db =
     (let ids = map m_id (take (nat limit) (sort_key key (filter due (meetups db)))); mine = (\<lambda>m. m_id m \<in> set ids) in
      if limit < 0 then (Inl (PkgError ''LIMIT must not be negative''), db)
      else (Inr (map f (filter mine (meetups db))), db\<lparr>meetups := update_where mine f (meetups db)\<rparr>))"

definition claim_meetups_to_auto_close :: "instant \<Rightarrow> int \<Rightarrow> meetup_db \<Rightarrow> (go_error + meetup_row list) \<times> meetup_db" where
  "claim_meetups_to_auto_close now = claim_meetups (\<lambda>m. live m \<and> m_end m \<le> now) m_end
     (\<lambda>m. m\<lparr>m_status := MCompleted, m_closed_at := Some now\<rparr>)"

definition claim_meetups_starting_soon :: "instant \<Rightarrow> int \<Rightarrow> meetup_db \<Rightarrow> (go_error + meetup_row list) \<times> meetup_db" where
  "claim_meetups_starting_soon now = claim_meetups
     (\<lambda>m. live m \<and> m_start m - now \<le> 30 * minute \<and> now < m_start m \<and> m_soon_at m = None) m_start
     (\<lambda>m. m\<lparr>m_soon_at := Some now\<rparr>)"

definition count_created_by_host_since :: "uuid \<Rightarrow> instant \<Rightarrow> meetup_db \<Rightarrow> int" where
  "count_created_by_host_since host since db = int (length (filter (\<lambda>m. m_host m = host \<and> since < m_created_at m) (meetups db)))"

definition list_live_hosted_meetup_ids :: "uuid \<Rightarrow> instant \<Rightarrow> meetup_db \<Rightarrow> uuid list" where
  "list_live_hosted_meetup_ids host now db = map m_id (filter (\<lambda>m. m_host m = host \<and> live m \<and> now < m_end m) (meetups db))"

section \<open>Requests\<close>

definition live_request :: "request_row \<Rightarrow> bool" where
  "live_request q \<longleftrightarrow> q_status q = Pending \<or> q_status q = Accepted"

definition count_accepted_requests :: "uuid \<Rightarrow> meetup_db \<Rightarrow> int" where
  "count_accepted_requests m db = int (length (filter (\<lambda>q. q_meetup q = m \<and> q_status q = Accepted) (requests db)))"

definition meetup_joinable :: "instant \<Rightarrow> meetup_row \<Rightarrow> bool" where
  "meetup_joinable now m \<longleftrightarrow> m_status m = MOpen \<and> now < m_end m"

definition meetup_is_joinable :: "uuid \<Rightarrow> instant \<Rightarrow> meetup_db \<Rightarrow> bool option" where
  "meetup_is_joinable i now db = map_option (meetup_joinable now) (get_meetup i db)"

text \<open>The conditional insert: no row when the host said no before, or the meetup takes no one.\<close>

definition create_meetup_request ::
  "uuid \<Rightarrow> uuid \<Rightarrow> uuid \<Rightarrow> instant \<Rightarrow> meetup_db \<Rightarrow> go_error + request_row option \<times> meetup_db" where
  "create_meetup_request i meetup requester now db =
     (let q = \<lparr>q_id = i, q_meetup = meetup, q_requester = requester, q_status = Pending, q_auto = False,
        q_created_at = now, q_resolved_at = None, q_note = None\<rparr> in
      if list_ex (\<lambda>p. q_meetup p = meetup \<and> q_requester p = requester \<and> q_status p = Rejected) (requests db) \<or>
        \<not> list_ex (\<lambda>m. m_id m = meetup \<and> meetup_joinable now m) (meetups db)
      then Inr (None, db)
      else if list_ex (\<lambda>p. q_id p = i \<or> (q_meetup p = meetup \<and> q_requester p = requester \<and> live_request p)) (requests db)
      then Inl unique_violation
      else Inr (Some q, db\<lparr>requests := requests db @ [q]\<rparr>))"

definition get_meetup_request :: "uuid \<Rightarrow> meetup_db \<Rightarrow> request_row option" where
  "get_meetup_request i db = find (\<lambda>q. q_id q = i) (requests db)"

definition update_request ::
  "(request_row \<Rightarrow> bool) \<Rightarrow> (request_row \<Rightarrow> request_row) \<Rightarrow> meetup_db \<Rightarrow> request_row option \<times> meetup_db" where
  "update_request p f db = (map_option f (find p (requests db)), db\<lparr>requests := update_where p f (requests db)\<rparr>)"

definition withdraw_meetup_request ::
  "uuid \<Rightarrow> string option \<Rightarrow> uuid \<Rightarrow> instant \<Rightarrow> meetup_db \<Rightarrow> request_row option \<times> meetup_db" where
  "withdraw_meetup_request i text requester now db = update_request
     (\<lambda>q. q_id q = i \<and> q_requester q = requester \<and> live_request q \<and>
        list_ex (\<lambda>m. m_id m = q_meetup q \<and> live m \<and> now < m_end m) (meetups db))
     (\<lambda>q. q\<lparr>q_status := Withdrawn, q_resolved_at := Some now, q_note := text\<rparr>) db"

definition reject_meetup_request :: "uuid \<Rightarrow> uuid \<Rightarrow> instant \<Rightarrow> meetup_db \<Rightarrow> request_row option \<times> meetup_db" where
  "reject_meetup_request i host now db = update_request
     (\<lambda>q. q_id q = i \<and> q_status q = Pending \<and> list_ex (\<lambda>m. m_id m = q_meetup q \<and> m_host m = host) (meetups db))
     (\<lambda>q. q\<lparr>q_status := Rejected, q_resolved_at := Some now\<rparr>) db"

definition accept_meetup_request :: "uuid \<Rightarrow> uuid \<Rightarrow> instant \<Rightarrow> meetup_db \<Rightarrow> request_row option \<times> meetup_db" where
  "accept_meetup_request i host now db = update_request
     (\<lambda>q. q_id q = i \<and> q_status q = Pending \<and> list_ex (\<lambda>m. m_id m = q_meetup q \<and> m_host m = host \<and> now < m_end m) (meetups db))
     (\<lambda>q. q\<lparr>q_status := Accepted, q_resolved_at := Some now\<rparr>) db"

definition auto_reject_pending_requests :: "uuid \<Rightarrow> instant \<Rightarrow> meetup_db \<Rightarrow> request_row list \<times> meetup_db" where
  "auto_reject_pending_requests meetup now db =
     (let p = (\<lambda>q. q_meetup q = meetup \<and> q_status q = Pending);
          f = (\<lambda>q. q\<lparr>q_status := Rejected, q_resolved_at := Some now, q_auto := True\<rparr>) in
      (map f (filter p (requests db)), db\<lparr>requests := update_where p f (requests db)\<rparr>))"

definition cancel_pending_meetup_request :: "uuid \<Rightarrow> uuid \<Rightarrow> meetup_db \<Rightarrow> request_row option \<times> meetup_db" where
  "cancel_pending_meetup_request i requester db =
     (let p = (\<lambda>q. q_id q = i \<and> q_requester q = requester \<and> q_status q = Pending) in
      (find p (requests db), db\<lparr>requests := filter (\<lambda>q. \<not> p q) (requests db)\<rparr>))"

definition reopen_meetup_if_seat_freed :: "uuid \<Rightarrow> meetup_db \<Rightarrow> int \<times> meetup_db" where
  "reopen_meetup_if_seat_freed i db =
     (let p = (\<lambda>m. m_id m = i \<and> m_status m = MFull \<and> count_accepted_requests (m_id m) db < m_capacity m) in
      (int (length (filter p (meetups db))), db\<lparr>meetups := update_where p (\<lambda>m. m\<lparr>m_status := MOpen\<rparr>) (meetups db)\<rparr>))"

section \<open>Joined views\<close>

text \<open>
  A meetup with what its readers join to it: the host's cached profile, the host's rating in
  hundredths (\<open>ROUND(AVG(score), 2)\<close>), the seats taken and the viewer's own request.
\<close>

record meetup_view = meetup_row +
  v_host_name :: string
  v_host_photo :: "string option"
  v_host_trust :: int
  v_rating :: int
  v_rating_count :: int
  v_accepted :: int
  v_my_status :: "request_status option"
  v_my_request :: "uuid option"
  v_my_auto :: bool

definition rating_scores :: "uuid \<Rightarrow> meetup_db \<Rightarrow> int list" where
  "rating_scores u db = map ra_score (filter (\<lambda>r. ra_rated r = u) (ratings db))"

definition rounded_average :: "int list \<Rightarrow> int" where
  "rounded_average xs =
     (let n = int (length xs) in if n = 0 then 0 else (200 * sum_list xs + n) div (2 * n))"

definition compute_user_rating_aggregate :: "uuid \<Rightarrow> meetup_db \<Rightarrow> int \<times> int" where
  "compute_user_rating_aggregate u db = (rounded_average (rating_scores u db), int (length (rating_scores u db)))"

definition display_of :: "uuid \<Rightarrow> meetup_db \<Rightarrow> display_row option" where
  "display_of u db = find (\<lambda>d. di_user d = u) (displays db)"

definition join_view :: "request_row option \<Rightarrow> meetup_db \<Rightarrow> meetup_row \<Rightarrow> meetup_view" where
  "join_view mine db m =
     (let d = display_of (m_host m) db; (avg, n) = compute_user_rating_aggregate (m_host m) db in
      meetup_row.extend m \<lparr>v_host_name = (case d of None \<Rightarrow> [] | Some d \<Rightarrow> di_name d),
        v_host_photo = (case d of None \<Rightarrow> None | Some d \<Rightarrow> di_photo d),
        v_host_trust = (case d of None \<Rightarrow> 0 | Some d \<Rightarrow> di_trust d),
        v_rating = avg, v_rating_count = n, v_accepted = count_accepted_requests (m_id m) db,
        v_my_status = map_option q_status mine, v_my_request = map_option q_id mine,
        v_my_auto = (case mine of None \<Rightarrow> False | Some q \<Rightarrow> q_auto q)\<rparr>)"

text \<open>
  The viewer's latest request (\<open>ORDER BY created_at DESC LIMIT 1\<close>; which of two requests of one microsecond comes
  first is open in SQL).
\<close>

definition latest_request :: "uuid \<Rightarrow> uuid \<Rightarrow> meetup_db \<Rightarrow> request_row option" where
  "latest_request meetup viewer db =
     (case sort_key (\<lambda>q. - q_created_at q) (filter (\<lambda>q. q_meetup q = meetup \<and> q_requester q = viewer) (requests db)) of
        [] \<Rightarrow> None | q # _ \<Rightarrow> Some q)"

definition get_meetup_by_id :: "uuid \<Rightarrow> uuid \<Rightarrow> meetup_db \<Rightarrow> meetup_view option" where
  "get_meetup_by_id i viewer db =
     map_option (\<lambda>m. (join_view (latest_request i viewer db) db m)\<lparr>v_my_auto := False\<rparr>) (get_meetup i db)"

text \<open>The schedule: live meetups the user hosts or has a live request on, overlapping a window.\<close>

definition overlapping :: "instant \<Rightarrow> instant \<Rightarrow> instant \<Rightarrow> meetup_row \<Rightarrow> bool" where
  "overlapping now window_start window_end m \<longleftrightarrow>
     live m \<and> now < m_end m \<and> m_start m < window_end \<and> window_start < m_end m"

definition engaged :: "uuid \<Rightarrow> meetup_db \<Rightarrow> meetup_row \<Rightarrow> bool" where
  "engaged u db m \<longleftrightarrow> m_host m = u \<or>
     list_ex (\<lambda>q. q_meetup q = m_id m \<and> q_requester q = u \<and> live_request q) (requests db)"

definition find_schedule_conflict ::
  "uuid \<Rightarrow> instant \<Rightarrow> instant \<Rightarrow> uuid \<Rightarrow> instant \<Rightarrow> meetup_db \<Rightarrow> meetup_view option" where
  "find_schedule_conflict u window_start window_end exclude now db =
     (case sort_key (\<lambda>m. (m_start m, m_id m)) (filter (\<lambda>m. overlapping now window_start window_end m \<and>
        m_id m \<noteq> exclude \<and> engaged u db m) (meetups db)) of
        [] \<Rightarrow> None
      | m # _ \<Rightarrow> Some ((join_view (find (\<lambda>q. q_meetup q = m_id m \<and> q_requester q = u \<and> live_request q) (requests db)) db m)
          \<lparr>v_my_auto := False\<rparr>))"

section \<open>Device tokens\<close>

definition list_device_tokens :: "uuid \<Rightarrow> meetup_db \<Rightarrow> string list" where
  "list_device_tokens u db = map to_fcm (filter (\<lambda>d. to_user d = u) (device_tokens db))"

definition upsert_device_token :: "uuid \<Rightarrow> string \<Rightarrow> meetup_db \<Rightarrow> meetup_db" where
  "upsert_device_token u k db = db\<lparr>device_tokens :=
     (if list_ex (\<lambda>d. to_fcm d = k) (device_tokens db)
      then update_where (\<lambda>d. to_fcm d = k) (\<lambda>d. d\<lparr>to_user := u\<rparr>) (device_tokens db)
      else device_tokens db @ [\<lparr>to_user = u, to_fcm = k\<rparr>])\<rparr>"

definition delete_device_token :: "string \<Rightarrow> meetup_db \<Rightarrow> meetup_db" where
  "delete_device_token k db = db\<lparr>device_tokens := filter (\<lambda>d. to_fcm d \<noteq> k) (device_tokens db)\<rparr>"

definition delete_device_token_for_user :: "string \<Rightarrow> uuid \<Rightarrow> meetup_db \<Rightarrow> meetup_db" where
  "delete_device_token_for_user k u db =
     db\<lparr>device_tokens := filter (\<lambda>d. \<not> (to_fcm d = k \<and> to_user d = u)) (device_tokens db)\<rparr>"

end
