(* ===== verification/Meetup_Requests.thy ===== *)
theory Meetup_Requests
  imports Meetup_Db
begin

text \<open>
  Asking to join a meetup and what becomes of it: \<open>meetup_requests_postgres.go\<close> and \<open>requests.go\<close>, with
  the trust gate (\<open>trustgate.go\<close>), the schedule guard (\<open>schedule_conflict.go\<close>) and the notifications
  (\<open>notifications.go\<close>, \<open>repository/outbox.go\<close>). A method of the repository is one transaction; a handler reads
  before it, so its reading (\<open>..._plan\<close>) is a definition of its own. The events published on the in-process bus after a
  commit, and waking the pollers, change no table here.
\<close>

section \<open>Surroundings\<close>

text \<open>
  One reading of the clock per call, \<open>uuid.Parse\<close>, the ids drawn in the call's \<open>n\<close>-th transaction, \<open>json.Marshal\<close>
  of a map, and PostGIS's distance between two points in metres.
\<close>

record meetup_env =
  em_now :: instant
  em_parse :: "string \<Rightarrow> uuid option"
  em_uuids :: "nat \<Rightarrow> nat \<Rightarrow> uuid"
  em_json :: "(string \<times> string) list \<Rightarrow> string"
  em_distance :: "float64 \<times> float64 \<Rightarrow> float64 \<times> float64 \<Rightarrow> rat"

definition in_tx ::
  "'z meetup_env_scheme \<Rightarrow> nat \<Rightarrow> (mtx \<Rightarrow> 'e + ('a \<times> mtx)) \<Rightarrow> meetup_db \<Rightarrow> ('e + 'a) \<times> meetup_db" where
  "in_tx e n fn db = run_tx (em_now e) (em_uuids e n) fn db"

definition bad_id :: "string \<Rightarrow> string \<Rightarrow> go_error" where
  "bad_id what i = wrap1 (''repository: invalid '' @ what @ '' id \"'' @ i @ ''\"'') ErrInvalidInput"

definition parse_id :: "'z meetup_env_scheme \<Rightarrow> string \<Rightarrow> string \<Rightarrow> go_error + uuid" where
  "parse_id e what i = (case em_parse e i of None \<Rightarrow> Inl (bad_id what i) | Some u \<Rightarrow> Inr u)"

definition set_db :: "mtx \<Rightarrow> meetup_db \<Rightarrow> mtx" where
  "set_db t db = t\<lparr>x_db := db\<rparr>"

definition max_free_text_reason_length :: nat where "max_free_text_reason_length = 500"

section \<open>Reading meetups and requests\<close>

definition meetups_get_by_id :: "'z meetup_env_scheme \<Rightarrow> string \<Rightarrow> string \<Rightarrow> meetup_db \<Rightarrow> go_error + meetup_view" where
  "meetups_get_by_id e i viewer db =
     res_bind (parse_id e ''meetup'' i) (\<lambda>mid.
     res_bind (parse_id e ''viewer'' viewer) (\<lambda>u.
     case get_meetup_by_id mid u db of
       None \<Rightarrow> Inl (wrap1 (''repository: meetup '' @ i) ErrNotFound)
     | Some m \<Rightarrow> Inr m))"

record request_view = request_row +
  rv_name :: string
  rv_photo :: string
  rv_trust :: int
  rv_rating :: int
  rv_rating_count :: int
  rv_checked :: "instant option"
  rv_declined :: "instant option"
  rv_decline_reason :: "string option"

definition with_requester :: "safety_row option \<Rightarrow> meetup_db \<Rightarrow> request_row \<Rightarrow> request_view" where
  "with_requester s db q =
     (let d = display_of (q_requester q) db; (avg, n) = compute_user_rating_aggregate (q_requester q) db in
      request_row.extend q \<lparr>rv_name = (case d of None \<Rightarrow> [] | Some d \<Rightarrow> di_name d),
        rv_photo = (case d of None \<Rightarrow> [] | Some d \<Rightarrow> text_or_empty (di_photo d)),
        rv_trust = (case d of None \<Rightarrow> 0 | Some d \<Rightarrow> di_trust d), rv_rating = avg, rv_rating_count = n,
        rv_checked = Option.bind s sa_checked_at, rv_declined = Option.bind s sa_declined_at,
        rv_decline_reason = Option.bind s sa_reason\<rparr>)"

definition request_with_requester :: "uuid \<Rightarrow> meetup_db \<Rightarrow> request_view option" where
  "request_with_requester i db = map_option (with_requester None db) (get_meetup_request i db)"

definition list_requests_for_meetup :: "uuid \<Rightarrow> meetup_db \<Rightarrow> request_view list" where
  "list_requests_for_meetup m db =
     map (\<lambda>q. with_requester (find (\<lambda>s. sa_meetup s = q_meetup q \<and> sa_user s = q_requester q) (safety_states db)) db q)
       (sort_key q_created_at (filter (\<lambda>q. q_meetup q = m) (requests db)))"

definition requests_get_by_id :: "'z meetup_env_scheme \<Rightarrow> string \<Rightarrow> meetup_db \<Rightarrow> go_error + request_view" where
  "requests_get_by_id e i db =
     res_bind (parse_id e ''request'' i) (\<lambda>rid.
     case request_with_requester rid db of
       None \<Rightarrow> Inl (wrap1 (''repository: meetup request '' @ i) ErrNotFound)
     | Some q \<Rightarrow> Inr q)"

section \<open>Notifications\<close>

definition queue_notification ::
  "'z meetup_env_scheme \<Rightarrow> string \<Rightarrow> string \<Rightarrow> string \<Rightarrow> string \<Rightarrow> (string \<times> string) list \<Rightarrow> mtx \<Rightarrow> go_error + mtx" where
  "queue_notification e user kind title body data t =
     (case parse_id e ''user'' user of
        Inl err \<Rightarrow> Inl (Wrap ''meetup: resolve device tokens'' [err])
      | Inr u \<Rightarrow>
          let tokens = list_device_tokens u (x_db t) in
          if tokens = [] then Inr t
          else case enqueue_notification \<lparr>nf_tokens = tokens, nf_title = title, nf_body = body,
              nf_data = em_json e (data @ [(''type'', kind)]), nf_user = Some u, nf_created = 0\<rparr> t of
              Inl err \<Rightarrow> Inl (Wrap ''repository: enqueue notification'' [err]) | Inr t \<Rightarrow> Inr t)"

fun parse_ids :: "'z meetup_env_scheme \<Rightarrow> string list \<Rightarrow> go_error + uuid list" where
  "parse_ids e [] = Inr []"
| "parse_ids e (i # is) = res_bind (parse_id e ''user'' i) (\<lambda>u. res_bind (parse_ids e is) (\<lambda>us. Inr (u # us)))"

text \<open>\<open>NotifyTx.Enqueue\<close> of the rows \<open>queueNotifications\<close> builds, one per recipient with a device.\<close>

fun enqueue_all :: "'z meetup_env_scheme \<Rightarrow> notification list \<Rightarrow> mtx \<Rightarrow> go_error + mtx" where
  "enqueue_all e [] t = Inr t"
| "enqueue_all e (n # ns) t =
     (case enqueue_notification n t of
        Inl err \<Rightarrow> Inl (Wrap ''repository: enqueue notification'' [err])
      | Inr t \<Rightarrow> enqueue_all e ns t)"

definition queue_notifications ::
  "'z meetup_env_scheme \<Rightarrow> string list \<Rightarrow> string \<Rightarrow> string \<Rightarrow> string \<Rightarrow> (string \<times> string) list \<Rightarrow> mtx \<Rightarrow> go_error + (nat \<times> mtx)" where
  "queue_notifications e recipients kind title body data t =
     (if recipients = [] then Inr (0, t)
      else case parse_ids e recipients of
          Inl err \<Rightarrow> Inl (Wrap ''meetup: resolve device tokens'' [err])
        | Inr users \<Rightarrow>
            let rows = map (\<lambda>u. \<lparr>nf_tokens = list_device_tokens u (x_db t), nf_title = title, nf_body = body,
                  nf_data = em_json e (data @ [(''type'', kind)]), nf_user = em_parse e u, nf_created = 0\<rparr>)
                (filter (\<lambda>u. u \<in> set users \<and> list_device_tokens u (x_db t) \<noteq> []) recipients) in
            res_bind (enqueue_all e rows t) (\<lambda>t. Inr (length rows, t)))"

definition display_name :: "string \<Rightarrow> string" where
  "display_name i = (if i = ''ride_share'' then ''ride share'' else if i = ''lunch'' then ''meal'' else i)"

definition accepted_requesters :: "request_view list \<Rightarrow> uuid list" where
  "accepted_requesters qs = map q_requester (filter (\<lambda>q. q_status q = Accepted) qs)"

section \<open>The trust gate and the schedule guard\<close>

definition required_trust_to_join :: "string \<Rightarrow> int" where
  "required_trust_to_join i = (if i = ''ride_share'' \<or> i = ''dating'' then 4 else 2)"

definition required_trust_to_host :: "string \<Rightarrow> int" where
  "required_trust_to_host i = (if i = ''ride_share'' \<or> i = ''dating'' then 4 else 3)"

definition check_trust_level :: "string \<Rightarrow> int \<Rightarrow> int \<Rightarrow> string \<Rightarrow> go_error option" where
  "check_trust_level intent level required action =
     (if level < required
      then Some (wrap1 (''meetup: '' @ action @ '' a \"'' @ intent @ ''\" meetup requires trust level '' @
             string_of_int required @ '', caller has '' @ string_of_int level) ErrForbidden)
      else None)"

definition schedule_conflict_error :: "bool \<Rightarrow> go_error" where
  "schedule_conflict_error hosting = wrap1 (''meetup: '' @
     (if hosting then ''you are already hosting a meetup at that time; cancel it or wait until it ends''
      else ''you already have a meetup at that time; cancel your request or wait until it ends'')) ErrConflict"

definition nil_uuid :: uuid where
  "nil_uuid = ''00000000-0000-0000-0000-000000000000''"

definition schedule_conflict ::
  "'z meetup_env_scheme \<Rightarrow> string \<Rightarrow> instant \<Rightarrow> instant \<Rightarrow> string \<Rightarrow> instant \<Rightarrow> meetup_db \<Rightarrow> go_error + meetup_view option" where
  "schedule_conflict e user window_start window_end exclude now db =
     res_bind (parse_id e ''user'' user) (\<lambda>u.
     res_bind (if exclude = [] then Inr nil_uuid else parse_id e ''meetup'' exclude) (\<lambda>x.
     Inr (find_schedule_conflict u (ts window_start) (ts window_end) x now db)))"

text \<open>The guard runs on the transaction that holds the user's schedule lock.\<close>

definition schedule_guard ::
  "'z meetup_env_scheme \<Rightarrow> string \<Rightarrow> instant \<Rightarrow> instant \<Rightarrow> string \<Rightarrow> mtx \<Rightarrow> go_error option" where
  "schedule_guard e user window_start window_end exclude t =
     (case schedule_conflict e user window_start window_end exclude (x_now t) (x_db t) of
        Inl err \<Rightarrow> Some err
      | Inr None \<Rightarrow> None
      | Inr (Some m) \<Rightarrow> Some (schedule_conflict_error (m_host m = user)))"

definition check_schedule ::
  "'z meetup_env_scheme \<Rightarrow> string \<Rightarrow> instant \<Rightarrow> instant \<Rightarrow> meetup_db \<Rightarrow> go_error + meetup_view option" where
  "check_schedule e user window_start window_end db =
     (if \<not> time_after window_end window_start then Inr None
      else schedule_conflict e user window_start window_end [] (ts (em_now e)) db)"

section \<open>Asking to join\<close>

definition requests_create ::
  "'z meetup_env_scheme \<Rightarrow> string \<Rightarrow> string \<Rightarrow> string \<Rightarrow> (mtx \<Rightarrow> go_error option) \<Rightarrow> (request_row \<Rightarrow> mtx \<Rightarrow> go_error + mtx) \<Rightarrow>
    mtx \<Rightarrow> go_error + (request_row \<times> mtx)" where
  "requests_create e meetup requester host guard notify t =
     res_bind (parse_id e ''meetup'' meetup) (\<lambda>mid.
     res_bind (parse_id e ''requester'' requester) (\<lambda>u.
     case guard t of Some err \<Rightarrow> Inl err | None \<Rightarrow>
     let (i, t) = draw_id t in
     case create_meetup_request i mid u (x_now t) (x_db t) of
       Inl err \<Rightarrow>
         if is_pg_error unique_violation err
         then Inl (wrap1 ''repository: already requested to join this meetup'' ErrConflict)
         else Inl (Wrap ''repository: create meetup request'' [err])
     | Inr (None, db) \<Rightarrow>
         if meetup_is_joinable mid (x_now t) db \<noteq> Some True
         then Inl (wrap1 ''repository: this meetup has ended or is no longer open'' ErrConflict)
         else Inl (wrap1 (''repository: this meetup's host already declined a request from '' @ requester) ErrConflict)
     | Inr (Some q, db) \<Rightarrow>
         case insert_activity_event \<lparr>ac_topic = ''request.created'', ac_request = q_id q, ac_meetup = meetup,
             ac_requester = requester, ac_host = host, ac_at = em_now e\<rparr> (set_db t db) of
           Inl err \<Rightarrow> Inl (Wrap ''repository: queue request.created'' [err])
         | Inr t \<Rightarrow>
             case notify q t of
               Inl err \<Rightarrow> Inl (Wrap ''repository: queue join-request notification'' [err])
             | Inr t \<Rightarrow> Inr (q, t)))"

record join_request =
  jr_meetup :: string
  jr_requester :: string
  jr_trust :: int

text \<open>\<open>WithinBrowseRadius\<close>: whether the user's fresh location is near a point, if there is one.\<close>

definition within_browse_radius ::
  "'z meetup_env_scheme \<Rightarrow> string \<Rightarrow> float64 \<Rightarrow> float64 \<Rightarrow> meetup_db \<Rightarrow> go_error + bool option" where
  "within_browse_radius e user lat lng db =
     res_bind (parse_id e ''user'' user) (\<lambda>u.
     Inr (map_option (\<lambda>l. em_distance e (lo_lat l, lo_lng l) (lat, lng) \<le> of_int browse_radius_meters)
       (find (\<lambda>l. lo_user l = u \<and> ts (em_now e - location_fresh_for) < lo_updated l) (locations db))))"

definition join_plan :: "'z meetup_env_scheme \<Rightarrow> join_request \<Rightarrow> meetup_db \<Rightarrow> go_error + meetup_view" where
  "join_plan e r db =
     res_bind (meetups_get_by_id e (jr_meetup r) (jr_requester r) db) (\<lambda>m.
     if m_host m = jr_requester r
     then Inl (wrap1 ''meetup: cannot request to join your own meetup'' ErrForbidden)
     else case check_trust_level (m_intent m) (jr_trust r) (required_trust_to_join (m_intent m)) ''joining'' of
         Some err \<Rightarrow> Inl err
       | None \<Rightarrow>
           if m_status m \<noteq> MOpen
           then Inl (wrap1 (''meetup: meetup '' @ jr_meetup r @ '' is not open'') ErrConflict)
           else res_bind (within_browse_radius e (jr_requester r) (m_lat m) (m_lng m) db) (\<lambda>near.
             case near of
               None \<Rightarrow> Inl (wrap1 ''meetup: Turn on location to join, so we can check this meetup is near you'' ErrForbidden)
             | Some False \<Rightarrow> Inl (wrap1 (''meetup: this meetup is more than '' @ string_of_int browse_radius_km @ '' km from you'') ErrForbidden)
             | Some True \<Rightarrow> Inr m))"

definition request_data :: "uuid \<Rightarrow> uuid \<Rightarrow> (string \<times> string) list" where
  "request_data m q = [(''meetup_id'', m), (''request_id'', q)]"

definition tx_request :: "uuid \<Rightarrow> mtx \<Rightarrow> go_error + request_view" where
  "tx_request i t = (case request_with_requester i (x_db t) of
     None \<Rightarrow> Inl (Wrap ''repository: get request for notification'' [PkgError ''no rows in result set'']) | Some q \<Rightarrow> Inr q)"

definition join_tx :: "'z meetup_env_scheme \<Rightarrow> join_request \<Rightarrow> meetup_view \<Rightarrow> mtx \<Rightarrow> go_error + (request_row \<times> mtx)" where
  "join_tx e r m = requests_create e (jr_meetup r) (jr_requester r) (m_host m)
     (schedule_guard e (jr_requester r) (m_start m) (m_end m) (m_id m))
     (\<lambda>q t. res_bind (tx_request (q_id q) t) (\<lambda>full.
        queue_notification e (m_host m) ''join_request'' ''New join request''
          (rv_name full @ '' wants to join your '' @ display_name (m_intent m) @ '' meetup'')
          (request_data (m_id m) (q_id q)) t))"

definition request_to_join :: "'z meetup_env_scheme \<Rightarrow> join_request \<Rightarrow> meetup_db \<Rightarrow> (go_error + request_view) \<times> meetup_db" where
  "request_to_join e r db =
     (case join_plan e r db of Inl err \<Rightarrow> (Inl err, db)
      | Inr m \<Rightarrow> (case in_tx e 0 (join_tx e r m) db of
            (Inl err, db) \<Rightarrow> (Inl err, db)
          | (Inr q, db) \<Rightarrow> (requests_get_by_id e (q_id q) db, db)))"

section \<open>Withdrawing\<close>

text \<open>An accepted request held a seat: the meetup may open again, and its people are recounted.\<close>

definition free_seat :: "bool \<Rightarrow> uuid \<Rightarrow> mtx \<Rightarrow> go_error + mtx" where
  "free_seat held_a_seat meetup t =
     (if \<not> held_a_seat then Inr t
      else case enqueue_meetups_completed [meetup] (set_db t (snd (reopen_meetup_if_seat_freed meetup (x_db t)))) of
          Inl err \<Rightarrow> Inl (Wrap ''repository: enqueue meetups-completed recompute'' [err]) | Inr t \<Rightarrow> Inr t)"

definition requests_withdraw ::
  "'z meetup_env_scheme \<Rightarrow> string \<Rightarrow> string \<Rightarrow> string \<Rightarrow> (request_row \<Rightarrow> mtx \<Rightarrow> go_error + mtx) \<Rightarrow> mtx \<Rightarrow> go_error + (request_row \<times> mtx)" where
  "requests_withdraw e i text requester notify t =
     res_bind (parse_id e ''request'' i) (\<lambda>rid.
     res_bind (parse_id e ''requester'' requester) (\<lambda>u.
     case get_meetup_request rid (x_db t) of
       None \<Rightarrow> Inl (wrap1 (''repository: meetup request '' @ i) ErrNotFound)
     | Some located \<Rightarrow>
     case get_meetup (q_meetup located) (x_db t) of
       None \<Rightarrow> Inl (wrap1 (''repository: meetup '' @ q_meetup located) ErrNotFound)
     | Some _ \<Rightarrow>
     case get_meetup_request rid (x_db t) of
       None \<Rightarrow> Inl (wrap1 (''repository: meetup request '' @ i) ErrNotFound)
     | Some current \<Rightarrow>
     case withdraw_meetup_request rid (text_or_null text) u (x_now t) (x_db t) of
       (None, _) \<Rightarrow> Inl (wrap1 (''repository: request '' @ i @ '' is not withdrawable on a live meetup'') ErrConflict)
     | (Some withdrawn, db) \<Rightarrow>
         case free_seat (q_status current = Accepted) (q_meetup located) (set_db t db) of
           Inl err \<Rightarrow> Inl err
         | Inr t \<Rightarrow>
             case notify withdrawn t of
               Inl err \<Rightarrow> Inl (Wrap ''repository: queue withdrawal notification'' [err])
             | Inr t \<Rightarrow> Inr (withdrawn, t)))"

definition requests_cancel_pending :: "'z meetup_env_scheme \<Rightarrow> string \<Rightarrow> string \<Rightarrow> meetup_db \<Rightarrow> go_error option \<times> meetup_db" where
  "requests_cancel_pending e i requester db =
     (case (parse_id e ''request'' i, parse_id e ''requester'' requester) of
        (Inl err, _) \<Rightarrow> (Some err, db)
      | (_, Inl err) \<Rightarrow> (Some err, db)
      | (Inr rid, Inr u) \<Rightarrow>
          (case cancel_pending_meetup_request rid u db of
             (None, db) \<Rightarrow> (Some (wrap1 (''repository: request '' @ i @ '' is not a pending request of this user'') ErrConflict), db)
           | (Some _, db) \<Rightarrow> (None, db)))"

record withdraw_request =
  wr_request :: string
  wr_requester :: string
  wr_text :: string

text \<open>What the handler decides to do, from what it read.\<close>

definition withdraw_plan :: "'z meetup_env_scheme \<Rightarrow> withdraw_request \<Rightarrow> meetup_db \<Rightarrow> go_error + bool \<times> meetup_view" where
  "withdraw_plan e r db =
     res_bind (requests_get_by_id e (wr_request r) db) (\<lambda>existing.
     if q_requester existing \<noteq> wr_requester r
     then Inl (wrap1 (''meetup: caller did not make request '' @ wr_request r) ErrForbidden)
     else if max_free_text_reason_length < length (wr_text r)
     then Inl (wrap1 ''meetup: note is too long'' ErrInvalidInput)
     else res_bind (meetups_get_by_id e (q_meetup existing) (wr_requester r) db) (\<lambda>m.
       Inr (q_status existing = Pending, m)))"

definition withdraw_tx :: "'z meetup_env_scheme \<Rightarrow> withdraw_request \<Rightarrow> meetup_view \<Rightarrow> mtx \<Rightarrow> go_error + (request_row \<times> mtx)" where
  "withdraw_tx e r m = requests_withdraw e (wr_request r) (wr_text r) (wr_requester r)
     (\<lambda>q t. res_bind (tx_request (q_id q) t) (\<lambda>full.
        queue_notification e (m_host m) ''request_withdrawn'' ''Request withdrawn''
          (rv_name full @ '' withdrew from your '' @ display_name (m_intent m) @ '' meetup'')
          (request_data (m_id m) (q_id q)) t))"

definition withdraw_request_handler :: "'z meetup_env_scheme \<Rightarrow> withdraw_request \<Rightarrow> meetup_db \<Rightarrow> go_error option \<times> meetup_db" where
  "withdraw_request_handler e r db =
     (case withdraw_plan e r db of
        Inl err \<Rightarrow> (Some err, db)
      | Inr (True, m) \<Rightarrow> requests_cancel_pending e (wr_request r) (wr_requester r) db
      | Inr (False, m) \<Rightarrow> (case in_tx e 0 (withdraw_tx e r m) db of
            (Inl err, db) \<Rightarrow> (Some err, db) | (Inr _, db) \<Rightarrow> (None, db)))"

section \<open>The host's answer\<close>

definition requests_reject ::
  "'z meetup_env_scheme \<Rightarrow> string \<Rightarrow> string \<Rightarrow> (request_row \<Rightarrow> mtx \<Rightarrow> go_error + mtx) \<Rightarrow> mtx \<Rightarrow> go_error + (request_row \<times> mtx)" where
  "requests_reject e i host notify t =
     res_bind (parse_id e ''request'' i) (\<lambda>rid.
     res_bind (parse_id e ''host user'' host) (\<lambda>u.
     case reject_meetup_request rid u (x_now t) (x_db t) of
       (None, _) \<Rightarrow> Inl (wrap1 (''repository: request '' @ i @ '' is not pending'') ErrConflict)
     | (Some q, db) \<Rightarrow>
         case notify q (set_db t db) of
           Inl err \<Rightarrow> Inl (Wrap ''repository: queue rejection notification'' [err])
         | Inr t \<Rightarrow> Inr (q, t)))"

definition requests_accept ::
  "'z meetup_env_scheme \<Rightarrow> string \<Rightarrow> string \<Rightarrow> (request_row \<Rightarrow> request_row list \<Rightarrow> mtx \<Rightarrow> go_error + mtx) \<Rightarrow> mtx \<Rightarrow>
    go_error + ((request_row \<times> bool \<times> request_row list) \<times> mtx)" where
  "requests_accept e i caller notify t =
     res_bind (parse_id e ''request'' i) (\<lambda>rid.
     res_bind (parse_id e ''host user'' caller) (\<lambda>host.
     case get_meetup_request rid (x_db t) of
       None \<Rightarrow> Inl (wrap1 (''repository: meetup request '' @ i) ErrNotFound)
     | Some located \<Rightarrow>
     case get_meetup (q_meetup located) (x_db t) of
       None \<Rightarrow> Inl (wrap1 (''repository: meetup '' @ q_meetup located) ErrNotFound)
     | Some m \<Rightarrow>
     if m_status m \<noteq> MOpen
     then Inl (wrap1 (''repository: meetup '' @ q_meetup located @ '' is not open'') ErrConflict)
     else if \<not> time_after (m_end m) (em_now e)
     then Inl (wrap1 (''repository: meetup '' @ m_id m @ '' has ended'') ErrConflict)
     else case get_meetup_request rid (x_db t) of
       None \<Rightarrow> Inl (wrap1 (''repository: meetup request '' @ i) ErrNotFound)
     | Some q \<Rightarrow>
     if q_status q \<noteq> Pending
     then Inl (wrap1 (''repository: request '' @ i @ '' is not pending'') ErrConflict)
     else if q_meetup q \<noteq> m_id m
     then Inl (wrap1 (''repository: request '' @ i @ '' changed meetup under the lock'') ErrConflict)
     else if m_capacity m \<le> count_accepted_requests (q_meetup q) (x_db t)
     then Inl (wrap1 (''repository: meetup '' @ q_meetup q @ '' is full'') ErrConflict)
     else case accept_meetup_request rid host (x_now t) (x_db t) of
       (None, _) \<Rightarrow> Inl (wrap1 (''repository: request '' @ i @ '' is not pending or not owned by caller'') ErrConflict)
     | (Some accepted, db) \<Rightarrow>
         let (full, rejected, db) =
           (if m_capacity m \<le> count_accepted_requests (m_id m) db
            then let (rejected, db) = auto_reject_pending_requests (m_id m) (x_now t) (mark_meetup_full (m_id m) db) in
              (True, rejected, db)
            else (False, [], db)) in
         case insert_activity_event \<lparr>ac_topic = ''request.accepted'', ac_request = q_id accepted, ac_meetup = q_meetup accepted,
             ac_requester = q_requester accepted, ac_host = m_host m, ac_at = em_now e\<rparr> (set_db t db) of
           Inl err \<Rightarrow> Inl (Wrap ''repository: queue request.accepted'' [err])
         | Inr t \<Rightarrow>
             case notify accepted rejected t of
               Inl err \<Rightarrow> Inl (Wrap ''repository: queue accept notifications'' [err])
             | Inr t \<Rightarrow> Inr ((accepted, full, rejected), t)))"

record respond_request =
  rr_request :: string
  rr_host :: string
  rr_accept :: bool

definition respond_plan :: "'z meetup_env_scheme \<Rightarrow> respond_request \<Rightarrow> meetup_db \<Rightarrow> go_error + meetup_view" where
  "respond_plan e r db =
     res_bind (requests_get_by_id e (rr_request r) db) (\<lambda>existing.
     res_bind (meetups_get_by_id e (q_meetup existing) (rr_host r) db) (\<lambda>m.
     if m_host m \<noteq> rr_host r
     then Inl (wrap1 (''meetup: caller does not host meetup '' @ q_meetup existing) ErrForbidden)
     else Inr m))"

fun notify_rejected :: "'z meetup_env_scheme \<Rightarrow> meetup_view \<Rightarrow> request_row list \<Rightarrow> mtx \<Rightarrow> go_error + mtx" where
  "notify_rejected e m [] t = Inr t"
| "notify_rejected e m (q # qs) t =
     res_bind (queue_notification e (q_requester q) ''meetup_full'' ''That one filled up fast''
       (''The '' @ display_name (m_intent m) @ '' meetup filled up before your turn. More are happening near you, and new ones every day.'')
       (request_data (m_id m) (q_id q)) t) (notify_rejected e m qs)"

definition accept_tx ::
  "'z meetup_env_scheme \<Rightarrow> respond_request \<Rightarrow> meetup_view \<Rightarrow> mtx \<Rightarrow> go_error + ((request_row \<times> bool \<times> request_row list) \<times> mtx)" where
  "accept_tx e r m = requests_accept e (rr_request r) (m_host m)
     (\<lambda>q rejected t.
        res_bind (queue_notification e (q_requester q) ''request_accepted'' ''Request accepted''
          (''The host accepted your request to join their '' @ display_name (m_intent m) @ '' meetup'')
          (request_data (m_id m) (q_id q)) t) (\<lambda>t.
        res_bind (queue_notification e (q_requester q) ''safety_checklist'' ''Review your safety checklist''
          (''Review the safety checklist for your '' @ display_name (m_intent m) @ '' meetup'')
          [(''meetup_id'', m_id m)] t) (\<lambda>t.
        notify_rejected e m rejected t)))"

definition reject_tx :: "'z meetup_env_scheme \<Rightarrow> respond_request \<Rightarrow> meetup_view \<Rightarrow> mtx \<Rightarrow> go_error + (request_row \<times> mtx)" where
  "reject_tx e r m = requests_reject e (rr_request r) (m_host m)
     (\<lambda>q t. queue_notification e (q_requester q) ''request_declined'' ''Not this time''
        (''The '' @ display_name (m_intent m) @ '' meetup was not the right fit this round. More are happening near you, and new ones every day.'')
        (request_data (m_id m) (q_id q)) t)"

text \<open>\<open>SafetyStateRepository.EnsureExists\<close>; its foreign key and its \<open>ON CONFLICT DO NOTHING\<close>.\<close>

definition ensure_safety_state :: "uuid \<Rightarrow> uuid \<Rightarrow> meetup_db \<Rightarrow> go_error + meetup_db" where
  "ensure_safety_state m u db =
     (if get_meetup m db = None then Inl foreign_key_violation
      else if list_ex (\<lambda>s. sa_meetup s = m \<and> sa_user s = u) (safety_states db) then Inr db
      else Inr (db\<lparr>safety_states := safety_states db @ [\<lparr>sa_meetup = m, sa_user = u, sa_ack_at = None,
        sa_checked_at = None, sa_declined_at = None, sa_reason = None\<rparr>]\<rparr>))"

definition safety_ensure_exists :: "'z meetup_env_scheme \<Rightarrow> string \<Rightarrow> string \<Rightarrow> meetup_db \<Rightarrow> go_error option \<times> meetup_db" where
  "safety_ensure_exists e meetup user db =
     (case (parse_id e ''meetup'' meetup, parse_id e ''user'' user) of
        (Inl err, _) \<Rightarrow> (Some err, db)
      | (_, Inl err) \<Rightarrow> (Some err, db)
      | (Inr m, Inr u) \<Rightarrow> (case ensure_safety_state m u db of
            Inl err \<Rightarrow> (Some (Wrap ''repository: ensure safety state'' [err]), db) | Inr db \<Rightarrow> (None, db)))"

definition respond_to_request :: "'z meetup_env_scheme \<Rightarrow> respond_request \<Rightarrow> meetup_db \<Rightarrow> (go_error + request_view) \<times> meetup_db" where
  "respond_to_request e r db =
     (case respond_plan e r db of
        Inl err \<Rightarrow> (Inl err, db)
      | Inr m \<Rightarrow>
          if rr_accept r
          then (case in_tx e 0 (accept_tx e r m) db of
              (Inl err, db) \<Rightarrow> (Inl err, db)
            | (Inr (q, _), db) \<Rightarrow>
                let db = snd (safety_ensure_exists e (m_id m) (q_requester q) db) in
                (requests_get_by_id e (q_id q) db, db))
          else (case in_tx e 0 (reject_tx e r m) db of
              (Inl err, db) \<Rightarrow> (Inl err, db)
            | (Inr q, db) \<Rightarrow> (requests_get_by_id e (q_id q) db, db)))"

end
