(* ===== verification/Meetup_Lifecycle.thy ===== *)
theory Meetup_Lifecycle
  imports Meetup_Requests
begin

text \<open>
  The life of a meetup: creating one and paying for it (\<open>service_create.go\<close>, \<open>charging.go\<close>,
  \<open>meetups_postgres.go\<close>), cancelling and closing it, the two sweeps (\<open>service_lifecycle.go\<close>,
  \<open>lifecycle.go\<close>, \<open>meetups_lifecycle_postgres.go\<close>), and what an account's end does to it
  (\<open>service_events.go\<close>, \<open>meetups_member_postgres.go\<close>). Who charges for a creation is a record of functions on a
  state \<open>'s\<close>, as the Go interface \<open>CreationCharger\<close> is.
\<close>

section \<open>Billing events\<close>

definition topic_created :: string where "topic_created = ''meetup.created''"
definition topic_cancelled :: string where "topic_cancelled = ''meetup.cancelled''"
definition topic_closed :: string where "topic_closed = ''meetup.closed''"

definition billing_event_of :: "string \<Rightarrow> meetup_db \<Rightarrow> meetup_row \<Rightarrow> uuid \<Rightarrow> billing_event" where
  "billing_event_of topic db m h =
     \<lparr>be_topic = topic, be_meetup = m_id m, be_host = m_host m, be_hold = h,
      be_accepted = (if topic \<noteq> topic_created then count_accepted_requests (m_id m) db else 0),
      be_start = m_start m,
      be_ended = (if topic = topic_cancelled then m_cancelled_at m
        else if topic = topic_closed then m_closed_at m else None)\<rparr>"

fun enqueue_billing_events :: "string \<Rightarrow> meetup_row list \<Rightarrow> mtx \<Rightarrow> go_error + mtx" where
  "enqueue_billing_events topic [] t = Inr t"
| "enqueue_billing_events topic (m # ms) t =
     (case m_hold m of
        None \<Rightarrow> enqueue_billing_events topic ms t
      | Some h \<Rightarrow> (case insert_billing_event (billing_event_of topic (x_db t) m h) t of
            Inl err \<Rightarrow> Inl (Wrap (''repository: queue '' @ topic) [err])
          | Inr t \<Rightarrow> enqueue_billing_events topic ms t))"

section \<open>Creating\<close>

record creation_request =
  cr_host :: string
  cr_trust :: int
  cr_intent :: string
  cr_start :: instant
  cr_end :: instant
  cr_lat :: float64
  cr_lng :: float64
  cr_label :: string
  cr_capacity :: int
  cr_expected :: "int option"
  cr_price_version :: int
  cr_key :: string

record creation_quote =
  cq_cost :: int
  cq_price_version :: int
  cq_covered :: bool
  cq_max_capacity :: int
  cq_max_days :: int

text \<open>
  What a creation needs besides: the formats of a float, the hexadecimal SHA-256 of a text, the geocoder and
  \<open>uuid.NewString()\<close>.
\<close>

record create_env = meetup_env +
  ce_show :: "float64 \<Rightarrow> string"
  ce_fixed7 :: "float64 \<Rightarrow> string"
  ce_sha256 :: "string \<Rightarrow> string"
  ce_geocode :: "float64 \<Rightarrow> float64 \<Rightarrow> go_error + string"
  ce_new_uuid :: uuid

record 's charger =
  ch_quote :: "string \<Rightarrow> int \<Rightarrow> int \<Rightarrow> instant \<Rightarrow> 's \<Rightarrow> (go_error + creation_quote) \<times> 's"
  ch_reserve :: "string \<Rightarrow> creation_quote \<Rightarrow> string \<Rightarrow> 's \<Rightarrow> (go_error + string) \<times> 's"
  ch_release :: "string \<Rightarrow> 's \<Rightarrow> (go_error + unit) \<times> 's"

definition charged :: "creation_quote \<Rightarrow> bool" where
  "charged q \<longleftrightarrow> 0 < cq_cost q \<or> cq_covered q"

definition default_max_capacity :: int where "default_max_capacity = 20"
definition window_start_grace_period :: duration where "window_start_grace_period = 5 * minute"

definition creation_limits ::
  "'s charger option \<Rightarrow> creation_request \<Rightarrow> 's \<Rightarrow> (go_error + creation_quote) \<times> 's" where
  "creation_limits ch r s =
     (case ch of
        None \<Rightarrow> (Inr \<lparr>cq_cost = 0, cq_price_version = 0, cq_covered = False, cq_max_capacity = default_max_capacity,
          cq_max_days = 0\<rparr>, s)
      | Some c \<Rightarrow> ch_quote c (cr_host r) (cr_trust r) (cr_capacity r) (cr_start r) s)"

definition check_limits :: "creation_request \<Rightarrow> creation_quote \<Rightarrow> instant \<Rightarrow> go_error option" where
  "check_limits r q now =
     (let top = (if cq_max_capacity q \<le> 0 then default_max_capacity else cq_max_capacity q) in
      if cr_capacity r < 1 \<or> top < cr_capacity r
      then Some (wrap1 (''meetup: capacity must be between 1 and '' @ string_of_int top) ErrInvalidInput)
      else if 0 < cq_max_days q \<and> i64 (i64 (cq_max_days q * 24) * hour) < time_sub (cr_start r) now
      then Some (wrap1 (''meetup: meetups can be scheduled at most '' @ string_of_int (cq_max_days q) @ '' days ahead'') ErrInvalidInput)
      else None)"

definition check_expected_cost :: "creation_request \<Rightarrow> creation_quote \<Rightarrow> go_error option" where
  "check_expected_cost r q =
     (if \<not> charged q then None
      else if cr_expected r = Some (cq_cost q) then None
      else Some (Coded \<lparr>ce_sentinel = ErrConflict, ce_code = code_price_changed,
        ce_message = ''meetup: the price changed; check the new price and try again'',
        ce_fields = [(''cost'', cq_cost q), (''price_version'', cq_price_version q)]\<rparr>))"

definition reserve_key :: "'z create_env_scheme \<Rightarrow> creation_request \<Rightarrow> string" where
  "reserve_key e r = ''meetup-create:'' @ (if cr_key r \<noteq> [] then cr_key r else ce_new_uuid e)"

definition creation_request_hash :: "'z create_env_scheme \<Rightarrow> creation_request \<Rightarrow> string" where
  "creation_request_hash e r = ce_sha256 e (cr_intent r @ ''|'' @ string_of_int (cr_start r div second) @ ''|'' @
     string_of_int (cr_end r div second) @ ''|'' @ ce_fixed7 e (cr_lat r) @ ''|'' @ ce_fixed7 e (cr_lng r) @ ''|'' @
     cr_label r @ ''|'' @ string_of_int (cr_capacity r))"

definition hash_if_keyed :: "string \<Rightarrow> string \<Rightarrow> string" where
  "hash_if_keyed k h = (if k = [] then [] else h)"

definition valid_intent :: "string \<Rightarrow> bool" where
  "valid_intent i \<longleftrightarrow> i \<in> set [''coffee'', ''lunch'', ''networking'', ''mentorship'', ''ride_share'', ''dating'', ''outing'']"

definition is_placeholder_label :: "string \<Rightarrow> bool" where
  "is_placeholder_label l \<longleftrightarrow> to_lower (trim_space l) \<in> set [[], ''current location'']"

definition fallback_label :: string where "fallback_label = ''Meetup location''"

definition err_idempotency_key_reused :: go_error where
  "err_idempotency_key_reused = wrap1 ''meetup: this request key was already used for a different meetup'' ErrConflict"

text \<open>\<open>CreationKeyExistsError\<close> is the one error of \<open>Create\<close> its caller takes apart.\<close>

datatype create_failure = KeyExists uuid string | CreateFailed go_error

definition i16 :: "int \<Rightarrow> int" where
  "i16 x = (x + 32768) mod 65536 - 32768"

definition with_failure :: "go_error + 'a \<Rightarrow> create_failure + 'a" where
  "with_failure m = (case m of Inl err \<Rightarrow> Inl (CreateFailed err) | Inr x \<Rightarrow> Inr x)"

definition no_key_held :: "uuid \<Rightarrow> string \<Rightarrow> mtx \<Rightarrow> create_failure + unit" where
  "no_key_held host k t =
     (if k = [] then Inr ()
      else case get_meetup_by_key host (text_or_null k) (x_db t) of
          None \<Rightarrow> Inr () | Some m \<Rightarrow> Inl (KeyExists (m_id m) (text_or_empty (m_hash m))))"

definition new_meetup_row ::
  "creation_request \<Rightarrow> string \<Rightarrow> string \<Rightarrow> uuid option \<Rightarrow> uuid \<Rightarrow> uuid \<Rightarrow> instant \<Rightarrow> meetup_row" where
  "new_meetup_row r label hash hold host i now =
     \<lparr>m_id = i, m_host = host, m_intent = cr_intent r, m_lat = cr_lat r, m_lng = cr_lng r, m_label = label,
      m_capacity = i16 (cr_capacity r), m_status = MOpen, m_created_at = now, m_cancelled_at = None,
      m_start = ts (cr_start r), m_end = ts (cr_end r), m_closed_at = None, m_reason = None, m_soon_at = None,
      m_key = text_or_null (cr_key r), m_hold = hold, m_hash = text_or_null hash\<rparr>"

definition meetups_create ::
  "'z create_env_scheme \<Rightarrow> creation_request \<Rightarrow> string \<Rightarrow> string \<Rightarrow> string \<Rightarrow> (mtx \<Rightarrow> go_error option) \<Rightarrow> mtx \<Rightarrow>
    create_failure + (meetup_row \<times> mtx)" where
  "meetups_create e r label hash hold guard t =
     res_bind (with_failure (parse_id e ''host user'' (cr_host r))) (\<lambda>host.
     res_bind (no_key_held host (cr_key r) t) (\<lambda>_.
     case guard t of Some err \<Rightarrow> Inl (CreateFailed err) | None \<Rightarrow>
     res_bind (if hold = [] then Inr None
       else case em_parse e hold of None \<Rightarrow> Inl (CreateFailed (wrap1 ''repository: invalid charge hold id'' ErrInternal))
         | Some h \<Rightarrow> Inr (Some h)) (\<lambda>h.
     let (i, t) = draw_id t; m = new_meetup_row r label hash h host i (x_now t) in
     case create_meetup_row m (x_db t) of
       Inl err \<Rightarrow> Inl (CreateFailed (Wrap ''repository: create meetup'' [err]))
     | Inr db \<Rightarrow>
         res_bind (with_failure (enqueue_billing_events topic_created [m] (set_db t db))) (\<lambda>t. Inr (m, t)))))"

definition find_by_creation_key :: "'z meetup_env_scheme \<Rightarrow> string \<Rightarrow> string \<Rightarrow> meetup_db \<Rightarrow> go_error + meetup_row" where
  "find_by_creation_key e host k db =
     (case em_parse e host of
        None \<Rightarrow> Inl (wrap1 ''repository: invalid host user id'' ErrInvalidInput)
      | Some u \<Rightarrow> (case get_meetup_by_key u (text_or_null k) db of
            None \<Rightarrow> Inl (wrap1 ''repository: no meetup for this creation key'' ErrNotFound) | Some m \<Rightarrow> Inr m))"

definition check_creation :: "'z create_env_scheme \<Rightarrow> creation_request \<Rightarrow> go_error option" where
  "check_creation e r =
     (if \<not> valid_intent (cr_intent r) then Some (wrap1 ''meetup: unrecognized intent'' ErrInvalidInput)
      else case check_trust_level (cr_intent r) (cr_trust r) (required_trust_to_host (cr_intent r)) ''hosting'' of
          Some err \<Rightarrow> Some err
        | None \<Rightarrow>
            if \<not> time_after (cr_end r) (cr_start r)
            then Some (wrap1 ''meetup: window_end must be after window_start'' ErrInvalidInput)
            else if time_before (cr_start r) (time_add (em_now e) (- window_start_grace_period))
            then Some (wrap1 ''meetup: window_start can't be in the past'' ErrInvalidInput)
            else case validate_lat_lng (ce_show e) (cr_lat r) (cr_lng r) of
                Some err \<Rightarrow> Some (wrap1 (''meetup: '' @ error_text err) ErrInvalidInput)
              | None \<Rightarrow>
                  if max_free_text_reason_length < length (cr_label r)
                  then Some (wrap1 ''meetup: location_label is too long'' ErrInvalidInput)
                  else None)"

text \<open>The answer to a key that made a meetup before, if it did.\<close>

definition retried_creation ::
  "'z create_env_scheme \<Rightarrow> creation_request \<Rightarrow> meetup_db \<Rightarrow> (go_error + meetup_view) option" where
  "retried_creation e r db =
     (if cr_key r = [] then None
      else case find_by_creation_key e (cr_host r) (cr_key r) db of
          Inr m \<Rightarrow> Some (
            if text_or_empty (m_hash m) \<noteq> [] \<and> text_or_empty (m_hash m) \<noteq> creation_request_hash e r
            then Inl err_idempotency_key_reused
            else meetups_get_by_id e (m_id m) (cr_host r) db)
        | Inl err \<Rightarrow> if errors_is err ErrNotFound then None else Some (Inl err))"

definition release_after_failed_create ::
  "'z create_env_scheme \<Rightarrow> 's charger option \<Rightarrow> creation_request \<Rightarrow> string \<Rightarrow> meetup_db \<Rightarrow> 's \<Rightarrow> 's" where
  "release_after_failed_create e ch r hold db s =
     (if hold = [] then s
      else if cr_key r \<noteq> [] \<and> \<not> isl (find_by_creation_key e (cr_host r) (cr_key r) db) then s
      else case ch of None \<Rightarrow> s | Some c \<Rightarrow> snd (ch_release c hold s))"

definition reserve_for_creation ::
  "'z create_env_scheme \<Rightarrow> 's charger option \<Rightarrow> creation_request \<Rightarrow> creation_quote \<Rightarrow> 's \<Rightarrow> (go_error + string) \<times> 's" where
  "reserve_for_creation e ch r q s =
     (if \<not> charged q then (Inr [], s)
      else case ch of None \<Rightarrow> (Inl (Panic ''nil charger''), s)
        | Some c \<Rightarrow> ch_reserve c (cr_host r) q (reserve_key e r) s)"

definition label_for_creation :: "'z create_env_scheme \<Rightarrow> creation_request \<Rightarrow> string" where
  "label_for_creation e r =
     (if is_placeholder_label (cr_label r)
      then (case ce_geocode e (cr_lat r) (cr_lng r) of Inl _ \<Rightarrow> fallback_label | Inr l \<Rightarrow> l)
      else cr_label r)"

text \<open>After the commit: the host's safety state and checklist. Both are best effort.\<close>

definition after_creation :: "'z create_env_scheme \<Rightarrow> creation_request \<Rightarrow> meetup_row \<Rightarrow> meetup_db \<Rightarrow> meetup_db" where
  "after_creation e r m db =
     snd (in_tx e 1 (\<lambda>t. res_bind (queue_notification e (cr_host r) ''safety_checklist'' ''Review your safety checklist''
         (''Review the safety checklist for your new '' @ display_name (m_intent m) @ '' meetup'')
         [(''meetup_id'', m_id m)] t) (\<lambda>t. Inr ((), t)))
       (snd (safety_ensure_exists e (m_id m) (cr_host r) db)))"

text \<open>The handler after its checks, with the quote and the hold it has.\<close>

definition create_charged ::
  "'z create_env_scheme \<Rightarrow> 's charger option \<Rightarrow> creation_request \<Rightarrow> string \<Rightarrow> 's \<times> meetup_db \<Rightarrow>
    (go_error + meetup_view) \<times> 's \<times> meetup_db" where
  "create_charged e ch r hold = (\<lambda>(s, db).
     let hash = creation_request_hash e r in
     case in_tx e 0 (meetups_create e r (label_for_creation e r) (hash_if_keyed (cr_key r) hash) hold
         (schedule_guard e (cr_host r) (cr_start r) (cr_end r) [])) db of
       (Inl (KeyExists i h), db) \<Rightarrow>
         (if h \<noteq> [] \<and> h \<noteq> hash then Inl err_idempotency_key_reused else meetups_get_by_id e i (cr_host r) db, s, db)
     | (Inl (CreateFailed err), db) \<Rightarrow> (Inl err, release_after_failed_create e ch r hold db s, db)
     | (Inr m, db) \<Rightarrow>
         let db = after_creation e r m db in (meetups_get_by_id e (m_id m) (cr_host r) db, s, db))"

definition create_meetup ::
  "'z create_env_scheme \<Rightarrow> 's charger option \<Rightarrow> creation_request \<Rightarrow> 's \<times> meetup_db \<Rightarrow>
    (go_error + meetup_view) \<times> 's \<times> meetup_db" where
  "create_meetup e ch r = (\<lambda>(s, db).
     case check_creation e r of Some err \<Rightarrow> (Inl err, s, db) | None \<Rightarrow>
     case retried_creation e r db of Some answer \<Rightarrow> (answer, s, db) | None \<Rightarrow>
     case creation_limits ch r s of (Inl err, s) \<Rightarrow> (Inl err, s, db) | (Inr q, s) \<Rightarrow>
     case check_limits r q (em_now e) of Some err \<Rightarrow> (Inl err, s, db) | None \<Rightarrow>
     case check_expected_cost r q of Some err \<Rightarrow> (Inl err, s, db) | None \<Rightarrow>
     case reserve_for_creation e ch r q s of
       (Inl err, s) \<Rightarrow> (Inl err, s, db)
     | (Inr hold, s) \<Rightarrow> create_charged e ch r hold (s, db))"

section \<open>Cancelling and closing\<close>

definition explain_failed_cancel :: "string \<Rightarrow> uuid \<Rightarrow> uuid \<Rightarrow> meetup_db \<Rightarrow> go_error" where
  "explain_failed_cancel i mid host db =
     (case get_meetup mid db of
        None \<Rightarrow> wrap1 (''repository: meetup '' @ i) ErrNotFound
      | Some m \<Rightarrow>
          if m_host m \<noteq> host then wrap1 (''repository: meetup '' @ i) ErrNotFound
          else wrap1 (''repository: meetup '' @ i @ '' is '' @
            (case m_status m of MOpen \<Rightarrow> ''open'' | MFull \<Rightarrow> ''full'' | MCancelled \<Rightarrow> ''cancelled'' | MCompleted \<Rightarrow> ''completed'') @
            '' and can no longer be cancelled'') ErrConflict)"

definition meetups_cancel ::
  "'z meetup_env_scheme \<Rightarrow> string \<Rightarrow> string \<Rightarrow> string \<Rightarrow> (meetup_row \<Rightarrow> mtx \<Rightarrow> go_error + mtx) \<Rightarrow> mtx \<Rightarrow>
    go_error + (meetup_row \<times> mtx)" where
  "meetups_cancel e i reason host notify t =
     res_bind (parse_id e ''meetup'' i) (\<lambda>mid.
     res_bind (parse_id e ''host user'' host) (\<lambda>u.
     case cancel_meetup_row mid (text_or_null reason) u (x_now t) (x_db t) of
       (None, db) \<Rightarrow> Inl (explain_failed_cancel i mid u db)
     | (Some m, db) \<Rightarrow>
         case notify m (set_db t db) of
           Inl err \<Rightarrow> Inl (Wrap ''repository: queue cancellation notifications'' [err])
         | Inr t \<Rightarrow> res_bind (enqueue_billing_events topic_cancelled [m] t) (\<lambda>t. Inr (m, t))))"

definition meetups_close ::
  "'z meetup_env_scheme \<Rightarrow> string \<Rightarrow> string \<Rightarrow> (meetup_row \<Rightarrow> mtx \<Rightarrow> go_error + mtx) \<Rightarrow> mtx \<Rightarrow> go_error + (meetup_row \<times> mtx)" where
  "meetups_close e i host notify t =
     res_bind (parse_id e ''meetup'' i) (\<lambda>mid.
     res_bind (parse_id e ''host user'' host) (\<lambda>u.
     case close_meetup_row mid u (x_now t) (x_db t) of
       (None, db) \<Rightarrow> Inl (wrap1 (''repository: meetup '' @ i) ErrNotFound)
     | (Some m, db) \<Rightarrow>
         case notify m (set_db t db) of
           Inl err \<Rightarrow> Inl (Wrap ''repository: queue close notifications'' [err])
         | Inr t \<Rightarrow>
             case enqueue_meetups_completed [m_id m] t of
               Inl err \<Rightarrow> Inl (Wrap ''repository: enqueue meetups-completed recompute'' [err])
             | Inr t \<Rightarrow> res_bind (enqueue_billing_events topic_closed [m] t) (\<lambda>t. Inr (m, t))))"

definition queue_meetup_closed :: "'z meetup_env_scheme \<Rightarrow> meetup_row \<Rightarrow> mtx \<Rightarrow> go_error + mtx" where
  "queue_meetup_closed e m t =
     res_bind (queue_notifications e (m_host m # accepted_requesters (list_requests_for_meetup (m_id m) (x_db t)))
       ''meetup_closed'' ''Meetup ended'' (''Your '' @ display_name (m_intent m) @ '' meetup has ended. Rate your experience!'')
       [(''meetup_id'', m_id m)] t) (\<lambda>(_, t). Inr t)"

definition cancel_notify :: "'z meetup_env_scheme \<Rightarrow> string \<Rightarrow> meetup_view \<Rightarrow> meetup_row \<Rightarrow> mtx \<Rightarrow> go_error + mtx" where
  "cancel_notify e reason m cancelled t =
     res_bind (queue_notifications e (accepted_requesters (list_requests_for_meetup (m_id cancelled) (x_db t)))
       ''meetup_cancelled'' ''Meetup cancelled''
       (''The host cancelled your '' @ display_name (m_intent m) @ '' meetup: '' @ reason)
       [(''meetup_id'', m_id m)] t) (\<lambda>(_, t). Inr t)"

definition cancel_plan :: "'z meetup_env_scheme \<Rightarrow> string \<Rightarrow> string \<Rightarrow> string \<Rightarrow> meetup_db \<Rightarrow> go_error + meetup_view" where
  "cancel_plan e i host reason db =
     (if reason = [] then Inl (wrap1 ''meetup: reason is required'' ErrInvalidInput)
      else if max_free_text_reason_length < length reason then Inl (wrap1 ''meetup: reason is too long'' ErrInvalidInput)
      else res_bind (meetups_get_by_id e i host db) (\<lambda>m.
        if m_host m \<noteq> host then Inl (wrap1 (''meetup: caller does not host meetup '' @ i) ErrForbidden) else Inr m))"

definition cancel_meetup ::
  "'z meetup_env_scheme \<Rightarrow> nat \<Rightarrow> string \<Rightarrow> string \<Rightarrow> string \<Rightarrow> meetup_db \<Rightarrow> go_error option \<times> meetup_db" where
  "cancel_meetup e n i host text db =
     (let reason = trim_space text in
      case cancel_plan e i host reason db of
        Inl err \<Rightarrow> (Some err, db)
      | Inr m \<Rightarrow> (case in_tx e n (meetups_cancel e i reason host (cancel_notify e reason m)) db of
            (Inl err, db) \<Rightarrow> (Some err, db) | (Inr _, db) \<Rightarrow> (None, db)))"

definition close_meetup :: "'z meetup_env_scheme \<Rightarrow> string \<Rightarrow> string \<Rightarrow> meetup_db \<Rightarrow> (go_error + meetup_view) \<times> meetup_db" where
  "close_meetup e i host db =
     (case in_tx e 0 (meetups_close e i host (queue_meetup_closed e)) db of
        (Inl err, db) \<Rightarrow>
          (if errors_is err ErrNotFound
           then (case meetups_get_by_id e i host db of
               Inl gone \<Rightarrow> Inl gone
             | Inr m \<Rightarrow>
                 if m_host m \<noteq> host then Inl (wrap1 ''meetup: only the host can close this meetup'' ErrForbidden)
                 else if m_status m \<noteq> MOpen \<and> m_status m \<noteq> MFull
                 then Inl (wrap1 ''meetup: already closed or cancelled'' ErrConflict)
                 else if time_before (em_now e) (m_start m)
                 then Inl (wrap1 ''meetup: can't close before the meetup's window has started'' ErrForbidden)
                 else Inl err)
           else Inl err, db)
      | (Inr _, db) \<Rightarrow> (meetups_get_by_id e i host db, db))"

section \<open>The sweeps\<close>

definition sweep_batch_size :: int where "sweep_batch_size = 100"

fun notify_each :: "(meetup_row \<Rightarrow> mtx \<Rightarrow> go_error + mtx) \<Rightarrow> meetup_row list \<Rightarrow> mtx \<Rightarrow> go_error + mtx" where
  "notify_each f [] t = Inr t"
| "notify_each f (m # ms) t = res_bind (f m t) (notify_each f ms)"

definition claim_sweep ::
  "string \<Rightarrow> int \<Rightarrow> (meetup_row list \<Rightarrow> mtx \<Rightarrow> go_error + mtx) \<Rightarrow> bool \<Rightarrow>
    (int \<Rightarrow> meetup_db \<Rightarrow> (go_error + meetup_row list) \<times> meetup_db) \<Rightarrow> mtx \<Rightarrow> go_error + (meetup_row list \<times> mtx)" where
  "claim_sweep label limit notify completes claim t =
     (case claim (i32 limit) (x_db t) of
        (Inl err, _) \<Rightarrow> Inl (Wrap (''repository: claim '' @ label @ '' batch'') [err])
      | (Inr rows, db) \<Rightarrow>
          if rows = [] then Inr ([], t)
          else case notify rows (set_db t db) of
              Inl err \<Rightarrow> Inl (Wrap (''repository: queue '' @ label @ '' notifications'') [err])
            | Inr t \<Rightarrow>
                if completes
                then (case enqueue_meetups_completed (map m_id rows) t of
                    Inl err \<Rightarrow> Inl (Wrap ''repository: enqueue meetups-completed recompute'' [err])
                  | Inr t \<Rightarrow> res_bind (enqueue_billing_events topic_closed rows t) (\<lambda>t. Inr (rows, t)))
                else Inr (rows, t))"

definition auto_close_tx :: "'z meetup_env_scheme \<Rightarrow> mtx \<Rightarrow> go_error + (meetup_row list \<times> mtx)" where
  "auto_close_tx e t = claim_sweep ''auto-close'' sweep_batch_size (notify_each (queue_meetup_closed e)) True
     (claim_meetups_to_auto_close (x_now t)) t"

definition starting_soon_tx :: "'z meetup_env_scheme \<Rightarrow> mtx \<Rightarrow> go_error + (meetup_row list \<times> mtx)" where
  "starting_soon_tx e t = claim_sweep ''starting-soon'' sweep_batch_size
     (notify_each (\<lambda>m t. res_bind (queue_notifications e
         (m_host m # accepted_requesters (list_requests_for_meetup (m_id m) (x_db t)))
         ''meetup_starting_soon'' ''Meetup starting soon''
         (''Your '' @ display_name (m_intent m) @ '' meetup starts soon. Review your safety checklist.'')
         [(''meetup_id'', m_id m)] t) (\<lambda>(_, t). Inr t)))
     False (claim_meetups_starting_soon (x_now t)) t"

definition auto_close_sweep :: "'z meetup_env_scheme \<Rightarrow> nat \<Rightarrow> meetup_db \<Rightarrow> (go_error + int) \<times> meetup_db" where
  "auto_close_sweep e n db = (case in_tx e n (auto_close_tx e) db of
     (Inl err, db) \<Rightarrow> (Inl (Wrap ''meetup: claim auto-close batch'' [err]), db)
   | (Inr ms, db) \<Rightarrow> (Inr (int (length ms)), db))"

definition notify_starting_soon_sweep :: "'z meetup_env_scheme \<Rightarrow> nat \<Rightarrow> meetup_db \<Rightarrow> (go_error + int) \<times> meetup_db" where
  "notify_starting_soon_sweep e n db = (case in_tx e n (starting_soon_tx e) db of
     (Inl err, db) \<Rightarrow> (Inl (Wrap ''meetup: claim starting-soon batch'' [err]), db)
   | (Inr ms, db) \<Rightarrow> (Inr (int (length ms)), db))"

text \<open>\<open>Poller.Tick\<close>: an error of one sweep is logged and the other still runs.\<close>

definition lifecycle_tick :: "'z meetup_env_scheme \<Rightarrow> meetup_db \<Rightarrow> meetup_db" where
  "lifecycle_tick e db = snd (auto_close_sweep e 1 (snd (notify_starting_soon_sweep e 0 db)))"

section \<open>News of a meetup nearby\<close>

definition nearby_notify_staleness :: duration where "nearby_notify_staleness = 24 * hour"
definition nearby_notify_max_per_host_per_day :: int where "nearby_notify_max_per_host_per_day = 3"

definition list_user_locations_within_radius ::
  "'z meetup_env_scheme \<Rightarrow> instant \<Rightarrow> float64 \<Rightarrow> float64 \<Rightarrow> meetup_db \<Rightarrow> location_row list" where
  "list_user_locations_within_radius e not_before lat lng db =
     take 500 (sort_key (\<lambda>l. em_distance e (lo_lat l, lo_lng l) (lat, lng))
       (filter (\<lambda>l. not_before < lo_updated l \<and> em_distance e (lo_lat l, lo_lng l) (lat, lng) \<le> of_int browse_radius_meters)
         (locations db)))"

definition handle_meetup_created ::
  "'z meetup_env_scheme \<Rightarrow> string \<Rightarrow> string \<Rightarrow> string \<Rightarrow> float64 \<Rightarrow> float64 \<Rightarrow> meetup_db \<Rightarrow> go_error option \<times> meetup_db" where
  "handle_meetup_created e meetup host intent lat lng db =
     (case parse_id e ''host user'' host of
        Inl err \<Rightarrow> (Some (Wrap ''meetup: count host's meetups for nearby notify'' [err]), db)
      | Inr u \<Rightarrow>
          if nearby_notify_max_per_host_per_day < count_created_by_host_since u (ts (em_now e - 24 * hour)) db then (None, db)
          else let recipients = filter (\<lambda>v. v \<noteq> host)
                (map lo_user (list_user_locations_within_radius e (ts (em_now e - nearby_notify_staleness)) lat lng db)) in
            if recipients = [] then (None, db)
            else case in_tx e 0 (queue_notifications e recipients ''meetup_nearby'' ''New meetup nearby''
                (''A new '' @ display_name intent @ '' meetup was just scheduled near you'') [(''meetup_id'', meetup)]) db of
                (Inl err, db) \<Rightarrow> (Some (Wrap ''meetup: notify nearby users'' [err]), db)
              | (Inr _, db) \<Rightarrow> (None, db))"

end
