(* ===== verification/Meetup_Accounts.thy ===== *)
theory Meetup_Accounts
  imports Meetup_Lifecycle
begin

text \<open>
  What an account leaves in the meetup module when it ends: the check before (\<open>CheckAccountDeletable\<close>), the
  cancelling of what it hosts and the purge (\<open>service_events.go\<close>, \<open>meetups_member_postgres.go\<close>), and the caches other
  modules' events keep (\<open>user_display_cache\<close>, \<open>subscription_cache\<close>, \<open>user_location_cache\<close>).
\<close>

section \<open>Commitments\<close>

record commitments =
  co_hosting :: int
  co_accepted :: int
  co_pending :: int

definition count_active_commitments :: "uuid \<Rightarrow> instant \<Rightarrow> meetup_db \<Rightarrow> commitments" where
  "count_active_commitments u now db =
     (let upcoming = (\<lambda>m. live m \<and> now < m_end m);
          joined = (\<lambda>st q. q_requester q = u \<and> q_status q = st \<and>
            list_ex (\<lambda>m. m_id m = q_meetup q \<and> upcoming m) (meetups db)) in
      \<lparr>co_hosting = int (length (filter (\<lambda>m. m_host m = u \<and> upcoming m) (meetups db))),
       co_accepted = int (length (filter (joined Accepted) (requests db))),
       co_pending = int (length (filter (joined Pending) (requests db)))\<rparr>)"

definition active_commitments :: "'z meetup_env_scheme \<Rightarrow> string \<Rightarrow> meetup_db \<Rightarrow> go_error + commitments" where
  "active_commitments e user db =
     res_bind (parse_id e ''user'' user) (\<lambda>u. Inr (count_active_commitments u (ts (em_now e)) db))"

definition any_commitment :: "commitments \<Rightarrow> bool" where
  "any_commitment c \<longleftrightarrow> 0 < i64 (i64 (co_hosting c + co_accepted c) + co_pending c)"

definition describe_commitments :: "commitments \<Rightarrow> string" where
  "describe_commitments c =
     (if 0 < co_hosting c \<and> 0 < i64 (co_accepted c + co_pending c)
      then ''You have meetups coming up. Attend them, or cancel the ones you are hosting and withdraw your requests, then delete your account''
      else if 1 < co_hosting c
      then ''You are hosting meetups that have not happened yet. Attend them, or cancel them, then delete your account''
      else if co_hosting c = 1
      then ''You are hosting a meetup that has not happened yet. Attend it, or cancel it, then delete your account''
      else if 0 < co_accepted c \<and> 0 < co_pending c
      then ''You are joining meetups and have requests waiting. Attend or cancel them, and withdraw your requests, then delete your account''
      else if 1 < co_accepted c
      then ''You are joining meetups that have not happened yet. Attend them, or cancel them, then delete your account''
      else if co_accepted c = 1
      then ''You are joining a meetup that has not happened yet. Attend it, or cancel it, then delete your account''
      else if 1 < co_pending c
      then ''You have requests to join meetups that are still open. Withdraw them, then delete your account''
      else ''You have a request to join a meetup that is still open. Withdraw it, then delete your account'')"

definition check_account_deletable :: "'z meetup_env_scheme \<Rightarrow> string \<Rightarrow> meetup_db \<Rightarrow> go_error option" where
  "check_account_deletable e user db =
     (case active_commitments e user db of
        Inl err \<Rightarrow> Some err
      | Inr c \<Rightarrow> if any_commitment c then Some (wrap1 (describe_commitments c) ErrConflict) else None)"

section \<open>The purge\<close>

text \<open>\<open>SET x = gen_random_uuid() WHERE x = $1\<close> draws an id for each row it changes.\<close>

fun redraw :: "('r \<Rightarrow> bool) \<Rightarrow> (uuid \<Rightarrow> 'r \<Rightarrow> 'r) \<Rightarrow> 'r list \<Rightarrow> mtx \<Rightarrow> 'r list \<times> mtx" where
  "redraw p f [] t = ([], t)"
| "redraw p f (r # rs) t =
     (if p r then (let (i, t) = draw_id t; (rs, t) = redraw p f rs t in (f i r # rs, t))
      else (let (rs, t) = redraw p f rs t in (r # rs, t)))"

fun keys_clash :: "meetup_row list \<Rightarrow> bool" where
  "keys_clash [] = False"
| "keys_clash (m # ms) = (list_ex (same_key m) ms \<or> keys_clash ms)"

definition anonymise_host_of_meetups :: "uuid \<Rightarrow> mtx \<Rightarrow> go_error + mtx" where
  "anonymise_host_of_meetups u t =
     (let (ms, t) = redraw (\<lambda>m. m_host m = u) (\<lambda>i m. m\<lparr>m_host := i\<rparr>) (meetups (x_db t)) t in
      if keys_clash ms then Inl unique_violation else Inr (set_db t ((x_db t)\<lparr>meetups := ms\<rparr>)))"

definition rating_key :: "rating_row \<Rightarrow> uuid \<times> uuid \<times> uuid" where
  "rating_key r = (ra_meetup r, ra_rater r, ra_rated r)"

definition set_ratings :: "rating_row list \<Rightarrow> mtx \<Rightarrow> go_error + mtx" where
  "set_ratings rs t =
     (if list_ex (\<lambda>r. ra_rater r = ra_rated r) rs then Inl check_violation
      else if \<not> distinct (map rating_key rs) then Inl unique_violation
      else Inr (set_db t ((x_db t)\<lparr>ratings := rs\<rparr>)))"

definition anonymise_ratings_given_by :: "uuid \<Rightarrow> mtx \<Rightarrow> go_error + mtx" where
  "anonymise_ratings_given_by u t =
     (let (rs, t) = redraw (\<lambda>r. ra_rater r = u) (\<lambda>i r. r\<lparr>ra_rater := i\<rparr>) (ratings (x_db t)) t in set_ratings rs t)"

definition anonymise_ratings_about :: "uuid \<Rightarrow> mtx \<Rightarrow> go_error + mtx" where
  "anonymise_ratings_about u t =
     (let (rs, t) = redraw (\<lambda>r. ra_rated r = u) (\<lambda>i r. r\<lparr>ra_rated := i\<rparr>) (ratings (x_db t)) t in set_ratings rs t)"

definition delete_user_rows :: "uuid \<Rightarrow> meetup_db \<Rightarrow> meetup_db" where
  "delete_user_rows u db = db
     \<lparr>requests := filter (\<lambda>q. q_requester q \<noteq> u) (requests db),
      safety_shares := filter (\<lambda>s. sh_user s \<noteq> u) (safety_shares db),
      safety_states := filter (\<lambda>s. sa_user s \<noteq> u) (safety_states db),
      feedbacks := filter (\<lambda>f. fb_user f \<noteq> u) (feedbacks db),
      device_tokens := filter (\<lambda>d. to_user d \<noteq> u) (device_tokens db),
      notices_queue := filter (\<lambda>n. nf_user (oe_payload n) \<noteq> Some u) (notices_queue db),
      displays := filter (\<lambda>d. di_user d \<noteq> u) (displays db),
      locations := filter (\<lambda>l. lo_user l \<noteq> u) (locations db),
      tiers := filter (\<lambda>c. ti_user c \<noteq> u) (tiers db)\<rparr>"

definition purge_user :: "'z meetup_env_scheme \<Rightarrow> string \<Rightarrow> mtx \<Rightarrow> go_error + (unit \<times> mtx)" where
  "purge_user e user t =
     res_bind (parse_id e ''user'' user) (\<lambda>u.
     let hosting = co_hosting (count_active_commitments u (x_now t) (x_db t)) in
     if 0 < hosting
     then Inl (PkgError (''repository: purge found '' @ string_of_int hosting @
            '' live hosted meetup(s) created after the cancel step; will retry''))
     else case anonymise_host_of_meetups u t of
         Inl err \<Rightarrow> Inl (Wrap ''repository: purge user meetups they hosted (anonymise host)'' [err])
       | Inr t \<Rightarrow>
           case anonymise_ratings_given_by u (set_db t (delete_user_rows u (x_db t))) of
             Inl err \<Rightarrow> Inl (Wrap ''repository: purge user ratings they gave (anonymise)'' [err])
           | Inr t \<Rightarrow>
               case anonymise_ratings_about u t of
                 Inl err \<Rightarrow> Inl (Wrap ''repository: purge user ratings about them (anonymise)'' [err])
               | Inr t \<Rightarrow> Inr ((), t))"

section \<open>An account has ended\<close>

definition deleted_host_cancel_reason :: string where
  "deleted_host_cancel_reason = ''Their account has been closed.''"

text \<open>\<open>n\<close> is the transaction the next cancellation opens.\<close>

fun cancel_hosted :: "'z meetup_env_scheme \<Rightarrow> string \<Rightarrow> nat \<Rightarrow> uuid list \<Rightarrow> meetup_db \<Rightarrow> go_error option \<times> meetup_db" where
  "cancel_hosted e user n [] db = (None, db)"
| "cancel_hosted e user n (i # is) db =
     (case cancel_meetup e n i user deleted_host_cancel_reason db of
        (Some err, db) \<Rightarrow>
          if \<not> errors_is err ErrConflict \<and> \<not> errors_is err ErrNotFound then (Some err, db)
          else cancel_hosted e user (Suc n) is db
      | (None, db) \<Rightarrow> cancel_hosted e user (Suc n) is db)"

definition meetups_handle_user_deleted :: "'z meetup_env_scheme \<Rightarrow> string \<Rightarrow> meetup_db \<Rightarrow> go_error option \<times> meetup_db" where
  "meetups_handle_user_deleted e user db =
     (case parse_id e ''user'' user of
        Inl err \<Rightarrow> (Some err, db)
      | Inr u \<Rightarrow>
          let ids = list_live_hosted_meetup_ids u (ts (em_now e)) db in
          case cancel_hosted e user 1 ids db of
            (Some err, db) \<Rightarrow> (Some err, db)
          | (None, db) \<Rightarrow> (case in_tx e 0 (purge_user e user) db of
                (Inl err, db) \<Rightarrow> (Some err, db) | (Inr _, db) \<Rightarrow> (None, db)))"

section \<open>Caches\<close>

text \<open>
  The three caches take an event only when it is newer than what they hold; the answer is
  whether it was taken.
\<close>

definition upsert_newer ::
  "('r \<Rightarrow> uuid) \<Rightarrow> ('r \<Rightarrow> instant) \<Rightarrow> 'r \<Rightarrow> 'r list \<Rightarrow> bool \<times> 'r list" where
  "upsert_newer key stamp r rows =
     (case find (\<lambda>x. key x = key r) rows of
        None \<Rightarrow> (True, rows @ [r])
      | Some old \<Rightarrow>
          if stamp old < stamp r then (True, update_where (\<lambda>x. key x = key r) (\<lambda>_. r) rows) else (False, rows))"

definition display_upsert ::
  "'z meetup_env_scheme \<Rightarrow> string \<Rightarrow> string \<Rightarrow> string \<Rightarrow> int \<Rightarrow> instant \<Rightarrow> meetup_db \<Rightarrow> (go_error + bool) \<times> meetup_db" where
  "display_upsert e user name photo trust stamp db =
     (case parse_id e ''user'' user of
        Inl err \<Rightarrow> (Inl err, db)
      | Inr u \<Rightarrow> let (taken, rows) = upsert_newer di_user di_updated
            \<lparr>di_user = u, di_name = name, di_photo = text_or_null photo, di_trust = i16 trust, di_updated = ts stamp\<rparr> (displays db) in
          (Inr taken, db\<lparr>displays := rows\<rparr>))"

definition tier_upsert ::
  "'z meetup_env_scheme \<Rightarrow> string \<Rightarrow> string \<Rightarrow> bool \<Rightarrow> instant \<Rightarrow> meetup_db \<Rightarrow> (go_error + bool) \<times> meetup_db" where
  "tier_upsert e user tier entitled stamp db =
     (case parse_id e ''user'' user of
        Inl err \<Rightarrow> (Inl err, db)
      | Inr u \<Rightarrow> let (taken, rows) = upsert_newer ti_user ti_updated
            \<lparr>ti_user = u, ti_tier = tier, ti_entitled = entitled, ti_updated = ts stamp\<rparr> (tiers db) in
          (Inr taken, db\<lparr>tiers := rows\<rparr>))"

text \<open>\<open>prec\<close> is \<open>geo.StoredPrecision\<close>, a rounding of floats.\<close>

definition location_upsert ::
  "(float64 \<Rightarrow> float64) \<Rightarrow> 'z meetup_env_scheme \<Rightarrow> string \<Rightarrow> float64 \<Rightarrow> float64 \<Rightarrow> instant \<Rightarrow> meetup_db \<Rightarrow>
    (go_error + bool) \<times> meetup_db" where
  "location_upsert prec e user lat lng stamp db =
     (case parse_id e ''user'' user of
        Inl err \<Rightarrow> (Inl err, db)
      | Inr u \<Rightarrow> let (taken, rows) = upsert_newer lo_user lo_updated
            \<lparr>lo_user = u, lo_lat = prec lat, lo_lng = prec lng, lo_updated = ts stamp\<rparr> (locations db) in
          (Inr taken, db\<lparr>locations := rows\<rparr>))"

definition subscription_is_entitled :: "'z meetup_env_scheme \<Rightarrow> string \<Rightarrow> meetup_db \<Rightarrow> go_error + bool" where
  "subscription_is_entitled e user db =
     res_bind (parse_id e ''user'' user) (\<lambda>u.
     Inr (case find (\<lambda>c. ti_user c = u) (tiers db) of None \<Rightarrow> False | Some c \<Rightarrow> ti_entitled c))"

definition delete_stale_user_locations :: "instant \<Rightarrow> meetup_db \<Rightarrow> int \<times> meetup_db" where
  "delete_stale_user_locations now db =
     (let old = (\<lambda>l. lo_updated l < now - 30 * 24 * hour) in
      (int (length (filter old (locations db))), db\<lparr>locations := filter (\<lambda>l. \<not> old l) (locations db)\<rparr>))"

end
