(* ===== verification/Meetup_Core.thy ===== *)
theory Meetup_Core
  imports Meetup_Accounts
begin

text \<open>
  What a transaction of the meetup module does to the two tables that matter, meetups and
  requests: one \<open>move\<close> each, whatever it queues beside. The moves are the specification the rest of
  the development reasons over; that every repository method refines one is shown here.
\<close>

section \<open>Moves\<close>

type_synonym core = "meetup_row list \<times> request_row list"

definition core_of :: "meetup_db \<Rightarrow> core" where
  "core_of db = (meetups db, requests db)"

definition taken :: "uuid \<Rightarrow> request_row list \<Rightarrow> nat" where
  "taken m qs = length (filter (\<lambda>q. q_meetup q = m \<and> q_status q = Accepted) qs)"

definition engaged_in :: "uuid \<Rightarrow> request_row list \<Rightarrow> meetup_row \<Rightarrow> bool" where
  "engaged_in u qs m \<longleftrightarrow> m_host m = u \<or> (\<exists>q \<in> set qs. q_meetup q = m_id m \<and> q_requester q = u \<and> live_request q)"

definition free_at :: "instant \<Rightarrow> uuid \<Rightarrow> instant \<Rightarrow> instant \<Rightarrow> uuid \<Rightarrow> core \<Rightarrow> bool" where
  "free_at now u ws we exclude c \<longleftrightarrow>
     (\<forall>m \<in> set (fst c). overlapping now ws we m \<longrightarrow> engaged_in u (snd c) m \<longrightarrow> m_id m = exclude)"

definition end_as :: "meetup_status \<Rightarrow> instant \<Rightarrow> meetup_row \<Rightarrow> meetup_row \<Rightarrow> bool" where
  "end_as st now m m' \<longleftrightarrow> live m \<and> (\<exists>reason. m' = (if st = MCancelled
      then m\<lparr>m_status := MCancelled, m_cancelled_at := Some now, m_reason := reason\<rparr>
      else m\<lparr>m_status := MCompleted, m_closed_at := Some now\<rparr>))"

definition resolve :: "request_status \<Rightarrow> bool \<Rightarrow> instant \<Rightarrow> string option \<Rightarrow> request_row \<Rightarrow> request_row" where
  "resolve st auto now text q = q\<lparr>q_status := st, q_auto := auto, q_resolved_at := Some now, q_note := text\<rparr>"

datatype deed = Stay | Open_One | End_Some | Leave uuid

inductive move :: "instant \<Rightarrow> deed \<Rightarrow> core \<Rightarrow> core \<Rightarrow> bool" for now :: instant where
  idle: "move now d c c"
| ask: "m \<in> set ms \<Longrightarrow> meetup_joinable now m \<Longrightarrow>
    (\<And>p. p \<in> set qs \<Longrightarrow> q_meetup p = m_id m \<Longrightarrow> q_requester p = u \<Longrightarrow> q_status p = Withdrawn) \<Longrightarrow>
    i \<notin> q_id ` set qs \<Longrightarrow> free_at now u (m_start m) (m_end m) (m_id m) (ms, qs) \<Longrightarrow>
    move now Stay (ms, qs) (ms, qs @ [\<lparr>q_id = i, q_meetup = m_id m, q_requester = u, q_status = Pending, q_auto = False,
      q_created_at = now, q_resolved_at = None, q_note = None\<rparr>])"
| take_back: "q \<in> set qs \<Longrightarrow> q_status q = Pending \<Longrightarrow>
    move now Stay (ms, qs) (ms, filter (\<lambda>p. q_id p \<noteq> q_id q) qs)"
| withdraw: "q \<in> set qs \<Longrightarrow> live_request q \<Longrightarrow> m \<in> set ms \<Longrightarrow> m_id m = q_meetup q \<Longrightarrow> live m \<Longrightarrow> now < m_end m \<Longrightarrow>
    qs' = update_where (\<lambda>p. q_id p = q_id q) (resolve Withdrawn (q_auto q) now text) qs \<Longrightarrow>
    ms' = (if q_status q = Accepted
      then update_where (\<lambda>x. m_id x = m_id m \<and> m_status x = MFull \<and> int (taken (m_id x) qs') < m_capacity x) (m_status_update (\<lambda>_. MOpen)) ms
      else ms) \<Longrightarrow>
    move now Stay (ms, qs) (ms', qs')"
| decline: "q \<in> set qs \<Longrightarrow> q_status q = Pending \<Longrightarrow>
    move now Stay (ms, qs) (ms, update_where (\<lambda>p. q_id p = q_id q) (resolve Rejected (q_auto q) now (q_note q)) qs)"
| admit: "q \<in> set qs \<Longrightarrow> q_status q = Pending \<Longrightarrow> m \<in> set ms \<Longrightarrow> m_id m = q_meetup q \<Longrightarrow> m_status m = MOpen \<Longrightarrow> now < m_end m \<Longrightarrow>
    int (taken (m_id m) qs) < m_capacity m \<Longrightarrow>
    qs1 = update_where (\<lambda>p. q_id p = q_id q) (resolve Accepted (q_auto q) now (q_note q)) qs \<Longrightarrow>
    (ms', qs') = (if int (taken (m_id m) qs1) < m_capacity m then (ms, qs1)
      else (update_where (\<lambda>x. m_id x = m_id m) (m_status_update (\<lambda>_. MFull)) ms,
        update_where (\<lambda>p. q_meetup p = m_id m \<and> q_status p = Pending)
          (\<lambda>p. p\<lparr>q_status := Rejected, q_resolved_at := Some now, q_auto := True\<rparr>) qs1)) \<Longrightarrow>
    move now Stay (ms, qs) (ms', qs')"
| found: "m_id m \<notin> m_id ` set ms \<Longrightarrow> m_id m \<noteq> nil_uuid \<Longrightarrow> 1 \<le> m_capacity m \<Longrightarrow> m_capacity m \<le> 30 \<Longrightarrow> m_start m < m_end m \<Longrightarrow>
    m_status m = MOpen \<Longrightarrow> m_cancelled_at m = None \<Longrightarrow> m_closed_at m = None \<Longrightarrow> ts (m_start m) = m_start m \<Longrightarrow> ts (m_end m) = m_end m \<Longrightarrow>
    \<not> (\<exists>x \<in> set ms. same_key x m) \<Longrightarrow> free_at now (m_host m) (m_start m) (m_end m) nil_uuid (ms, qs) \<Longrightarrow>
    move now Open_One (ms, qs) (ms @ [m], qs)"
| finish: "length ms' = length ms \<Longrightarrow>
    (\<And>k. k < length ms \<Longrightarrow> ms' ! k = ms ! k \<or> (\<exists>st. end_as st now (ms ! k) (ms' ! k))) \<Longrightarrow> move now End_Some (ms, qs) (ms', qs)"
| remind: "move now Stay (ms, qs) (map (\<lambda>m. if p m then m\<lparr>m_soon_at := Some now\<rparr> else m) ms, qs)"
| purge: "(\<And>m. m \<in> set ms \<Longrightarrow> m_host m = u \<Longrightarrow> live m \<Longrightarrow> m_end m \<le> now) \<Longrightarrow>
    length ms' = length ms \<Longrightarrow>
    (\<And>k. k < length ms \<Longrightarrow> \<exists>h. ms' ! k = (if m_host (ms ! k) = u then (ms ! k)\<lparr>m_host := h\<rparr> else ms ! k)) \<Longrightarrow>
    move now (Leave u) (ms, qs) (ms', filter (\<lambda>q. q_requester q \<noteq> u) qs)"

section \<open>Queueing changes neither table\<close>

definition quiet :: "mtx \<Rightarrow> mtx \<Rightarrow> bool" where
  "quiet t t' \<longleftrightarrow> core_of (x_db t') = core_of (x_db t) \<and> billing_queue (x_db t') = billing_queue (x_db t) \<and> x_now t' = x_now t"

definition same_books :: "mtx \<Rightarrow> mtx \<Rightarrow> bool" where
  "same_books t t' \<longleftrightarrow> billing_queue (x_db t') = billing_queue (x_db t)"

named_theorems quiet_intros "steps of a transaction that only queue"

lemma quiet_refl [simp]: "quiet t t"
  by (simp add: quiet_def)

lemma quiet_trans: "quiet t t' \<Longrightarrow> quiet t' t'' \<Longrightarrow> quiet t t''"
  by (simp add: quiet_def)

lemma draw_id_now: "draw_id t = (i, t') \<Longrightarrow> x_db t' = x_db t \<and> x_now t' = x_now t"
  by (auto simp: draw_id_def)

lemma quiet_activity [quiet_intros]: "insert_activity_event p t = Inr t' \<Longrightarrow> quiet t t'"
  by (auto simp: insert_activity_event_def quiet_def core_of_def draw_id_def Let_def)

lemma quiet_completed [quiet_intros]: "enqueue_meetups_completed p t = Inr t' \<Longrightarrow> quiet t t'"
  by (auto simp: enqueue_meetups_completed_def quiet_def core_of_def draw_id_def Let_def)

lemma quiet_notification: "enqueue_notification p t = Inr t' \<Longrightarrow> quiet t t'"
  by (auto simp: enqueue_notification_def quiet_def core_of_def draw_id_def Let_def)

lemma quiet_queue [quiet_intros]: "queue_notification e u k title body data t = Inr t' \<Longrightarrow> quiet t t'"
  by (auto simp: queue_notification_def Let_def dest: quiet_notification split: sum.splits if_splits)

lemma quiet_enqueue_all: "enqueue_all e ns t = Inr t' \<Longrightarrow> quiet t t'"
  by (induction e ns t rule: enqueue_all.induct) (auto split: sum.splits dest: quiet_notification intro: quiet_trans)

lemma quiet_queue_all [quiet_intros]: "queue_notifications e us k title body data t = Inr (n, t') \<Longrightarrow> quiet t t'"
  by (auto simp: queue_notifications_def Let_def dest: quiet_enqueue_all split: sum.splits if_splits)

lemma quiet_rejected [quiet_intros]: "notify_rejected e m qs t = Inr t' \<Longrightarrow> quiet t t'"
  by (induction e m qs t rule: notify_rejected.induct) (auto dest: quiet_queue intro: quiet_trans)

lemma quiet_closed [quiet_intros]: "queue_meetup_closed e m t = Inr t' \<Longrightarrow> quiet t t'"
  by (auto simp: queue_meetup_closed_def dest: quiet_queue_all)

lemma quiet_cancelled [quiet_intros]: "cancel_notify e reason m c t = Inr t' \<Longrightarrow> quiet t t'"
  by (auto simp: cancel_notify_def dest: quiet_queue_all)

lemma quiet_each: "(\<And>m t t'. f m t = Inr t' \<Longrightarrow> quiet t t') \<Longrightarrow> notify_each f ms t = Inr t' \<Longrightarrow> quiet t t'"
  by (induction f ms t rule: notify_each.induct) (auto, meson quiet_trans)

section \<open>Every transaction is a move\<close>

definition keyed :: "core \<Rightarrow> bool" where
  "keyed c \<longleftrightarrow> distinct (map m_id (fst c)) \<and> distinct (map q_id (snd c))"

lemma core_of_simps [simp]: "fst (core_of db) = meetups db" "snd (core_of db) = requests db"
  by (simp_all add: core_of_def)

lemma core_of_update [simp]:
  "core_of (db\<lparr>meetups := ms\<rparr>) = (ms, requests db)" "core_of (db\<lparr>requests := qs\<rparr>) = (meetups db, qs)"
  by (simp_all add: core_of_def)

lemma set_db_simps [simp]: "x_db (set_db t db) = db" "x_now (set_db t db) = x_now t"
  by (simp_all add: set_db_def)

lemma count_accepted_taken: "count_accepted_requests m db = int (taken m (requests db))"
  by (simp add: count_accepted_requests_def taken_def)

lemma update_where_cong: "(\<And>r. r \<in> set rows \<Longrightarrow> p r = p' r) \<Longrightarrow> (\<And>r. r \<in> set rows \<Longrightarrow> p r \<Longrightarrow> f r = f' r) \<Longrightarrow>
    update_where p f rows = update_where p' f' rows"
  by (simp add: update_where_def)

text \<open>A statement that names a row by its id touches that row alone.\<close>

lemma update_row:
  assumes "distinct (map k rows)" "find p rows = Some r" "\<And>r. p r \<Longrightarrow> k r = i" "g r = f r"
  shows "update_where p f rows = update_where (\<lambda>x. k x = i) g rows"
proof -
  from find_SomeD [OF assms(2)] assms(3) have *: "r \<in> set rows" "p r" "k r = i" by auto
  have only: "x = r" if "x \<in> set rows" "k x = i" for x
    using distinct_key_unique [OF assms(1) that(1) *(1)] that(2) *(3) by simp
  have "(if p x then f x else x) = (if k x = i then g x else x)" if x: "x \<in> set rows" for x
  proof (cases "k x = i")
    case True
    from only [OF x True] *(2,3) assms(4) show ?thesis by simp
  next
    case False
    with assms(3) [of x] show ?thesis by auto
  qed
  then show ?thesis unfolding update_where_def by (rule map_cong [OF refl])
qed

lemma update_request_row:
  assumes "keyed (core_of db)" "update_request p f db = (Some q', db')" "\<And>q. p q \<Longrightarrow> q_id q = i"
  shows "\<exists>q \<in> set (requests db). p q \<and> q_id q = i \<and> q' = f q \<and>
    (\<forall>g. g q = f q \<longrightarrow> db' = db\<lparr>requests := update_where (\<lambda>x. q_id x = i) g (requests db)\<rparr>)"
proof -
  from assms(2) obtain q where q: "find p (requests db) = Some q" "q' = f q"
    "db' = db\<lparr>requests := update_where p f (requests db)\<rparr>" by (auto simp: update_request_def)
  have u: "update_where p f (requests db) = update_where (\<lambda>x. q_id x = i) g (requests db)" if "g q = f q" for g
    using assms(1,3) q(1) that by (intro update_row [where k = q_id and r = q]) (auto simp: keyed_def)
  then have "db' = db\<lparr>requests := update_where (\<lambda>x. q_id x = i) g (requests db)\<rparr>" if "g q = f q" for g
    using u [of g, OF that] q(3) by simp
  with find_SomeD [OF q(1)] assms(3) q(2) show ?thesis by blast
qed

lemma update_meetup_row:
  assumes "keyed (core_of db)" "update_meetup p f db = (Some m', db')" "\<And>m. p m \<Longrightarrow> m_id m = i"
  shows "\<exists>m \<in> set (meetups db). p m \<and> m_id m = i \<and> m' = f m \<and>
    (\<forall>g. g m = f m \<longrightarrow> db' = db\<lparr>meetups := update_where (\<lambda>x. m_id x = i) g (meetups db)\<rparr>)"
proof -
  from assms(2) obtain m where m: "find p (meetups db) = Some m" "m' = f m"
    "db' = db\<lparr>meetups := update_where p f (meetups db)\<rparr>" by (auto simp: update_meetup_def)
  have u: "update_where p f (meetups db) = update_where (\<lambda>x. m_id x = i) g (meetups db)" if "g m = f m" for g
    using assms(1,3) m(1) that by (intro update_row [where k = m_id and r = m]) (auto simp: keyed_def)
  then have "db' = db\<lparr>meetups := update_where (\<lambda>x. m_id x = i) g (meetups db)\<rparr>" if "g m = f m" for g
    using u [of g, OF that] m(3) by simp
  with find_SomeD [OF m(1)] assms(3) m(2) show ?thesis by blast
qed

lemma resolve_row:
  assumes "keyed (core_of db)" "update_request p f db = (Some q', db')" "\<And>q. p q \<Longrightarrow> q_id q = i"
    and "\<And>q. f q = resolve st (q_auto q) now (text q) q"
  shows "\<exists>q \<in> set (requests db). p q \<and> q_id q = i \<and> q' = resolve st (q_auto q) now (text q) q \<and>
    db' = db\<lparr>requests := update_where (\<lambda>x. q_id x = i) (resolve st (q_auto q) now (text q)) (requests db)\<rparr>"
proof -
  from update_request_row [OF assms(1-3)] obtain q where q: "q \<in> set (requests db)" "p q" "q_id q = i" "q' = f q"
    and u: "\<And>g. g q = f q \<Longrightarrow> db' = db\<lparr>requests := update_where (\<lambda>x. q_id x = i) g (requests db)\<rparr>" by blast
  from u [of "resolve st (q_auto q) now (text q)"] q assms(4) [of q] show ?thesis by auto
qed

lemma reject_row:
  assumes "keyed (core_of db)" "reject_meetup_request i host now db = (Some q', db')"
  shows "\<exists>q \<in> set (requests db). q_status q = Pending \<and> q_id q = i \<and> q' = resolve Rejected (q_auto q) now (q_note q) q \<and>
    (\<exists>m \<in> set (meetups db). m_id m = q_meetup q \<and> m_host m = host) \<and>
    db' = db\<lparr>requests := update_where (\<lambda>x. q_id x = i) (resolve Rejected (q_auto q) now (q_note q)) (requests db)\<rparr>"
proof -
  have "q\<lparr>q_status := Rejected, q_resolved_at := Some now\<rparr> = resolve Rejected (q_auto q) now (q_note q) q" for q
    by (simp add: resolve_def)
  moreover have "q_id q = i \<and> q_status q = Pending \<and> list_ex (\<lambda>m. m_id m = q_meetup q \<and> m_host m = host) (meetups db) \<Longrightarrow> q_id q = i" for q by simp
  ultimately show ?thesis
    using resolve_row [OF assms(1) assms(2) [unfolded reject_meetup_request_def], of i Rejected now q_note]
    unfolding list_ex_iff by blast
qed

lemma accept_row:
  assumes "keyed (core_of db)" "accept_meetup_request i host now db = (Some q', db')"
  shows "\<exists>q \<in> set (requests db). q_status q = Pending \<and> q_id q = i \<and> q' = resolve Accepted (q_auto q) now (q_note q) q \<and>
    (\<exists>m \<in> set (meetups db). m_id m = q_meetup q \<and> m_host m = host \<and> now < m_end m) \<and>
    db' = db\<lparr>requests := update_where (\<lambda>x. q_id x = i) (resolve Accepted (q_auto q) now (q_note q)) (requests db)\<rparr>"
proof -
  have "q\<lparr>q_status := Accepted, q_resolved_at := Some now\<rparr> = resolve Accepted (q_auto q) now (q_note q) q" for q
    by (simp add: resolve_def)
  moreover have "q_id q = i \<and> q_status q = Pending \<and> list_ex (\<lambda>m. m_id m = q_meetup q \<and> m_host m = host \<and> now < m_end m) (meetups db) \<Longrightarrow> q_id q = i" for q by simp
  ultimately show ?thesis
    using resolve_row [OF assms(1) assms(2) [unfolded accept_meetup_request_def], of i Accepted now q_note]
    unfolding list_ex_iff by blast
qed

lemma withdraw_row:
  assumes "keyed (core_of db)" "withdraw_meetup_request i text u now db = (Some q', db')"
  shows "\<exists>q \<in> set (requests db). live_request q \<and> q_id q = i \<and> q' = resolve Withdrawn (q_auto q) now text q \<and>
    (\<exists>m \<in> set (meetups db). m_id m = q_meetup q \<and> live m \<and> now < m_end m) \<and>
    db' = db\<lparr>requests := update_where (\<lambda>x. q_id x = i) (resolve Withdrawn (q_auto q) now text) (requests db)\<rparr>"
proof -
  have "q\<lparr>q_status := Withdrawn, q_resolved_at := Some now, q_note := text\<rparr> = resolve Withdrawn (q_auto q) now text q" for q
    by (simp add: resolve_def)
  moreover have "q_id q = i \<and> q_requester q = u \<and> live_request q \<and> list_ex (\<lambda>m. m_id m = q_meetup q \<and> live m \<and> now < m_end m) (meetups db) \<Longrightarrow> q_id q = i" for q by simp
  ultimately show ?thesis
    using resolve_row [OF assms(1) assms(2) [unfolded withdraw_meetup_request_def], of i Withdrawn now "\<lambda>_. text"]
    unfolding list_ex_iff by blast
qed

lemma cancel_row:
  assumes "keyed (core_of db)" "cancel_meetup_row i reason host now db = (Some m', db')"
  shows "\<exists>m \<in> set (meetups db). m_id m = i \<and> m_host m = host \<and> live m \<and>
    m' = m\<lparr>m_status := MCancelled, m_cancelled_at := Some now, m_reason := reason\<rparr> \<and>
    db' = db\<lparr>meetups := update_where (\<lambda>x. m_id x = i)
      (\<lambda>m. m\<lparr>m_status := MCancelled, m_cancelled_at := Some now, m_reason := reason\<rparr>) (meetups db)\<rparr>"
  using update_meetup_row [OF assms(1) assms(2) [unfolded cancel_meetup_row_def], of i] by auto

lemma close_row:
  assumes "keyed (core_of db)" "close_meetup_row i host now db = (Some m', db')"
  shows "\<exists>m \<in> set (meetups db). m_id m = i \<and> m_host m = host \<and> live m \<and> m_start m \<le> now \<and>
    m' = m\<lparr>m_status := MCompleted, m_closed_at := Some now\<rparr> \<and>
    db' = db\<lparr>meetups := update_where (\<lambda>x. m_id x = i)
      (\<lambda>m. m\<lparr>m_status := MCompleted, m_closed_at := Some now\<rparr>) (meetups db)\<rparr>"
  using update_meetup_row [OF assms(1) assms(2) [unfolded close_meetup_row_def], of i] by auto

lemma get_meetup_iff: "keyed (core_of db) \<Longrightarrow> get_meetup i db = Some m \<longleftrightarrow> m \<in> set (meetups db) \<and> m_id m = i"
  by (simp add: get_meetup_def find_Some_iff_key keyed_def)

lemma get_request_iff: "keyed (core_of db) \<Longrightarrow> get_meetup_request i db = Some q \<longleftrightarrow> q \<in> set (requests db) \<and> q_id q = i"
  by (simp add: get_meetup_request_def find_Some_iff_key keyed_def)

lemma billing_event_core: "insert_billing_event p t = Inr t' \<Longrightarrow> core_of (x_db t') = core_of (x_db t) \<and> x_now t' = x_now t"
  by (auto simp: insert_billing_event_def core_of_def draw_id_def Let_def)

lemma billing_events_core:
  "enqueue_billing_events topic ms t = Inr t' \<Longrightarrow> core_of (x_db t') = core_of (x_db t) \<and> x_now t' = x_now t"
  by (induction topic ms t rule: enqueue_billing_events.induct) (auto split: option.splits sum.splits dest: billing_event_core)

text \<open>What a transaction queues for billing about the meetups it ends.\<close>

definition sent :: "meetup_db \<Rightarrow> billing_event list" where
  "sent db = map oe_payload (billing_queue db)"

definition charged_events :: "string \<Rightarrow> meetup_db \<Rightarrow> meetup_row list \<Rightarrow> billing_event list" where
  "charged_events topic db ms = map (\<lambda>m. billing_event_of topic db m (the (m_hold m))) (filter (\<lambda>m. m_hold m \<noteq> None) ms)"

definition end_topic :: "meetup_row \<Rightarrow> string" where
  "end_topic m = (if m_status m = MCancelled then topic_cancelled else topic_closed)"

definition booked_end :: "string \<Rightarrow> meetup_row list \<Rightarrow> meetup_db \<Rightarrow> meetup_db \<Rightarrow> bool" where
  "booked_end topic rows db db' \<longleftrightarrow> sent db' = sent db @ charged_events topic db' rows \<and> distinct (map m_id rows) \<and>
     (\<forall>m \<in> set rows. \<not> live m \<and> end_topic m = topic \<and> (\<exists>x \<in> set (meetups db). m_id x = m_id m \<and> live x)) \<and>
     (\<forall>m \<in> set (meetups db'). m \<in> set rows \<or> m \<in> set (meetups db)) \<and> set rows \<subseteq> set (meetups db')"

lemma billing_event_of_cong: "requests db = requests db' \<Longrightarrow> billing_event_of topic db = billing_event_of topic db'"
  by (intro ext) (simp add: billing_event_of_def count_accepted_requests_def)

lemma billing_events_effect:
  "enqueue_billing_events topic ms t = Inr t' \<Longrightarrow> sent (x_db t') = sent (x_db t) @ charged_events topic (x_db t') ms"
proof (induction topic ms t rule: enqueue_billing_events.induct)
  case (2 topic m ms t)
  show ?case
  proof (cases "m_hold m")
    case (Some h)
    with 2(3) obtain t1 where i: "insert_billing_event (billing_event_of topic (x_db t) m h) t = Inr t1"
      and r: "enqueue_billing_events topic ms t1 = Inr t'" by (auto split: sum.splits)
    from i have "sent (x_db t1) = sent (x_db t) @ [billing_event_of topic (x_db t) m h]"
      by (auto simp: insert_billing_event_def outbox_insert_def sent_def draw_id_def Let_def split: if_splits)
    moreover have "billing_event_of topic (x_db t) = billing_event_of topic (x_db t')"
      using billing_event_core [OF i] billing_events_core [OF r] by (intro billing_event_of_cong) (simp add: core_of_def)
    ultimately show ?thesis using 2(2) [OF Some i r] Some by (simp add: charged_events_def)
  qed (use 2 in \<open>simp add: charged_events_def\<close>)
qed (simp add: charged_events_def)

lemma booked_update:
  assumes k: "keyed (core_of db)" and p: "\<And>m. m \<in> set (meetups db) \<Longrightarrow> p m \<Longrightarrow> live m \<and> \<not> live (f m) \<and> m_id (f m) = m_id m \<and> end_topic (f m) = topic"
    and ms: "meetups db' = update_where p f (meetups db)" and s: "sent db' = sent db @ charged_events topic db' (map f (filter p (meetups db)))"
  shows "booked_end topic (map f (filter p (meetups db))) db db'"
proof -
  have "map m_id (map f (filter p (meetups db))) = map m_id (filter p (meetups db))" using p by auto
  then have "distinct (map m_id (map f (filter p (meetups db))))"
    using k distinct_map_filter [of m_id "meetups db" p] by (simp only: keyed_def core_of_simps)
  with p s show ?thesis unfolding booked_end_def ms set_update_where by auto
qed

lemma filter_row: "distinct (map k xs) \<Longrightarrow> x \<in> set xs \<Longrightarrow> filter (\<lambda>y. k y = k x) xs = [x]"
  by (induction xs) (auto simp: filter_empty_conv image_iff)

lemma booked_row:
  assumes k: "keyed (core_of db)" and m: "m \<in> set (meetups db)" "live m"
    and f: "\<not> live (f m)" "m_id (f m) = m_id m" "end_topic (f m) = topic"
    and ms: "meetups db' = update_where (\<lambda>x. m_id x = m_id m) f (meetups db)" and s: "sent db' = sent db @ charged_events topic db' [f m]"
  shows "booked_end topic [f m] db db'"
proof -
  have only: "x = m" if "x \<in> set (meetups db)" "m_id x = m_id m" for x
    using k that m(1) distinct_key_unique [of m_id "meetups db" x m] by (simp add: keyed_def)
  have row: "map f (filter (\<lambda>x. m_id x = m_id m) (meetups db)) = [f m]"
    using k m(1) filter_row [of m_id "meetups db" m] by (simp add: keyed_def)
  have "booked_end topic (map f (filter (\<lambda>x. m_id x = m_id m) (meetups db))) db db'"
    by (rule booked_update [OF k _ ms]) (use s row m(2) f in \<open>auto dest!: only\<close>)
  with row show ?thesis by simp
qed

text \<open>Ending some of the meetups.\<close>

lemma finish_where:
  assumes "\<And>m. m \<in> set ms \<Longrightarrow> p m \<Longrightarrow> live m \<and> end_as st now m (f m)"
  shows "move now End_Some (ms, qs) (update_where p f ms, qs)"
proof (intro move.finish)
  fix k
  assume "k < length ms"
  with assms [of "ms ! k"] show "update_where p f ms ! k = ms ! k \<or> (\<exists>st. end_as st now (ms ! k) (update_where p f ms ! k))"
    by (auto simp: update_where_def)
qed simp

lemma sort_take_set: "x \<in> set (take n (sort_key k xs)) \<Longrightarrow> x \<in> set xs"
  by (metis in_set_takeD set_sort)

lemma claimed_due:
  assumes "claim_meetups due key f n db = (Inr rows, db')" "keyed (core_of db)"
  shows "\<exists>p. (\<forall>m \<in> set (meetups db). p m \<longrightarrow> due m) \<and> rows = map f (filter p (meetups db)) \<and>
    db' = db\<lparr>meetups := update_where p f (meetups db)\<rparr>"
proof -
  let ?ids = "map m_id (take (nat n) (sort_key key (filter due (meetups db))))"
  have "due m" if m: "m \<in> set (meetups db)" "m_id m \<in> set ?ids" for m
  proof -
    from m(2) obtain x where "x \<in> set (take (nat n) (sort_key key (filter due (meetups db))))" "m_id x = m_id m" by auto
    with sort_take_set [OF this(1)] have x: "x \<in> set (meetups db)" "due x" "m_id x = m_id m" by auto
    with m(1) assms(2) distinct_key_unique [of m_id "meetups db" x m] show ?thesis by (simp add: keyed_def)
  qed
  moreover have "rows = map f (filter (\<lambda>m. m_id m \<in> set ?ids) (meetups db)) \<and>
    db' = db\<lparr>meetups := update_where (\<lambda>m. m_id m \<in> set ?ids) f (meetups db)\<rparr>"
    using assms(1) unfolding claim_meetups_def Let_def by (simp split: if_splits)
  ultimately show ?thesis by (intro exI [of _ "\<lambda>m. m_id m \<in> set ?ids"] conjI ballI impI) blast+
qed

text \<open>A callback of the repository that only queues notifications.\<close>

locale notifier =
  fixes notify :: "'x \<Rightarrow> mtx \<Rightarrow> go_error + mtx"
  assumes only_queues: "notify x t = Inr t' \<Longrightarrow> quiet t t'"
begin

lemma reject_moves:
  assumes "keyed (core_of (x_db t))" "requests_reject e i host (\<lambda>q. notify (g q)) t = Inr (q', t')"
  shows "move (x_now t) Stay (core_of (x_db t)) (core_of (x_db t')) \<and> same_books t t'"
proof -
  from assms(2) obtain rid u db where
      rej: "reject_meetup_request rid u (x_now t) (x_db t) = (Some q', db)"
    and n: "notify (g q') (set_db t db) = Inr t'"
    by (clarsimp simp: requests_reject_def) (auto split: prod.splits option.splits sum.splits)
  from only_queues [OF n] have c: "core_of (x_db t') = core_of db" "billing_queue (x_db t') = billing_queue db" by (simp_all add: quiet_def)
  with reject_row [OF assms(1) rej] show ?thesis by (auto simp: core_of_def same_books_def intro: move.decline)
qed

lemma create_moves:
  assumes k: "keyed (core_of (x_db t))"
    and c: "requests_create e meetup requester host guard (\<lambda>q. notify (g q)) t = Inr (q', t')"
    and free: "\<And>mid u x. em_parse e meetup = Some mid \<Longrightarrow> em_parse e requester = Some u \<Longrightarrow> guard t = None \<Longrightarrow>
      x \<in> set (meetups (x_db t)) \<Longrightarrow> m_id x = mid \<Longrightarrow> free_at (x_now t) u (m_start x) (m_end x) mid (core_of (x_db t))"
  shows "move (x_now t) Stay (core_of (x_db t)) (core_of (x_db t')) \<and> same_books t t'"
proof -
  from c obtain mid u t1 i db t2 where ids: "em_parse e meetup = Some mid" "em_parse e requester = Some u"
    and gd: "guard t = None" and i: "draw_id t = (i, t1)"
    and cr: "create_meetup_request i mid u (x_now t1) (x_db t1) = Inr (Some q', db)"
    and ac: "insert_activity_event \<lparr>ac_topic = ''request.created'', ac_request = q_id q', ac_meetup = meetup,
             ac_requester = requester, ac_host = host, ac_at = em_now e\<rparr> (set_db t1 db) = Inr t2"
    and n: "notify (g q') t2 = Inr t'"
    unfolding requests_create_def parse_id_def
    by (clarsimp split: option.splits) (auto simp: Let_def split: prod.splits option.splits sum.splits if_splits)
  from draw_id_now [OF i] have [simp]: "x_db t1 = x_db t" "x_now t1 = x_now t" by auto
  from quiet_activity [OF ac] only_queues [OF n] have core: "core_of (x_db t') = core_of db" "billing_queue (x_db t') = billing_queue db" by (simp_all add: quiet_def)
  from cr have q': "q' = \<lparr>q_id = i, q_meetup = mid, q_requester = u, q_status = Pending, q_auto = False,
      q_created_at = x_now t, q_resolved_at = None, q_note = None\<rparr>" "db = (x_db t)\<lparr>requests := requests (x_db t) @ [q']\<rparr>"
    and fresh_q: "\<And>p. p \<in> set (requests (x_db t)) \<Longrightarrow> q_id p \<noteq> i \<and> (q_meetup p = mid \<longrightarrow> q_requester p = u \<longrightarrow> q_status p \<noteq> Rejected \<and> \<not> live_request p)"
    and "\<exists>x \<in> set (meetups (x_db t)). m_id x = mid \<and> meetup_joinable (x_now t) x"
    by (auto simp: create_meetup_request_def Let_def list_ex_iff split: if_splits)
  then obtain x where x: "x \<in> set (meetups (x_db t))" "m_id x = mid" "meetup_joinable (x_now t) x" by blast
  have "q_status p = Withdrawn" if "p \<in> set (requests (x_db t))" "q_meetup p = m_id x" "q_requester p = u" for p
    using fresh_q [OF that(1)] that(2,3) x(2) by (cases "q_status p") (auto simp: live_request_def)
  moreover have "i \<notin> q_id ` set (requests (x_db t))" using fresh_q by auto
  ultimately have "move (x_now t) Stay (meetups (x_db t), requests (x_db t)) (meetups (x_db t), requests (x_db t) @ [q'])"
    unfolding q'(1) x(2) [symmetric]
    using free [OF ids gd x(1,2)] x by (intro move.ask) (auto simp: core_of_def)
  with core q'(2) show ?thesis by (simp add: core_of_def same_books_def)
qed

lemma withdraw_moves:
  assumes k: "keyed (core_of (x_db t))"
    and w: "requests_withdraw e i text requester (\<lambda>q. notify (g q)) t = Inr (q', t')"
  shows "move (x_now t) Stay (core_of (x_db t)) (core_of (x_db t')) \<and> same_books t t'"
proof -
  from w obtain rid u q db t1 where q: "get_meetup_request rid (x_db t) = Some q"
    and wd: "withdraw_meetup_request rid (text_or_null text) u (x_now t) (x_db t) = (Some q', db)"
    and t1: "free_seat (q_status q = Accepted) (q_meetup q) (set_db t db) = Inr t1"
    and n: "notify (g q') t1 = Inr t'"
    unfolding requests_withdraw_def
    by clarsimp (auto split: prod.splits option.splits sum.splits)
  from withdraw_row [OF k wd] obtain y m where y: "y \<in> set (requests (x_db t))" "live_request y" "q_id y = rid"
    and m: "m \<in> set (meetups (x_db t))" "m_id m = q_meetup y" "live m" "x_now t < m_end m"
    and db: "db = (x_db t)\<lparr>requests := update_where (\<lambda>x. q_id x = rid)
      (resolve Withdrawn (q_auto y) (x_now t) (text_or_null text)) (requests (x_db t))\<rparr>" by blast
  from q k y have "q = y" by (auto simp: get_request_iff keyed_def dest: distinct_key_unique)
  let ?qs = "update_where (\<lambda>x. q_id x = q_id y) (resolve Withdrawn (q_auto y) (x_now t) (text_or_null text)) (requests (x_db t))"
  let ?ms = "if q_status y = Accepted
      then update_where (\<lambda>x. m_id x = m_id m \<and> m_status x = MFull \<and> int (taken (m_id x) ?qs) < m_capacity x) (m_status_update (\<lambda>_. MOpen)) (meetups (x_db t))
      else meetups (x_db t)"
  have "core_of (x_db t1) = (?ms, ?qs)" "billing_queue (x_db t1) = billing_queue (x_db t)"
    using t1 db y(3) m(2) \<open>q = y\<close>
    by (auto simp: free_seat_def reopen_meetup_if_seat_freed_def Let_def count_accepted_taken core_of_def quiet_def
        dest!: quiet_completed split: if_splits sum.splits)
  moreover have "core_of (x_db t') = core_of (x_db t1)" "billing_queue (x_db t') = billing_queue (x_db t1)"
    using only_queues [OF n] by (simp_all add: quiet_def)
  ultimately show ?thesis
    using move.withdraw [OF y(1,2) m refl refl] by (simp add: core_of_def same_books_def)
qed

lemma accept_moves:
  assumes k: "keyed (core_of (x_db t))" and now: "x_now t = ts (em_now e)"
    and a: "requests_accept e i caller (\<lambda>q rs. notify (g q rs)) t = Inr (r, t')"
  shows "move (x_now t) Stay (core_of (x_db t)) (core_of (x_db t')) \<and> same_books t t'"
proof -
  from a obtain rid host q m q' db1 full rejected db2 t2 where q: "get_meetup_request rid (x_db t) = Some q"
    and m: "get_meetup (q_meetup q) (x_db t) = Some m" "m_status m = MOpen"
    and seats: "count_accepted_requests (q_meetup q) (x_db t) < m_capacity m"
    and acc: "accept_meetup_request rid host (x_now t) (x_db t) = (Some q', db1)"
    and db2: "(if m_capacity m \<le> count_accepted_requests (m_id m) db1
            then let (rejected, db) = auto_reject_pending_requests (m_id m) (x_now t) (mark_meetup_full (m_id m) db1) in
              (True, rejected, db)
            else (False, [], db1)) = (full, rejected, db2)"
    and ac: "insert_activity_event \<lparr>ac_topic = ''request.accepted'', ac_request = q_id q', ac_meetup = q_meetup q',
             ac_requester = q_requester q', ac_host = m_host m, ac_at = em_now e\<rparr> (set_db t db2) = Inr t2"
    and n: "notify (g q' rejected) t2 = Inr t'"
    unfolding requests_accept_def
    by clarsimp (auto split: prod.splits option.splits sum.splits if_splits)
  from accept_row [OF k acc] obtain y x where y: "y \<in> set (requests (x_db t))" "q_status y = Pending" "q_id y = rid"
    and x: "x \<in> set (meetups (x_db t))" "m_id x = q_meetup y" "x_now t < m_end x"
    and db1: "db1 = (x_db t)\<lparr>requests := update_where (\<lambda>x. q_id x = rid) (resolve Accepted (q_auto y) (x_now t) (q_note y)) (requests (x_db t))\<rparr>"
    by blast
  from q k y have qy: "q = y" by (auto simp: get_request_iff keyed_def dest: distinct_key_unique)
  with m(1) k x have mx: "m = x" by (auto simp: get_meetup_iff keyed_def dest: distinct_key_unique)
  let ?qs = "update_where (\<lambda>p. q_id p = q_id y) (resolve Accepted (q_auto y) (x_now t) (q_note y)) (requests (x_db t))"
  from quiet_activity [OF ac] only_queues [OF n] have core2: "core_of (x_db t') = core_of db2" and "billing_queue (x_db t') = billing_queue db2" by (simp_all add: quiet_def)
  moreover have "billing_queue db2 = billing_queue (x_db t)"
    using db2 db1 by (auto simp: auto_reject_pending_requests_def mark_meetup_full_def Let_def split: if_splits)
  ultimately have books: "same_books t t'" by (simp add: same_books_def)
  note core2
  also from db2 db1 y(3) mx have "core_of db2 = (if int (taken (m_id x) ?qs) < m_capacity x then (meetups (x_db t), ?qs)
      else (update_where (\<lambda>z. m_id z = m_id x) (m_status_update (\<lambda>_. MFull)) (meetups (x_db t)),
        update_where (\<lambda>p. q_meetup p = m_id x \<and> q_status p = Pending)
          (\<lambda>p. p\<lparr>q_status := Rejected, q_resolved_at := Some (x_now t), q_auto := True\<rparr>) ?qs))"
    by (auto simp: auto_reject_pending_requests_def mark_meetup_full_def count_accepted_taken core_of_def Let_def split: if_splits)
  finally have core: "core_of (x_db t') = \<dots>" .
  have "int (taken (m_id x) (requests (x_db t))) < m_capacity x"
    using seats by (simp add: count_accepted_taken qy mx x(2))
  from move.admit [OF y(1,2) x(1,2) _ x(3) this refl core [unfolded core_of_def]]
  show ?thesis using m(2) mx books by (simp add: core_of_def)
qed

lemma cancel_moves:
  assumes k: "keyed (core_of (x_db t))" and c: "meetups_cancel e i reason host (\<lambda>m. notify (h m)) t = Inr (m', t')"
  shows "move (x_now t) End_Some (core_of (x_db t)) (core_of (x_db t')) \<and> (\<exists>rows. booked_end topic_cancelled rows (x_db t) (x_db t'))"
proof -
  from c obtain mid u db t1 where row: "cancel_meetup_row mid (text_or_null reason) u (x_now t) (x_db t) = (Some m', db)"
    and n: "notify (h m') (set_db t db) = Inr t1" and b: "enqueue_billing_events topic_cancelled [m'] t1 = Inr t'"
    unfolding meetups_cancel_def
    by (clarsimp simp del: enqueue_billing_events.simps) (auto simp del: enqueue_billing_events.simps split: prod.splits option.splits sum.splits)
  from billing_events_core [OF b] only_queues [OF n] have core: "core_of (x_db t') = core_of db" by (simp add: quiet_def)
  from cancel_row [OF k row] obtain m where m: "m \<in> set (meetups (x_db t))" "m_id m = mid" "live m"
    and m': "m' = m\<lparr>m_status := MCancelled, m_cancelled_at := Some (x_now t), m_reason := text_or_null reason\<rparr>"
    and db: "db = (x_db t)\<lparr>meetups := update_where (\<lambda>x. m_id x = mid)
      (\<lambda>m. m\<lparr>m_status := MCancelled, m_cancelled_at := Some (x_now t), m_reason := text_or_null reason\<rparr>) (meetups (x_db t))\<rparr>"
    by blast
  have only: "x = m" if "x \<in> set (meetups (x_db t))" "m_id x = mid" for x
    using k that m(1,2) distinct_key_unique [of m_id "meetups (x_db t)" x m] by (simp add: keyed_def)
  with m(3) have mv: "move (x_now t) End_Some (meetups (x_db t), requests (x_db t)) (core_of db)"
    unfolding db core_of_update by (intro finish_where [where st = MCancelled]) (auto simp: end_as_def)
  moreover have "sent (x_db t') = sent (x_db t) @ charged_events topic_cancelled (x_db t') [m']"
    using billing_events_effect [OF b] only_queues [OF n] db by (simp add: sent_def quiet_def)
  then have "booked_end topic_cancelled [m'] (x_db t) (x_db t')"
    unfolding m' using core db m(2,3)
    by (intro booked_row [OF k m(1), where f = "\<lambda>m. m\<lparr>m_status := MCancelled, m_cancelled_at := Some (x_now t), m_reason := text_or_null reason\<rparr>"])
      (simp_all add: core_of_def end_topic_def live_def topic_cancelled_def topic_closed_def)
  ultimately show ?thesis using core by (auto simp: core_of_def)
qed

lemma close_moves:
  assumes k: "keyed (core_of (x_db t))" and c: "meetups_close e i host (\<lambda>m. notify (h m)) t = Inr (m', t')"
  shows "move (x_now t) End_Some (core_of (x_db t)) (core_of (x_db t')) \<and> (\<exists>rows. booked_end topic_closed rows (x_db t) (x_db t'))"
proof -
  from c obtain mid u db t1 t2 where row: "close_meetup_row mid u (x_now t) (x_db t) = (Some m', db)"
    and n: "notify (h m') (set_db t db) = Inr t1" and q: "enqueue_meetups_completed [m_id m'] t1 = Inr t2"
    and b: "enqueue_billing_events topic_closed [m'] t2 = Inr t'"
    unfolding meetups_close_def
    by (clarsimp simp del: enqueue_billing_events.simps) (auto simp del: enqueue_billing_events.simps split: prod.splits option.splits sum.splits)
  from billing_events_core [OF b] quiet_completed [OF q] only_queues [OF n]
  have core: "core_of (x_db t') = core_of db" by (simp add: quiet_def)
  from close_row [OF k row] obtain m where m: "m \<in> set (meetups (x_db t))" "m_id m = mid" "live m"
    and m': "m' = m\<lparr>m_status := MCompleted, m_closed_at := Some (x_now t)\<rparr>"
    and db: "db = (x_db t)\<lparr>meetups := update_where (\<lambda>x. m_id x = mid)
      (\<lambda>m. m\<lparr>m_status := MCompleted, m_closed_at := Some (x_now t)\<rparr>) (meetups (x_db t))\<rparr>" by blast
  have only: "x = m" if "x \<in> set (meetups (x_db t))" "m_id x = mid" for x
    using k that m(1,2) distinct_key_unique [of m_id "meetups (x_db t)" x m] by (simp add: keyed_def)
  with m(3) have mv: "move (x_now t) End_Some (meetups (x_db t), requests (x_db t)) (core_of db)"
    unfolding db core_of_update by (intro finish_where [where st = MCompleted]) (auto simp: end_as_def)
  moreover have "sent (x_db t') = sent (x_db t) @ charged_events topic_closed (x_db t') [m']"
    using billing_events_effect [OF b] only_queues [OF n] quiet_completed [OF q] db by (simp add: sent_def quiet_def)
  then have "booked_end topic_closed [m'] (x_db t) (x_db t')"
    unfolding m' using core db m(2,3)
    by (intro booked_row [OF k m(1), where f = "\<lambda>m. m\<lparr>m_status := MCompleted, m_closed_at := Some (x_now t)\<rparr>"])
      (simp_all add: core_of_def end_topic_def live_def topic_cancelled_def topic_closed_def)
  ultimately show ?thesis using core by (auto simp: core_of_def)
qed

lemma sweep_effect:
  assumes k: "keyed (core_of (x_db t))"
    and s: "claim_sweep label n (\<lambda>ms. notify (h ms)) completes (claim_meetups due key f) t = Inr (rows, t')"
  shows "\<exists>p. (\<forall>m \<in> set (meetups (x_db t)). p m \<longrightarrow> due m) \<and> core_of (x_db t') = (update_where p f (meetups (x_db t)), requests (x_db t)) \<and>
    (if completes then sent (x_db t') = sent (x_db t) @ charged_events topic_closed (x_db t') (map f (filter p (meetups (x_db t))))
     else same_books t t')"
proof -
  from s obtain rs db where c: "claim_meetups due key f (i32 n) (x_db t) = (Inr rs, db)"
    and r: "if rs = [] then t' = t else \<exists>t1. notify (h rs) (set_db t db) = Inr t1 \<and> (if completes
      then \<exists>t2. enqueue_meetups_completed (map m_id rs) t1 = Inr t2 \<and> enqueue_billing_events topic_closed rs t2 = Inr t' else t' = t1)"
    unfolding claim_sweep_def
    by (auto split: prod.splits sum.splits if_splits)
  from claimed_due [OF c k] obtain p where p: "\<forall>m \<in> set (meetups (x_db t)). p m \<longrightarrow> due m" "rs = map f (filter p (meetups (x_db t)))"
    and db: "db = (x_db t)\<lparr>meetups := update_where p f (meetups (x_db t))\<rparr>" by blast
  show ?thesis
  proof (cases "rs = []")
    case True
    with p(2) have "update_where p f (meetups (x_db t)) = meetups (x_db t)" by (auto simp: filter_empty_conv intro: update_where_none)
    with True r p show ?thesis by (intro exI [of _ p]) (simp add: core_of_def charged_events_def same_books_def)
  next
    case False
    with r obtain t1 where n: "notify (h rs) (set_db t db) = Inr t1" and c: "if completes
      then \<exists>t2. enqueue_meetups_completed (map m_id rs) t1 = Inr t2 \<and> enqueue_billing_events topic_closed rs t2 = Inr t' else t' = t1" by auto
    from only_queues [OF n] db have n1: "core_of (x_db t1) = (update_where p f (meetups (x_db t)), requests (x_db t))"
      "billing_queue (x_db t1) = billing_queue (x_db t)" by (simp_all add: quiet_def)
    show ?thesis
    proof (cases completes)
      case True
      with c obtain t2 where q: "enqueue_meetups_completed (map m_id rs) t1 = Inr t2" and b: "enqueue_billing_events topic_closed rs t2 = Inr t'" by auto
      from quiet_completed [OF q] n1 billing_events_core [OF b] billing_events_effect [OF b] p True
      show ?thesis by (intro exI [of _ p]) (simp add: quiet_def sent_def)
    next
      case False
      with c n1 p(1) show ?thesis by (intro exI [of _ p]) (simp add: same_books_def)
    qed
  qed
qed

end

interpretation joined: notifier "\<lambda>q t. res_bind (tx_request (q_id q) t) (\<lambda>full.
    queue_notification e (m_host m) k title (b full) (d q) t)" for e m k title b d
  by unfold_locales (auto dest: quiet_queue)

interpretation rejected: notifier "\<lambda>q t. queue_notification e (q_requester q) k title b (d q) t" for e k title b d
  by unfold_locales (auto dest: quiet_queue)

interpretation accepted: notifier "\<lambda>(q, rs) t. res_bind (queue_notification e (q_requester q) k title b (d q) t) (\<lambda>t.
    res_bind (queue_notification e (q_requester q) k' title' b' d' t) (\<lambda>t. notify_rejected e m rs t))"
  for e m k title b d k' title' b' d'
  by unfold_locales (auto simp: quiet_def dest!: quiet_queue quiet_rejected)

interpretation cancelled: notifier "cancel_notify e reason m" for e reason m
  by unfold_locales (rule quiet_cancelled)

interpretation closed: notifier "queue_meetup_closed e" for e
  by unfold_locales (rule quiet_closed)

interpretation swept: notifier "notify_each (queue_meetup_closed e)" for e
  by unfold_locales (auto intro: quiet_each quiet_closed)

section \<open>The transactions of the handlers\<close>

lemma sort_key_Nil: "sort_key f xs = [] \<longleftrightarrow> xs = []"
  using length_sort [of f xs] by (cases xs) auto

lemma engaged_iff: "engaged u db m \<longleftrightarrow> engaged_in u (requests db) m"
  by (simp add: engaged_def engaged_in_def list_ex_iff)

lemma free_at_find:
  assumes "find_schedule_conflict u ws we x now db = None"
  shows "free_at now u ws we x (core_of db)"
proof -
  have "sort_key (\<lambda>m. (m_start m, m_id m)) (filter (\<lambda>m. overlapping now ws we m \<and> m_id m \<noteq> x \<and> engaged u db m) (meetups db)) = []"
    using assms by (auto simp: find_schedule_conflict_def split: list.splits)
  then have "filter (\<lambda>m. overlapping now ws we m \<and> m_id m \<noteq> x \<and> engaged u db m) (meetups db) = []"
    by (simp add: sort_key_Nil)
  then have "\<not> (overlapping now ws we m \<and> m_id m \<noteq> x \<and> engaged u db m)" if "m \<in> set (meetups db)" for m
    using that by (simp add: filter_empty_conv)
  then show ?thesis unfolding free_at_def engaged_iff core_of_simps by blast
qed

lemma schedule_guard_free:
  assumes "schedule_guard e user ws we exclude t = None" "em_parse e user = Some u"
    and "exclude = [] \<Longrightarrow> x = nil_uuid" "exclude \<noteq> [] \<Longrightarrow> em_parse e exclude = Some x"
  shows "free_at (x_now t) u (ts ws) (ts we) x (core_of (x_db t))"
proof -
  have "schedule_conflict e user ws we exclude (x_now t) (x_db t) = Inr None"
    using assms(1) by (auto simp: schedule_guard_def split: sum.splits option.splits)
  with assms(2-4) have "find_schedule_conflict u (ts ws) (ts we) x (x_now t) (x_db t) = None"
    by (cases "exclude = []") (simp_all add: schedule_conflict_def parse_id_def)
  then show ?thesis by (rule free_at_find)
qed

text \<open>\<open>plan_current\<close>: what a handler read of a meetup before its transaction still holds of its window.\<close>

definition plan_current :: "meetup_view \<Rightarrow> meetup_db \<Rightarrow> bool" where
  "plan_current m db \<longleftrightarrow> (\<exists>x \<in> set (meetups db). m_id x = m_id m \<and> m_start x = m_start m \<and> m_end x = m_end m)"

text \<open>\<open>uuid.Parse\<close> accepts the canonical text of an id and returns it.\<close>

definition canonical :: "'z meetup_env_scheme \<Rightarrow> bool" where
  "canonical e \<longleftrightarrow> (\<forall>s u. em_parse e s = Some u \<longrightarrow> u \<noteq> [] \<and> em_parse e u = Some u)"

lemma join_tx_moves:
  assumes k: "keyed (core_of (x_db t))" and j: "join_tx e r m t = Inr (q', t')"
    and cur: "plan_current m (x_db t)" and id: "em_parse e (jr_meetup r) = Some (m_id m)" "canonical e"
    and stamps: "\<And>x. x \<in> set (meetups (x_db t)) \<Longrightarrow> ts (m_start x) = m_start x \<and> ts (m_end x) = m_end x"
  shows "move (x_now t) Stay (core_of (x_db t)) (core_of (x_db t')) \<and> same_books t t'"
proof (rule joined.create_moves [where g = "\<lambda>q. q", OF k j [unfolded join_tx_def request_data_def, folded request_data_def]])
  fix mid u x
  assume a: "em_parse e (jr_meetup r) = Some mid" "em_parse e (jr_requester r) = Some u"
    "schedule_guard e (jr_requester r) (m_start m) (m_end m) (m_id m) t = None" "x \<in> set (meetups (x_db t))" "m_id x = mid"
  from cur obtain y where y: "y \<in> set (meetups (x_db t))" "m_id y = m_id m" "m_start y = m_start m" "m_end y = m_end m"
    by (auto simp: plan_current_def)
  with a(1,4,5) id(1) k distinct_key_unique [of m_id "meetups (x_db t)" x y] have "x = y" by (simp add: keyed_def)
  with y stamps [OF a(4)] have w: "ts (m_start m) = m_start x" "ts (m_end m) = m_end x" by simp_all
  from id have "m_id m \<noteq> []" "em_parse e (m_id m) = Some (m_id m)" by (auto simp: canonical_def)
  then have "free_at (x_now t) u (ts (m_start m)) (ts (m_end m)) (m_id m) (core_of (x_db t))"
    by (intro schedule_guard_free [OF a(3,2)]) auto
  with w a(1) id(1) show "free_at (x_now t) u (m_start x) (m_end x) mid (core_of (x_db t))" by simp
qed

lemma withdraw_tx_moves:
  assumes "keyed (core_of (x_db t))" "withdraw_tx e r m t = Inr (q', t')"
  shows "move (x_now t) Stay (core_of (x_db t)) (core_of (x_db t')) \<and> same_books t t'"
  using joined.withdraw_moves [where g = "\<lambda>q. q", OF assms(1) assms(2) [unfolded withdraw_tx_def]] .

lemma reject_tx_moves:
  assumes "keyed (core_of (x_db t))" "reject_tx e r m t = Inr (q', t')"
  shows "move (x_now t) Stay (core_of (x_db t)) (core_of (x_db t')) \<and> same_books t t'"
  using rejected.reject_moves [where g = "\<lambda>q. q", OF assms(1) assms(2) [unfolded reject_tx_def]] .

lemma accept_tx_moves:
  assumes "keyed (core_of (x_db t))" "x_now t = ts (em_now e)" "accept_tx e r m t = Inr (q', t')"
  shows "move (x_now t) Stay (core_of (x_db t)) (core_of (x_db t')) \<and> same_books t t'"
  using accepted.accept_moves [where g = Pair, simplified, OF assms(1,2) assms(3) [unfolded accept_tx_def]] .

lemma cancel_tx_moves:
  assumes "keyed (core_of (x_db t))" "meetups_cancel e i reason host (cancel_notify e' reason' m) t = Inr (q', t')"
  shows "move (x_now t) End_Some (core_of (x_db t)) (core_of (x_db t')) \<and> (\<exists>rows. booked_end topic_cancelled rows (x_db t) (x_db t'))"
  using cancelled.cancel_moves [where h = "\<lambda>m. m", OF assms] .

lemma close_tx_moves:
  assumes "keyed (core_of (x_db t))" "meetups_close e i host (queue_meetup_closed e') t = Inr (q', t')"
  shows "move (x_now t) End_Some (core_of (x_db t)) (core_of (x_db t')) \<and> (\<exists>rows. booked_end topic_closed rows (x_db t) (x_db t'))"
  using closed.close_moves [where h = "\<lambda>m. m", OF assms] .

lemma auto_close_moves:
  assumes k: "keyed (core_of (x_db t))" and a: "auto_close_tx e t = Inr (rows, t')"
  shows "move (x_now t) End_Some (core_of (x_db t)) (core_of (x_db t')) \<and> (\<exists>rows. booked_end topic_closed rows (x_db t) (x_db t'))"
proof -
  let ?f = "\<lambda>m. m\<lparr>m_status := MCompleted, m_closed_at := Some (x_now t)\<rparr>"
  from swept.sweep_effect [where h = "\<lambda>m. m", OF k a [unfolded auto_close_tx_def claim_meetups_to_auto_close_def]]
  obtain p where p: "\<forall>m \<in> set (meetups (x_db t)). p m \<longrightarrow> live m \<and> m_end m \<le> x_now t"
    "core_of (x_db t') = (update_where p ?f (meetups (x_db t)), requests (x_db t))"
    "sent (x_db t') = sent (x_db t) @ charged_events topic_closed (x_db t') (map ?f (filter p (meetups (x_db t))))" by auto
  have "move (x_now t) End_Some (meetups (x_db t), requests (x_db t)) (update_where p ?f (meetups (x_db t)), requests (x_db t))"
    using p(1) by (intro finish_where [where st = MCompleted]) (auto simp: end_as_def)
  moreover have "booked_end topic_closed (map ?f (filter p (meetups (x_db t)))) (x_db t) (x_db t')"
    using p by (intro booked_update [OF k]) (auto simp: core_of_def live_def end_topic_def)
  ultimately show ?thesis using p(2) by (auto simp: core_of_def)
qed

definition soon_notice :: "'z meetup_env_scheme \<Rightarrow> meetup_row \<Rightarrow> mtx \<Rightarrow> go_error + mtx" where
  "soon_notice e m t = res_bind (queue_notifications e
         (m_host m # accepted_requesters (list_requests_for_meetup (m_id m) (x_db t)))
         ''meetup_starting_soon'' ''Meetup starting soon''
         (''Your '' @ display_name (m_intent m) @ '' meetup starts soon. Review your safety checklist.'')
         [(''meetup_id'', m_id m)] t) (\<lambda>(_, t). Inr t)"

lemma quiet_soon: "soon_notice e m t = Inr t' \<Longrightarrow> quiet t t'"
  by (auto simp: soon_notice_def dest: quiet_queue_all)

interpretation reminded: notifier "notify_each (soon_notice e)" for e
  by unfold_locales (erule quiet_each [rotated], rule quiet_soon)

lemma starting_soon_moves:
  assumes k: "keyed (core_of (x_db t))" and a: "starting_soon_tx e t = Inr (rows, t')"
  shows "move (x_now t) Stay (core_of (x_db t)) (core_of (x_db t')) \<and> same_books t t'"
proof -
  from reminded.sweep_effect [where h = "\<lambda>m. m", OF k
      a [unfolded starting_soon_tx_def claim_meetups_starting_soon_def, folded soon_notice_def]]
  obtain p where "core_of (x_db t') = (update_where p (\<lambda>m. m\<lparr>m_soon_at := Some (x_now t)\<rparr>) (meetups (x_db t)), requests (x_db t))"
    "same_books t t'" by auto
  then show ?thesis
    using move.remind [of "x_now t" "meetups (x_db t)" "requests (x_db t)" p] by (simp add: core_of_def update_where_def)
qed

lemma find_None_filter: "find p xs = None \<Longrightarrow> filter (\<lambda>x. \<not> p x) xs = xs"
  by (simp add: find_None_iff filter_id_conv)

lemma cancel_pending_moves:
  assumes "keyed (core_of db)" "requests_cancel_pending e i u db = (r, db')"
  shows "move now Stay (core_of db) (core_of db') \<and> billing_queue db' = billing_queue db"
proof (cases r)
  case None
  with assms(2) obtain rid v q where q: "find (\<lambda>q. q_id q = rid \<and> q_requester q = v \<and> q_status q = Pending) (requests db) = Some q"
    and db: "db' = db\<lparr>requests := filter (\<lambda>q. \<not> (q_id q = rid \<and> q_requester q = v \<and> q_status q = Pending)) (requests db)\<rparr>"
    by (auto simp: requests_cancel_pending_def cancel_pending_meetup_request_def Let_def split: sum.splits option.splits)
  from find_SomeD [OF q] have *: "q \<in> set (requests db)" "q_id q = rid" "q_requester q = v" "q_status q = Pending" by auto
  have "(\<not> (q_id x = rid \<and> q_requester x = v \<and> q_status x = Pending)) = (q_id x \<noteq> q_id q)" if "x \<in> set (requests db)" for x
    using assms(1) that * distinct_key_unique [of q_id "requests db" x q] by (auto simp: keyed_def)
  then have "filter (\<lambda>q. \<not> (q_id q = rid \<and> q_requester q = v \<and> q_status q = Pending)) (requests db) =
      filter (\<lambda>p. q_id p \<noteq> q_id q) (requests db)" by (rule filter_cong [OF refl])
  with db move.take_back [OF *(1,4)] show ?thesis by (simp add: core_of_def)
next
  case (Some err)
  have "core_of db' = core_of db \<and> billing_queue db' = billing_queue db"
  proof (cases "db' = db")
    case False
    with assms(2) Some obtain rid v where
        "cancel_pending_meetup_request rid v db = (None, db')"
      by (auto simp: requests_cancel_pending_def split: sum.splits option.splits prod.splits)
    then have none: "find (\<lambda>q. q_id q = rid \<and> q_requester q = v \<and> q_status q = Pending) (requests db) = None"
      and "db' = db\<lparr>requests := filter (\<lambda>q. \<not> (q_id q = rid \<and> q_requester q = v \<and> q_status q = Pending)) (requests db)\<rparr>"
      by (simp_all add: cancel_pending_meetup_request_def Let_def)
    with none show ?thesis unfolding find_None_filter [OF none] by (simp add: core_of_def)
  qed simp
  then show ?thesis by (simp add: move.idle)
qed

lemma create_tx_inserts:
  assumes "meetups_create e r label hash hold guard t = Inr (m, t')"
  obtains host h i t1 where "em_parse e (cr_host r) = Some host" "guard t = None" "draw_id t = (i, t1)"
    "m = new_meetup_row r label hash h host i (x_now t)"
    "create_meetup_row m (x_db t) = Inr ((x_db t)\<lparr>meetups := meetups (x_db t) @ [m]\<rparr>)"
    "h = (if hold = [] then None else em_parse e hold)"
    "enqueue_billing_events topic_created [m] (set_db t1 ((x_db t)\<lparr>meetups := meetups (x_db t) @ [m]\<rparr>)) = Inr t'"
proof -
  from assms obtain host h i t1 db where h: "em_parse e (cr_host r) = Some host" "guard t = None" "draw_id t = (i, t1)"
    "m = new_meetup_row r label hash h host i (x_now t1)" "create_meetup_row m (x_db t1) = Inr db"
    "h = (if hold = [] then None else em_parse e hold)"
    "enqueue_billing_events topic_created [m] (set_db t1 db) = Inr t'"
    unfolding meetups_create_def with_failure_def parse_id_def
    by (clarsimp simp: Let_def simp del: enqueue_billing_events.simps split: option.splits)
      (auto simp del: enqueue_billing_events.simps split: prod.splits sum.splits if_splits option.splits)
  from h(5) have "db = (x_db t1)\<lparr>meetups := meetups (x_db t1) @ [m]\<rparr>"
    by (auto simp: create_meetup_row_def split: if_splits)
  with h draw_id_now [OF h(3)] that show ?thesis by simp
qed

lemma create_tx_moves:
  assumes c: "meetups_create e r label hash hold (schedule_guard e (cr_host r) (cr_start r) (cr_end r) []) t = Inr (m, t')"
    and ids: "\<And>k. x_uuids t k \<noteq> nil_uuid"
  shows "move (x_now t) Open_One (core_of (x_db t)) (core_of (x_db t')) \<and> core_of (x_db t') = (meetups (x_db t) @ [m], requests (x_db t)) \<and>
    sent (x_db t') = sent (x_db t) @ charged_events topic_created (x_db t') [m] \<and> m_id m \<notin> m_id ` set (meetups (x_db t)) \<and> m_status m = MOpen"
proof (rule create_tx_inserts [OF c])
  fix host h i t1
  assume d: "draw_id t = (i, t1)"
    and a: "em_parse e (cr_host r) = Some host" "schedule_guard e (cr_host r) (cr_start r) (cr_end r) [] t = None"
    "m = new_meetup_row r label hash h host i (x_now t)"
    "create_meetup_row m (x_db t) = Inr ((x_db t)\<lparr>meetups := meetups (x_db t) @ [m]\<rparr>)"
    and b: "enqueue_billing_events topic_created [m] (set_db t1 ((x_db t)\<lparr>meetups := meetups (x_db t) @ [m]\<rparr>)) = Inr t'"
  have "free_at (x_now t) host (ts (cr_start r)) (ts (cr_end r)) nil_uuid (core_of (x_db t))"
    by (rule schedule_guard_free [OF a(2,1)]) simp_all
  then have "free_at (x_now t) (m_host m) (m_start m) (m_end m) nil_uuid (meetups (x_db t), requests (x_db t))"
    by (simp add: a(3) new_meetup_row_def core_of_def)
  moreover have row: "1 \<le> m_capacity m \<and> m_capacity m \<le> 30 \<and> m_start m < m_end m \<and> m_id m \<notin> m_id ` set (meetups (x_db t)) \<and>
      \<not> (\<exists>x \<in> set (meetups (x_db t)). same_key x m)"
    using a(4) by (auto simp: create_meetup_row_def list_ex_iff split: if_splits)
  moreover have row2: "m_id m \<noteq> nil_uuid \<and> m_status m = MOpen \<and> m_cancelled_at m = None \<and> m_closed_at m = None \<and> ts (m_start m) = m_start m \<and> ts (m_end m) = m_end m"
    using d ids by (auto simp: a(3) new_meetup_row_def draw_id_def)
  ultimately have "move (x_now t) Open_One (meetups (x_db t), requests (x_db t)) (meetups (x_db t) @ [m], requests (x_db t))"
    by (intro move.found) auto
  with billing_events_core [OF b] billing_events_effect [OF b] row row2 show ?thesis by (simp add: core_of_def sent_def)
qed

lemma redraw_rows:
  "redraw p f rs t = (rs', t') \<Longrightarrow> length rs' = length rs \<and> x_db t' = x_db t \<and> x_now t' = x_now t \<and>
     (\<forall>k < length rs. \<exists>i. rs' ! k = (if p (rs ! k) then f i (rs ! k) else rs ! k))"
proof (induction p f rs t arbitrary: rs' t' rule: redraw.induct)
  case (2 p f r rs t)
  show ?case
  proof (cases "p r")
    case True
    with 2(3) obtain i t1 rs1 where i: "draw_id t = (i, t1)" "redraw p f rs t1 = (rs1, t')" "rs' = f i r # rs1"
      by (auto split: prod.splits)
    with 2(1) [OF True, of "(i, t1)" i t1] draw_id_now [OF i(1)] True show ?thesis
      by (auto simp: nth_Cons split: nat.splits) metis
  next
    case False
    with 2(3) obtain rs1 where "redraw p f rs t = (rs1, t')" "rs' = r # rs1"
      by (auto split: prod.splits)
    with 2(2) [OF False] False show ?thesis by (auto simp: nth_Cons split: nat.splits) metis
  qed
qed simp

lemma set_ratings_core: "set_ratings rs t = Inr t' \<Longrightarrow> core_of (x_db t') = core_of (x_db t) \<and> billing_queue (x_db t') = billing_queue (x_db t) \<and> x_now t' = x_now t"
  by (auto simp: set_ratings_def core_of_def split: if_splits)

lemma anonymise_ratings_core:
  "anonymise_ratings_given_by u t = Inr t' \<Longrightarrow> core_of (x_db t') = core_of (x_db t) \<and> billing_queue (x_db t') = billing_queue (x_db t)"
  "anonymise_ratings_about u t = Inr t' \<Longrightarrow> core_of (x_db t') = core_of (x_db t) \<and> billing_queue (x_db t') = billing_queue (x_db t)"
  by (auto simp: anonymise_ratings_given_by_def anonymise_ratings_about_def core_of_def
      dest!: set_ratings_core redraw_rows split: prod.splits)

lemma purge_effect:
  assumes "purge_user e user t = Inr ((), t')"
  obtains u ms where "em_parse e user = Some u" "co_hosting (count_active_commitments u (x_now t) (x_db t)) \<le> 0"
    "length ms = length (meetups (x_db t))" "core_of (x_db t') = (ms, filter (\<lambda>q. q_requester q \<noteq> u) (requests (x_db t)))"
    "\<And>k. k < length (meetups (x_db t)) \<Longrightarrow> \<exists>h. ms ! k =
      (if m_host (meetups (x_db t) ! k) = u then (meetups (x_db t) ! k)\<lparr>m_host := h\<rparr> else meetups (x_db t) ! k)"
    "billing_queue (x_db t') = billing_queue (x_db t)"
proof -
  from assms obtain u t1 t2 where u: "em_parse e user = Some u"
    "co_hosting (count_active_commitments u (x_now t) (x_db t)) \<le> 0"
    and t1: "anonymise_host_of_meetups u t = Inr t1"
    and t2: "anonymise_ratings_given_by u (set_db t1 (delete_user_rows u (x_db t1))) = Inr t2"
    and t3: "anonymise_ratings_about u t2 = Inr t'"
    by (auto simp: purge_user_def parse_id_def Let_def split: option.splits if_splits sum.splits)
  from t1 obtain ms t0 where r: "redraw (\<lambda>m. m_host m = u) (\<lambda>i m. m\<lparr>m_host := i\<rparr>) (meetups (x_db t)) t = (ms, t0)"
    "t1 = set_db t0 ((x_db t0)\<lparr>meetups := ms\<rparr>)"
    by (auto simp: anonymise_host_of_meetups_def split: prod.splits if_splits)
  from redraw_rows [OF r(1)] anonymise_ratings_core(1) [OF t2] anonymise_ratings_core(2) [OF t3] r(2)
  show ?thesis
    by (intro that [OF u, of ms]) (auto simp: delete_user_rows_def core_of_def)
qed

lemma purge_moves:
  assumes "purge_user e user t = Inr ((), t')"
  shows "\<exists>u. em_parse e user = Some u \<and> move (x_now t) (Leave u) (core_of (x_db t)) (core_of (x_db t')) \<and> same_books t t'"
proof (rule purge_effect [OF assms])
  fix u ms
  assume u: "em_parse e user = Some u" and a: "co_hosting (count_active_commitments u (x_now t) (x_db t)) \<le> 0" "length ms = length (meetups (x_db t))"
    "core_of (x_db t') = (ms, filter (\<lambda>q. q_requester q \<noteq> u) (requests (x_db t)))"
    "\<And>k. k < length (meetups (x_db t)) \<Longrightarrow> \<exists>h. ms ! k =
      (if m_host (meetups (x_db t) ! k) = u then (meetups (x_db t) ! k)\<lparr>m_host := h\<rparr> else meetups (x_db t) ! k)"
    "billing_queue (x_db t') = billing_queue (x_db t)"
  from a(1) have "m_end m \<le> x_now t" if "m \<in> set (meetups (x_db t))" "m_host m = u" "live m" for m
    using that by (force simp: count_active_commitments_def Let_def filter_empty_conv)
  then show ?thesis unfolding core_of_def [of "x_db t"] a(3) using u a(2,4,5) by (auto simp: same_books_def intro: move.purge)
qed

end
