(* ===== verification/Meetup_Inv.thy ===== *)
theory Meetup_Inv
  imports Meetup_Core
begin

text \<open>
  What every move keeps: the tables are well formed and never hold more people than seats, and no one
  has two meetups at one time.
\<close>

section \<open>Well-formed tables\<close>

definition row_ok :: "meetup_row \<Rightarrow> bool" where
  "row_ok m \<longleftrightarrow> m_id m \<noteq> nil_uuid \<and> 1 \<le> m_capacity m \<and> m_capacity m \<le> 30 \<and> m_start m < m_end m \<and>
     ts (m_start m) = m_start m \<and> ts (m_end m) = m_end m \<and>
     (m_status m = MCancelled \<longleftrightarrow> m_cancelled_at m \<noteq> None) \<and> (m_status m = MCompleted \<longleftrightarrow> m_closed_at m \<noteq> None)"

definition seats_ok :: "request_row list \<Rightarrow> meetup_row \<Rightarrow> bool" where
  "seats_ok qs m \<longleftrightarrow> int (taken (m_id m) qs) \<le> m_capacity m \<and> (m_status m = MOpen \<longrightarrow> int (taken (m_id m) qs) < m_capacity m)"

definition standing :: "request_row \<Rightarrow> bool" where
  "standing q \<longleftrightarrow> q_status q \<noteq> Withdrawn"

definition asker :: "request_row \<Rightarrow> uuid \<times> uuid" where
  "asker q = (q_meetup q, q_requester q)"

definition request_ok :: "meetup_row list \<Rightarrow> request_row \<Rightarrow> bool" where
  "request_ok ms q \<longleftrightarrow> q_meetup q \<in> m_id ` set ms \<and> (q_status q = Pending \<longleftrightarrow> q_resolved_at q = None)"

definition core_base :: "core \<Rightarrow> bool" where
  "core_base c \<longleftrightarrow> keyed c \<and> (\<forall>m \<in> set (fst c). row_ok m) \<and>
     (\<forall>q \<in> set (snd c). request_ok (fst c) q) \<and> distinct (map asker (filter standing (snd c)))"

definition core_ok :: "core \<Rightarrow> bool" where
  "core_ok c \<longleftrightarrow> core_base c \<and> (\<forall>m \<in> set (fst c). seats_ok (snd c) m)"

lemma distinct_filter_update:
  assumes "distinct (map k (filter P rows))" "\<And>r. r \<in> set rows \<Longrightarrow> p r \<Longrightarrow> P (f r) \<Longrightarrow> P r" "\<And>r. k (f r) = k r"
  shows "distinct (map k (filter P (update_where p f rows)))"
  using assms(1,2)
proof (induction rows)
  case (Cons r rs)
  have sub: "k ` set (filter P (update_where p f rs)) \<subseteq> k ` set (filter P rs)"
    using Cons.prems(2) assms(3) by (fastforce simp: set_update_where image_iff)
  with Cons Cons.prems(2) [of r] show ?case using assms(3) by (cases "p r"; cases "P r"; cases "P (f r)") auto
qed simp

lemma taken_sum: "int (taken m qs) = sum_where (\<lambda>q. q_meetup q = m \<and> q_status q = Accepted) (\<lambda>_. 1) qs"
  by (induction qs) (auto simp: taken_def)

lemma taken_update:
  assumes "distinct (map q_id qs)" "q \<in> set qs" "q_meetup (f q) = q_meetup q"
  shows "int (taken m (update_where (\<lambda>x. q_id x = q_id q) f qs)) =
    int (taken m qs) - (if q_meetup q = m \<and> q_status q = Accepted then 1 else 0) +
      (if q_meetup q = m \<and> q_status (f q) = Accepted then 1 else 0)"
  unfolding taken_sum using sum_where_update_key [OF assms(1,2)] assms(3) by simp

lemma taken_filter_le: "taken m (filter p qs) \<le> taken m qs"
  unfolding taken_def filter_filter by (induction qs) auto

lemma taken_update_none:
  "(\<And>q. q \<in> set qs \<Longrightarrow> p q \<Longrightarrow> q_status q \<noteq> Accepted \<and> q_status (f q) \<noteq> Accepted) \<Longrightarrow> taken m (update_where p f qs) = taken m qs"
  by (induction qs) (auto simp: taken_def)

lemma resolve_simps [simp]:
  "q_id (resolve st a now t q) = q_id q" "q_meetup (resolve st a now t q) = q_meetup q" "q_requester (resolve st a now t q) = q_requester q"
  "q_status (resolve st a now t q) = st" "q_resolved_at (resolve st a now t q) = Some now" "asker (resolve st a now t q) = asker q"
  by (simp_all add: resolve_def asker_def)

lemma asker_update [simp]: "asker (q\<lparr>q_status := st, q_resolved_at := r, q_auto := b\<rparr>) = asker q"
  by (simp add: asker_def)

lemma map_q_id_update [simp]:
  "map q_id (update_where p (resolve st a now t) qs) = map q_id qs"
  "map q_id (update_where p (\<lambda>q. q\<lparr>q_status := st', q_resolved_at := r, q_auto := b\<rparr>) qs) = map q_id qs"
  by (simp_all add: map_update_where)

lemma map_m_id_update [simp]: "map m_id (update_where p (m_status_update f) ms) = map m_id ms"
  by (simp add: map_update_where)

lemma m_id_image_update [simp]: "m_id ` set (update_where p (m_status_update f) ms) = m_id ` set ms"
  using map_m_id_update [of p f ms] by (metis set_map)

text \<open>Resolving one request.\<close>

lemma resolve_base:
  assumes ok: "core_base (ms, qs)" and q: "q \<in> set qs" "live_request q" and st: "st \<noteq> Pending"
  shows "core_base (ms, update_where (\<lambda>p. q_id p = q_id q) (resolve st a now t) qs)"
proof -
  let ?qs = "update_where (\<lambda>p. q_id p = q_id q) (resolve st a now t) qs"
  from ok have d: "distinct (map q_id qs)" by (simp add: core_base_def keyed_def)
  have only: "p = q" if "p \<in> set qs" "q_id p = q_id q" for p
    using distinct_key_unique [OF d that(1) q(1) that(2)] .
  have "request_ok ms p" if "p \<in> set ?qs" for p
    using that ok q(1) st unfolding set_update_where by (auto simp: core_base_def request_ok_def dest: only)
  moreover have "distinct (map asker (filter standing ?qs))"
    using ok q(2) by (intro distinct_filter_update) (auto simp: core_base_def standing_def live_request_def dest: only)
  ultimately show ?thesis using ok by (auto simp: core_base_def keyed_def)
qed

lemma base_ids: "core_base (ms, qs) \<Longrightarrow> distinct (map m_id ms) \<and> distinct (map q_id qs)"
  by (simp add: core_base_def keyed_def)

lemma seats_le: "seats_ok qs m \<Longrightarrow> taken (m_id m) qs' \<le> taken (m_id m) qs \<Longrightarrow> seats_ok qs' m"
  by (auto simp: seats_ok_def)

lemma resolve_seats:
  assumes "core_ok (ms, qs)" "q \<in> set qs" "live_request q" "st = Rejected \<or> st = Withdrawn"
  shows "core_ok (ms, update_where (\<lambda>p. q_id p = q_id q) (resolve st a now t) qs)"
proof -
  have d: "distinct (map q_id qs)" using assms(1) base_ids by (auto simp: core_ok_def)
  have "int (taken m (update_where (\<lambda>p. q_id p = q_id q) (resolve st a now t) qs)) \<le> int (taken m qs)" for m
    using taken_update [OF d assms(2), of "resolve st a now t" m] assms(4) by auto
  then show ?thesis using assms resolve_base [of ms qs q st a now t] by (auto simp: core_ok_def intro: seats_le)
qed

lemma status_base:
  assumes "core_base (ms, qs)" "\<And>m. m \<in> set ms \<Longrightarrow> p m \<Longrightarrow> live m" "st = MOpen \<or> st = MFull"
  shows "core_base (update_where p (m_status_update (\<lambda>_. st)) ms, qs)"
proof -
  have rows: "row_ok m" if "m \<in> set ms" for m using assms(1) that by (simp add: core_base_def)
  have "row_ok (m\<lparr>m_status := st\<rparr>)" if "m \<in> set ms" "p m" for m
    using rows [OF that(1)] assms(2) [OF that] assms(3) by (auto simp: row_ok_def live_def)
  with rows have "row_ok m" if "m \<in> set (update_where p (m_status_update (\<lambda>_. st)) ms)" for m
    using that unfolding set_update_where by blast
  with assms(1) show ?thesis by (auto simp: core_base_def keyed_def request_ok_def)
qed

lemma reopen_keeps:
  assumes "core_ok (ms, qs)"
  shows "core_ok (update_where (\<lambda>x. m_id x = i \<and> m_status x = MFull \<and> int (taken (m_id x) qs) < m_capacity x) (m_status_update (\<lambda>_. MOpen)) ms, qs)"
proof -
  have "seats_ok qs m" if "m \<in> set (update_where (\<lambda>x. m_id x = i \<and> m_status x = MFull \<and> int (taken (m_id x) qs) < m_capacity x)
      (m_status_update (\<lambda>_. MOpen)) ms)" for m
    using that assms unfolding set_update_where by (auto simp: core_ok_def seats_ok_def)
  moreover have "core_base (update_where (\<lambda>x. m_id x = i \<and> m_status x = MFull \<and> int (taken (m_id x) qs) < m_capacity x) (m_status_update (\<lambda>_. MOpen)) ms, qs)"
    using assms by (intro status_base) (auto simp: core_ok_def live_def)
  ultimately show ?thesis by (simp add: core_ok_def)
qed

lemma admit_keeps:
  assumes ok: "core_ok (ms, qs)" and q: "q \<in> set qs" "q_status q = Pending" and m: "m \<in> set ms" "m_id m = q_meetup q" "m_status m = MOpen"
    and seats: "int (taken (m_id m) qs) < m_capacity m"
    and qs1: "qs1 = update_where (\<lambda>p. q_id p = q_id q) (resolve Accepted (q_auto q) now (q_note q)) qs"
    and res: "(ms', qs') = (if int (taken (m_id m) qs1) < m_capacity m then (ms, qs1)
      else (update_where (\<lambda>x. m_id x = m_id m) (m_status_update (\<lambda>_. MFull)) ms,
        update_where (\<lambda>p. q_meetup p = m_id m \<and> q_status p = Pending)
          (\<lambda>p. p\<lparr>q_status := Rejected, q_resolved_at := Some now, q_auto := True\<rparr>) qs1))"
  shows "core_ok (ms', qs')"
proof -
  have base: "core_base (ms, qs)" and d: "distinct (map m_id ms)" "distinct (map q_id qs)"
    using ok base_ids by (auto simp: core_ok_def)
  have b1: "core_base (ms, qs1)" unfolding qs1 using base q by (intro resolve_base) (auto simp: live_request_def)
  have tk: "int (taken k qs1) = int (taken k qs) + (if k = m_id m then 1 else 0)" for k
    unfolding qs1 using taken_update [OF d(2) q(1), of "resolve Accepted (q_auto q) now (q_note q)" k] q(2) m(2) by auto
  have only: "x = m" if "x \<in> set ms" "m_id x = m_id m" for x
    using distinct_key_unique [OF d(1) that(1) m(1) that(2)] .
  show ?thesis
  proof (cases "int (taken (m_id m) qs1) < m_capacity m")
    case True
    have "seats_ok qs1 x" if "x \<in> set ms" for x
      using that ok True tk [of "m_id x"] only [OF that] by (cases "m_id x = m_id m") (auto simp: core_ok_def seats_ok_def)
    with True res b1 show ?thesis by (simp add: core_ok_def)
  next
    case False
    let ?f = "\<lambda>p. p\<lparr>q_status := Rejected, q_resolved_at := Some now, q_auto := True\<rparr>"
    let ?p = "\<lambda>p. q_meetup p = m_id m \<and> q_status p = Pending"
    from False res have r: "ms' = update_where (\<lambda>x. m_id x = m_id m) (m_status_update (\<lambda>_. MFull)) ms" "qs' = update_where ?p ?f qs1"
      by simp_all
    have tq: "taken k qs' = taken k qs1" for k unfolding r(2) by (rule taken_update_none) auto
    have "core_base (ms, qs')"
    proof -
      have "request_ok ms x" if "x \<in> set qs'" for x
        using that b1 m(1) unfolding r(2) set_update_where by (auto simp: core_base_def request_ok_def)
      moreover have "distinct (map asker (filter standing qs'))"
        unfolding r(2) using b1 by (intro distinct_filter_update) (auto simp: core_base_def standing_def)
      moreover have "map q_id qs' = map q_id qs1" unfolding r(2) by simp
      ultimately show ?thesis using b1 by (simp add: core_base_def keyed_def)
    qed
    then have "core_base (ms', qs')"
      unfolding r(1) using only m(3) by (intro status_base) (auto simp: live_def)
    moreover have "seats_ok qs' x" if x: "x \<in> set ms'" for x
    proof (cases "m_id x = m_id m")
      case True
      with x only have "x = m\<lparr>m_status := MFull\<rparr>" unfolding r(1) set_update_where by auto
      with seats show ?thesis by (simp add: seats_ok_def tq tk)
    next
      case other: False
      with x have "x \<in> set ms" unfolding r(1) set_update_where by auto
      with ok other show ?thesis by (simp add: core_ok_def seats_ok_def tq tk)
    qed
    ultimately show ?thesis by (simp add: core_ok_def)
  qed
qed

lemma filter_keeps:
  assumes "core_ok (ms, qs)"
  shows "core_ok (ms, filter p qs)"
proof -
  have "seats_ok (filter p qs) m" if "m \<in> set ms" for m
    using assms that by (auto simp: core_ok_def intro: seats_le taken_filter_le)
  moreover have "distinct (map asker (filter standing (filter p qs)))"
    using assms distinct_map_filter [of asker "filter standing qs" p]
    by (simp add: core_ok_def core_base_def conj_commute)
  ultimately show ?thesis using assms by (auto simp: core_ok_def core_base_def keyed_def distinct_map_filter)
qed

lemma live_row: "row_ok m \<Longrightarrow> live m \<Longrightarrow> m_cancelled_at m = None \<and> m_closed_at m = None"
  by (auto simp: row_ok_def live_def)

lemma end_as_id: "end_as st now m m' \<Longrightarrow> m_id m' = m_id m"
  by (auto simp: end_as_def split: if_splits)

lemma end_as_row:
  assumes "end_as st now m m'" "row_ok m"
  shows "row_ok m' \<and> seats_ok qs m' = (int (taken (m_id m) qs) \<le> m_capacity m)"
  using assms live_row [OF assms(2)] by (auto simp: end_as_def row_ok_def seats_ok_def split: if_splits)

lemma pointwise_keeps:
  assumes ok: "core_ok (ms, qs)" and len: "length ms' = length ms"
    and row: "\<And>k. k < length ms \<Longrightarrow> m_id (ms' ! k) = m_id (ms ! k) \<and> row_ok (ms' ! k) \<and> seats_ok qs (ms' ! k)"
  shows "core_ok (ms', qs)"
proof -
  have "map m_id ms' = map m_id ms" using len row by (intro nth_equalityI) auto
  then have "distinct (map m_id ms') = distinct (map m_id ms)" "m_id ` set ms' = m_id ` set ms"
    by (simp, metis set_map)
  moreover have "row_ok m \<and> seats_ok qs m" if "m \<in> set ms'" for m
    using that row len by (auto simp: in_set_conv_nth)
  ultimately show ?thesis using ok by (auto simp: core_ok_def core_base_def keyed_def request_ok_def)
qed

lemma finish_keeps:
  assumes ok: "core_ok (ms, qs)" and len: "length ms' = length ms"
    and e: "\<And>k. k < length ms \<Longrightarrow> ms' ! k = ms ! k \<or> (\<exists>st. end_as st now (ms ! k) (ms' ! k))"
  shows "core_ok (ms', qs)"
proof (rule pointwise_keeps [OF ok len])
  fix k assume k: "k < length ms"
  then have "row_ok (ms ! k)" "seats_ok qs (ms ! k)" using ok by (auto simp: core_ok_def core_base_def)
  then show "m_id (ms' ! k) = m_id (ms ! k) \<and> row_ok (ms' ! k) \<and> seats_ok qs (ms' ! k)"
    using e [OF k] end_as_row [of _ now "ms ! k" "ms' ! k" qs] end_as_id [of _ now "ms ! k" "ms' ! k"]
    by (auto simp: seats_ok_def)
qed

lemma ask_keeps:
  assumes ok: "core_ok (ms, qs)" and m: "m \<in> set ms"
    and prior: "\<And>p. p \<in> set qs \<Longrightarrow> q_meetup p = m_id m \<Longrightarrow> q_requester p = u \<Longrightarrow> q_status p = Withdrawn"
    and i: "i \<notin> q_id ` set qs"
  shows "core_ok (ms, qs @ [\<lparr>q_id = i, q_meetup = m_id m, q_requester = u, q_status = Pending, q_auto = False,
      q_created_at = now, q_resolved_at = None, q_note = None\<rparr>])"
proof -
  have "taken k (qs @ [\<lparr>q_id = i, q_meetup = m_id m, q_requester = u, q_status = Pending, q_auto = False,
      q_created_at = now, q_resolved_at = None, q_note = None\<rparr>]) = taken k qs" for k
    by (simp add: taken_def)
  moreover have "(m_id m, u) \<notin> asker ` set (filter standing qs)"
    using prior by (auto simp: asker_def standing_def)
  ultimately show ?thesis
    using ok m i by (auto simp: core_ok_def core_base_def keyed_def request_ok_def seats_ok_def standing_def asker_def)
qed

lemma found_keeps:
  assumes ok: "core_ok (ms, qs)" and new: "m_id m \<notin> m_id ` set ms" "m_id m \<noteq> nil_uuid"
    and row: "1 \<le> m_capacity m" "m_capacity m \<le> 30" "m_start m < m_end m"
      "m_status m = MOpen" "m_cancelled_at m = None" "m_closed_at m = None" "ts (m_start m) = m_start m" "ts (m_end m) = m_end m"
  shows "core_ok (ms @ [m], qs)"
proof -
  have "q_meetup q \<noteq> m_id m" if "q \<in> set qs" for q
    using ok new(1) that unfolding core_ok_def core_base_def request_ok_def by (metis fst_conv snd_conv)
  then have "taken (m_id m) qs = 0" by (auto simp: taken_def filter_empty_conv)
  with ok new row show ?thesis
    by (auto simp: core_ok_def core_base_def keyed_def request_ok_def seats_ok_def row_ok_def)
qed

theorem move_ok: "move now d c c' \<Longrightarrow> core_ok c \<Longrightarrow> core_ok c'"
proof (induction rule: move.induct)
  case (ask m ms qs u i)
  then show ?case by (intro ask_keeps) auto
next
  case (take_back q qs ms)
  then show ?case by (intro filter_keeps)
next
  case (withdraw q qs m ms qs' w ms')
  then have "core_ok (ms, qs')" by (auto intro: resolve_seats)
  with withdraw reopen_keeps [OF this, of "m_id m"] show ?case by (simp split: if_splits)
next
  case (decline q qs ms)
  then show ?case by (intro resolve_seats) (auto simp: live_request_def)
next
  case (admit q qs m ms qs1 ms' qs')
  show ?case by (rule admit_keeps [OF admit.prems admit.hyps(1-5,7-9)])
next
  case (found m ms qs)
  then show ?case by (intro found_keeps) auto
next
  case (finish ms' ms qs)
  show ?case by (rule finish_keeps [OF finish.prems finish.hyps])
next
  case (remind ms qs p)
  show ?case
  proof (rule pointwise_keeps [OF remind.prems])
    fix k assume k: "k < length ms"
    with remind.prems have "row_ok (ms ! k)" "seats_ok qs (ms ! k)" by (auto simp: core_ok_def core_base_def)
    with k show "m_id (map (\<lambda>m. if p m then m\<lparr>m_soon_at := Some now\<rparr> else m) ms ! k) = m_id (ms ! k) \<and>
        row_ok (map (\<lambda>m. if p m then m\<lparr>m_soon_at := Some now\<rparr> else m) ms ! k) \<and>
        seats_ok qs (map (\<lambda>m. if p m then m\<lparr>m_soon_at := Some now\<rparr> else m) ms ! k)"
      by (simp add: row_ok_def seats_ok_def)
  qed simp
next
  case (purge ms u ms' qs)
  have "core_ok (ms', qs)"
  proof (rule pointwise_keeps [OF purge.prems purge.hyps(2)])
    fix k assume k: "k < length ms"
    with purge.prems have "row_ok (ms ! k)" "seats_ok qs (ms ! k)" by (auto simp: core_ok_def core_base_def)
    moreover obtain h where "ms' ! k = (if m_host (ms ! k) = u then (ms ! k)\<lparr>m_host := h\<rparr> else ms ! k)"
      using purge.hyps(3) [OF k] by blast
    ultimately show "m_id (ms' ! k) = m_id (ms ! k) \<and> row_ok (ms' ! k) \<and> seats_ok qs (ms' ! k)"
      by (cases "m_host (ms ! k) = u") (simp_all add: row_ok_def seats_ok_def)
  qed
  then show ?case by (rule filter_keeps)
qed simp

end
