(* ===== verification/Meetup_Calm.thy ===== *)
theory Meetup_Calm
  imports Meetup_Inv
begin

text \<open>
  What no move undoes: a meetup keeps its window, its seats and its hold and never lives again, and no one is
  engaged in two meetups at one time.
\<close>

section \<open>Rows\<close>

definition window_of :: "meetup_row \<Rightarrow> uuid \<times> instant \<times> instant" where
  "window_of m = (m_id m, m_start m, m_end m)"

definition carries :: "meetup_row \<Rightarrow> meetup_row \<Rightarrow> bool" where
  "carries m m' \<longleftrightarrow> window_of m' = window_of m \<and> m_capacity m' = m_capacity m \<and> m_hold m' = m_hold m \<and>
     (live m' \<longrightarrow> live m) \<and>
     (\<not> live m \<longrightarrow> m_status m' = m_status m \<and> m_cancelled_at m' = m_cancelled_at m \<and> m_closed_at m' = m_closed_at m)"

lemma carries_refl [simp]: "carries m m"
  by (simp add: carries_def)

lemma carries_end: "end_as st now m m' \<Longrightarrow> carries m m'"
  by (auto simp: end_as_def carries_def window_of_def split: if_splits)

lemma carries_status: "live m \<Longrightarrow> st = MOpen \<or> st = MFull \<Longrightarrow> carries m (m\<lparr>m_status := st\<rparr>)"
  by (auto simp: carries_def window_of_def)

lemma carries_host: "carries m (m\<lparr>m_host := h\<rparr>)"
  by (auto simp: carries_def window_of_def live_def)

lemma carries_soon: "carries m (m\<lparr>m_soon_at := s\<rparr>)"
  by (auto simp: carries_def window_of_def live_def)

lemma update_where_nth: "k < length rows \<Longrightarrow> update_where p f rows ! k = (if p (rows ! k) then f (rows ! k) else rows ! k)"
  by (simp add: update_where_def)

lemma update_carries:
  assumes "\<And>m. m \<in> set ms \<Longrightarrow> p m \<Longrightarrow> carries m (f m)" "k < length ms"
  shows "carries (ms ! k) (update_where p f ms ! k)"
  using assms(1) [of "ms ! k"] assms(2) by (simp add: update_where_nth)

definition rows_carried :: "meetup_row list \<Rightarrow> meetup_row list \<Rightarrow> bool" where
  "rows_carried ms ms' \<longleftrightarrow> length ms \<le> length ms' \<and> (\<forall>k < length ms. carries (ms ! k) (ms' ! k))"

lemma rows_carried_refl [simp]: "rows_carried ms ms"
  by (simp add: rows_carried_def)

lemma rows_carried_update:
  "(\<And>m. m \<in> set ms \<Longrightarrow> p m \<Longrightarrow> carries m (f m)) \<Longrightarrow> rows_carried ms (update_where p f ms)"
  by (simp add: rows_carried_def update_carries)

theorem move_carries: "move now d c c' \<Longrightarrow> keyed c \<Longrightarrow> rows_carried (fst c) (fst c')"
proof (induction rule: move.induct)
  case (withdraw q qs m ms qs' w ms')
  then show ?case by (auto intro!: rows_carried_update carries_status simp: live_def)
next
  case (admit q qs m ms qs1 ms' qs')
  have only: "x = m" if "x \<in> set ms" "m_id x = m_id m" for x
    using admit.prems distinct_key_unique [of m_id ms x m] that admit.hyps(3) by (simp add: keyed_def)
  have "rows_carried ms (update_where (\<lambda>x. m_id x = m_id m) (m_status_update (\<lambda>_. MFull)) ms)"
    using admit.hyps(5) by (intro rows_carried_update carries_status) (auto simp: live_def dest: only)
  with admit.hyps(9) show ?case by (auto split: if_splits)
next
  case (found m ms qs)
  then show ?case by (simp add: rows_carried_def nth_append)
next
  case (finish ms' ms qs)
  from finish.hyps(2) have "carries (ms ! k) (ms' ! k)" if "k < length ms" for k
    using carries_end that by (metis carries_refl)
  with finish.hyps(1) show ?case by (simp add: rows_carried_def)
next
  case (remind ms qs p)
  then show ?case by (simp add: rows_carried_def carries_soon)
next
  case (purge ms u ms' qs)
  have "carries (ms ! k) (ms' ! k)" if "k < length ms" for k
    using purge.hyps(3) [OF that] carries_host by (cases "m_host (ms ! k) = u") auto
  with purge.hyps(2) show ?case by (simp add: rows_carried_def)
qed auto

lemma carried_window:
  assumes "rows_carried ms ms'" "m \<in> set ms"
  shows "\<exists>m' \<in> set ms'. carries m m'"
proof -
  from assms(2) obtain k where "k < length ms" "m = ms ! k" by (auto simp: in_set_conv_nth)
  with assms(1) show ?thesis by (auto simp: rows_carried_def intro!: bexI [of _ "ms' ! k"])
qed

lemma carries_id: "carries m m' \<Longrightarrow> m_id m' = m_id m \<and> m_start m' = m_start m \<and> m_end m' = m_end m"
  by (simp add: carries_def window_of_def)

section \<open>One meetup at a time\<close>

definition holds :: "instant \<Rightarrow> uuid \<Rightarrow> request_row list \<Rightarrow> meetup_row \<Rightarrow> bool" where
  "holds T u qs m \<longleftrightarrow> live m \<and> T < m_end m \<and> engaged_in u qs m"

definition calm :: "instant \<Rightarrow> core \<Rightarrow> bool" where
  "calm T c \<longleftrightarrow> (\<forall>a \<in> set (fst c). \<forall>b \<in> set (fst c). \<forall>u. holds T u (snd c) a \<longrightarrow> holds T u (snd c) b \<longrightarrow>
     m_id a \<noteq> m_id b \<longrightarrow> m_end b \<le> m_start a \<or> m_end a \<le> m_start b)"

lemma calm_later: "calm T c \<Longrightarrow> T \<le> T' \<Longrightarrow> calm T' c"
  unfolding calm_def holds_def by (meson le_less_trans)

lemma calm_shrink:
  assumes c: "calm T (ms, qs)"
    and prev: "\<And>m' u. m' \<in> set ms' \<Longrightarrow> holds T u qs' m' \<Longrightarrow> \<exists>m \<in> set ms. window_of m = window_of m' \<and> holds T u qs m"
  shows "calm T (ms', qs')"
  unfolding calm_def
proof (intro ballI allI impI)
  fix a b u
  assume "a \<in> set (fst (ms', qs'))" "holds T u (snd (ms', qs')) a" "b \<in> set (fst (ms', qs'))" "holds T u (snd (ms', qs')) b"
    and ids: "m_id a \<noteq> m_id b"
  with prev [of a u] prev [of b u] obtain x y where x: "x \<in> set ms" "window_of x = window_of a" "holds T u qs x"
    and y: "y \<in> set ms" "window_of y = window_of b" "holds T u qs y" by auto
  from c x y ids show "m_end b \<le> m_start a \<or> m_end a \<le> m_start b"
    unfolding calm_def window_of_def by (metis fst_conv snd_conv)
qed

text \<open>A move that changes requests only towards less.\<close>

lemma calm_requests:
  assumes c: "calm T (ms, qs)" and less: "\<And>q. q \<in> set qs' \<Longrightarrow> live_request q \<Longrightarrow> \<exists>p \<in> set qs. live_request p \<and> asker p = asker q"
    and rows: "\<And>m'. m' \<in> set ms' \<Longrightarrow> live m' \<Longrightarrow> T < m_end m' \<Longrightarrow> \<exists>m \<in> set ms. live m \<and> window_of m = window_of m' \<and> m_host m = m_host m'"
  shows "calm T (ms', qs')"
proof (rule calm_shrink [OF c])
  fix m' u assume m': "m' \<in> set ms'" "holds T u qs' m'"
  then obtain m where m: "m \<in> set ms" "live m" "window_of m = window_of m'" "m_host m = m_host m'"
    using rows unfolding holds_def by blast
  moreover have "engaged_in u qs m"
  proof (cases "m_host m' = u")
    case False
    with m'(2) obtain q where "q \<in> set qs'" "live_request q" "asker q = (m_id m', u)"
      by (auto simp: holds_def engaged_in_def asker_def)
    with less [of q] m(3) show ?thesis by (auto simp: engaged_in_def asker_def window_of_def)
  qed (use m in \<open>simp add: engaged_in_def\<close>)
  ultimately show "\<exists>m \<in> set ms. window_of m = window_of m' \<and> holds T u qs m"
    using m' by (auto simp: holds_def window_of_def)
qed

lemma calm_rows_update:
  assumes "\<And>m. m \<in> set ms \<Longrightarrow> p m \<Longrightarrow> live m \<and> window_of (f m) = window_of m \<and> m_host (f m) = m_host m"
    and "m' \<in> set (update_where p f ms)" "live m'"
  shows "\<exists>m \<in> set ms. live m \<and> window_of m = window_of m' \<and> m_host m = m_host m'"
  using assms unfolding set_update_where by fastforce

lemma calm_status:
  assumes "x \<in> set (update_where p (m_status_update (\<lambda>_. st)) ms)" "live x" "\<And>m. m \<in> set ms \<Longrightarrow> p m \<Longrightarrow> live m"
  shows "\<exists>m \<in> set ms. live m \<and> window_of m = window_of x \<and> m_host m = m_host x"
  by (rule calm_rows_update [OF _ assms(1,2)]) (simp add: assms(3) window_of_def)

lemma free_at_apart:
  assumes "free_at now u ws we x (ms, qs)" "m \<in> set ms" "holds T u qs m" "now \<le> T" "m_id m \<noteq> x"
  shows "m_end m \<le> ws \<or> we \<le> m_start m"
  using assms by (auto simp: free_at_def holds_def overlapping_def not_less)

lemma calm_grow:
  assumes c: "calm T (ms, qs)" and T: "now \<le> T"
    and free: "free_at now u (m_start m) (m_end m) x (ms, qs)" "x = m_id m \<or> (m_id m \<notin> m_id ` set ms \<and> x \<notin> m_id ` set ms)"
    and prev: "\<And>m' v. m' \<in> set ms' \<Longrightarrow> holds T v qs' m' \<Longrightarrow> (m' \<in> set ms \<and> holds T v qs m') \<or> (v = u \<and> window_of m' = window_of m)"
  shows "calm T (ms', qs')"
  unfolding calm_def
proof (intro ballI allI impI)
  fix a b v
  assume "a \<in> set (fst (ms', qs'))" "holds T v (snd (ms', qs')) a" "b \<in> set (fst (ms', qs'))" "holds T v (snd (ms', qs')) b"
    and ids: "m_id a \<noteq> m_id b"
  with prev [of a v] prev [of b v]
  have ab: "(a \<in> set ms \<and> holds T v qs a) \<or> (v = u \<and> window_of a = window_of m)"
      "(b \<in> set ms \<and> holds T v qs b) \<or> (v = u \<and> window_of b = window_of m)" by auto
  have apart: "m_end y \<le> m_start m \<or> m_end m \<le> m_start y" if "y \<in> set ms" "holds T u qs y" "m_id y \<noteq> m_id m" for y
    using free(2) that free_at_apart [OF free(1) that(1,2) T] by auto
  from ab ids show "m_end b \<le> m_start a \<or> m_end a \<le> m_start b"
  proof (elim disjE conjE)
    assume "a \<in> set ms" "holds T v qs a" "b \<in> set ms" "holds T v qs b"
    with c ids show ?thesis unfolding calm_def by auto
  next
    assume "a \<in> set ms" "holds T v qs a" "v = u" "window_of b = window_of m"
    with apart [of a] ids show ?thesis by (auto simp: window_of_def)
  next
    assume "b \<in> set ms" "holds T v qs b" "v = u" "window_of a = window_of m"
    with apart [of b] ids show ?thesis by (auto simp: window_of_def)
  next
    assume "window_of a = window_of m" "window_of b = window_of m"
    with ids show ?thesis by (simp add: window_of_def)
  qed
qed


lemma resolved_less:
  assumes "q \<in> set qs" "live_request q" "distinct (map q_id qs)"
    and "p \<in> set (update_where (\<lambda>p. q_id p = q_id q) (resolve st a now w) qs)" "live_request p"
  shows "\<exists>x \<in> set qs. live_request x \<and> asker x = asker p"
proof -
  from assms(4) consider "p \<in> set qs" | x where "x \<in> set qs" "q_id x = q_id q" "p = resolve st a now w x"
    unfolding set_update_where by blast
  then show ?thesis
  proof cases
    case 2
    then have "x = q" using distinct_key_unique [OF assms(3)] assms(1) by blast
    with 2 assms(1,2) show ?thesis by (intro bexI [of _ q]) auto
  qed (use assms(5) in blast)
qed

theorem move_calm: "move now d c c' \<Longrightarrow> core_ok c \<Longrightarrow> calm T c \<Longrightarrow> now \<le> T \<Longrightarrow> calm T c'"
proof (induction rule: move.induct)
  case (ask m ms qs u i)
  let ?q = "\<lparr>q_id = i, q_meetup = m_id m, q_requester = u, q_status = Pending, q_auto = False, q_created_at = now,
    q_resolved_at = None, q_note = None\<rparr>"
  have only: "x = m" if "x \<in> set ms" "m_id x = m_id m" for x
    using ask.prems(1) that ask.hyps(1) distinct_key_unique [of m_id ms x m] by (simp add: core_ok_def core_base_def keyed_def)
  show ?case
  proof (rule calm_grow [OF ask.prems(2,3) ask.hyps(5)])
    fix x v assume x: "x \<in> set ms" "holds T v (qs @ [?q]) x"
    then have "engaged_in v qs x \<or> (v = u \<and> m_id x = m_id m)" by (auto simp: holds_def engaged_in_def)
    with x only show "(x \<in> set ms \<and> holds T v qs x) \<or> (v = u \<and> window_of x = window_of m)" by (auto simp: holds_def)
  qed simp
next
  case (take_back q qs ms)
  show ?case by (rule calm_requests [OF take_back.prems(2)]) auto
next
  case (withdraw q qs m ms qs' w ms')
  have d: "distinct (map q_id qs)" using withdraw.prems(1) by (auto simp: core_ok_def dest: base_ids)
  show ?case
  proof (rule calm_requests [OF withdraw.prems(2)])
    fix p assume "p \<in> set qs'" "live_request p"
    then show "\<exists>x \<in> set qs. live_request x \<and> asker x = asker p"
      unfolding withdraw.hyps(7) by (rule resolved_less [OF withdraw.hyps(1,2) d])
  next
    fix x assume x: "x \<in> set ms'" "live x"
    show "\<exists>m \<in> set ms. live m \<and> window_of m = window_of x \<and> m_host m = m_host x"
    proof (cases "q_status q = Accepted")
      case True
      with withdraw.hyps(8) x(1) have "x \<in> set (update_where (\<lambda>x. m_id x = m_id m \<and> m_status x = MFull \<and>
          int (taken (m_id x) qs') < m_capacity x) (m_status_update (\<lambda>_. MOpen)) ms)" by simp
      then show ?thesis by (rule calm_status [OF _ x(2)]) (simp add: live_def)
    qed (use withdraw.hyps(8) x in auto)
  qed
next
  case (decline q qs ms)
  have d: "distinct (map q_id qs)" using decline.prems(1) by (auto simp: core_ok_def dest: base_ids)
  have "live_request q" using decline.hyps(2) by (simp add: live_request_def)
  from resolved_less [OF decline.hyps(1) this d] show ?case
    by (intro calm_requests [OF decline.prems(2)]) blast+
next
  case (admit q qs m ms qs1 ms' qs')
  have d: "distinct (map q_id qs)" "distinct (map m_id ms)" using admit.prems(1) by (auto simp: core_ok_def dest: base_ids)
  have only: "x = m" if "x \<in> set ms" "m_id x = m_id m" for x
    using distinct_key_unique [OF d(2) that(1) admit.hyps(3) that(2)] .
  show ?case
  proof (rule calm_requests [OF admit.prems(2)])
    fix p assume p: "p \<in> set qs'" "live_request p"
    have "p \<in> set qs1"
      using p admit.hyps(9) by (auto simp: set_update_where live_request_def split: if_splits)
    moreover have "live_request q" using admit.hyps(2) by (simp add: live_request_def)
    ultimately show "\<exists>x \<in> set qs. live_request x \<and> asker x = asker p"
      unfolding admit.hyps(8) using resolved_less [OF admit.hyps(1) _ d(1)] p(2) by blast
  next
    fix x assume "x \<in> set ms'" "live x"
    then show "\<exists>m \<in> set ms. live m \<and> window_of m = window_of x \<and> m_host m = m_host x"
      using admit.hyps(5,9) calm_status [of x "\<lambda>x. m_id x = m_id m" MFull ms] by (auto simp: live_def dest: only split: if_splits)
  qed
next
  case (found m ms qs)
  have fresh_id: "q_meetup q \<noteq> m_id m" if "q \<in> set qs" for q
    using found.prems(1) found.hyps(1) that unfolding core_ok_def core_base_def request_ok_def by (metis fst_conv snd_conv)
  have "nil_uuid \<notin> m_id ` set ms" using found.prems(1) by (auto simp: core_ok_def core_base_def row_ok_def)
  with found.hyps(1) show ?case
    by (intro calm_grow [OF found.prems(2,3) found.hyps(12)]) (auto simp: holds_def engaged_in_def dest: fresh_id)
next
  case (finish ms' ms qs)
  show ?case
  proof (rule calm_requests [OF finish.prems(2)])
    fix x assume x: "x \<in> set ms'" "live x"
    then obtain k where "k < length ms" "x = ms' ! k" using finish.hyps(1) by (auto simp: in_set_conv_nth)
    with x(2) finish.hyps(2) [of k] have "x = ms ! k" by (auto simp: end_as_def live_def split: if_splits)
    with \<open>k < length ms\<close> x(2) show "\<exists>m \<in> set ms. live m \<and> window_of m = window_of x \<and> m_host m = m_host x"
      by (metis nth_mem)
  qed auto
next
  case (remind ms qs p)
  show ?case by (rule calm_requests [OF remind.prems(2)]) (auto simp: window_of_def live_def split: if_splits)
next
  case (purge ms u ms' qs)
  show ?case
  proof (rule calm_requests [OF purge.prems(2)])
    fix x assume x: "x \<in> set ms'" "live x" "T < m_end x"
    then obtain k where k: "k < length ms" "x = ms' ! k" using purge.hyps(2) by (auto simp: in_set_conv_nth)
    with purge.hyps(3) [of k] obtain h where h: "x = (if m_host (ms ! k) = u then (ms ! k)\<lparr>m_host := h\<rparr> else ms ! k)" by auto
    have "x = ms ! k"
    proof (cases "m_host (ms ! k) = u")
      case True
      with h have "x = (ms ! k)\<lparr>m_host := h\<rparr>" by simp
      with x(2,3) have "live (ms ! k)" "T < m_end (ms ! k)" by (simp_all add: live_def)
      with purge.hyps(1) [of "ms ! k"] True k(1) purge.prems(3) show ?thesis by simp
    qed (use h in simp)
    with k(1) x(2) show "\<exists>m \<in> set ms. live m \<and> window_of m = window_of x \<and> m_host m = m_host x"
      by (metis nth_mem)
  qed auto
qed simp

end
