(* ===== verification/Meetup_World.thy ===== *)
theory Meetup_World
  imports Meetup_Calm
begin

text \<open>
  The meetup module at run time: transactions of many requests in any order, each at its own reading of
  the clock, with what a join request read of a meetup before its transaction kept in between; and
  the statements on other tables, which leave meetups and requests alone.
\<close>

section \<open>Steps\<close>

definition env_ok :: "(string \<Rightarrow> uuid option) \<Rightarrow> create_env \<Rightarrow> bool" where
  "env_ok parse e \<longleftrightarrow> em_parse e = parse \<and> canonical e \<and> (\<forall>n k. em_uuids e n k \<noteq> nil_uuid)"

inductive writes :: "create_env \<Rightarrow> (join_request \<times> meetup_view) list \<Rightarrow> meetup_db \<Rightarrow> meetup_db \<Rightarrow> bool"
  for e reads db where
  joins: "(r, m) \<in> set reads \<Longrightarrow> writes e reads db (snd (in_tx e n (join_tx e r m) db))"
| withdraws: "writes e reads db (snd (in_tx e n (withdraw_tx e w m) db))"
| takes_back: "writes e reads db (snd (requests_cancel_pending e i u db))"
| accepts: "writes e reads db (snd (in_tx e n (accept_tx e a m) db))"
| rejects: "writes e reads db (snd (in_tx e n (reject_tx e a m) db))"
| creates: "writes e reads db (snd (in_tx e n
    (meetups_create e c label hash hold (schedule_guard e (cr_host c) (cr_start c) (cr_end c) [])) db))"
| cancels: "writes e reads db (snd (in_tx e n (meetups_cancel e i reason host (cancel_notify e reason m)) db))"
| closes: "writes e reads db (snd (in_tx e n (meetups_close e i host (queue_meetup_closed e)) db))"
| sweeps: "writes e reads db (snd (in_tx e n (auto_close_tx e) db))"
| reminds: "writes e reads db (snd (in_tx e n (starting_soon_tx e) db))"
| purges: "writes e reads db (snd (in_tx e n (purge_user e u) db))"

text \<open>\<open>w_sent\<close> is every event ever queued for billing, delivered and removed since or not.\<close>

record world =
  w_db :: meetup_db
  w_reads :: "(join_request \<times> meetup_view) list"
  w_clock :: instant
  w_sent :: "billing_event list"

definition after_write :: "instant \<Rightarrow> meetup_db \<Rightarrow> world \<Rightarrow> world" where
  "after_write now db w = w\<lparr>w_db := db, w_clock := max (w_clock w) (ts now),
     w_sent := w_sent w @ drop (length (sent (w_db w))) (sent db)\<rparr>"

inductive meetup_step :: "(string \<Rightarrow> uuid option) \<Rightarrow> world \<Rightarrow> world \<Rightarrow> bool" for parse w where
  act: "writes e (w_reads w) (w_db w) db \<Longrightarrow> env_ok parse e \<Longrightarrow> meetup_step parse w (after_write (em_now e) db w)"
| look: "join_plan e r (w_db w) = Inr m \<Longrightarrow> env_ok parse e \<Longrightarrow> meetup_step parse w (w\<lparr>w_reads := (r, m) # w_reads w\<rparr>)"
| aside: "core_of db = core_of (w_db w) \<Longrightarrow> meetup_step parse w (w\<lparr>w_db := db\<rparr>)"

definition fresh_world :: "instant \<Rightarrow> world" where
  "fresh_world now = \<lparr>w_db = empty_meetup_db, w_reads = [], w_clock = now, w_sent = []\<rparr>"

inductive meetup_reachable :: "(string \<Rightarrow> uuid option) \<Rightarrow> world \<Rightarrow> bool" for parse where
  start: "meetup_reachable parse (fresh_world now)"
| step: "meetup_reachable parse w \<Longrightarrow> meetup_step parse w w' \<Longrightarrow> meetup_reachable parse w'"

section \<open>A write is a move\<close>

definition start_tx :: "'z meetup_env_scheme \<Rightarrow> nat \<Rightarrow> meetup_db \<Rightarrow> mtx" where
  "start_tx e n db = \<lparr>x_db = db, x_now = ts (em_now e), x_uuids = em_uuids e n, x_drawn = 0\<rparr>"

lemma start_tx_simps [simp]:
  "x_db (start_tx e n db) = db" "x_now (start_tx e n db) = ts (em_now e)" "x_uuids (start_tx e n db) = em_uuids e n"
  by (simp_all add: start_tx_def)

lemma in_tx_cases:
  obtains "snd (in_tx e n f db) = db"
  | x t' where "f (start_tx e n db) = Inr (x, t')" "snd (in_tx e n f db) = x_db t'"
  by (cases "f (start_tx e n db)") (auto simp: in_tx_def run_tx_def start_tx_def)

definition reads_ok :: "(string \<Rightarrow> uuid option) \<Rightarrow> (join_request \<times> meetup_view) list \<Rightarrow> meetup_db \<Rightarrow> bool" where
  "reads_ok parse reads db \<longleftrightarrow> (\<forall>(r, m) \<in> set reads. parse (jr_meetup r) = Some (m_id m) \<and> plan_current m db)"

text \<open>What a write does to the meetups and to the queue of billing events: \<open>worked\<close> is any but the purge of an account.\<close>

definition worked :: "instant \<Rightarrow> meetup_db \<Rightarrow> meetup_db \<Rightarrow> bool" where
  "worked now db db' \<longleftrightarrow>
     (move now Stay (core_of db) (core_of db') \<and> sent db' = sent db) \<or>
     (move now End_Some (core_of db) (core_of db') \<and> (\<exists>topic rows. booked_end topic rows db db')) \<or>
     (\<exists>m. move now Open_One (core_of db) (core_of db') \<and> core_of db' = (meetups db @ [m], requests db) \<and>
        sent db' = sent db @ charged_events topic_created db' [m] \<and> m_id m \<notin> m_id ` set (meetups db) \<and> m_status m = MOpen)"

lemma worked_same: "worked now db db"
  by (simp add: worked_def move.idle)

lemma worked_stay: "move (x_now t) Stay (core_of (x_db t)) (core_of (x_db t')) \<and> same_books t t' \<Longrightarrow> worked (x_now t) (x_db t) (x_db t')"
  by (simp add: worked_def same_books_def sent_def)

lemma worked_end_some:
  "move (x_now t) End_Some (core_of (x_db t)) (core_of (x_db t')) \<and> (\<exists>rows. booked_end topic rows (x_db t) (x_db t')) \<Longrightarrow>
    worked (x_now t) (x_db t) (x_db t')"
  by (auto simp: worked_def)

lemma worked_tx:
  assumes "\<And>x t'. f (start_tx e n db) = Inr (x, t') \<Longrightarrow> worked (x_now (start_tx e n db)) (x_db (start_tx e n db)) (x_db t')"
  shows "worked (ts (em_now e)) db (snd (in_tx e n f db))"
  using in_tx_cases [of e n f db] assms by (metis worked_same start_tx_simps(1,2))

definition purged :: "create_env \<Rightarrow> uuid \<Rightarrow> meetup_db \<Rightarrow> meetup_db \<Rightarrow> bool" where
  "purged e u db db' \<longleftrightarrow> (\<exists>n user. em_parse e user = Some u \<and> db' = snd (in_tx e n (purge_user e user) db))"

lemma writes_worked:
  assumes "writes e reads db db'" and env: "env_ok parse e" and k: "core_ok (core_of db)" and r: "reads_ok parse reads db"
  shows "worked (ts (em_now e)) db db' \<or>
    (\<exists>u. purged e u db db' \<and> move (ts (em_now e)) (Leave u) (core_of db) (core_of db') \<and> sent db' = sent db)"
proof -
  have key: "keyed (core_of (x_db (start_tx e n db)))" for n using k by (simp add: core_ok_def core_base_def)
  have stamps: "ts (m_start x) = m_start x \<and> ts (m_end x) = m_end x" if "x \<in> set (meetups db)" for x
    using k that by (auto simp: core_ok_def core_base_def row_ok_def)
  from assms(1) show ?thesis
  proof cases
    case (joins r m n)
    with r env have "plan_current m db" "em_parse e (jr_meetup r) = Some (m_id m)" "canonical e"
      by (auto simp: reads_ok_def env_ok_def)
    with stamps show ?thesis unfolding joins
      by (intro disjI1 worked_tx worked_stay join_tx_moves [OF key]) auto
  next
    case (withdraws n w m)
    show ?thesis unfolding withdraws by (intro disjI1 worked_tx worked_stay withdraw_tx_moves [OF key])
  next
    case (takes_back i u)
    have "requests_cancel_pending e i u db = (fst (requests_cancel_pending e i u db), db')"
      unfolding takes_back by simp
    from cancel_pending_moves [OF key [of 0, unfolded start_tx_simps] this] show ?thesis
      by (auto simp: worked_def sent_def)
  next
    case (accepts n a m)
    show ?thesis unfolding accepts by (intro disjI1 worked_tx worked_stay accept_tx_moves [OF key]) simp_all
  next
    case (rejects n a m)
    show ?thesis unfolding rejects by (intro disjI1 worked_tx worked_stay reject_tx_moves [OF key])
  next
    case (creates n c label hash hold)
    show ?thesis unfolding creates
    proof (intro disjI1 worked_tx)
      fix m t' assume "meetups_create e c label hash hold (schedule_guard e (cr_host c) (cr_start c) (cr_end c) []) (start_tx e n db) = Inr (m, t')"
      from create_tx_moves [OF this] env show "worked (x_now (start_tx e n db)) (x_db (start_tx e n db)) (x_db t')"
        unfolding worked_def env_ok_def by auto
    qed
  next
    case (cancels n i reason host m)
    show ?thesis unfolding cancels by (intro disjI1 worked_tx worked_end_some [where topic = topic_cancelled] cancel_tx_moves [OF key])
  next
    case (closes n i host)
    show ?thesis unfolding closes by (intro disjI1 worked_tx worked_end_some [where topic = topic_closed] close_tx_moves [OF key])
  next
    case (sweeps n)
    show ?thesis unfolding sweeps by (intro disjI1 worked_tx worked_end_some [where topic = topic_closed] auto_close_moves [OF key])
  next
    case (reminds n)
    show ?thesis unfolding reminds by (intro disjI1 worked_tx worked_stay starting_soon_moves [OF key])
  next
    case (purges n u)
    show ?thesis
    proof (cases rule: in_tx_cases [of e n "purge_user e u" db])
      case 1
      then show ?thesis unfolding purges by (simp add: worked_same)
    next
      case (2 x t')
      then have "purge_user e u (start_tx e n db) = Inr ((), t')" by simp
      from purge_moves [OF this] obtain v where v: "em_parse e u = Some v"
        "move (ts (em_now e)) (Leave v) (core_of db) (core_of (x_db t'))" "same_books (start_tx e n db) t'" by auto
      moreover have "purged e v db db'" unfolding purged_def purges using v(1) by blast
      ultimately show ?thesis unfolding purges 2(2) by (auto simp: same_books_def sent_def)
    qed
  qed
qed

definition booked :: "instant \<Rightarrow> meetup_db \<Rightarrow> meetup_db \<Rightarrow> bool" where
  "booked now db db' \<longleftrightarrow> worked now db db' \<or> (\<exists>u. move now (Leave u) (core_of db) (core_of db') \<and> sent db' = sent db)"

theorem writes_booked:
  assumes "writes e reads db db'" "env_ok parse e" "core_ok (core_of db)" "reads_ok parse reads db"
  shows "booked (ts (em_now e)) db db'"
  using writes_worked [OF assms] by (auto simp: booked_def)

end
