(* ===== verification/Meetup_Facts.thy ===== *)
theory Meetup_Facts
  imports Meetup_World
begin

text \<open>
  What holds in every state the meetup module can reach: well-formed tables, never more people than seats, one standing
  request per person and meetup, one meetup at a time per person, and a queue that tells billing of every charged
  meetup exactly once how it began and how it ended.
\<close>

section \<open>What billing is told\<close>

definition ended_at :: "meetup_row \<Rightarrow> instant option" where
  "ended_at m = (if m_status m = MCancelled then m_cancelled_at m else m_closed_at m)"

definition about :: "uuid \<Rightarrow> billing_event list \<Rightarrow> billing_event list" where
  "about i evs = filter (\<lambda>b. be_meetup b = i) evs"

definition news :: "billing_event \<Rightarrow> string \<times> uuid \<times> instant \<times> instant option" where
  "news b = (be_topic b, be_hold b, be_start b, be_ended b)"

definition full_story :: "meetup_row \<Rightarrow> (string \<times> uuid \<times> instant \<times> instant option) list" where
  "full_story m = (case m_hold m of None \<Rightarrow> []
     | Some h \<Rightarrow> (topic_created, h, m_start m, None) # (if live m then [] else [(end_topic m, h, m_start m, ended_at m)]))"

definition books_ok :: "meetup_row list \<Rightarrow> billing_event list \<Rightarrow> bool" where
  "books_ok ms evs \<longleftrightarrow> (\<forall>m \<in> set ms. map news (about (m_id m) evs) = full_story m) \<and>
     (\<forall>b \<in> set evs. be_meetup b \<in> m_id ` set ms)"

lemma about_append [simp]: "about i (xs @ ys) = about i xs @ about i ys"
  by (simp add: about_def)

lemma about_charged_none: "i \<notin> m_id ` set rows \<Longrightarrow> about i (charged_events topic db rows) = []"
  by (auto simp: about_def charged_events_def billing_event_of_def filter_empty_conv)

lemma about_charged:
  assumes "distinct (map m_id rows)" "m \<in> set rows"
  shows "about (m_id m) (charged_events topic db rows) = (case m_hold m of None \<Rightarrow> [] | Some h \<Rightarrow> [billing_event_of topic db m h])"
  using assms
proof (induction rows)
  case (Cons r rows)
  have step: "charged_events topic db (r # rows) = (case m_hold r of None \<Rightarrow> [] | Some h \<Rightarrow> [billing_event_of topic db r h]) @ charged_events topic db rows"
    by (cases "m_hold r") (simp_all add: charged_events_def)
  have mine: "be_meetup (billing_event_of topic db x h) = m_id x" for x h by (simp add: billing_event_of_def)
  show ?case
  proof (cases "m = r")
    case True
    with Cons.prems about_charged_none [of "m_id r" rows topic db] show ?thesis
      unfolding step by (cases "m_hold r") (auto simp: about_def mine)
  next
    case False
    with Cons have "m_id r \<noteq> m_id m" by (auto simp: image_iff)
    with False Cons show ?thesis unfolding step by (cases "m_hold r") (auto simp: about_def mine)
  qed
qed simp

lemma full_story_carries:
  assumes "carries m m'" "live m' = live m"
  shows "full_story m' = full_story m"
proof -
  have "end_topic m' = end_topic m" "ended_at m' = ended_at m" if "\<not> live m"
    using that assms(1) by (simp_all add: carries_def end_topic_def ended_at_def)
  with assms show ?thesis by (auto simp: full_story_def carries_def window_of_def split: option.splits)
qed

lemma full_story_end:
  assumes "carries m m'" "live m" "\<not> live m'"
  shows "full_story m' = full_story m @ (case m_hold m' of None \<Rightarrow> [] | Some h \<Rightarrow> [news (billing_event_of (end_topic m') db m' h)])"
  using assms by (auto simp: full_story_def carries_def window_of_def news_def billing_event_of_def end_topic_def
      ended_at_def topic_created_def topic_cancelled_def topic_closed_def split: option.splits)

text \<open>A move that is none of ending or opening leaves each meetup as live as it was.\<close>

lemma stay_live:
  assumes "move now d c c'" "d = Stay \<or> d = Leave u" "keyed c"
  shows "length (fst c') = length (fst c) \<and> (\<forall>k < length (fst c). live (fst c' ! k) = live (fst c ! k))"
  using assms
proof (induction rule: move.induct)
  case (withdraw q qs m ms qs' w ms')
  then show ?case by (auto simp: update_where_nth live_def)
next
  case (admit q qs m ms qs1 ms' qs')
  have "ms ! k = m" if "k < length ms" "m_id (ms ! k) = m_id m" for k
    using admit.prems(2) distinct_key_unique [of m_id ms "ms ! k" m] that admit.hyps(3) by (simp add: keyed_def)
  moreover have "live m" using admit.hyps(5) by (simp add: live_def)
  ultimately have "live (ms ! k)" if "k < length ms" "m_id (ms ! k) = m_id m" for k using that by metis
  with admit.hyps(9) show ?case by (auto simp: update_where_nth live_def split: if_splits)
next
  case (remind ms qs p)
  then show ?case by (simp add: live_def)
next
  case (purge ms v ms' qs)
  have "live (ms' ! k) = live (ms ! k)" if "k < length ms" for k
    using purge.hyps(3) [OF that] by (cases "m_host (ms ! k) = v") (auto simp: live_def)
  with purge.hyps(2) show ?case by simp
qed auto

lemma carried_ids: "rows_carried ms ms' \<Longrightarrow> length ms' = length ms \<Longrightarrow> map m_id ms' = map m_id ms"
  by (rule nth_equalityI) (auto simp: rows_carried_def carries_def window_of_def)

lemma end_length: "move now d c c' \<Longrightarrow> d = End_Some \<Longrightarrow> length (fst c') = length (fst c)"
  by (induction rule: move.induct) auto

lemma stay_books:
  assumes mv: "move now d (ms, qs) (ms', qs')" and d: "d = Stay \<or> d = Leave u" and k: "keyed (ms, qs)" and books: "books_ok ms evs"
  shows "books_ok ms' evs"
proof -
  from move_carries [OF mv k] stay_live [OF mv d k] have r: "rows_carried ms ms'" "length ms' = length ms" by simp_all
  have "map news (about (m_id m) evs) = full_story m" if "m \<in> set ms'" for m
  proof -
    from that r(2) obtain i where i: "i < length ms" "m = ms' ! i" by (auto simp: in_set_conv_nth)
    with r(1) stay_live [OF mv d k] have "carries (ms ! i) m" "live m = live (ms ! i)" by (simp_all add: rows_carried_def)
    with books i(1) full_story_carries carries_id [of "ms ! i" m] show ?thesis by (simp add: books_ok_def)
  qed
  moreover have "m_id ` set ms' = m_id ` set ms" using carried_ids [OF r] by (metis set_map)
  ultimately show ?thesis using books by (simp add: books_ok_def)
qed

lemma end_books:
  assumes mv: "move now End_Some (core_of db) (core_of db')" and k: "keyed (core_of db)"
    and e: "booked_end topic rows db db'" and books: "books_ok (meetups db) evs"
  shows "books_ok (meetups db') (evs @ charged_events topic db' rows)"
proof -
  from move_carries [OF mv k] end_length [OF mv refl]
  have r: "rows_carried (meetups db) (meetups db')" "length (meetups db') = length (meetups db)" by simp_all
  from carried_ids [OF r] have ids: "map m_id (meetups db') = map m_id (meetups db)" .
  have "map news (about (m_id m) (evs @ charged_events topic db' rows)) = full_story m" if m: "m \<in> set (meetups db')" for m
  proof -
    from m r(2) obtain i where i: "i < length (meetups db)" "m = meetups db' ! i" by (auto simp: in_set_conv_nth)
    let ?x = "meetups db ! i"
    have c: "carries ?x m" using r(1) i by (simp add: rows_carried_def)
    have old: "map news (about (m_id m) evs) = full_story ?x" using books i(1) carries_id [OF c] by (simp add: books_ok_def)
    have only: "y = ?x" if "y \<in> set (meetups db)" "m_id y = m_id m" for y
      using that k i(1) carries_id [OF c] distinct_key_unique [of m_id "meetups db" y ?x] by (simp add: keyed_def)
    show ?thesis
    proof (cases "m \<in> set rows")
      case True
      with e have new: "\<not> live m" "end_topic m = topic" "distinct (map m_id rows)"
        and "\<exists>x \<in> set (meetups db). m_id x = m_id m \<and> live x" by (auto simp: booked_end_def)
      with only have "live ?x" by blast
      from full_story_end [OF c this new(1), of db'] new(2) old about_charged [OF new(3) True, of topic db']
      show ?thesis by (simp split: option.splits)
    next
      case False
      with e m only have "m = ?x" by (auto simp: booked_end_def)
      moreover have "m_id m \<notin> m_id ` set rows"
      proof
        assume "m_id m \<in> m_id ` set rows"
        then obtain y where y: "y \<in> set rows" "m_id y = m_id m" by auto
        with e have "y \<in> set (meetups db')" by (auto simp: booked_end_def)
        with y m ids k distinct_key_unique [of m_id "meetups db'" y m] False show False by (auto simp: keyed_def)
      qed
      ultimately show ?thesis using old by (simp add: about_charged_none)
    qed
  qed
  moreover have "be_meetup b \<in> m_id ` set (meetups db')" if "b \<in> set (charged_events topic db' rows)" for b
    using that e by (auto simp: charged_events_def billing_event_of_def booked_end_def)
  moreover have "m_id ` set (meetups db') = m_id ` set (meetups db)" using ids by (metis set_map)
  ultimately show ?thesis using books by (auto simp: books_ok_def)
qed

lemma open_books:
  assumes fresh_id: "m_id m \<notin> m_id ` set ms" and st: "m_status m = MOpen" and books: "books_ok ms evs"
  shows "books_ok (ms @ [m]) (evs @ charged_events topic_created db' [m])"
proof -
  have new: "about (m_id m) evs = []"
    using books fresh_id unfolding books_ok_def about_def filter_empty_conv by metis
  have "about (m_id x) (charged_events topic_created db' [m]) = []" if "x \<in> set ms" for x
    using that fresh_id by (intro about_charged_none) (auto simp: image_iff)
  moreover have "map news (about (m_id m) (charged_events topic_created db' [m])) = full_story m"
    using st by (auto simp: about_charged [of "[m]" m] full_story_def live_def news_def billing_event_of_def
        topic_created_def topic_cancelled_def topic_closed_def split: option.splits)
  moreover have "be_meetup b = m_id m" if "b \<in> set (charged_events topic_created db' [m])" for b
    using that by (auto simp: charged_events_def billing_event_of_def split: if_splits)
  ultimately show ?thesis using books new by (auto simp: books_ok_def)
qed

lemma booked_books:
  assumes b: "booked now db db'" and k: "keyed (core_of db)" and books: "books_ok (meetups db) evs"
  shows "books_ok (meetups db') (evs @ drop (length (sent db)) (sent db'))"
  using b unfolding booked_def worked_def
proof (elim disjE conjE exE)
  assume "move now Stay (core_of db) (core_of db')" "sent db' = sent db"
  with stay_books [of now Stay "meetups db" "requests db" "meetups db'" "requests db'"] k books
  show ?thesis by (simp add: core_of_def)
next
  fix topic rows
  assume "move now End_Some (core_of db) (core_of db')" and e: "booked_end topic rows db db'"
  from end_books [OF this(1) k e books] e show ?thesis by (simp add: booked_end_def)
next
  fix m
  assume "core_of db' = (meetups db @ [m], requests db)" "sent db' = sent db @ charged_events topic_created db' [m]"
    "m_id m \<notin> m_id ` set (meetups db)" "m_status m = MOpen"
  with open_books [OF this(3,4) books, of db'] show ?thesis by (simp add: core_of_def)
next
  fix u
  assume "move now (Leave u) (core_of db) (core_of db')" "sent db' = sent db"
  with stay_books [of now "Leave u" "meetups db" "requests db" "meetups db'" "requests db'" u] k books
  show ?thesis by (simp add: core_of_def)
qed

section \<open>Ended meetups\<close>

definition accepted_rows :: "uuid \<Rightarrow> request_row list \<Rightarrow> request_row list" where
  "accepted_rows i qs = filter (\<lambda>q. q_meetup q = i \<and> q_status q = Accepted) qs"

lemma taken_rows: "taken i qs = length (accepted_rows i qs)"
  by (simp add: taken_def accepted_rows_def)

lemma accepted_rows_update:
  assumes "\<And>q. q \<in> set qs \<Longrightarrow> p q \<Longrightarrow> \<not> (q_meetup q = i \<and> q_status q = Accepted) \<and> \<not> (q_meetup (f q) = i \<and> q_status (f q) = Accepted)"
  shows "accepted_rows i (update_where p f qs) = accepted_rows i qs"
  using assms by (induction qs) (auto simp: accepted_rows_def)

lemma accepted_rows_resolve:
  assumes d: "distinct (map q_id qs)" and q: "q \<in> set qs" "q_meetup q \<noteq> i \<or> (q_status q \<noteq> Accepted \<and> st \<noteq> Accepted)"
  shows "accepted_rows i (update_where (\<lambda>p. q_id p = q_id q) (resolve st a now w) qs) = accepted_rows i qs"
proof (rule accepted_rows_update)
  fix p assume "p \<in> set qs" "q_id p = q_id q"
  then have "p = q" using distinct_key_unique [OF d _ q(1)] by blast
  with q(2) show "\<not> (q_meetup p = i \<and> q_status p = Accepted) \<and> \<not> (q_meetup (resolve st a now w p) = i \<and> q_status (resolve st a now w p) = Accepted)"
    by auto
qed

lemma ended_rows:
  assumes "move now d c c'" "core_ok c" "m \<in> set (fst c)" "\<not> live m"
  shows "accepted_rows (m_id m) (snd c') = accepted_rows (m_id m) (snd c) \<or>
    (\<exists>u. d = Leave u \<and> accepted_rows (m_id m) (snd c') = filter (\<lambda>q. q_requester q \<noteq> u) (accepted_rows (m_id m) (snd c)))"
  using assms
proof (induction rule: move.induct)
  case (ask x ms qs u i)
  then show ?case by (simp add: accepted_rows_def)
next
  case (take_back q qs ms)
  have "q_id p \<noteq> q_id q" if "p \<in> set qs" "q_status p = Accepted" for p
    using that take_back.prems(1) take_back.hyps distinct_key_unique [of q_id qs p q]
    by (auto simp: core_ok_def core_base_def keyed_def)
  then have "accepted_rows (m_id m) (filter (\<lambda>p. q_id p \<noteq> q_id q) qs) = accepted_rows (m_id m) qs"
    by (auto simp: accepted_rows_def intro!: filter_cong)
  then show ?case by simp
next
  case (withdraw q qs x ms qs' w ms')
  have d: "distinct (map m_id ms)" "distinct (map q_id qs)" using withdraw.prems(1) by (auto simp: core_ok_def dest: base_ids)
  have "m_id m \<noteq> q_meetup q"
    using withdraw.hyps(3-5) withdraw.prems(2,3) distinct_key_unique [OF d(1), of m x] by auto
  then have "accepted_rows (m_id m) qs' = accepted_rows (m_id m) qs"
    unfolding withdraw.hyps(7) by (intro accepted_rows_resolve [OF d(2) withdraw.hyps(1)]) simp
  then show ?case by simp
next
  case (decline q qs ms)
  have "distinct (map q_id qs)" using decline.prems(1) by (simp add: core_ok_def core_base_def keyed_def)
  from accepted_rows_resolve [OF this decline.hyps(1)] decline.hyps(2) show ?case by simp
next
  case (admit q qs x ms qs1 ms' qs')
  have d: "distinct (map m_id ms)" "distinct (map q_id qs)" using admit.prems(1) by (auto simp: core_ok_def dest: base_ids)
  have "m_id m \<noteq> q_meetup q"
    using admit.hyps(3-5) admit.prems(2,3) distinct_key_unique [OF d(1), of m x] by (auto simp: live_def)
  then have "accepted_rows (m_id m) qs1 = accepted_rows (m_id m) qs"
    unfolding admit.hyps(8) by (intro accepted_rows_resolve [OF d(2) admit.hyps(1)]) simp
  moreover have "accepted_rows (m_id m) qs' = accepted_rows (m_id m) qs1"
    using admit.hyps(9) by (auto split: if_splits intro!: accepted_rows_update)
  ultimately show ?case by simp
next
  case (purge ms u ms' qs)
  have "accepted_rows (m_id m) (filter (\<lambda>q. q_requester q \<noteq> u) qs) = filter (\<lambda>q. q_requester q \<noteq> u) (accepted_rows (m_id m) qs)"
    by (simp add: accepted_rows_def conj_commute)
  then show ?case by auto
qed auto

end
