(* ===== verification/Meetup_Samples.thy ===== *)
theory Meetup_Samples
  imports Meetup_World
begin

text \<open>
  A small history of the meetup module: a charged meetup with one seat is created, someone near asks to join and is
  accepted, which fills it, and the host closes it once it has begun.
\<close>

definition sample_parse :: "string \<Rightarrow> uuid option" where
  "sample_parse s = (if s = [] then None else Some s)"

text \<open>The surroundings of the call whose ids start with \<open>base\<close>.\<close>

definition sample_env :: "instant \<Rightarrow> char \<Rightarrow> create_env" where
  "sample_env now base = \<lparr>em_now = now, em_parse = sample_parse, em_uuids = (\<lambda>n k. base # replicate k CHR ''i''),
     em_json = (\<lambda>_. ''{}''), em_distance = (\<lambda>_ _. 0), ce_show = (\<lambda>_. []), ce_fixed7 = (\<lambda>_. []), ce_sha256 = (\<lambda>_. []),
     ce_geocode = (\<lambda>_ _. Inl (PkgError [])), ce_new_uuid = ''n''\<rparr>"

lemma sample_env_ok: "base \<noteq> CHR ''0'' \<Longrightarrow> env_ok sample_parse (sample_env now base)"
  by (auto simp: env_ok_def sample_env_def canonical_def sample_parse_def nil_uuid_def split: if_splits)

definition sample_creation :: creation_request where
  "sample_creation = \<lparr>cr_host = ''h'', cr_trust = 4, cr_intent = ''coffee'', cr_start = 2000, cr_end = 9000,
     cr_lat = Finite 1, cr_lng = Finite 1, cr_label = ''Cafe'', cr_capacity = 1, cr_expected = Some 2, cr_price_version = 1,
     cr_key = []\<rparr>"

definition sample_join :: join_request where
  "sample_join = \<lparr>jr_meetup = ''a'', jr_requester = ''u'', jr_trust = 4\<rparr>"

definition acted :: "create_env \<Rightarrow> (mtx \<Rightarrow> 'e + ('a \<times> mtx)) \<Rightarrow> world \<Rightarrow> world" where
  "acted e f w = after_write (em_now e) (snd (in_tx e 0 f (w_db w))) w"

definition create_with :: "create_env \<Rightarrow> creation_request \<Rightarrow> string \<Rightarrow> mtx \<Rightarrow> create_failure + (meetup_row \<times> mtx)" where
  "create_with e c hold = meetups_create e c ''Cafe'' [] hold (schedule_guard e (cr_host c) (cr_start c) (cr_end c) [])"

definition sample_created :: world where
  "sample_created = (let e = sample_env 1000 CHR ''a'' in acted e (create_with e sample_creation ''k'') (fresh_world 0))"

definition sample_two :: world where
  "sample_two = (let e = sample_env 1000 CHR ''e'' in
     acted e (create_with e (sample_creation\<lparr>cr_start := 9000, cr_end := 12000\<rparr>) []) sample_created)"

definition sample_located :: world where
  "sample_located = sample_created\<lparr>w_db := (w_db sample_created)
     \<lparr>locations := [\<lparr>lo_user = ''u'', lo_lat = Finite 1, lo_lng = Finite 1, lo_updated = 1000\<rparr>]\<rparr>\<rparr>"

definition sample_view :: meetup_view where
  "sample_view = (case join_plan (sample_env 1000 CHR ''b'') sample_join (w_db sample_located) of Inr m \<Rightarrow> m)"

definition sample_read :: world where
  "sample_read = sample_located\<lparr>w_reads := (sample_join, sample_view) # w_reads sample_located\<rparr>"

definition sample_asked :: world where
  "sample_asked = (let e = sample_env 1000 CHR ''b'' in acted e (join_tx e sample_join sample_view) sample_read)"

definition sample_full :: world where
  "sample_full = (let e = sample_env 1000 CHR ''c'' in
     acted e (accept_tx e \<lparr>rr_request = ''b'', rr_host = ''h'', rr_accept = True\<rparr> sample_view) sample_asked)"

definition sample_closed :: world where
  "sample_closed = (let e = sample_env 3000 CHR ''d'' in acted e (meetups_close e ''a'' ''h'' (queue_meetup_closed e)) sample_full)"

text \<open>The person accepted on the closed meetup deletes their account.\<close>

definition sample_purged :: world where
  "sample_purged = (let e = sample_env 4000 CHR ''f'' in acted e (purge_user e ''u'') sample_closed)"

lemma acted_reachable:
  assumes "meetup_reachable sample_parse w" "writes (sample_env now b) (w_reads w) (w_db w) (snd (in_tx (sample_env now b) 0 f (w_db w)))" "b \<noteq> CHR ''0''"
  shows "meetup_reachable sample_parse (acted (sample_env now b) f w)"
  unfolding acted_def by (intro meetup_reachable.step [OF assms(1)] meetup_step.act [OF assms(2)] sample_env_ok assms(3))

lemma sample_plan: "join_plan (sample_env 1000 CHR ''b'') sample_join (w_db sample_located) = Inr sample_view"
  by code_simp

lemma created_reachable: "meetup_reachable sample_parse sample_created"
  unfolding sample_created_def Let_def create_with_def
  by (intro acted_reachable meetup_reachable.start writes.creates) simp

lemma two_reachable: "meetup_reachable sample_parse sample_two"
  unfolding sample_two_def Let_def create_with_def
  by (intro acted_reachable created_reachable writes.creates) simp

lemma read_reachable: "meetup_reachable sample_parse sample_read"
proof -
  have "meetup_step sample_parse sample_created sample_located"
    unfolding sample_located_def by (rule meetup_step.aside) (simp add: core_of_def)
  from meetup_reachable.step [OF created_reachable this] show ?thesis
    unfolding sample_read_def by (rule meetup_reachable.step) (intro meetup_step.look [OF sample_plan] sample_env_ok, simp)
qed

lemma asked_reachable: "meetup_reachable sample_parse sample_asked"
  unfolding sample_asked_def Let_def
  by (intro acted_reachable read_reachable writes.joins) (simp_all add: sample_read_def)

lemma full_reachable: "meetup_reachable sample_parse sample_full"
  unfolding sample_full_def Let_def by (intro acted_reachable asked_reachable writes.accepts) simp

lemma closed_reachable: "meetup_reachable sample_parse sample_closed"
  unfolding sample_closed_def Let_def by (intro acted_reachable full_reachable writes.closes) simp

lemma full_step: "meetup_step sample_parse sample_asked sample_full"
  unfolding sample_full_def Let_def acted_def
  by (intro meetup_step.act [OF writes.accepts] sample_env_ok) simp

lemma purged_step: "meetup_step sample_parse sample_closed sample_purged"
  unfolding sample_purged_def Let_def acted_def
  by (intro meetup_step.act [OF writes.purges] sample_env_ok) simp

definition sample_meetup :: "meetup_status \<Rightarrow> meetup_row" where
  "sample_meetup st = \<lparr>m_id = ''a'', m_host = ''h'', m_intent = ''coffee'', m_lat = Finite 1, m_lng = Finite 1,
     m_label = ''Cafe'', m_capacity = 1, m_status = st, m_created_at = 1000, m_cancelled_at = None, m_start = 2000,
     m_end = 9000, m_closed_at = (if st = MCompleted then Some 3000 else None), m_reason = None, m_soon_at = None,
     m_key = None, m_hold = Some ''k'', m_hash = None\<rparr>"

lemma asked_meetups: "meetups (w_db sample_asked) = [sample_meetup MOpen]"
  by code_simp

lemma full_meetups: "meetups (w_db sample_full) = [sample_meetup MFull]"
  by code_simp

lemma closed_meetups: "meetups (w_db sample_closed) = [sample_meetup MCompleted]"
  by code_simp

lemma full_requests: "requests (w_db sample_full) = [\<lparr>q_id = ''b'', q_meetup = ''a'', q_requester = ''u'', q_status = Accepted,
    q_auto = False, q_created_at = 1000, q_resolved_at = Some 1000, q_note = None\<rparr>]"
  by code_simp

lemma closed_requests: "requests (w_db sample_closed) = requests (w_db sample_full)"
  by code_simp

lemma purged_requests: "requests (w_db sample_purged) = []"
  by code_simp

lemma two_meetups: "meetups (w_db sample_two) = [sample_meetup MOpen,
    (sample_meetup MOpen)\<lparr>m_id := ''e'', m_start := 9000, m_end := 12000, m_hold := None\<rparr>] \<and> w_clock sample_two = 1000"
  by code_simp

end
