(* ===== verification/Meetup_Props.thy ===== *)
theory Meetup_Props
  imports Meetup_Facts Meetup_Samples
begin

text \<open>
  The invariant of the running meetup module, and the properties that follow from it.
\<close>

section \<open>The invariant\<close>

text \<open>An end tells billing of at least the people still on the meetup, and of no more than its seats.\<close>

definition counts_ok :: "core \<Rightarrow> billing_event list \<Rightarrow> bool" where
  "counts_ok c evs \<longleftrightarrow> (\<forall>m \<in> set (fst c). \<forall>b \<in> set (about (m_id m) evs). be_topic b \<noteq> topic_created \<longrightarrow>
     int (taken (m_id m) (snd c)) \<le> be_accepted b \<and> be_accepted b \<le> m_capacity m)"

definition world_ok :: "(string \<Rightarrow> uuid option) \<Rightarrow> world \<Rightarrow> bool" where
  "world_ok parse w \<longleftrightarrow> core_ok (core_of (w_db w)) \<and> calm (w_clock w) (core_of (w_db w)) \<and>
     reads_ok parse (w_reads w) (w_db w) \<and> books_ok (meetups (w_db w)) (w_sent w) \<and> counts_ok (core_of (w_db w)) (w_sent w)"

lemma booked_move: "booked now db db' \<Longrightarrow> \<exists>d. move now d (core_of db) (core_of db')"
  by (auto simp: booked_def worked_def)

lemma charged_event:
  "b \<in> set (charged_events topic db rows) \<Longrightarrow> be_topic b = topic \<and> (topic \<noteq> topic_created \<longrightarrow> be_accepted b = int (taken (be_meetup b) (requests db)))"
  by (auto simp: charged_events_def billing_event_of_def count_accepted_taken)

lemma booked_sent:
  assumes "booked now db db'" "b \<in> set (drop (length (sent db)) (sent db'))" "be_topic b \<noteq> topic_created"
  shows "be_accepted b = int (taken (be_meetup b) (requests db'))"
  using assms by (auto simp: booked_def worked_def booked_end_def dest!: charged_event)

lemma told_of_end:
  assumes "books_ok ms evs" "m \<in> set ms" "b \<in> set (about (m_id m) evs)" "be_topic b \<noteq> topic_created"
  shows "\<not> live m"
proof -
  have "news b \<in> set (full_story m)" using assms(1-3) unfolding books_ok_def by (metis image_eqI set_map)
  with assms(4) show ?thesis by (auto simp: full_story_def news_def split: option.splits if_splits)
qed

lemma about_iff: "b \<in> set (about i evs) \<longleftrightarrow> b \<in> set evs \<and> be_meetup b = i"
  by (auto simp: about_def)

lemma booked_counts:
  assumes b: "booked now db db'" and ok: "core_ok (core_of db)" "core_ok (core_of db')"
    and books: "books_ok (meetups db) evs" and counts: "counts_ok (core_of db) evs"
  shows "counts_ok (core_of db') (evs @ drop (length (sent db)) (sent db'))"
proof -
  from booked_move [OF b] obtain d where mv: "move now d (core_of db) (core_of db')" by blast
  have k: "keyed (core_of db)" "keyed (core_of db')" using ok by (simp_all add: core_ok_def core_base_def)
  from move_carries [OF mv k(1)] have r: "rows_carried (meetups db) (meetups db')" by simp
  have "int (taken (m_id m) (requests db')) \<le> be_accepted x \<and> be_accepted x \<le> m_capacity m"
    if m: "m \<in> set (meetups db')" and x: "x \<in> set (evs @ drop (length (sent db)) (sent db'))" "be_meetup x = m_id m" "be_topic x \<noteq> topic_created" for m x
  proof (cases "x \<in> set evs")
    case True
    with books x(2) obtain y where y: "y \<in> set (meetups db)" "m_id y = m_id m" by (auto simp: books_ok_def)
    from carried_window [OF r y(1)] obtain z where z: "z \<in> set (meetups db')" "carries y z" by blast
    with y(2) carries_id [OF z(2)] have "z = m" using k(2) m distinct_key_unique [of m_id "meetups db'" z m] by (simp add: keyed_def)
    have xy: "x \<in> set (about (m_id y) evs)" using True x(2) y(2) by (simp add: about_iff)
    from told_of_end [OF books y(1) this x(3)] have "\<not> live y" .
    with ended_rows [OF mv ok(1), of y] y(1) have "taken (m_id y) (requests db') \<le> taken (m_id y) (requests db)"
      by (auto simp: taken_rows)
    moreover have "int (taken (m_id y) (requests db)) \<le> be_accepted x \<and> be_accepted x \<le> m_capacity y"
      using counts y(1) xy x(3) by (simp add: counts_ok_def)
    ultimately show ?thesis using z(2) \<open>z = m\<close> y(2) by (simp add: carries_def)
  next
    case False
    with x(1) have "x \<in> set (drop (length (sent db)) (sent db'))" by simp
    from booked_sent [OF b this x(3)] x(2) have "be_accepted x = int (taken (m_id m) (requests db'))" by simp
    moreover have "seats_ok (requests db') m" using ok(2) m by (simp add: core_ok_def)
    ultimately show ?thesis by (simp add: seats_ok_def)
  qed
  then show ?thesis by (auto simp: counts_ok_def about_iff)
qed

lemma reads_kept:
  assumes "reads_ok parse reads db" "rows_carried (meetups db) (meetups db')"
  shows "reads_ok parse reads db'"
proof -
  have "plan_current m db'" if "plan_current m db" for m
  proof -
    from that obtain x where x: "x \<in> set (meetups db)" "m_id x = m_id m" "m_start x = m_start m" "m_end x = m_end m"
      by (auto simp: plan_current_def)
    from carried_window [OF assms(2) x(1)] x(2-4) carries_id show ?thesis unfolding plan_current_def by metis
  qed
  with assms(1) show ?thesis by (fastforce simp: reads_ok_def)
qed

lemma join_plan_reads:
  assumes "join_plan e r db = Inr m" "keyed (core_of db)"
  shows "em_parse e (jr_meetup r) = Some (m_id m) \<and> plan_current m db"
proof -
  from assms(1) have "meetups_get_by_id e (jr_meetup r) (jr_requester r) db = Inr m"
    by (auto simp: join_plan_def split: if_splits option.splits bool.splits)
  then obtain i u where "em_parse e (jr_meetup r) = Some i" "get_meetup_by_id i u db = Some m"
    by (auto simp: meetups_get_by_id_def parse_id_def split: option.splits)
  then obtain x where "get_meetup i db = Some x" "m = (join_view (latest_request i u db) db x)\<lparr>v_my_auto := False\<rparr>"
    "em_parse e (jr_meetup r) = Some i" by (auto simp: get_meetup_by_id_def)
  then show ?thesis using assms(2)
    by (auto simp: get_meetup_iff plan_current_def join_view_def meetup_row.defs Let_def split: prod.splits)
qed

lemma step_ok:
  assumes "meetup_step parse w w'" "world_ok parse w"
  shows "world_ok parse w'"
  using assms(1)
proof cases
  case (act e db)
  from assms(2) have ok: "core_ok (core_of (w_db w))" "calm (w_clock w) (core_of (w_db w))" "reads_ok parse (w_reads w) (w_db w)"
    "books_ok (meetups (w_db w)) (w_sent w)" "counts_ok (core_of (w_db w)) (w_sent w)" by (simp_all add: world_ok_def)
  from writes_booked [OF act(2,3) ok(1,3)] have b: "booked (ts (em_now e)) (w_db w) db" .
  from booked_move [OF b] obtain d where mv: "move (ts (em_now e)) d (core_of (w_db w)) (core_of db)" by blast
  have k: "keyed (core_of (w_db w))" using ok(1) by (simp add: core_ok_def core_base_def)
  have c: "core_ok (core_of db)" by (rule move_ok [OF mv ok(1)])
  moreover have "calm (max (w_clock w) (ts (em_now e))) (core_of db)"
    by (rule move_calm [OF mv ok(1) calm_later [OF ok(2)]]) simp_all
  moreover have "reads_ok parse (w_reads w) db"
    using reads_kept [OF ok(3)] move_carries [OF mv k] by simp
  ultimately show ?thesis
    using booked_books [OF b k ok(4)] booked_counts [OF b ok(1) c ok(4,5)] by (simp add: act(1) world_ok_def after_write_def)
next
  case (look e r m)
  with assms(2) join_plan_reads [OF look(2)] show ?thesis
    by (auto simp: world_ok_def reads_ok_def env_ok_def core_ok_def core_base_def)
next
  case (aside db)
  then have "meetups db = meetups (w_db w)" "requests db = requests (w_db w)" by (simp_all add: core_of_def)
  with assms(2) show ?thesis unfolding aside(1)
    by (simp add: world_ok_def reads_ok_def plan_current_def core_of_def)
qed

lemma world_reachable_ok: "meetup_reachable parse w \<Longrightarrow> world_ok parse w"
proof (induction rule: meetup_reachable.induct)
  case (start now)
  show ?case
    by (simp add: world_ok_def fresh_world_def empty_meetup_db_def core_of_def core_ok_def core_base_def keyed_def
        calm_def reads_ok_def books_ok_def counts_ok_def)
next
  case (step w w')
  then show ?case by (blast intro: step_ok)
qed

section \<open>Properties\<close>

text \<open>
  C10. The tables stay well formed: in every state the module can reach, ids are unique, a meetup has between 1 and
  30 seats, a window that starts before it ends and an end time exactly when it was cancelled or completed; a request
  belongs to a meetup that exists and is resolved exactly when it is not pending.
\<close>

theorem meetup_tables_typed:
  assumes "meetup_reachable parse w"
  shows "distinct (map m_id (meetups (w_db w))) \<and> distinct (map q_id (requests (w_db w))) \<and>
    (\<forall>m \<in> set (meetups (w_db w)). row_ok m) \<and> (\<forall>q \<in> set (requests (w_db w)). request_ok (meetups (w_db w)) q)"
  using world_reachable_ok [OF assms] by (simp add: world_ok_def core_ok_def core_base_def keyed_def)

lemma meetup_tables_typed_witness: "distinct (map m_id (meetups (w_db sample_full)))"
  using meetup_tables_typed [OF full_reachable] by blast

text \<open>
  C3. Seats are never oversold: whatever joins, answers, withdrawals and sweeps ran, in whatever order, a
  meetup has at most as many accepted requests as seats, and one that takes requests has a free seat.
\<close>

theorem seats_never_oversold:
  assumes "meetup_reachable parse w" "m \<in> set (meetups (w_db w))"
  shows "count_accepted_requests (m_id m) (w_db w) \<le> m_capacity m \<and>
    (m_status m = MOpen \<longrightarrow> count_accepted_requests (m_id m) (w_db w) < m_capacity m)"
  using world_reachable_ok [OF assms(1)] assms(2)
  by (simp add: world_ok_def core_ok_def seats_ok_def count_accepted_taken)

lemma seats_never_oversold_witness: "count_accepted_requests ''a'' (w_db sample_full) \<le> 1"
  using seats_never_oversold [OF full_reachable, of "sample_meetup MFull"] by (simp add: full_meetups sample_meetup_def)

text \<open>
  Nobody has two standing requests on a meetup: two requests of one person on one meetup that were not withdrawn
  are the same request. So whoever was declined, by the host or because it filled up, never gets another.
\<close>

lemma one_standing_request:
  assumes "meetup_reachable parse w" "p \<in> set (requests (w_db w))" "q \<in> set (requests (w_db w))"
    and "q_meetup p = q_meetup q" "q_requester p = q_requester q" "q_status p \<noteq> Withdrawn" "q_status q \<noteq> Withdrawn"
  shows "p = q"
proof (rule distinct_key_unique [of asker "filter standing (requests (w_db w))"])
  show "distinct (map asker (filter standing (requests (w_db w))))"
    using world_reachable_ok [OF assms(1)] by (simp add: world_ok_def core_ok_def core_base_def)
qed (use assms in \<open>simp_all add: standing_def asker_def\<close>)

text \<open>
  C4. One meetup at a time: of two live meetups that have not ended, hosted by one person or asked for or
  accepted by them, one is over before the other starts, although the check and the request's own reading of the
  meetup come before the transaction and other people's transactions run in between.
\<close>

theorem one_meetup_at_a_time:
  assumes "meetup_reachable parse w" "a \<in> set (meetups (w_db w))" "b \<in> set (meetups (w_db w))" "m_id a \<noteq> m_id b"
    and "live a" "live b" "w_clock w < m_end a" "w_clock w < m_end b" "engaged u (w_db w) a" "engaged u (w_db w) b"
  shows "m_end a \<le> m_start b \<or> m_end b \<le> m_start a"
  using world_reachable_ok [OF assms(1)] assms(2-) unfolding world_ok_def calm_def holds_def engaged_iff core_of_simps by blast

lemma one_meetup_at_a_time_witness:
  "m_end (meetups (w_db sample_two) ! 0) \<le> m_start (meetups (w_db sample_two) ! 1) \<or>
   m_end (meetups (w_db sample_two) ! 1) \<le> m_start (meetups (w_db sample_two) ! 0)"
  by (rule one_meetup_at_a_time [OF two_reachable, of _ _ "''h''"])
    (simp_all add: two_meetups sample_meetup_def live_def engaged_def)

lemma worked_rows:
  assumes "worked now db db'" "core_ok (core_of db)" "m \<in> set (meetups db)" "\<not> live m"
  shows "accepted_rows (m_id m) (requests db') = accepted_rows (m_id m) (requests db)"
  using assms(1) ended_rows [OF _ assms(2), of now _ "core_of db'" m] assms(3,4) by (fastforce simp: worked_def)

lemma act_final:
  assumes "writes e reads db db'" "env_ok parse e" "core_ok (core_of db)" "reads_ok parse reads db" "m \<in> set (meetups db)" "\<not> live m"
  shows "accepted_rows (m_id m) (requests db') = accepted_rows (m_id m) (requests db) \<or>
    (\<exists>u. purged e u db db' \<and>
      accepted_rows (m_id m) (requests db') = filter (\<lambda>q. q_requester q \<noteq> u) (accepted_rows (m_id m) (requests db)))"
  using writes_worked [OF assms(1-4)]
proof (elim disjE exE conjE)
  fix u assume p: "purged e u db db'" and mv: "move (ts (em_now e)) (Leave u) (core_of db) (core_of db')"
  from ended_rows [OF mv assms(3), of m] assms(5,6) p show ?thesis by auto
qed (use worked_rows [OF _ assms(3,5,6)] in blast)

text \<open>
  C9. An ended meetup is final: no later step changes its status, when it ended or its seats, and none adds or removes
  one of the people accepted on it, in whatever order, but one: the purge of an account, the very transaction that
  deletes that person's rows, which takes exactly that person's requests off.
\<close>

theorem ended_meetup_is_final:
  assumes w: "meetup_reachable parse w" and s: "meetup_step parse w w'" and m: "m \<in> set (meetups (w_db w))" "\<not> live m"
  shows "\<exists>m' \<in> set (meetups (w_db w')). m_id m' = m_id m \<and> m_status m' = m_status m \<and> m_cancelled_at m' = m_cancelled_at m \<and>
      m_closed_at m' = m_closed_at m \<and> m_capacity m' = m_capacity m \<and>
      (accepted_rows (m_id m) (requests (w_db w')) = accepted_rows (m_id m) (requests (w_db w)) \<or>
       (\<exists>e n user u. env_ok parse e \<and> parse user = Some u \<and> w_db w' = snd (in_tx e n (purge_user e user) (w_db w)) \<and>
          accepted_rows (m_id m) (requests (w_db w')) = filter (\<lambda>q. q_requester q \<noteq> u) (accepted_rows (m_id m) (requests (w_db w)))))"
proof -
  from world_reachable_ok [OF w] have ok: "core_ok (core_of (w_db w))" "reads_ok parse (w_reads w) (w_db w)" by (simp_all add: world_ok_def)
  have k: "keyed (core_of (w_db w))" using ok(1) by (simp add: core_ok_def core_base_def)
  from s show ?thesis
  proof cases
    case (act e db)
    from booked_move [OF writes_booked [OF act(2,3) ok]] obtain d where mv: "move (ts (em_now e)) d (core_of (w_db w)) (core_of db)" by blast
    from move_carries [OF mv k] carried_window [of "meetups (w_db w)" "meetups db" m] m(1)
    obtain m' where "m' \<in> set (meetups db)" "carries m m'" by auto
    moreover from act_final [OF act(2,3) ok m] act(3) have "accepted_rows (m_id m) (requests db) = accepted_rows (m_id m) (requests (w_db w)) \<or>
        (\<exists>e n user u. env_ok parse e \<and> parse user = Some u \<and> db = snd (in_tx e n (purge_user e user) (w_db w)) \<and>
          accepted_rows (m_id m) (requests db) = filter (\<lambda>q. q_requester q \<noteq> u) (accepted_rows (m_id m) (requests (w_db w))))"
      unfolding purged_def env_ok_def by metis
    ultimately show ?thesis unfolding act(1) using m(2)
      by (intro bexI [of _ m']) (simp_all add: after_write_def carries_def window_of_def)
  next
    case (look e r p)
    with m(1) show ?thesis by auto
  next
    case (aside db)
    then have "meetups db = meetups (w_db w)" "requests db = requests (w_db w)" by (simp_all add: core_of_def)
    with m(1) show ?thesis unfolding aside(1) by auto
  qed
qed

lemma ended_meetup_is_final_witness:
  "(\<exists>m \<in> set (meetups (w_db sample_purged)). m_id m = ''a'' \<and> m_status m = MCompleted \<and> m_closed_at m = Some 3000) \<and>
    length (accepted_rows ''a'' (requests (w_db sample_closed))) = 1 \<and> accepted_rows ''a'' (requests (w_db sample_purged)) = []"
proof -
  have "length (accepted_rows ''a'' (requests (w_db sample_closed))) = 1" "accepted_rows ''a'' (requests (w_db sample_purged)) = []"
    by (simp_all add: accepted_rows_def closed_requests full_requests purged_requests)
  with ended_meetup_is_final [OF closed_reachable purged_step, of "sample_meetup MCompleted"] show ?thesis
    by (auto simp: closed_meetups sample_meetup_def live_def)
qed

text \<open>
  C5. Billing hears the whole story of every charged meetup, once: over all that was ever queued, a meetup with a hold has
  exactly one event for its creation, then exactly one for its end when it has ended, of the topic and the time of that
  end and with that hold; a meetup without a hold has none. The end names no more people than the meetup has seats and
  no fewer than are still on it.
\<close>

theorem billing_hears_once:
  assumes "meetup_reachable parse w" "m \<in> set (meetups (w_db w))"
  shows "map news (about (m_id m) (w_sent w)) = full_story m \<and>
    (\<forall>b \<in> set (about (m_id m) (w_sent w)). be_topic b \<noteq> topic_created \<longrightarrow>
      count_accepted_requests (m_id m) (w_db w) \<le> be_accepted b \<and> be_accepted b \<le> m_capacity m)"
  using world_reachable_ok [OF assms(1)] assms(2) by (simp add: world_ok_def books_ok_def counts_ok_def count_accepted_taken)

lemma billing_hears_once_witness:
  "map news (about ''a'' (w_sent sample_closed)) = [(topic_created, ''k'', 2000, None), (topic_closed, ''k'', 2000, Some 3000)]"
  using billing_hears_once [OF closed_reachable, of "sample_meetup MCompleted"]
  by (simp add: closed_meetups sample_meetup_def full_story_def live_def end_topic_def ended_at_def)

end
