(* ===== verification/Meetup_Seats.thy ===== *)
theory Meetup_Seats
  imports Meetup_Props
begin

text \<open>
  One meetup as a party with a door: who is in, who waits, who was refused, and whether the door is open. The tables and
  their transactions refine it.
\<close>

datatype door = Taking | Shut | Over

record party =
  p_seats :: int
  p_door :: door
  p_in :: "uuid set"
  p_waiting :: "uuid set"
  p_refused :: "uuid set"

inductive party_step :: "party \<Rightarrow> party \<Rightarrow> bool" where
  still: "party_step a a"
| knock: "p_door a = Taking \<Longrightarrow> u \<notin> p_in a \<union> p_waiting a \<union> p_refused a \<Longrightarrow>
    party_step a (a\<lparr>p_waiting := insert u (p_waiting a)\<rparr>)"
| back_out: "u \<in> p_waiting a \<Longrightarrow> party_step a (a\<lparr>p_waiting := p_waiting a - {u}\<rparr>)"
| refuse: "u \<in> p_waiting a \<Longrightarrow>
    party_step a (a\<lparr>p_waiting := p_waiting a - {u}, p_refused := insert u (p_refused a)\<rparr>)"
| let_in: "p_door a = Taking \<Longrightarrow> u \<in> p_waiting a \<Longrightarrow> int (card (insert u (p_in a))) < p_seats a \<Longrightarrow>
    party_step a (a\<lparr>p_waiting := p_waiting a - {u}, p_in := insert u (p_in a)\<rparr>)"
| last_in: "p_door a = Taking \<Longrightarrow> u \<in> p_waiting a \<Longrightarrow> int (card (insert u (p_in a))) = p_seats a \<Longrightarrow>
    party_step a (a\<lparr>p_door := Shut, p_waiting := {}, p_refused := p_refused a \<union> (p_waiting a - {u}), p_in := insert u (p_in a)\<rparr>)"
| give_up: "p_door a \<noteq> Over \<Longrightarrow> u \<in> p_waiting a \<Longrightarrow> party_step a (a\<lparr>p_waiting := p_waiting a - {u}\<rparr>)"
| leave: "p_door a \<noteq> Over \<Longrightarrow> u \<in> p_in a \<Longrightarrow> int (card (p_in a - {u})) < p_seats a \<Longrightarrow>
    party_step a (a\<lparr>p_door := Taking, p_in := p_in a - {u}\<rparr>)"
| finish: "p_door a \<noteq> Over \<Longrightarrow> party_step a (a\<lparr>p_door := Over\<rparr>)"
| forget: "party_step a (a\<lparr>p_in := p_in a - {u}, p_waiting := p_waiting a - {u}, p_refused := p_refused a - {u}\<rparr>)"

definition stands :: "uuid \<Rightarrow> request_status \<Rightarrow> request_row list \<Rightarrow> uuid set" where
  "stands i st qs = q_requester ` set (filter (\<lambda>q. q_meetup q = i \<and> q_status q = st) qs)"

fun door_of :: "meetup_status \<Rightarrow> door" where
  "door_of MOpen = Taking"
| "door_of MFull = Shut"
| "door_of MCancelled = Over"
| "door_of MCompleted = Over"

definition party_of :: "request_row list \<Rightarrow> meetup_row \<Rightarrow> party" where
  "party_of qs m = \<lparr>p_seats = m_capacity m, p_door = door_of (m_status m), p_in = stands (m_id m) Accepted qs,
     p_waiting = stands (m_id m) Pending qs, p_refused = stands (m_id m) Rejected qs\<rparr>"

lemma stands_iff: "u \<in> stands i st qs \<longleftrightarrow> (\<exists>q \<in> set qs. q_meetup q = i \<and> q_requester q = u \<and> q_status q = st)"
  by (auto simp: stands_def)

lemma over_iff: "door_of st = Over \<longleftrightarrow> st \<noteq> MOpen \<and> st \<noteq> MFull"
  by (cases st) auto

lemma standing_unique:
  assumes "core_base (ms, qs)" "p \<in> set qs" "q \<in> set qs" "q_meetup p = q_meetup q" "q_requester p = q_requester q"
    "q_status p \<noteq> Withdrawn" "q_status q \<noteq> Withdrawn"
  shows "p = q"
  using assms distinct_key_unique [of asker "filter standing qs" p q] by (simp add: core_base_def standing_def asker_def)

lemma taken_card:
  assumes "core_base (ms, qs)"
  shows "taken i qs = card (stands i Accepted qs)"
proof -
  have "distinct (filter (\<lambda>q. q_meetup q = i \<and> q_status q = Accepted) qs)"
    using assms by (auto simp: core_base_def keyed_def distinct_map)
  moreover have "inj_on q_requester (set (filter (\<lambda>q. q_meetup q = i \<and> q_status q = Accepted) qs))"
    using standing_unique [OF assms] by (auto intro!: inj_onI)
  ultimately show ?thesis
    unfolding taken_def stands_def by (simp add: card_image distinct_card del: set_filter)
qed

lemma set_resolved:
  assumes "distinct (map q_id qs)" "q \<in> set qs"
  shows "set (update_where (\<lambda>p. q_id p = q_id q) f qs) = insert (f q) (set qs - {q})"
proof -
  have only: "(q_id p = q_id q) = (p = q)" if "p \<in> set qs" for p
    using distinct_key_unique [OF assms(1) that assms(2)] by blast
  have "{f p |p. p \<in> set qs \<and> q_id p = q_id q} = {f q}" "{p \<in> set qs. q_id p \<noteq> q_id q} = set qs - {q}"
    using only assms(2) by blast+
  then show ?thesis unfolding set_update_where by simp
qed

lemma stands_others:
  assumes ok: "core_base (ms, qs)" and q: "q \<in> set qs" "q_status q \<noteq> Withdrawn" and s: "s \<noteq> Withdrawn"
  shows "(\<exists>p \<in> set qs. p \<noteq> q \<and> q_meetup p = i \<and> q_requester p = u \<and> q_status p = s) \<longleftrightarrow>
    u \<in> (if q_meetup q = i then stands i s qs - {q_requester q} else stands i s qs)"
proof
  assume "\<exists>p \<in> set qs. p \<noteq> q \<and> q_meetup p = i \<and> q_requester p = u \<and> q_status p = s"
  then obtain p where p: "p \<in> set qs" "p \<noteq> q" "q_meetup p = i" "q_requester p = u" "q_status p = s" by blast
  with standing_unique [OF ok p(1) q(1)] q(2) s have "q_meetup q = i \<Longrightarrow> u \<noteq> q_requester q" by metis
  with p show "u \<in> (if q_meetup q = i then stands i s qs - {q_requester q} else stands i s qs)" by (auto simp: stands_iff)
next
  assume "u \<in> (if q_meetup q = i then stands i s qs - {q_requester q} else stands i s qs)"
  then obtain p where "p \<in> set qs" "q_meetup p = i" "q_requester p = u" "q_status p = s" "q_meetup q = i \<longrightarrow> u \<noteq> q_requester q"
    by (auto simp: stands_iff split: if_splits)
  then show "\<exists>p \<in> set qs. p \<noteq> q \<and> q_meetup p = i \<and> q_requester p = u \<and> q_status p = s"
    by (intro bexI [of _ p]) auto
qed

lemma stands_resolve:
  assumes ok: "core_base (ms, qs)" and q: "q \<in> set qs" "live_request q" and s: "s \<noteq> Withdrawn"
  shows "stands i s (update_where (\<lambda>p. q_id p = q_id q) (resolve st a now w) qs) =
    (if q_meetup q = i then (stands i s qs - {q_requester q}) \<union> (if st = s then {q_requester q} else {}) else stands i s qs)"
proof -
  have qw: "q_status q \<noteq> Withdrawn" using q(2) by (auto simp: live_request_def)
  have d: "distinct (map q_id qs)" using ok by (simp add: core_base_def keyed_def)
  have "u \<in> stands i s (update_where (\<lambda>p. q_id p = q_id q) (resolve st a now w) qs) \<longleftrightarrow>
      (\<exists>p \<in> set qs. p \<noteq> q \<and> q_meetup p = i \<and> q_requester p = u \<and> q_status p = s) \<or> (q_meetup q = i \<and> q_requester q = u \<and> st = s)" for u
    unfolding stands_iff set_resolved [OF d q(1)] by (simp, blast)
  then show ?thesis unfolding set_eq_iff stands_others [OF ok q(1) qw s] by (simp, blast)
qed

lemma stands_removed:
  assumes ok: "core_base (ms, qs)" and q: "q \<in> set qs" "q_status q \<noteq> Withdrawn" and s: "s \<noteq> Withdrawn"
  shows "stands i s (filter (\<lambda>p. p \<noteq> q) qs) = (if q_meetup q = i then stands i s qs - {q_requester q} else stands i s qs)"
  unfolding set_eq_iff stands_others [OF ok q s, symmetric] by (simp add: stands_iff, blast)

lemma stands_filter_user: "stands i s (filter (\<lambda>q. q_requester q \<noteq> u) qs) = stands i s qs - {u}"
  by (auto simp: stands_def)

lemma stands_Nil [simp]: "stands i s [] = {}"
  by (simp add: stands_def)

lemma stands_Cons: "stands i s (q # qs) = (if q_meetup q = i \<and> q_status q = s then insert (q_requester q) (stands i s qs) else stands i s qs)"
  by (simp add: stands_def)

lemma stands_refuse_all:
  "stands i s (update_where (\<lambda>p. q_meetup p = j \<and> q_status p = Pending) (\<lambda>p. p\<lparr>q_status := Rejected, q_resolved_at := r, q_auto := b\<rparr>) qs) =
    (if i \<noteq> j then stands i s qs else if s = Pending then {} else if s = Rejected then stands i Rejected qs \<union> stands i Pending qs else stands i s qs)"
proof (induction qs)
  case (Cons q qs)
  then show ?case by (cases s; cases "q_status q"; cases "i = j"; cases "q_meetup q = j") (auto simp: stands_Cons)
qed simp

section \<open>Refinement\<close>

text \<open>How one move looks to a meetup that was there.\<close>

definition seen :: "core \<Rightarrow> core \<Rightarrow> meetup_row \<Rightarrow> bool" where
  "seen c c' m \<longleftrightarrow> (\<exists>m' \<in> set (fst c'). m_id m' = m_id m \<and> party_step (party_of (snd c) m) (party_of (snd c') m'))"

lemma seenI: "m' \<in> set (fst c') \<Longrightarrow> m_id m' = m_id m \<Longrightarrow> party_step (party_of (snd c) m) (party_of (snd c') m') \<Longrightarrow> seen c c' m"
  by (auto simp: seen_def)

lemma party_step_eq: "party_step a b \<Longrightarrow> b = c \<Longrightarrow> party_step a c"
  by simp

lemma seen_ask:
  assumes "x \<in> set ms" "meetup_joinable now x" "core_base (ms, qs)"
    "\<And>p. p \<in> set qs \<Longrightarrow> q_meetup p = m_id x \<Longrightarrow> q_requester p = u \<Longrightarrow> q_status p = Withdrawn" "m \<in> set ms"
  shows "seen (ms, qs) (ms, qs @ [\<lparr>q_id = i, q_meetup = m_id x, q_requester = u, q_status = Pending, q_auto = False,
      q_created_at = now, q_resolved_at = None, q_note = None\<rparr>]) m"
proof (rule seenI [of m])
  let ?q = "\<lparr>q_id = i, q_meetup = m_id x, q_requester = u, q_status = Pending, q_auto = False, q_created_at = now,
    q_resolved_at = None, q_note = None\<rparr>"
  have s: "stands k st (qs @ [?q]) = (if k = m_id x \<and> st = Pending then insert u (stands k st qs) else stands k st qs)" for k st
    by (auto simp: stands_def)
  show "party_step (party_of (snd (ms, qs)) m) (party_of (snd (ms, qs @ [?q])) m)"
  proof (cases "m_id m = m_id x")
    case True
    then have "m = x" using assms(1,3,5) distinct_key_unique [of m_id ms m x] by (simp add: core_base_def keyed_def)
    have "u \<notin> stands (m_id x) st qs" if "st \<noteq> Withdrawn" for st
      using assms(4) that by (auto simp: stands_iff)
    with assms(2) \<open>m = x\<close> have "party_step (party_of qs m) (party_of qs m\<lparr>p_waiting := insert u (p_waiting (party_of qs m))\<rparr>)"
      by (intro party_step.knock) (auto simp: party_of_def meetup_joinable_def)
    with \<open>m = x\<close> show ?thesis by (simp add: party_of_def s)
  next
    case False
    then show ?thesis by (simp add: party_of_def s party_step.still)
  qed
qed (use assms in simp_all)

lemma seen_resolve:
  assumes ok: "core_base (ms, qs)" and q: "q \<in> set qs" "q_status q = Pending" and m: "m \<in> set ms"
  shows "seen (ms, qs) (ms, update_where (\<lambda>p. q_id p = q_id q) (resolve Rejected a now w) qs) m"
proof (rule seenI [of m])
  have l: "live_request q" using q(2) by (simp add: live_request_def)
  have w: "q_requester q \<in> stands (q_meetup q) Pending qs" using q by (auto simp: stands_iff)
  have no: "q_requester q \<notin> stands (q_meetup q) Accepted qs"
    using standing_unique [OF ok _ q(1)] q(2) by (fastforce simp: stands_iff)
  show "party_step (party_of (snd (ms, qs)) m) (party_of (snd (ms, update_where (\<lambda>p. q_id p = q_id q) (resolve Rejected a now w) qs)) m)"
  proof (cases "m_id m = q_meetup q")
    case True
    with w have "party_step (party_of qs m) (party_of qs m\<lparr>p_waiting := p_waiting (party_of qs m) - {q_requester q},
        p_refused := insert (q_requester q) (p_refused (party_of qs m))\<rparr>)"
      by (intro party_step.refuse) (simp add: party_of_def)
    with True no show ?thesis
      by (simp add: party_of_def stands_resolve [OF ok q(1) l] insert_absorb)
  next
    case False
    then show ?thesis by (simp add: party_of_def stands_resolve [OF ok q(1) l] party_step.still)
  qed
qed (use m in simp_all)

lemma seen_back_out:
  assumes ok: "core_base (ms, qs)" and q: "q \<in> set qs" "q_status q = Pending" and m: "m \<in> set ms"
  shows "seen (ms, qs) (ms, filter (\<lambda>p. q_id p \<noteq> q_id q) qs) m"
proof (rule seenI [of m])
  have "(q_id p \<noteq> q_id q) = (p \<noteq> q)" if "p \<in> set qs" for p
    using ok that q(1) distinct_key_unique [of q_id qs p q] by (auto simp: core_base_def keyed_def)
  then have f: "filter (\<lambda>p. q_id p \<noteq> q_id q) qs = filter (\<lambda>p. p \<noteq> q) qs" by (rule filter_cong [OF refl])
  have s: "stands k st (filter (\<lambda>p. p \<noteq> q) qs) = (if q_meetup q = k then stands k st qs - {q_requester q} else stands k st qs)"
    if "st \<noteq> Withdrawn" for k st using stands_removed [OF ok q(1) _ that] q(2) by simp
  have no: "q_requester q \<notin> stands (q_meetup q) st qs" if "st = Accepted \<or> st = Rejected" for st
    using standing_unique [OF ok _ q(1)] q(2) that by (fastforce simp: stands_iff)
  show "party_step (party_of (snd (ms, qs)) m) (party_of (snd (ms, filter (\<lambda>p. q_id p \<noteq> q_id q) qs)) m)"
  proof (cases "m_id m = q_meetup q")
    case True
    with q have "q_requester q \<in> p_waiting (party_of qs m)" by (auto simp: party_of_def stands_iff)
    from party_step.back_out [OF this] True no show ?thesis unfolding f by (simp add: party_of_def s)
  next
    case False
    then show ?thesis unfolding f by (simp add: party_of_def s party_step.still)
  qed
qed (use m in simp_all)

lemma update_where_keep: "m \<in> set ms \<Longrightarrow> \<not> p m \<Longrightarrow> m \<in> set (update_where p f ms)"
  by (simp add: set_update_where)

lemma update_where_hit: "m \<in> set ms \<Longrightarrow> p m \<Longrightarrow> f m \<in> set (update_where p f ms)"
  by (auto simp: set_update_where)

lemma seen_withdraw:
  assumes c: "core_ok (ms, qs)" and q: "q \<in> set qs" "live_request q" and x: "x \<in> set ms" "m_id x = q_meetup q" "live x"
    and qs': "qs' = update_where (\<lambda>p. q_id p = q_id q) (resolve Withdrawn (q_auto q) now w) qs"
    and ms': "ms' = (if q_status q = Accepted
      then update_where (\<lambda>y. m_id y = m_id x \<and> m_status y = MFull \<and> int (taken (m_id y) qs') < m_capacity y) (m_status_update (\<lambda>_. MOpen)) ms
      else ms)" and m: "m \<in> set ms"
  shows "seen (ms, qs) (ms', qs') m"
proof (cases "m_id m = m_id x")
  case False
  have ok: "core_base (ms, qs)" using c by (simp add: core_ok_def)
  have "m \<in> set ms'" using m False unfolding ms' by (simp add: update_where_keep)
  with False x(2) show ?thesis
    by (intro seenI [of m]) (simp_all add: party_of_def qs' stands_resolve [OF ok q] party_step.still)
next
  case True
  have ok: "core_base (ms, qs)" using c by (simp add: core_ok_def)
  have "m = x" using True x(1) m ok distinct_key_unique [of m_id ms m x] by (simp add: core_base_def keyed_def)
  have st: "stands (m_id x) s qs' = stands (m_id x) s qs - {q_requester q}" if "s \<noteq> Withdrawn" for s
    using that x(2) by (auto simp: qs' stands_resolve [OF ok q])
  have no: "q_requester q \<notin> stands (m_id x) s qs" if "s \<noteq> q_status q" "s \<noteq> Withdrawn" for s
    using standing_unique [OF ok _ q(1)] that q(2) x(2) by (fastforce simp: stands_iff live_request_def)
  have "core_base (ms, qs')" unfolding qs' by (rule resolve_base [OF ok q]) simp
  then have tk: "taken (m_id x) qs' = card (stands (m_id x) Accepted qs - {q_requester q})"
    by (simp add: taken_card st)
  show ?thesis
  proof (cases "q_status q = Accepted")
    case False
    with q(2) have p: "q_status q = Pending" by (auto simp: live_request_def)
    with q(1) x(2) have "q_requester q \<in> p_waiting (party_of qs x)" by (auto simp: party_of_def stands_iff)
    from party_step.back_out [OF this] no p False show ?thesis
      by (intro seenI [of x]) (simp_all add: \<open>m = x\<close> x(1) ms' party_of_def st)
  next
    case acc: True
    with q(1) x(2) have "q_requester q \<in> stands (m_id x) Accepted qs" by (auto simp: stands_iff)
    moreover have "finite (stands (m_id x) Accepted qs)" by (simp add: stands_def)
    ultimately have "card (stands (m_id x) Accepted qs - {q_requester q}) < card (stands (m_id x) Accepted qs)"
      by (intro psubset_card_mono) auto
    moreover have "int (taken (m_id x) qs) \<le> m_capacity x" using c x(1) by (simp add: core_ok_def seats_ok_def)
    ultimately have room: "int (card (stands (m_id x) Accepted qs - {q_requester q})) < m_capacity x"
      using taken_card [OF ok] by simp
    let ?y = "if m_status x = MFull then x\<lparr>m_status := MOpen\<rparr> else x"
    have "?y \<in> set ms'" using acc x(1) room tk unfolding ms'
      by (auto intro: update_where_keep update_where_hit [where f = "m_status_update (\<lambda>_. MOpen)", simplified])
    moreover have "party_step (party_of qs x) (party_of qs' ?y)"
      using party_step.leave [of "party_of qs x" "q_requester q"] room x(3) \<open>q_requester q \<in> _\<close> no acc
      by (cases "m_status x") (simp_all add: party_of_def st live_def)
    ultimately show ?thesis by (intro seenI [of ?y]) (simp_all add: \<open>m = x\<close>)
  qed
qed

lemma seen_admit:
  assumes c: "core_ok (ms, qs)" and q: "q \<in> set qs" "q_status q = Pending" and x: "x \<in> set ms" "m_id x = q_meetup q" "m_status x = MOpen"
    and seats: "int (taken (m_id x) qs) < m_capacity x"
    and qs1: "qs1 = update_where (\<lambda>p. q_id p = q_id q) (resolve Accepted (q_auto q) now w) qs"
    and res: "(ms', qs') = (if int (taken (m_id x) qs1) < m_capacity x then (ms, qs1)
      else (update_where (\<lambda>y. m_id y = m_id x) (m_status_update (\<lambda>_. MFull)) ms,
        update_where (\<lambda>p. q_meetup p = m_id x \<and> q_status p = Pending)
          (\<lambda>p. p\<lparr>q_status := Rejected, q_resolved_at := Some now, q_auto := True\<rparr>) qs1))"
    and m: "m \<in> set ms"
  shows "seen (ms, qs) (ms', qs') m"
proof -
  have ok: "core_base (ms, qs)" using c by (simp add: core_ok_def)
  have l: "live_request q" using q(2) by (simp add: live_request_def)
  have st1: "stands k s qs1 = (if q_meetup q = k then (stands k s qs - {q_requester q}) \<union> (if s = Accepted then {q_requester q} else {}) else stands k s qs)"
    if "s \<noteq> Withdrawn" for k s using that by (auto simp: qs1 stands_resolve [OF ok q(1) l])
  show ?thesis
  proof (cases "m_id m = m_id x")
    case False
    then have "m \<in> set ms'" using m res by (simp add: update_where_keep split: if_splits)
    moreover have "stands (m_id m) s qs' = stands (m_id m) s qs" if "s \<noteq> Withdrawn" for s
      using that False x(2) res by (simp add: st1 stands_refuse_all split: if_splits)
    ultimately show ?thesis by (intro seenI [of m]) (simp_all add: party_of_def party_step.still)
  next
    case True
    then have mx: "m = x" using x(1) m ok distinct_key_unique [of m_id ms m x] by (simp add: core_base_def keyed_def)
    have wait: "q_requester q \<in> stands (m_id x) Pending qs" using q x(2) by (auto simp: stands_iff)
    have no: "q_requester q \<notin> stands (m_id x) s qs" if "s = Accepted \<or> s = Rejected" for s
      using standing_unique [OF ok _ q(1)] q(2) x(2) that by (fastforce simp: stands_iff)
    have "core_base (ms, qs1)" unfolding qs1 by (rule resolve_base [OF ok q(1) l]) simp
    then have tk: "taken (m_id x) qs1 = card (insert (q_requester q) (stands (m_id x) Accepted qs))"
      using no x(2) by (simp add: taken_card st1)
    have "finite (stands (m_id x) Accepted qs)" by (simp add: stands_def)
    then have "card (insert (q_requester q) (stands (m_id x) Accepted qs)) = Suc (taken (m_id x) qs)"
      using no by (simp add: taken_card [OF ok])
    with seats have le: "int (card (insert (q_requester q) (stands (m_id x) Accepted qs))) \<le> m_capacity x" by simp
    show ?thesis
    proof (cases "int (taken (m_id x) qs1) < m_capacity x")
      case room: True
      with res have r: "ms' = ms" "qs' = qs1" by simp_all
      have "party_step (party_of qs x) (party_of qs1 x)"
        using party_step.let_in [of "party_of qs x" "q_requester q"] room x(2,3) wait no
        by (simp add: party_of_def st1 tk [unfolded x(2)])
      with r x(1) show ?thesis by (intro seenI [of x]) (simp_all add: mx)
    next
      case full: False
      with res have r: "ms' = update_where (\<lambda>y. m_id y = m_id x) (m_status_update (\<lambda>_. MFull)) ms"
        "qs' = update_where (\<lambda>p. q_meetup p = m_id x \<and> q_status p = Pending)
          (\<lambda>p. p\<lparr>q_status := Rejected, q_resolved_at := Some now, q_auto := True\<rparr>) qs1" by simp_all
      have "int (card (insert (q_requester q) (stands (m_id x) Accepted qs))) = m_capacity x" using full le tk by simp
      then have "party_step (party_of qs x) (party_of qs' (x\<lparr>m_status := MFull\<rparr>))"
        using party_step.last_in [of "party_of qs x" "q_requester q"] x(2,3) wait no
        by (simp add: party_of_def r(2) stands_refuse_all st1)
      moreover have "x\<lparr>m_status := MFull\<rparr> \<in> set ms'"
        unfolding r(1) using x(1) update_where_hit [of x ms "\<lambda>y. m_id y = m_id x" "m_status_update (\<lambda>_. MFull)"] by simp
      ultimately show ?thesis by (intro seenI [of "x\<lparr>m_status := MFull\<rparr>"]) (simp_all add: mx)
    qed
  qed
qed

lemma party_of_host [simp]: "party_of qs (m\<lparr>m_host := h\<rparr>) = party_of qs m"
  by (simp add: party_of_def)

lemma party_of_soon [simp]: "party_of qs (m\<lparr>m_soon_at := h\<rparr>) = party_of qs m"
  by (simp add: party_of_def)

lemma party_of_end:
  assumes "end_as st now m m'"
  shows "party_step (party_of qs m) (party_of qs m')"
proof -
  have "p_door (party_of qs m) \<noteq> Over" using assms by (auto simp: end_as_def live_def party_of_def)
  from party_step.finish [OF this] assms show ?thesis by (auto simp: end_as_def party_of_def split: if_splits)
qed

theorem move_seen: "move now d c c' \<Longrightarrow> core_ok c \<Longrightarrow> m \<in> set (fst c) \<Longrightarrow> seen c c' m"
proof (induction rule: move.induct)
  case (idle d c)
  then show ?case by (intro seenI [of m]) (simp_all add: party_step.still)
next
  case (ask x ms qs u i)
  have "core_base (ms, qs)" "m \<in> set ms" using ask.prems by (simp_all add: core_ok_def)
  from seen_ask [OF ask.hyps(1,2) this(1) ask.hyps(3) this(2)] show ?case by simp
next
  case (take_back q qs ms)
  have "core_base (ms, qs)" using take_back.prems(1) by (simp add: core_ok_def)
  from seen_back_out [OF this take_back.hyps] take_back.prems(2) show ?case by simp
next
  case (withdraw q qs x ms qs' w ms')
  then show ?case by (intro seen_withdraw) auto
next
  case (decline q qs ms)
  have "core_base (ms, qs)" using decline.prems(1) by (simp add: core_ok_def)
  from seen_resolve [OF this decline.hyps] decline.prems(2) show ?case by simp
next
  case (admit q qs x ms qs1 ms' qs')
  from seen_admit [OF admit.prems(1) admit.hyps(1-5,7-9)] admit.prems(2) show ?case by simp
next
  case (found x ms qs)
  then show ?case by (intro seenI [of m]) (simp_all add: party_step.still)
next
  case (finish ms' ms qs)
  then obtain k where k: "k < length ms" "m = ms ! k" by (auto simp: in_set_conv_nth)
  with finish.hyps have "ms' ! k \<in> set ms'" "ms' ! k = m \<or> (\<exists>st. end_as st now m (ms' ! k))" by auto
  then show ?case
    by (intro seenI [of "ms' ! k"]) (auto simp: end_as_id party_step.still intro: party_of_end)
next
  case (remind ms qs p)
  then show ?case
    by (intro seenI [of "if p m then m\<lparr>m_soon_at := Some now\<rparr> else m"]) (auto simp: party_step.still)
next
  case (purge ms u ms' qs)
  then obtain k where k: "k < length ms" "m = ms ! k" by (auto simp: in_set_conv_nth)
  from purge.hyps(3) [OF k(1)] k(2) obtain h where h: "ms' ! k = (if m_host m = u then m\<lparr>m_host := h\<rparr> else m)" by auto
  have "ms' ! k \<in> set ms'" using k(1) purge.hyps(2) by simp
  moreover have "party_step (party_of qs m) (party_of (filter (\<lambda>q. q_requester q \<noteq> u) qs) m)"
    using party_step.forget [of "party_of qs m" u] by (simp add: party_of_def stands_filter_user)
  ultimately show ?case using h by (intro seenI [of "ms' ! k"]) (simp_all split: if_splits)
qed

text \<open>
  C7. The tables refine the party at the door: for every meetup, any step of the module, of whatever call, is a step of its
  party or leaves it as it was. So the rules of the party hold of the program: one knocks only while the door takes people and
  never after a refusal, is let in only from waiting, the last seat shuts the door and refuses all who wait, only a
  leaving guest opens it again, and after the end no one comes in.
\<close>

theorem tables_refine_party:
  assumes w: "meetup_reachable parse w" and s: "meetup_step parse w w'" and m: "m \<in> set (meetups (w_db w))"
  shows "\<exists>m' \<in> set (meetups (w_db w')). m_id m' = m_id m \<and>
    party_step (party_of (requests (w_db w)) m) (party_of (requests (w_db w')) m')"
proof -
  from world_reachable_ok [OF w] have ok: "core_ok (core_of (w_db w))" "reads_ok parse (w_reads w) (w_db w)" by (simp_all add: world_ok_def)
  from s show ?thesis
  proof cases
    case (act e db)
    from booked_move [OF writes_booked [OF act(2,3) ok]] obtain d where mv: "move (ts (em_now e)) d (core_of (w_db w)) (core_of db)" by blast
    from move_seen [OF mv ok(1)] m show ?thesis by (simp add: seen_def act(1) after_write_def)
  next
    case (look e r p)
    with m show ?thesis by (auto intro: party_step.still)
  next
    case (aside db)
    then have "meetups db = meetups (w_db w)" "requests db = requests (w_db w)" by (simp_all add: core_of_def)
    with m show ?thesis unfolding aside(1) by (auto intro: party_step.still)
  qed
qed

lemma tables_refine_party_witness:
  "party_step (party_of (requests (w_db sample_asked)) (sample_meetup MOpen)) (party_of (requests (w_db sample_full)) (sample_meetup MFull))"
  using tables_refine_party [OF asked_reachable full_step, of "sample_meetup MOpen"] by (simp add: asked_meetups full_meetups)

end
