(* ===== verification/Meetup_Reviews.thy ===== *)
theory Meetup_Reviews
  imports Meetup_Accounts
begin

text \<open>
  After the meetup: the statements of \<open>ratings.sql.go\<close>, \<open>feedback.sql.go\<close> and \<open>safety_state.sql.go\<close> on the tables
  of \<open>Meetup_Db\<close>.
\<close>

section \<open>Statements on ratings\<close>

definition is_meetup_participant :: "uuid \<Rightarrow> uuid \<Rightarrow> meetup_db \<Rightarrow> bool" where
  "is_meetup_participant m u db \<longleftrightarrow>
     list_ex (\<lambda>x. m_id x = m \<and> m_host x = u) (meetups db) \<or>
     list_ex (\<lambda>q. q_meetup q = m \<and> q_requester q = u \<and> q_status q = Accepted) (requests db)"

definition has_confirmed_meetup_happened :: "uuid \<Rightarrow> uuid \<Rightarrow> meetup_db \<Rightarrow> bool" where
  "has_confirmed_meetup_happened m u db \<longleftrightarrow>
     list_ex (\<lambda>f. fb_meetup f = m \<and> fb_user f = u \<and> fb_happened f) (feedbacks db)"

definition is_eligible_for_cancellation_rating :: "uuid \<Rightarrow> uuid \<Rightarrow> uuid \<Rightarrow> meetup_db \<Rightarrow> bool" where
  "is_eligible_for_cancellation_rating m rated rater db \<longleftrightarrow>
     list_ex (\<lambda>x. m_id x = m \<and> m_status x = MCancelled \<and> m_host x = rated) (meetups db) \<and>
     list_ex (\<lambda>q. q_meetup q = m \<and> q_requester q = rater \<and> q_status q = Accepted) (requests db)"

definition is_eligible_for_withdrawal_rating :: "uuid \<Rightarrow> uuid \<Rightarrow> uuid \<Rightarrow> meetup_db \<Rightarrow> bool" where
  "is_eligible_for_withdrawal_rating m rated rater db \<longleftrightarrow>
     list_ex (\<lambda>q. q_meetup q = m \<and> q_requester q = rated \<and> q_status q = Withdrawn \<and>
       list_ex (\<lambda>x. m_id x = m \<and> m_host x = rater) (meetups db)) (requests db)"

text \<open>The checks of the columns come before the unique index, the foreign key last.\<close>

definition create_meetup_rating :: "rating_row \<Rightarrow> meetup_db \<Rightarrow> go_error + meetup_db" where
  "create_meetup_rating r db =
     (if ra_score r < 1 \<or> 5 < ra_score r \<or> ra_rater r = ra_rated r then Inl check_violation
      else if list_ex (\<lambda>x. ra_id x = ra_id r \<or> rating_key x = rating_key r) (ratings db) then Inl unique_violation
      else if get_meetup (ra_meetup r) db = None then Inl foreign_key_violation
      else Inr (db\<lparr>ratings := ratings db @ [r]\<rparr>))"

record ratable =
  pa_user :: uuid
  pa_name :: string
  pa_photo :: string
  pa_trust :: int
  pa_rated :: bool
  pa_note :: "string option"

text \<open>
  The host, the accepted, and for the host those who withdrew; \<open>UNION\<close> drops repeated rows. SQL leaves the order open.
\<close>

definition list_ratable_participants :: "uuid \<Rightarrow> uuid \<Rightarrow> meetup_db \<Rightarrow> ratable list" where
  "list_ratable_participants m viewer db =
     (let hosts = map (\<lambda>x. (m_host x, None)) (filter (\<lambda>x. m_id x = m) (meetups db));
          joined = map (\<lambda>q. (q_requester q, None)) (filter (\<lambda>q. q_meetup q = m \<and> q_status q = Accepted) (requests db));
          left = map (\<lambda>q. (q_requester q, q_note q)) (filter (\<lambda>q. q_meetup q = m \<and> q_status q = Withdrawn \<and>
            list_ex (\<lambda>x. m_id x = m \<and> m_host x = viewer) (meetups db)) (requests db)) in
      map (\<lambda>(u, n). let d = display_of u db in
          \<lparr>pa_user = u, pa_name = (case d of None \<Rightarrow> [] | Some d \<Rightarrow> di_name d),
           pa_photo = (case d of None \<Rightarrow> [] | Some d \<Rightarrow> text_or_empty (di_photo d)),
           pa_trust = (case d of None \<Rightarrow> 0 | Some d \<Rightarrow> di_trust d),
           pa_rated = list_ex (\<lambda>r. rating_key r = (m, viewer, u)) (ratings db), pa_note = n\<rparr>)
        (filter (\<lambda>(u, _). u \<noteq> viewer) (remdups (hosts @ joined @ left))))"

text \<open>\<open>ORDER BY full_name\<close>, in the order of the bytes; a name not yet known comes last.\<close>

definition list_my_meetup_ratings :: "uuid \<Rightarrow> uuid \<Rightarrow> meetup_db \<Rightarrow> (rating_row \<times> display_row option) list" where
  "list_my_meetup_ratings m viewer db =
     sort_key (\<lambda>(_, d). case d of None \<Rightarrow> (1::int, []) | Some d \<Rightarrow> (0, di_name d))
       (map (\<lambda>r. (r, display_of (ra_rated r) db)) (filter (\<lambda>r. ra_meetup r = m \<and> ra_rater r = viewer) (ratings db)))"

section \<open>Statements on feedback\<close>

definition get_meetup_feedback :: "uuid \<Rightarrow> uuid \<Rightarrow> meetup_db \<Rightarrow> feedback_row option" where
  "get_meetup_feedback m u db = find (\<lambda>f. fb_meetup f = m \<and> fb_user f = u) (feedbacks db)"

definition upsert_feedback :: "feedback_row \<Rightarrow> (feedback_row \<Rightarrow> feedback_row) \<Rightarrow> meetup_db \<Rightarrow> go_error + meetup_db" where
  "upsert_feedback f g db =
     (let here = (\<lambda>x. fb_meetup x = fb_meetup f \<and> fb_user x = fb_user f) in
      if list_ex here (feedbacks db) then Inr (db\<lparr>feedbacks := update_where here g (feedbacks db)\<rparr>)
      else if get_meetup (fb_meetup f) db = None then Inl foreign_key_violation
      else Inr (db\<lparr>feedbacks := feedbacks db @ [f]\<rparr>))"

definition upsert_meetup_feedback ::
  "uuid \<Rightarrow> uuid \<Rightarrow> bool \<Rightarrow> bool option \<Rightarrow> bool option \<Rightarrow> bool option \<Rightarrow> instant \<Rightarrow> meetup_db \<Rightarrow> go_error + meetup_db" where
  "upsert_meetup_feedback m u happened safe accurate again now =
     upsert_feedback \<lparr>fb_meetup = m, fb_user = u, fb_happened = happened, fb_safe = safe, fb_accurate = accurate,
       fb_again = again, fb_submitted = now, fb_notes = None, fb_score = None, fb_reviewed = None\<rparr>
     (\<lambda>f. f\<lparr>fb_happened := happened, fb_safe := safe, fb_accurate := accurate, fb_again := again, fb_submitted := now\<rparr>)"

definition set_meetup_overall_review ::
  "uuid \<Rightarrow> uuid \<Rightarrow> int \<Rightarrow> string option \<Rightarrow> bool \<Rightarrow> instant \<Rightarrow> meetup_db \<Rightarrow> go_error + meetup_db" where
  "set_meetup_overall_review m u score notes happened now db =
     (if score < 1 \<or> 5 < score then Inl check_violation
      else upsert_feedback \<lparr>fb_meetup = m, fb_user = u, fb_happened = happened, fb_safe = None, fb_accurate = None,
          fb_again = None, fb_submitted = now, fb_notes = notes, fb_score = Some score, fb_reviewed = Some now\<rparr>
        (\<lambda>f. f\<lparr>fb_happened := happened, fb_score := Some score,
          fb_notes := (case notes of None \<Rightarrow> fb_notes f | Some n \<Rightarrow> Some n), fb_reviewed := Some now, fb_submitted := now\<rparr>) db)"

definition awaiting_review :: "uuid \<Rightarrow> instant \<Rightarrow> instant \<Rightarrow> meetup_db \<Rightarrow> meetup_row \<Rightarrow> bool" where
  "awaiting_review u cutoff now db m \<longleftrightarrow>
     (let accepted = list_ex (\<lambda>q. q_meetup q = m_id m \<and> q_requester q = u \<and> q_status q = Accepted) (requests db) in
      Option.bind (get_meetup_feedback (m_id m) u db) fb_reviewed = None \<and>
      (m_status m \<noteq> MCancelled \<and> m_end m \<le> now \<and> cutoff < m_end m \<and> (m_host m = u \<or> accepted) \<or>
       m_status m = MCancelled \<and> (case m_cancelled_at m of None \<Rightarrow> False | Some t \<Rightarrow> cutoff < t) \<and> m_host m \<noteq> u \<and> accepted))"

definition list_meetup_ids_awaiting_review :: "uuid \<Rightarrow> instant \<Rightarrow> instant \<Rightarrow> meetup_db \<Rightarrow> uuid list" where
  "list_meetup_ids_awaiting_review u cutoff now db = map m_id (filter (awaiting_review u cutoff now db) (meetups db))"

section \<open>Statements on check-ins and shares\<close>

definition get_safety_row :: "uuid \<Rightarrow> uuid \<Rightarrow> meetup_db \<Rightarrow> safety_row option" where
  "get_safety_row m u db = find (\<lambda>s. sa_meetup s = m \<and> sa_user s = u) (safety_states db)"

definition set_safety :: "(safety_row \<Rightarrow> safety_row) \<Rightarrow> uuid \<Rightarrow> uuid \<Rightarrow> meetup_db \<Rightarrow> safety_row option \<times> meetup_db" where
  "set_safety f m u db =
     (map_option f (get_safety_row m u db),
      db\<lparr>safety_states := update_where (\<lambda>s. sa_meetup s = m \<and> sa_user s = u) f (safety_states db)\<rparr>)"

definition set_checklist_ack :: "instant \<Rightarrow> uuid \<Rightarrow> uuid \<Rightarrow> meetup_db \<Rightarrow> safety_row option \<times> meetup_db" where
  "set_checklist_ack now = set_safety (\<lambda>s. s\<lparr>sa_ack_at := Some now\<rparr>)"

definition set_checked_in :: "instant \<Rightarrow> uuid \<Rightarrow> uuid \<Rightarrow> meetup_db \<Rightarrow> safety_row option \<times> meetup_db" where
  "set_checked_in now = set_safety (\<lambda>s. s\<lparr>sa_checked_at := Some now\<rparr>)"

definition set_declined :: "instant \<Rightarrow> string option \<Rightarrow> uuid \<Rightarrow> uuid \<Rightarrow> meetup_db \<Rightarrow> safety_row option \<times> meetup_db" where
  "set_declined now reason = set_safety (\<lambda>s. s\<lparr>sa_declined_at := Some now, sa_reason := reason\<rparr>)"

definition record_safety_share :: "uuid \<Rightarrow> uuid \<Rightarrow> uuid \<Rightarrow> instant \<Rightarrow> meetup_db \<Rightarrow> go_error + meetup_db" where
  "record_safety_share m u c now db =
     (if get_meetup m db = None then Inl foreign_key_violation
      else if list_ex (\<lambda>s. sh_meetup s = m \<and> sh_user s = u \<and> sh_contact s = c) (safety_shares db) then Inr db
      else Inr (db\<lparr>safety_shares := safety_shares db @ [\<lparr>sh_meetup = m, sh_user = u, sh_contact = c, sh_at = now\<rparr>]\<rparr>))"

definition list_safety_share_contact_ids :: "uuid \<Rightarrow> uuid \<Rightarrow> meetup_db \<Rightarrow> uuid list" where
  "list_safety_share_contact_ids m u db =
     map sh_contact (sort_key sh_at (filter (\<lambda>s. sh_meetup s = m \<and> sh_user s = u) (safety_shares db)))"

end
