(* ===== verification/Meetup_After.thy ===== *)
theory Meetup_After
  imports Meetup_Reviews
begin

text \<open>
  After the meetup, the handlers: ratings (\<open>rating.go\<close>, \<open>ratings_postgres.go\<close>), whole reviews (\<open>review.go\<close>,
  \<open>review_postgres.go\<close>, \<open>traits.go\<close>), feedback and the check-in of the safety gate (\<open>safety.go\<close>,
  \<open>feedback_postgres.go\<close>, \<open>safety_state_postgres.go\<close>). What a handler reads before it writes is a definition of its
  own. An average is in hundredths, the scale of its column; the event a rating publishes after its commit is part of the
  answer, with the time read when it is published. The handlers admit scores from 1 to 5 only, so the conversion of a score
  to its 16-bit column is the identity where it is reached.
\<close>

section \<open>Repositories\<close>

definition parse_two :: "'z meetup_env_scheme \<Rightarrow> string \<Rightarrow> string \<Rightarrow> string \<Rightarrow> go_error + (uuid \<times> uuid)" where
  "parse_two e m what u =
     res_bind (parse_id e ''meetup'' m) (\<lambda>i. res_bind (parse_id e what u) (\<lambda>j. Inr (i, j)))"

definition ratings_is_participant :: "'z meetup_env_scheme \<Rightarrow> string \<Rightarrow> string \<Rightarrow> meetup_db \<Rightarrow> go_error + bool" where
  "ratings_is_participant e m u db =
     res_bind (parse_two e m ''user'' u) (\<lambda>(i, j). Inr (is_meetup_participant i j db))"

definition ratings_has_confirmed :: "'z meetup_env_scheme \<Rightarrow> string \<Rightarrow> string \<Rightarrow> meetup_db \<Rightarrow> go_error + bool" where
  "ratings_has_confirmed e m u db =
     res_bind (parse_two e m ''user'' u) (\<lambda>(i, j). Inr (has_confirmed_meetup_happened i j db))"

definition ratings_list_ratable :: "'z meetup_env_scheme \<Rightarrow> string \<Rightarrow> string \<Rightarrow> meetup_db \<Rightarrow> go_error + ratable list" where
  "ratings_list_ratable e m u db =
     res_bind (parse_two e m ''viewer'' u) (\<lambda>(i, j). Inr (list_ratable_participants i j db))"

definition eligible ::
  "'z meetup_env_scheme \<Rightarrow> string \<Rightarrow> string \<Rightarrow> string \<Rightarrow> (uuid \<Rightarrow> uuid \<Rightarrow> uuid \<Rightarrow> meetup_db \<Rightarrow> bool) \<Rightarrow> meetup_db \<Rightarrow> go_error + bool" where
  "eligible e m rater rated f db =
     res_bind (parse_two e m ''rater'' rater) (\<lambda>(i, j). res_bind (parse_id e ''rated'' rated) (\<lambda>k. Inr (f i k j db)))"

definition ratings_cancellation :: "'z meetup_env_scheme \<Rightarrow> string \<Rightarrow> string \<Rightarrow> string \<Rightarrow> meetup_db \<Rightarrow> go_error + bool" where
  "ratings_cancellation e m rater rated = eligible e m rater rated is_eligible_for_cancellation_rating"

definition ratings_withdrawal :: "'z meetup_env_scheme \<Rightarrow> string \<Rightarrow> string \<Rightarrow> string \<Rightarrow> meetup_db \<Rightarrow> go_error + bool" where
  "ratings_withdrawal e m rater rated = eligible e m rater rated is_eligible_for_withdrawal_rating"

record rating_event =
  re_user :: uuid
  re_average :: int
  re_count :: int
  re_at :: instant

text \<open>One rating and the aggregate after it, in the transaction that holds the rated user's lock.\<close>

definition rate_one ::
  "uuid \<Rightarrow> uuid \<Rightarrow> uuid \<Rightarrow> int \<Rightarrow> string list \<Rightarrow> string \<Rightarrow> mtx \<Rightarrow> go_error + ((int \<times> int) \<times> mtx)" where
  "rate_one m rater rated score traits whom t =
     (let (i, t) = draw_id t in
      case create_meetup_rating \<lparr>ra_id = i, ra_meetup = m, ra_rater = rater, ra_rated = rated, ra_score = score,
          ra_created = x_now t, ra_traits = traits\<rparr> (x_db t) of
        Inl err \<Rightarrow>
          if is_pg_error unique_violation err
          then Inl (wrap1 (''repository: already rated '' @ whom @ '' for this meetup'') ErrConflict)
          else if is_pg_error check_violation err then Inl (wrap1 ''repository: invalid rating'' ErrInvalidInput)
          else Inl (Wrap ''repository: create meetup rating'' [err])
      | Inr db \<Rightarrow> Inr (compute_user_rating_aggregate rated db, set_db t db))"

definition ratings_submit ::
  "'z meetup_env_scheme \<Rightarrow> string \<Rightarrow> string \<Rightarrow> string \<Rightarrow> int \<Rightarrow> mtx \<Rightarrow> go_error + ((int \<times> int) \<times> mtx)" where
  "ratings_submit e m rater rated score t =
     res_bind (parse_two e m ''rater'' rater) (\<lambda>(i, j).
     res_bind (parse_id e ''rated'' rated) (\<lambda>k. rate_one i j k score [] ''this participant'' t))"

definition rating_updated :: "'z meetup_env_scheme \<Rightarrow> string \<Rightarrow> int \<times> int \<Rightarrow> rating_event" where
  "rating_updated e user agg = \<lparr>re_user = user, re_average = fst agg, re_count = snd agg, re_at = em_now e\<rparr>"

record reviewed =
  wp_user :: string
  wp_score :: int
  wp_traits :: "string list"

record review_submission =
  rvw_meetup :: string
  rvw_rater :: string
  rvw_score :: int
  rvw_notes :: "string option"
  rvw_people :: "reviewed list"
  rvw_happened :: bool

fun rate_all ::
  "'z meetup_env_scheme \<Rightarrow> uuid \<Rightarrow> uuid \<Rightarrow> reviewed list \<Rightarrow> mtx \<Rightarrow> go_error + ((string \<times> int \<times> int) list \<times> mtx)" where
  "rate_all e m rater [] t = Inr ([], t)"
| "rate_all e m rater (p # ps) t =
     res_bind (parse_id e ''rated'' (wp_user p)) (\<lambda>k.
     res_bind (rate_one m rater k (wp_score p) (wp_traits p) (wp_user p) t) (\<lambda>(agg, t).
     res_bind (rate_all e m rater ps t) (\<lambda>(aggs, t). Inr ((wp_user p, agg) # aggs, t))))"

fun parse_rated :: "'z meetup_env_scheme \<Rightarrow> reviewed list \<Rightarrow> go_error + unit" where
  "parse_rated e [] = Inr ()"
| "parse_rated e (p # ps) = res_bind (parse_id e ''rated'' (wp_user p)) (\<lambda>_. parse_rated e ps)"

definition ratings_submit_review ::
  "'z meetup_env_scheme \<Rightarrow> review_submission \<Rightarrow> mtx \<Rightarrow> go_error + ((string \<times> int \<times> int) list \<times> mtx)" where
  "ratings_submit_review e r t =
     res_bind (parse_two e (rvw_meetup r) ''rater'' (rvw_rater r)) (\<lambda>(i, j).
     res_bind (parse_rated e (rvw_people r)) (\<lambda>_.
     case set_meetup_overall_review i j (rvw_score r) (rvw_notes r) (rvw_happened r) (x_now t) (x_db t) of
       Inl err \<Rightarrow>
         if is_pg_error check_violation err then Inl (wrap1 ''repository: invalid overall score'' ErrInvalidInput)
         else Inl (Wrap ''repository: set meetup overall review'' [err])
     | Inr db \<Rightarrow> rate_all e i j (rvw_people r) (set_db t db)))"

definition feedback_get :: "'z meetup_env_scheme \<Rightarrow> string \<Rightarrow> string \<Rightarrow> meetup_db \<Rightarrow> go_error + feedback_row" where
  "feedback_get e m u db =
     res_bind (parse_two e m ''user'' u) (\<lambda>(i, j).
     case get_meetup_feedback i j db of
       None \<Rightarrow> Inl (wrap1 (''repository: no feedback for meetup '' @ m) ErrNotFound) | Some f \<Rightarrow> Inr f)"

section \<open>Who may be rated\<close>

definition review_window :: duration where "review_window = 14 * 24 * hour"

definition err_review_window_closed :: go_error where
  "err_review_window_closed = wrap1 ''meetup: the time to review this meetup has passed'' ErrConflict"

definition within_review_window :: "'m meetup_row_scheme \<Rightarrow> instant \<Rightarrow> go_error option" where
  "within_review_window m now =
     (let since = (case m_cancelled_at m of Some t \<Rightarrow> if m_status m = MCancelled then t else m_end m | None \<Rightarrow> m_end m) in
      if review_window < time_sub now since then Some err_review_window_closed else None)"

definition require_participant :: "'z meetup_env_scheme \<Rightarrow> string \<Rightarrow> string \<Rightarrow> meetup_db \<Rightarrow> go_error + unit" where
  "require_participant e m u db =
     res_bind (ratings_is_participant e m u db) (\<lambda>ok.
     if ok then Inr () else Inl (wrap1 (''meetup: caller is not a participant of meetup '' @ m) ErrForbidden))"

text \<open>The last filter: who may be rated although the meetup was not confirmed and is not over.\<close>

fun keep_eligible ::
  "'z meetup_env_scheme \<Rightarrow> string \<Rightarrow> string \<Rightarrow> meetup_db \<Rightarrow> ratable list \<Rightarrow> go_error + ratable list" where
  "keep_eligible e m u db [] = Inr []"
| "keep_eligible e m u db (p # ps) =
     res_bind (if pa_rated p then Inr True
               else res_bind (ratings_cancellation e m u (pa_user p) db) (\<lambda>c.
                    if c then Inr True else ratings_withdrawal e m u (pa_user p) db)) (\<lambda>keep.
     res_bind (keep_eligible e m u db ps) (\<lambda>qs. Inr (if keep then p # qs else qs)))"

definition filter_ratable ::
  "'z meetup_env_scheme \<Rightarrow> string \<Rightarrow> string \<Rightarrow> ratable list \<Rightarrow> meetup_db \<Rightarrow> go_error + ratable list" where
  "filter_ratable e m u ps db =
     (if ps = [] then Inr ps
      else res_bind (ratings_has_confirmed e m u db) (\<lambda>confirmed.
      if confirmed then Inr ps
      else res_bind (meetups_get_by_id e m u db) (\<lambda>v.
      if m_status v \<noteq> MCancelled \<and> \<not> time_before (em_now e) (m_end v) then Inr ps
      else keep_eligible e m u db ps)))"

definition participant_identity_floor :: int where "participant_identity_floor = 2"

definition list_ratable :: "'z meetup_env_scheme \<Rightarrow> string \<Rightarrow> string \<Rightarrow> int \<Rightarrow> meetup_db \<Rightarrow> go_error + ratable list" where
  "list_ratable e m u level db =
     res_bind (ratings_is_participant e m u db) (\<lambda>ok.
     if \<not> ok then Inr []
     else res_bind (ratings_list_ratable e m u db) (\<lambda>ps.
          res_bind (filter_ratable e m u ps db) (\<lambda>qs.
          Inr (if level < participant_identity_floor then map (\<lambda>p. p\<lparr>pa_trust := 0\<rparr>) qs else qs))))"

section \<open>One rating\<close>

record rate_request =
  rg_meetup :: string
  rg_rater :: string
  rg_rated :: string
  rg_score :: int

definition rating_plan :: "'z meetup_env_scheme \<Rightarrow> rate_request \<Rightarrow> meetup_db \<Rightarrow> go_error + unit" where
  "rating_plan e r db =
     (if rg_score r < 1 \<or> 5 < rg_score r then Inl (wrap1 ''meetup: score must be between 1 and 5'' ErrInvalidInput)
      else if rg_rater r = rg_rated r then Inl (wrap1 ''meetup: cannot rate yourself'' ErrInvalidInput)
      else
      res_bind (require_participant e (rg_meetup r) (rg_rater r) db) (\<lambda>_.
      res_bind (meetups_get_by_id e (rg_meetup r) (rg_rater r) db) (\<lambda>m.
      case within_review_window m (em_now e) of Some err \<Rightarrow> Inl err | None \<Rightarrow>
      res_bind (ratings_withdrawal e (rg_meetup r) (rg_rater r) (rg_rated r) db) (\<lambda>withdrawal.
      res_bind (ratings_is_participant e (rg_meetup r) (rg_rated r) db) (\<lambda>there.
      if \<not> there \<and> \<not> withdrawal
      then Inl (wrap1 (''meetup: rated user is not a participant of meetup '' @ rg_meetup r) ErrInvalidInput)
      else
      res_bind (ratings_has_confirmed e (rg_meetup r) (rg_rater r) db) (\<lambda>confirmed.
      res_bind (if confirmed then Inr False
                else ratings_cancellation e (rg_meetup r) (rg_rater r) (rg_rated r) db) (\<lambda>cancellation.
      if \<not> confirmed \<and> \<not> cancellation \<and> \<not> withdrawal
      then Inl (wrap1 ''meetup: not yet eligible to rate this participant'' ErrForbidden) else Inr ())))))))"

definition rating_tx :: "'z meetup_env_scheme \<Rightarrow> rate_request \<Rightarrow> mtx \<Rightarrow> go_error + ((int \<times> int) \<times> mtx)" where
  "rating_tx e r = ratings_submit e (rg_meetup r) (rg_rater r) (rg_rated r) (rg_score r)"

definition submit_rating :: "'z meetup_env_scheme \<Rightarrow> rate_request \<Rightarrow> meetup_db \<Rightarrow> (go_error + rating_event) \<times> meetup_db" where
  "submit_rating e r db =
     (case rating_plan e r db of Inl err \<Rightarrow> (Inl err, db)
      | Inr _ \<Rightarrow> (case in_tx e 0 (rating_tx e r) db of
           (Inl err, db) \<Rightarrow> (Inl err, db) | (Inr agg, db) \<Rightarrow> (Inr (rating_updated e (rg_rated r) agg), db)))"

section \<open>A whole review\<close>

definition rating_traits :: "string list" where
  "rating_traits = [''great_listener'', ''easy_to_talk_to'', ''cheerful'', ''thoughtful'', ''funny'', ''welcoming'',
     ''knowledgeable'', ''insightful'', ''well_prepared'', ''generous_with_time'', ''great_connector'', ''inspiring'',
     ''arrived_late'', ''left_early'', ''distracted'', ''unprepared'', ''talked_over_others'', ''too_salesy'',
     ''hard_to_talk_to'', ''disrespectful'', ''irresponsible'']"

definition max_traits_per_participant :: nat where "max_traits_per_participant = 4"

fun check_traits :: "string list \<Rightarrow> string list \<Rightarrow> go_error option" where
  "check_traits seen [] = None"
| "check_traits seen (k # ks) =
     (if k \<notin> set rating_traits then Some (wrap1 (''meetup: unknown trait \"'' @ k @ ''\"'') ErrInvalidInput)
      else if k \<in> set seen then Some (wrap1 (''meetup: duplicate trait \"'' @ k @ ''\"'') ErrInvalidInput)
      else check_traits (k # seen) ks)"

definition validate_traits :: "string list \<Rightarrow> go_error option" where
  "validate_traits ks =
     (if max_traits_per_participant < length ks
      then Some (wrap1 (''meetup: at most '' @ string_of_int (int max_traits_per_participant) @ '' traits per participant'') ErrInvalidInput)
      else check_traits [] ks)"

text \<open>The people of a review against those who may and those who must be in it.\<close>

fun check_people :: "string \<Rightarrow> uuid list \<Rightarrow> uuid list \<Rightarrow> string list \<Rightarrow> reviewed list \<Rightarrow> go_error + string list" where
  "check_people m allowed required seen [] = Inr seen"
| "check_people m allowed required seen (p # ps) =
     (if wp_user p \<notin> set allowed
      then Inl (wrap1 (''meetup: '' @ wp_user p @ '' is not a ratable participant of '' @ m) ErrInvalidInput)
      else if wp_user p \<in> set seen
      then Inl (wrap1 (''meetup: '' @ wp_user p @ '' appears twice in the review'') ErrInvalidInput)
      else if wp_user p \<notin> set required
      then Inl (wrap1 (''meetup: '' @ wp_user p @ '' was already rated for this meetup'') ErrConflict)
      else if wp_score p < 1 \<or> 5 < wp_score p
      then Inl (wrap1 (''meetup: score for '' @ wp_user p @ '' must be between 1 and 5'') ErrInvalidInput)
      else case validate_traits (wp_traits p) of Some err \<Rightarrow> Inl err
           | None \<Rightarrow> check_people m allowed required (wp_user p # seen) ps)"

record review_request =
  rs_meetup :: string
  rs_rater :: string
  rs_score :: int
  rs_notes :: "string option"
  rs_people :: "reviewed list"

definition review_missing :: "uuid \<Rightarrow> go_error" where
  "review_missing u = wrap1 (''meetup: every participant must be rated, '' @ u @ '' is missing'') ErrInvalidInput"

text \<open>Go ranges over the required people in an order of its own; the first of the list stands for it.\<close>

definition review_plan :: "'z meetup_env_scheme \<Rightarrow> review_request \<Rightarrow> meetup_db \<Rightarrow> go_error + review_submission" where
  "review_plan e r db =
     (if rs_score r < 1 \<or> 5 < rs_score r then Inl (wrap1 ''meetup: overall score must be between 1 and 5'' ErrInvalidInput)
      else if (case rs_notes r of None \<Rightarrow> False | Some n \<Rightarrow> max_free_text_reason_length < length n)
      then Inl (wrap1 ''meetup: note is too long'' ErrInvalidInput)
      else
      res_bind (require_participant e (rs_meetup r) (rs_rater r) db) (\<lambda>_.
      res_bind (meetups_get_by_id e (rs_meetup r) (rs_rater r) db) (\<lambda>m.
      let cancelled = (m_status m = MCancelled) in
      if cancelled \<and> m_host m = rs_rater r
      then Inl (wrap1 ''meetup: the host of a cancelled meetup does not review it'' ErrForbidden)
      else if \<not> cancelled \<and> time_before (em_now e) (m_end m)
      then Inl (wrap1 (''meetup: '' @ rs_meetup r @ '' is not over yet'') ErrConflict)
      else case within_review_window m (em_now e) of Some err \<Rightarrow> Inl err | None \<Rightarrow>
      res_bind (case feedback_get e (rs_meetup r) (rs_rater r) db of
          Inr f \<Rightarrow> if fb_reviewed f \<noteq> None
            then Inl (wrap1 (''meetup: '' @ rs_meetup r @ '' is already reviewed'') ErrConflict) else Inr ()
        | Inl err \<Rightarrow> if errors_is err ErrNotFound then Inr () else Inl err) (\<lambda>_.
      res_bind (ratings_list_ratable e (rs_meetup r) (rs_rater r) db) (\<lambda>ps.
      let required = map pa_user (filter (\<lambda>p. \<not> pa_rated p) ps) in
      res_bind (check_people (rs_meetup r) (map pa_user ps) required [] (rs_people r)) (\<lambda>seen.
      case find (\<lambda>u. u \<notin> set seen) required of
        Some u \<Rightarrow> Inl (review_missing u)
      | None \<Rightarrow> Inr \<lparr>rvw_meetup = rs_meetup r, rvw_rater = rs_rater r, rvw_score = rs_score r, rvw_notes = rs_notes r,
          rvw_people = rs_people r, rvw_happened = (\<not> cancelled)\<rparr>))))))"

definition submit_meetup_review ::
  "'z meetup_env_scheme \<Rightarrow> review_request \<Rightarrow> meetup_db \<Rightarrow> (go_error + rating_event list) \<times> meetup_db" where
  "submit_meetup_review e r db =
     (case review_plan e r db of Inl err \<Rightarrow> (Inl err, db)
      | Inr s \<Rightarrow> (case in_tx e 0 (ratings_submit_review e s) db of
           (Inl err, db) \<Rightarrow> (Inl err, db)
         | (Inr aggs, db) \<Rightarrow> (Inr (map (\<lambda>(u, agg). rating_updated e u agg) aggs), db)))"

record meetup_review =
  mr_completed :: bool
  mr_score :: int
  mr_notes :: "string option"
  mr_people :: "(uuid \<times> string \<times> string \<times> int \<times> string list) list"

definition get_meetup_review :: "'z meetup_env_scheme \<Rightarrow> string \<Rightarrow> string \<Rightarrow> meetup_db \<Rightarrow> go_error + meetup_review" where
  "get_meetup_review e m u db =
     res_bind (require_participant e m u db) (\<lambda>_.
     res_bind (case feedback_get e m u db of
         Inr f \<Rightarrow> Inr (fb_reviewed f \<noteq> None, (case fb_score f of None \<Rightarrow> 0 | Some n \<Rightarrow> n), fb_notes f)
       | Inl err \<Rightarrow> if errors_is err ErrNotFound then Inr (False, 0, None) else Inl err) (\<lambda>(c, n, t).
     res_bind (parse_two e m ''viewer'' u) (\<lambda>(i, j).
     Inr \<lparr>mr_completed = c, mr_score = n, mr_notes = t, mr_people = map (\<lambda>(r, d). (ra_rated r,
         (case d of None \<Rightarrow> [] | Some d \<Rightarrow> di_name d), (case d of None \<Rightarrow> [] | Some d \<Rightarrow> text_or_empty (di_photo d)),
         ra_score r, ra_traits r)) (list_my_meetup_ratings i j db)\<rparr>)))"

section \<open>Feedback and the safety gate\<close>

record feedback_request =
  fq_meetup :: string
  fq_user :: string
  fq_happened :: bool
  fq_safe :: "bool option"
  fq_accurate :: "bool option"
  fq_again :: "bool option"

text \<open>The note of a request is accepted and ignored by the repository, so it is no field here.\<close>

definition feedback_upsert ::
  "'z meetup_env_scheme \<Rightarrow> string \<Rightarrow> string \<Rightarrow> bool \<Rightarrow> bool option \<Rightarrow> bool option \<Rightarrow> bool option \<Rightarrow> meetup_db \<Rightarrow>
     go_error option \<times> meetup_db" where
  "feedback_upsert e m u happened safe accurate again db =
     (case parse_two e m ''user'' u of
        Inl err \<Rightarrow> (Some err, db)
      | Inr (i, j) \<Rightarrow> (case upsert_meetup_feedback i j happened safe accurate again (ts (em_now e)) db of
           Inl err \<Rightarrow> (Some (Wrap ''repository: upsert meetup feedback'' [err]), db) | Inr db \<Rightarrow> (None, db)))"

definition submit_meetup_feedback :: "'z meetup_env_scheme \<Rightarrow> feedback_request \<Rightarrow> meetup_db \<Rightarrow> go_error option \<times> meetup_db" where
  "submit_meetup_feedback e r db =
     (case res_bind (require_participant e (fq_meetup r) (fq_user r) db) (\<lambda>_. meetups_get_by_id e (fq_meetup r) (fq_user r) db) of
        Inl err \<Rightarrow> (Some err, db)
      | Inr m \<Rightarrow>
          if time_before (em_now e) (m_start m)
          then (Some (wrap1 (''meetup: '' @ fq_meetup r @ '' has not started yet'') ErrConflict), db)
          else (let answer = (\<lambda>b. if fq_happened r then b else None) in
            feedback_upsert e (fq_meetup r) (fq_user r) (fq_happened r) (answer (fq_safe r)) (answer (fq_accurate r))
              (answer (fq_again r)) db))"

definition no_safety_state :: "string \<Rightarrow> string \<Rightarrow> go_error" where
  "no_safety_state m u = wrap1 (''repository: no safety state for meetup '' @ m @ '', user '' @ u) ErrNotFound"

definition safety_get :: "'z meetup_env_scheme \<Rightarrow> string \<Rightarrow> string \<Rightarrow> meetup_db \<Rightarrow> go_error + safety_row" where
  "safety_get e m u db =
     res_bind (parse_two e m ''user'' u) (\<lambda>(i, j).
     case get_safety_row i j db of None \<Rightarrow> Inl (no_safety_state m u) | Some s \<Rightarrow> Inr s)"

definition safety_write ::
  "'z meetup_env_scheme \<Rightarrow> (uuid \<Rightarrow> uuid \<Rightarrow> meetup_db \<Rightarrow> safety_row option \<times> meetup_db) \<Rightarrow> string \<Rightarrow> string \<Rightarrow> meetup_db \<Rightarrow>
     (go_error + safety_row) \<times> meetup_db" where
  "safety_write e f m u db =
     (case parse_two e m ''user'' u of
        Inl err \<Rightarrow> (Inl err, db)
      | Inr (i, j) \<Rightarrow> (case f i j db of (None, _) \<Rightarrow> (Inl (no_safety_state m u), db) | (Some s, db) \<Rightarrow> (Inr s, db)))"

definition get_safety_state :: "'z meetup_env_scheme \<Rightarrow> string \<Rightarrow> string \<Rightarrow> meetup_db \<Rightarrow> go_error + (safety_row \<times> uuid list)" where
  "get_safety_state e m u db =
     res_bind (require_participant e m u db) (\<lambda>_.
     res_bind (safety_get e m u db) (\<lambda>s.
     res_bind (parse_two e m ''user'' u) (\<lambda>(i, j). Inr (s, list_safety_share_contact_ids i j db))))"

definition acknowledge_safety_checklist ::
  "'z meetup_env_scheme \<Rightarrow> string \<Rightarrow> string \<Rightarrow> meetup_db \<Rightarrow> (go_error + safety_row) \<times> meetup_db" where
  "acknowledge_safety_checklist e m u db =
     (case require_participant e m u db of
        Inl err \<Rightarrow> (Inl err, db) | Inr _ \<Rightarrow> safety_write e (set_checklist_ack (ts (em_now e))) m u db)"

definition check_in_plan :: "'z meetup_env_scheme \<Rightarrow> string \<Rightarrow> string \<Rightarrow> meetup_db \<Rightarrow> go_error + unit" where
  "check_in_plan e m u db =
     res_bind (require_participant e m u db) (\<lambda>_.
     res_bind (safety_get e m u db) (\<lambda>s.
     if sa_ack_at s = None
     then Inl (wrap1 ''meetup: safety checklist must be acknowledged before check-in'' ErrConflict)
     else if sa_declined_at s \<noteq> None then Inl (wrap1 ''meetup: cannot check in after declining'' ErrConflict)
     else Inr ()))"

definition check_in_write :: "'z meetup_env_scheme \<Rightarrow> string \<Rightarrow> string \<Rightarrow> meetup_db \<Rightarrow> (go_error + safety_row) \<times> meetup_db" where
  "check_in_write e = safety_write e (set_checked_in (ts (em_now e)))"

definition check_in :: "'z meetup_env_scheme \<Rightarrow> string \<Rightarrow> string \<Rightarrow> meetup_db \<Rightarrow> (go_error + safety_row) \<times> meetup_db" where
  "check_in e m u db = (case check_in_plan e m u db of Inl err \<Rightarrow> (Inl err, db) | Inr _ \<Rightarrow> check_in_write e m u db)"

record decline_request =
  dq_meetup :: string
  dq_user :: string
  dq_reason :: string

definition decline_plan :: "'z meetup_env_scheme \<Rightarrow> decline_request \<Rightarrow> meetup_db \<Rightarrow> go_error + (string \<times> meetup_view)" where
  "decline_plan e r db =
     (let reason = trim_space (dq_reason r) in
      if reason = [] then Inl (wrap1 ''meetup: reason is required'' ErrInvalidInput)
      else if max_free_text_reason_length < length reason then Inl (wrap1 ''meetup: reason is too long'' ErrInvalidInput)
      else
      res_bind (require_participant e (dq_meetup r) (dq_user r) db) (\<lambda>_.
      res_bind (safety_get e (dq_meetup r) (dq_user r) db) (\<lambda>s.
      if sa_checked_at s \<noteq> None then Inl (wrap1 ''meetup: cannot decline after already checking in'' ErrConflict)
      else res_bind (meetups_get_by_id e (dq_meetup r) (dq_user r) db) (\<lambda>m. Inr (reason, m)))))"

definition safety_decline ::
  "'z meetup_env_scheme \<Rightarrow> string \<Rightarrow> string \<Rightarrow> string \<Rightarrow> (safety_row \<Rightarrow> mtx \<Rightarrow> go_error + mtx) \<Rightarrow> mtx \<Rightarrow> go_error + (safety_row \<times> mtx)" where
  "safety_decline e m u reason notify t =
     res_bind (parse_two e m ''user'' u) (\<lambda>(i, j).
     case set_declined (x_now t) (text_or_null reason) i j (x_db t) of
       (None, _) \<Rightarrow> Inl (no_safety_state m u)
     | (Some s, db) \<Rightarrow> (case notify s (set_db t db) of
          Inl err \<Rightarrow> Inl (Wrap ''repository: queue decline notification'' [err]) | Inr t \<Rightarrow> Inr (s, t)))"

definition decline_tx ::
  "'z meetup_env_scheme \<Rightarrow> decline_request \<Rightarrow> string \<times> meetup_view \<Rightarrow> mtx \<Rightarrow> go_error + (safety_row \<times> mtx)" where
  "decline_tx e r p = (case p of (reason, m) \<Rightarrow>
     safety_decline e (dq_meetup r) (dq_user r) reason (\<lambda>_ t.
       if m_host m = dq_user r then Inr t
       else queue_notification e (m_host m) ''participant_declined'' ''Participant declined''
         (''A participant declined the safety checklist for your '' @ display_name (m_intent m) @ '' meetup: '' @ reason)
         [(''meetup_id'', m_id m)] t))"

definition decline_check_in :: "'z meetup_env_scheme \<Rightarrow> decline_request \<Rightarrow> meetup_db \<Rightarrow> (go_error + safety_row) \<times> meetup_db" where
  "decline_check_in e r db =
     (case decline_plan e r db of Inl err \<Rightarrow> (Inl err, db) | Inr p \<Rightarrow> in_tx e 0 (decline_tx e r p) db)"

text \<open>Telling trusted contacts; the notifier of the auth module answers whom it reached.\<close>

definition max_share_contacts :: nat where "max_share_contacts = 2"

fun dedupe_from :: "string list \<Rightarrow> string list \<Rightarrow> string list" where
  "dedupe_from seen [] = []"
| "dedupe_from seen (i # is) = (if i = [] \<or> i \<in> set seen then dedupe_from seen is else i # dedupe_from (i # seen) is)"

definition dedupe_ids :: "string list \<Rightarrow> string list" where
  "dedupe_ids = dedupe_from []"

record contact_share =
  cs_contacts :: "string list"
  cs_label :: string
  cs_lat :: float64
  cs_lng :: float64
  cs_start :: instant
  cs_end :: instant

definition safety_record_share :: "'z meetup_env_scheme \<Rightarrow> string \<Rightarrow> string \<Rightarrow> string \<Rightarrow> meetup_db \<Rightarrow> go_error + meetup_db" where
  "safety_record_share e m u c db =
     res_bind (parse_two e m ''user'' u) (\<lambda>(i, j). res_bind (parse_id e ''contact'' c) (\<lambda>k.
     case record_safety_share i j k (ts (em_now e)) db of
       Inl err \<Rightarrow> Inl (Wrap ''repository: record safety share'' [err]) | Inr db \<Rightarrow> Inr db))"

definition share_with_contacts ::
  "'z meetup_env_scheme \<Rightarrow> (string \<Rightarrow> contact_share \<Rightarrow> go_error + string list) option \<Rightarrow> string \<Rightarrow> string \<Rightarrow> string list \<Rightarrow>
     meetup_db \<Rightarrow> (go_error + (safety_row \<times> uuid list)) \<times> meetup_db" where
  "share_with_contacts e notifier m u contacts db =
     (case res_bind (require_participant e m u db) (\<lambda>_.
        let ids = dedupe_ids contacts in
        if ids = [] then Inl (wrap1 ''meetup: pick at least one trusted contact'' ErrInvalidInput)
        else if max_share_contacts < length ids
        then Inl (wrap1 (''meetup: pick at most '' @ string_of_int (int max_share_contacts) @ '' trusted contacts'') ErrInvalidInput)
        else case notifier of None \<Rightarrow> Inl (wrap1 ''meetup: contact sharing is not configured'' ErrInternal) | Some tell \<Rightarrow>
        res_bind (meetups_get_by_id e m u db) (\<lambda>v.
        if m_status v \<noteq> MOpen \<and> m_status v \<noteq> MFull \<or> \<not> time_before (em_now e) (m_end v)
        then Inl (wrap1 (''meetup: '' @ m @ '' is no longer happening'') ErrConflict)
        else res_bind (tell u \<lparr>cs_contacts = ids, cs_label = m_label v, cs_lat = m_lat v, cs_lng = m_lng v,
            cs_start = m_start v, cs_end = m_end v\<rparr>) (\<lambda>told.
        if told = [] then Inl (wrap1 ''meetup: could not reach any of those contacts'' ErrInternal) else Inr told))) of
        Inl err \<Rightarrow> (Inl err, db)
      | Inr told \<Rightarrow>
          (let db = fold (\<lambda>c db. case safety_record_share e m u c db of Inl _ \<Rightarrow> db | Inr db \<Rightarrow> db) told db in
           (get_safety_state e m u db, db)))"

definition ids_awaiting_review :: "'z meetup_env_scheme \<Rightarrow> string \<Rightarrow> instant \<Rightarrow> meetup_db \<Rightarrow> go_error + uuid list" where
  "ids_awaiting_review e u cutoff db =
     res_bind (parse_id e ''user'' u) (\<lambda>j. Inr (list_meetup_ids_awaiting_review j (ts cutoff) (ts (em_now e)) db))"

end
