(* ===== verification/Auth_Db.thy ===== *)
theory Auth_Db
  imports AppError
begin

text \<open>
  The \<open>auth\<close> schema (migrations 0001, 0004, 0017, 0018, 0020, 0033) as one record per table, and the statements of
  \<open>auth/repository/sqlcgen\<close> the account, session and verification code uses. Of \<open>users\<close> the columns that hold a
  photo file, a location or the account status are left out: no modelled statement reads them. \<open>now()\<close> is the
  argument \<open>now\<close> of each statement.
\<close>

section \<open>Tables\<close>

datatype purpose = PPhone | PPersonalEmail | PCorporateEmail | PEmailSignup | PEmailLogin | PAccountClaim

datatype id_provider = IdApple | IdGoogle

record user_row =
  us_id :: uuid
  us_linkedin :: "string option"
  us_full_name :: string
  us_photo :: "string option"
  us_trust :: int
  us_created :: instant
  us_updated :: instant
  us_phone :: "string option"
  us_email :: "string option"
  us_legal_name :: "string option"
  us_address :: "string option"
  us_domain :: "string option"
  us_work_verified :: bool
  us_work_verified_at :: "instant option"
  us_age_ok :: bool
  us_age_at :: "instant option"
  us_work_hash :: "string option"
  us_guest :: bool
  us_company :: "string option"
  us_rating :: int
  us_rating_count :: int
  us_rating_at :: "instant option"
  us_completed :: int

record identity_row =
  id_user :: uuid
  id_provider :: id_provider
  id_subject :: string
  id_email :: "string option"

record refresh_row =
  rt_id :: uuid
  rt_user :: uuid
  rt_hash :: string
  rt_issued :: instant
  rt_expires :: instant
  rt_revoked :: "instant option"
  rt_replaced :: "uuid option"

record code_row =
  vc_user :: "uuid option"
  vc_purpose :: purpose
  vc_target :: string
  vc_hash :: string
  vc_attempts :: int
  vc_expires :: instant
  vc_created :: instant

record budget_row =
  ob_target :: string
  ob_purpose :: purpose
  ob_day :: int
  ob_sends :: int
  ob_failed :: int

record company_row =
  kc_name :: string
  kc_domains :: "string list"

record claim_row =
  cl_user :: uuid
  cl_company :: string
  cl_domain :: string

record auth_db =
  ad_users :: "user_row list"
  ad_identities :: "identity_row list"
  ad_tokens :: "refresh_row list"
  ad_codes :: "code_row list"
  ad_budgets :: "budget_row list"
  ad_companies :: "company_row list"
  ad_claims :: "claim_row list"
  ad_deleted :: "uuid list"

text \<open>What PostgreSQL answers when a write breaks a unique index (with its name) or a foreign key.\<close>

datatype pg_error = UniqueViolation string | ForeignKeyViolation

fun pg_error_value :: "pg_error \<Rightarrow> go_error" where
  "pg_error_value (UniqueViolation c) = PkgError (''SQLSTATE 23505 '' @ c)"
| "pg_error_value ForeignKeyViolation = PkgError ''SQLSTATE 23503''"

definition has_user :: "uuid \<Rightarrow> auth_db \<Rightarrow> bool" where
  "has_user u db \<longleftrightarrow> list_ex (\<lambda>r. us_id r = u) (ad_users db)"

section \<open>Refresh tokens\<close>

definition create_refresh_token ::
  "uuid \<Rightarrow> uuid \<Rightarrow> string \<Rightarrow> instant \<Rightarrow> instant \<Rightarrow> auth_db \<Rightarrow> pg_error + (refresh_row \<times> auth_db)" where
  "create_refresh_token i u h expires now db =
     (if list_ex (\<lambda>r. rt_id r = i) (ad_tokens db) then Inl (UniqueViolation ''refresh_tokens_pkey'')
      else if list_ex (\<lambda>r. rt_hash r = h) (ad_tokens db) then Inl (UniqueViolation ''refresh_tokens_token_hash_key'')
      else if \<not> has_user u db then Inl ForeignKeyViolation
      else (let r = \<lparr>rt_id = i, rt_user = u, rt_hash = h, rt_issued = now, rt_expires = ts expires,
                     rt_revoked = None, rt_replaced = None\<rparr>
            in Inr (r, db\<lparr>ad_tokens := ad_tokens db @ [r]\<rparr>)))"

definition get_refresh_token_by_hash :: "string \<Rightarrow> auth_db \<Rightarrow> refresh_row option" where
  "get_refresh_token_by_hash h db = find (\<lambda>r. rt_hash r = h) (ad_tokens db)"

definition get_refresh_token_by_id :: "uuid \<Rightarrow> auth_db \<Rightarrow> refresh_row option" where
  "get_refresh_token_by_id i db = find (\<lambda>r. rt_id r = i) (ad_tokens db)"

definition replaceable :: "uuid \<Rightarrow> instant \<Rightarrow> refresh_row \<Rightarrow> bool" where
  "replaceable i now r \<longleftrightarrow> rt_id r = i \<and> rt_replaced r = None \<and> rt_revoked r = None \<and> now < rt_expires r"

definition mark_refresh_token_replaced ::
  "uuid \<Rightarrow> uuid \<Rightarrow> instant \<Rightarrow> auth_db \<Rightarrow> (refresh_row \<times> auth_db) option" where
  "mark_refresh_token_replaced i child now db =
     (case find (replaceable i now) (ad_tokens db) of
        None \<Rightarrow> None
      | Some r \<Rightarrow> Some (r\<lparr>rt_replaced := Some child\<rparr>,
          db\<lparr>ad_tokens := update_where (replaceable i now) (\<lambda>x. x\<lparr>rt_replaced := Some child\<rparr>) (ad_tokens db)\<rparr>))"

definition revoke_refresh_token_by_hash :: "string \<Rightarrow> instant \<Rightarrow> auth_db \<Rightarrow> auth_db" where
  "revoke_refresh_token_by_hash h now db =
     db\<lparr>ad_tokens := update_where (\<lambda>r. rt_hash r = h \<and> rt_revoked r = None) (\<lambda>r. r\<lparr>rt_revoked := Some now\<rparr>) (ad_tokens db)\<rparr>"

text \<open>
  An \<open>UPDATE\<close> under READ COMMITTED changes rows of the snapshot it started from; a row another transaction held
  is looked at again when its lock is free. So the statement has two moments: \<open>sessions_of\<close> finds the rows,
  \<open>revoke_sessions\<close> changes those of them that still match.
\<close>

definition sessions_of :: "uuid \<Rightarrow> auth_db \<Rightarrow> uuid list" where
  "sessions_of u db = map rt_id (filter (\<lambda>r. rt_user r = u \<and> rt_revoked r = None) (ad_tokens db))"

definition revoke_sessions :: "uuid \<Rightarrow> uuid list \<Rightarrow> instant \<Rightarrow> auth_db \<Rightarrow> int \<times> auth_db" where
  "revoke_sessions u seen now db =
     (let p = (\<lambda>r. rt_id r \<in> set seen \<and> rt_user r = u \<and> rt_revoked r = None) in
      (int (length (filter p (ad_tokens db))),
       db\<lparr>ad_tokens := update_where p (\<lambda>r. r\<lparr>rt_revoked := Some now\<rparr>) (ad_tokens db)\<rparr>))"

definition revoke_all_refresh_tokens_for_user :: "uuid \<Rightarrow> instant \<Rightarrow> auth_db \<Rightarrow> int \<times> auth_db" where
  "revoke_all_refresh_tokens_for_user u now db = revoke_sessions u (sessions_of u db) now db"

text \<open>\<open>LIMIT\<close> without \<open>ORDER BY\<close>: the first rows of the table, whatever their order is.\<close>

definition sweepable :: "instant \<Rightarrow> refresh_row list \<Rightarrow> refresh_row \<Rightarrow> bool" where
  "sweepable before rows t \<longleftrightarrow> (rt_revoked t \<noteq> None \<or> rt_expires t < before) \<and>
     \<not> list_ex (\<lambda>r. rt_replaced r = Some (rt_id t)) rows"

definition delete_expired_refresh_tokens :: "instant \<Rightarrow> int \<Rightarrow> auth_db \<Rightarrow> int \<times> auth_db" where
  "delete_expired_refresh_tokens before batch db =
     (let ids = map rt_id (take (nat batch) (filter (sweepable before (ad_tokens db)) (ad_tokens db))) in
      (int (length (filter (\<lambda>r. rt_id r \<in> set ids) (ad_tokens db))),
       db\<lparr>ad_tokens := filter (\<lambda>r. rt_id r \<notin> set ids) (ad_tokens db)\<rparr>))"

section \<open>Verification codes\<close>

text \<open>The generated column of migration 0020; PostgreSQL's \<open>btrim\<close> strips blanks only.\<close>

definition btrim :: "string \<Rightarrow> string" where
  "btrim s = rev (dropWhile (\<lambda>c. c = CHR '' '') (rev (dropWhile (\<lambda>c. c = CHR '' '') s)))"

definition target_normalized :: "purpose \<Rightarrow> string \<Rightarrow> string" where
  "target_normalized p t =
     (if p = PPhone then filter (\<lambda>c. \<not> is_space c \<and> c \<notin> set ''().-'') (btrim t) else to_lower (btrim t))"

text \<open>A code belongs to a user, or to the address it was sent to.\<close>

datatype code_key = UserKey uuid | TargetKey string

fun code_at :: "code_key \<Rightarrow> purpose \<Rightarrow> code_row \<Rightarrow> bool" where
  "code_at (UserKey u) p r \<longleftrightarrow> vc_user r = Some u \<and> vc_purpose r = p"
| "code_at (TargetKey t) p r \<longleftrightarrow> vc_user r = None \<and> vc_purpose r = p \<and> vc_target r = t"

text \<open>The key of the unique index an insert can conflict with.\<close>

definition same_slot :: "uuid option \<Rightarrow> purpose \<Rightarrow> string \<Rightarrow> code_row \<Rightarrow> bool" where
  "same_slot u p t r \<longleftrightarrow> vc_purpose r = p \<and> vc_user r = u \<and>
     (u = None \<longrightarrow> target_normalized (vc_purpose r) (vc_target r) = target_normalized p t)"

definition put_code :: "uuid option \<Rightarrow> purpose \<Rightarrow> string \<Rightarrow> string \<Rightarrow> instant \<Rightarrow> instant \<Rightarrow> code_row list \<Rightarrow> code_row list" where
  "put_code u p t h expires now rows =
     (if list_ex (same_slot u p t) rows
      then update_where (same_slot u p t)
             (\<lambda>r. r\<lparr>vc_target := t, vc_hash := h, vc_attempts := 0, vc_expires := ts expires, vc_created := now\<rparr>) rows
      else rows @ [\<lparr>vc_user = u, vc_purpose = p, vc_target = t, vc_hash = h, vc_attempts = 0,
                    vc_expires = ts expires, vc_created = now\<rparr>])"

definition upsert_verification_code ::
  "uuid \<Rightarrow> purpose \<Rightarrow> string \<Rightarrow> string \<Rightarrow> instant \<Rightarrow> instant \<Rightarrow> auth_db \<Rightarrow> pg_error + auth_db" where
  "upsert_verification_code u p t h expires now db =
     (if \<not> has_user u db then Inl ForeignKeyViolation
      else Inr (db\<lparr>ad_codes := put_code (Some u) p t h expires now (ad_codes db)\<rparr>))"

definition upsert_verification_code_for_signup ::
  "purpose \<Rightarrow> string \<Rightarrow> string \<Rightarrow> instant \<Rightarrow> instant \<Rightarrow> auth_db \<Rightarrow> auth_db" where
  "upsert_verification_code_for_signup p t h expires now db =
     db\<lparr>ad_codes := put_code None p t h expires now (ad_codes db)\<rparr>"

definition get_code :: "code_key \<Rightarrow> purpose \<Rightarrow> auth_db \<Rightarrow> code_row option" where
  "get_code k p db = find (code_at k p) (ad_codes db)"

definition get_verification_code :: "uuid \<Rightarrow> purpose \<Rightarrow> auth_db \<Rightarrow> code_row option" where
  "get_verification_code u = get_code (UserKey u)"

definition get_verification_code_by_target :: "string \<Rightarrow> purpose \<Rightarrow> auth_db \<Rightarrow> code_row option" where
  "get_verification_code_by_target t = get_code (TargetKey t)"

definition claimable :: "code_key \<Rightarrow> purpose \<Rightarrow> int \<Rightarrow> instant \<Rightarrow> code_row \<Rightarrow> bool" where
  "claimable k p most now r \<longleftrightarrow> code_at k p r \<and> vc_attempts r < most \<and> now < vc_expires r"

definition claim_code :: "code_key \<Rightarrow> purpose \<Rightarrow> int \<Rightarrow> instant \<Rightarrow> auth_db \<Rightarrow> (code_row \<times> auth_db) option" where
  "claim_code k p most now db =
     (case find (claimable k p most now) (ad_codes db) of
        None \<Rightarrow> None
      | Some r \<Rightarrow> Some (r\<lparr>vc_attempts := vc_attempts r + 1\<rparr>,
          db\<lparr>ad_codes := update_where (claimable k p most now) (\<lambda>x. x\<lparr>vc_attempts := vc_attempts x + 1\<rparr>) (ad_codes db)\<rparr>))"

definition claim_verification_attempt :: "uuid \<Rightarrow> purpose \<Rightarrow> int \<Rightarrow> instant \<Rightarrow> auth_db \<Rightarrow> (code_row \<times> auth_db) option" where
  "claim_verification_attempt u = claim_code (UserKey u)"

definition claim_verification_attempt_by_target ::
  "string \<Rightarrow> purpose \<Rightarrow> int \<Rightarrow> instant \<Rightarrow> auth_db \<Rightarrow> (code_row \<times> auth_db) option" where
  "claim_verification_attempt_by_target t = claim_code (TargetKey t)"

definition consume_code :: "code_key \<Rightarrow> purpose \<Rightarrow> string \<Rightarrow> auth_db \<Rightarrow> (code_row \<times> auth_db) option" where
  "consume_code k p h db =
     (let gone = (\<lambda>r. code_at k p r \<and> vc_hash r = h) in
      map_option (\<lambda>r. (r, db\<lparr>ad_codes := filter (Not \<circ> gone) (ad_codes db)\<rparr>)) (find gone (ad_codes db)))"

definition consume_verification_code :: "uuid \<Rightarrow> purpose \<Rightarrow> string \<Rightarrow> auth_db \<Rightarrow> (code_row \<times> auth_db) option" where
  "consume_verification_code u = consume_code (UserKey u)"

definition consume_verification_code_by_target :: "string \<Rightarrow> purpose \<Rightarrow> string \<Rightarrow> auth_db \<Rightarrow> (code_row \<times> auth_db) option" where
  "consume_verification_code_by_target t = consume_code (TargetKey t)"

definition delete_code :: "code_key \<Rightarrow> purpose \<Rightarrow> auth_db \<Rightarrow> auth_db" where
  "delete_code k p db = db\<lparr>ad_codes := filter (\<lambda>r. \<not> code_at k p r) (ad_codes db)\<rparr>"

definition delete_verification_code :: "uuid \<Rightarrow> purpose \<Rightarrow> auth_db \<Rightarrow> auth_db" where
  "delete_verification_code u = delete_code (UserKey u)"

definition delete_verification_code_by_target :: "string \<Rightarrow> purpose \<Rightarrow> auth_db \<Rightarrow> auth_db" where
  "delete_verification_code_by_target t = delete_code (TargetKey t)"

section \<open>Daily budgets\<close>

definition colombo_day :: "instant \<Rightarrow> int" where
  "colombo_day now = (now + 19800 * second) div (24 * hour)"

definition budget_at :: "string \<Rightarrow> purpose \<Rightarrow> int \<Rightarrow> budget_row \<Rightarrow> bool" where
  "budget_at t p d r \<longleftrightarrow> ob_target r = t \<and> ob_purpose r = p \<and> ob_day r = d"

text \<open>\<open>INSERT ... ON CONFLICT DO UPDATE ... WHERE\<close>: no row comes back when the cap refuses.\<close>

definition take_otp_send :: "string \<Rightarrow> purpose \<Rightarrow> int \<Rightarrow> instant \<Rightarrow> auth_db \<Rightarrow> bool \<times> auth_db" where
  "take_otp_send t p most now db =
     (let here = budget_at t p (colombo_day now) in
      case find here (ad_budgets db) of
        None \<Rightarrow> (True, db\<lparr>ad_budgets := ad_budgets db @
          [\<lparr>ob_target = t, ob_purpose = p, ob_day = colombo_day now, ob_sends = 1, ob_failed = 0\<rparr>]\<rparr>)
      | Some r \<Rightarrow>
          if ob_sends r < most
          then (True, db\<lparr>ad_budgets := update_where here (\<lambda>x. x\<lparr>ob_sends := ob_sends x + 1\<rparr>) (ad_budgets db)\<rparr>)
          else (False, db))"

definition take_otp_guess :: "string \<Rightarrow> purpose \<Rightarrow> int \<Rightarrow> instant \<Rightarrow> auth_db \<Rightarrow> bool \<times> auth_db" where
  "take_otp_guess t p most now db =
     (let here = budget_at t p (colombo_day now) in
      case find here (ad_budgets db) of
        None \<Rightarrow> (True, db\<lparr>ad_budgets := ad_budgets db @
          [\<lparr>ob_target = t, ob_purpose = p, ob_day = colombo_day now, ob_sends = 0, ob_failed = 1\<rparr>]\<rparr>)
      | Some r \<Rightarrow>
          if ob_failed r < most
          then (True, db\<lparr>ad_budgets := update_where here (\<lambda>x. x\<lparr>ob_failed := ob_failed x + 1\<rparr>) (ad_budgets db)\<rparr>)
          else (False, db))"

definition refund_otp_guess :: "string \<Rightarrow> purpose \<Rightarrow> instant \<Rightarrow> auth_db \<Rightarrow> auth_db" where
  "refund_otp_guess t p now db =
     db\<lparr>ad_budgets := update_where (\<lambda>r. budget_at t p (colombo_day now) r \<and> 0 < ob_failed r)
          (\<lambda>r. r\<lparr>ob_failed := ob_failed r - 1\<rparr>) (ad_budgets db)\<rparr>"

definition delete_old_otp_budgets :: "instant \<Rightarrow> auth_db \<Rightarrow> int \<times> auth_db" where
  "delete_old_otp_budgets now db =
     (let old = (\<lambda>r. ob_day r < colombo_day now - 1) in
      (int (length (filter old (ad_budgets db))), db\<lparr>ad_budgets := filter (Not \<circ> old) (ad_budgets db)\<rparr>))"

end
