(* ===== verification/Auth_Users.thy ===== *)
theory Auth_Users
  imports Auth_Db
begin

text \<open>
  The account rows: the statements of \<open>users.sql.go\<close>, \<open>user_identities.sql.go\<close> and \<open>companies.sql.go\<close>, the trust ladder
  (\<open>trustlevel.go\<close>) and the repositories over them (\<open>users_postgres.go\<close>). A Go \<open>User\<close> is the row it was read
  from; a \<open>NULL\<close> text reads as the empty string. Events published on the bus are not part of the state.
\<close>

section \<open>What a call brings along\<close>

text \<open>
  The clock, \<open>uuid.Parse\<close>, SHA-256 in hex, and what the call draws: ids from \<open>gen_random_uuid()\<close>, a refresh
  token and a code. No call draws one of these twice.
\<close>

record auth_env =
  ae_now :: instant
  ae_parse :: "string \<Rightarrow> uuid option"
  ae_sha :: "string \<Rightarrow> string"
  ae_user_id :: uuid
  ae_token_id :: uuid
  ae_raw :: string
  ae_code :: string

definition parse_user_id :: "'z auth_env_scheme \<Rightarrow> string \<Rightarrow> go_error + uuid" where
  "parse_user_id e s =
     (case ae_parse e s of
        None \<Rightarrow> Inl (wrap1 (''repository: invalid user id \"'' @ s @ ''\"'') ErrInvalidInput)
      | Some u \<Rightarrow> Inr u)"

section \<open>Trust\<close>

definition compute_trust_level :: "'z user_row_scheme \<Rightarrow> int" where
  "compute_trust_level u =
     (let level2 = text_or_empty (us_linkedin u) \<noteq> [] \<and> text_or_empty (us_phone u) \<noteq> [] \<and>
                   text_or_empty (us_email u) \<noteq> [] \<and> text_or_empty (us_legal_name u) \<noteq> [];
          level3 = level2 \<and> us_work_verified u \<and> text_or_empty (us_company u) \<noteq> [] in
      if level3 then 3 else if level2 then 2 else if \<not> us_guest u then 1 else 0)"

definition after_verification :: "user_row \<Rightarrow> user_row" where
  "after_verification u = u\<lparr>us_guest := False\<rparr>"

text \<open>The level every verification writes, from the locked row with its new field applied.\<close>

definition verified_level :: "user_row \<Rightarrow> int" where
  "verified_level u = compute_trust_level (after_verification u)"

definition safety_feature_trust_floor :: int where "safety_feature_trust_floor = 2"

definition require_safety_feature_trust_level :: "string \<Rightarrow> int \<Rightarrow> go_error option" where
  "require_safety_feature_trust_level act lvl =
     (if lvl < safety_feature_trust_floor
      then Some (wrap1 (''auth: '' @ act @ '' requires trust level '' @ string_of_int safety_feature_trust_floor @
             '', caller has '' @ string_of_int lvl) ErrForbidden)
      else None)"

section \<open>Statements on users\<close>

text \<open>The unique indexes of \<open>users\<close>; a \<open>NULL\<close> never conflicts.\<close>

definition shared_value :: "'a option \<Rightarrow> 'a option \<Rightarrow> bool" where
  "shared_value a b \<longleftrightarrow> a \<noteq> None \<and> a = b"

definition user_clash :: "user_row \<Rightarrow> user_row \<Rightarrow> string option" where
  "user_clash a b =
     (if us_id a = us_id b then Some ''users_pkey''
      else if shared_value (us_linkedin a) (us_linkedin b) then Some ''users_linkedin_sub_key''
      else if shared_value (us_work_hash a) (us_work_hash b) then Some ''users_work_email_hash_key''
      else if shared_value (us_phone a) (us_phone b) then Some ''idx_users_phone_number''
      else if shared_value (map_option to_lower (us_email a)) (map_option to_lower (us_email b))
           then Some ''idx_users_personal_email_lower''
      else None)"

fun first_clash :: "user_row \<Rightarrow> user_row list \<Rightarrow> string option" where
  "first_clash a [] = None"
| "first_clash a (b # rows) = (case user_clash a b of Some c \<Rightarrow> Some c | None \<Rightarrow> first_clash a rows)"

type_synonym user_write = "uuid \<Rightarrow> instant \<Rightarrow> auth_db \<Rightarrow> pg_error + (user_row \<times> auth_db) option"

text \<open>\<open>UPDATE auth.users SET ... WHERE id = $1 RETURNING *\<close>, with the trigger that stamps \<open>updated_at\<close>.\<close>

definition write_user :: "(user_row \<Rightarrow> user_row) \<Rightarrow> user_write" where
  "write_user f i now db =
     (case find (\<lambda>r. us_id r = i) (ad_users db) of
        None \<Rightarrow> Inr None
      | Some r \<Rightarrow>
          (let r' = (f r)\<lparr>us_updated := now\<rparr> in
           case first_clash r' (filter (\<lambda>x. us_id x \<noteq> i) (ad_users db)) of
             Some c \<Rightarrow> Inl (UniqueViolation c)
           | None \<Rightarrow> Inr (Some (r', db\<lparr>ad_users := update_where (\<lambda>x. us_id x = i) (\<lambda>_. r') (ad_users db)\<rparr>))))"

definition new_user_row :: "uuid \<Rightarrow> instant \<Rightarrow> user_row" where
  "new_user_row i now = \<lparr>us_id = i, us_linkedin = None, us_full_name = [], us_photo = None, us_trust = 0,
     us_created = now, us_updated = now, us_phone = None, us_email = None, us_legal_name = None, us_address = None,
     us_domain = None, us_work_verified = False, us_work_verified_at = None, us_age_ok = False, us_age_at = None,
     us_work_hash = None, us_guest = False, us_company = None, us_rating = 0, us_rating_count = 0,
     us_rating_at = None, us_completed = 0\<rparr>"

record new_user =
  nu_linkedin :: string
  nu_full_name :: string
  nu_photo :: string
  nu_trust :: int
  nu_age_ok :: bool
  nu_guest :: bool
  nu_email :: string

definition create_user :: "uuid \<Rightarrow> new_user \<Rightarrow> instant \<Rightarrow> auth_db \<Rightarrow> pg_error + (user_row \<times> auth_db)" where
  "create_user i u now db =
     (let r = (new_user_row i now)\<lparr>us_linkedin := null_text (nu_linkedin u), us_full_name := nu_full_name u,
                us_photo := null_text (nu_photo u), us_trust := nu_trust u, us_age_ok := nu_age_ok u,
                us_age_at := (if nu_age_ok u then Some now else None), us_guest := nu_guest u,
                us_email := null_text (nu_email u)\<rparr> in
      case first_clash r (ad_users db) of
        Some c \<Rightarrow> Inl (UniqueViolation c)
      | None \<Rightarrow> Inr (r, db\<lparr>ad_users := ad_users db @ [r]\<rparr>))"

definition get_user_by_id :: "uuid \<Rightarrow> auth_db \<Rightarrow> user_row option" where
  "get_user_by_id i db = find (\<lambda>r. us_id r = i) (ad_users db)"

definition get_user_by_linkedin_sub :: "string \<Rightarrow> auth_db \<Rightarrow> user_row option" where
  "get_user_by_linkedin_sub s db = find (\<lambda>r. shared_value (us_linkedin r) (null_text s)) (ad_users db)"

definition get_user_by_personal_email :: "string \<Rightarrow> auth_db \<Rightarrow> user_row option" where
  "get_user_by_personal_email m db = find (\<lambda>r. map_option to_lower (us_email r) = Some (to_lower m)) (ad_users db)"

definition get_user_by_work_email_hash :: "string \<Rightarrow> auth_db \<Rightarrow> user_row option" where
  "get_user_by_work_email_hash h db = find (\<lambda>r. shared_value (us_work_hash r) (null_text h)) (ad_users db)"

definition update_user_phone_number :: "string option \<Rightarrow> int \<Rightarrow> user_write" where
  "update_user_phone_number p t = write_user (\<lambda>r. r\<lparr>us_phone := p, us_trust := t, us_guest := False\<rparr>)"

definition update_user_personal_email :: "string option \<Rightarrow> int \<Rightarrow> user_write" where
  "update_user_personal_email m t = write_user (\<lambda>r. r\<lparr>us_email := m, us_trust := t, us_guest := False\<rparr>)"

definition update_user_personal_details :: "string option \<Rightarrow> string option \<Rightarrow> int \<Rightarrow> user_write" where
  "update_user_personal_details n a t =
     write_user (\<lambda>r. r\<lparr>us_legal_name := n, us_address := a, us_trust := t, us_guest := False\<rparr>)"

definition update_user_linkedin_sub :: "string option \<Rightarrow> int \<Rightarrow> user_write" where
  "update_user_linkedin_sub s t = write_user (\<lambda>r. r\<lparr>us_linkedin := s, us_trust := t, us_guest := False\<rparr>)"

definition clear_user_guest_flag :: "int \<Rightarrow> user_write" where
  "clear_user_guest_flag t = write_user (\<lambda>r. r\<lparr>us_guest := False, us_trust := t\<rparr>)"

definition update_user_work_email_verified ::
  "string option \<Rightarrow> bool \<Rightarrow> instant \<Rightarrow> string option \<Rightarrow> string option \<Rightarrow> int \<Rightarrow> user_write" where
  "update_user_work_email_verified d v at_time h c t =
     write_user (\<lambda>r. r\<lparr>us_domain := d, us_work_verified := v, us_work_verified_at := Some at_time, us_work_hash := h,
       us_trust := t, us_company := c, us_guest := False\<rparr>)"

definition update_user_full_name :: "string \<Rightarrow> user_write" where
  "update_user_full_name n = write_user (\<lambda>r. r\<lparr>us_full_name := n\<rparr>)"

definition update_user_profile_photo :: "string option \<Rightarrow> user_write" where
  "update_user_profile_photo p = write_user (\<lambda>r. r\<lparr>us_photo := p\<rparr>)"

text \<open>The caches other modules' events keep; a rating is in hundredths, the scale of its column.\<close>

definition upsert_user_rating_cache :: "uuid \<Rightarrow> int \<Rightarrow> int \<Rightarrow> instant \<Rightarrow> instant \<Rightarrow> auth_db \<Rightarrow> int \<times> auth_db" where
  "upsert_user_rating_cache i rating n occurred now db =
     (let p = (\<lambda>r. us_id r = i \<and> (case us_rating_at r of None \<Rightarrow> True | Some t \<Rightarrow> t < ts occurred)) in
      (int (length (filter p (ad_users db))),
       db\<lparr>ad_users := update_where p (\<lambda>r. r\<lparr>us_rating := rating, us_rating_count := n,
         us_rating_at := Some (ts occurred), us_updated := now\<rparr>) (ad_users db)\<rparr>))"

definition upsert_user_meetups_completed_cache :: "uuid \<Rightarrow> int \<Rightarrow> instant \<Rightarrow> auth_db \<Rightarrow> int \<times> auth_db" where
  "upsert_user_meetups_completed_cache i n now db =
     (let p = (\<lambda>r. us_id r = i \<and> us_completed r < n) in
      (int (length (filter p (ad_users db))),
       db\<lparr>ad_users := update_where p (\<lambda>r. r\<lparr>us_completed := n, us_updated := now\<rparr>) (ad_users db)\<rparr>))"

text \<open>\<open>ON DELETE CASCADE\<close> takes what refers to the account with it.\<close>

definition drop_users :: "uuid list \<Rightarrow> auth_db \<Rightarrow> auth_db" where
  "drop_users us db = db\<lparr>ad_users := filter (\<lambda>r. us_id r \<notin> set us) (ad_users db),
     ad_identities := filter (\<lambda>r. id_user r \<notin> set us) (ad_identities db),
     ad_tokens := filter (\<lambda>r. rt_user r \<notin> set us) (ad_tokens db),
     ad_codes := filter (\<lambda>r. vc_user r \<notin> Some ` set us) (ad_codes db),
     ad_claims := filter (\<lambda>r. cl_user r \<notin> set us) (ad_claims db)\<rparr>"

definition delete_user :: "uuid \<Rightarrow> auth_db \<Rightarrow> int \<times> auth_db" where
  "delete_user i db = (int (length (filter (\<lambda>r. us_id r = i) (ad_users db))), drop_users [i] db)"

definition abandoned :: "instant \<Rightarrow> auth_db \<Rightarrow> user_row \<Rightarrow> bool" where
  "abandoned before db u \<longleftrightarrow> us_guest u \<and> us_updated u < before \<and> \<not> list_ex (\<lambda>t. rt_user t = us_id u) (ad_tokens db)"

definition delete_abandoned_guests :: "instant \<Rightarrow> int \<Rightarrow> auth_db \<Rightarrow> int \<times> auth_db" where
  "delete_abandoned_guests before batch db =
     (let ids = map us_id (take (nat batch) (filter (abandoned before db) (ad_users db))) in
      (int (length ids), (drop_users ids db)\<lparr>ad_deleted := ad_deleted db @ ids\<rparr>))"

section \<open>Statements on identities and companies\<close>

definition insert_identity ::
  "uuid \<Rightarrow> id_provider \<Rightarrow> string \<Rightarrow> string option \<Rightarrow> auth_db \<Rightarrow> pg_error + auth_db" where
  "insert_identity u p s m db =
     (if list_ex (\<lambda>r. id_provider r = p \<and> id_subject r = s) (ad_identities db)
      then Inl (UniqueViolation ''user_identities_provider_subject_key'')
      else if list_ex (\<lambda>r. id_user r = u \<and> id_provider r = p) (ad_identities db)
      then Inl (UniqueViolation ''user_identities_user_id_provider_key'')
      else if \<not> has_user u db then Inl ForeignKeyViolation
      else Inr (db\<lparr>ad_identities := ad_identities db @
             [\<lparr>id_user = u, id_provider = p, id_subject = s, id_email = m\<rparr>]\<rparr>))"

definition get_identity_by_provider_subject :: "id_provider \<Rightarrow> string \<Rightarrow> auth_db \<Rightarrow> identity_row option" where
  "get_identity_by_provider_subject p s db = find (\<lambda>r. id_provider r = p \<and> id_subject r = s) (ad_identities db)"

definition get_known_company_by_name :: "string \<Rightarrow> auth_db \<Rightarrow> company_row option" where
  "get_known_company_by_name n db = find (\<lambda>r. kc_name r = n) (ad_companies db)"

definition insert_unverified_company_claim :: "uuid \<Rightarrow> string \<Rightarrow> string \<Rightarrow> auth_db \<Rightarrow> pg_error + auth_db" where
  "insert_unverified_company_claim u c d db =
     (if \<not> has_user u db then Inl ForeignKeyViolation
      else Inr (db\<lparr>ad_claims := ad_claims db @ [\<lparr>cl_user = u, cl_company = c, cl_domain = d\<rparr>]\<rparr>))"

end
