(* ===== verification/Auth_Accounts.thy ===== *)
theory Auth_Accounts
  imports Auth_Users
begin

text \<open>
  The repositories over the account tables (\<open>users_postgres.go\<close>, \<open>user_identities_postgres.go\<close>,
  \<open>companies_postgres.go\<close>) and the operations that are one call of them: deletion, guest cleanup and the caches. Trusted
  contacts and SOS records, which \<open>Delete\<close> removes in the same transaction, are tables of another part.
\<close>

section \<open>Reading an account\<close>

definition no_rows :: go_error where "no_rows = PkgError ''no rows in result set''"

definition no_user :: "string \<Rightarrow> go_error" where
  "no_user user = wrap1 (''repository: user \"'' @ user @ ''\"'') ErrNotFound"

definition users_get_by_id :: "'z auth_env_scheme \<Rightarrow> string \<Rightarrow> auth_db \<Rightarrow> go_error + user_row" where
  "users_get_by_id e user db =
     res_bind (parse_user_id e user) (\<lambda>i.
     case get_user_by_id i db of None \<Rightarrow> Inl (no_user user) | Some r \<Rightarrow> Inr r)"

definition users_get_by_linkedin_sub :: "string \<Rightarrow> auth_db \<Rightarrow> go_error + user_row" where
  "users_get_by_linkedin_sub s db =
     (case get_user_by_linkedin_sub s db of
        None \<Rightarrow> Inl (wrap1 (''repository: user with linkedin_sub \"'' @ s @ ''\"'') ErrNotFound) | Some r \<Rightarrow> Inr r)"

definition users_get_by_personal_email :: "string \<Rightarrow> auth_db \<Rightarrow> go_error + user_row" where
  "users_get_by_personal_email m db =
     (case get_user_by_personal_email m db of
        None \<Rightarrow> Inl (wrap1 (''repository: user with personal_email \"'' @ m @ ''\"'') ErrNotFound) | Some r \<Rightarrow> Inr r)"

definition users_get_by_work_email_hash :: "string \<Rightarrow> auth_db \<Rightarrow> go_error + user_row" where
  "users_get_by_work_email_hash h db =
     (case get_user_by_work_email_hash h db of
        None \<Rightarrow> Inl (wrap1 (''repository: user with work_email_hash \"'' @ h @ ''\"'') ErrNotFound) | Some r \<Rightarrow> Inr r)"

section \<open>Creating an account\<close>

text \<open>\<open>strings.Contains\<close>.\<close>

fun contains :: "string \<Rightarrow> string \<Rightarrow> bool" where
  "contains w [] = (w = [])"
| "contains w (c # s) = (has_prefix w (c # s) \<or> contains w s)"

definition users_create :: "'z auth_env_scheme \<Rightarrow> new_user \<Rightarrow> auth_db \<Rightarrow> (go_error + user_row) \<times> auth_db" where
  "users_create e u db =
     (case create_user (ae_user_id e) u (ts (ae_now e)) db of
        Inl (UniqueViolation c) \<Rightarrow>
          (Inl (if contains ''personal_email'' c
                then wrap1 ''repository: an account already uses this email address'' ErrConflict
                else wrap1 (''repository: user with linkedin_sub \"'' @ nu_linkedin u @ ''\" already exists'') ErrConflict), db)
      | Inl err \<Rightarrow> (Inl (Wrap ''repository: create user'' [pg_error_value err]), db)
      | Inr (r, db') \<Rightarrow> (Inr r, db'))"

section \<open>Writes that carry a trust level\<close>

text \<open>
  One transaction: the row is locked, the pending field applied to the locked row, the level computed from that,
  and both written by one statement.
\<close>

definition locked_update ::
  "'z auth_env_scheme \<Rightarrow> string \<Rightarrow> (user_row \<Rightarrow> user_row) \<Rightarrow> (user_row \<Rightarrow> int) \<Rightarrow> (int \<Rightarrow> user_write) \<Rightarrow>
     string option \<Rightarrow> string \<Rightarrow> auth_db \<Rightarrow> (go_error + user_row) \<times> auth_db" where
  "locked_update e user pending recompute write conflict what db =
     (case parse_user_id e user of
        Inl err \<Rightarrow> (Inl err, db)
      | Inr i \<Rightarrow>
          (case get_user_by_id i db of
             None \<Rightarrow> (Inl (no_user user), db)
           | Some locked \<Rightarrow>
               (case write (recompute (pending locked)) i (ts (ae_now e)) db of
                  Inl err \<Rightarrow>
                    (Inl (case (conflict, err) of
                            (Some m, UniqueViolation c) \<Rightarrow> wrap1 m ErrConflict
                          | _ \<Rightarrow> Wrap what [pg_error_value err]), db)
                | Inr None \<Rightarrow> (Inl (Wrap what [no_rows]), db)
                | Inr (Some (r, db')) \<Rightarrow> (Inr r, db'))))"

definition update_phone_number ::
  "'z auth_env_scheme \<Rightarrow> string \<Rightarrow> string \<Rightarrow> (user_row \<Rightarrow> int) \<Rightarrow> auth_db \<Rightarrow> (go_error + user_row) \<times> auth_db" where
  "update_phone_number e user phone recompute =
     locked_update e user (\<lambda>u. u\<lparr>us_phone := null_text phone\<rparr>) recompute
       (update_user_phone_number (null_text phone))
       (Some ''repository: phone number already verified on a different account'') ''repository: update user phone number''"

definition update_personal_email ::
  "'z auth_env_scheme \<Rightarrow> string \<Rightarrow> string \<Rightarrow> (user_row \<Rightarrow> int) \<Rightarrow> auth_db \<Rightarrow> (go_error + user_row) \<times> auth_db" where
  "update_personal_email e user m recompute =
     locked_update e user (\<lambda>u. u\<lparr>us_email := null_text m\<rparr>) recompute
       (update_user_personal_email (null_text m))
       (Some ''repository: personal email already verified on a different account'') ''repository: update user personal email''"

definition update_personal_details ::
  "'z auth_env_scheme \<Rightarrow> string \<Rightarrow> string \<Rightarrow> string \<Rightarrow> (user_row \<Rightarrow> int) \<Rightarrow> auth_db \<Rightarrow> (go_error + user_row) \<times> auth_db" where
  "update_personal_details e user legal_name addr recompute =
     locked_update e user (\<lambda>u. u\<lparr>us_legal_name := null_text legal_name, us_address := null_text addr\<rparr>) recompute
       (update_user_personal_details (null_text legal_name) (null_text addr)) None ''repository: update user personal details''"

definition update_linkedin_sub ::
  "'z auth_env_scheme \<Rightarrow> string \<Rightarrow> string \<Rightarrow> (user_row \<Rightarrow> int) \<Rightarrow> auth_db \<Rightarrow> (go_error + user_row) \<times> auth_db" where
  "update_linkedin_sub e user s recompute =
     locked_update e user (\<lambda>u. u\<lparr>us_linkedin := null_text s\<rparr>) recompute
       (update_user_linkedin_sub (null_text s))
       (Some ''repository: linkedin account already linked to a different user'') ''repository: update user linkedin sub''"

definition clear_guest_flag ::
  "'z auth_env_scheme \<Rightarrow> string \<Rightarrow> (user_row \<Rightarrow> int) \<Rightarrow> auth_db \<Rightarrow> (go_error + user_row) \<times> auth_db" where
  "clear_guest_flag e user recompute =
     locked_update e user (\<lambda>u. u) recompute clear_user_guest_flag None ''repository: clear user guest flag''"

definition update_work_email_verified ::
  "'z auth_env_scheme \<Rightarrow> string \<Rightarrow> string \<Rightarrow> bool \<Rightarrow> string \<Rightarrow> string \<Rightarrow> (user_row \<Rightarrow> int) \<Rightarrow> auth_db \<Rightarrow>
     (go_error + user_row) \<times> auth_db" where
  "update_work_email_verified e user domain verified h company recompute =
     locked_update e user
       (\<lambda>u. u\<lparr>us_domain := null_text domain, us_work_verified := verified, us_company := null_text company\<rparr>) recompute
       (update_user_work_email_verified (null_text domain) verified (ts (ae_now e)) (null_text h) (null_text company))
       (Some ''repository: work email hash already claimed by a different account'') ''repository: update user work email verified''"

text \<open>One statement, no lock and no level.\<close>

definition update_full_name :: "'z auth_env_scheme \<Rightarrow> string \<Rightarrow> string \<Rightarrow> auth_db \<Rightarrow> (go_error + user_row) \<times> auth_db" where
  "update_full_name e user n db =
     (case parse_user_id e user of
        Inl err \<Rightarrow> (Inl err, db)
      | Inr i \<Rightarrow>
          (case update_user_full_name n i (ts (ae_now e)) db of
             Inl err \<Rightarrow> (Inl (Wrap ''repository: update user full name'' [pg_error_value err]), db)
           | Inr None \<Rightarrow> (Inl (Wrap ''repository: update user full name'' [no_rows]), db)
           | Inr (Some (r, db')) \<Rightarrow> (Inr r, db')))"

definition update_profile_photo :: "'z auth_env_scheme \<Rightarrow> string \<Rightarrow> string \<Rightarrow> auth_db \<Rightarrow> (go_error + user_row) \<times> auth_db" where
  "update_profile_photo e user url db =
     (case parse_user_id e user of
        Inl err \<Rightarrow> (Inl err, db)
      | Inr i \<Rightarrow>
          (case update_user_profile_photo (null_text url) i (ts (ae_now e)) db of
             Inl err \<Rightarrow> (Inl (Wrap ''repository: update user profile photo'' [pg_error_value err]), db)
           | Inr None \<Rightarrow> (Inl (Wrap ''repository: update user profile photo'' [no_rows]), db)
           | Inr (Some (r, db')) \<Rightarrow> (Inr r, db')))"

section \<open>Identities and companies\<close>

fun provider_name :: "id_provider \<Rightarrow> string" where
  "provider_name IdApple = ''apple''"
| "provider_name IdGoogle = ''google''"

definition identities_insert ::
  "'z auth_env_scheme \<Rightarrow> string \<Rightarrow> id_provider \<Rightarrow> string \<Rightarrow> string \<Rightarrow> auth_db \<Rightarrow> go_error option \<times> auth_db" where
  "identities_insert e user p s m db =
     (case parse_user_id e user of
        Inl err \<Rightarrow> (Some err, db)
      | Inr i \<Rightarrow>
          (case insert_identity i p s (null_text m) db of
             Inl (UniqueViolation c) \<Rightarrow>
               (Some (wrap1 (''repository: '' @ provider_name p @ '' identity already linked'') ErrConflict), db)
           | Inl err \<Rightarrow> (Some (Wrap ''repository: insert identity'' [pg_error_value err]), db)
           | Inr db' \<Rightarrow> (None, db')))"

definition identities_get_by_provider_subject :: "id_provider \<Rightarrow> string \<Rightarrow> auth_db \<Rightarrow> go_error + identity_row" where
  "identities_get_by_provider_subject p s db =
     (case get_identity_by_provider_subject p s db of
        None \<Rightarrow> Inl (wrap1 (''repository: no '' @ provider_name p @ '' identity for this subject'') ErrNotFound)
      | Some r \<Rightarrow> Inr r)"

definition companies_get_by_name :: "string \<Rightarrow> auth_db \<Rightarrow> go_error + company_row" where
  "companies_get_by_name n db =
     (case get_known_company_by_name n db of
        None \<Rightarrow> Inl (wrap1 (''repository: known company \"'' @ n @ ''\"'') ErrNotFound) | Some r \<Rightarrow> Inr r)"

definition claims_insert :: "'z auth_env_scheme \<Rightarrow> string \<Rightarrow> string \<Rightarrow> string \<Rightarrow> auth_db \<Rightarrow> go_error option \<times> auth_db" where
  "claims_insert e user company domain db =
     (case parse_user_id e user of
        Inl err \<Rightarrow> (Some err, db)
      | Inr i \<Rightarrow>
          (case insert_unverified_company_claim i company domain db of
             Inl err \<Rightarrow> (Some (Wrap ''repository: insert unverified company claim'' [pg_error_value err]), db)
           | Inr db' \<Rightarrow> (None, db')))"

section \<open>Deletion and caches\<close>

text \<open>The announcement is written in the transaction that deletes the row.\<close>

definition users_delete :: "'z auth_env_scheme \<Rightarrow> string \<Rightarrow> auth_db \<Rightarrow> go_error option \<times> auth_db" where
  "users_delete e user db =
     (case parse_user_id e user of
        Inl err \<Rightarrow> (Some err, db)
      | Inr i \<Rightarrow>
          (case delete_user i db of (n, db') \<Rightarrow>
             if n = 0 then (Some (wrap1 (''repository: user '' @ user) ErrNotFound), db)
             else (None, db'\<lparr>ad_deleted := ad_deleted db' @ [i]\<rparr>)))"

definition delete_account :: "'z auth_env_scheme \<Rightarrow> string \<Rightarrow> auth_db \<Rightarrow> go_error option \<times> auth_db" where
  "delete_account e user db =
     (case users_get_by_id e user db of
        Inl err \<Rightarrow> (if errors_is err ErrNotFound then None else Some err, db)
      | Inr _ \<Rightarrow>
          (case users_delete e user db of
             (Some err, db') \<Rightarrow> (if errors_is err ErrNotFound then None else Some err, db')
           | (None, db') \<Rightarrow> (None, db')))"

definition users_delete_abandoned_guests ::
  "'z auth_env_scheme \<Rightarrow> duration \<Rightarrow> int \<Rightarrow> auth_db \<Rightarrow> (go_error + int) \<times> auth_db" where
  "users_delete_abandoned_guests e retention batch db =
     (if batch \<le> 0 then (Inl (wrap1 ''repository: guest cleanup batch size must be positive'' ErrInvalidInput), db)
      else (case delete_abandoned_guests (ts (time_add (ae_now e) (- retention))) batch db of (n, db') \<Rightarrow> (Inr n, db')))"

definition apply_rating_update ::
  "'z auth_env_scheme \<Rightarrow> string \<Rightarrow> int \<Rightarrow> int \<Rightarrow> instant \<Rightarrow> auth_db \<Rightarrow> (go_error + bool) \<times> auth_db" where
  "apply_rating_update e user rating n occurred db =
     (case parse_user_id e user of
        Inl err \<Rightarrow> (Inl err, db)
      | Inr i \<Rightarrow> (case upsert_user_rating_cache i rating (i32 n) occurred (ts (ae_now e)) db of (k, db') \<Rightarrow> (Inr (0 < k), db')))"

definition apply_meetups_completed_update ::
  "'z auth_env_scheme \<Rightarrow> string \<Rightarrow> int \<Rightarrow> auth_db \<Rightarrow> (go_error + bool) \<times> auth_db" where
  "apply_meetups_completed_update e user n db =
     (case parse_user_id e user of
        Inl err \<Rightarrow> (Inl err, db)
      | Inr i \<Rightarrow> (case upsert_user_meetups_completed_cache i (i32 n) (ts (ae_now e)) db of (k, db') \<Rightarrow> (Inr (0 < k), db')))"

end
