(* ===== verification/Meetup_After_Facts.thy ===== *)
theory Meetup_After_Facts
  imports Meetup_After Meetup_Samples Auth_Accounts
begin

text \<open>
  What holds after a meetup: who may rate whom, that a review is written whole or not at all, and how the ratings of the
  meetup module reach the cache of the auth module.
\<close>

section \<open>Ratings\<close>

lemma pg_codes [simp]: "is_pg_error unique_violation check_violation = False"
  by (simp add: is_pg_error_def unique_violation_def check_violation_def)

lemma rate_one_row:
  assumes "rate_one m rater rated score ks whom t = Inr (agg, t')"
  shows "\<exists>i. x_db t' = (x_db t)\<lparr>ratings := ratings (x_db t) @ [\<lparr>ra_id = i, ra_meetup = m, ra_rater = rater, ra_rated = rated,
       ra_score = score, ra_created = x_now t, ra_traits = ks\<rparr>]\<rparr> \<and>
     agg = compute_user_rating_aggregate rated (x_db t') \<and> x_now t' = x_now t"
    "1 \<le> score" "score \<le> 5" "rater \<noteq> rated" "\<not> list_ex (\<lambda>x. rating_key x = (m, rater, rated)) (ratings (x_db t))"
  using assms
  by (auto simp: rate_one_def draw_id_def create_meetup_rating_def set_db_def rating_key_def list_ex_iff Let_def
      split: sum.splits if_splits prod.splits)

lemma participant_parsed:
  "require_participant e m u db = Inr x \<Longrightarrow>
     \<exists>i j. em_parse e m = Some i \<and> em_parse e u = Some j \<and> is_meetup_participant i j db"
  by (auto simp: require_participant_def ratings_is_participant_def parse_two_def parse_id_def split: option.splits sum.splits if_splits)

text \<open>The three grounds for a rating.\<close>

definition rating_ground :: "uuid \<Rightarrow> uuid \<Rightarrow> uuid \<Rightarrow> meetup_db \<Rightarrow> bool" where
  "rating_ground m rater rated db \<longleftrightarrow>
     (has_confirmed_meetup_happened m rater db \<and> is_meetup_participant m rated db) \<or>
     is_eligible_for_cancellation_rating m rated rater db \<or> is_eligible_for_withdrawal_rating m rated rater db"

text \<open>
  A rating that is accepted is from one to five, of somebody else, given on one of the three grounds and the first of its
  rater about that person on that meetup; it becomes the last row, and its event counts exactly the ratings stored.
\<close>

lemma rating_needs_ground:
  assumes "submit_rating e r db = (Inr ev, db')"
  shows "\<exists>m rater rated row. em_parse e (rg_meetup r) = Some m \<and> em_parse e (rg_rater r) = Some rater \<and>
     em_parse e (rg_rated r) = Some rated \<and> rater \<noteq> rated \<and> 1 \<le> rg_score r \<and> rg_score r \<le> 5 \<and>
     is_meetup_participant m rater db \<and> rating_ground m rater rated db \<and>
     \<not> list_ex (\<lambda>x. rating_key x = (m, rater, rated)) (ratings db) \<and>
     ratings db' = ratings db @ [row] \<and> rating_key row = (m, rater, rated) \<and> ra_score row = rg_score r \<and>
     re_count ev = int (length (rating_scores rated db)) + 1"
proof -
  from assms obtain agg where plan: "rating_plan e r db = Inr ()" and tx: "in_tx e 0 (rating_tx e r) db = (Inr agg, db')"
    and ev: "ev = rating_updated e (rg_rated r) agg"
    by (auto simp: submit_rating_def split: sum.splits prod.splits)
  from tx obtain t' where sub: "ratings_submit e (rg_meetup r) (rg_rater r) (rg_rated r) (rg_score r)
      \<lparr>x_db = db, x_now = ts (em_now e), x_uuids = em_uuids e 0, x_drawn = 0\<rparr> = Inr (agg, t')" and t': "x_db t' = db'"
    by (auto simp: in_tx_def run_tx_def rating_tx_def split: sum.splits)
  from sub obtain m rater rated where ids: "em_parse e (rg_meetup r) = Some m" "em_parse e (rg_rater r) = Some rater"
    "em_parse e (rg_rated r) = Some rated" and one: "rate_one m rater rated (rg_score r) [] ''this participant''
      \<lparr>x_db = db, x_now = ts (em_now e), x_uuids = em_uuids e 0, x_drawn = 0\<rparr> = Inr (agg, t')"
    by (auto simp: ratings_submit_def parse_two_def parse_id_def split: option.splits sum.splits)
  note row = rate_one_row [OF one, simplified]
  from plan ids have "is_meetup_participant m rater db" "rating_ground m rater rated db"
    by (auto simp: rating_plan_def require_participant_def ratings_is_participant_def ratings_has_confirmed_def
        ratings_withdrawal_def ratings_cancellation_def eligible_def parse_two_def parse_id_def rating_ground_def
        split: if_splits sum.splits option.splits)
  with row ids ev t' show ?thesis
    by (auto simp: rating_key_def rating_updated_def compute_user_rating_aggregate_def rating_scores_def)
qed

section \<open>Reviews\<close>

lemma rate_all_rows:
  assumes "rate_all e m rater ps t = Inr (aggs, t')" "\<And>p k. p \<in> set ps \<Longrightarrow> em_parse e (wp_user p) = Some k \<Longrightarrow> k = wp_user p"
  shows "\<exists>rows. x_db t' = (x_db t)\<lparr>ratings := ratings (x_db t) @ rows\<rparr> \<and>
     map (\<lambda>r. (ra_meetup r, ra_rater r, ra_rated r, ra_score r, ra_traits r)) rows =
     map (\<lambda>p. (m, rater, wp_user p, wp_score p, wp_traits p)) ps"
  using assms
proof (induction ps arbitrary: t aggs)
  case Nil
  then show ?case by simp
next
  case (Cons p ps)
  then obtain k agg u rest where k: "em_parse e (wp_user p) = Some k"
    and one: "rate_one m rater k (wp_score p) (wp_traits p) (wp_user p) t = Inr (agg, u)"
    and all: "rate_all e m rater ps u = Inr (rest, t')"
    by (auto simp: parse_id_def split: option.splits sum.splits prod.splits)
  from Cons.prems(2) [of p k] k have kp: "k = wp_user p" by simp
  from Cons.IH [OF all] Cons.prems(2) obtain rows where rows: "x_db t' = (x_db u)\<lparr>ratings := ratings (x_db u) @ rows\<rparr>"
    "map (\<lambda>r. (ra_meetup r, ra_rater r, ra_rated r, ra_score r, ra_traits r)) rows =
     map (\<lambda>p. (m, rater, wp_user p, wp_score p, wp_traits p)) ps" by (meson list.set_intros(2))
  from rate_one_row(1) [OF one] kp obtain i where "x_db u = (x_db t)\<lparr>ratings := ratings (x_db t) @ [\<lparr>ra_id = i, ra_meetup = m,
      ra_rater = rater, ra_rated = wp_user p, ra_score = wp_score p, ra_created = x_now t, ra_traits = wp_traits p\<rparr>]\<rparr>" by blast
  with rows show ?case
    by (intro exI [of _ "\<lparr>ra_id = i, ra_meetup = m, ra_rater = rater, ra_rated = wp_user p, ra_score = wp_score p,
      ra_created = x_now t, ra_traits = wp_traits p\<rparr> # rows"]) simp
qed

lemma check_people_seen: "check_people m allowed required seen ps = Inr s \<Longrightarrow>
    set s = set seen \<union> wp_user ` set ps \<and> wp_user ` set ps \<subseteq> set allowed"
  by (induction m allowed required seen ps rule: check_people.induct) (auto split: if_splits option.splits)

lemma find_None_all: "find p xs = None \<longleftrightarrow> (\<forall>x \<in> set xs. \<not> p x)"
  by (auto simp: find_None_iff)

text \<open>A plan that is accepted names everyone who may be rated and was not, and only people who may be.\<close>

lemma review_plan_covers:
  assumes "review_plan e r db = Inr s" "em_parse e (rs_meetup r) = Some i" "em_parse e (rs_rater r) = Some j"
  shows "\<And>p. p \<in> set (list_ratable_participants i j db) \<Longrightarrow> \<not> pa_rated p \<Longrightarrow> pa_user p \<in> wp_user ` set (rs_people r)"
    "wp_user ` set (rs_people r) \<subseteq> pa_user ` set (list_ratable_participants i j db)"
    "rvw_meetup s = rs_meetup r" "rvw_rater s = rs_rater r" "rvw_score s = rs_score r" "rvw_people s = rs_people r"
proof -
  let ?ps = "list_ratable_participants i j db"
  from assms obtain seen where seen: "check_people (rs_meetup r) (map pa_user ?ps) (map pa_user (filter (\<lambda>p. \<not> pa_rated p) ?ps)) []
      (rs_people r) = Inr seen" and none: "find (\<lambda>u. u \<notin> set seen) (map pa_user (filter (\<lambda>p. \<not> pa_rated p) ?ps)) = None"
    and s: "rvw_meetup s = rs_meetup r" "rvw_rater s = rs_rater r" "rvw_score s = rs_score r" "rvw_people s = rs_people r"
    by (auto simp: review_plan_def ratings_list_ratable_def parse_two_def parse_id_def Let_def
        split: if_splits sum.splits option.splits)
  from check_people_seen [OF seen] none
  show "\<And>p. p \<in> set ?ps \<Longrightarrow> \<not> pa_rated p \<Longrightarrow> pa_user p \<in> wp_user ` set (rs_people r)"
    "wp_user ` set (rs_people r) \<subseteq> pa_user ` set ?ps"
    by (auto simp: find_None_all)
  show "rvw_meetup s = rs_meetup r" "rvw_rater s = rs_rater r" "rvw_score s = rs_score r" "rvw_people s = rs_people r" by (fact s)+
qed

lemma upsert_feedback_done:
  assumes "upsert_feedback f g db = Inr db'" "\<And>x. fb_meetup (g x) = fb_meetup x \<and> fb_user (g x) = fb_user x"
  shows "ratings db' = ratings db" "\<exists>x. get_meetup_feedback (fb_meetup f) (fb_user f) db' = Some x \<and> (x = f \<or> (\<exists>y. x = g y))"
proof -
  show "ratings db' = ratings db" using assms(1) by (auto simp: upsert_feedback_def Let_def split: if_splits)
  have old: "find (\<lambda>x. fb_meetup x = m \<and> fb_user x = u) (update_where (\<lambda>x. fb_meetup x = m \<and> fb_user x = u) g rows) =
      map_option g (find (\<lambda>x. fb_meetup x = m \<and> fb_user x = u) rows)" for m u rows
    by (induction rows) (auto simp: update_where_def assms(2))
  have new: "\<not> list_ex p rows \<Longrightarrow> p f \<Longrightarrow> find p (rows @ [f]) = Some f" for p rows
    by (induction rows) auto
  have some: "list_ex p rows \<Longrightarrow> \<exists>y. find p rows = Some y" for p and rows :: "feedback_row list"
    by (induction rows) auto
  show "\<exists>x. get_meetup_feedback (fb_meetup f) (fb_user f) db' = Some x \<and> (x = f \<or> (\<exists>y. x = g y))"
  proof (cases "list_ex (\<lambda>x. fb_meetup x = fb_meetup f \<and> fb_user x = fb_user f) (feedbacks db)")
    case True
    with some obtain y where "find (\<lambda>x. fb_meetup x = fb_meetup f \<and> fb_user x = fb_user f) (feedbacks db) = Some y" by blast
    with True assms(1) show ?thesis by (auto simp: upsert_feedback_def get_meetup_feedback_def old)
  next
    case False
    with assms(1) show ?thesis
      using new [of "\<lambda>x. fb_meetup x = fb_meetup f \<and> fb_user x = fb_user f" "feedbacks db"]
      by (auto simp: upsert_feedback_def get_meetup_feedback_def Let_def split: if_splits)
  qed
qed

lemma overall_done:
  assumes "set_meetup_overall_review i j n notes happened now db = Inr db'"
  shows "ratings db' = ratings db" "\<exists>f. get_meetup_feedback i j db' = Some f \<and> fb_reviewed f = Some now \<and> fb_score f = Some n"
  using upsert_feedback_done [of "\<lparr>fb_meetup = i, fb_user = j, fb_happened = happened, fb_safe = None, fb_accurate = None,
      fb_again = None, fb_submitted = now, fb_notes = notes, fb_score = Some n, fb_reviewed = Some now\<rparr>"
      "\<lambda>f. f\<lparr>fb_happened := happened, fb_score := Some n,
          fb_notes := (case notes of None \<Rightarrow> fb_notes f | Some n \<Rightarrow> Some n), fb_reviewed := Some now, fb_submitted := now\<rparr>" db db']
    assms by (fastforce simp: set_meetup_overall_review_def split: if_splits)+

text \<open>
  C11. A review is written whole or not at all. If it is refused nothing changed; if it is accepted its people's scores and
  traits are the new rows, in its order and after all older ones, everyone the reviewer may rate on the meetup is now
  rated by them, and the review is stamped with its overall score.
\<close>

theorem review_is_whole:
  assumes ids: "em_parse e (rs_meetup r) = Some i" "em_parse e (rs_rater r) = Some j"
    and canon: "\<And>p. p \<in> set (list_ratable_participants i j db) \<Longrightarrow> em_parse e (pa_user p) = Some (pa_user p)"
    and sub: "submit_meetup_review e r db = (res, db')"
  shows "if isl res then db' = db
     else (\<exists>rows. ratings db' = ratings db @ rows \<and>
         map (\<lambda>x. (rating_key x, ra_score x, ra_traits x)) rows =
         map (\<lambda>p. ((i, j, wp_user p), wp_score p, wp_traits p)) (rs_people r)) \<and>
       (\<forall>p \<in> set (list_ratable_participants i j db). list_ex (\<lambda>x. rating_key x = (i, j, pa_user p)) (ratings db')) \<and>
       (\<exists>f. get_meetup_feedback i j db' = Some f \<and> fb_reviewed f \<noteq> None \<and> fb_score f = Some (rs_score r))"
proof (cases "isl res")
  case True
  with sub show ?thesis by (auto simp: submit_meetup_review_def in_tx_def run_tx_def split: sum.splits prod.splits)
next
  case False
  with sub obtain s aggs where plan: "review_plan e r db = Inr s" and tx: "in_tx e 0 (ratings_submit_review e s) db = (Inr aggs, db')"
    by (auto simp: submit_meetup_review_def split: sum.splits prod.splits)
  note cov = review_plan_covers [OF plan ids]
  let ?t = "\<lparr>x_db = db, x_now = ts (em_now e), x_uuids = em_uuids e 0, x_drawn = 0\<rparr>"
  from tx obtain t' where t': "ratings_submit_review e s ?t = Inr (aggs, t')" "x_db t' = db'"
    by (auto simp: in_tx_def run_tx_def split: sum.splits)
  then obtain db1 where over: "set_meetup_overall_review i j (rs_score r) (rvw_notes s) (rvw_happened s) (ts (em_now e)) db = Inr db1"
    and all: "rate_all e i j (rs_people r) (set_db ?t db1) = Inr (aggs, t')"
    by (auto simp: ratings_submit_review_def parse_two_def parse_id_def ids cov(3-6) split: sum.splits if_splits)
  have parsed: "k = wp_user p" if "p \<in> set (rs_people r)" "em_parse e (wp_user p) = Some k" for p k
  proof -
    from that(1) cov(2) obtain q where "q \<in> set (list_ratable_participants i j db)" "wp_user p = pa_user q" by auto
    with canon that(2) show ?thesis by force
  qed
  from rate_all_rows [OF all parsed] obtain rows where rows: "db' = db1\<lparr>ratings := ratings db1 @ rows\<rparr>" and
    maps: "map (\<lambda>r. (ra_meetup r, ra_rater r, ra_rated r, ra_score r, ra_traits r)) rows =
      map (\<lambda>p. (i, j, wp_user p, wp_score p, wp_traits p)) (rs_people r)"
    using t'(2) by (auto simp: set_db_def)
  from arg_cong [OF maps, of "map (\<lambda>(a, b, c, d, f). ((a, b, c), d, f))"]
  have keys: "map (\<lambda>x. (rating_key x, ra_score x, ra_traits x)) rows =
      map (\<lambda>p. ((i, j, wp_user p), wp_score p, wp_traits p)) (rs_people r)"
    by (simp add: comp_def rating_key_def)
  have rated: "list_ex (\<lambda>x. rating_key x = (i, j, pa_user p)) (ratings db')" if "p \<in> set (list_ratable_participants i j db)" for p
  proof (cases "pa_rated p")
    case True
    with that have "list_ex (\<lambda>x. rating_key x = (i, j, pa_user p)) (ratings db)"
      by (auto simp: list_ratable_participants_def Let_def)
    then show ?thesis using rows overall_done(1) [OF over] by simp
  next
    case False
    from cov(1) [OF that False] obtain q where "q \<in> set (rs_people r)" "pa_user p = wp_user q" by auto
    then have "(i, j, pa_user p) \<in> fst ` set (map (\<lambda>p. ((i, j, wp_user p), wp_score p, wp_traits p)) (rs_people r))" by force
    then have "(i, j, pa_user p) \<in> rating_key ` set rows" unfolding keys [symmetric] by (auto simp: image_image)
    then show ?thesis using rows by (auto simp: list_ex_iff)
  qed
  from overall_done [OF over] rows have "ratings db' = ratings db @ rows"
    "\<exists>f. get_meetup_feedback i j db' = Some f \<and> fb_reviewed f \<noteq> None \<and> fb_score f = Some (rs_score r)"
    by (auto simp: get_meetup_feedback_def)
  with keys rated False show ?thesis by (simp only: if_False) blast
qed

section \<open>The review of a cancelled meetup\<close>

lemma keep_eligible_kept:
  "keep_eligible e m u db ps = Inr qs \<Longrightarrow> q \<in> set qs \<Longrightarrow>
     q \<in> set ps \<and> (pa_rated q \<or> ratings_cancellation e m u (pa_user q) db = Inr True \<or> ratings_withdrawal e m u (pa_user q) db = Inr True)"
proof (induction ps arbitrary: qs)
  case (Cons p ps)
  from Cons.prems(1) obtain keep rest where k: "(if pa_rated p then Inr True
      else case ratings_cancellation e m u (pa_user p) db of Inl err \<Rightarrow> Inl err
        | Inr c \<Rightarrow> if c then Inr True else ratings_withdrawal e m u (pa_user p) db) = Inr keep"
    and rest: "keep_eligible e m u db ps = Inr rest" and qs: "qs = (if keep then p # rest else rest)"
    by (auto split: sum.splits if_split_asm)
  show ?case
  proof (cases "q \<in> set rest")
    case True
    then show ?thesis using Cons.IH [OF rest] by simp
  next
    case False
    with Cons.prems(2) qs have "q = p" "keep" by (auto split: if_splits)
    with k show ?thesis by (cases "ratings_cancellation e m u (pa_user p) db") (auto split: if_splits)
  qed
qed simp

text \<open>What the list offers for a cancelled meetup that was not confirmed: the host, and who was rated before.\<close>

lemma cancelled_offers:
  assumes "list_ratable e m u level db = Inr offered" "p \<in> set offered" "em_parse e m = Some i" "em_parse e u = Some j"
    and only: "\<And>x. x \<in> set (meetups db) \<Longrightarrow> m_id x = i \<Longrightarrow> m_status x = MCancelled \<and> m_host x = h"
    and canon: "\<And>p. p \<in> set (list_ratable_participants i j db) \<Longrightarrow> em_parse e (pa_user p) = Some (pa_user p)"
    and "h \<noteq> j" "\<not> has_confirmed_meetup_happened i j db"
  shows "pa_user p = h \<or> list_ex (\<lambda>x. rating_key x = (i, j, pa_user p)) (ratings db)"
proof -
  let ?ps = "list_ratable_participants i j db"
  from assms(1-4) obtain qs q where filt: "filter_ratable e m u ?ps db = Inr qs" and q: "q \<in> set qs" "pa_user p = pa_user q"
    by (auto simp: list_ratable_def ratings_is_participant_def ratings_list_ratable_def parse_two_def parse_id_def
        split: if_splits sum.splits option.splits)
  have "keep_eligible e m u db ?ps = Inr qs"
  proof (cases "?ps = []")
    case True
    then show ?thesis using filt by (simp add: filter_ratable_def)
  next
    case False
    with filt assms(3,4,8) obtain v where v: "meetups_get_by_id e m u db = Inr v" and
      w: "(if m_status v \<noteq> MCancelled \<and> \<not> time_before (em_now e) (m_end v) then Inr ?ps else keep_eligible e m u db ?ps) = Inr qs"
      by (auto simp: filter_ratable_def ratings_has_confirmed_def parse_two_def parse_id_def split: sum.splits)
    from v assms(3,4) obtain x where "x \<in> set (meetups db)" "m_id x = i" "m_status v = m_status x"
      by (auto simp: meetups_get_by_id_def parse_id_def get_meetup_by_id_def get_meetup_def join_view_def meetup_row.defs Let_def
          split: option.splits prod.splits dest: find_SomeD)
    with only w show ?thesis by simp
  qed
  from keep_eligible_kept [OF this q(1)] have qin: "q \<in> set ?ps" and why: "pa_rated q \<or>
      ratings_cancellation e m u (pa_user q) db = Inr True \<or> ratings_withdrawal e m u (pa_user q) db = Inr True" by blast+
  note parsed = canon [OF qin] assms(3,4)
  have "is_eligible_for_cancellation_rating i (pa_user q) j db \<Longrightarrow> pa_user q = h"
    using only by (auto simp: is_eligible_for_cancellation_rating_def list_ex_iff)
  moreover have "\<not> is_eligible_for_withdrawal_rating i (pa_user q) j db"
    using only assms(7) by (auto simp: is_eligible_for_withdrawal_rating_def list_ex_iff)
  moreover have "pa_rated q \<Longrightarrow> list_ex (\<lambda>x. rating_key x = (i, j, pa_user q)) (ratings db)"
    using qin by (auto simp: list_ratable_participants_def Let_def)
  ultimately show ?thesis using why parsed q(2)
    by (auto simp: ratings_cancellation_def ratings_withdrawal_def eligible_def parse_two_def parse_id_def)
qed

lemma accepted_is_ratable:
  assumes "q \<in> set (requests db)" "q_meetup q = i" "q_status q = Accepted" "q_requester q \<noteq> j"
  shows "\<exists>p \<in> set (list_ratable_participants i j db). pa_user p = q_requester q \<and>
     pa_rated p = list_ex (\<lambda>r. rating_key r = (i, j, q_requester q)) (ratings db)"
proof -
  have "(q_requester q, None) \<in> set (filter (\<lambda>(u, _). u \<noteq> j) (remdups (map (\<lambda>x. (m_host x, None)) (filter (\<lambda>x. m_id x = i) (meetups db)) @
      map (\<lambda>q. (q_requester q, None)) (filter (\<lambda>q. q_meetup q = i \<and> q_status q = Accepted) (requests db)) @
      map (\<lambda>q. (q_requester q, q_note q)) (filter (\<lambda>q. q_meetup q = i \<and> q_status q = Withdrawn \<and>
        list_ex (\<lambda>x. m_id x = i \<and> m_host x = j) (meetups db)) (requests db)))))"
    using assms by force
  then show ?thesis unfolding list_ratable_participants_def Let_def set_map by (intro bexI [OF _ imageI]) (auto split: option.split)
qed

text \<open>
  C21. A cancelled meetup with a second accepted participant can not be reviewed by what the reviewer is offered: the list
  of people to rate leaves the other participant out, and every review made of people on that list is refused.
\<close>

theorem offered_people_never_suffice:
  assumes "list_ratable e m u level db = Inr offered" "em_parse e m = Some i" "em_parse e u = Some j"
    and only: "\<And>x. x \<in> set (meetups db) \<Longrightarrow> m_id x = i \<Longrightarrow> m_status x = MCancelled \<and> m_host x = h"
    and canon: "\<And>p. p \<in> set (list_ratable_participants i j db) \<Longrightarrow> em_parse e (pa_user p) = Some (pa_user p)"
    and "h \<noteq> j" "\<not> has_confirmed_meetup_happened i j db"
    and other: "q \<in> set (requests db)" "q_meetup q = i" "q_status q = Accepted" "q_requester q \<noteq> j" "q_requester q \<noteq> h"
    and unrated: "\<not> list_ex (\<lambda>x. rating_key x = (i, j, q_requester q)) (ratings db)"
    and r: "rs_meetup r = m" "rs_rater r = u" "wp_user ` set (rs_people r) \<subseteq> pa_user ` set offered"
  shows "\<exists>err. submit_meetup_review e r db = (Inl err, db)"
proof (cases "review_plan e r db")
  case (Inr s)
  from accepted_is_ratable [OF other(1-4)] unrated obtain p where "p \<in> set (list_ratable_participants i j db)"
    "pa_user p = q_requester q" "\<not> pa_rated p" by auto
  with review_plan_covers(1) [OF Inr] assms(2,3) r(1,2) have "q_requester q \<in> wp_user ` set (rs_people r)" by metis
  with r(3) obtain o' where "o' \<in> set offered" "pa_user o' = q_requester q" by auto
  with cancelled_offers [OF assms(1) _ assms(2,3) only canon assms(6,7)] other(5) unrated show ?thesis by metis
qed (simp add: submit_meetup_review_def)

section \<open>Check-in and decline\<close>

lemma set_safety_keys: "(\<And>s. sa_meetup (f s) = sa_meetup s \<and> sa_user (f s) = sa_user s) \<Longrightarrow>
    get_safety_row i j (snd (set_safety f i j db)) = map_option f (get_safety_row i j db)"
proof -
  assume f: "\<And>s. sa_meetup (f s) = sa_meetup s \<and> sa_user (f s) = sa_user s"
  have "find (\<lambda>s. sa_meetup s = i \<and> sa_user s = j) (update_where (\<lambda>s. sa_meetup s = i \<and> sa_user s = j) f rows) =
      map_option f (find (\<lambda>s. sa_meetup s = i \<and> sa_user s = j) rows)" for rows
    by (induction rows) (auto simp: update_where_def f)
  then show ?thesis by (simp add: set_safety_def get_safety_row_def)
qed

text \<open>
  C22. Checking in and declining exclude each other only while no call runs between another's reading and writing: when a
  check-in and a decline have both passed their checks, the check-in is written and the decline commits after it, the
  row the decline stores and returns says that the participant has checked in and has declined.
\<close>

theorem checked_in_and_declined:
  assumes "check_in_plan e m u db = Inr ()" "decline_plan d r db = Inr p" "dq_meetup r = m" "dq_user r = u"
    "em_parse d = em_parse e" "check_in_write e m u db = (Inr s, db1)" "in_tx d n (decline_tx d r p) db1 = (Inr s', db2)"
  shows "sa_checked_at s' \<noteq> None \<and> sa_declined_at s' \<noteq> None"
proof -
  from assms(6) obtain i j where ids: "em_parse e m = Some i" "em_parse e u = Some j"
    and w: "set_checked_in (ts (em_now e)) i j db = (Some s, db1)"
    by (auto simp: check_in_write_def safety_write_def parse_two_def parse_id_def split: sum.splits option.splits prod.splits)
  let ?f = "\<lambda>s. s\<lparr>sa_checked_at := Some (ts (em_now e))\<rparr>"
  have "snd (set_safety ?f i j db) = db1" using w by (simp add: set_checked_in_def)
  with set_safety_keys [of ?f i j db] have "get_safety_row i j db1 = map_option ?f (get_safety_row i j db)" by simp
  moreover from w have "get_safety_row i j db \<noteq> None" by (auto simp: set_checked_in_def set_safety_def)
  ultimately obtain x where x: "get_safety_row i j db1 = Some x" "sa_checked_at x \<noteq> None" by auto
  obtain reason v where p: "p = (reason, v)" by (cases p)
  have row: "fst (set_declined t reason' i j db1) = Some (x\<lparr>sa_declined_at := Some t, sa_reason := reason'\<rparr>)" for t reason'
    by (simp add: set_declined_def set_safety_def x(1))
  let ?t = "\<lparr>x_db = db1, x_now = ts (em_now d), x_uuids = em_uuids d n, x_drawn = 0\<rparr>"
  from assms(7) obtain t' where "decline_tx d r p ?t = Inr (s', t')"
    by (auto simp: in_tx_def run_tx_def split: sum.splits)
  moreover have "parse_two d (dq_meetup r) ''user'' (dq_user r) = Inr (i, j)"
    using assms(3-5) ids by (simp add: parse_two_def parse_id_def)
  ultimately have "fst (set_declined (ts (em_now d)) (text_or_null reason) i j db1) = Some s'"
    unfolding decline_tx_def p safety_decline_def by (auto split: option.splits prod.splits sum.splits)
  with row have "s' = x\<lparr>sa_declined_at := Some (ts (em_now d)), sa_reason := text_or_null reason\<rparr>" by simp
  with x(2) show ?thesis by auto
qed

section \<open>The cached rating\<close>

text \<open>The auth module applies an event of the bus to the account's row.\<close>

definition deliver_rating :: "auth_env \<times> rating_event \<Rightarrow> auth_db \<Rightarrow> auth_db" where
  "deliver_rating d db = (case d of (e, ev) \<Rightarrow> snd (apply_rating_update e (re_user ev) (re_average ev) (re_count ev) (re_at ev) db))"

definition cached_from :: "user_row \<Rightarrow> rating_event \<Rightarrow> bool" where
  "cached_from r ev \<longleftrightarrow> us_rating r = re_average ev \<and> us_rating_count r = i32 (re_count ev) \<and> us_rating_at r = Some (ts (re_at ev))"

lemma find_updated_row: "(\<And>r. us_id (f r) = us_id r) \<Longrightarrow>
    find (\<lambda>r. us_id r = i) (update_where p f rows) = map_option (\<lambda>r. if p r then f r else r) (find (\<lambda>r. us_id r = i) rows)"
  by (induction rows) (auto simp: update_where_def)

lemma deliver_rating_row:
  assumes "get_user_by_id i db = Some r" "ae_parse e (re_user ev) = Some i"
  shows "\<exists>r'. get_user_by_id i (deliver_rating (e, ev) db) = Some r' \<and>
    (if (case us_rating_at r of None \<Rightarrow> True | Some t \<Rightarrow> t < ts (re_at ev)) then cached_from r' ev else r' = r)"
  using assms find_SomeD [of "\<lambda>r. us_id r = i" "ad_users db" r]
  by (auto simp: deliver_rating_def apply_rating_update_def parse_user_id_def upsert_user_rating_cache_def Let_def get_user_by_id_def
      find_updated_row cached_from_def)

definition caught_up :: "user_row \<Rightarrow> (auth_env \<times> rating_event) list \<Rightarrow> user_row \<Rightarrow> bool" where
  "caught_up r ds r' \<longleftrightarrow> (r' = r \<or> (\<exists>d \<in> set ds. cached_from r' (snd d))) \<and>
     (\<forall>t. us_rating_at r = Some t \<longrightarrow> (\<exists>t'. us_rating_at r' = Some t' \<and> t \<le> t')) \<and>
     (\<forall>d \<in> set ds. \<exists>t'. us_rating_at r' = Some t' \<and> ts (re_at (snd d)) \<le> t')"

text \<open>In whatever order events arrive, the cache holds the one stamped last, or what was there and is no older.\<close>

lemma cache_takes_latest:
  assumes "get_user_by_id i db = Some r" "\<forall>d \<in> set ds. ae_parse (fst d) (re_user (snd d)) = Some i"
  shows "\<exists>r'. get_user_by_id i (fold deliver_rating ds db) = Some r' \<and> caught_up r ds r'"
  using assms
proof (induction ds arbitrary: db r)
  case Nil
  then show ?case by (simp add: caught_up_def)
next
  case (Cons d ds)
  obtain e ev where d: "d = (e, ev)" by (cases d)
  let ?newer = "case us_rating_at r of None \<Rightarrow> True | Some t \<Rightarrow> t < ts (re_at ev)"
  from deliver_rating_row [OF Cons.prems(1), of e ev] Cons.prems(2) d
  obtain q where q: "get_user_by_id i (deliver_rating d db) = Some q" and step: "if ?newer then cached_from q ev else q = r" by auto
  from Cons.IH [OF q] Cons.prems(2) obtain r' where r': "get_user_by_id i (fold deliver_rating ds (deliver_rating d db)) = Some r'"
    and c: "caught_up q ds r'" by auto
  have "caught_up r (d # ds) r'"
  proof (cases ?newer)
    case True
    with step have "cached_from q ev" by simp
    then have at: "us_rating_at q = Some (ts (re_at ev))" by (simp add: cached_from_def)
    with c obtain t' where t': "us_rating_at r' = Some t'" "ts (re_at ev) \<le> t'" by (auto simp: caught_up_def)
    from True t'(2) have "t \<le> t'" if "us_rating_at r = Some t" for t using that by simp
    with c d t' \<open>cached_from q ev\<close> show ?thesis unfolding caught_up_def by auto
  next
    case False
    then obtain t where t: "us_rating_at r = Some t" "ts (re_at ev) \<le> t" by (auto split: option.splits)
    from False step have "q = r" by simp
    with c t obtain t' where "us_rating_at r' = Some t'" "t \<le> t'" by (auto simp: caught_up_def)
    with c d t \<open>q = r\<close> show ?thesis unfolding caught_up_def by auto
  qed
  with r' show ?case by simp
qed

text \<open>
  C23. Two ratings of one person commit one after the other, and the first is stamped after the second: whichever order
  their events are delivered in, the account's cache keeps the first one's count, one less than the ratings stored.
\<close>

theorem late_stamp_keeps_old_count:
  assumes "in_tx e n (rating_tx e r) db = (Inr agg, db1)" "in_tx e' n' (rating_tx e' r') db1 = (Inr agg', db2)"
    and "rg_rated r = u" "rg_rated r' = u" "em_parse e u = Some k" "em_parse e' u = Some k"
    and "ts (em_now late') < ts (em_now late)"
    and ds: "ds = [(a, rating_updated late u agg), (b, rating_updated late' u agg')] \<or>
      ds = [(b, rating_updated late' u agg'), (a, rating_updated late u agg)]"
    and row: "get_user_by_id i adb = Some q" "us_rating_at q = None" "ae_parse a u = Some i" "ae_parse b u = Some i"
  shows "\<exists>q'. get_user_by_id i (fold deliver_rating ds adb) = Some q' \<and> us_rating_count q' = i32 (snd agg) \<and>
     int (length (rating_scores k db2)) = snd agg + 1"
proof -
  have "\<forall>d \<in> set ds. ae_parse (fst d) (re_user (snd d)) = Some i"
    using ds row(3,4) by (auto simp: rating_updated_def)
  from cache_takes_latest [OF row(1) this] obtain q' where q': "get_user_by_id i (fold deliver_rating ds adb) = Some q'"
    "q' = q \<or> (\<exists>d \<in> set ds. cached_from q' (snd d))" "\<forall>d \<in> set ds. \<exists>t'. us_rating_at q' = Some t' \<and> ts (re_at (snd d)) \<le> t'"
    by (auto simp: caught_up_def)
  have count: "snd agg = int (length (rating_scores k db1)) \<and> ratings db1 = ratings db @ [x] \<and> ra_rated x = k"
    if "in_tx e n (rating_tx e r) db = (Inr agg, db1)" "rg_rated r = u" "em_parse e u = Some k" "x = last (ratings db1)"
    for e n r db agg db1 x
    using that by (auto simp: in_tx_def run_tx_def rating_tx_def ratings_submit_def parse_two_def parse_id_def
        compute_user_rating_aggregate_def split: sum.splits option.splits dest!: rate_one_row(1))
  from count [OF assms(2,4,6) refl] obtain x where "ratings db2 = ratings db1 @ [x]" "ra_rated x = k" by blast
  with count [OF assms(1,3,5) refl] have counts: "int (length (rating_scores k db2)) = snd agg + 1"
    by (simp add: rating_scores_def)
  from q'(3) ds assms(7) have "us_rating_at q' \<noteq> None" "\<not> cached_from q' (rating_updated late' u agg')"
    by (auto simp: cached_from_def rating_updated_def)
  with q'(2) row(2) ds have "cached_from q' (rating_updated late u agg)" by auto
  with q'(1) counts show ?thesis by (simp add: cached_from_def rating_updated_def)
qed

section \<open>Samples\<close>

text \<open>A meetup of \<open>h\<close> with \<open>a\<close> and \<open>b\<close> accepted, held or cancelled; \<open>a\<close> has read the safety checklist.\<close>

definition party_row :: "meetup_status \<Rightarrow> meetup_row" where
  "party_row s = \<lparr>m_id = ''m'', m_host = ''h'', m_intent = ''coffee'', m_lat = Finite 1, m_lng = Finite 1, m_label = ''Cafe'',
     m_capacity = 2, m_status = s, m_created_at = 0, m_cancelled_at = (if s = MCancelled then Some hour else None),
     m_start = 2 * hour, m_end = 3 * hour, m_closed_at = None, m_reason = None, m_soon_at = None, m_key = None,
     m_hold = None, m_hash = None\<rparr>"

definition party_guest :: "uuid \<Rightarrow> request_row" where
  "party_guest u = \<lparr>q_id = CHR ''q'' # u, q_meetup = ''m'', q_requester = u, q_status = Accepted, q_auto = False,
     q_created_at = 0, q_resolved_at = Some 0, q_note = None\<rparr>"

definition party_db :: "meetup_status \<Rightarrow> meetup_db" where
  "party_db s = empty_meetup_db\<lparr>meetups := [party_row s], requests := [party_guest ''a'', party_guest ''b''],
     safety_states := [\<lparr>sa_meetup = ''m'', sa_user = ''a'', sa_ack_at = Some 0, sa_checked_at = None, sa_declined_at = None,
       sa_reason = None\<rparr>]\<rparr>"

definition later :: "int \<Rightarrow> create_env" where "later n = sample_env (n * hour) CHR ''r''"

definition scores :: "(uuid \<times> int) list \<Rightarrow> review_request" where
  "scores ps = \<lparr>rs_meetup = ''m'', rs_rater = ''a'', rs_score = 4, rs_notes = None,
     rs_people = map (\<lambda>(u, n). \<lparr>wp_user = u, wp_score = n, wp_traits = [''funny'']\<rparr>) ps\<rparr>"

definition party_review :: "(go_error + rating_event list) \<times> meetup_db" where
  "party_review = submit_meetup_review (later 5) (scores [(''h'', 5), (''b'', 3)]) (party_db MCompleted)"

theorem review_is_whole_witness:
  "length (ratings (snd party_review)) = 2 \<and>
   list_all (\<lambda>p. list_ex (\<lambda>x. rating_key x = (''m'', ''a'', pa_user p)) (ratings (snd party_review)))
      (list_ratable_participants ''m'' ''a'' (party_db MCompleted))"
proof -
  let ?r = "scores [(''h'', 5), (''b'', 3)]"
  have ids: "em_parse (later 5) (rs_meetup ?r) = Some ''m''" "em_parse (later 5) (rs_rater ?r) = Some ''a''"
    and canon: "list_all (\<lambda>p. em_parse (later 5) (pa_user p) = Some (pa_user p)) (list_ratable_participants ''m'' ''a'' (party_db MCompleted))"
    and ok: "isl (fst party_review) = False" and n: "length (ratings (snd party_review)) = 2" by code_simp+
  have "submit_meetup_review (later 5) ?r (party_db MCompleted) = (fst party_review, snd party_review)"
    by (simp add: party_review_def)
  from review_is_whole [OF ids _ this] canon ok n show ?thesis by (auto simp: list_all_iff)
qed

theorem offered_people_never_suffice_witness:
  "(case list_ratable (later 1) ''m'' ''a'' 2 (party_db MCancelled) of Inl _ \<Rightarrow> False | Inr ps \<Rightarrow> map pa_user ps = [''h'']) \<and>
   fst (submit_meetup_review (later 1) (scores [(''h'', 2)]) (party_db MCancelled)) = Inl (review_missing ''b'')"
proof -
  let ?d = "party_db MCancelled" and ?e = "later 1" and ?r = "scores [(''h'', 2)]"
  have list: "case list_ratable ?e ''m'' ''a'' 2 ?d of Inl _ \<Rightarrow> False | Inr ps \<Rightarrow> map pa_user ps = [''h'']" by code_simp
  then obtain ps where ps: "list_ratable ?e ''m'' ''a'' 2 ?d = Inr ps" "map pa_user ps = [''h'']" by (auto split: sum.splits)
  have ids: "em_parse ?e ''m'' = Some ''m''" "em_parse ?e ''a'' = Some ''a''"
    and only: "list_all (\<lambda>x. m_id x = ''m'' \<longrightarrow> m_status x = MCancelled \<and> m_host x = ''h'') (meetups ?d)"
    and canon: "list_all (\<lambda>p. em_parse ?e (pa_user p) = Some (pa_user p)) (list_ratable_participants ''m'' ''a'' ?d)"
    and unconfirmed: "\<not> has_confirmed_meetup_happened ''m'' ''a'' ?d"
    and people: "map wp_user (rs_people ?r) = [''h'']" by code_simp+
  have "\<exists>err. submit_meetup_review ?e ?r ?d = (Inl err, ?d)"
  proof (rule offered_people_never_suffice [OF ps(1) ids, where h = "''h''" and q = "party_guest ''b''"])
    show "wp_user ` set (rs_people ?r) \<subseteq> pa_user ` set ps"
      unfolding set_map [symmetric] people ps(2) by simp
  qed (use only canon unconfirmed in \<open>auto simp: list_all_iff party_db_def party_guest_def scores_def empty_meetup_db_def\<close>)
  moreover have "(case fst (submit_meetup_review ?e ?r ?d) of Inl err \<Rightarrow> err = review_missing ''b'' | Inr _ \<Rightarrow> False)" by code_simp
  ultimately show ?thesis using list by auto
qed

definition declines :: decline_request where
  "declines = \<lparr>dq_meetup = ''m'', dq_user = ''a'', dq_reason = ''ill''\<rparr>"

theorem checked_in_and_declined_witness:
  "(let d = party_db MOpen; e = later 1; (s, d1) = check_in_write e ''m'' ''a'' d in
     check_in_plan e ''m'' ''a'' d = Inr () \<and>
     (case decline_plan (later 2) declines d of Inl _ \<Rightarrow> False
      | Inr p \<Rightarrow> (case fst (in_tx (later 2) 0 (decline_tx (later 2) declines p) d1) of Inl _ \<Rightarrow> False
          | Inr s' \<Rightarrow> sa_checked_at s' \<noteq> None \<and> sa_declined_at s' \<noteq> None)))"
proof -
  let ?d = "party_db MOpen" and ?e = "later 1" and ?f = "later 2"
  let ?w = "check_in_write ?e ''m'' ''a'' ?d"
  have plan: "check_in_plan ?e ''m'' ''a'' ?d = Inr ()"
    and declined: "\<not> isl (decline_plan ?f declines ?d)" and written: "\<not> isl (fst ?w)"
    and who: "dq_meetup declines = ''m''" "dq_user declines = ''a''" by code_simp+
  have parse: "em_parse ?f = em_parse ?e" by (simp add: later_def sample_env_def)
  from declined obtain p where p: "decline_plan ?f declines ?d = Inr p" by (cases "decline_plan ?f declines ?d") auto
  from written obtain s d1 where w: "?w = (Inr s, d1)" by (cases ?w; cases "fst ?w") auto
  let ?x = "in_tx ?f 0 (decline_tx ?f declines p) d1"
  have "(case decline_plan ?f declines ?d of Inl _ \<Rightarrow> False | Inr p \<Rightarrow> \<not> isl (fst (in_tx ?f 0 (decline_tx ?f declines p) (snd ?w))))"
    by code_simp
  then obtain s' d2 where x: "?x = (Inr s', d2)" unfolding p w by (cases ?x; cases "fst ?x") auto
  from checked_in_and_declined [OF plan p who parse w x] show ?thesis by (simp add: plan p w x)
qed

definition rates :: "uuid \<Rightarrow> rate_request" where
  "rates u = \<lparr>rg_meetup = ''m'', rg_rater = u, rg_rated = ''h'', rg_score = 5\<rparr>"

definition rater_env :: "char \<Rightarrow> create_env" where "rater_env c = sample_env (5 * hour) c"

definition two_rated :: "((int \<times> int) \<times> (int \<times> int)) option \<times> meetup_db" where
  "two_rated = (let (x, d1) = in_tx (rater_env CHR ''r'') 0 (rating_tx (rater_env CHR ''r'') (rates ''a'')) (party_db MCompleted);
      (y, d2) = in_tx (rater_env CHR ''s'') 0 (rating_tx (rater_env CHR ''s'') (rates ''b'')) d1 in
    (case (x, y) of (Inr a, Inr b) \<Rightarrow> Some (a, b) | _ \<Rightarrow> None, d2))"

definition host_account :: "auth_env \<times> auth_db" where
  "host_account = (\<lparr>ae_now = 0, ae_parse = sample_parse, ae_sha = (\<lambda>s. s), ae_user_id = ''n'', ae_token_id = ''t'', ae_raw = ''w'',
       ae_code = ''c''\<rparr>,
     \<lparr>ad_users = [new_user_row ''h'' 0], ad_identities = [], ad_tokens = [], ad_codes = [], ad_budgets = [], ad_companies = [],
       ad_claims = [], ad_deleted = []\<rparr>)"

theorem late_stamp_keeps_old_count_witness:
  "case two_rated of (None, _) \<Rightarrow> False
   | (Some (x, y), d2) \<Rightarrow> (\<exists>q. get_user_by_id ''h'' (fold deliver_rating
         [(fst host_account, rating_updated (later 7) ''h'' x), (fst host_account, rating_updated (later 6) ''h'' y)] (snd host_account)) = Some q \<and>
       us_rating_count q = 1 \<and> length (rating_scores ''h'' d2) = 2)"
proof -
  let ?r = "rater_env CHR ''r''" and ?s = "rater_env CHR ''s''"
  let ?x = "in_tx ?r 0 (rating_tx ?r (rates ''a'')) (party_db MCompleted)"
  let ?y = "in_tx ?s 0 (rating_tx ?s (rates ''b'')) (snd ?x)"
  have ok: "fst two_rated \<noteq> None" and one: "map_option (snd \<circ> fst) (fst two_rated) = Some 1"
    and args: "rg_rated (rates ''a'') = ''h''" "rg_rated (rates ''b'') = ''h''" "em_parse ?r ''h'' = Some ''h''" "em_parse ?s ''h'' = Some ''h''"
    and order: "ts (em_now (later 6)) < ts (em_now (later 7))"
    and ae: "ae_parse (fst host_account) ''h'' = Some ''h''" by code_simp+
  have row: "get_user_by_id ''h'' (snd host_account) = Some (new_user_row ''h'' 0)" "us_rating_at (new_user_row ''h'' 0) = None"
    by (simp_all add: host_account_def get_user_by_id_def new_user_row_def)
  obtain a d1 where x: "?x = (a, d1)" by (cases ?x)
  obtain b d2 where y: "in_tx ?s 0 (rating_tx ?s (rates ''b'')) d1 = (b, d2)" by (cases "in_tx ?s 0 (rating_tx ?s (rates ''b'')) d1")
  from ok obtain f g where ab: "a = Inr f" "b = Inr g" by (auto simp: two_rated_def x y split: sum.splits)
  then have two: "two_rated = (Some (f, g), d2)" by (simp add: two_rated_def x y)
  from one have f: "snd f = 1" unfolding two by simp
  from late_stamp_keeps_old_count [OF x [unfolded ab] y [unfolded ab] args order disjI1 [OF refl] row ae ae] f
  show ?thesis unfolding two by (auto simp: i32_def)
qed

end
