(* ===== verification/Meetup_Handlers.thy ===== *)
theory Meetup_Handlers
  imports Meetup_Samples
begin

text \<open>
  The handlers of the module are runs of the steps: what they read first, the transaction they open and what they
  still do after its commit are single steps, between which steps of other calls may come.
\<close>

definition runs :: "(string \<Rightarrow> uuid option) \<Rightarrow> world \<Rightarrow> meetup_db \<Rightarrow> bool" where
  "runs parse w db \<longleftrightarrow> (\<exists>w'. (meetup_step parse)\<^sup>*\<^sup>* w w' \<and> w_db w' = db)"

lemma runs_idle: "runs parse w (w_db w)"
  unfolding runs_def by blast

lemma runs_then:
  assumes "runs parse w db" "\<And>v. w_db v = db \<Longrightarrow> runs parse v db'"
  shows "runs parse w db'"
proof -
  from assms(1) obtain v where v: "(meetup_step parse)\<^sup>*\<^sup>* w v" "w_db v = db" by (auto simp: runs_def)
  from assms(2) [OF v(2)] obtain x where "(meetup_step parse)\<^sup>*\<^sup>* v x" "w_db x = db'" by (auto simp: runs_def)
  with v(1) show ?thesis unfolding runs_def by (blast intro: rtranclp_trans)
qed

lemma runs_aside:
  assumes "core_of db = core_of (w_db w)"
  shows "runs parse w db"
  unfolding runs_def
  by (intro exI [of _ "w\<lparr>w_db := db\<rparr>"] conjI r_into_rtranclp meetup_step.aside assms) simp

lemma runs_write: "writes e (w_reads w) (w_db w) db \<Longrightarrow> env_ok parse e \<Longrightarrow> runs parse w db"
  unfolding runs_def
  by (intro exI [of _ "after_write (em_now e) db w"] conjI r_into_rtranclp meetup_step.act) (simp_all add: after_write_def)

lemma runs_join:
  assumes "join_plan e r (w_db w) = Inr m" "env_ok parse e"
  shows "runs parse w (snd (in_tx e n (join_tx e r m) (w_db w)))"
proof -
  let ?v = "w\<lparr>w_reads := (r, m) # w_reads w\<rparr>"
  have "meetup_step parse w ?v" using assms by (rule meetup_step.look)
  moreover have "runs parse ?v (snd (in_tx e n (join_tx e r m) (w_db ?v)))"
    by (intro runs_write [OF writes.joins] assms(2)) simp
  ultimately show ?thesis unfolding runs_def by (auto intro: converse_rtranclp_into_rtranclp)
qed

lemma ensure_core: "core_of (snd (safety_ensure_exists e m u db)) = core_of db"
  by (auto simp: safety_ensure_exists_def ensure_safety_state_def core_of_def split: sum.splits if_splits)

lemma after_creation_core: "core_of (after_creation e r m db) = core_of db"
proof -
  let ?f = "\<lambda>t. res_bind (queue_notification e (cr_host r) ''safety_checklist'' ''Review your safety checklist''
         (''Review the safety checklist for your new '' @ display_name (m_intent m) @ '' meetup'')
         [(''meetup_id'', m_id m)] t) (\<lambda>t. Inr ((), t))"
  have "core_of (snd (in_tx e 1 ?f d)) = core_of d" for d
    by (rule in_tx_cases [of e 1 ?f d]) (auto simp: quiet_def dest!: quiet_queue)
  then show ?thesis by (simp add: after_creation_def ensure_core)
qed

text \<open>What each handler leaves behind, as the transaction it opened.\<close>

lemma request_to_join_db: "snd (request_to_join e r db) =
    (case join_plan e r db of Inl _ \<Rightarrow> db | Inr m \<Rightarrow> snd (in_tx e 0 (join_tx e r m) db))"
  by (auto simp: request_to_join_def split: sum.splits prod.splits)

lemma withdraw_db: "snd (withdraw_request_handler e r db) = (case withdraw_plan e r db of Inl _ \<Rightarrow> db
    | Inr (pending, m) \<Rightarrow> if pending then snd (requests_cancel_pending e (wr_request r) (wr_requester r) db)
        else snd (in_tx e 0 (withdraw_tx e r m) db))"
  by (auto simp: withdraw_request_handler_def split: sum.splits prod.splits bool.splits)

lemma respond_core: "core_of (snd (respond_to_request e r db)) = core_of (case respond_plan e r db of Inl _ \<Rightarrow> db
    | Inr m \<Rightarrow> if rr_accept r then snd (in_tx e 0 (accept_tx e r m) db) else snd (in_tx e 0 (reject_tx e r m) db))"
  by (auto simp: respond_to_request_def Let_def ensure_core split: sum.splits prod.splits)

lemma cancel_db: "snd (cancel_meetup e n i host w db) = (case cancel_plan e i host (trim_space w) db of Inl _ \<Rightarrow> db
    | Inr m \<Rightarrow> snd (in_tx e n (meetups_cancel e i (trim_space w) host (cancel_notify e (trim_space w) m)) db))"
  by (auto simp: cancel_meetup_def Let_def split: sum.splits prod.splits)

lemma close_db: "snd (close_meetup e i host db) = snd (in_tx e 0 (meetups_close e i host (queue_meetup_closed e)) db)"
  by (auto simp: close_meetup_def split: sum.splits prod.splits)

lemma sweep_db: "snd (auto_close_sweep e n db) = snd (in_tx e n (auto_close_tx e) db)"
  "snd (notify_starting_soon_sweep e n db) = snd (in_tx e n (starting_soon_tx e) db)"
  by (auto simp: auto_close_sweep_def notify_starting_soon_sweep_def split: sum.splits prod.splits)

lemma create_charged_core:
  "core_of (snd (snd (create_charged e ch r hold (s, db)))) = core_of (snd (in_tx e 0
     (meetups_create e r (label_for_creation e r) (hash_if_keyed (cr_key r) (creation_request_hash e r)) hold
       (schedule_guard e (cr_host r) (cr_start r) (cr_end r) [])) db))"
  unfolding create_charged_def prod.case Let_def
  by (rule prod.exhaust [of "in_tx e 0 (meetups_create e r (label_for_creation e r)
       (hash_if_keyed (cr_key r) (creation_request_hash e r)) hold (schedule_guard e (cr_host r) (cr_start r) (cr_end r) [])) db"])
    (simp add: after_creation_core split: sum.splits create_failure.splits)

lemma create_db:
  "snd (snd (create_meetup e ch r (s, db))) = db \<or>
   (\<exists>hold s'. snd (snd (create_meetup e ch r (s, db))) = snd (snd (create_charged e ch r hold (s', db))))"
  unfolding create_meetup_def by (auto split: option.splits sum.splits prod.splits)

lemma runs_create:
  assumes "env_ok parse e"
  shows "runs parse w (snd (snd (create_meetup e ch r (s, w_db w))))"
  using create_db [of e ch r s "w_db w"]
proof (elim disjE exE)
  fix hold s' assume eq: "snd (snd (create_meetup e ch r (s, w_db w))) = snd (snd (create_charged e ch r hold (s', w_db w)))"
  show ?thesis unfolding eq
    by (rule runs_then [OF runs_write [OF writes.creates [of e "w_reads w" "w_db w" 0 r "label_for_creation e r"
          "hash_if_keyed (cr_key r) (creation_request_hash e r)" hold] assms]])
      (intro runs_aside, simp add: create_charged_core)
qed (simp add: runs_idle)

lemma runs_cancel: "env_ok parse e \<Longrightarrow> runs parse w (snd (cancel_meetup e n i host x (w_db w)))"
  unfolding cancel_db by (auto split: sum.splits intro: runs_idle runs_write writes.cancels)

lemma runs_cancel_hosted: "env_ok parse e \<Longrightarrow> runs parse w (snd (cancel_hosted e user n is (w_db w)))"
proof (induction "is" arbitrary: n w)
  case (Cons i "is")
  let ?r = "cancel_meetup e n i user deleted_host_cancel_reason (w_db w)"
  have "snd (cancel_hosted e user n (i # is) (w_db w)) = snd ?r \<or>
      snd (cancel_hosted e user n (i # is) (w_db w)) = snd (cancel_hosted e user (Suc n) is (snd ?r))"
    by (cases ?r; cases "fst ?r") auto
  then show ?case
    using runs_then [OF runs_cancel [OF Cons.prems, where w = w]] runs_cancel [OF Cons.prems, of w] Cons.IH [OF Cons.prems] by metis
qed (simp add: runs_idle)

lemma user_deleted_db:
  "snd (meetups_handle_user_deleted e user db) = db \<or> (\<exists>ids. let d = snd (cancel_hosted e user 1 ids db) in
     snd (meetups_handle_user_deleted e user db) = d \<or> snd (meetups_handle_user_deleted e user db) = snd (in_tx e 0 (purge_user e user) d))"
proof (cases "parse_id e ''user'' user")
  case (Inr u)
  let ?ids = "list_live_hosted_meetup_ids u (ts (em_now e)) db"
  obtain r d where d: "cancel_hosted e user 1 ?ids db = (r, d)" by fastforce
  obtain q d' where d': "in_tx e 0 (purge_user e user) d = (q, d')" by fastforce
  have "snd (meetups_handle_user_deleted e user db) = d \<or> snd (meetups_handle_user_deleted e user db) = d'"
    unfolding meetups_handle_user_deleted_def by (simp add: Inr d [unfolded One_nat_def] d' Let_def split: option.splits sum.splits)
  with d d' show ?thesis unfolding Let_def by (metis snd_conv)
qed (simp add: meetups_handle_user_deleted_def)

lemma runs_user_deleted:
  assumes "env_ok parse e"
  shows "runs parse w (snd (meetups_handle_user_deleted e user (w_db w)))"
  using user_deleted_db [of e user "w_db w"]
proof (elim disjE exE)
  fix ids
  let ?d = "snd (cancel_hosted e user 1 ids (w_db w))"
  assume "let d = ?d in snd (meetups_handle_user_deleted e user (w_db w)) = d \<or>
    snd (meetups_handle_user_deleted e user (w_db w)) = snd (in_tx e 0 (purge_user e user) d)"
  moreover have "runs parse w (snd (in_tx e 0 (purge_user e user) ?d))"
    by (rule runs_then [OF runs_cancel_hosted [OF assms]], erule subst) (rule runs_write [OF writes.purges assms])
  ultimately show ?thesis using runs_cancel_hosted [OF assms, of w user 1 ids] by (auto simp: Let_def)
qed (simp add: runs_idle)

lemma runs_to_join: "env_ok parse e \<Longrightarrow> runs parse w (snd (request_to_join e r (w_db w)))"
  unfolding request_to_join_db by (auto split: sum.splits intro: runs_idle runs_join)

lemma runs_withdraw: "env_ok parse e \<Longrightarrow> runs parse w (snd (withdraw_request_handler e q (w_db w)))"
  unfolding withdraw_db by (auto split: sum.splits intro: runs_idle runs_write writes.withdraws writes.takes_back)

lemma runs_respond:
  assumes "env_ok parse e"
  shows "runs parse w (snd (respond_to_request e a (w_db w)))"
proof -
  have "runs parse w (case respond_plan e a (w_db w) of Inl _ \<Rightarrow> w_db w
      | Inr m \<Rightarrow> if rr_accept a then snd (in_tx e 0 (accept_tx e a m) (w_db w)) else snd (in_tx e 0 (reject_tx e a m) (w_db w)))"
    using assms by (auto split: sum.splits intro: runs_idle runs_write writes.accepts writes.rejects)
  then show ?thesis by (rule runs_then) (intro runs_aside, simp add: respond_core)
qed

lemma runs_tick:
  assumes "env_ok parse e"
  shows "runs parse w (lifecycle_tick e (w_db w))"
  unfolding lifecycle_tick_def sweep_db
  by (rule runs_then [OF runs_write [OF writes.reminds assms]], erule subst) (rule runs_write [OF writes.sweeps assms])

text \<open>
  C8. Every handler of the module is a run of its steps: whatever it answers, the database a join, a withdrawal, an answer,
  a creation with whatever charger, a cancellation, a closing, a tick of the sweeps or the end of an account leaves is
  one that steps reach, so all that holds of reachable states holds after any handler.
\<close>

theorem handlers_take_steps:
  assumes "env_ok parse e"
  shows "runs parse w (snd (request_to_join e r (w_db w))) \<and> runs parse w (snd (withdraw_request_handler e q (w_db w))) \<and>
    runs parse w (snd (respond_to_request e a (w_db w))) \<and> runs parse w (snd (snd (create_meetup e ch c (s, w_db w)))) \<and>
    runs parse w (snd (cancel_meetup e n i host x (w_db w))) \<and> runs parse w (snd (close_meetup e i host (w_db w))) \<and>
    runs parse w (lifecycle_tick e (w_db w)) \<and> runs parse w (snd (meetups_handle_user_deleted e user (w_db w)))"
  unfolding close_db
  using assms by (intro conjI runs_to_join runs_withdraw runs_respond runs_create runs_cancel runs_tick runs_user_deleted
      runs_write [OF writes.closes])

lemma handlers_take_steps_witness: "runs sample_parse sample_full (lifecycle_tick (sample_env 9500 CHR ''z'') (w_db sample_full))"
proof -
  have "env_ok sample_parse (sample_env 9500 CHR ''z'')" by (rule sample_env_ok) simp
  from handlers_take_steps [OF this, of sample_full, THEN conjunct2, THEN conjunct2, THEN conjunct2, THEN conjunct2,
      THEN conjunct2, THEN conjunct2, THEN conjunct1] show ?thesis .
qed

end
