(* ===== verification/Wiring.thy ===== *)
theory Wiring
  imports Store_Props Meetup_Handlers
begin

text \<open>
  \<open>cmd/monolith/wiring.go\<close>: the seam between the meetup and the billing module. \<open>creationCharger\<close> makes the billing
  service the charger a creation asks; \<open>meetupBillingProcess\<close> is the delivery of the events the meetup module queued.
  Every call of the service reads its own clock and draws its own ids, so each has surroundings of its own. The
  client's and the configured version are parameters, as in \<open>quote_for_creation\<close>.
\<close>

section \<open>The charger\<close>

definition creation_quote_of :: "quote \<Rightarrow> creation_quote" where
  "creation_quote_of q = \<lparr>cq_cost = qu_cost q, cq_price_version = qu_price_version q, cq_covered = qu_covered_by_plan q,
     cq_max_capacity = max_capacity (qu_limits q), cq_max_days = max_advance_days (qu_limits q)\<rparr>"

definition creation_charger :: "string \<Rightarrow> string \<Rightarrow> 'raw env \<Rightarrow> 'raw env \<Rightarrow> 'raw env \<Rightarrow> service charger" where
  "creation_charger app_version min_version eq er el =
     \<lparr>ch_quote = (\<lambda>host trust capacity start sv.
        case quote_for_creation app_version min_version eq \<lparr>ca_user = host, ca_trust_level = trust\<rparr> capacity start sv of
          (Inl err, sv) \<Rightarrow> (Inl err, sv)
        | (Inr q, sv) \<Rightarrow> (Inr (creation_quote_of q), sv)),
      ch_reserve = (\<lambda>host q key. service_reserve er host
        \<lparr>rq_cost = cq_cost q, rq_price_version = cq_price_version q, rq_covered_by_plan = cq_covered q\<rparr> key),
      ch_release = service_release el\<rparr>"

section \<open>The delivery of a billing event\<close>

text \<open>The event crosses as JSON and comes back as it was, a missing end as the zero time.\<close>

definition ended_of :: "billing_event \<Rightarrow> meetup_ended" where
  "ended_of b = \<lparr>me_hold_id = be_hold b, me_meetup_id = be_meetup b,
     me_event = (if be_topic b = topic_cancelled then event_cancelled else event_closed),
     me_accepted_count = be_accepted b, me_window_start = be_start b,
     me_ended_at = (case be_ended b of None \<Rightarrow> zero_time | Some t \<Rightarrow> t)\<rparr>"

definition meetup_billing_process :: "'raw env \<Rightarrow> billing_event \<Rightarrow> service \<Rightarrow> (go_error + unit) \<times> service" where
  "meetup_billing_process e b sv =
     (if be_topic b = topic_created then
        (case service_capture e (be_hold b) (be_meetup b) sv of (Inl err, sv) \<Rightarrow> (Inl err, sv) | (Inr _, sv) \<Rightarrow> (Inr (), sv))
      else if be_topic b = topic_cancelled \<or> be_topic b = topic_closed then handle_meetup_ended e (ended_of b) sv
      else (Inl (PkgError (''unknown meetup billing topic \"'' @ be_topic b @ ''\"'')), sv))"

section \<open>What a reservation leaves behind\<close>

definition holds_for :: "bool \<Rightarrow> int \<Rightarrow> string \<Rightarrow> uuid \<Rightarrow> string \<Rightarrow> hold \<Rightarrow> bool" where
  "holds_for covered cost key user hid x \<longleftrightarrow> hold_id x = hid \<and> hold_user x = user \<and> hold_key x = key \<and>
     hold_state x \<noteq> StateReleased \<and>
     (if covered then hold_kind x = HoldPlanQuota \<and> hold_amount x = 1 else hold_kind x = HoldCredits \<and> hold_amount x = cost)"

lemma reserve_new_leaves:
  assumes "reserve_new i t = Inr (v, t')" "ri_kind i = (if covered then HoldPlanQuota else HoldCredits)"
  shows "\<exists>x \<in> set (Billing_Db.holds (tx_db t')). holds_for covered (ri_amount i) (ri_key i) (tx_user t) (hv_id v) x"
proof -
  from assms(1) obtain amount period t3 u t4 db where
    K: "reserve_kind i t = Inr (amount, period, t3)" and d: "draw_uuid t3 = (u, t4)" and
    I: "insert_hold (new_hold i u amount period t4) (tx_db t4) = Inr db" and
    v: "v = hold_from_row (new_hold i u amount period t4)" and
    W: "write_entry ((no_entry RHold (''hold:'' @ u))\<lparr>
        en_held_delta := (if ri_kind i = HoldCredits then ri_amount i else 0),
        en_hold := Some u, en_ref_type := hold_kind_text (ri_kind i)\<rparr>) (t4\<lparr>tx_db := db\<rparr>) = Inr t'"
    by (auto simp: reserve_new_def Let_def draw_uuid_def simp del: append.simps split: if_splits)
  let ?x = "new_hold i u amount period t4"
  have "?x \<in> set (Billing_Db.holds (tx_db t'))"
    using I write_entry_frame(2) [OF W] by (auto simp: insert_hold_def split: if_splits)
  moreover have "tx_user t4 = tx_user t \<and> amount = (if covered then 1 else ri_amount i)"
    using K d assms(2) by (auto simp: reserve_kind_def draw_uuid_def adjust_quota_def Let_def split: if_splits option.splits)
  ultimately show ?thesis
    using assms(2) by (intro bexI [of _ ?x]) (auto simp: holds_for_def new_hold_def v hold_from_row_def)
qed

lemma reserve_leaves:
  assumes R: "reserve i t = Inr (v, t')" and k: "ri_kind i = (if covered then HoldPlanQuota else HoldCredits)"
  shows "\<exists>x \<in> set (Billing_Db.holds (tx_db t')). holds_for covered (ri_amount i) (ri_key i) (tx_user t) (hv_id v) x"
proof (cases "get_hold_by_key (tx_user t) (ri_key i) (tx_db t)")
  case None
  with R reserve_new_leaves [OF _ k] show ?thesis by (simp add: reserve_def)
next
  case (Some x)
  then have x: "x \<in> set (Billing_Db.holds (tx_db t))" "hold_user x = tx_user t" "hold_key x = ri_key i"
    by (auto simp: get_hold_by_key_def dest!: find_SomeD)
  from Some R obtain w t1 where w: "reuse_hold x i t = Inr (w, t1)"
    and r: "(case w of Some v \<Rightarrow> Inr (v, t1) | None \<Rightarrow> reserve_new i t1) = Inr (v, t')"
    by (auto simp: reserve_def)
  show ?thesis
  proof (cases w)
    case None
    with w have "tx_user t1 = tx_user t" by (auto simp: reuse_hold_def Let_def split: if_splits)
    with None r reserve_new_leaves [of i t1, OF _ k] show ?thesis by simp
  next
    case (Some y)
    with w r have y: "t' = t" "v = hold_from_row x" "hold_kind x = ri_kind i" "hold_state x \<noteq> StateReleased"
      "hold_amount x = (if ri_kind i = HoldPlanQuota then 1 else ri_amount i)"
      by (auto simp: reuse_hold_def Let_def split: if_splits)
    with x k show ?thesis by (intro bexI [of _ x]) (auto simp: holds_for_def hold_from_row_def split: if_splits)
  qed
qed

lemma decay_steps_user: "decay_steps l p js r t = Inr (r', t') \<Longrightarrow> tx_user t' = tx_user t"
  by (induction l p js r t rule: decay_steps.induct) (fastforce simp: Let_def split: if_splits dest: write_entry_frame(4))+

lemma apply_due_lots_user: "apply_due_lots ls t = Inr t' \<Longrightarrow> tx_user t' = tx_user t"
proof (induction ls t rule: apply_due_lots.induct)
  case (2 l ls t)
  then obtain r t1 t2 where d: "decay_lot l t = Inr (r, t1)" "expire_lot l r t1 = Inr t2" "apply_due_lots ls t2 = Inr t'" by auto
  then have "tx_user t1 = tx_user t" "tx_user t2 = tx_user t1"
    by (auto simp: decay_lot_def expire_lot_def Let_def split: if_splits dest!: decay_steps_user write_entry_frame(4))
  with 2 d show ?case by auto
qed simp

lemma service_reserve_leaves:
  assumes "service_reserve e user req key sv = (Inr hid, sv')" "\<not> (rq_cost req = 0 \<and> \<not> rq_covered_by_plan req)"
  shows "\<exists>u. e_parse e user = Some u \<and>
    (\<exists>x \<in> set (Billing_Db.holds (sv_db sv')). holds_for (rq_covered_by_plan req) (rq_cost req) key u hid x)"
proof -
  from assms obtain u r sv1 a where u: "parse_user e user = Inr u"
    and d: "service_do e 1 user (reserve_tx u r req key) sv1 = (a, sv')" and a: "answered a = Inr hid"
    unfolding service_reserve_def Let_def by (auto split: if_splits sum.splits prod.splits)
  obtain v w t t1 t2 where v: "e_parse e user = Some v" and t: "t = open_tx (e_now e) (e_uuids e 1) w v (ensure_wallet v (sv_db sv1))"
    "apply_due t = Inr t1" "reserve_tx u r req key t1 = Inr (hid, t2)" and f: "\<exists>t3. flush t2 = Inr t3 \<and> sv' = sv1\<lparr>sv_db := tx_db t3\<rparr>"
    by (rule service_do_Inr [OF d a])
  from t(3) obtain i h where i: "reserve_input_for u r req key t1 = Inr i" "reserve i t1 = Inr (h, t2)" "hid = hv_id h"
    by (auto simp: reserve_tx_def)
  have k: "ri_kind i = (if rq_covered_by_plan req then HoldPlanQuota else HoldCredits)" "ri_amount i = rq_cost req" "ri_key i = key"
    using i(1) by (auto simp: reserve_input_for_def Let_def split: if_splits option.splits)
  have "tx_user t1 = v" using apply_due_lots_user [OF t(2) [unfolded apply_due_def]] t(1) by (simp add: open_tx_def)
  moreover from f obtain t3 where "flush t2 = Inr t3" "sv_db sv' = tx_db t3" by auto
  then have "Billing_Db.holds (sv_db sv') = Billing_Db.holds (tx_db t2)"
    by (auto simp: flush_def update_wallet_def insert_billing_outbox_def split: if_splits)
  ultimately show ?thesis using reserve_leaves [OF i(2) k(1)] k v i(3) by auto
qed

section \<open>A meetup costs what its host agreed to\<close>

lemma in_tx_shape:
  assumes "in_tx e n f db = (res, db')"
  shows "(\<exists>err. res = Inl err \<and> db' = db) \<or> (\<exists>x t'. res = Inr x \<and> f (start_tx e n db) = Inr (x, t') \<and> db' = x_db t')"
  using assms by (cases "f (start_tx e n db)") (auto simp: in_tx_def run_tx_def start_tx_def)

lemma after_creation_meetups: "meetups (after_creation e r m db) = meetups db"
  using after_creation_core [of e r m db] by (simp add: core_of_def)

lemma create_charged_adds:
  assumes "create_charged e ch r hold (s, db) = (answer, s', db')" "meetups db' \<noteq> meetups db"
  shows "s' = s \<and> (\<exists>m. meetups db' = meetups db @ [m] \<and> m_hold m = (if hold = [] then None else em_parse e hold))"
proof -
  let ?f = "meetups_create e r (label_for_creation e r) (hash_if_keyed (cr_key r) (creation_request_hash e r)) hold
      (schedule_guard e (cr_host r) (cr_start r) (cr_end r) [])"
  obtain res d where t: "in_tx e 0 ?f db = (res, d)" by fastforce
  with in_tx_shape [OF t] assms obtain m t' where m: "res = Inr m" "?f (start_tx e 0 db) = Inr (m, t')" "d = x_db t'" "s' = s"
      "db' = after_creation e r m d"
    by (auto simp: create_charged_def Let_def split: create_failure.splits if_splits)
  have "meetups (x_db t') = meetups db @ [m] \<and> m_hold m = (if hold = [] then None else em_parse e hold)"
  proof (rule create_tx_inserts [OF m(2)])
    fix host h i t1
    assume row: "m = new_meetup_row r (label_for_creation e r) (hash_if_keyed (cr_key r) (creation_request_hash e r)) h host i (x_now (start_tx e 0 db))"
      "h = (if hold = [] then None else em_parse e hold)" and b: "enqueue_billing_events topic_created [m]
        (set_db t1 ((x_db (start_tx e 0 db))\<lparr>meetups := meetups (x_db (start_tx e 0 db)) @ [m]\<rparr>)) = Inr t'"
    from billing_events_core [OF b] have "meetups (x_db t') = meetups db @ [m]" by (simp add: core_of_def)
    moreover from row have "m_hold m = (if hold = [] then None else em_parse e hold)" by (simp add: new_meetup_row_def)
    ultimately show ?thesis ..
  qed
  with m after_creation_meetups [of e r m d] show ?thesis by auto
qed

section \<open>A first meetup, paid with welcome credits\<close>

definition sample_billing :: "char \<Rightarrow> unit env" where
  "sample_billing c = \<lparr>e_now = 1000, e_parse = sample_parse, e_uuids = (\<lambda>k n. c # replicate k CHR ''t'' @ replicate n CHR ''i''),
     e_rules_row = Inr (1, ()), e_decode = (\<lambda>_. Inr first_document), e_fingerprint = Some (\<lambda>u. Inr (''f'' @ u))\<rparr>"

definition sample_hosting :: "(go_error + meetup_view) \<times> service \<times> meetup_db" where
  "sample_hosting = create_meetup (Meetup_Samples.sample_env 1000 CHR ''a'')
     (Some (creation_charger ''9.9.9'' ''1.0.0'' (sample_billing CHR ''q'') (sample_billing CHR ''r'') (sample_billing CHR ''l'')))
     (sample_creation\<lparr>cr_expected := Some 10\<rparr>) (new_service [] [], empty_meetup_db)"

lemma sample_hosting_adds: "meetups (snd (snd sample_hosting)) \<noteq> meetups empty_meetup_db"
  by code_simp

text \<open>
  C6. When a creation adds its meetup with the billing service as its charger, it was charged as agreed. The quote of that
  very call was either free, and then the meetup carries no hold, or exactly the cost the client sent as the one it
  expects; and then billing keeps a live hold of the host under the creation's key, for one meetup of the plan or for
  exactly that cost, and the meetup carries that hold's id.
\<close>

theorem charged_as_agreed:
  assumes "create_meetup e (Some (creation_charger app_version min_version eq er el)) r (sv, db) = (answer, sv', db')"
    and "meetups db' \<noteq> meetups db"
  shows "\<exists>q m. fst (quote_for_creation app_version min_version eq \<lparr>ca_user = cr_host r, ca_trust_level = cr_trust r\<rparr>
        (cr_capacity r) (cr_start r) sv) = Inr q \<and> meetups db' = meetups db @ [m] \<and>
      (if 0 < qu_cost q \<or> qu_covered_by_plan q
       then cr_expected r = Some (qu_cost q) \<and> (\<exists>u hid. e_parse er (cr_host r) = Some u \<and>
         (\<exists>x \<in> set (Billing_Db.holds (sv_db sv')). holds_for (qu_covered_by_plan q) (qu_cost q) (reserve_key e r) u hid x) \<and>
         m_hold m = (if hid = [] then None else em_parse e hid))
       else m_hold m = None)"
proof -
  let ?ch = "creation_charger app_version min_version eq er el"
  let ?quote = "quote_for_creation app_version min_version eq \<lparr>ca_user = cr_host r, ca_trust_level = cr_trust r\<rparr>
      (cr_capacity r) (cr_start r) sv"
  from assms obtain cq s1 hold s2 where q: "creation_limits (Some ?ch) r sv = (Inr cq, s1)"
    and c: "check_expected_cost r cq = None" and h: "reserve_for_creation e (Some ?ch) r cq s1 = (Inr hold, s2)"
    and m: "create_charged e (Some ?ch) r hold (s2, db) = (answer, sv', db')"
    unfolding create_meetup_def by (auto split: option.splits sum.splits prod.splits)
  from create_charged_adds [OF m assms(2)] obtain y where y: "sv' = s2" "meetups db' = meetups db @ [y]"
    "m_hold y = (if hold = [] then None else em_parse e hold)" by blast
  from q obtain q where q: "fst ?quote = Inr q" "cq = creation_quote_of q"
    by (auto simp: creation_limits_def creation_charger_def split: sum.splits prod.splits)
  have ch: "charged cq \<longleftrightarrow> 0 < qu_cost q \<or> qu_covered_by_plan q" by (simp add: charged_def q(2) creation_quote_of_def)
  show ?thesis
  proof (cases "charged cq")
    case False
    with h have "hold = []" by (simp add: reserve_for_creation_def)
    with y q(1) False ch show ?thesis by auto
  next
    case True
    with c have "cr_expected r = Some (qu_cost q)"
      by (auto simp: check_expected_cost_def q(2) creation_quote_of_def split: if_splits)
    moreover from h True have h: "service_reserve er (cr_host r) \<lparr>rq_cost = qu_cost q, rq_price_version = qu_price_version q,
        rq_covered_by_plan = qu_covered_by_plan q\<rparr> (reserve_key e r) s1 = (Inr hold, s2)"
      by (simp add: reserve_for_creation_def creation_charger_def q(2) creation_quote_of_def)
    moreover from True ch have "\<not> (qu_cost q = 0 \<and> \<not> qu_covered_by_plan q)" by auto
    with service_reserve_leaves [OF h] obtain u where "e_parse er (cr_host r) = Some u"
      "\<exists>x \<in> set (Billing_Db.holds (sv_db s2)). holds_for (qu_covered_by_plan q) (qu_cost q) (reserve_key e r) u hold x" by auto
    ultimately show ?thesis
      using True [unfolded ch] y q(1) by (intro exI [of _ q] exI [of _ y]) (simp, blast)
  qed
qed

lemma charged_as_agreed_witness:
  "\<exists>m u hid. meetups (snd (snd sample_hosting)) = [m] \<and> m_hold m = (if hid = [] then None else sample_parse hid) \<and>
     (\<exists>x \<in> set (Billing_Db.holds (sv_db (fst (snd sample_hosting)))). holds_for False 10 ''meetup-create:n'' u hid x)"
proof -
  let ?e = "Meetup_Samples.sample_env 1000 CHR ''a''" and ?r = "sample_creation\<lparr>cr_expected := Some 10\<rparr>"
  let ?quote = "quote_for_creation ''9.9.9'' ''1.0.0'' (sample_billing CHR ''q'')
      \<lparr>ca_user = cr_host ?r, ca_trust_level = cr_trust ?r\<rparr> (cr_capacity ?r) (cr_start ?r) (new_service [] [])"
  have c: "create_meetup ?e (Some (creation_charger ''9.9.9'' ''1.0.0'' (sample_billing CHR ''q'') (sample_billing CHR ''r'')
      (sample_billing CHR ''l''))) ?r (new_service [] [], empty_meetup_db) =
      (fst sample_hosting, fst (snd sample_hosting), snd (snd sample_hosting))"
    by (simp add: sample_hosting_def)
  have quote: "case fst ?quote of Inl _ \<Rightarrow> False | Inr q \<Rightarrow> qu_cost q = 10 \<and> \<not> qu_covered_by_plan q" by code_simp
  from charged_as_agreed [OF c sample_hosting_adds] obtain q m where q: "fst ?quote = Inr q"
    and m: "meetups (snd (snd sample_hosting)) = meetups empty_meetup_db @ [m]"
    and h: "if 0 < qu_cost q \<or> qu_covered_by_plan q
       then cr_expected ?r = Some (qu_cost q) \<and> (\<exists>u hid. e_parse (sample_billing CHR ''r'') (cr_host ?r) = Some u \<and>
         (\<exists>x \<in> set (Billing_Db.holds (sv_db (fst (snd sample_hosting)))).
            holds_for (qu_covered_by_plan q) (qu_cost q) (reserve_key ?e ?r) u hid x) \<and>
         m_hold m = (if hid = [] then None else em_parse ?e hid))
       else m_hold m = None" by (elim exE conjE)
  have "reserve_key ?e ?r = ''meetup-create:n''" "em_parse ?e = sample_parse" "meetups empty_meetup_db = []"
    by (simp_all add: reserve_key_def sample_creation_def Meetup_Samples.sample_env_def empty_meetup_db_def)
  moreover have free: "qu_cost q = 10" "\<not> qu_covered_by_plan q" using quote unfolding q sum.case by blast+
  moreover have "0 < qu_cost q \<or> qu_covered_by_plan q" unfolding free(1) by simp
  then obtain u hid where "m_hold m = (if hid = [] then None else em_parse ?e hid)"
    "\<exists>x \<in> set (Billing_Db.holds (sv_db (fst (snd sample_hosting)))). holds_for (qu_covered_by_plan q) (qu_cost q) (reserve_key ?e ?r) u hid x"
    using h by (simp only: if_True) (elim exE conjE)
  ultimately show ?thesis using m by - (rule exI [of _ m], rule exI [of _ u], rule exI [of _ hid], simp only: append_Nil simp_thms)
qed

section \<open>The seam keeps the books\<close>

lemma get_quote_cost:
  assumes "get_quote e ca capacity start sv = (Inr q, sv')"
  shows "in_i64 (qu_cost q)"
proof -
  from assms obtain u r n sv1 a where d: "service_do e n (ca_user ca) (quote_tx u r capacity start) sv1 = (a, sv')" "answered a = Inr q"
    unfolding get_quote_def Let_def by (auto split: sum.splits prod.splits)
  show ?thesis
    by (rule service_do_Inr [OF d])
      (auto simp: quote_tx_def price_quote_def Let_def bd_total_def in_i64_def i64_def split: sum.splits if_splits)
qed

lemma serve_reachable:
  assumes "service_reachable (raw :: 'raw itself) sv" "decodes_i64 (e :: 'raw env)" "legal_request q" "sv' = serve e q sv"
  shows "service_reachable raw sv'"
  using assms by (auto intro: service_reachable.request)

lemma charger_quote_reachable:
  assumes "service_reachable (raw :: 'raw itself) sv" "decodes_i64 (eq :: 'raw env)"
    and "ch_quote (creation_charger app_version min_version eq er el) host trust capacity start sv = (a, sv')"
  shows "service_reachable raw sv' \<and> (\<forall>cq. a = Inr cq \<longrightarrow> in_i64 (cq_cost cq))"
proof -
  obtain g sv1 where g: "get_quote eq \<lparr>ca_user = host, ca_trust_level = trust\<rparr> capacity start sv = (g, sv1)" by fastforce
  have "service_reachable raw sv1"
    by (rule serve_reachable [OF assms(1,2), of "RqQuote \<lparr>ca_user = host, ca_trust_level = trust\<rparr> capacity start"]) (simp_all add: g)
  moreover have "sv' = sv1 \<and> (\<forall>cq. a = Inr cq \<longrightarrow> (\<exists>q. g = Inr q \<and> cq = creation_quote_of q))"
    using assms(3) g by (auto simp: creation_charger_def quote_for_creation_def split: sum.splits if_splits)
  ultimately show ?thesis using g get_quote_cost by (auto simp: creation_quote_of_def)
qed

lemma charger_reserve_reachable:
  assumes "service_reachable (raw :: 'raw itself) sv" "decodes_i64 (er :: 'raw env)" "in_i64 (cq_cost q)"
    and "ch_reserve (creation_charger app_version min_version eq er el) host q key sv = (a, sv')"
  shows "service_reachable raw sv'"
  by (rule serve_reachable [OF assms(1,2), of "RqReserve host \<lparr>rq_cost = cq_cost q, rq_price_version = cq_price_version q,
        rq_covered_by_plan = cq_covered q\<rparr> key"])
    (use assms(3,4) in \<open>simp_all add: creation_charger_def\<close>)

lemma charger_release_reachable:
  assumes "service_reachable (raw :: 'raw itself) sv" "decodes_i64 (el :: 'raw env)"
  shows "service_reachable raw (snd (ch_release (creation_charger app_version min_version eq er el) hold sv))"
  by (rule serve_reachable [OF assms, of "RqRelease hold"]) (simp_all add: creation_charger_def)

text \<open>
  A creation with the billing service as its charger, and a delivery, are runs of the two modules' own steps: what holds
  of their reachable states holds after either.
\<close>

lemma seam_takes_steps:
  assumes "service_reachable (raw :: 'raw itself) sv" "decodes_i64 (eq :: 'raw env)" "decodes_i64 er" "decodes_i64 el" "env_ok parse e"
  shows "service_reachable raw (fst (snd (create_meetup e (Some (creation_charger app_version min_version eq er el)) r (sv, w_db w))))"
    and "runs parse w (snd (snd (create_meetup e (Some (creation_charger app_version min_version eq er el)) r (sv, w_db w))))"
    and "service_reachable raw (snd (meetup_billing_process eq b sv))"
proof -
  let ?ch = "creation_charger app_version min_version eq er el"
  have rel: "service_reachable raw (release_after_failed_create e (Some ?ch) r hold db s)"
    if "service_reachable raw s" for hold db s
    using charger_release_reachable [OF that assms(4)] that by (auto simp: release_after_failed_create_def)
  have created: "service_reachable raw (fst (snd (create_charged e (Some ?ch) r hold (s, db))))"
    if "service_reachable raw s" for hold s db
    using that rel by (auto simp: create_charged_def Let_def split: prod.splits sum.splits create_failure.splits)
  have reserved: "service_reachable raw s'"
    if "service_reachable raw s" "in_i64 (cq_cost cq)" "reserve_for_creation e (Some ?ch) r cq s = (a, s')" for s cq a s'
    using that charger_reserve_reachable [OF that(1) assms(3) that(2)] by (auto simp: reserve_for_creation_def split: if_splits)
  have quoted: "service_reachable raw s' \<and> (\<forall>cq. a = Inr cq \<longrightarrow> in_i64 (cq_cost cq))"
    if "creation_limits (Some ?ch) r sv = (a, s')" for a s'
    by (rule charger_quote_reachable [OF assms(1,2)]) (use that in \<open>simp add: creation_limits_def\<close>)
  show "service_reachable raw (fst (snd (create_meetup e (Some ?ch) r (sv, w_db w))))"
    using assms(1) created
    by (auto simp: create_meetup_def split: option.splits sum.splits prod.splits dest!: quoted dest: reserved)
  show "runs parse w (snd (snd (create_meetup e (Some ?ch) r (sv, w_db w))))" by (rule runs_create [OF assms(5)])
  have "snd (meetup_billing_process eq b sv) \<in> {sv, serve eq (RqCapture (be_hold b) (be_meetup b)) sv, serve eq (RqMeetupEnded (ended_of b)) sv}"
    by (auto simp: meetup_billing_process_def split: sum.splits prod.splits)
  moreover have "service_reachable raw (serve eq q sv)" if "legal_request q" for q
    by (rule serve_reachable [OF assms(1,2) that refl])
  ultimately show "service_reachable raw (snd (meetup_billing_process eq b sv))"
    using assms(1) by (elim insertE) (simp_all del: serve.simps)
qed

end
