(* ===== verification/Auth_Sessions.thy ===== *)
theory Auth_Sessions
  imports Auth_Accounts
begin

text \<open>
  Refresh tokens: the repository (\<open>refresh_tokens_postgres.go\<close>), the handlers (\<open>service_session.go\<close>) and the hourly
  sweep (\<open>sweeper.go\<close>). A \<open>refresh_worker\<close> is a \<open>RefreshSession\<close> call between two of its statements, so that calls
  can be interleaved.
\<close>

definition refresh_token_ttl :: duration where "refresh_token_ttl = 30 * (24 * hour)"

definition refresh_token_retention :: duration where "refresh_token_retention = 7 * (24 * hour)"

definition refresh_token_sweep_batch_size :: int where "refresh_token_sweep_batch_size = 1000"

definition refresh_token_sweep_max_batches :: nat where "refresh_token_sweep_max_batches = 50"

section \<open>The repository\<close>

definition tokens_create ::
  "'z auth_env_scheme \<Rightarrow> string \<Rightarrow> string \<Rightarrow> instant \<Rightarrow> auth_db \<Rightarrow> (go_error + refresh_row) \<times> auth_db" where
  "tokens_create e user h expires db =
     (case parse_user_id e user of
        Inl err \<Rightarrow> (Inl err, db)
      | Inr u \<Rightarrow>
          (case create_refresh_token (ae_token_id e) u h expires (ts (ae_now e)) db of
             Inl err \<Rightarrow> (Inl (Wrap ''repository: create refresh token'' [pg_error_value err]), db)
           | Inr (r, db') \<Rightarrow> (Inr r, db')))"

definition tokens_find_by_hash :: "string \<Rightarrow> auth_db \<Rightarrow> go_error + refresh_row" where
  "tokens_find_by_hash h db =
     (case get_refresh_token_by_hash h db of
        None \<Rightarrow> Inl (wrap1 ''repository: refresh token'' ErrNotFound) | Some r \<Rightarrow> Inr r)"

definition err_already_rotated :: string where
  "err_already_rotated = ''repository: refresh token already rotated''"

text \<open>One transaction, which takes effect when the parent is claimed: the child goes in first, and out again unless the claim succeeds.\<close>

definition tokens_rotate ::
  "'z auth_env_scheme \<Rightarrow> uuid \<Rightarrow> string \<Rightarrow> instant \<Rightarrow> auth_db \<Rightarrow> (go_error + uuid) \<times> auth_db" where
  "tokens_rotate e old h expires db =
     (case get_refresh_token_by_id old db of
        None \<Rightarrow> (Inl (wrap1 (''repository: refresh token \"'' @ old @ ''\"'') ErrNotFound), db)
      | Some r \<Rightarrow>
          (case create_refresh_token (ae_token_id e) (rt_user r) h expires (ts (ae_now e)) db of
             Inl err \<Rightarrow> (Inl (Wrap ''repository: create replacement refresh token'' [pg_error_value err]), db)
           | Inr (child, db1) \<Rightarrow>
               (case mark_refresh_token_replaced old (rt_id child) (ts (ae_now e)) db1 of
                  None \<Rightarrow> (Inl (PkgError err_already_rotated), db)
                | Some (_, db2) \<Rightarrow> (Inr (rt_id child), db2))))"

definition tokens_revoke :: "'z auth_env_scheme \<Rightarrow> string \<Rightarrow> auth_db \<Rightarrow> auth_db" where
  "tokens_revoke e h db = revoke_refresh_token_by_hash h (ts (ae_now e)) db"

definition tokens_revoke_all_for_user :: "'z auth_env_scheme \<Rightarrow> uuid \<Rightarrow> auth_db \<Rightarrow> int \<times> auth_db" where
  "tokens_revoke_all_for_user e u db = revoke_all_refresh_tokens_for_user u (ts (ae_now e)) db"

definition tokens_delete_expired ::
  "'z auth_env_scheme \<Rightarrow> duration \<Rightarrow> int \<Rightarrow> auth_db \<Rightarrow> (go_error + int) \<times> auth_db" where
  "tokens_delete_expired e retention batch db =
     (if batch \<le> 0 then (Inl (wrap1 ''repository: refresh token sweep batch size must be positive'' ErrInvalidInput), db)
      else (case delete_expired_refresh_tokens (ts (time_add (ae_now e) (- retention))) batch db of (n, db') \<Rightarrow> (Inr n, db')))"

section \<open>Sessions\<close>

record session_result =
  sr_user :: uuid
  sr_token :: string
  sr_new :: bool
  sr_name :: string
  sr_photo :: string
  sr_trust :: int
  sr_suggested :: string

definition session_for :: "user_row \<Rightarrow> string \<Rightarrow> session_result" where
  "session_for u raw = \<lparr>sr_user = us_id u, sr_token = raw, sr_new = False, sr_name = us_full_name u,
     sr_photo = text_or_empty (us_photo u), sr_trust = us_trust u, sr_suggested = []\<rparr>"

definition issue_session :: "'z auth_env_scheme \<Rightarrow> user_row \<Rightarrow> auth_db \<Rightarrow> (go_error + session_result) \<times> auth_db" where
  "issue_session e u db =
     (case tokens_create e (us_id u) (ae_sha e (ae_raw e)) (time_add (ae_now e) refresh_token_ttl) db of
        (Inl err, db') \<Rightarrow> (Inl err, db')
      | (Inr _, db') \<Rightarrow> (Inr (session_for u (ae_raw e)), db'))"

definition finish_signup_session ::
  "'z auth_env_scheme \<Rightarrow> user_row \<Rightarrow> bool \<Rightarrow> auth_db \<Rightarrow> (go_error + session_result) \<times> auth_db" where
  "finish_signup_session e u is_new db =
     (case issue_session e u db of
        (Inl err, db') \<Rightarrow> (Inl err, db')
      | (Inr s, db') \<Rightarrow> (Inr (s\<lparr>sr_new := is_new\<rparr>), db'))"

definition err_token_used :: go_error where
  "err_token_used = wrap1 ''refresh token already used'' ErrUnauthorized"

definition handle_refresh_token_reuse :: "'z auth_env_scheme \<Rightarrow> uuid \<Rightarrow> auth_db \<Rightarrow> go_error \<times> auth_db" where
  "handle_refresh_token_reuse e u db = (case tokens_revoke_all_for_user e u db of (_, db') \<Rightarrow> (err_token_used, db'))"

definition refresh_session ::
  "'z auth_env_scheme \<Rightarrow> string \<Rightarrow> auth_db \<Rightarrow> (go_error + session_result) \<times> auth_db" where
  "refresh_session e token db =
     (case tokens_find_by_hash (ae_sha e token) db of
        Inl err \<Rightarrow>
          (Inl (if errors_is err ErrNotFound then wrap1 ''invalid refresh token'' ErrUnauthorized else err), db)
      | Inr old \<Rightarrow>
          if rt_revoked old \<noteq> None \<or> rt_replaced old \<noteq> None
          then (case handle_refresh_token_reuse e (rt_user old) db of (err, db') \<Rightarrow> (Inl err, db'))
          else if time_after (ae_now e) (rt_expires old)
          then (Inl (wrap1 ''refresh token expired'' ErrUnauthorized), db)
          else (case users_get_by_id e (rt_user old) db of
                  Inl err \<Rightarrow> (Inl err, db)
                | Inr u \<Rightarrow>
                    (case tokens_rotate e (rt_id old) (ae_sha e (ae_raw e)) (time_add (ae_now e) refresh_token_ttl) db of
                       (Inl err, db') \<Rightarrow>
                         if errors_is_pkg err err_already_rotated
                         then (case handle_refresh_token_reuse e (rt_user old) db' of (err, db'') \<Rightarrow> (Inl err, db''))
                         else (Inl err, db')
                     | (Inr _, db') \<Rightarrow> (Inr (session_for u (ae_raw e)), db'))))"

definition revoke_session :: "'z auth_env_scheme \<Rightarrow> string \<Rightarrow> auth_db \<Rightarrow> auth_db" where
  "revoke_session e token db = tokens_revoke e (ae_sha e token) db"

section \<open>A refresh between its statements\<close>

datatype refresh_worker =
    RwFind string
  | RwUser refresh_row
  | RwRotate refresh_row user_row
  | RwReuse uuid
  | RwRevoking uuid "uuid list"
  | RwDone "go_error + session_result"

fun refresh_worker_step :: "'z auth_env_scheme \<Rightarrow> refresh_worker \<Rightarrow> auth_db \<Rightarrow> refresh_worker \<times> auth_db" where
  "refresh_worker_step e (RwFind token) db =
     (case tokens_find_by_hash (ae_sha e token) db of
        Inl err \<Rightarrow>
          (RwDone (Inl (if errors_is err ErrNotFound then wrap1 ''invalid refresh token'' ErrUnauthorized else err)), db)
      | Inr old \<Rightarrow>
          (if rt_revoked old \<noteq> None \<or> rt_replaced old \<noteq> None then RwReuse (rt_user old)
           else if time_after (ae_now e) (rt_expires old)
           then RwDone (Inl (wrap1 ''refresh token expired'' ErrUnauthorized))
           else RwUser old, db))"
| "refresh_worker_step e (RwUser old) db =
     (case users_get_by_id e (rt_user old) db of Inl err \<Rightarrow> RwDone (Inl err) | Inr u \<Rightarrow> RwRotate old u, db)"
| "refresh_worker_step e (RwRotate old u) db =
     (case tokens_rotate e (rt_id old) (ae_sha e (ae_raw e)) (time_add (ae_now e) refresh_token_ttl) db of
        (Inl err, db') \<Rightarrow>
          (if errors_is_pkg err err_already_rotated then RwReuse (rt_user old) else RwDone (Inl err), db')
      | (Inr _, db') \<Rightarrow> (RwDone (Inr (session_for u (ae_raw e))), db'))"
| "refresh_worker_step e (RwReuse u) db = (RwRevoking u (sessions_of u db), db)"
| "refresh_worker_step e (RwRevoking u seen) db =
     (RwDone (Inl err_token_used), snd (revoke_sessions u seen (ts (ae_now e)) db))"
| "refresh_worker_step e (RwDone r) db = (RwDone r, db)"

section \<open>The sweep\<close>

text \<open>The loops stop after \<open>refresh_token_sweep_max_batches\<close> passes; the token sweep stops at an empty pass, the guest sweep at a short one.\<close>

fun sweep_tokens :: "nat \<Rightarrow> 'z auth_env_scheme \<Rightarrow> int \<Rightarrow> auth_db \<Rightarrow> (int \<times> go_error option) \<times> auth_db" where
  "sweep_tokens 0 e so_far db = ((so_far, None), db)"
| "sweep_tokens (Suc n) e so_far db =
     (case tokens_delete_expired e refresh_token_retention refresh_token_sweep_batch_size db of
        (Inl err, db') \<Rightarrow> ((so_far, Some err), db')
      | (Inr deleted, db') \<Rightarrow>
          if deleted = 0 then ((so_far, None), db') else sweep_tokens n e (so_far + deleted) db')"

definition sweep_expired_refresh_tokens :: "'z auth_env_scheme \<Rightarrow> auth_db \<Rightarrow> (int \<times> go_error option) \<times> auth_db" where
  "sweep_expired_refresh_tokens e db = sweep_tokens refresh_token_sweep_max_batches e 0 db"

fun sweep_guests :: "nat \<Rightarrow> 'z auth_env_scheme \<Rightarrow> int \<Rightarrow> auth_db \<Rightarrow> (int \<times> go_error option) \<times> auth_db" where
  "sweep_guests 0 e so_far db = ((so_far, None), db)"
| "sweep_guests (Suc n) e so_far db =
     (case users_delete_abandoned_guests e refresh_token_retention refresh_token_sweep_batch_size db of
        (Inl err, db') \<Rightarrow> ((so_far, Some err), db')
      | (Inr deleted, db') \<Rightarrow>
          if deleted < refresh_token_sweep_batch_size then ((so_far + deleted, None), db') else sweep_guests n e (so_far + deleted) db')"

definition sweep_abandoned_guests :: "'z auth_env_scheme \<Rightarrow> auth_db \<Rightarrow> (int \<times> go_error option) \<times> auth_db" where
  "sweep_abandoned_guests e db = sweep_guests refresh_token_sweep_max_batches e 0 db"

end
