(* ===== verification/Auth_Session_Facts.thy ===== *)
theory Auth_Session_Facts
  imports Auth_Sessions
begin

text \<open>
  Refresh calls under interleaving: any number of \<open>RefreshSession\<close> calls, log-ins, log-outs, sweeps and account
  deletions run against one token table, a statement at a time. The log records what happened to tokens in the table,
  and \<open>sw_exchanges\<close> what the calls answered: each token a call gave a new session for, the id of the new one, and how
  long the log was when the exchange was made.
\<close>

section \<open>The interleaving\<close>

datatype session_event = Issued uuid uuid | Rotated uuid uuid | Killed uuid

record session_world =
  sw_db :: auth_db
  sw_workers :: "refresh_worker list"
  sw_used :: "uuid set"
  sw_log :: "session_event list"
  sw_exchanges :: "(uuid \<times> uuid \<times> nat) list"

definition row_events :: "refresh_row list \<Rightarrow> refresh_row \<Rightarrow> session_event list" where
  "row_events after r =
     (case find (\<lambda>x. rt_id x = rt_id r) after of
        None \<Rightarrow> []
      | Some x \<Rightarrow> (if rt_revoked r = None \<and> rt_revoked x \<noteq> None then [Killed (rt_id r)] else []) @
          (case rt_replaced x of Some c \<Rightarrow> if rt_replaced r = None then [Rotated (rt_id r) c] else [] | None \<Rightarrow> []))"

definition token_events :: "auth_db \<Rightarrow> auth_db \<Rightarrow> session_event list" where
  "token_events db db' = concat (map (row_events (ad_tokens db')) (ad_tokens db))"

fun exchange_of :: "uuid \<Rightarrow> nat \<Rightarrow> refresh_worker \<Rightarrow> refresh_worker \<Rightarrow> (uuid \<times> uuid \<times> nat) list" where
  "exchange_of i n (RwRotate old u) (RwDone (Inr s)) = [(rt_id old, i, n)]"
| "exchange_of i n x y = []"

text \<open>Ids come from \<open>gen_random_uuid()\<close>: a step that may insert a token draws one never drawn before.\<close>

inductive session_step :: "session_world \<Rightarrow> session_world \<Rightarrow> bool" where
  login: "issue_session (e :: auth_env) u (sw_db w) = (Inr s, db) \<Longrightarrow> parse_user_id e (us_id u) = Inr v \<Longrightarrow>
    ae_token_id e \<notin> sw_used w \<Longrightarrow>
    session_step w (w\<lparr>sw_db := db, sw_used := insert (ae_token_id e) (sw_used w),
      sw_log := sw_log w @ [Issued v (ae_token_id e)]\<rparr>)"
| call: "session_step w (w\<lparr>sw_workers := sw_workers w @ [RwFind token]\<rparr>)"
| advance: "k < length (sw_workers w) \<Longrightarrow> refresh_worker_step (e :: auth_env) (sw_workers w ! k) (sw_db w) = (x, db) \<Longrightarrow>
    ae_token_id e \<notin> sw_used w \<Longrightarrow>
    session_step w (w\<lparr>sw_db := db, sw_workers := (sw_workers w)[k := x], sw_used := insert (ae_token_id e) (sw_used w),
      sw_log := sw_log w @ token_events (sw_db w) db,
      sw_exchanges := sw_exchanges w @ exchange_of (ae_token_id e) (length (sw_log w)) (sw_workers w ! k) x\<rparr>)"
| logout: "revoke_session (e :: auth_env) token (sw_db w) = db \<Longrightarrow>
    session_step w (w\<lparr>sw_db := db, sw_log := sw_log w @ token_events (sw_db w) db\<rparr>)"
| sweep: "tokens_delete_expired (e :: auth_env) retention batch (sw_db w) = (r, db) \<Longrightarrow>
    session_step w (w\<lparr>sw_db := db, sw_log := sw_log w @ token_events (sw_db w) db\<rparr>)"
| removed: "session_step w (w\<lparr>sw_db := drop_users us (sw_db w), sw_log := sw_log w @ token_events (sw_db w) (drop_users us (sw_db w))\<rparr>)"
| joined: "users_create (e :: auth_env) nu (sw_db w) = (r, db) \<Longrightarrow> session_step w (w\<lparr>sw_db := db\<rparr>)"

inductive session_reachable :: "session_world \<Rightarrow> bool" where
  start: "ad_tokens db = [] \<Longrightarrow> session_reachable \<lparr>sw_db = db, sw_workers = [], sw_used = {}, sw_log = [], sw_exchanges = []\<rparr>"
| step: "session_reachable w \<Longrightarrow> session_step w w' \<Longrightarrow> session_reachable w'"

definition live_token :: "uuid \<Rightarrow> refresh_row \<Rightarrow> bool" where
  "live_token u r \<longleftrightarrow> rt_user r = u \<and> rt_revoked r = None \<and> rt_replaced r = None"

definition live_sessions :: "uuid \<Rightarrow> auth_db \<Rightarrow> int" where
  "live_sessions u db = sum_where (live_token u) (\<lambda>_. 1) (ad_tokens db)"

fun issued_to :: "uuid \<Rightarrow> session_event \<Rightarrow> bool" where
  "issued_to u (Issued v i) = (u = v)"
| "issued_to u _ = False"

definition logins :: "uuid \<Rightarrow> session_event list \<Rightarrow> int" where
  "logins u log = sum_where (issued_to u) (\<lambda>_. 1) log"

section \<open>What one statement does to the table\<close>

text \<open>
  \<open>token_move\<close>: rows go or are revoked, or one row is rotated and its child appended.
\<close>

definition ages :: "refresh_row \<Rightarrow> refresh_row \<Rightarrow> bool" where
  "ages r x \<longleftrightarrow> rt_id x = rt_id r \<and> rt_user x = rt_user r \<and> rt_replaced x = rt_replaced r \<and>
     (rt_revoked r \<noteq> None \<longrightarrow> rt_revoked x = rt_revoked r)"

inductive token_move :: "uuid \<Rightarrow> refresh_row list \<Rightarrow> refresh_row list \<Rightarrow> bool" for i where
  fade: "list_all2 ages (filter p rows) rows' \<Longrightarrow>
    (\<And>r x. r \<in> set rows \<Longrightarrow> p r \<Longrightarrow> x \<in> set rows \<Longrightarrow> \<not> p x \<Longrightarrow> rt_replaced r \<noteq> Some (rt_id x)) \<Longrightarrow> token_move i rows rows'"
| rotate: "r \<in> set rows \<Longrightarrow> rt_revoked r = None \<Longrightarrow> rt_replaced r = None \<Longrightarrow> rt_id c = i \<Longrightarrow> rt_user c = rt_user r \<Longrightarrow>
    rt_revoked c = None \<Longrightarrow> rt_replaced c = None \<Longrightarrow> i \<notin> rt_id ` set rows \<Longrightarrow> distinct (map rt_id rows) \<Longrightarrow>
    token_move i rows (update_where (\<lambda>x. rt_id x = rt_id r) (\<lambda>x. x\<lparr>rt_replaced := Some i\<rparr>) rows @ [c])"

lemma ages_refl [simp]: "ages r r"
  by (simp add: ages_def)

lemma ages_revoked: "ages r (if rt_revoked r = None \<and> q r then r\<lparr>rt_revoked := Some t\<rparr> else r)"
  by (simp add: ages_def)

lemma fade_update:
  assumes "\<And>r. p r \<Longrightarrow> rt_revoked r = None"
  shows "token_move i rows (update_where p (\<lambda>r. r\<lparr>rt_revoked := Some t\<rparr>) rows)"
proof (rule token_move.fade [where p = "\<lambda>_. True"])
  show "list_all2 ages (filter (\<lambda>_. True) rows) (update_where p (\<lambda>r. r\<lparr>rt_revoked := Some t\<rparr>) rows)"
    using assms by (auto simp: update_where_def list_all2_conv_all_nth ages_def)
qed simp

lemma fade_filter:
  assumes "\<And>r x. r \<in> set rows \<Longrightarrow> p r \<Longrightarrow> x \<in> set rows \<Longrightarrow> \<not> p x \<Longrightarrow> rt_replaced r \<noteq> Some (rt_id x)"
  shows "token_move i rows (filter p rows)"
  using assms by (intro token_move.fade [where p = p] list_all2_refl) auto

lemma fade_refl: "token_move i rows rows"
  using fade_filter [of rows "\<lambda>_. True" i] by simp

text \<open>A token and the one that replaced it belong to one user, and the table keeps both or drops the older first.\<close>

definition tokens_ok :: "refresh_row list \<Rightarrow> bool" where
  "tokens_ok rows \<longleftrightarrow> distinct (map rt_id rows) \<and>
     (\<forall>r \<in> set rows. \<forall>c. rt_replaced r = Some c \<longrightarrow> (\<exists>x \<in> set rows. rt_id x = c \<and> rt_user x = rt_user r))"

lemma tokens_okD:
  "tokens_ok rows \<Longrightarrow> distinct (map rt_id rows)"
  "tokens_ok rows \<Longrightarrow> r \<in> set rows \<Longrightarrow> rt_replaced r = Some c \<Longrightarrow> \<exists>x \<in> set rows. rt_id x = c \<and> rt_user x = rt_user r"
  by (auto simp: tokens_ok_def)

lemma tokens_create_cases:
  assumes "create_refresh_token i u h ex now db = Inr (r, db')"
  shows "r = \<lparr>rt_id = i, rt_user = u, rt_hash = h, rt_issued = now, rt_expires = ts ex, rt_revoked = None, rt_replaced = None\<rparr>"
    "db' = db\<lparr>ad_tokens := ad_tokens db @ [r]\<rparr>" "i \<notin> rt_id ` set (ad_tokens db)"
  using assms by (auto simp: create_refresh_token_def Let_def list_ex_iff split: if_splits)

lemma issue_move:
  assumes "issue_session e u db = (Inr s, db')" "parse_user_id e (us_id u) = Inr v"
  shows "\<exists>r. ad_tokens db' = ad_tokens db @ [r] \<and> rt_id r = ae_token_id e \<and> rt_user r = v \<and> rt_revoked r = None \<and>
    rt_replaced r = None \<and> ae_token_id e \<notin> rt_id ` set (ad_tokens db)"
proof -
  from assms obtain r where
    "create_refresh_token (ae_token_id e) v (ae_sha e (ae_raw e)) (time_add (ae_now e) refresh_token_ttl) (ts (ae_now e)) db = Inr (r, db')"
    by (auto simp: issue_session_def tokens_create_def split: sum.splits prod.splits)
  from tokens_create_cases [OF this] show ?thesis by auto
qed

lemma rotate_cases:
  assumes "tokens_rotate e old h ex db = (Inr i, db')"
  obtains p c db1 q where "get_refresh_token_by_id old db = Some p"
    "create_refresh_token (ae_token_id e) (rt_user p) h ex (ts (ae_now e)) db = Inr (c, db1)"
    "mark_refresh_token_replaced old (rt_id c) (ts (ae_now e)) db1 = Some (q, db')"
  using assms by (auto simp: tokens_rotate_def split: option.splits sum.splits prod.splits)

lemma rotate_move:
  assumes "tokens_rotate e old h ex db = (r, db')" "distinct (map rt_id (ad_tokens db))"
  shows "token_move (ae_token_id e) (ad_tokens db) (ad_tokens db')"
proof (cases r)
  case (Inl err)
  with assms(1) have "db' = db" by (auto simp: tokens_rotate_def split: option.splits sum.splits prod.splits)
  then show ?thesis by (simp add: fade_refl)
next
  case (Inr i)
  let ?now = "ts (ae_now e)" and ?i = "ae_token_id e"
  from rotate_cases [OF assms(1) [unfolded Inr]] obtain p c db1 q where p: "get_refresh_token_by_id old db = Some p"
    and c: "create_refresh_token ?i (rt_user p) h ex ?now db = Inr (c, db1)"
    and q: "mark_refresh_token_replaced old (rt_id c) ?now db1 = Some (q, db')" .
  note cc = tokens_create_cases [OF c]
  let ?rows = "ad_tokens db"
  from q obtain x where x: "find (replaceable old ?now) (?rows @ [c]) = Some x"
    and db': "ad_tokens db' = update_where (replaceable old ?now) (\<lambda>x. x\<lparr>rt_replaced := Some ?i\<rparr>) (?rows @ [c])"
    using cc by (auto simp: mark_refresh_token_replaced_def split: option.splits)
  from p have p': "p \<in> set ?rows" "rt_id p = old" by (auto simp: get_refresh_token_by_id_def dest!: find_SomeD)
  with cc have other: "rt_id c \<noteq> old" by force
  from find_SomeD [OF x] other have xr: "x \<in> set ?rows" "replaceable old ?now x" by (auto simp: replaceable_def)
  with p' assms(2) have "x = p" by (auto simp: replaceable_def dest: distinct_key_unique)
  with xr have live: "rt_revoked p = None" "rt_replaced p = None" and rp: "replaceable old ?now p" by (auto simp: replaceable_def)
  have "replaceable old ?now r \<longleftrightarrow> rt_id r = rt_id p" if "r \<in> set ?rows" for r
    using that p' rp assms(2) by (auto simp: replaceable_def dest: distinct_key_unique)
  then have "update_where (replaceable old ?now) (\<lambda>x. x\<lparr>rt_replaced := Some ?i\<rparr>) ?rows =
    update_where (\<lambda>x. rt_id x = rt_id p) (\<lambda>x. x\<lparr>rt_replaced := Some ?i\<rparr>) ?rows"
    by (simp add: update_where_def)
  moreover from other have "\<not> replaceable old ?now c" by (simp add: replaceable_def)
  ultimately have "ad_tokens db' = update_where (\<lambda>x. rt_id x = rt_id p) (\<lambda>x. x\<lparr>rt_replaced := Some ?i\<rparr>) ?rows @ [c]"
    using db' by (simp add: update_where_def)
  moreover have "token_move ?i ?rows (update_where (\<lambda>x. rt_id x = rt_id p) (\<lambda>x. x\<lparr>rt_replaced := Some ?i\<rparr>) ?rows @ [c])"
    using p' live cc assms(2) by (intro token_move.rotate) auto
  ultimately show ?thesis by simp
qed

lemma revoke_move: "token_move i (ad_tokens db) (ad_tokens (snd (revoke_sessions u seen now db)))"
  by (auto simp: revoke_sessions_def Let_def intro: fade_update)

lemma worker_move:
  assumes "refresh_worker_step e x db = (x', db')" "distinct (map rt_id (ad_tokens db))"
  shows "token_move (ae_token_id e) (ad_tokens db) (ad_tokens db')"
proof (cases x)
  case (RwRotate old u)
  with assms show ?thesis by (auto split: prod.splits sum.splits intro: rotate_move)
next
  case (RwRevoking u seen)
  with assms revoke_move show ?thesis by (metis prod.inject refresh_worker_step.simps(5))
qed (use assms fade_refl in \<open>auto split: sum.splits\<close>)

lemma sweep_move: "token_move i (ad_tokens db) (ad_tokens (snd (tokens_delete_expired e ret batch db)))"
proof -
  have "token_move i rows (filter (\<lambda>r. rt_id r \<notin> set (map rt_id (take n (filter (sweepable before rows) rows)))) rows)"
    for rows n before
    by (rule fade_filter) (fastforce simp: sweepable_def list_ex_iff dest: in_set_takeD)
  then show ?thesis
    by (auto simp: tokens_delete_expired_def delete_expired_refresh_tokens_def Let_def fade_refl split: prod.splits)
qed

lemma removed_move: "tokens_ok (ad_tokens db) \<Longrightarrow> token_move i (ad_tokens db) (ad_tokens (drop_users us db))"
  unfolding drop_users_def using tokens_okD(2) distinct_key_unique [OF tokens_okD(1)]
  by (auto intro!: fade_filter) metis

section \<open>The table keeps its shape\<close>

definition spent :: "refresh_row \<Rightarrow> bool" where
  "spent r \<longleftrightarrow> rt_revoked r \<noteq> None \<or> rt_replaced r \<noteq> None"

fun spent_by :: "session_event \<Rightarrow> uuid list" where
  "spent_by (Issued v i) = []"
| "spent_by (Rotated i c) = [i]"
| "spent_by (Killed i) = [i]"

definition spent_in :: "session_event list \<Rightarrow> uuid set" where
  "spent_in log = set (concat (map spent_by log))"

lemma spent_in_append: "spent_in (xs @ ys) = spent_in xs \<union> spent_in ys"
  by (auto simp: spent_in_def)

lemma spent_in_Issued [simp]: "spent_in [Issued v j] = {}"
  by (simp add: spent_in_def)

lemma ages_ids: "list_all2 ages xs ys \<Longrightarrow> map rt_id ys = map rt_id xs"
  by (induction rule: list_all2_induct) (auto simp: ages_def)

lemma aged: "list_all2 ages xs ys \<Longrightarrow> y \<in> set ys \<Longrightarrow> \<exists>x \<in> set xs. ages x y"
  by (induction rule: list_all2_induct) auto

lemma ages_onto: "list_all2 ages xs ys \<Longrightarrow> x \<in> set xs \<Longrightarrow> \<exists>y \<in> set ys. ages x y"
  by (induction rule: list_all2_induct) auto

lemma move_ids: "token_move i rows rows' \<Longrightarrow> rt_id ` set rows' \<subseteq> insert i (rt_id ` set rows)"
proof (induction rule: token_move.induct)
  case (fade p rows rows')
  from ages_ids [OF fade.hyps(1)] have "rt_id ` set rows' = rt_id ` set (filter p rows)" by (metis set_map)
  then show ?case by auto
qed (auto simp: set_update_where)

lemma move_spent:
  "token_move i rows rows' \<Longrightarrow> x \<in> set rows' \<Longrightarrow> rt_id x \<noteq> i \<Longrightarrow>
    \<exists>r \<in> set rows. rt_id r = rt_id x \<and> (spent r \<longrightarrow> spent x)"
proof (induction rule: token_move.induct)
  case (fade p rows rows')
  with aged obtain r where "r \<in> set (filter p rows)" "ages r x" by blast
  then show ?case by (auto simp: ages_def spent_def intro!: bexI [of _ r])
next
  case (rotate r rows c)
  then show ?case by (auto simp: set_update_where spent_def)
qed

lemma tokens_ok_issue:
  "tokens_ok rows \<Longrightarrow> rt_id r \<notin> rt_id ` set rows \<Longrightarrow> rt_replaced r = None \<Longrightarrow> tokens_ok (rows @ [r])"
  by (fastforce simp: tokens_ok_def)

lemma token_move_ok: "token_move i rows rows' \<Longrightarrow> tokens_ok rows \<Longrightarrow> tokens_ok rows'"
proof (induction rule: token_move.induct)
  case (fade p rows rows')
  have "\<exists>x \<in> set rows'. rt_id x = c \<and> rt_user x = rt_user y" if y: "y \<in> set rows'" "rt_replaced y = Some c" for y c
  proof -
    from aged [OF fade.hyps(1) y(1)] obtain r where r: "r \<in> set rows" "p r" "ages r y" by auto
    with y(2) tokens_okD(2) [OF fade.prems, of r c] obtain x where x: "x \<in> set rows" "rt_id x = c" "rt_user x = rt_user r"
      by (auto simp: ages_def)
    with fade.hyps(2) [OF r(1,2) x(1)] r(3) y(2) have "p x" by (auto simp: ages_def)
    with x ages_onto [OF fade.hyps(1), of x] r(3) show ?thesis by (auto simp: ages_def)
  qed
  moreover from ages_ids [OF fade.hyps(1)] tokens_okD(1) [OF fade.prems] have "distinct (map rt_id rows')"
    by (simp add: distinct_map_filter)
  ultimately show ?case by (simp add: tokens_ok_def)
next
  case (rotate r rows c)
  let ?rows = "update_where (\<lambda>x. rt_id x = rt_id r) (\<lambda>x. x\<lparr>rt_replaced := Some i\<rparr>) rows"
  have ids: "map rt_id ?rows = map rt_id rows" by (simp add: map_update_where)
  have keep: "\<exists>x \<in> set ?rows. rt_id x = rt_id y \<and> rt_user x = rt_user y" if "y \<in> set rows" for y
    using that by (intro bexI [of _ "if rt_id y = rt_id r then y\<lparr>rt_replaced := Some i\<rparr> else y"]) (auto simp: set_update_where)
  have "\<exists>x \<in> set (?rows @ [c]). rt_id x = d \<and> rt_user x = rt_user y"
    if y: "y \<in> set (?rows @ [c])" "rt_replaced y = Some d" for y d
  proof -
    consider "y = c" | z where "z \<in> set rows" "rt_id z = rt_id r" "y = z\<lparr>rt_replaced := Some i\<rparr>"
      | "y \<in> set rows" "rt_id y \<noteq> rt_id r" using y(1) by (auto simp: set_update_where)
    then show ?thesis
    proof cases
      case 1
      with rotate.hyps(7) y(2) show ?thesis by simp
    next
      case 2
      with rotate.hyps(1,9) have "z = r" by (auto dest: distinct_key_unique)
      with 2 rotate.hyps(4,5) y(2) show ?thesis by auto
    next
      case 3
      from tokens_okD(2) [OF rotate.prems 3(1) y(2)] keep show ?thesis by force
    qed
  qed
  with ids rotate.hyps(4,8,9) show ?case by (simp add: tokens_ok_def flip: ids set_map)
qed

section \<open>Live sessions\<close>

lemma sum_where_filter_le: "sum_where q (\<lambda>_. 1) (filter p rows) \<le> sum_where q (\<lambda>_. 1) rows"
  by (induction rows) auto

lemma live_aged: "list_all2 ages xs ys \<Longrightarrow> sum_where (live_token u) (\<lambda>_. 1) ys \<le> sum_where (live_token u) (\<lambda>_. 1) xs"
  by (induction rule: list_all2_induct) (auto simp: ages_def live_token_def)

lemma move_live: "token_move i rows rows' \<Longrightarrow> sum_where (live_token u) (\<lambda>_. 1) rows' \<le> sum_where (live_token u) (\<lambda>_. 1) rows"
proof (induction rule: token_move.induct)
  case (fade p rows rows')
  show ?case by (rule order_trans [OF live_aged [OF fade.hyps(1)] sum_where_filter_le])
next
  case (rotate r rows c)
  then show ?case by (simp add: sum_where_update_key live_token_def)
qed

section \<open>The world\<close>

lemma row_events_spent:
  assumes "distinct (map rt_id after)" "j \<in> spent_in (row_events after r)" "x \<in> set after" "rt_id x = j"
  shows "spent x"
proof -
  from assms(2) obtain y where y: "find (\<lambda>x. rt_id x = rt_id r) after = Some y"
    by (cases "find (\<lambda>x. rt_id x = rt_id r) after") (auto simp: row_events_def spent_in_def)
  with assms(2) have "rt_id r = j" "spent y"
    by (cases "rt_replaced y"; auto simp: row_events_def spent_in_def spent_def split: if_splits)+
  with assms y find_SomeD [OF y] show ?thesis by (auto dest: distinct_key_unique)
qed

lemma token_events_spent:
  assumes "distinct (map rt_id (ad_tokens db'))" "j \<in> spent_in (token_events db db')" "x \<in> set (ad_tokens db')" "rt_id x = j"
  shows "spent x"
proof -
  from assms(2) obtain r where "j \<in> spent_in (row_events (ad_tokens db') r)"
    by (auto simp: token_events_def spent_in_def)
  with assms row_events_spent show ?thesis by blast
qed

lemma token_events_ids: "spent_in (token_events db db') \<subseteq> rt_id ` set (ad_tokens db)"
  by (auto simp: token_events_def spent_in_def row_events_def split: option.splits if_splits)

lemma logins_append [simp]: "logins u (xs @ ys) = logins u xs + logins u ys"
  by (simp add: logins_def)

lemma token_events_logins [simp]: "logins u (token_events db db') = 0"
proof -
  have one: "logins u (row_events rows r) = 0" for rows r
    by (auto simp: row_events_def logins_def split: option.splits)
  have "logins u (concat (map (row_events rows) rs)) = 0" for rows rs
    by (induction rs) (simp_all add: one logins_def [of u "[]"])
  then show ?thesis by (simp add: token_events_def)
qed

definition world_ok :: "session_world \<Rightarrow> bool" where
  "world_ok w \<longleftrightarrow> tokens_ok (ad_tokens (sw_db w)) \<and> rt_id ` set (ad_tokens (sw_db w)) \<subseteq> sw_used w \<and>
     spent_in (sw_log w) \<subseteq> sw_used w \<and> (\<forall>u. live_sessions u (sw_db w) \<le> logins u (sw_log w)) \<and>
     (\<forall>x \<in> set (ad_tokens (sw_db w)). rt_id x \<in> spent_in (sw_log w) \<longrightarrow> spent x)"

lemma world_ok_move:
  assumes ok: "world_ok w" and move: "token_move i (ad_tokens (sw_db w)) (ad_tokens db)"
    and new: "i \<notin> sw_used w \<or> rt_id ` set (ad_tokens db) \<subseteq> rt_id ` set (ad_tokens (sw_db w))"
    and w': "sw_db w' = db" "sw_log w' = sw_log w @ token_events (sw_db w) db" "insert i (sw_used w) \<subseteq> sw_used w' \<or>
      rt_id ` set (ad_tokens db) \<subseteq> rt_id ` set (ad_tokens (sw_db w)) \<and> sw_used w \<subseteq> sw_used w'"
  shows "world_ok w'"
proof -
  let ?old = "ad_tokens (sw_db w)" and ?new = "ad_tokens db"
  from ok have ok': "tokens_ok ?old" "rt_id ` set ?old \<subseteq> sw_used w" "spent_in (sw_log w) \<subseteq> sw_used w"
    "\<And>u. live_sessions u (sw_db w) \<le> logins u (sw_log w)"
    "\<And>x. x \<in> set ?old \<Longrightarrow> rt_id x \<in> spent_in (sw_log w) \<Longrightarrow> spent x" by (auto simp: world_ok_def)
  have tok: "tokens_ok ?new" by (rule token_move_ok [OF move ok'(1)])
  have "spent x" if x: "x \<in> set ?new" "rt_id x \<in> spent_in (sw_log w @ token_events (sw_db w) db)" for x
  proof (cases "rt_id x \<in> spent_in (token_events (sw_db w) db)")
    case True
    with token_events_spent [OF tokens_okD(1) [OF tok]] x(1) show ?thesis by blast
  next
    case False
    with x(2) have old: "rt_id x \<in> spent_in (sw_log w)" by (simp add: spent_in_append)
    show ?thesis
    proof (cases "rt_id x = i")
      case False
      with move_spent [OF move x(1)] ok'(5) old show ?thesis by force
    next
      case True
      with old ok'(3) new x(1) have "rt_id x \<in> rt_id ` set ?old" "rt_id ` set ?new \<subseteq> rt_id ` set ?old" by auto
      from move show ?thesis
      proof (cases rule: token_move.cases)
        case (fade p)
        from aged [OF fade(1) x(1)] obtain r where r: "r \<in> set ?old" "ages r x" by auto
        from r(2) have "rt_id r = rt_id x" "spent r \<longrightarrow> spent x" by (auto simp: ages_def spent_def)
        with ok'(5) [OF r(1)] old show ?thesis by simp
      next
        case (rotate r c)
        with True \<open>rt_id x \<in> rt_id ` set ?old\<close> show ?thesis by auto
      qed
    qed
  qed
  moreover have "live_sessions u db \<le> logins u (sw_log w @ token_events (sw_db w) db)" for u
    using order_trans [OF move_live [OF move, of u] ok'(4) [of u, unfolded live_sessions_def]]
    by (simp add: live_sessions_def)
  moreover have "rt_id ` set ?new \<subseteq> sw_used w'" using move_ids [OF move] ok'(2) w'(3) by blast
  moreover have "spent_in (sw_log w') \<subseteq> sw_used w'"
  proof -
    from w'(3) have "sw_used w \<subseteq> sw_used w'" by blast
    moreover have "spent_in (token_events (sw_db w) db) \<subseteq> sw_used w"
      by (rule subset_trans [OF token_events_ids ok'(2)])
    ultimately show ?thesis using ok'(3) unfolding w'(2) spent_in_append by (meson Un_least subset_trans)
  qed
  ultimately show ?thesis using tok w' by (simp add: world_ok_def)
qed

lemma fade_ids: "list_all2 ages (filter p rows) rows' \<Longrightarrow> rt_id ` set rows' \<subseteq> rt_id ` set rows"
  using ages_ids by (metis filter_is_subset image_mono set_map)

lemma removed_ids: "rt_id ` set (ad_tokens (drop_users us db)) \<subseteq> rt_id ` set (ad_tokens db)"
  by (auto simp: drop_users_def)

lemma sweep_ids: "rt_id ` set (ad_tokens (snd (tokens_delete_expired e ret batch db))) \<subseteq> rt_id ` set (ad_tokens db)"
  by (auto simp: tokens_delete_expired_def delete_expired_refresh_tokens_def Let_def)

lemma logout_move:
  "token_move i (ad_tokens db) (ad_tokens (revoke_session e token db))"
  "rt_id ` set (ad_tokens (revoke_session e token db)) \<subseteq> rt_id ` set (ad_tokens db)"
  by (auto simp: revoke_session_def tokens_revoke_def revoke_refresh_token_by_hash_def set_update_where intro: fade_update)

lemma users_create_tokens: "users_create e nu db = (r, db') \<Longrightarrow> ad_tokens db' = ad_tokens db"
  by (auto simp: users_create_def create_user_def Let_def split: sum.splits pg_error.splits option.splits prod.splits)

lemma world_ok_login:
  assumes "world_ok w" "ad_tokens db = ad_tokens (sw_db w) @ [r]" "rt_id r \<notin> sw_used w" "rt_user r = v" "rt_revoked r = None"
    "rt_replaced r = None"
  shows "world_ok (w\<lparr>sw_db := db, sw_used := insert (rt_id r) (sw_used w), sw_log := sw_log w @ [Issued v (rt_id r)]\<rparr>)"
proof -
  from assms(1,3) have new: "rt_id r \<notin> rt_id ` set (ad_tokens (sw_db w))" "rt_id r \<notin> spent_in (sw_log w)"
    by (auto simp: world_ok_def)
  have "live_sessions u db \<le> logins u (sw_log w @ [Issued v (rt_id r)])" for u
  proof -
    from assms(1) have "live_sessions u (sw_db w) \<le> logins u (sw_log w)" by (simp add: world_ok_def)
    with assms(2,4) show ?thesis by (cases "u = v") (simp_all add: live_sessions_def logins_def live_token_def)
  qed
  with assms(1,2,6) new show ?thesis
    by (auto simp: world_ok_def spent_in_append tokens_ok_issue)
qed

lemma world_ok_step:
  assumes "session_step w w'" "world_ok w"
  shows "world_ok w'"
  using assms
proof (cases rule: session_step.cases)
  case (login e u s db v)
  from issue_move [OF login(2,3)] obtain r where "ad_tokens db = ad_tokens (sw_db w) @ [r]" "rt_id r = ae_token_id e"
    "rt_user r = v" "rt_revoked r = None" "rt_replaced r = None" by blast
  with login world_ok_login [OF assms(2), of db r v] show ?thesis by simp
next
  case (call token)
  with assms(2) show ?thesis by (simp add: world_ok_def)
next
  case (advance k e x db)
  from assms(2) have "distinct (map rt_id (ad_tokens (sw_db w)))" by (simp add: world_ok_def tokens_ok_def)
  from worker_move [OF advance(3) this] show ?thesis
    using advance by (intro world_ok_move [OF assms(2)]) auto
next
  case (logout e token db)
  with logout_move(1) [of "[]" "sw_db w" e token] logout_move(2) [of e token "sw_db w"] show ?thesis
    by (intro world_ok_move [OF assms(2)]) auto
next
  case (sweep e retention batch r db)
  with sweep_move [of _ "sw_db w" e retention batch] sweep_ids [of e retention batch "sw_db w"] show ?thesis
    by (intro world_ok_move [OF assms(2)]) auto
next
  case (removed us)
  from assms(2) have "tokens_ok (ad_tokens (sw_db w))" by (simp add: world_ok_def)
  with removed removed_move [of "sw_db w"] removed_ids [of us "sw_db w"] show ?thesis
    by (intro world_ok_move [OF assms(2)]) auto
next
  case (joined e nu r db)
  with assms(2) users_create_tokens [OF joined(2)] show ?thesis by (simp add: world_ok_def live_sessions_def)
qed

lemma world_ok_reachable: "session_reachable w \<Longrightarrow> world_ok w"
proof (induction rule: session_reachable.induct)
  case (start db)
  then show ?case by (simp add: world_ok_def tokens_ok_def live_sessions_def logins_def spent_in_def)
qed (rule world_ok_step)

section \<open>Exchanges\<close>

text \<open>
  A token that was ever rotated or revoked is dead: no refresh call that read it while it was live can still turn it
  into a session, whatever ran in between. A call that does gives a new session spends the token it was given.
\<close>

lemma rotate_spends:
  assumes ok: "tokens_rotate e old h ex db = (Inr i, db')" and d: "distinct (map rt_id (ad_tokens db))"
  obtains x where "x \<in> set (ad_tokens db)" "rt_id x = old" "\<not> spent x" "old \<in> spent_in (token_events db db')"
proof -
  from rotate_cases [OF ok] obtain p c db1 q where p: "get_refresh_token_by_id old db = Some p"
    and c: "create_refresh_token (ae_token_id e) (rt_user p) h ex (ts (ae_now e)) db = Inr (c, db1)"
    and m: "mark_refresh_token_replaced old (rt_id c) (ts (ae_now e)) db1 = Some (q, db')" .
  note cc = tokens_create_cases [OF c]
  from find_SomeD [OF p [unfolded get_refresh_token_by_id_def]] have old: "old \<in> rt_id ` set (ad_tokens db)"
    by (metis image_eqI)
  from m cc obtain x where x: "find (replaceable old (ts (ae_now e))) (ad_tokens db @ [c]) = Some x"
    and rows: "ad_tokens db' = update_where (replaceable old (ts (ae_now e))) (\<lambda>x. x\<lparr>rt_replaced := Some (rt_id c)\<rparr>) (ad_tokens db @ [c])"
    by (auto simp: mark_refresh_token_replaced_def split: option.splits)
  from find_SomeD [OF x] cc old have xx: "x \<in> set (ad_tokens db)" "rt_id x = old" "\<not> spent x" "replaceable old (ts (ae_now e)) x"
    by (auto simp: replaceable_def spent_def)
  have "x\<lparr>rt_replaced := Some (rt_id c)\<rparr> \<in> set (ad_tokens db')" using xx(1,4) unfolding rows by (auto simp: set_update_where)
  then obtain y where y: "find (\<lambda>z. rt_id z = rt_id x) (ad_tokens db') = Some y"
    by (cases "find (\<lambda>z. rt_id z = rt_id x) (ad_tokens db')") (auto simp: find_None_iff)
  from find_SomeD [OF y] have yy: "y \<in> set (ad_tokens db')" "rt_id y = old" using xx(2) by auto
  have "y = x\<lparr>rt_replaced := Some (rt_id c)\<rparr>"
  proof (rule distinct_key_unique [of rt_id "ad_tokens db'"])
    have "map rt_id (ad_tokens db') = map rt_id (ad_tokens db @ [c])" unfolding rows by (simp add: map_update_where)
    then show "distinct (map rt_id (ad_tokens db'))" using d cc by simp
  qed (use yy xx(2) \<open>x\<lparr>rt_replaced := Some (rt_id c)\<rparr> \<in> set (ad_tokens db')\<close> in simp_all)
  with y xx(2,3) have "old \<in> spent_in (row_events (ad_tokens db') x)"
    by (simp add: row_events_def spent_in_def spent_def)
  with xx(1) have "old \<in> spent_in (token_events db db')" by (auto simp: token_events_def spent_in_def)
  with that xx(1-3) show thesis by blast
qed

lemma exchange_spends:
  assumes "world_ok w" "refresh_worker_step e (RwRotate old u) (sw_db w) = (RwDone (Inr s), db)"
  shows "rt_id old \<notin> spent_in (sw_log w) \<and> rt_id old \<in> spent_in (token_events (sw_db w) db)"
proof -
  from assms(2) obtain i where ok: "tokens_rotate e (rt_id old) (ae_sha e (ae_raw e)) (time_add (ae_now e) refresh_token_ttl) (sw_db w) = (Inr i, db)"
    by (auto split: prod.splits sum.splits if_splits)
  from assms(1) have "distinct (map rt_id (ad_tokens (sw_db w)))" by (simp add: world_ok_def tokens_ok_def)
  from rotate_spends [OF ok this] obtain x where "x \<in> set (ad_tokens (sw_db w))" "rt_id x = rt_id old" "\<not> spent x"
    "rt_id old \<in> spent_in (token_events (sw_db w) db)" .
  with assms(1) show ?thesis by (auto simp: world_ok_def)
qed

definition exchanged_in :: "session_event list \<Rightarrow> uuid \<times> uuid \<times> nat \<Rightarrow> bool" where
  "exchanged_in log x \<longleftrightarrow> snd (snd x) \<le> length log \<and> fst x \<notin> spent_in (take (snd (snd x)) log) \<and> fst x \<in> spent_in log"

definition exchanges_ok :: "session_world \<Rightarrow> bool" where
  "exchanges_ok w \<longleftrightarrow> distinct (map fst (sw_exchanges w)) \<and> (\<forall>x \<in> set (sw_exchanges w). exchanged_in (sw_log w) x)"

lemma exchanged_later: "exchanged_in log x \<Longrightarrow> exchanged_in (log @ later) x"
  by (simp add: exchanged_in_def spent_in_append)

lemma exchanges_kept:
  assumes "exchanges_ok w" "sw_exchanges w' = sw_exchanges w" "sw_log w' = sw_log w @ later"
  shows "exchanges_ok w'"
  using assms by (simp add: exchanges_ok_def exchanged_later)

lemma exchanges_step:
  assumes "session_step w w'" "world_ok w" "exchanges_ok w"
  shows "exchanges_ok w'"
  using assms(1)
proof (cases rule: session_step.cases)
  case (advance k e x db)
  show ?thesis
  proof (cases "exchange_of (ae_token_id e) (length (sw_log w)) (sw_workers w ! k) x")
    case Nil
    with advance show ?thesis by (intro exchanges_kept [OF assms(3)]) simp_all
  next
    case (Cons a b)
    then obtain old u s where x: "sw_workers w ! k = RwRotate old u" "x = RwDone (Inr s)"
      by (auto elim!: exchange_of.elims)
    from exchange_spends [OF assms(2), of e old u s db] advance(3) x
    have new: "rt_id old \<notin> spent_in (sw_log w)" "rt_id old \<in> spent_in (token_events (sw_db w) db)" by auto
    have log: "sw_log w' = sw_log w @ token_events (sw_db w) db"
      and ex: "sw_exchanges w' = sw_exchanges w @ [(rt_id old, ae_token_id e, length (sw_log w))]"
      using advance x by simp_all
    from new(1) assms(3) have "rt_id old \<notin> fst ` set (sw_exchanges w)" by (auto simp: exchanges_ok_def exchanged_in_def)
    moreover from new have "exchanged_in (sw_log w @ token_events (sw_db w) db) (rt_id old, ae_token_id e, length (sw_log w))"
      by (simp add: exchanged_in_def spent_in_append)
    ultimately show ?thesis using assms(3) unfolding exchanges_ok_def log ex by (auto intro: exchanged_later)
  qed
qed (auto intro!: exchanges_kept [OF assms(3)])

lemma exchanges_reachable: "session_reachable w \<Longrightarrow> exchanges_ok w"
proof (induction rule: session_reachable.induct)
  case (start db)
  then show ?case by (simp add: exchanges_ok_def)
next
  case (step w w')
  from exchanges_step [OF step.hyps(2) world_ok_reachable [OF step.hyps(1)] step.IH] show ?case .
qed

section \<open>Runs on given inputs\<close>

definition step_call :: "string \<Rightarrow> session_world \<Rightarrow> session_world" where
  "step_call token w = w\<lparr>sw_workers := sw_workers w @ [RwFind token]\<rparr>"

definition step_advance :: "nat \<Rightarrow> auth_env \<Rightarrow> session_world \<Rightarrow> session_world" where
  "step_advance k e w = (case refresh_worker_step e (sw_workers w ! k) (sw_db w) of (x, db) \<Rightarrow>
     w\<lparr>sw_db := db, sw_workers := (sw_workers w)[k := x], sw_used := insert (ae_token_id e) (sw_used w),
       sw_log := sw_log w @ token_events (sw_db w) db,
       sw_exchanges := sw_exchanges w @ exchange_of (ae_token_id e) (length (sw_log w)) (sw_workers w ! k) x\<rparr>)"

definition step_login :: "auth_env \<Rightarrow> user_row \<Rightarrow> session_world \<Rightarrow> session_world" where
  "step_login e u w = (case (issue_session e u (sw_db w), parse_user_id e (us_id u)) of
     ((Inr s, db), Inr v) \<Rightarrow> w\<lparr>sw_db := db, sw_used := insert (ae_token_id e) (sw_used w),
        sw_log := sw_log w @ [Issued v (ae_token_id e)]\<rparr>
   | _ \<Rightarrow> w)"

lemma reach_call: "session_reachable w \<Longrightarrow> session_reachable (step_call token w)"
  by (auto simp: step_call_def intro: session_reachable.step session_step.call)

lemma advance_step:
  "k < length (sw_workers w) \<Longrightarrow> ae_token_id e \<notin> sw_used w \<Longrightarrow> session_step w (step_advance k e w)"
  by (auto simp: step_advance_def intro: session_step.advance split: prod.split)

lemma reach_advance:
  "session_reachable w \<Longrightarrow> k < length (sw_workers w) \<Longrightarrow> ae_token_id e \<notin> sw_used w \<Longrightarrow> session_reachable (step_advance k e w)"
  using session_reachable.step advance_step by blast

lemma reach_login:
  assumes "session_reachable w" "ae_token_id e \<notin> sw_used w"
  shows "session_reachable (step_login e u w)"
  using session_step.login [OF _ _ assms(2)] assms(1)
  by (auto simp: step_login_def intro: session_reachable.step split: prod.split sum.split)

text \<open>An account, and calls that draw the \<open>n\<close>-th id; the stand-in for SHA-256 only has to be a function.\<close>

definition sample_env :: "nat \<Rightarrow> auth_env" where
  "sample_env n = \<lparr>ae_now = int n * second, ae_parse = (\<lambda>s. if s = [] then None else Some s), ae_sha = rev,
     ae_user_id = ''u'' @ digits_of_nat n, ae_token_id = ''t'' @ digits_of_nat n, ae_raw = ''raw'' @ digits_of_nat n,
     ae_code = ''654321''\<rparr>"

definition sample_user :: user_row where "sample_user = (new_user_row ''ann'' 0)\<lparr>us_full_name := ''Ann''\<rparr>"

definition empty_auth_db :: auth_db where
  "empty_auth_db = \<lparr>ad_users = [], ad_identities = [], ad_tokens = [], ad_codes = [], ad_budgets = [], ad_companies = [],
     ad_claims = [], ad_deleted = []\<rparr>"

definition sample_start :: session_world where
  "sample_start = \<lparr>sw_db = empty_auth_db\<lparr>ad_users := [sample_user]\<rparr>, sw_workers = [], sw_used = {}, sw_log = [], sw_exchanges = []\<rparr>"

lemma reach_start: "session_reachable sample_start"
  unfolding sample_start_def by (rule session_reachable.start) (simp add: empty_auth_db_def)

text \<open>
  Ann signs in and refreshes once. A thief presents her first token; while the thief's call is revoking her
  sessions, her second refresh commits.
\<close>

definition ann_refreshed :: session_world where
  "ann_refreshed = step_advance 0 (sample_env 4) (step_advance 0 (sample_env 3) (step_advance 0 (sample_env 2)
     (step_call ''raw1'' (step_login (sample_env 1) sample_user sample_start))))"

definition two_in_flight :: session_world where
  "two_in_flight = step_advance 2 (sample_env 7) (step_advance 2 (sample_env 6) (step_advance 1 (sample_env 5)
     (step_call ''raw4'' (step_call ''raw1'' ann_refreshed))))"

definition both_done :: session_world where
  "both_done = step_advance 1 (sample_env 10) (step_advance 2 (sample_env 9) (step_advance 1 (sample_env 8) two_in_flight))"

lemma ann_refreshed_reachable: "session_reachable ann_refreshed"
  unfolding ann_refreshed_def by (intro reach_advance reach_call reach_login reach_start) code_simp+

lemma two_in_flight_reachable: "session_reachable two_in_flight"
  unfolding two_in_flight_def by (intro reach_advance reach_call ann_refreshed_reachable) code_simp+

lemma both_done_reachable: "session_reachable both_done"
  unfolding both_done_def by (intro reach_advance two_in_flight_reachable) code_simp+

section \<open>Properties\<close>

text \<open>
  C15. Refreshing never multiplies sessions: in every interleaving of refresh calls, log-ins, log-outs, sweeps and
  deletions, no token is ever exchanged for a second successor, no token is exchanged after it was rotated or revoked,
  though the call may have read it while it was live, and a user has at most as many live tokens (neither revoked nor
  replaced) as sessions were issued to them. So two calls that race with one token cannot leave two live chains.
\<close>

theorem sessions_never_multiply:
  assumes "session_reachable w"
  shows "distinct (map fst (sw_exchanges w)) \<and>
    (\<forall>(i, c, n) \<in> set (sw_exchanges w). n \<le> length (sw_log w) \<and> i \<notin> spent_in (take n (sw_log w))) \<and>
    live_sessions u (sw_db w) \<le> logins u (sw_log w)"
  using world_ok_reachable [OF assms] exchanges_reachable [OF assms]
  by (auto simp: world_ok_def exchanges_ok_def exchanged_in_def)

lemma sessions_never_multiply_witness:
  "map (\<lambda>(i, c, n). (i, c)) (sw_exchanges both_done) = [(''t1'', ''t4''), (''t4'', ''t9'')] \<and>
   distinct (map fst (sw_exchanges both_done)) \<and> live_sessions ''ann'' (sw_db both_done) = 1 \<and>
   logins ''ann'' (sw_log both_done) = 1 \<and> live_sessions ''ann'' (sw_db both_done) \<le> logins ''ann'' (sw_log both_done)"
proof -
  have "map (\<lambda>(i, c, n). (i, c)) (sw_exchanges both_done) = [(''t1'', ''t4''), (''t4'', ''t9'')]"
    "live_sessions ''ann'' (sw_db both_done) = 1" "logins ''ann'' (sw_log both_done) = 1" by code_simp+
  with sessions_never_multiply [OF both_done_reachable, of "''ann''"] show ?thesis by simp
qed

text \<open>Ann's own second call holds a token the thief's call has revoked by then.\<close>

definition revoked_first :: session_world where
  "revoked_first = step_advance 1 (sample_env 9) (step_advance 1 (sample_env 8) two_in_flight)"

lemma revoked_first_reachable: "session_reachable revoked_first"
  unfolding revoked_first_def by (intro reach_advance two_in_flight_reachable) code_simp+

fun holds_spent :: "session_event list \<Rightarrow> refresh_worker \<Rightarrow> bool" where
  "holds_spent log (RwRotate old u) = (rt_id old \<in> spent_in log)"
| "holds_spent log _ = False"

lemma held_token: "2 < length (sw_workers revoked_first) \<and> holds_spent (sw_log revoked_first) (sw_workers revoked_first ! 2)"
  by code_simp

text \<open>An uninterrupted worker is the handler.\<close>

fun run_worker :: "nat \<Rightarrow> auth_env \<Rightarrow> refresh_worker \<times> auth_db \<Rightarrow> refresh_worker \<times> auth_db" where
  "run_worker 0 e c = c"
| "run_worker (Suc n) e (x, db) = run_worker n e (refresh_worker_step e x db)"

lemma run_worker_done [simp]: "run_worker n e (RwDone r, db) = (RwDone r, db)"
  by (induction n) auto

lemma reuse_eq:
  "handle_refresh_token_reuse e u db = (err_token_used, snd (revoke_sessions u (sessions_of u db) (ts (ae_now e)) db))"
  by (simp add: handle_refresh_token_reuse_def tokens_revoke_all_for_user_def revoke_all_refresh_tokens_for_user_def split: prod.split)

lemma worker_runs_refresh_session:
  "run_worker 5 e (RwFind token, db) = (case refresh_session e token db of (r, db') \<Rightarrow> (RwDone r, db'))"
  by (auto simp: eval_nat_numeral refresh_session_def reuse_eq split: sum.split prod.split)

text \<open>
  C16. Presenting a token that was already rotated or revoked ends every session of its owner: the call answers
  Unauthenticated, afterwards the owner has no live token, and no other user's tokens change.
\<close>

theorem reuse_ends_every_session:
  assumes "get_refresh_token_by_hash (ae_sha e token) db = Some old" "spent old"
  shows "\<exists>db'. refresh_session e token db = (Inl err_token_used, db') \<and> grpc_code_of err_token_used = CodeUnauthenticated \<and>
    (\<forall>r \<in> set (ad_tokens db'). rt_user r = rt_user old \<longrightarrow> rt_revoked r \<noteq> None) \<and>
    filter (\<lambda>r. rt_user r \<noteq> rt_user old) (ad_tokens db') = filter (\<lambda>r. rt_user r \<noteq> rt_user old) (ad_tokens db)"
proof -
  let ?db' = "snd (tokens_revoke_all_for_user e (rt_user old) db)"
  let ?p = "\<lambda>r. rt_id r \<in> set (sessions_of (rt_user old) db) \<and> rt_user r = rt_user old \<and> rt_revoked r = None"
  have rows: "ad_tokens ?db' = update_where ?p (\<lambda>r. r\<lparr>rt_revoked := Some (ts (ae_now e))\<rparr>) (ad_tokens db)"
    by (simp add: tokens_revoke_all_for_user_def revoke_all_refresh_tokens_for_user_def revoke_sessions_def Let_def)
  have "rt_revoked r \<noteq> None" if "r \<in> set (ad_tokens ?db')" "rt_user r = rt_user old" for r
    using that unfolding rows by (auto simp: set_update_where sessions_of_def)
  moreover have "filter (\<lambda>r. rt_user r \<noteq> rt_user old) (update_where ?p (\<lambda>r. r\<lparr>rt_revoked := Some t\<rparr>) rs) =
      filter (\<lambda>r. rt_user r \<noteq> rt_user old) rs" for t rs
    by (induction rs) auto
  moreover have "refresh_session e token db = (Inl err_token_used, ?db')"
    using assms by (auto simp: refresh_session_def tokens_find_by_hash_def spent_def handle_refresh_token_reuse_def split: prod.split)
  ultimately show ?thesis by (auto simp: rows err_token_used_def grpc_code_of_def)
qed

lemma reuse_ends_every_session_witness:
  "\<exists>old. get_refresh_token_by_hash (ae_sha (sample_env 5) ''raw1'') (sw_db ann_refreshed) = Some old \<and> spent old \<and>
     (\<exists>db'. refresh_session (sample_env 5) ''raw1'' (sw_db ann_refreshed) = (Inl err_token_used, db') \<and>
       (\<forall>r \<in> set (ad_tokens db'). rt_user r = rt_user old \<longrightarrow> rt_revoked r \<noteq> None))"
proof -
  have "case get_refresh_token_by_hash (ae_sha (sample_env 5) ''raw1'') (sw_db ann_refreshed) of None \<Rightarrow> False | Some old \<Rightarrow> spent old"
    by code_simp
  then obtain old where "get_refresh_token_by_hash (ae_sha (sample_env 5) ''raw1'') (sw_db ann_refreshed) = Some old" "spent old"
    by (auto split: option.splits)
  with reuse_ends_every_session [OF this] show ?thesis by blast
qed

text \<open>
  C17. Unless a refresh of the same user is in flight: a statement that revokes the sessions it found at its start does
  not see the child that refresh commits meanwhile. The run \<open>both_done\<close> detects the reuse, answers the thief, and
  leaves Ann's new token live; no one has signed in since.
\<close>

theorem reuse_can_leave_a_session:
  "\<exists>w w'. session_reachable w \<and> sw_workers w ! 1 = RwReuse ''ann'' \<and> rtranclp session_step w w' \<and>
     sw_workers w' ! 1 = RwDone (Inl err_token_used) \<and> live_sessions ''ann'' (sw_db w') = 1 \<and>
     logins ''ann'' (sw_log w') = logins ''ann'' (sw_log w)"
proof (intro exI conjI)
  show "session_reachable two_in_flight" by (rule two_in_flight_reachable)
  let ?a = "step_advance 1 (sample_env 8) two_in_flight"
  let ?b = "step_advance 2 (sample_env 9) ?a"
  have "session_step two_in_flight ?a" by (rule advance_step) code_simp+
  moreover have "session_step ?a ?b" by (rule advance_step) code_simp+
  moreover have "session_step ?b both_done" unfolding both_done_def by (rule advance_step) code_simp+
  ultimately show "rtranclp session_step two_in_flight both_done"
    by (meson converse_rtranclp_into_rtranclp rtranclp.rtrancl_refl)
qed code_simp+

end
