(* ===== verification/Auth_Codes.thy ===== *)
theory Auth_Codes
  imports Auth_Accounts
begin

text \<open>
  One-time codes: targets, allowlists and the comparison (\<open>otp.go\<close>, \<open>validate.go\<close>, \<open>identity.go\<close>), the daily budgets
  (\<open>otp_budget.go\<close>), and sending and spending a code (\<open>verification.go\<close>, \<open>service_email.go\<close>,
  \<open>verification_codes_postgres.go\<close>). Strings are bytes; a no-break space is its two bytes.
\<close>

definition otp_expiry :: duration where "otp_expiry = 10 * minute"
definition otp_max_attempts :: int where "otp_max_attempts = 5"
definition otp_resend_cooldown :: duration where "otp_resend_cooldown = minute"

definition otp_max_sends_per_day :: int where "otp_max_sends_per_day = 5"
definition otp_max_failed_guesses_per_day :: int where "otp_max_failed_guesses_per_day = 10"
definition otp_target_max_sends_per_day :: int where "otp_target_max_sends_per_day = 20"
definition otp_target_max_failed_guesses_per_day :: int where "otp_target_max_failed_guesses_per_day = 50"

section \<open>Targets\<close>

definition normalize_email :: "string \<Rightarrow> string" where
  "normalize_email s = to_lower (trim_space s)"

fun strip_phone :: "string \<Rightarrow> string" where
  "strip_phone (c # d # s) =
     (if c = CHR 0xC2 \<and> d = CHR 0xA0 then strip_phone s
      else if c \<in> set '' -().'' \<or> c = CHR 0x09 then strip_phone (d # s)
      else c # strip_phone (d # s))"
| "strip_phone [c] = (if c \<in> set '' -().'' \<or> c = CHR 0x09 then [] else [c])"
| "strip_phone [] = []"

definition normalize_phone :: "string \<Rightarrow> string" where
  "normalize_phone s = strip_phone (trim_space s)"

definition normalize_verification_target :: "purpose \<Rightarrow> string \<Rightarrow> string" where
  "normalize_verification_target p t = (if p = PPhone then normalize_phone t else normalize_email t)"

definition is_letter :: "char \<Rightarrow> bool" where
  "is_letter c \<longleftrightarrow> (let n = (of_char c :: nat) in 65 \<le> n \<and> n \<le> 90 \<or> 97 \<le> n \<and> n \<le> 122)"

definition max_email_length :: nat where "max_email_length = 254"

text \<open>The two patterns, matched by hand: an \<open>@\<close> is in neither class, and the last label has no dot.\<close>

definition email_pattern :: "string \<Rightarrow> bool" where
  "email_pattern s = (case cut_at (CHR ''@'') s of None \<Rightarrow> False
     | Some (l, d) \<Rightarrow>
         (let tld = rev (takeWhile (\<lambda>c. c \<noteq> CHR ''.'') (rev d)); host = take (length d - length tld) d in
          l \<noteq> [] \<and> list_all (\<lambda>c. is_letter c \<or> is_digit c \<or> c \<in> set ''._%+-'') l \<and>
          2 \<le> length tld \<and> list_all is_letter tld \<and>
          2 \<le> length host \<and> last host = CHR ''.'' \<and> list_all (\<lambda>c. is_letter c \<or> is_digit c \<or> c \<in> set ''.-'') host))"

definition validate_email_shape :: "string \<Rightarrow> go_error option" where
  "validate_email_shape s =
     (let v = trim_space s in
      if max_email_length < length v \<or> \<not> email_pattern v
      then Some (wrap1 ''auth: enter a valid email address'' ErrInvalidInput) else None)"

definition phone_pattern :: "string \<Rightarrow> bool" where
  "phone_pattern s =
     (let d = trim_prefix ''+'' s in
      9 \<le> length d \<and> length d \<le> 15 \<and>
      list_all (\<lambda>c. is_digit c \<or> c = CHR ''-'' \<or> c \<in> set [CHR '' '', CHR 0x09, CHR 0x0A, CHR 0x0C, CHR 0x0D]) d)"

definition validate_phone_number :: "string \<Rightarrow> go_error option" where
  "validate_phone_number s =
     (if phone_pattern (trim_space s) then None else Some (wrap1 ''auth: enter a valid phone number'' ErrInvalidInput))"

section \<open>Test allowlists and the comparison\<close>

text \<open>
  What a call on codes reads besides: three environment variables, the caller's hash (\<open>clientinfo\<close>), and what the
  mail or text message provider answers.
\<close>

record otp_env = auth_env +
  oe_allow_bypass :: bool
  oe_bypass_phones :: string
  oe_bypass_emails :: string
  oe_requester :: string
  oe_send :: "purpose \<Rightarrow> string \<Rightarrow> string \<Rightarrow> go_error option"

definition test_otp_bypass_code :: string where "test_otp_bypass_code = ''123456''"

definition parse_otp_bypass_allowlist :: "string \<Rightarrow> (string \<Rightarrow> string) \<Rightarrow> string list" where
  "parse_otp_bypass_allowlist raw norm =
     (if raw = [] then [] else filter (\<lambda>x. x \<noteq> []) (map norm (split_on (CHR '','') raw)))"

definition test_otp_bypass_phones :: "'z otp_env_scheme \<Rightarrow> string list" where
  "test_otp_bypass_phones e = parse_otp_bypass_allowlist (oe_bypass_phones e) normalize_phone"

definition normalize_bypass_email :: "string \<Rightarrow> string" where
  "normalize_bypass_email t = to_lower (trim_space t)"

definition test_otp_bypass_emails :: "'z otp_env_scheme \<Rightarrow> string list" where
  "test_otp_bypass_emails e = parse_otp_bypass_allowlist (oe_bypass_emails e) normalize_bypass_email"

fun is_email_otp_purpose :: "purpose \<Rightarrow> bool" where
  "is_email_otp_purpose PPersonalEmail = True"
| "is_email_otp_purpose PCorporateEmail = True"
| "is_email_otp_purpose PEmailSignup = True"
| "is_email_otp_purpose PEmailLogin = True"
| "is_email_otp_purpose _ = False"

definition otp_matches :: "'z otp_env_scheme \<Rightarrow> string \<Rightarrow> string \<Rightarrow> purpose \<Rightarrow> string \<Rightarrow> bool" where
  "otp_matches e h code p t \<longleftrightarrow>
     (oe_allow_bypass e \<and> code = test_otp_bypass_code) \<or>
     (p = PPhone \<and> code = test_otp_bypass_code \<and> t \<in> set (test_otp_bypass_phones e)) \<or>
     (is_email_otp_purpose p \<and> code = test_otp_bypass_code \<and> normalize_bypass_email t \<in> set (test_otp_bypass_emails e)) \<or>
     h = ae_sha e code"

section \<open>Budgets\<close>

definition err_otp_send_budget :: go_error where
  "err_otp_send_budget = wrap1 ''too many codes requested for this address today, please try again tomorrow'' ErrRateLimited"

definition err_otp_guess_budget :: go_error where
  "err_otp_guess_budget = wrap1 ''too many attempts for this address today, please try again tomorrow'' ErrRateLimited"

definition otp_budget_exempt :: "'z otp_env_scheme \<Rightarrow> purpose \<Rightarrow> string \<Rightarrow> bool" where
  "otp_budget_exempt e p t \<longleftrightarrow>
     (if p = PPhone then t \<in> set (test_otp_bypass_phones e)
      else normalize_bypass_email t \<in> set (test_otp_bypass_emails e))"

definition otp_target_hash :: "'z otp_env_scheme \<Rightarrow> purpose \<Rightarrow> string \<Rightarrow> string" where
  "otp_target_hash e p t = ae_sha e (if p = PPhone then normalize_phone t else normalize_email t)"

definition otp_requester_hash :: "'z otp_env_scheme \<Rightarrow> string \<Rightarrow> string" where
  "otp_requester_hash e h = ae_sha e (h @ oe_requester e)"

definition take_send :: "'z otp_env_scheme \<Rightarrow> purpose \<Rightarrow> string \<Rightarrow> auth_db \<Rightarrow> go_error option \<times> auth_db" where
  "take_send e p t db =
     (if otp_budget_exempt e p t then (None, db)
      else (let h = otp_target_hash e p t in
        case take_otp_send (otp_requester_hash e h) p otp_max_sends_per_day (ae_now e) db of
          (False, db1) \<Rightarrow> (Some err_otp_send_budget, db1)
        | (True, db1) \<Rightarrow>
            (case take_otp_send h p otp_target_max_sends_per_day (ae_now e) db1 of
               (ok, db2) \<Rightarrow> (if ok then None else Some err_otp_send_budget, db2))))"

text \<open>A granted guess comes with the keys to hand it back to.\<close>

definition take_guess ::
  "'z otp_env_scheme \<Rightarrow> purpose \<Rightarrow> string \<Rightarrow> auth_db \<Rightarrow> (go_error + string list) \<times> auth_db" where
  "take_guess e p t db =
     (if otp_budget_exempt e p t then (Inr [], db)
      else (let h = otp_target_hash e p t; mine = otp_requester_hash e h in
        case take_otp_guess mine p otp_max_failed_guesses_per_day (ae_now e) db of
          (False, db1) \<Rightarrow> (Inl err_otp_guess_budget, db1)
        | (True, db1) \<Rightarrow>
            (case take_otp_guess h p otp_target_max_failed_guesses_per_day (ae_now e) db1 of
               (ok, db2) \<Rightarrow> (if ok then Inr [mine, h] else Inl err_otp_guess_budget, db2))))"

definition refund_guess :: "'z otp_env_scheme \<Rightarrow> purpose \<Rightarrow> string list \<Rightarrow> auth_db \<Rightarrow> auth_db" where
  "refund_guess e p keys db = fold (\<lambda>k. refund_otp_guess k p (ae_now e)) keys db"

section \<open>Sending a code\<close>

definition dispatch_verification_code :: "'z otp_env_scheme \<Rightarrow> purpose \<Rightarrow> string \<Rightarrow> string \<Rightarrow> go_error option" where
  "dispatch_verification_code e p t code =
     (if p = PPhone then if t \<in> set (test_otp_bypass_phones e) then None else oe_send e p t code
      else if p = PPersonalEmail \<or> p = PCorporateEmail
      then if normalize_bypass_email t \<in> set (test_otp_bypass_emails e) then None else oe_send e p t code
      else Some (PkgError ''auth: unknown verification purpose''))"

definition still_cooling :: "'z otp_env_scheme \<Rightarrow> code_row option \<Rightarrow> bool" where
  "still_cooling e row = (case row of None \<Rightarrow> False | Some r \<Rightarrow> time_sub (ae_now e) (vc_created r) < otp_resend_cooldown)"

definition failed_dispatch :: go_error where
  "failed_dispatch = wrap1 ''failed to send verification code, please try again'' ErrInternal"

definition please_wait :: go_error where
  "please_wait = wrap1 ''please wait before requesting another code'' ErrRateLimited"

definition resend_after_seconds :: int where "resend_after_seconds = otp_resend_cooldown div second"

definition start_verification ::
  "'z otp_env_scheme \<Rightarrow> string \<Rightarrow> purpose \<Rightarrow> string \<Rightarrow> auth_db \<Rightarrow> (go_error + int) \<times> auth_db" where
  "start_verification e user p t db =
     (if t = [] then (Inl (wrap1 ''target is required'' ErrInvalidInput), db)
      else case parse_user_id e user of
        Inl err \<Rightarrow> (Inl err, db)
      | Inr u \<Rightarrow>
          if still_cooling e (get_verification_code u p db) then (Inl please_wait, db)
          else (case take_send e p t db of
            (Some err, db1) \<Rightarrow> (Inl err, db1)
          | (None, db1) \<Rightarrow>
              (case upsert_verification_code u p t (ae_sha e (ae_code e)) (time_add (ae_now e) otp_expiry) (ts (ae_now e)) db1 of
                 Inl err \<Rightarrow> (Inl (Wrap ''repository: upsert verification code'' [pg_error_value err]), db1)
               | Inr db2 \<Rightarrow>
                   (case dispatch_verification_code e p t (ae_code e) of
                      Some _ \<Rightarrow> (Inl failed_dispatch, db2)
                    | None \<Rightarrow> (Inr resend_after_seconds, db2)))))"

definition start_target_keyed_verification ::
  "'z otp_env_scheme \<Rightarrow> purpose \<Rightarrow> string \<Rightarrow> auth_db \<Rightarrow> (go_error + int) \<times> auth_db" where
  "start_target_keyed_verification e p t db =
     (if t = [] then (Inl (wrap1 ''target is required'' ErrInvalidInput), db)
      else case validate_email_shape t of
        Some err \<Rightarrow> (Inl err, db)
      | None \<Rightarrow>
          if still_cooling e (get_verification_code_by_target t p db) then (Inl please_wait, db)
          else (case take_send e p t db of
            (Some err, db1) \<Rightarrow> (Inl err, db1)
          | (None, db1) \<Rightarrow>
              (let db2 = upsert_verification_code_for_signup p t (ae_sha e (ae_code e)) (time_add (ae_now e) otp_expiry) (ts (ae_now e)) db1 in
               if normalize_bypass_email t \<in> set (test_otp_bypass_emails e) then (Inr resend_after_seconds, db2)
               else (case oe_send e p t (ae_code e) of
                       Some _ \<Rightarrow> (Inl failed_dispatch, db2)
                     | None \<Rightarrow> (Inr resend_after_seconds, db2)))))"

section \<open>Spending a code\<close>

definition invalid_code :: go_error where "invalid_code = wrap1 ''invalid code'' ErrInvalidInput"

definition no_pending_code :: go_error where
  "no_pending_code = wrap1 ''no pending verification code, please request a new one'' ErrInvalidInput"

definition code_expired :: go_error where
  "code_expired = wrap1 ''code expired, please request a new one'' ErrInvalidInput"

definition too_many_attempts :: go_error where
  "too_many_attempts = wrap1 ''too many attempts, please request a new code'' ErrInvalidInput"

definition target_mismatch :: go_error where
  "target_mismatch = wrap1 ''target does not match the pending verification'' ErrInvalidInput"

definition explain_unclaimable_attempt :: "'z otp_env_scheme \<Rightarrow> code_key \<Rightarrow> purpose \<Rightarrow> auth_db \<Rightarrow> go_error \<times> auth_db" where
  "explain_unclaimable_attempt e k p db =
     (case get_code k p db of
        None \<Rightarrow> (no_pending_code, db)
      | Some r \<Rightarrow>
          if time_after (ae_now e) (vc_expires r) then (code_expired, delete_code k p db) else (too_many_attempts, db))"

text \<open>
  \<open>claimAndConsumeCode\<close> for a user's key and \<open>claimAndConsumeTargetKeyedCode\<close> for a target's: the same steps, but only
  the first compares the target.
\<close>

definition wrong_target :: "code_key \<Rightarrow> string \<Rightarrow> code_row \<Rightarrow> bool" where
  "wrong_target k t r \<longleftrightarrow> (case k of UserKey u \<Rightarrow> vc_target r \<noteq> t | TargetKey _ \<Rightarrow> False)"

definition claim_and_consume_code ::
  "'z otp_env_scheme \<Rightarrow> code_key \<Rightarrow> purpose \<Rightarrow> string \<Rightarrow> string \<Rightarrow> auth_db \<Rightarrow> go_error option \<times> auth_db" where
  "claim_and_consume_code e k p t code db =
     (case claim_code k p otp_max_attempts (ts (ae_now e)) db of
        None \<Rightarrow> (case explain_unclaimable_attempt e k p db of (err, db') \<Rightarrow> (Some err, db'))
      | Some (claimed, db1) \<Rightarrow>
          if wrong_target k t claimed then (Some target_mismatch, db1)
          else if \<not> otp_matches e (vc_hash claimed) code p t
          then (Some invalid_code, if otp_max_attempts \<le> vc_attempts claimed then delete_code k p db1 else db1)
          else (case consume_code k p (vc_hash claimed) db1 of
                  None \<Rightarrow> (Some invalid_code, db1)
                | Some (_, db2) \<Rightarrow> (None, db2)))"

definition verify_and_consume_code ::
  "'z otp_env_scheme \<Rightarrow> string \<Rightarrow> purpose \<Rightarrow> string \<Rightarrow> string \<Rightarrow> auth_db \<Rightarrow> go_error option \<times> auth_db" where
  "verify_and_consume_code e user p t code db =
     (case take_guess e p t db of
        (Inl err, db1) \<Rightarrow> (Some err, db1)
      | (Inr keys, db1) \<Rightarrow>
          (case parse_user_id e user of
             Inl err \<Rightarrow> (Some err, db1)
           | Inr u \<Rightarrow>
               (case claim_and_consume_code e (UserKey u) p t code db1 of
                  (Some err, db2) \<Rightarrow> (Some err, db2)
                | (None, db2) \<Rightarrow> (None, refund_guess e p keys db2))))"

definition verify_and_consume_target_keyed_code ::
  "'z otp_env_scheme \<Rightarrow> purpose \<Rightarrow> string \<Rightarrow> string \<Rightarrow> auth_db \<Rightarrow> go_error option \<times> auth_db" where
  "verify_and_consume_target_keyed_code e p t code db =
     (case take_guess e p t db of
        (Inl err, db1) \<Rightarrow> (Some err, db1)
      | (Inr keys, db1) \<Rightarrow>
          (case claim_and_consume_code e (TargetKey t) p t code db1 of
             (Some err, db2) \<Rightarrow> (Some err, db2)
           | (None, db2) \<Rightarrow> (None, refund_guess e p keys db2)))"

section \<open>A verification between its statements\<close>

datatype code_worker =
    CwClaim code_key purpose string string
  | CwExplain code_key purpose
  | CwExpired code_key purpose
  | CwClear code_key purpose
  | CwConsume code_key purpose string
  | CwDone "go_error option"

fun code_worker_step :: "'z otp_env_scheme \<Rightarrow> code_worker \<Rightarrow> auth_db \<Rightarrow> code_worker \<times> auth_db" where
  "code_worker_step e (CwClaim k p t code) db =
     (case claim_code k p otp_max_attempts (ts (ae_now e)) db of
        None \<Rightarrow> (CwExplain k p, db)
      | Some (claimed, db1) \<Rightarrow>
          (if wrong_target k t claimed then CwDone (Some target_mismatch)
           else if \<not> otp_matches e (vc_hash claimed) code p t
           then if otp_max_attempts \<le> vc_attempts claimed then CwClear k p else CwDone (Some invalid_code)
           else CwConsume k p (vc_hash claimed), db1))"
| "code_worker_step e (CwExplain k p) db =
     (case get_code k p db of
        None \<Rightarrow> (CwDone (Some no_pending_code), db)
      | Some r \<Rightarrow> (if time_after (ae_now e) (vc_expires r) then CwExpired k p else CwDone (Some too_many_attempts), db))"
| "code_worker_step e (CwExpired k p) db = (CwDone (Some code_expired), delete_code k p db)"
| "code_worker_step e (CwClear k p) db = (CwDone (Some invalid_code), delete_code k p db)"
| "code_worker_step e (CwConsume k p h) db =
     (case consume_code k p h db of
        None \<Rightarrow> (CwDone (Some invalid_code), db) | Some (_, db') \<Rightarrow> (CwDone None, db'))"
| "code_worker_step e (CwDone r) db = (CwDone r, db)"

end
