(* ===== verification/Auth_Code_Facts.thy ===== *)
theory Auth_Code_Facts
  imports Auth_Codes
begin

text \<open>
  Guesses at a code under interleaving: any number of verifications, re-sends and deletions run against one code table,
  a statement at a time. And the daily budgets under any sequence of their statements.
\<close>

section \<open>The interleaving\<close>

text \<open>The unique indexes give a code one place: its user and purpose, or its purpose and normalised target.\<close>

type_synonym slot = "uuid option \<times> purpose \<times> string"

definition slot_of :: "uuid option \<Rightarrow> purpose \<Rightarrow> string \<Rightarrow> slot" where
  "slot_of u p t = (u, p, if u = None then target_normalized p t else [])"

definition row_slot :: "code_row \<Rightarrow> slot" where
  "row_slot r = slot_of (vc_user r) (vc_purpose r) (vc_target r)"

fun key_slot :: "code_key \<Rightarrow> purpose \<Rightarrow> slot" where
  "key_slot (UserKey u) p = slot_of (Some u) p []"
| "key_slot (TargetKey t) p = slot_of None p t"

datatype code_event = CodeIssued slot | Compared slot | Accepted slot

record code_world =
  cw_db :: auth_db
  cw_workers :: "code_worker list"
  cw_log :: "code_event list"

fun code_events :: "otp_env \<Rightarrow> code_worker \<Rightarrow> auth_db \<Rightarrow> code_event list" where
  "code_events e (CwClaim k p t code) db =
     (if claim_code k p otp_max_attempts (ts (ae_now e)) db = None then [] else [Compared (key_slot k p)])"
| "code_events e (CwConsume k p h) db = (if consume_code k p h db = None then [] else [Accepted (key_slot k p)])"
| "code_events e _ db = []"

inductive code_step :: "code_world \<Rightarrow> code_world \<Rightarrow> bool" where
  issue_user: "upsert_verification_code u p t h ex now (cw_db w) = Inr db \<Longrightarrow>
    code_step w (w\<lparr>cw_db := db, cw_log := cw_log w @ [CodeIssued (slot_of (Some u) p t)]\<rparr>)"
| issue_target: "upsert_verification_code_for_signup p t h ex now (cw_db w) = db \<Longrightarrow>
    code_step w (w\<lparr>cw_db := db, cw_log := cw_log w @ [CodeIssued (slot_of None p t)]\<rparr>)"
| call: "code_step w (w\<lparr>cw_workers := cw_workers w @ [CwClaim k p t code]\<rparr>)"
| advance: "k < length (cw_workers w) \<Longrightarrow> code_worker_step e (cw_workers w ! k) (cw_db w) = (x, db) \<Longrightarrow>
    code_step w (w\<lparr>cw_db := db, cw_workers := (cw_workers w)[k := x],
      cw_log := cw_log w @ code_events e (cw_workers w ! k) (cw_db w)\<rparr>)"
| removed: "code_step w (w\<lparr>cw_db := drop_users us (cw_db w)\<rparr>)"
| joined: "users_create (e :: auth_env) nu (cw_db w) = (r, db) \<Longrightarrow> code_step w (w\<lparr>cw_db := db\<rparr>)"

inductive code_reachable :: "code_world \<Rightarrow> bool" where
  start: "ad_codes db = [] \<Longrightarrow> code_reachable \<lparr>cw_db = db, cw_workers = [], cw_log = []\<rparr>"
| step: "code_reachable w \<Longrightarrow> code_step w w' \<Longrightarrow> code_reachable w'"

text \<open>How often something happened at a place since the code there was last issued.\<close>

definition since_issue :: "code_event \<Rightarrow> slot \<Rightarrow> code_event list \<Rightarrow> int" where
  "since_issue ev s log = foldl (\<lambda>n x. if x = CodeIssued s then 0 else if x = ev then n + 1 else n) 0 log"

definition comparisons :: "slot \<Rightarrow> code_event list \<Rightarrow> int" where
  "comparisons s = since_issue (Compared s) s"

definition acceptances :: "slot \<Rightarrow> code_event list \<Rightarrow> int" where
  "acceptances s = since_issue (Accepted s) s"

lemma since_Nil [simp]: "comparisons s [] = 0" "acceptances s [] = 0"
  by (simp_all add: comparisons_def acceptances_def since_issue_def)

lemma since_snoc [simp]:
  "comparisons s (log @ [x]) = (if x = CodeIssued s then 0 else if x = Compared s then comparisons s log + 1 else comparisons s log)"
  "acceptances s (log @ [x]) = (if x = CodeIssued s then 0 else if x = Accepted s then acceptances s log + 1 else acceptances s log)"
  by (simp_all add: comparisons_def acceptances_def since_issue_def)

section \<open>The invariant\<close>

definition codes_ok :: "code_row list \<Rightarrow> code_event list \<Rightarrow> bool" where
  "codes_ok rows log \<longleftrightarrow> distinct (map row_slot rows) \<and>
     (\<forall>r \<in> set rows. vc_attempts r = comparisons (row_slot r) log \<and> acceptances (row_slot r) log = 0) \<and>
     (\<forall>s. comparisons s log \<le> otp_max_attempts \<and> acceptances s log \<le> 1)"

lemma code_at_slot: "code_at k p r \<Longrightarrow> row_slot r = key_slot k p"
  by (cases k) (auto simp: row_slot_def slot_of_def)

lemma same_slot_iff: "same_slot u p t r \<longleftrightarrow> row_slot r = slot_of u p t"
  by (auto simp: same_slot_def row_slot_def slot_of_def)

lemma codes_okI:
  assumes "distinct (map row_slot rows)"
    "\<And>r. r \<in> set rows \<Longrightarrow> vc_attempts r = comparisons (row_slot r) log \<and> acceptances (row_slot r) log = 0"
    "\<And>s. comparisons s log \<le> otp_max_attempts \<and> acceptances s log \<le> 1"
  shows "codes_ok rows log"
  using assms unfolding codes_ok_def by blast

lemma codes_okD:
  assumes "codes_ok rows log"
  shows "distinct (map row_slot rows)"
    "r \<in> set rows \<Longrightarrow> vc_attempts r = comparisons (row_slot r) log"
    "r \<in> set rows \<Longrightarrow> acceptances (row_slot r) log = 0"
    "comparisons s log \<le> otp_max_attempts" "acceptances s log \<le> 1"
  using assms unfolding codes_ok_def by blast+

lemma codes_ok_filter: "codes_ok rows log \<Longrightarrow> codes_ok (filter q rows) log"
  by (simp add: codes_ok_def distinct_map_filter)

lemma codes_ok_put:
  assumes "codes_ok rows log"
  shows "codes_ok (put_code u p t h ex now rows) (log @ [CodeIssued (slot_of u p t)])"
proof -
  let ?s = "slot_of u p t" and ?f = "\<lambda>r. r\<lparr>vc_target := t, vc_hash := h, vc_attempts := 0, vc_expires := ts ex, vc_created := now\<rparr>"
  note ok = codes_okD [OF assms]
  have same: "row_slot (?f r) = row_slot r" if "same_slot u p t r" for r
    using that by (auto simp: same_slot_def row_slot_def slot_of_def)
  have bounds: "comparisons s (log @ [CodeIssued ?s]) \<le> otp_max_attempts \<and> acceptances s (log @ [CodeIssued ?s]) \<le> 1" for s
    using ok(4,5) [of s] by (simp add: otp_max_attempts_def)
  have kept: "vc_attempts r = comparisons (row_slot r) (log @ [CodeIssued ?s]) \<and> acceptances (row_slot r) (log @ [CodeIssued ?s]) = 0"
    if "r \<in> set rows" "row_slot r \<noteq> ?s" for r
    using that ok(2,3) [OF that(1)] by simp
  show ?thesis
  proof (cases "list_ex (same_slot u p t) rows")
    case True
    have put: "put_code u p t h ex now rows = update_where (same_slot u p t) ?f rows" using True by (simp add: put_code_def)
    show ?thesis unfolding put
    proof (rule codes_okI)
      have "map row_slot (update_where (same_slot u p t) ?f rows) = map row_slot rows"
        by (rule map_update_where) (rule same)
      with ok(1) show "distinct (map row_slot (update_where (same_slot u p t) ?f rows))" by simp
    next
      fix r assume "r \<in> set (update_where (same_slot u p t) ?f rows)"
      then obtain q where q: "q \<in> set rows" "r = (if same_slot u p t q then ?f q else q)" by (auto simp: update_where_def)
      then show "vc_attempts r = comparisons (row_slot r) (log @ [CodeIssued ?s]) \<and>
          acceptances (row_slot r) (log @ [CodeIssued ?s]) = 0"
        using kept [OF q(1)] same [of q] by (cases "same_slot u p t q") (simp_all add: same_slot_iff)
    qed (rule bounds)
  next
    case False
    then have new: "\<And>r. r \<in> set rows \<Longrightarrow> row_slot r \<noteq> ?s" by (auto simp: list_ex_iff same_slot_iff)
    let ?r = "\<lparr>vc_user = u, vc_purpose = p, vc_target = t, vc_hash = h, vc_attempts = 0, vc_expires = ts ex, vc_created = now\<rparr>"
    have put: "put_code u p t h ex now rows = rows @ [?r]" using False by (simp add: put_code_def)
    have slot: "row_slot ?r = ?s" by (simp add: row_slot_def)
    show ?thesis unfolding put
    proof (rule codes_okI)
      have "?s \<notin> row_slot ` set rows" using new by (metis imageE)
      with ok(1) show "distinct (map row_slot (rows @ [?r]))" by (simp add: slot)
    next
      fix x assume "x \<in> set (rows @ [?r])"
      then consider "x \<in> set rows" | "x = ?r" by auto
      then show "vc_attempts x = comparisons (row_slot x) (log @ [CodeIssued ?s]) \<and>
          acceptances (row_slot x) (log @ [CodeIssued ?s]) = 0"
      proof cases
        case 1
        with kept new show ?thesis by blast
      qed (simp add: slot)
    qed (rule bounds)
  qed
qed

lemma codes_ok_claim:
  assumes "codes_ok (ad_codes db) log" "claim_code k p otp_max_attempts now db = Some (r, db')"
  shows "codes_ok (ad_codes db') (log @ [Compared (key_slot k p)])"
proof -
  let ?rows = "ad_codes db" and ?c = "claimable k p otp_max_attempts now"
  from assms(2) obtain q where q: "find ?c ?rows = Some q"
    and db': "ad_codes db' = update_where ?c (\<lambda>x. x\<lparr>vc_attempts := vc_attempts x + 1\<rparr>) ?rows"
    by (auto simp: claim_code_def split: option.splits)
  from find_SomeD [OF q] have q': "q \<in> set ?rows" "row_slot q = key_slot k p" "vc_attempts q < otp_max_attempts"
    by (auto simp: claimable_def code_at_slot)
  from assms(1) have d: "distinct (map row_slot ?rows)" by (simp add: codes_ok_def)
  have only: "?c r \<longleftrightarrow> row_slot r = key_slot k p" if "r \<in> set ?rows" for r
    using that q' d find_SomeD [OF q] code_at_slot by (metis claimable_def distinct_key_unique)
  have same: "map row_slot (ad_codes db') = map row_slot ?rows"
    unfolding db' by (rule map_update_where) (simp add: row_slot_def)
  have less: "comparisons (key_slot k p) log < otp_max_attempts" using codes_okD(2) [OF assms(1) q'(1)] q'(2,3) by simp
  show ?thesis
  proof (rule codes_okI)
    show "distinct (map row_slot (ad_codes db'))" using d same by simp
  next
    fix x assume "x \<in> set (ad_codes db')"
    then obtain y where y: "y \<in> set ?rows" "x = (if ?c y then y\<lparr>vc_attempts := vc_attempts y + 1\<rparr> else y)"
      unfolding db' by (auto simp: update_where_def)
    then have "row_slot x = row_slot y" by (simp add: row_slot_def)
    with y only [OF y(1)] codes_okD(2,3) [OF assms(1) y(1)]
    show "vc_attempts x = comparisons (row_slot x) (log @ [Compared (key_slot k p)]) \<and>
        acceptances (row_slot x) (log @ [Compared (key_slot k p)]) = 0" by auto
  next
    fix s
    show "comparisons s (log @ [Compared (key_slot k p)]) \<le> otp_max_attempts \<and> acceptances s (log @ [Compared (key_slot k p)]) \<le> 1"
      using codes_okD(4,5) [OF assms(1), of s] less by (cases "key_slot k p = s") auto
  qed
qed

lemma codes_ok_consume:
  assumes "codes_ok (ad_codes db) log" "consume_code k p h db = Some (r, db')"
  shows "codes_ok (ad_codes db') (log @ [Accepted (key_slot k p)])"
proof -
  let ?rows = "ad_codes db" and ?g = "\<lambda>r. code_at k p r \<and> vc_hash r = h"
  from assms(2) have g: "find ?g ?rows = Some r" and db': "ad_codes db' = filter (\<lambda>r. \<not> ?g r) ?rows"
    by (auto simp: consume_code_def Let_def comp_def)
  from find_SomeD [OF g] have r: "r \<in> set ?rows" "row_slot r = key_slot k p" "?g r" by (auto simp: code_at_slot)
  from assms(1) have d: "distinct (map row_slot ?rows)" by (simp add: codes_ok_def)
  have gone: "row_slot x \<noteq> key_slot k p" if "x \<in> set (ad_codes db')" for x
    using that r distinct_key_unique [OF d, of x r] unfolding db' by auto
  show ?thesis
  proof (rule codes_okI)
    show "distinct (map row_slot (ad_codes db'))" using d unfolding db' by (simp add: distinct_map_filter)
  next
    fix x assume x: "x \<in> set (ad_codes db')"
    then have "x \<in> set ?rows" unfolding db' by simp
    with codes_okD(2,3) [OF assms(1) this] gone [OF x]
    show "vc_attempts x = comparisons (row_slot x) (log @ [Accepted (key_slot k p)]) \<and>
        acceptances (row_slot x) (log @ [Accepted (key_slot k p)]) = 0" by auto
  next
    fix s
    show "comparisons s (log @ [Accepted (key_slot k p)]) \<le> otp_max_attempts \<and> acceptances s (log @ [Accepted (key_slot k p)]) \<le> 1"
      using codes_okD(4,5) [OF assms(1), of s] codes_okD(3) [OF assms(1) r(1)] r(2)
      by (cases "key_slot k p = s") auto
  qed
qed

lemma codes_ok_worker:
  assumes "codes_ok (ad_codes db) log" "code_worker_step e x db = (x', db')"
  shows "codes_ok (ad_codes db') (log @ code_events e x db)"
proof (cases x)
  case (CwClaim k p t code)
  with assms codes_ok_claim [OF assms(1)] show ?thesis by (auto split: option.splits prod.splits)
next
  case (CwConsume k p h)
  with assms codes_ok_consume [OF assms(1)] show ?thesis by (auto split: option.splits prod.splits)
qed (use assms in \<open>auto simp: delete_code_def codes_ok_filter split: option.splits if_splits\<close>)

lemma codes_ok_step: "code_step w w' \<Longrightarrow> codes_ok (ad_codes (cw_db w)) (cw_log w) \<Longrightarrow> codes_ok (ad_codes (cw_db w')) (cw_log w')"
proof (induction rule: code_step.induct)
  case (issue_user u p t h ex now w db)
  then show ?case by (auto simp: upsert_verification_code_def codes_ok_put split: if_splits)
next
  case (issue_target p t h ex now w db)
  then show ?case by (auto simp: upsert_verification_code_for_signup_def codes_ok_put)
next
  case (advance k w e x db)
  then show ?case by (simp add: codes_ok_worker)
next
  case (removed w us)
  then show ?case by (simp add: drop_users_def codes_ok_filter)
next
  case (joined e nu w r db)
  then show ?case
    by (auto simp: users_create_def create_user_def Let_def split: sum.splits pg_error.splits option.splits prod.splits)
qed simp

lemma codes_ok_reachable: "code_reachable w \<Longrightarrow> codes_ok (ad_codes (cw_db w)) (cw_log w)"
proof (induction rule: code_reachable.induct)
  case (start db)
  then show ?case by (simp add: codes_ok_def otp_max_attempts_def)
qed (rule codes_ok_step)

section \<open>Runs on given inputs\<close>

definition sample_otp :: "nat \<Rightarrow> otp_env" where
  "sample_otp n = \<lparr>ae_now = int n * second, ae_parse = (\<lambda>s. if s = [] then None else Some s), ae_sha = rev,
     ae_user_id = ''u'' @ digits_of_nat n, ae_token_id = ''t'' @ digits_of_nat n, ae_raw = ''raw'' @ digits_of_nat n,
     ae_code = ''654321'', oe_allow_bypass = False, oe_bypass_phones = [], oe_bypass_emails = [], oe_requester = ''10.0.0.7'',
     oe_send = (\<lambda>p t c. None)\<rparr>"

definition empty_auth_tables :: auth_db where
  "empty_auth_tables = \<lparr>ad_users = [], ad_identities = [], ad_tokens = [], ad_codes = [], ad_budgets = [], ad_companies = [],
     ad_claims = [], ad_deleted = []\<rparr>"

definition advance_code :: "nat \<Rightarrow> otp_env \<Rightarrow> code_world \<Rightarrow> code_world" where
  "advance_code k e w = (case code_worker_step e (cw_workers w ! k) (cw_db w) of (x, db) \<Rightarrow>
     w\<lparr>cw_db := db, cw_workers := (cw_workers w)[k := x], cw_log := cw_log w @ code_events e (cw_workers w ! k) (cw_db w)\<rparr>)"

lemma reach_advance_code: "code_reachable w \<Longrightarrow> k < length (cw_workers w) \<Longrightarrow> code_reachable (advance_code k e w)"
  by (auto simp: advance_code_def intro: code_reachable.step code_step.advance split: prod.split)

definition guess_code :: "string \<Rightarrow> code_world \<Rightarrow> code_world" where
  "guess_code code w = w\<lparr>cw_workers := cw_workers w @ [CwClaim (TargetKey ''a@b.lk'') PEmailLogin ''a@b.lk'' code]\<rparr>"

lemma reach_guess_code: "code_reachable w \<Longrightarrow> code_reachable (guess_code code w)"
  by (auto simp: guess_code_def intro: code_reachable.step code_step.call)

definition code_sent :: code_world where
  "code_sent = (let e = sample_otp 1; db = upsert_verification_code_for_signup PEmailLogin ''a@b.lk'' (ae_sha e (ae_code e))
       (time_add (ae_now e) otp_expiry) (ts (ae_now e)) empty_auth_tables in
     \<lparr>cw_db = db, cw_workers = [], cw_log = [CodeIssued (slot_of None PEmailLogin ''a@b.lk'')]\<rparr>)"

lemma reach_code_sent: "code_reachable code_sent"
proof -
  have "code_reachable \<lparr>cw_db = empty_auth_tables, cw_workers = [], cw_log = []\<rparr>"
    by (rule code_reachable.start) (simp add: empty_auth_tables_def)
  from code_reachable.step [OF this code_step.issue_target [OF refl]] show ?thesis
    by (simp add: code_sent_def Let_def)
qed

text \<open>Two calls with the right code and one with a wrong one, all past their claims before any is decided.\<close>

definition three_guesses :: code_world where
  "three_guesses = advance_code 2 (sample_otp 9) (advance_code 0 (sample_otp 8) (advance_code 2 (sample_otp 7)
     (advance_code 1 (sample_otp 6) (advance_code 0 (sample_otp 5)
       (guess_code ''654321'' (guess_code ''000000'' (guess_code ''654321'' code_sent)))))))"

lemma reach_three_guesses: "code_reachable three_guesses"
  unfolding three_guesses_def by (intro reach_advance_code reach_guess_code reach_code_sent) code_simp+

section \<open>Properties\<close>

text \<open>
  C18. A code can be guessed at five times and spent once, however many requests arrive at once: since the last time a
  code was issued at a place (a user and purpose, or a purpose and normalised address), at most five comparisons were
  granted there and at most one call was told the code is right.
\<close>

theorem code_guessed_and_spent_within_bounds:
  "code_reachable w \<Longrightarrow> comparisons s (cw_log w) \<le> 5 \<and> acceptances s (cw_log w) \<le> 1"
  using codes_okD(4,5) [OF codes_ok_reachable, unfolded otp_max_attempts_def] by blast

lemma code_guessed_and_spent_within_bounds_witness:
  "map (\<lambda>x. x = CwDone None) (cw_workers three_guesses) = [True, False, False] \<and>
     comparisons (slot_of None PEmailLogin ''a@b.lk'') (cw_log three_guesses) = 3 \<and>
     comparisons (slot_of None PEmailLogin ''a@b.lk'') (cw_log three_guesses) \<le> 5 \<and>
     acceptances (slot_of None PEmailLogin ''a@b.lk'') (cw_log three_guesses) \<le> 1"
proof -
  have "map (\<lambda>x. x = CwDone None) (cw_workers three_guesses) = [True, False, False] \<and>
      comparisons (slot_of None PEmailLogin ''a@b.lk'') (cw_log three_guesses) = 3" by code_simp
  with code_guessed_and_spent_within_bounds [OF reach_three_guesses, of "slot_of None PEmailLogin ''a@b.lk''"] show ?thesis
    by blast
qed

section \<open>Daily budgets\<close>

text \<open>Any statements on the budget table, each at its own time; the outcome of a take is whether it was granted.\<close>

datatype budget_op =
    TakeSend string purpose int instant
  | TakeGuess string purpose int instant
  | HandBack string purpose instant
  | Trim instant

fun op_time :: "budget_op \<Rightarrow> instant" where
  "op_time (TakeSend t p m now) = now"
| "op_time (TakeGuess t p m now) = now"
| "op_time (HandBack t p now) = now"
| "op_time (Trim now) = now"

fun do_op :: "budget_op \<Rightarrow> auth_db \<Rightarrow> bool \<times> auth_db" where
  "do_op (TakeSend t p m now) db = take_otp_send t p m now db"
| "do_op (TakeGuess t p m now) db = take_otp_guess t p m now db"
| "do_op (HandBack t p now) db = (False, refund_otp_guess t p now db)"
| "do_op (Trim now) db = (False, snd (delete_old_otp_budgets now db))"

fun do_ops :: "budget_op list \<Rightarrow> auth_db \<Rightarrow> bool list \<times> auth_db" where
  "do_ops [] db = ([], db)"
| "do_ops (x # xs) db = (let (b, db) = do_op x db; (bs, db) = do_ops xs db in (b # bs, db))"

fun is_send :: "string \<Rightarrow> purpose \<Rightarrow> int \<Rightarrow> budget_op \<Rightarrow> bool" where
  "is_send t p d (TakeSend t' p' m now) = (t' = t \<and> p' = p \<and> colombo_day now = d)"
| "is_send t p d _ = False"

fun is_guess :: "string \<Rightarrow> purpose \<Rightarrow> int \<Rightarrow> budget_op \<Rightarrow> bool" where
  "is_guess t p d (TakeGuess t' p' m now) = (t' = t \<and> p' = p \<and> colombo_day now = d)"
| "is_guess t p d _ = False"

fun is_hand_back :: "string \<Rightarrow> purpose \<Rightarrow> int \<Rightarrow> budget_op \<Rightarrow> bool" where
  "is_hand_back t p d (HandBack t' p' now) = (t' = t \<and> p' = p \<and> colombo_day now = d)"
| "is_hand_back t p d _ = False"

definition sends_granted :: "string \<Rightarrow> purpose \<Rightarrow> int \<Rightarrow> (budget_op \<times> bool) list \<Rightarrow> int" where
  "sends_granted t p d xs = sum_where (\<lambda>(x, ok). ok \<and> is_send t p d x) (\<lambda>_. 1) xs"

definition guesses_kept :: "string \<Rightarrow> purpose \<Rightarrow> int \<Rightarrow> (budget_op \<times> bool) list \<Rightarrow> int" where
  "guesses_kept t p d xs = sum_where (\<lambda>(x, ok). ok \<and> is_guess t p d x) (\<lambda>_. 1) xs -
     sum_where (\<lambda>(x, ok). is_hand_back t p d x) (\<lambda>_. 1) xs"

fun op_within :: "string \<Rightarrow> purpose \<Rightarrow> int \<Rightarrow> int \<Rightarrow> budget_op \<Rightarrow> bool" where
  "op_within t p cs cg (TakeSend t' p' m now) = (t' = t \<and> p' = p \<longrightarrow> m \<le> cs)"
| "op_within t p cs cg (TakeGuess t' p' m now) = (t' = t \<and> p' = p \<longrightarrow> m \<le> cg)"
| "op_within t p cs cg _ = True"

definition sends_on :: "string \<Rightarrow> purpose \<Rightarrow> int \<Rightarrow> auth_db \<Rightarrow> int" where
  "sends_on t p d db = (case find (budget_at t p d) (ad_budgets db) of None \<Rightarrow> 0 | Some r \<Rightarrow> ob_sends r)"

definition failed_on :: "string \<Rightarrow> purpose \<Rightarrow> int \<Rightarrow> auth_db \<Rightarrow> int" where
  "failed_on t p d db = (case find (budget_at t p d) (ad_budgets db) of None \<Rightarrow> 0 | Some r \<Rightarrow> ob_failed r)"

text \<open>What one statement does to the counters of one day.\<close>

lemma budget_at_kept [simp]:
  "budget_at t p d (r\<lparr>ob_sends := n\<rparr>) = budget_at t p d r" "budget_at t p d (r\<lparr>ob_failed := n\<rparr>) = budget_at t p d r"
  by (simp_all add: budget_at_def)

lemma find_budget_update:
  assumes "\<And>r. budget_at t p d (f r) = budget_at t p d r"
  shows "find (budget_at t p d) (update_where (budget_at t' p' d') f rows) =
    map_option (\<lambda>r. if t' = t \<and> p' = p \<and> d' = d then f r else r) (find (budget_at t p d) rows)"
proof -
  have "budget_at t' p' d' r \<longleftrightarrow> t' = t \<and> p' = p \<and> d' = d" if "find (budget_at t p d) rows = Some r" for r
    using find_SomeD [OF that] by (auto simp: budget_at_def)
  then show ?thesis by (cases "find (budget_at t p d) rows") (simp_all add: find_update_where assms)
qed

lemma find_budget_append:
  "find (budget_at t p d) (rows @ [\<lparr>ob_target = t', ob_purpose = p', ob_day = d', ob_sends = a, ob_failed = b\<rparr>]) =
     (case find (budget_at t p d) rows of Some r \<Rightarrow> Some r
      | None \<Rightarrow> if t' = t \<and> p' = p \<and> d' = d
          then Some \<lparr>ob_target = t', ob_purpose = p', ob_day = d', ob_sends = a, ob_failed = b\<rparr> else None)"
  by (auto simp: find_append budget_at_def split: option.split)

lemmas budget_finds = sends_on_def failed_on_def find_budget_update find_budget_append

lemma take_send_on:
  assumes "take_otp_send t' p' m now db = (ok, db')"
  shows "failed_on t p d db' = failed_on t p d db"
    "sends_on t p d db' = sends_on t p d db + (if ok \<and> is_send t p d (TakeSend t' p' m now) then 1 else 0)"
    "ok \<Longrightarrow> is_send t p d (TakeSend t' p' m now) \<Longrightarrow> sends_on t p d db = 0 \<or> sends_on t p d db < m"
proof -
  let ?d = "colombo_day now"
  show "failed_on t p d db' = failed_on t p d db"
    "sends_on t p d db' = sends_on t p d db + (if ok \<and> is_send t p d (TakeSend t' p' m now) then 1 else 0)"
    "ok \<Longrightarrow> is_send t p d (TakeSend t' p' m now) \<Longrightarrow> sends_on t p d db = 0 \<or> sends_on t p d db < m"
    using assms
    by (cases "find (budget_at t' p' ?d) (ad_budgets db)"; cases "find (budget_at t p d) (ad_budgets db)";
        cases "t' = t \<and> p' = p \<and> ?d = d"; auto simp: take_otp_send_def Let_def budget_finds split: if_splits)+
qed

lemma take_guess_on:
  assumes "take_otp_guess t' p' m now db = (ok, db')"
  shows "sends_on t p d db' = sends_on t p d db"
    "failed_on t p d db' = failed_on t p d db + (if ok \<and> is_guess t p d (TakeGuess t' p' m now) then 1 else 0)"
    "ok \<Longrightarrow> is_guess t p d (TakeGuess t' p' m now) \<Longrightarrow> failed_on t p d db = 0 \<or> failed_on t p d db < m"
proof -
  let ?d = "colombo_day now"
  show "sends_on t p d db' = sends_on t p d db"
    "failed_on t p d db' = failed_on t p d db + (if ok \<and> is_guess t p d (TakeGuess t' p' m now) then 1 else 0)"
    "ok \<Longrightarrow> is_guess t p d (TakeGuess t' p' m now) \<Longrightarrow> failed_on t p d db = 0 \<or> failed_on t p d db < m"
    using assms
    by (cases "find (budget_at t' p' ?d) (ad_budgets db)"; cases "find (budget_at t p d) (ad_budgets db)";
        cases "t' = t \<and> p' = p \<and> ?d = d"; auto simp: take_otp_guess_def Let_def budget_finds split: if_splits)+
qed

lemma refund_on:
  "sends_on t p d (refund_otp_guess t' p' now db) = sends_on t p d db"
  "failed_on t p d (refund_otp_guess t' p' now db) =
     failed_on t p d db - (if is_hand_back t p d (HandBack t' p' now) \<and> 0 < failed_on t p d db then 1 else 0)"
proof -
  have f: "find (budget_at t p d) (ad_budgets (refund_otp_guess t' p' now db)) =
      map_option (\<lambda>r. if t' = t \<and> p' = p \<and> colombo_day now = d \<and> 0 < ob_failed r then r\<lparr>ob_failed := ob_failed r - 1\<rparr> else r)
        (find (budget_at t p d) (ad_budgets db))"
  proof (cases "find (budget_at t p d) (ad_budgets db)")
    case (Some r)
    with find_SomeD [OF Some] show ?thesis by (auto simp: refund_otp_guess_def find_update_where budget_at_def)
  qed (simp add: refund_otp_guess_def find_update_where)
  show "sends_on t p d (refund_otp_guess t' p' now db) = sends_on t p d db"
    "failed_on t p d (refund_otp_guess t' p' now db) =
       failed_on t p d db - (if is_hand_back t p d (HandBack t' p' now) \<and> 0 < failed_on t p d db then 1 else 0)"
    by (cases "find (budget_at t p d) (ad_budgets db)"; auto simp: sends_on_def failed_on_def f)+
qed

lemma trim_on:
  assumes "colombo_day now - 1 \<le> d"
  shows "sends_on t p d (snd (delete_old_otp_budgets now db)) = sends_on t p d db"
    "failed_on t p d (snd (delete_old_otp_budgets now db)) = failed_on t p d db"
proof -
  have "find (budget_at t p d) (filter (Not \<circ> (\<lambda>r. ob_day r < colombo_day now - 1)) rows) = find (budget_at t p d) rows" for rows
    using assms by (induction rows) (auto simp: budget_at_def)
  then show "sends_on t p d (snd (delete_old_otp_budgets now db)) = sends_on t p d db"
    "failed_on t p d (snd (delete_old_otp_budgets now db)) = failed_on t p d db"
    by (simp_all add: delete_old_otp_budgets_def Let_def sends_on_def failed_on_def)
qed

lemma colombo_day_mono: "s \<le> t \<Longrightarrow> colombo_day s \<le> colombo_day t"
  unfolding colombo_day_def by (rule zdiv_mono1) (simp_all add: hour_def)

text \<open>After the day no statement counts for it.\<close>

lemma nothing_later:
  assumes "\<forall>x \<in> set ops. d < colombo_day (op_time x)"
  shows "sends_granted t p d (zip ops bs) = 0" "guesses_kept t p d (zip ops bs) = 0"
proof -
  have "\<not> is_send t p d x \<and> \<not> is_guess t p d x \<and> \<not> is_hand_back t p d x" if "x \<in> set ops" for x
    using assms that by (cases x) auto
  then have none: "\<And>x b. (x, b) \<in> set (zip ops bs) \<Longrightarrow> \<not> is_send t p d x \<and> \<not> is_guess t p d x \<and> \<not> is_hand_back t p d x"
    by (meson set_zip_leftD)
  have "sum_where q (\<lambda>_. 1) xs = (0::int)" if "\<And>y. y \<in> set xs \<Longrightarrow> \<not> q y" for q :: "budget_op \<times> bool \<Rightarrow> bool" and xs
    using that by (induction xs) auto
  with none show "sends_granted t p d (zip ops bs) = 0" "guesses_kept t p d (zip ops bs) = 0"
    unfolding sends_granted_def guesses_kept_def by (auto simp: split_def)
qed

lemma granted_Cons:
  "sends_granted t p d ((x, ok) # xs) = (if ok \<and> is_send t p d x then 1 else 0) + sends_granted t p d xs"
  "guesses_kept t p d ((x, ok) # xs) = (if ok \<and> is_guess t p d x then 1 else 0) - (if is_hand_back t p d x then 1 else 0) +
     guesses_kept t p d xs"
  by (simp_all add: sends_granted_def guesses_kept_def)

lemma do_op_on:
  assumes "do_op x db = (ok, db')" "op_within t p cs cg x" "1 \<le> cs" "1 \<le> cg"
    "sends_on t p d db \<le> cs" "failed_on t p d db \<le> cg" "colombo_day (op_time x) - 1 \<le> d \<or> (\<forall>now. x \<noteq> Trim now)"
  shows "sends_on t p d db' = sends_on t p d db + (if ok \<and> is_send t p d x then 1 else 0) \<and> sends_on t p d db' \<le> cs \<and>
    failed_on t p d db' \<le> cg \<and>
    failed_on t p d db + (if ok \<and> is_guess t p d x then 1 else 0) - (if is_hand_back t p d x then 1 else 0) \<le> failed_on t p d db'"
proof (cases x)
  case (TakeSend t' p' m now)
  with assms take_send_on [of t' p' m now db ok db' t p d] show ?thesis by auto
next
  case (TakeGuess t' p' m now)
  with assms take_guess_on [of t' p' m now db ok db' t p d] show ?thesis by auto
next
  case (HandBack t' p' now)
  with assms refund_on [of t p d t' p' now db] show ?thesis by auto
next
  case (Trim now)
  with assms trim_on [of now d t p db] show ?thesis by auto
qed

lemma budget_run:
  assumes "sorted (map op_time ops)" "\<forall>x \<in> set ops. op_within t p cs cg x" "1 \<le> cs" "1 \<le> cg"
    "sends_on t p d db \<le> cs" "failed_on t p d db \<le> cg"
  shows "sends_granted t p d (zip ops (fst (do_ops ops db))) \<le> cs - sends_on t p d db \<and>
    guesses_kept t p d (zip ops (fst (do_ops ops db))) \<le> cg - failed_on t p d db"
  using assms
proof (induction ops arbitrary: db)
  case Nil
  then show ?case by (simp add: sends_granted_def guesses_kept_def)
next
  case (Cons x ops)
  obtain ok db1 where op: "do_op x db = (ok, db1)" by fastforce
  obtain bs db2 where rest: "do_ops ops db1 = (bs, db2)" by fastforce
  have out: "fst (do_ops (x # ops) db) = ok # bs" using op rest by simp
  show ?case
  proof (cases "colombo_day (op_time x) - 1 \<le> d \<or> (\<forall>now. x \<noteq> Trim now)")
    case True
    note one = do_op_on [OF op _ Cons.prems(3,4,5,6) True]
    from one Cons.prems(2) have one: "sends_on t p d db1 = sends_on t p d db + (if ok \<and> is_send t p d x then 1 else 0)"
      "sends_on t p d db1 \<le> cs" "failed_on t p d db1 \<le> cg"
      "failed_on t p d db + (if ok \<and> is_guess t p d x then 1 else 0) - (if is_hand_back t p d x then 1 else 0) \<le> failed_on t p d db1"
      by simp_all
    have "sends_granted t p d (zip ops bs) \<le> cs - sends_on t p d db1 \<and> guesses_kept t p d (zip ops bs) \<le> cg - failed_on t p d db1"
      using Cons.IH [of db1] Cons.prems one(2,3) rest by simp
    with one(1,4) show ?thesis unfolding out zip_Cons_Cons granted_Cons by linarith
  next
    case False
    then obtain now where x: "x = Trim now" "d < colombo_day now - 1" by auto
    have later: "\<forall>y \<in> set ops. d < colombo_day (op_time y)"
    proof
      fix y assume "y \<in> set ops"
      with Cons.prems(1) x(1) have "now \<le> op_time y" by auto
      with colombo_day_mono [OF this] x(2) show "d < colombo_day (op_time y)" by simp
    qed
    with nothing_later [OF later, of t p bs] x(1) Cons.prems(5,6) show ?thesis
      unfolding out zip_Cons_Cons granted_Cons by simp
  qed
qed

text \<open>
  C19. The daily budgets hold under any sequence of their statements with a clock that does not run backwards: on one
  Colombo day, for one key and purpose whose takes all carry the caps \<open>cs\<close> and \<open>cg\<close>, at most \<open>cs\<close> sends are
  granted, and at most \<open>cg\<close> guesses are granted and not handed back. The nightly trim does not reopen a day.
\<close>

theorem otp_budgets_hold:
  assumes "sorted (map op_time ops)" "\<forall>x \<in> set ops. op_within t p cs cg x" "1 \<le> cs" "1 \<le> cg"
    "\<forall>r \<in> set (ad_budgets db). \<not> budget_at t p d r"
  shows "sends_granted t p d (zip ops (fst (do_ops ops db))) \<le> cs \<and> guesses_kept t p d (zip ops (fst (do_ops ops db))) \<le> cg"
proof -
  from assms(5) have "find (budget_at t p d) (ad_budgets db) = None" by (simp add: find_None_iff)
  then have "sends_on t p d db = 0" "failed_on t p d db = 0" by (simp_all add: sends_on_def failed_on_def)
  with budget_run [OF assms(1-4), of d db] assms(3,4) show ?thesis by simp
qed

definition sample_ops :: "budget_op list" where
  "sample_ops = map (\<lambda>n. TakeSend ''k'' PEmailLogin 5 (int n * minute)) [0..<7] @
     [TakeGuess ''k'' PEmailLogin 10 (9 * minute), HandBack ''k'' PEmailLogin (10 * minute), Trim (24 * hour)]"

lemma otp_budgets_hold_witness:
  "sends_granted ''k'' PEmailLogin 0 (zip sample_ops (fst (do_ops sample_ops empty_auth_tables))) = 5 \<and>
   sends_granted ''k'' PEmailLogin 0 (zip sample_ops (fst (do_ops sample_ops empty_auth_tables))) \<le> 5 \<and>
   guesses_kept ''k'' PEmailLogin 0 (zip sample_ops (fst (do_ops sample_ops empty_auth_tables))) \<le> 10"
proof -
  have five: "sends_granted ''k'' PEmailLogin 0 (zip sample_ops (fst (do_ops sample_ops empty_auth_tables))) = 5" by code_simp
  have "sorted (map op_time sample_ops)" by code_simp
  moreover have "\<forall>x \<in> set sample_ops. op_within ''k'' PEmailLogin 5 10 x" by code_simp
  ultimately show ?thesis
    using otp_budgets_hold [of sample_ops "''k''" PEmailLogin 5 10 empty_auth_tables 0] five by (simp add: empty_auth_tables_def)
qed

end
