(* ===== verification/Auth_Verify.thy ===== *)
theory Auth_Verify
  imports Auth_Codes Auth_Sessions
begin

text \<open>
  The verification handlers (\<open>verification.go\<close>, \<open>workemail.go\<close>, the corporate part of \<open>otp.go\<close>): each spends a code or
  checks a form, writes one field with the trust level it gives, and issues a session.
\<close>

section \<open>Chains of steps on the tables\<close>

definition db_bind ::
  "('e + 'a) \<times> 'd \<Rightarrow> ('a \<Rightarrow> 'd \<Rightarrow> ('e + 'b) \<times> 'd) \<Rightarrow> ('e + 'b) \<times> 'd" where
  "db_bind m f = (case m of (Inl err, db) \<Rightarrow> (Inl err, db) | (Inr x, db) \<Rightarrow> f x db)"

definition db_check :: "'e option \<times> 'd \<Rightarrow> ('d \<Rightarrow> ('e + 'b) \<times> 'd) \<Rightarrow> ('e + 'b) \<times> 'd" where
  "db_check m f = (case m of (Some err, db) \<Rightarrow> (Inl err, db) | (None, db) \<Rightarrow> f db)"

definition db_read :: "'e + 'a \<Rightarrow> 'd \<Rightarrow> ('e + 'a) \<times> 'd" where
  "db_read r db = (r, db)"

section \<open>Work addresses\<close>

text \<open>
  Besides: the keyed hash, and the text of the two embedded domain lists.
\<close>

record verify_env = otp_env +
  ve_hmac :: "string \<Rightarrow> string"
  ve_free_domains :: string
  ve_disposable_domains :: string

definition strip_plus_tag :: "string \<Rightarrow> string" where
  "strip_plus_tag l = (case cut_at (CHR ''+'') l of Some (c # cs, _) \<Rightarrow> c # cs | _ \<Rightarrow> l)"

definition normalize_email_for_hash :: "string \<Rightarrow> string" where
  "normalize_email_for_hash s =
     (let m = to_lower (trim_space s) in
      case cut_at (CHR ''@'') (rev m) of
        Some (d, c # l) \<Rightarrow> strip_plus_tag (rev (c # l)) @ ''@'' @ rev d
      | _ \<Rightarrow> m)"

definition hash_work_email :: "'z verify_env_scheme \<Rightarrow> string \<Rightarrow> string" where
  "hash_work_email e m = ve_hmac e (normalize_email_for_hash m)"

definition fields :: "string \<Rightarrow> string list" where
  "fields s = filter (\<lambda>w. w \<noteq> []) (split_on (CHR '' '') (map (\<lambda>c. if is_space c then CHR '' '' else c) s))"

fun join_with :: "string \<Rightarrow> string list \<Rightarrow> string" where
  "join_with sep [] = []"
| "join_with sep [w] = w"
| "join_with sep (w # ws) = w @ sep @ join_with sep ws"

definition normalize_company_name :: "string \<Rightarrow> string" where
  "normalize_company_name n = join_with '' '' (fields (to_lower n))"

definition parse_domain_list :: "string \<Rightarrow> string list" where
  "parse_domain_list file =
     map to_lower (filter (\<lambda>l. l \<noteq> [] \<and> \<not> has_prefix ''#'' l) (map trim_space (split_on (CHR 0x0A) file)))"

definition role_based_local_parts :: "string list" where
  "role_based_local_parts = [''info'', ''admin'', ''hr'', ''contact'', ''support'', ''careers'', ''jobs'', ''office'']"

definition split_email :: "string \<Rightarrow> (string \<times> string) option" where
  "split_email s = (case cut_at (CHR ''@'') s of
     Some (l, d) \<Rightarrow> if l = [] \<or> d = [] then None else Some (l, d) | None \<Rightarrow> None)"

definition is_rejected_corporate_email :: "'z verify_env_scheme \<Rightarrow> string \<Rightarrow> bool" where
  "is_rejected_corporate_email e s = (case split_email s of
     None \<Rightarrow> True
   | Some (l, d) \<Rightarrow>
       to_lower d \<in> set (parse_domain_list (ve_free_domains e)) \<or>
       to_lower d \<in> set (parse_domain_list (ve_disposable_domains e)) \<or>
       to_lower (strip_plus_tag l) \<in> set role_based_local_parts)"

definition domain_from_email :: "string \<Rightarrow> string" where
  "domain_from_email s = to_lower (case split_email s of None \<Rightarrow> [] | Some (_, d) \<Rightarrow> d)"

section \<open>Requests\<close>

record start_request =
  sq_user :: string
  sq_purpose :: string
  sq_target :: string

record code_request = start_request +
  sq_code :: string
  sq_company :: string

fun purpose_name :: "purpose \<Rightarrow> string" where
  "purpose_name PPhone = ''phone''"
| "purpose_name PPersonalEmail = ''personal_email''"
| "purpose_name PCorporateEmail = ''corporate_email''"
| "purpose_name PEmailSignup = ''email_signup''"
| "purpose_name PEmailLogin = ''email_login''"
| "purpose_name PAccountClaim = ''account_claim''"

definition purpose_mismatch :: "string \<Rightarrow> purpose \<Rightarrow> 'z start_request_scheme \<Rightarrow> go_error option" where
  "purpose_mismatch handler p r =
     (if sq_purpose r = purpose_name p then None
      else Some (wrap1 (''purpose mismatch for '' @ handler) ErrInvalidInput))"

definition max_full_name_length :: nat where "max_full_name_length = 200"
definition max_legal_name_length :: nat where "max_legal_name_length = 200"
definition max_address_length :: nat where "max_address_length = 500"
definition max_company_name_length :: nat where "max_company_name_length = 200"

section \<open>The handlers\<close>

definition require_linkedin :: "'z auth_env_scheme \<Rightarrow> string \<Rightarrow> auth_db \<Rightarrow> go_error + user_row" where
  "require_linkedin e user db =
     res_bind (users_get_by_id e user db) (\<lambda>u.
     if text_or_empty (us_linkedin u) = []
     then Inl (wrap1 ''connect LinkedIn before verifying phone, email, or personal details'' ErrForbidden)
     else Inr u)"

definition start_phone_verification ::
  "'z otp_env_scheme \<Rightarrow> 'y start_request_scheme \<Rightarrow> auth_db \<Rightarrow> (go_error + int) \<times> auth_db" where
  "start_phone_verification e r db =
     (let t = normalize_verification_target PPhone (sq_target r) in
      db_check (purpose_mismatch ''StartPhoneVerification'' PPhone r, db) (\<lambda>db.
      db_check (validate_phone_number t, db) (\<lambda>db.
      db_bind (db_read (require_linkedin e (sq_user r) db) db) (\<lambda>_.
      start_verification e (sq_user r) PPhone t))))"

definition verify_phone_code ::
  "'z otp_env_scheme \<Rightarrow> code_request \<Rightarrow> auth_db \<Rightarrow> (go_error + session_result) \<times> auth_db" where
  "verify_phone_code e r db =
     (let t = normalize_verification_target PPhone (sq_target r) in
      db_check (purpose_mismatch ''VerifyPhoneCode'' PPhone r, db) (\<lambda>db.
      db_check (verify_and_consume_code e (sq_user r) PPhone t (sq_code r) db) (\<lambda>db.
      db_bind (update_phone_number e (sq_user r) t verified_level db) (issue_session e))))"

definition start_personal_email_verification ::
  "'z otp_env_scheme \<Rightarrow> 'y start_request_scheme \<Rightarrow> auth_db \<Rightarrow> (go_error + int) \<times> auth_db" where
  "start_personal_email_verification e r db =
     (let t = normalize_verification_target PPersonalEmail (sq_target r) in
      db_check (purpose_mismatch ''StartPersonalEmailVerification'' PPersonalEmail r, db) (\<lambda>db.
      db_check (validate_email_shape t, db) (\<lambda>db.
      db_bind (db_read (require_linkedin e (sq_user r) db) db) (\<lambda>_.
      start_verification e (sq_user r) PPersonalEmail t))))"

definition verify_personal_email_code ::
  "'z otp_env_scheme \<Rightarrow> code_request \<Rightarrow> auth_db \<Rightarrow> (go_error + session_result) \<times> auth_db" where
  "verify_personal_email_code e r db =
     (let t = normalize_verification_target PPersonalEmail (sq_target r) in
      db_check (purpose_mismatch ''VerifyPersonalEmailCode'' PPersonalEmail r, db) (\<lambda>db.
      db_check (verify_and_consume_code e (sq_user r) PPersonalEmail t (sq_code r) db) (\<lambda>db.
      db_bind (update_personal_email e (sq_user r) t verified_level db) (issue_session e))))"

definition submit_personal_details ::
  "'z auth_env_scheme \<Rightarrow> string \<Rightarrow> string \<Rightarrow> string \<Rightarrow> auth_db \<Rightarrow> (go_error + session_result) \<times> auth_db" where
  "submit_personal_details e user legal_name addr db =
     (if legal_name = [] then (Inl (wrap1 ''legal name is required'' ErrInvalidInput), db)
      else if max_legal_name_length < length legal_name then (Inl (wrap1 ''legal name is too long'' ErrInvalidInput), db)
      else if max_address_length < length addr then (Inl (wrap1 ''address is too long'' ErrInvalidInput), db)
      else db_bind (db_read (require_linkedin e user db) db) (\<lambda>_ db.
           db_bind (update_personal_details e user legal_name addr verified_level db) (issue_session e)))"

definition start_corporate_email_verification ::
  "'z verify_env_scheme \<Rightarrow> 'y start_request_scheme \<Rightarrow> auth_db \<Rightarrow> (go_error + int) \<times> auth_db" where
  "start_corporate_email_verification e r db =
     (let t = normalize_verification_target PCorporateEmail (sq_target r) in
      db_check (purpose_mismatch ''StartCorporateEmailVerification'' PCorporateEmail r, db) (\<lambda>db.
      db_check (if is_rejected_corporate_email e t
                then Some (wrap1 ''please use your work email, not a personal address'' ErrInvalidInput) else None, db) (\<lambda>db.
      db_check (validate_email_shape t, db)
      (start_verification e (sq_user r) PCorporateEmail t))))"

definition err_reputational_risk :: go_error where
  "err_reputational_risk = wrap1
     ''this work email has already been used to verify a different account, which harms this company's standing on the platform''
     ErrConflict"

definition err_company_domain_mismatch :: go_error where
  "err_company_domain_mismatch = wrap1
     ''the email domain does not match the company name entered. Please check both and try again'' ErrInvalidInput"

text \<open>The mailbox may have verified no other account.\<close>

definition mailbox_is_free :: "'z verify_env_scheme \<Rightarrow> string \<Rightarrow> user_row \<Rightarrow> auth_db \<Rightarrow> go_error option" where
  "mailbox_is_free e h u db =
     (case users_get_by_work_email_hash h db of
        Inr holder \<Rightarrow> if us_id holder \<noteq> us_id u then Some err_reputational_risk else None
      | Inl err \<Rightarrow> if errors_is err ErrNotFound then None else Some err)"

text \<open>Whether the company is one we know; an unknown one is queued for review.\<close>

definition company_verdict ::
  "'z verify_env_scheme \<Rightarrow> user_row \<Rightarrow> string \<Rightarrow> string \<Rightarrow> auth_db \<Rightarrow> (go_error + bool) \<times> auth_db" where
  "company_verdict e u company domain db =
     (case companies_get_by_name (normalize_company_name company) db of
        Inr known \<Rightarrow> (if domain \<in> set (kc_domains known) then Inr True else Inl err_company_domain_mismatch, db)
      | Inl err \<Rightarrow>
          if errors_is err ErrNotFound
          then (case claims_insert e (us_id u) company domain db of
                  (Some err', db') \<Rightarrow> (Inl err', db') | (None, db') \<Rightarrow> (Inr False, db'))
          else (Inl err, db))"

definition verify_corporate_email_code ::
  "'z verify_env_scheme \<Rightarrow> code_request \<Rightarrow> auth_db \<Rightarrow> (go_error + session_result) \<times> auth_db" where
  "verify_corporate_email_code e r db =
     (let t = normalize_verification_target PCorporateEmail (sq_target r); company = trim_space (sq_company r);
          h = hash_work_email e t; domain = domain_from_email t in
      db_check (purpose_mismatch ''VerifyCorporateEmailCode'' PCorporateEmail r, db) (\<lambda>db.
      if company = [] then (Inl (wrap1 ''company name is required'' ErrInvalidInput), db)
      else if max_company_name_length < length company then (Inl (wrap1 ''company name is too long'' ErrInvalidInput), db)
      else
      db_check (verify_and_consume_code e (sq_user r) PCorporateEmail t (sq_code r) db) (\<lambda>db.
      db_bind (db_read (users_get_by_id e (sq_user r) db) db) (\<lambda>u db.
      db_check (mailbox_is_free e h u db, db) (\<lambda>db.
      db_bind (company_verdict e u company domain db) (\<lambda>verified db.
      db_bind (update_work_email_verified e (sq_user r) domain verified h company verified_level db) (issue_session e)))))))"

section \<open>The profile\<close>

record profile =
  pr_user :: uuid
  pr_full_name :: string
  pr_photo :: string
  pr_trust :: int
  pr_phone_verified :: bool
  pr_email_verified :: bool
  pr_details_complete :: bool
  pr_domain :: string
  pr_work_verified :: bool
  pr_rating :: int
  pr_rating_count :: int
  pr_completed :: int
  pr_phone :: string
  pr_email :: string
  pr_legal_name :: string
  pr_address :: string
  pr_linkedin :: bool
  pr_guest :: bool
  pr_company :: string

definition profile_from_user :: "user_row \<Rightarrow> profile" where
  "profile_from_user u = \<lparr>pr_user = us_id u, pr_full_name = us_full_name u, pr_photo = text_or_empty (us_photo u),
     pr_trust = us_trust u, pr_phone_verified = (text_or_empty (us_phone u) \<noteq> []),
     pr_email_verified = (text_or_empty (us_email u) \<noteq> []), pr_details_complete = (text_or_empty (us_legal_name u) \<noteq> []),
     pr_domain = text_or_empty (us_domain u), pr_work_verified = us_work_verified u, pr_rating = us_rating u,
     pr_rating_count = us_rating_count u, pr_completed = us_completed u, pr_phone = text_or_empty (us_phone u),
     pr_email = text_or_empty (us_email u), pr_legal_name = text_or_empty (us_legal_name u),
     pr_address = text_or_empty (us_address u), pr_linkedin = (text_or_empty (us_linkedin u) \<noteq> []), pr_guest = us_guest u,
     pr_company = text_or_empty (us_company u)\<rparr>"

definition get_profile :: "'z auth_env_scheme \<Rightarrow> string \<Rightarrow> auth_db \<Rightarrow> go_error + profile" where
  "get_profile e user db = res_bind (users_get_by_id e user db) (\<lambda>u. Inr (profile_from_user u))"

definition complete_profile_setup ::
  "'z verify_env_scheme \<Rightarrow> string \<Rightarrow> string \<Rightarrow> string \<Rightarrow> string \<Rightarrow> auth_db \<Rightarrow> (go_error + profile) \<times> auth_db" where
  "complete_profile_setup e user full_name company_name company_email db =
     (let n = trim_space full_name; company = trim_space company_name in
      if n = [] then (Inl (wrap1 ''full name is required'' ErrInvalidInput), db)
      else if max_full_name_length < length n then (Inl (wrap1 ''full name is too long'' ErrInvalidInput), db)
      else
      db_bind (db_read (users_get_by_id e user db) db) (\<lambda>u db.
      db_bind (if us_full_name u \<noteq> n then update_full_name e user n db else (Inr u, db)) (\<lambda>u db.
      if company_email = [] then (Inr (profile_from_user u), db)
      else if company = [] then (Inl (wrap1 ''company name is required alongside a company email'' ErrInvalidInput), db)
      else if max_company_name_length < length company then (Inl (wrap1 ''company name is too long'' ErrInvalidInput), db)
      else
      db_bind (start_corporate_email_verification e
                 \<lparr>sq_user = user, sq_purpose = purpose_name PCorporateEmail, sq_target = company_email\<rparr> db) (\<lambda>_ db.
      (Inr (profile_from_user u), db)))))"

end
