(* ===== verification/Auth_Signup.thy ===== *)
theory Auth_Signup
  imports Auth_Verify
begin

text \<open>
  Signing up and in (\<open>service_signup.go\<close>, \<open>service_email.go\<close>, \<open>identity_resolution.go\<close>, \<open>guest.go\<close>) and the claim of an
  account that already holds an address (\<open>accountclaim.go\<close>). What Apple, Google and LinkedIn answer, and the stored
  copy of a LinkedIn picture, come with the call; a claim ticket is its payload and signature, its base64 and JSON
  encoding left out.
\<close>

datatype federated_provider = FederatedApple | FederatedGoogle | FederatedLinkedIn | FederatedOther string

fun federated_name :: "federated_provider \<Rightarrow> string" where
  "federated_name FederatedApple = ''apple''"
| "federated_name FederatedGoogle = ''google''"
| "federated_name FederatedLinkedIn = ''linkedin''"
| "federated_name (FederatedOther s) = s"

text \<open>A verified identity: subject, address and name.\<close>

record verified_identity =
  vi_subject :: string
  vi_email :: string
  vi_name :: string
  vi_picture :: string

text \<open>
  \<open>sg_verify\<close> checks an id token and nonce; \<open>sg_linkedin\<close> exchanges a code; \<open>sg_capture\<close> is the path of a fetched
  picture, if it could be stored; \<open>sg_sign\<close> signs a ticket body; \<open>sg_handle\<close> is the drawn guest name.
\<close>

record claim_ticket =
  ct_email :: string
  ct_provider :: string
  ct_subject :: string
  ct_expires :: int

record signup_env = verify_env +
  sg_verify :: "federated_provider \<Rightarrow> string \<Rightarrow> string \<Rightarrow> verified_identity option"
  sg_linkedin :: "string \<Rightarrow> string \<Rightarrow> verified_identity option"
  sg_capture :: "string \<Rightarrow> string option"
  sg_sign :: "claim_ticket \<Rightarrow> string"
  sg_key_set :: bool
  sg_handle :: string

definition err_age_confirmation_required :: go_error where
  "err_age_confirmation_required = wrap1 ''you must confirm you are 18 or older to create an account'' ErrInvalidInput"

section \<open>Claiming an account\<close>

text \<open>A signup can also end by asking for a claim: the error that carries the ticket, which unwraps to a conflict.\<close>

record claim_required =
  cr_ticket :: "claim_ticket \<times> string"
  cr_email :: string
  cr_resend_after :: int

datatype signup_error = Plain go_error | AccountClaimRequired claim_required

definition plain :: "(go_error + 'a) \<times> 'd \<Rightarrow> (signup_error + 'a) \<times> 'd" where
  "plain m = (case m of (Inl err, db) \<Rightarrow> (Inl (Plain err), db) | (Inr x, db) \<Rightarrow> (Inr x, db))"

definition unix :: "instant \<Rightarrow> int" where "unix t = t div second"

definition mint_claim_ticket ::
  "'z signup_env_scheme \<Rightarrow> string \<Rightarrow> federated_provider \<Rightarrow> string \<Rightarrow> go_error + (claim_ticket \<times> string)" where
  "mint_claim_ticket e m p s =
     (let c = \<lparr>ct_email = m, ct_provider = federated_name p, ct_subject = s,
               ct_expires = unix (time_add (ae_now e) otp_expiry)\<rparr> in
      if \<not> sg_key_set e then Inl (wrap1 ''claim ticket signing key is not configured'' ErrInternal) else Inr (c, sg_sign e c))"

definition err_invalid_claim_ticket :: go_error where
  "err_invalid_claim_ticket = wrap1 ''this request has expired, please sign in again'' ErrInvalidInput"

definition parse_claim_ticket :: "'z signup_env_scheme \<Rightarrow> claim_ticket \<times> string \<Rightarrow> go_error + claim_ticket" where
  "parse_claim_ticket e t = (case t of (c, sig) \<Rightarrow>
     if sig = [] then Inl err_invalid_claim_ticket
     else if \<not> sg_key_set e then Inl (wrap1 ''claim ticket signing key is not configured'' ErrInternal)
     else if sig \<noteq> sg_sign e c then Inl err_invalid_claim_ticket
     else if ct_email c = [] \<or> ct_subject c = [] \<or> ct_provider c = [] then Inl err_invalid_claim_ticket
     else if time_after (ae_now e) (ct_expires c * second) then Inl err_invalid_claim_ticket
     else Inr c)"

definition send_account_claim_code :: "'z otp_env_scheme \<Rightarrow> string \<Rightarrow> auth_db \<Rightarrow> (go_error + int) \<times> auth_db" where
  "send_account_claim_code e m = start_target_keyed_verification e PAccountClaim m"

definition begin_account_claim ::
  "'z signup_env_scheme \<Rightarrow> string \<Rightarrow> federated_provider \<Rightarrow> string \<Rightarrow> auth_db \<Rightarrow> signup_error \<times> auth_db" where
  "begin_account_claim e m p s db =
     (case mint_claim_ticket e m p s of
        Inl err \<Rightarrow> (Plain err, db)
      | Inr t \<Rightarrow>
          (case send_account_claim_code e m db of
             (Inl err, db') \<Rightarrow> (Plain err, db')
           | (Inr n, db') \<Rightarrow> (AccountClaimRequired \<lparr>cr_ticket = t, cr_email = m, cr_resend_after = n\<rparr>, db')))"

definition claim_if_email_taken ::
  "'z signup_env_scheme \<Rightarrow> string \<Rightarrow> federated_provider \<Rightarrow> string \<Rightarrow> auth_db \<Rightarrow> signup_error option \<times> auth_db" where
  "claim_if_email_taken e raw p s db =
     (let m = normalize_email raw in
      if m = [] then (None, db)
      else case users_get_by_personal_email m db of
        Inl err \<Rightarrow> (if errors_is err ErrNotFound then None else Some (Plain err), db)
      | Inr _ \<Rightarrow> (case begin_account_claim e m p s db of (err, db') \<Rightarrow> (Some err, db')))"

definition resend_account_claim_code ::
  "'z signup_env_scheme \<Rightarrow> claim_ticket \<times> string \<Rightarrow> auth_db \<Rightarrow> (go_error + int) \<times> auth_db" where
  "resend_account_claim_code e t db =
     (case parse_claim_ticket e t of Inl err \<Rightarrow> (Inl err, db) | Inr c \<Rightarrow> send_account_claim_code e (ct_email c) db)"

section \<open>Resolving an identity\<close>

fun to_repository_identity_provider :: "federated_provider \<Rightarrow> go_error + id_provider" where
  "to_repository_identity_provider FederatedApple = Inr IdApple"
| "to_repository_identity_provider FederatedGoogle = Inr IdGoogle"
| "to_repository_identity_provider p =
     Inl (wrap1 (''service: \"'' @ federated_name p @ ''\" has no user_identities row'') ErrInvalidInput)"

definition capture_linkedin_photo ::
  "'z signup_env_scheme \<Rightarrow> user_row \<Rightarrow> string \<Rightarrow> auth_db \<Rightarrow> user_row \<times> auth_db" where
  "capture_linkedin_photo e u picture db =
     (if picture = [] then (u, db)
      else case sg_capture e picture of
        None \<Rightarrow> (u, db)
      | Some path \<Rightarrow>
          (case update_profile_photo e (us_id u) path db of
             (Inl _, db') \<Rightarrow> (u, db') | (Inr _, db') \<Rightarrow> (u\<lparr>us_photo := null_text path\<rparr>, db')))"

definition blank_user :: user_row where "blank_user = new_user_row [] 0"

text \<open>The four accounts a signup makes, each with the level its own fields earn.\<close>

definition linkedin_account :: "verified_identity \<Rightarrow> new_user" where
  "linkedin_account i = \<lparr>nu_linkedin = vi_subject i, nu_full_name = vi_name i, nu_photo = [],
     nu_trust = compute_trust_level (blank_user\<lparr>us_linkedin := null_text (vi_subject i)\<rparr>), nu_age_ok = True,
     nu_guest = False, nu_email = normalize_email (vi_email i)\<rparr>"

definition federated_account :: "verified_identity \<Rightarrow> new_user" where
  "federated_account i = \<lparr>nu_linkedin = [], nu_full_name = vi_name i, nu_photo = [],
     nu_trust = compute_trust_level blank_user, nu_age_ok = True, nu_guest = False,
     nu_email = normalize_email (vi_email i)\<rparr>"

definition guest_account :: "'z signup_env_scheme \<Rightarrow> new_user" where
  "guest_account e = \<lparr>nu_linkedin = [], nu_full_name = sg_handle e, nu_photo = [],
     nu_trust = compute_trust_level (blank_user\<lparr>us_guest := True\<rparr>), nu_age_ok = True, nu_guest = True, nu_email = []\<rparr>"

definition email_account :: new_user where
  "email_account = \<lparr>nu_linkedin = [], nu_full_name = [], nu_photo = [],
     nu_trust = compute_trust_level blank_user, nu_age_ok = True, nu_guest = False, nu_email = []\<rparr>"

definition resolve_or_create_linkedin ::
  "'z signup_env_scheme \<Rightarrow> verified_identity \<Rightarrow> bool \<Rightarrow> auth_db \<Rightarrow> (signup_error + (user_row \<times> bool)) \<times> auth_db" where
  "resolve_or_create_linkedin e i age_ok db =
     (case users_get_by_linkedin_sub (vi_subject i) db of
        Inr u \<Rightarrow> (Inr (u, False), db)
      | Inl err \<Rightarrow>
          if \<not> errors_is err ErrNotFound then (Inl (Plain err), db)
          else if \<not> age_ok then (Inl (Plain err_age_confirmation_required), db)
          else (case claim_if_email_taken e (vi_email i) FederatedLinkedIn (vi_subject i) db of
            (Some err, db1) \<Rightarrow> (Inl err, db1)
          | (None, db1) \<Rightarrow>
              (case users_create e (linkedin_account i) db1 of
                 (Inl err, db2) \<Rightarrow> (Inl (Plain err), db2)
               | (Inr u, db2) \<Rightarrow>
                   (case capture_linkedin_photo e u (vi_picture i) db2 of (u, db3) \<Rightarrow> (Inr (u, True), db3)))))"

definition resolve_or_create_apple_google ::
  "'z signup_env_scheme \<Rightarrow> federated_provider \<Rightarrow> verified_identity \<Rightarrow> bool \<Rightarrow> auth_db \<Rightarrow>
     (signup_error + (user_row \<times> bool)) \<times> auth_db" where
  "resolve_or_create_apple_google e p i age_ok db =
     (case to_repository_identity_provider p of
        Inl err \<Rightarrow> (Inl (Plain err), db)
      | Inr q \<Rightarrow>
          (case identities_get_by_provider_subject q (vi_subject i) db of
             Inr known \<Rightarrow> plain (case users_get_by_id e (id_user known) db of Inl err \<Rightarrow> (Inl err, db) | Inr u \<Rightarrow> (Inr (u, False), db))
           | Inl err \<Rightarrow>
               if \<not> errors_is err ErrNotFound then (Inl (Plain err), db)
               else if \<not> age_ok then (Inl (Plain err_age_confirmation_required), db)
               else (case claim_if_email_taken e (vi_email i) p (vi_subject i) db of
                 (Some err, db1) \<Rightarrow> (Inl err, db1)
               | (None, db1) \<Rightarrow>
                   (case users_create e (federated_account i) db1 of
                      (Inl err, db2) \<Rightarrow> (Inl (Plain err), db2)
                    | (Inr u, db2) \<Rightarrow>
                        (case identities_insert e (us_id u) q (vi_subject i) (vi_email i) db2 of
                           (Some err, db3) \<Rightarrow> (Inl (Plain err), db3)
                         | (None, db3) \<Rightarrow> (Inr (u, True), db3))))))"

definition resolve_or_create_identity ::
  "'z signup_env_scheme \<Rightarrow> federated_provider \<Rightarrow> verified_identity \<Rightarrow> bool \<Rightarrow> auth_db \<Rightarrow>
     (signup_error + (user_row \<times> bool)) \<times> auth_db" where
  "resolve_or_create_identity e p i age_ok =
     (if p = FederatedLinkedIn then resolve_or_create_linkedin e i age_ok else resolve_or_create_apple_google e p i age_ok)"

definition link_identity_to_user ::
  "'z auth_env_scheme \<Rightarrow> string \<Rightarrow> federated_provider \<Rightarrow> string \<Rightarrow> auth_db \<Rightarrow> go_error option \<times> auth_db" where
  "link_identity_to_user e user p s db =
     (case users_get_by_id e user db of
        Inl err \<Rightarrow> (Some err, db)
      | Inr u \<Rightarrow>
          if p = FederatedLinkedIn
          then (case update_linkedin_sub e user s verified_level db of
                  (Inl err, db') \<Rightarrow> (Some err, db') | (Inr _, db') \<Rightarrow> (None, db'))
          else (case to_repository_identity_provider p of
            Inl err \<Rightarrow> (Some err, db)
          | Inr q \<Rightarrow>
              (case identities_insert e user q s [] db of
                 (Some err, db1) \<Rightarrow> (Some err, db1)
               | (None, db1) \<Rightarrow>
                   if \<not> us_guest u then (None, db1)
                   else (case clear_guest_flag e user verified_level db1 of
                           (Inl err, db2) \<Rightarrow> (Some err, db2) | (Inr _, db2) \<Rightarrow> (None, db2)))))"

definition attach_claimed_identity ::
  "'z auth_env_scheme \<Rightarrow> user_row \<Rightarrow> federated_provider \<Rightarrow> string \<Rightarrow> auth_db \<Rightarrow> go_error option \<times> auth_db" where
  "attach_claimed_identity e u p s db =
     (let sub = text_or_empty (us_linkedin u) in
      if p = FederatedLinkedIn \<and> sub \<noteq> [] \<and> sub \<noteq> s then (None, db)
      else if p = FederatedLinkedIn \<and> sub = s then (None, db)
      else (case link_identity_to_user e (us_id u) p s db of
              (Some err, db') \<Rightarrow> (if errors_is err ErrConflict then None else Some err, db')
            | (None, db') \<Rightarrow> (None, db')))"

fun federated_of :: "string \<Rightarrow> federated_provider" where
  "federated_of s = (if s = ''apple'' then FederatedApple else if s = ''google'' then FederatedGoogle
     else if s = ''linkedin'' then FederatedLinkedIn else FederatedOther s)"

definition complete_account_claim ::
  "'z signup_env_scheme \<Rightarrow> claim_ticket \<times> string \<Rightarrow> string \<Rightarrow> auth_db \<Rightarrow> (go_error + session_result) \<times> auth_db" where
  "complete_account_claim e t code db =
     db_bind (db_read (parse_claim_ticket e t) db) (\<lambda>c db.
     db_check (verify_and_consume_target_keyed_code e PAccountClaim (ct_email c) code db) (\<lambda>db.
     case users_get_by_personal_email (ct_email c) db of
       Inl err \<Rightarrow>
         (Inl (if errors_is err ErrNotFound
               then wrap1 ''that account is no longer available, please sign in again'' ErrInvalidInput else err), db)
     | Inr u \<Rightarrow>
         db_check (attach_claimed_identity e u (federated_of (ct_provider c)) (ct_subject c) db) (\<lambda>db.
         db_bind (db_read (users_get_by_id e (us_id u) db) db) (issue_session e))))"

section \<open>Signing up\<close>

definition sanitized_name_hint :: "string \<Rightarrow> string" where
  "sanitized_name_hint h = (let n = trim_space h in if max_full_name_length < length n then [] else n)"

definition sign_in_failed :: go_error where
  "sign_in_failed = wrap1 ''sign-in failed, please try again'' ErrInvalidInput"

definition linkedin_sign_in_failed :: go_error where
  "linkedin_sign_in_failed = wrap1 ''linkedin sign-in failed, please try again'' ErrInvalidInput"

definition finish_signup ::
  "'z auth_env_scheme \<Rightarrow> (signup_error + (user_row \<times> bool)) \<times> auth_db \<Rightarrow> (signup_error + session_result) \<times> auth_db" where
  "finish_signup e m = db_bind m (\<lambda>(u, is_new) db. plain (finish_signup_session e u is_new db))"

definition complete_federated_signup ::
  "'z signup_env_scheme \<Rightarrow> federated_provider \<Rightarrow> string \<Rightarrow> string \<Rightarrow> string \<Rightarrow> bool \<Rightarrow> auth_db \<Rightarrow>
     (signup_error + session_result) \<times> auth_db" where
  "complete_federated_signup e p token nonce hint age_ok db =
     (if p \<noteq> FederatedApple \<and> p \<noteq> FederatedGoogle
      then (Inl (Plain (wrap1 (''unsupported identity provider for account creation: '' @ federated_name p) ErrInvalidInput)), db)
      else case sg_verify e p token nonce of
        None \<Rightarrow> (Inl (Plain sign_in_failed), db)
      | Some v \<Rightarrow>
          (let n = (if vi_name v = [] then sanitized_name_hint hint else vi_name v) in
           finish_signup e (resolve_or_create_identity e p (v\<lparr>vi_name := n, vi_picture := []\<rparr>) age_ok db)))"

definition complete_linkedin_onboarding ::
  "'z signup_env_scheme \<Rightarrow> string \<Rightarrow> string \<Rightarrow> bool \<Rightarrow> auth_db \<Rightarrow> (signup_error + session_result) \<times> auth_db" where
  "complete_linkedin_onboarding e code uri age_ok db =
     (case sg_linkedin e code uri of
        None \<Rightarrow> (Inl (Plain linkedin_sign_in_failed), db)
      | Some v \<Rightarrow> finish_signup e (resolve_or_create_identity e FederatedLinkedIn v age_ok db))"

definition guest_signup :: "'z signup_env_scheme \<Rightarrow> bool \<Rightarrow> auth_db \<Rightarrow> (go_error + session_result) \<times> auth_db" where
  "guest_signup e age_ok db =
     (if \<not> age_ok then (Inl err_age_confirmation_required, db)
      else db_bind (users_create e (guest_account e) db) (\<lambda>u db. finish_signup_session e u True db))"

definition start_email_signup ::
  "'z otp_env_scheme \<Rightarrow> 'y start_request_scheme \<Rightarrow> auth_db \<Rightarrow> (go_error + int) \<times> auth_db" where
  "start_email_signup e r db =
     db_check (purpose_mismatch ''StartEmailSignup'' PEmailSignup r, db)
       (start_target_keyed_verification e PEmailSignup (normalize_verification_target PEmailSignup (sq_target r)))"

definition start_email_login ::
  "'z otp_env_scheme \<Rightarrow> 'y start_request_scheme \<Rightarrow> auth_db \<Rightarrow> (go_error + int) \<times> auth_db" where
  "start_email_login e r db =
     db_check (purpose_mismatch ''StartEmailLogin'' PEmailLogin r, db)
       (start_target_keyed_verification e PEmailLogin (normalize_verification_target PEmailLogin (sq_target r)))"

definition sign_up_or_recover_with_email ::
  "'z auth_env_scheme \<Rightarrow> string \<Rightarrow> bool \<Rightarrow> auth_db \<Rightarrow> (go_error + (user_row \<times> bool)) \<times> auth_db" where
  "sign_up_or_recover_with_email e m age_ok db =
     (case users_get_by_personal_email m db of
        Inr u \<Rightarrow> (Inr (u, False), db)
      | Inl err \<Rightarrow>
          if \<not> errors_is err ErrNotFound then (Inl err, db)
          else if \<not> age_ok then (Inl err_age_confirmation_required, db)
          else db_bind (users_create e email_account db) (\<lambda>created db.
               db_bind (update_personal_email e (us_id created) m verified_level db) (\<lambda>u db. (Inr (u, True), db))))"

definition complete_email_signup ::
  "'z otp_env_scheme \<Rightarrow> string \<Rightarrow> string \<Rightarrow> bool \<Rightarrow> auth_db \<Rightarrow> (go_error + session_result) \<times> auth_db" where
  "complete_email_signup e m code age_ok db =
     (let m = normalize_verification_target PEmailSignup m in
      db_check (verify_and_consume_target_keyed_code e PEmailSignup m code db) (\<lambda>db.
      db_bind (sign_up_or_recover_with_email e m age_ok db) (\<lambda>(u, is_new) db. finish_signup_session e u is_new db)))"

definition complete_email_login ::
  "'z otp_env_scheme \<Rightarrow> code_request \<Rightarrow> auth_db \<Rightarrow> (go_error + session_result) \<times> auth_db" where
  "complete_email_login e r db =
     (let m = normalize_verification_target PEmailLogin (sq_target r) in
      db_check (purpose_mismatch ''CompleteEmailLogin'' PEmailLogin r, db) (\<lambda>db.
      case verify_and_consume_target_keyed_code e PEmailLogin m (sq_code r) db of (code_err, db) \<Rightarrow>
        if code_err \<noteq> None \<and> (the code_err = err_otp_guess_budget \<or> errors_is (the code_err) ErrUnavailable)
        then (Inl (the code_err), db)
        else case (code_err, users_get_by_personal_email m db) of
          (None, Inr u) \<Rightarrow> issue_session e u db
        | _ \<Rightarrow> (Inl (wrap1 ''invalid email or code'' ErrUnauthorized), db)))"

definition link_identity ::
  "'z signup_env_scheme \<Rightarrow> string \<Rightarrow> federated_provider \<Rightarrow> string \<Rightarrow> string \<Rightarrow> string \<Rightarrow> string \<Rightarrow> auth_db \<Rightarrow>
     (go_error + session_result) \<times> auth_db" where
  "link_identity e user p token nonce code uri db =
     db_bind (case p of
         FederatedLinkedIn \<Rightarrow>
           (case sg_linkedin e code uri of
              None \<Rightarrow> Inl linkedin_sign_in_failed | Some v \<Rightarrow> Inr (vi_subject v, trim_space (vi_name v)))
       | FederatedOther s \<Rightarrow> Inl (wrap1 (''unsupported identity provider for LinkIdentity: '' @ s) ErrInvalidInput)
       | _ \<Rightarrow> (case sg_verify e p token nonce of None \<Rightarrow> Inl sign_in_failed | Some v \<Rightarrow> Inr (vi_subject v, [])), db) (\<lambda>(s, n) db.
     db_check (link_identity_to_user e user p s db) (\<lambda>db.
     db_bind (db_read (users_get_by_id e user db) db) (\<lambda>u db.
     db_bind (issue_session e u db) (\<lambda>ses db.
     (Inr (if n \<noteq> [] \<and> n \<noteq> us_full_name u then ses\<lparr>sr_suggested := n\<rparr> else ses), db)))))"

section \<open>The service\<close>

text \<open>Every operation of the \<open>Service\<close> interface that writes the modelled tables, and the hourly sweeps.\<close>

datatype auth_request =
    AuFederated federated_provider string string string bool
  | AuLinkedIn string string bool
  | AuGuest bool
  | AuStartEmailSignup start_request
  | AuEmailSignup string string bool
  | AuStartEmailLogin start_request
  | AuEmailLogin code_request
  | AuClaim "claim_ticket \<times> string" string
  | AuResendClaim "claim_ticket \<times> string"
  | AuRefresh string
  | AuRevoke string
  | AuLink string federated_provider string string string string
  | AuStartPhone start_request
  | AuPhone code_request
  | AuStartEmail start_request
  | AuEmail code_request
  | AuDetails string string string
  | AuStartCorporate start_request
  | AuCorporate code_request
  | AuProfile string string string string
  | AuRating string int int instant
  | AuCompleted string int
  | AuDelete string
  | AuSweepTokens
  | AuSweepGuests
  | AuSweepBudgets

fun auth_serve :: "signup_env \<Rightarrow> auth_request \<Rightarrow> auth_db \<Rightarrow> auth_db" where
  "auth_serve e (AuFederated p token nonce hint age_ok) db = snd (complete_federated_signup e p token nonce hint age_ok db)"
| "auth_serve e (AuLinkedIn code uri age_ok) db = snd (complete_linkedin_onboarding e code uri age_ok db)"
| "auth_serve e (AuGuest age_ok) db = snd (guest_signup e age_ok db)"
| "auth_serve e (AuStartEmailSignup r) db = snd (start_email_signup e r db)"
| "auth_serve e (AuEmailSignup m code age_ok) db = snd (complete_email_signup e m code age_ok db)"
| "auth_serve e (AuStartEmailLogin r) db = snd (start_email_login e r db)"
| "auth_serve e (AuEmailLogin r) db = snd (complete_email_login e r db)"
| "auth_serve e (AuClaim t code) db = snd (complete_account_claim e t code db)"
| "auth_serve e (AuResendClaim t) db = snd (resend_account_claim_code e t db)"
| "auth_serve e (AuRefresh token) db = snd (refresh_session e token db)"
| "auth_serve e (AuRevoke token) db = revoke_session e token db"
| "auth_serve e (AuLink user p token nonce code uri) db = snd (link_identity e user p token nonce code uri db)"
| "auth_serve e (AuStartPhone r) db = snd (start_phone_verification e r db)"
| "auth_serve e (AuPhone r) db = snd (verify_phone_code e r db)"
| "auth_serve e (AuStartEmail r) db = snd (start_personal_email_verification e r db)"
| "auth_serve e (AuEmail r) db = snd (verify_personal_email_code e r db)"
| "auth_serve e (AuDetails user n ad) db = snd (submit_personal_details e user n ad db)"
| "auth_serve e (AuStartCorporate r) db = snd (start_corporate_email_verification e r db)"
| "auth_serve e (AuCorporate r) db = snd (verify_corporate_email_code e r db)"
| "auth_serve e (AuProfile user n c m) db = snd (complete_profile_setup e user n c m db)"
| "auth_serve e (AuRating user rating n occurred) db = snd (apply_rating_update e user rating n occurred db)"
| "auth_serve e (AuCompleted user n) db = snd (apply_meetups_completed_update e user n db)"
| "auth_serve e (AuDelete user) db = snd (delete_account e user db)"
| "auth_serve e AuSweepTokens db = snd (sweep_expired_refresh_tokens e db)"
| "auth_serve e AuSweepGuests db = snd (sweep_abandoned_guests e db)"
| "auth_serve e AuSweepBudgets db = snd (delete_old_otp_budgets (ts (ae_now e)) db)"

text \<open>
  One statement or locked transaction on the accounts, as a call in flight makes it: what the repositories are asked to
  write, with the level each caller computes. Handlers are chains of these and of statements on other tables.
\<close>

datatype account_call =
    CaPhone string string
  | CaEmail string string
  | CaDetails string string string
  | CaLinkedIn string string
  | CaClearGuest string
  | CaWork string string bool string string
  | CaName string string
  | CaPhoto string string
  | CaNewLinkedIn verified_identity
  | CaNewFederated verified_identity
  | CaNewGuest
  | CaNewEmail
  | CaIdentity string id_provider string string
  | CaRating string int int instant
  | CaCompleted string int
  | CaDelete string
  | CaDropGuests duration int

fun account_run :: "signup_env \<Rightarrow> account_call \<Rightarrow> auth_db \<Rightarrow> auth_db" where
  "account_run e (CaPhone user phone) db = snd (update_phone_number e user phone verified_level db)"
| "account_run e (CaEmail user m) db = snd (update_personal_email e user m verified_level db)"
| "account_run e (CaDetails user n ad) db = snd (update_personal_details e user n ad verified_level db)"
| "account_run e (CaLinkedIn user s) db = snd (update_linkedin_sub e user s verified_level db)"
| "account_run e (CaClearGuest user) db = snd (clear_guest_flag e user verified_level db)"
| "account_run e (CaWork user d v h c) db = snd (update_work_email_verified e user d v h c verified_level db)"
| "account_run e (CaName user n) db = snd (update_full_name e user n db)"
| "account_run e (CaPhoto user url) db = snd (update_profile_photo e user url db)"
| "account_run e (CaNewLinkedIn i) db = snd (users_create e (linkedin_account i) db)"
| "account_run e (CaNewFederated i) db = snd (users_create e (federated_account i) db)"
| "account_run e CaNewGuest db = snd (users_create e (guest_account e) db)"
| "account_run e CaNewEmail db = snd (users_create e email_account db)"
| "account_run e (CaIdentity user p s m) db = snd (identities_insert e user p s m db)"
| "account_run e (CaRating user rating n occurred) db = snd (apply_rating_update e user rating n occurred db)"
| "account_run e (CaCompleted user n) db = snd (apply_meetups_completed_update e user n db)"
| "account_run e (CaDelete user) db = snd (users_delete e user db)"
| "account_run e (CaDropGuests retention batch) db = snd (users_delete_abandoned_guests e retention batch db)"

text \<open>
  The databases the module can reach: whole requests, single statements of requests in flight, and statements on other
  tables, in any order, from tables without accounts.
\<close>

inductive account_point :: "auth_db \<Rightarrow> bool" where
  start: "ad_users db = [] \<Longrightarrow> ad_identities db = [] \<Longrightarrow> account_point db"
| served: "account_point db \<Longrightarrow> account_point (auth_serve e r db)"
| in_flight: "account_point db \<Longrightarrow> account_point (account_run e c db)"
| beside: "account_point db \<Longrightarrow> ad_users db' = ad_users db \<Longrightarrow> ad_identities db' = ad_identities db \<Longrightarrow> account_point db'"

end
