(* ===== verification/Auth_Facts.thy ===== *)
theory Auth_Facts
  imports Auth_Signup
begin

text \<open>
  What the account rows promise: the stored trust level is the one the row earns, and an address, a number, a LinkedIn
  member or a provider's subject belongs to one account. \<open>account_move\<close> is one statement (or locked transaction) on
  the rows; every handler is a chain of them, so the facts hold at every point of any interleaving.
\<close>

section \<open>Moves\<close>

text \<open>A new field \<open>f\<close> with the level it earns, written over the locked row.\<close>

definition earned :: "(user_row \<Rightarrow> user_row) \<Rightarrow> bool" where
  "earned f \<longleftrightarrow> (\<forall>r. us_trust r = compute_trust_level r \<longrightarrow> us_trust (f r) = compute_trust_level (f r)) \<and> (\<forall>r. us_id (f r) = us_id r)"

definition plain_change :: "(user_row \<Rightarrow> user_row) \<Rightarrow> bool" where
  "plain_change f \<longleftrightarrow> earned f \<and> (\<forall>a b. user_clash (f a) b = user_clash a b \<and> user_clash a (f b) = user_clash a b)"

inductive account_move :: "auth_db \<Rightarrow> auth_db \<Rightarrow> bool" where
  elsewhere: "ad_users db' = ad_users db \<Longrightarrow> ad_identities db' = ad_identities db \<Longrightarrow> account_move db db'"
| created: "create_user i nu now db = Inr (r, db') \<Longrightarrow> nu_trust nu = (if nu_guest nu then 0 else 1) \<Longrightarrow> account_move db db'"
| written: "write_user f i now db = Inr (Some (r, db')) \<Longrightarrow> earned f \<Longrightarrow> account_move db db'"
| cached: "plain_change f \<Longrightarrow> account_move db (db\<lparr>ad_users := update_where p f (ad_users db)\<rparr>)"
| linked: "insert_identity u p s m db = Inr db' \<Longrightarrow> account_move db db'"
| dropped: "ad_users db' = filter P (ad_users db) \<Longrightarrow> ad_identities db' = filter Q (ad_identities db) \<Longrightarrow> account_move db db'"

abbreviation moves :: "auth_db \<Rightarrow> auth_db \<Rightarrow> bool" where "moves \<equiv> rtranclp account_move"

lemma moves_refl [intro, simp]: "moves db db"
  by simp

lemma moves_one: "account_move db db' \<Longrightarrow> moves a db \<Longrightarrow> moves a db'"
  by (rule rtranclp.rtrancl_into_rtrancl)

lemma moves_elsewhere: "ad_users db' = ad_users db \<Longrightarrow> ad_identities db' = ad_identities db \<Longrightarrow> moves a db \<Longrightarrow> moves a db'"
  by (rule moves_one [OF account_move.elsewhere])

named_theorems move_rules "a step of a handler is a chain of account moves"

lemma moves_bind [move_rules]:
  "moves a (snd m) \<Longrightarrow> (\<And>x db. m = (Inr x, db) \<Longrightarrow> moves a db \<Longrightarrow> moves a (snd (f x db))) \<Longrightarrow> moves a (snd (db_bind m f))"
  by (auto simp: db_bind_def split: prod.split sum.split)

lemma moves_check [move_rules]:
  "moves a (snd m) \<Longrightarrow> (\<And>db. m = (None, db) \<Longrightarrow> moves a db \<Longrightarrow> moves a (snd (f db))) \<Longrightarrow> moves a (snd (db_check m f))"
  by (auto simp: db_check_def split: prod.split option.split)

lemma moves_read [move_rules]: "moves a db \<Longrightarrow> moves a (snd (db_read r db))"
  by (simp add: db_read_def)

lemma moves_pair [move_rules]: "moves a db \<Longrightarrow> moves a (snd (x, db))"
  by simp

lemma moves_if [move_rules]: "(c \<Longrightarrow> moves a (snd x)) \<Longrightarrow> (\<not> c \<Longrightarrow> moves a (snd y)) \<Longrightarrow> moves a (snd (if c then x else y))"
  by simp

section \<open>The steps\<close>

lemma level_of_updated [simp]: "compute_trust_level (r\<lparr>us_updated := t\<rparr>) = compute_trust_level r"
  "compute_trust_level (r\<lparr>us_trust := n\<rparr>) = compute_trust_level r"
  by (simp_all add: compute_trust_level_def)

text \<open>
  The locked row is the one the statement writes, so the level computed from it may be put into the change itself.
\<close>

definition leveled :: "(int \<Rightarrow> user_row \<Rightarrow> user_row) \<Rightarrow> (user_row \<Rightarrow> user_row) \<Rightarrow> user_row \<Rightarrow> user_row" where
  "leveled g pending r = g (verified_level (pending r)) r"

lemma write_user_locked:
  "get_user_by_id i db = Some locked \<Longrightarrow> write_user (g (h locked)) i now db = write_user (\<lambda>r. g (h r) r) i now db"
  by (simp add: write_user_def get_user_by_id_def)

lemma locked_update_moves:
  assumes "\<And>t. write t = write_user (g t)" "earned (leveled g pending)" "moves a db"
  shows "moves a (snd (locked_update e user pending verified_level write conflict what db))"
proof -
  have move: "account_move db db'" if "get_user_by_id i db = Some locked"
    "write_user (g (verified_level (pending locked))) i now db = Inr (Some (r, db'))" for i locked now r db'
  proof -
    from that(2) have "write_user (leveled g pending) i now db = Inr (Some (r, db'))"
      unfolding write_user_locked [OF that(1), of g "\<lambda>r. verified_level (pending r)"] leveled_def .
    then show ?thesis by (rule account_move.written [OF _ assms(2)])
  qed
  with assms(1,3) show ?thesis
    by (auto simp: locked_update_def split: sum.split option.split prod.split dest: move intro: moves_one)
qed

lemma earned_fields:
  "earned (leveled (\<lambda>t r. r\<lparr>us_phone := p, us_trust := t, us_guest := False\<rparr>) (\<lambda>u. u\<lparr>us_phone := p\<rparr>))"
  "earned (leveled (\<lambda>t r. r\<lparr>us_email := p, us_trust := t, us_guest := False\<rparr>) (\<lambda>u. u\<lparr>us_email := p\<rparr>))"
  "earned (leveled (\<lambda>t r. r\<lparr>us_legal_name := p, us_address := q, us_trust := t, us_guest := False\<rparr>)
     (\<lambda>u. u\<lparr>us_legal_name := p, us_address := q\<rparr>))"
  "earned (leveled (\<lambda>t r. r\<lparr>us_linkedin := p, us_trust := t, us_guest := False\<rparr>) (\<lambda>u. u\<lparr>us_linkedin := p\<rparr>))"
  "earned (leveled (\<lambda>t r. r\<lparr>us_guest := False, us_trust := t\<rparr>) (\<lambda>u. u))"
  "earned (leveled (\<lambda>t r. r\<lparr>us_domain := d, us_work_verified := v, us_work_verified_at := w, us_work_hash := h,
       us_trust := t, us_company := c, us_guest := False\<rparr>) (\<lambda>u. u\<lparr>us_domain := d, us_work_verified := v, us_company := c\<rparr>))"
  by (simp_all add: earned_def leveled_def verified_level_def after_verification_def compute_trust_level_def)

lemma field_moves [move_rules]:
  "moves a db \<Longrightarrow> moves a (snd (update_phone_number e user phone verified_level db))"
  "moves a db \<Longrightarrow> moves a (snd (update_personal_email e user m verified_level db))"
  "moves a db \<Longrightarrow> moves a (snd (update_personal_details e user l ad verified_level db))"
  "moves a db \<Longrightarrow> moves a (snd (update_linkedin_sub e user s verified_level db))"
  "moves a db \<Longrightarrow> moves a (snd (clear_guest_flag e user verified_level db))"
  "moves a db \<Longrightarrow> moves a (snd (update_work_email_verified e user d v h c verified_level db))"
  unfolding update_phone_number_def update_personal_email_def update_personal_details_def update_linkedin_sub_def
    clear_guest_flag_def update_work_email_verified_def
  by (rule locked_update_moves [OF _ earned_fields(1)] locked_update_moves [OF _ earned_fields(2)]
      locked_update_moves [OF _ earned_fields(3)] locked_update_moves [OF _ earned_fields(4)]
      locked_update_moves [OF _ earned_fields(5)] locked_update_moves [OF _ earned_fields(6)],
      simp_all add: update_user_phone_number_def update_user_personal_email_def update_user_personal_details_def
        update_user_linkedin_sub_def clear_user_guest_flag_def update_user_work_email_verified_def)+

lemma earned_names: "earned (\<lambda>r. r\<lparr>us_full_name := n\<rparr>)" "earned (\<lambda>r. r\<lparr>us_photo := p\<rparr>)"
  by (simp_all add: earned_def compute_trust_level_def)

lemma name_moves [move_rules]:
  "moves a db \<Longrightarrow> moves a (snd (update_full_name e user n db))"
  "moves a db \<Longrightarrow> moves a (snd (update_profile_photo e user n db))"
  by (auto simp: update_full_name_def update_profile_photo_def update_user_full_name_def update_user_profile_photo_def
      split: sum.split option.split prod.split intro: moves_one account_move.written [OF _ earned_names(1)]
      account_move.written [OF _ earned_names(2)])

lemma users_create_moves [move_rules]:
  "nu_trust nu = (if nu_guest nu then 0 else 1) \<Longrightarrow> moves a db \<Longrightarrow> moves a (snd (users_create e nu db))"
  by (auto simp: users_create_def split: sum.split pg_error.split prod.split intro: moves_one account_move.created)

lemma identity_moves [move_rules]: "moves a db \<Longrightarrow> moves a (snd (identities_insert e user p s m db))"
  by (auto simp: identities_insert_def split: sum.split pg_error.split intro: moves_one account_move.linked)

lemma claims_moves [move_rules]: "moves a db \<Longrightarrow> moves a (snd (claims_insert e user c d db))"
  by (auto simp: claims_insert_def insert_unverified_company_claim_def split: sum.split if_splits intro: moves_elsewhere)

text \<open>Tokens, codes and budgets are elsewhere.\<close>

definition same_accounts :: "auth_db \<Rightarrow> auth_db \<Rightarrow> bool" where
  "same_accounts db db' \<longleftrightarrow> ad_users db' = ad_users db \<and> ad_identities db' = ad_identities db \<and> ad_companies db' = ad_companies db"

lemma same_moves: "same_accounts db db' \<Longrightarrow> moves a db \<Longrightarrow> moves a db'"
  unfolding same_accounts_def using moves_elsewhere by blast

lemma same_accounts_trans: "same_accounts a b \<Longrightarrow> same_accounts b c \<Longrightarrow> same_accounts a c"
  by (simp add: same_accounts_def)

lemma same_refl [simp]: "same_accounts db db"
  by (simp add: same_accounts_def)

lemma same_tokens:
  "same_accounts db (db\<lparr>ad_tokens := x\<rparr>)" "same_accounts db (db\<lparr>ad_codes := y\<rparr>)" "same_accounts db (db\<lparr>ad_budgets := z\<rparr>)"
  by (simp_all add: same_accounts_def)

lemma same_issue: "same_accounts db (snd (issue_session e u db))"
  by (auto simp: issue_session_def tokens_create_def create_refresh_token_def Let_def same_accounts_def
      split: sum.split prod.split)

lemma same_rotate: "same_accounts db (snd (tokens_rotate e i h ex db))"
  by (auto simp: tokens_rotate_def create_refresh_token_def mark_refresh_token_replaced_def Let_def same_accounts_def
      split: sum.splits option.splits prod.splits if_splits)

lemma same_reuse: "same_accounts db (snd (handle_refresh_token_reuse e u db))"
  by (auto simp: handle_refresh_token_reuse_def tokens_revoke_all_for_user_def revoke_all_refresh_tokens_for_user_def
      revoke_sessions_def Let_def same_accounts_def)

lemma same_refresh: "same_accounts db (snd (refresh_session e token db))"
proof -
  have g1: "same_accounts db d" if "tokens_rotate e i h ex db = (r, d)" for i h ex r d
    using same_rotate [where db = db] that by (metis snd_conv)
  have g2: "same_accounts c d" if "handle_refresh_token_reuse e u c = (r, d)" for u c r d
    using same_reuse [where db = c] that by (metis snd_conv)
  show ?thesis unfolding refresh_session_def
    by (auto split: sum.split prod.split dest!: g1 g2 intro: same_accounts_trans)
qed

lemma same_take:
  "same_accounts db (snd (take_otp_send t p m now db))" "same_accounts db (snd (take_otp_guess t p m now db))"
  by (auto simp: take_otp_send_def take_otp_guess_def Let_def same_accounts_def split: option.split)

lemma same_take_send: "same_accounts db (snd (take_send e p t db))"
proof -
  have g: "same_accounts c d" if "take_otp_send k p m now c = (r, d)" for k m now c r d
    using same_take(1) [where db = c] that by (metis snd_conv)
  show ?thesis by (auto simp: take_send_def Let_def split: prod.split bool.split dest!: g intro: same_accounts_trans)
qed

lemma same_take_guess: "same_accounts db (snd (take_guess e p t db))"
proof -
  have g: "same_accounts c d" if "take_otp_guess k p m now c = (r, d)" for k m now c r d
    using same_take(2) [where db = c] that by (metis snd_conv)
  show ?thesis by (auto simp: take_guess_def Let_def split: prod.split bool.split dest!: g intro: same_accounts_trans)
qed

lemma same_start: "same_accounts db (snd (start_verification e user p t db))"
proof -
  have g1: "same_accounts db d" if "take_send e p t db = (r, d)" for r d
    using same_take_send [where db = db] that by (metis snd_conv)
  have g2: "same_accounts c d" if "upsert_verification_code u p t h ex now c = Inr d" for u h ex now c d
    using that by (auto simp: upsert_verification_code_def same_tokens split: if_splits)
  show ?thesis unfolding start_verification_def
    by (auto split: sum.split prod.split option.split dest!: g1 g2 intro: same_accounts_trans)
qed

lemma same_start_target: "same_accounts db (snd (start_target_keyed_verification e p t db))"
proof -
  have g1: "same_accounts db d" if "take_send e p t db = (r, d)" for r d
    using same_take_send [where db = db] that by (metis snd_conv)
  show ?thesis unfolding start_target_keyed_verification_def Let_def upsert_verification_code_for_signup_def
    by (auto split: prod.split option.split dest!: g1 intro: same_accounts_trans same_tokens)
qed

lemma same_claim: "same_accounts db (snd (claim_and_consume_code e k p t code db))"
proof -
  have g1: "same_accounts c d" if "claim_code k p m now c = Some (r, d)" for m now c r d
    using that by (auto simp: claim_code_def same_tokens split: option.splits)
  have g2: "same_accounts c d" if "consume_code k p h c = Some (r, d)" for h c r d
    using that by (auto simp: consume_code_def Let_def same_tokens)
  have g3: "same_accounts c (delete_code k p c)" for c by (simp add: delete_code_def same_tokens)
  show ?thesis unfolding claim_and_consume_code_def explain_unclaimable_attempt_def
    by (auto split: prod.split option.split dest!: g1 g2 intro: same_accounts_trans g3)
qed

lemma same_refund: "same_accounts db (refund_guess e p keys db)"
proof -
  have "same_accounts db (fold (\<lambda>k. refund_otp_guess k p now) keys db)" for now
    by (induction keys arbitrary: db) (auto simp: refund_otp_guess_def intro: same_accounts_trans [OF same_tokens(3)])
  then show ?thesis by (simp add: refund_guess_def)
qed

lemma same_verify:
  "same_accounts db (snd (verify_and_consume_code e user p t code db))"
  "same_accounts db (snd (verify_and_consume_target_keyed_code e p t code db))"
proof -
  have g: "same_accounts db d" if "take_guess e p t db = (r, d)" for r d
    using same_take_guess [where db = db] that by (metis snd_conv)
  have c: "same_accounts c d" if "claim_and_consume_code e k p t code c = (r, d)" for k c r d
    using same_claim [where db = c] that by (metis snd_conv)
  show "same_accounts db (snd (verify_and_consume_code e user p t code db))"
    "same_accounts db (snd (verify_and_consume_target_keyed_code e p t code db))"
    unfolding verify_and_consume_code_def verify_and_consume_target_keyed_code_def
    by (auto split: prod.split option.split sum.split dest!: g c intro: same_accounts_trans same_refund)
qed

lemmas same_rules [move_rules] = same_moves [OF same_issue] same_moves [OF same_refresh] same_moves [OF same_start]
  same_moves [OF same_start_target] same_moves [OF same_verify(1)] same_moves [OF same_verify(2)]

lemma drop_moves: "moves a db \<Longrightarrow> moves a (drop_users us db)"
  by (rule moves_one [OF account_move.dropped]) (simp_all add: drop_users_def)

lemma delete_moves: "moves a db \<Longrightarrow> moves a (snd (delete_account e user db))"
  by (auto simp: delete_account_def users_delete_def delete_user_def split: sum.split prod.split if_split
      intro: drop_moves moves_elsewhere [OF _ _ drop_moves])

lemma same_sweep: "same_accounts db (snd (sweep_tokens n e k db))"
proof (induction n arbitrary: k db)
  case (Suc n)
  have g: "same_accounts db d" if "tokens_delete_expired e ret m db = (r, d)" for ret m r d
    using that by (auto simp: tokens_delete_expired_def delete_expired_refresh_tokens_def Let_def same_tokens split: if_splits)
  show ?case by (auto split: prod.split sum.split dest!: g intro: same_accounts_trans Suc)
qed simp

lemma guest_sweep_moves: "moves a db \<Longrightarrow> moves a (snd (sweep_guests n e k db))"
proof (induction n arbitrary: k db)
  case (Suc n)
  have "moves a d" if "users_delete_abandoned_guests e ret m db = (r, d)" for ret m r d
    using that Suc.prems
    by (auto simp: users_delete_abandoned_guests_def delete_abandoned_guests_def Let_def split: if_splits
        intro: moves_elsewhere [OF _ _ drop_moves])
  with Suc show ?case by (auto split: prod.split sum.split)
qed simp

lemma cache_moves:
  "moves a db \<Longrightarrow> moves a (snd (apply_rating_update e user rating n t db))"
  "moves a db \<Longrightarrow> moves a (snd (apply_meetups_completed_update e user m db))"
proof -
  have "plain_change (\<lambda>r. r\<lparr>us_rating := x, us_rating_count := y, us_rating_at := z, us_updated := w\<rparr>)"
    "plain_change (\<lambda>r. r\<lparr>us_completed := c, us_updated := w\<rparr>)" for x y z w c
    by (simp_all add: plain_change_def earned_def compute_trust_level_def user_clash_def)
  then have c: "moves a db \<Longrightarrow> moves a (db\<lparr>ad_users := update_where p (\<lambda>r. r\<lparr>us_rating := x, us_rating_count := y,
      us_rating_at := z, us_updated := w\<rparr>) (ad_users db)\<rparr>)"
    "moves a db \<Longrightarrow> moves a (db\<lparr>ad_users := update_where p (\<lambda>r. r\<lparr>us_completed := c, us_updated := w\<rparr>) (ad_users db)\<rparr>)"
    for p x y z w c using moves_one [OF account_move.cached] by blast+
  show "moves a db \<Longrightarrow> moves a (snd (apply_rating_update e user rating n t db))"
    "moves a db \<Longrightarrow> moves a (snd (apply_meetups_completed_update e user m db))"
    using c by (simp_all add: apply_rating_update_def apply_meetups_completed_update_def upsert_user_rating_cache_def
        upsert_user_meetups_completed_cache_def Let_def split: sum.split)
qed

lemma finish_session_moves [move_rules]: "moves a db \<Longrightarrow> moves a (snd (finish_signup_session e u b db))"
proof -
  have "same_accounts db d" if "issue_session e u db = (r, d)" for r d
    using same_issue [where db = db] that by (metis snd_conv)
  then show "moves a db \<Longrightarrow> moves a (snd (finish_signup_session e u b db))"
    by (auto simp: finish_signup_session_def split: prod.split sum.split intro: same_moves)
qed

lemma plain_moves [move_rules]: "moves a (snd m) \<Longrightarrow> moves a (snd (plain m))"
  by (auto simp: plain_def split: prod.split sum.split)

section \<open>The handlers\<close>

lemma link_moves [move_rules]: "moves a db \<Longrightarrow> moves a (snd (link_identity_to_user e user p s db))"
proof -
  assume m: "moves a db"
  have "moves a d" if "update_linkedin_sub e user s verified_level db = (r, d)" for r d
    using field_moves(4) [OF m] that by (metis snd_conv)
  moreover have i: "moves a d" if "identities_insert e user q s x db = (r, d)" for q x r d
    using identity_moves [OF m] that by (metis snd_conv)
  moreover have "moves a d" if "identities_insert e user q s x db = (r, c)" "clear_guest_flag e user verified_level c = (r', d)" for q x r c r' d
    using field_moves(5) [OF i [OF that(1)]] that(2) by (metis snd_conv)
  ultimately show ?thesis using m unfolding link_identity_to_user_def
    by (auto split: sum.split prod.split option.split)
qed

lemma attach_moves [move_rules]: "moves a db \<Longrightarrow> moves a (snd (attach_claimed_identity e u p s db))"
  using link_moves [of a db e "us_id u" p s]
  by (auto simp: attach_claimed_identity_def Let_def split: prod.split option.split)

lemma taken_moves: "moves a db \<Longrightarrow> claim_if_email_taken e m p s db = (r, d) \<Longrightarrow> moves a d"
  using same_moves [OF same_start_target, of a _ e]
  by (auto simp: claim_if_email_taken_def begin_account_claim_def send_account_claim_code_def Let_def
      split: sum.splits prod.splits if_splits) (metis snd_conv)+

lemma capture_moves: "moves a db \<Longrightarrow> moves a (snd (capture_linkedin_photo e u x db))"
  using name_moves(2) [of a db e "us_id u"]
  by (auto simp: capture_linkedin_photo_def split: option.split prod.split sum.split) (metis snd_conv)+

lemma blank_levels [simp]: "compute_trust_level blank_user = 1" "compute_trust_level (blank_user\<lparr>us_linkedin := l\<rparr>) = 1"
  "compute_trust_level (blank_user\<lparr>us_guest := True\<rparr>) = 0"
  by (simp_all add: blank_user_def new_user_row_def compute_trust_level_def text_or_empty_def)

lemma account_levels [simp]:
  "nu_trust (linkedin_account i) = 1" "nu_guest (linkedin_account i) = False"
  "nu_trust (federated_account i) = 1" "nu_guest (federated_account i) = False"
  "nu_trust (guest_account e) = 0" "nu_guest (guest_account e) = True"
  "nu_trust email_account = 1" "nu_guest email_account = False"
  by (simp_all add: linkedin_account_def federated_account_def guest_account_def email_account_def)

lemma created_moves:
  "users_create e nu db = (r, d) \<Longrightarrow> nu_trust nu = (if nu_guest nu then 0 else 1) \<Longrightarrow> moves a db \<Longrightarrow> moves a d"
  using users_create_moves by (metis snd_conv)

lemma resolve_linkedin_moves: "moves a db \<Longrightarrow> moves a (snd (resolve_or_create_linkedin e i g db))"
proof -
  assume m: "moves a db"
  have "moves a f" if "claim_if_email_taken e x p s db = (r, c)" "users_create e nu c = (r', d)" "capture_linkedin_photo e u y d = (v, f)"
    "nu_trust nu = 1" "\<not> nu_guest nu" for x p s r c nu r' d u y v f
    using capture_moves [OF created_moves [OF that(2) _ taken_moves [OF m that(1)]], of e u y] that(3-5) by simp
  with m show ?thesis unfolding resolve_or_create_linkedin_def
    by (auto simp: blank_levels split: sum.split prod.split option.split dest: taken_moves [OF m] created_moves)
qed

lemma resolve_apple_google_moves: "moves a db \<Longrightarrow> moves a (snd (resolve_or_create_apple_google e p i g db))"
proof -
  assume m: "moves a db"
  have "moves a f" if "claim_if_email_taken e x q s db = (r, c)" "users_create e nu c = (r', d)" "identities_insert e y q' s' x' d = (v, f)"
    "nu_trust nu = 1" "\<not> nu_guest nu" for x q s r c nu r' d y q' s' x' v f
    using identity_moves [OF created_moves [OF that(2) _ taken_moves [OF m that(1)]], of e y q' s' x'] that(3-5) by simp
  with m show ?thesis unfolding resolve_or_create_apple_google_def
    by (auto simp: blank_levels plain_def split: sum.split prod.split option.split dest: taken_moves [OF m] created_moves)
qed

lemma resolve_moves [move_rules]: "moves a db \<Longrightarrow> moves a (snd (resolve_or_create_identity e p i g db))"
  by (simp add: resolve_or_create_identity_def resolve_linkedin_moves resolve_apple_google_moves)

lemma finish_moves [move_rules]: "moves a (snd m) \<Longrightarrow> moves a (snd (finish_signup e m))"
  unfolding finish_signup_def by (intro move_rules) (auto intro!: move_rules)

lemma recover_moves [move_rules]: "moves a db \<Longrightarrow> moves a (snd (sign_up_or_recover_with_email e m g db))"
  unfolding sign_up_or_recover_with_email_def
  by (auto simp: blank_levels split: sum.split intro!: moves_bind users_create_moves field_moves moves_pair)

lemma signup_handlers [move_rules]:
  assumes "moves a db"
  shows "moves a (snd (complete_federated_signup e p token nonce hint g db))"
    "moves a (snd (complete_linkedin_onboarding e code uri g db))"
    "moves a (snd (guest_signup e g db))"
    "moves a (snd (complete_email_signup e m code g db))"
    "moves a (snd (start_email_signup e r db))"
    "moves a (snd (start_email_login e r db))"
    "moves a (snd (resend_account_claim_code e t db))"
proof -
  show "moves a (snd (complete_federated_signup e p token nonce hint g db))"
    "moves a (snd (complete_linkedin_onboarding e code uri g db))"
    using assms finish_moves [OF resolve_moves [OF assms]]
    by (auto simp: complete_federated_signup_def complete_linkedin_onboarding_def Let_def split: option.split)
  show "moves a (snd (guest_signup e g db))"
    unfolding guest_signup_def using assms by (intro move_rules) (auto simp: blank_levels intro!: move_rules)
  show "moves a (snd (complete_email_signup e m code g db))"
    unfolding complete_email_signup_def Let_def using assms by (intro move_rules) (auto intro!: move_rules)
  show "moves a (snd (start_email_signup e r db))" "moves a (snd (start_email_login e r db))"
    unfolding start_email_signup_def start_email_login_def using assms by (intro move_rules; simp)+
  show "moves a (snd (resend_account_claim_code e t db))"
    using assms same_moves [OF same_start_target assms]
    by (auto simp: resend_account_claim_code_def send_account_claim_code_def split: sum.split)
qed

lemma login_moves [move_rules]: "moves a db \<Longrightarrow> moves a (snd (complete_email_login e r db))"
proof -
  assume m: "moves a db"
  have v: "moves a d" if "verify_and_consume_target_keyed_code e PEmailLogin t c db = (x, d)" for t c x d
    using same_moves [OF same_verify(2) m] that by (metis snd_conv)
  with m show ?thesis unfolding complete_email_login_def Let_def
    by (intro moves_check moves_pair) (auto split: prod.split option.split sum.split dest: v intro: same_rules)
qed

lemma claim_moves [move_rules]: "moves a db \<Longrightarrow> moves a (snd (complete_account_claim e t code db))"
  unfolding complete_account_claim_def
  by (intro moves_bind moves_check moves_read same_rules; simp split: sum.split)
    (auto intro!: moves_bind moves_check moves_read same_rules attach_moves)

lemma link_handler [move_rules]: "moves a db \<Longrightarrow> moves a (snd (link_identity e user p token nonce code uri db))"
  unfolding link_identity_def by (intro move_rules) (auto intro!: move_rules)

lemma verification_handlers [move_rules]:
  assumes "moves a db"
  shows "moves a (snd (start_phone_verification e r db))" "moves a (snd (verify_phone_code e q db))"
    "moves a (snd (start_personal_email_verification e r db))" "moves a (snd (verify_personal_email_code e q db))"
    "moves a (snd (submit_personal_details e user n ad db))" "moves a (snd (start_corporate_email_verification v r db))"
  unfolding start_phone_verification_def verify_phone_code_def start_personal_email_verification_def
    verify_personal_email_code_def submit_personal_details_def start_corporate_email_verification_def Let_def
  using assms by (intro move_rules; simp)+

lemma verdict_moves [move_rules]: "moves a db \<Longrightarrow> moves a (snd (company_verdict e u c d db))"
  using claims_moves [of a db e "us_id u" c d]
  by (auto simp: company_verdict_def split: sum.split prod.split option.split)

lemma corporate_moves [move_rules]: "moves a db \<Longrightarrow> moves a (snd (verify_corporate_email_code e r db))"
  unfolding verify_corporate_email_code_def Let_def by (intro move_rules; simp)

lemma profile_moves [move_rules]: "moves a db \<Longrightarrow> moves a (snd (complete_profile_setup e user n c m db))"
  unfolding complete_profile_setup_def Let_def by (intro move_rules; simp)

lemma serve_moves: "moves db (auth_serve e r db)"
proof (cases r)
  case (AuRevoke token)
  then show ?thesis
    by (simp add: revoke_session_def tokens_revoke_def revoke_refresh_token_by_hash_def same_moves [OF same_tokens(1)])
next
  case (AuSweepTokens)
  then show ?thesis by (simp add: sweep_expired_refresh_tokens_def same_moves [OF same_sweep])
next
  case (AuSweepGuests)
  then show ?thesis by (simp add: sweep_abandoned_guests_def guest_sweep_moves)
next
  case (AuSweepBudgets)
  then show ?thesis by (simp add: delete_old_otp_budgets_def Let_def same_moves [OF same_tokens(3)])
qed (auto intro!: move_rules simp: cache_moves delete_moves)

lemma run_moves: "moves db (account_run e c db)"
proof (cases c)
  case (CaDelete user)
  then show ?thesis
    by (auto simp: users_delete_def delete_user_def split: sum.split prod.split if_split
        intro: drop_moves moves_elsewhere [OF _ _ drop_moves])
next
  case (CaDropGuests retention batch)
  then show ?thesis
    by (auto simp: users_delete_abandoned_guests_def delete_abandoned_guests_def Let_def split: if_splits
        intro: moves_elsewhere [OF _ _ drop_moves])
qed (auto intro!: field_moves name_moves users_create_moves identity_moves cache_moves)

section \<open>The invariant\<close>

definition accounts_ok :: "auth_db \<Rightarrow> bool" where
  "accounts_ok db \<longleftrightarrow> distinct (map us_id (ad_users db)) \<and>
     (\<forall>a \<in> set (ad_users db). \<forall>b \<in> set (ad_users db). us_id a \<noteq> us_id b \<longrightarrow> user_clash a b = None) \<and>
     (\<forall>a \<in> set (ad_users db). us_trust a = compute_trust_level a) \<and>
     distinct (map (\<lambda>r. (id_provider r, id_subject r)) (ad_identities db))"

lemma first_clash_None: "first_clash a rows = None \<longleftrightarrow> (\<forall>b \<in> set rows. user_clash a b = None)"
  by (induction rows) (auto split: option.splits)

lemma user_clash_sym: "user_clash a b = None \<longleftrightarrow> user_clash b a = None"
proof -
  have "shared_value p q = shared_value q p" for p q :: "string option" by (auto simp: shared_value_def)
  then have "user_clash a b = user_clash b a" by (simp only: user_clash_def eq_commute [of "us_id a"])
  then show ?thesis by simp
qed

lemma user_clash_ids: "user_clash a b = None \<Longrightarrow> us_id a \<noteq> us_id b"
  by (auto simp: user_clash_def split: if_splits)

lemma accounts_ok_users:
  assumes "distinct (map us_id us)" "\<And>a b. a \<in> set us \<Longrightarrow> b \<in> set us \<Longrightarrow> us_id a \<noteq> us_id b \<Longrightarrow> user_clash a b = None"
    "\<And>a. a \<in> set us \<Longrightarrow> us_trust a = compute_trust_level a" "distinct (map (\<lambda>r. (id_provider r, id_subject r)) ids)"
    "ad_users db = us" "ad_identities db = ids"
  shows "accounts_ok db"
  using assms by (simp add: accounts_ok_def)

lemma create_user_cases:
  assumes "create_user i nu now db = Inr (r, db')"
  shows "first_clash r (ad_users db) = None" "ad_users db' = ad_users db @ [r]" "ad_identities db' = ad_identities db"
    "ad_companies db' = ad_companies db" "us_trust r = nu_trust nu" "us_guest r = nu_guest nu" "us_phone r = None" "us_work_verified r = False"
  using assms by (auto simp: create_user_def Let_def new_user_row_def split: option.split_asm)

lemma account_move_ok: "account_move db db' \<Longrightarrow> accounts_ok db \<Longrightarrow> accounts_ok db'"
proof (induction rule: account_move.induct)
  case (elsewhere db' db)
  then show ?case by (simp add: accounts_ok_def)
next
  case (created i nu now db r db')
  note made = create_user_cases [OF created.hyps(1)]
  have lvl: "us_trust r = compute_trust_level r"
    using created.hyps(2) made(5-8) by (simp add: compute_trust_level_def text_or_empty_def)
  from made(1) have new: "\<forall>b \<in> set (ad_users db). user_clash r b = None" by (simp add: first_clash_None)
  from new user_clash_ids have "us_id r \<notin> us_id ` set (ad_users db)" by fastforce
  moreover from new have "\<forall>b \<in> set (ad_users db). user_clash b r = None" using user_clash_sym by blast
  ultimately show ?case using created.prems new lvl made(2,3) by (auto simp: accounts_ok_def)
next
  case (written f i now db r db')
  let ?us = "ad_users db"
  from written.hyps(1) obtain q where q: "find (\<lambda>x. us_id x = i) ?us = Some q" and r: "r = (f q)\<lparr>us_updated := now\<rparr>"
    and free: "\<forall>b \<in> set ?us. us_id b \<noteq> i \<longrightarrow> user_clash r b = None"
    and db': "db' = db\<lparr>ad_users := update_where (\<lambda>x. us_id x = i) (\<lambda>_. r) ?us\<rparr>"
    by (auto simp: write_user_def Let_def first_clash_None split: option.splits)
  from free have free': "\<forall>b \<in> set ?us. us_id b \<noteq> i \<longrightarrow> user_clash b r = None" using user_clash_sym by blast
  from find_SomeD [OF q] written.hyps(2) written.prems have id: "us_id r = i" and lvl: "us_trust r = compute_trust_level r"
    by (auto simp: r earned_def accounts_ok_def)
  show ?case unfolding db'
  proof (rule accounts_ok_users)
    show "distinct (map us_id (update_where (\<lambda>x. us_id x = i) (\<lambda>_. r) ?us))"
      using written.prems id by (simp add: map_update_where accounts_ok_def)
    show "user_clash a b = None" if "a \<in> set (update_where (\<lambda>x. us_id x = i) (\<lambda>_. r) ?us)"
      "b \<in> set (update_where (\<lambda>x. us_id x = i) (\<lambda>_. r) ?us)" "us_id a \<noteq> us_id b" for a b
      using that free free' id written.prems by (auto simp: set_update_where accounts_ok_def)
    show "us_trust a = compute_trust_level a" if "a \<in> set (update_where (\<lambda>x. us_id x = i) (\<lambda>_. r) ?us)" for a
      using that lvl written.prems by (auto simp: set_update_where accounts_ok_def)
  qed (use written.prems in \<open>auto simp: accounts_ok_def\<close>)
next
  case (cached f db p)
  let ?g = "\<lambda>r. if p r then f r else r"
  from cached.hyps have f: "\<And>r. us_id (f r) = us_id r" "\<And>a b. user_clash (f a) b = user_clash a b" "\<And>a b. user_clash a (f b) = user_clash a b"
    "\<And>r. us_trust r = compute_trust_level r \<Longrightarrow> us_trust (f r) = compute_trust_level (f r)"
    by (auto simp: plain_change_def earned_def)
  have rows: "update_where p f (ad_users db) = map ?g (ad_users db)" by (simp add: update_where_def)
  have g: "us_id (?g r) = us_id r" for r by (simp add: f)
  show ?case
  proof (rule accounts_ok_users)
    show "distinct (map us_id (map ?g (ad_users db)))" using cached.prems g by (simp add: accounts_ok_def comp_def)
    show "us_trust a = compute_trust_level a" if "a \<in> set (map ?g (ad_users db))" for a
      using that cached.prems f(4) by (auto simp: accounts_ok_def)
    show "user_clash a b = None" if "a \<in> set (map ?g (ad_users db))" "b \<in> set (map ?g (ad_users db))" "us_id a \<noteq> us_id b" for a b
    proof -
      from that obtain x y where xy: "x \<in> set (ad_users db)" "y \<in> set (ad_users db)" "a = ?g x" "b = ?g y" by auto
      with that(3) g have "us_id x \<noteq> us_id y" by metis
      with xy(1,2) cached.prems have "user_clash x y = None" by (auto simp: accounts_ok_def)
      with xy(3,4) f(2,3) show ?thesis by simp
    qed
  qed (use cached.prems rows in \<open>auto simp: accounts_ok_def\<close>)
next
  case (linked u p s m db db')
  then show ?case by (auto simp: insert_identity_def list_ex_iff accounts_ok_def split: if_splits)
next
  case (dropped db' P db Q)
  then show ?case by (simp add: accounts_ok_def distinct_map_filter)
qed

lemma moves_ok: "moves db db' \<Longrightarrow> accounts_ok db \<Longrightarrow> accounts_ok db'"
  by (induction rule: rtranclp_induct) (auto intro: account_move_ok)

text \<open>Every database the module can reach, reached by the program's own statements.\<close>

lemma account_point_ok: "account_point db \<Longrightarrow> accounts_ok db"
proof (induction rule: account_point.induct)
  case (start db)
  then show ?case by (simp add: accounts_ok_def)
next
  case (served db e r)
  from moves_ok [OF serve_moves served.IH] show ?case .
next
  case (in_flight db e c)
  from moves_ok [OF run_moves in_flight.IH] show ?case .
next
  case (beside db db')
  then show ?case by (simp add: accounts_ok_def)
qed

end
