(* ===== verification/Auth_Trust.thy ===== *)
theory Auth_Trust
  imports Auth_Facts
begin

text \<open>
  What an account is worth and whom it belongs to, at every point of every interleaving of the handlers' statements: the
  properties of the account rows, and of the two handlers that decide a level or an identity from outside answers.
\<close>

section \<open>Levels and identities\<close>

lemma accounts_at_start:
  assumes "ad_users a = []" "ad_identities a = []" "moves a db"
  shows "accounts_ok db"
  using moves_ok [OF assms(3)] assms(1,2) by (simp add: accounts_ok_def)

text \<open>
  C12. Wherever the module's own requests and the single statements of requests in flight have brought the tables, in
  any order, from tables without accounts: every account's stored trust level is the one its own verified fields earn. A
  level is never granted or kept alone, whichever verification writes it, at signup or beside another one.
\<close>

theorem stored_trust_is_earned:
  assumes "account_point db" "u \<in> set (ad_users db)"
  shows "us_trust u = compute_trust_level u"
  using account_point_ok [OF assms(1)] assms(2) by (simp add: accounts_ok_def)

definition shares_identity :: "user_row \<Rightarrow> user_row \<Rightarrow> bool" where
  "shares_identity a b \<longleftrightarrow> us_id a = us_id b \<or> shared_value (us_linkedin a) (us_linkedin b) \<or>
     shared_value (us_phone a) (us_phone b) \<or> shared_value (us_work_hash a) (us_work_hash b) \<or>
     shared_value (map_option to_lower (us_email a)) (map_option to_lower (us_email b))"

lemma shares_identity_clash: "shares_identity a b \<longleftrightarrow> user_clash a b \<noteq> None"
  by (auto simp: shares_identity_def user_clash_def)

lemma distinct_mapD: "distinct (map f xs) \<Longrightarrow> x \<in> set xs \<Longrightarrow> y \<in> set xs \<Longrightarrow> f x = f y \<Longrightarrow> x = y"
  by (metis distinct_map inj_onD)

text \<open>
  C13. From a database without accounts, at every point of every interleaving: two account rows that share a LinkedIn
  member, a phone number, a work mailbox or (whatever its case) a personal address are the same row, and a provider's
  subject is linked to one account.
\<close>

theorem one_account_per_identity:
  assumes "ad_users a = []" "ad_identities a = []" "moves a db"
  shows "(\<forall>u \<in> set (ad_users db). \<forall>v \<in> set (ad_users db). shares_identity u v \<longrightarrow> u = v) \<and>
     (\<forall>r \<in> set (ad_identities db). \<forall>s \<in> set (ad_identities db).
        id_provider r = id_provider s \<and> id_subject r = id_subject s \<longrightarrow> r = s)"
proof (intro conjI ballI impI)
  note ok = accounts_at_start [OF assms, unfolded accounts_ok_def]
  show "u = v" if "u \<in> set (ad_users db)" "v \<in> set (ad_users db)" "shares_identity u v" for u v
    using ok that unfolding shares_identity_clash by (metis distinct_mapD)
  show "r = s" if "r \<in> set (ad_identities db)" "s \<in> set (ad_identities db)" "id_provider r = id_provider s \<and> id_subject r = id_subject s" for r s
    using ok that distinct_mapD [where f = "\<lambda>r. (id_provider r, id_subject r)" and xs = "ad_identities db"] by simp
qed

section \<open>Verifying a company\<close>

lemma locked_update_done:
  assumes "locked_update e user pending verified_level (\<lambda>t. write_user (g t)) conflict what db = (Inr r, db')"
  shows "\<exists>i q. ae_parse e user = Some i \<and> get_user_by_id i db = Some q \<and>
     r = (g (verified_level (pending q)) q)\<lparr>us_updated := ts (ae_now e)\<rparr>"
  using assms by (auto simp: locked_update_def write_user_def get_user_by_id_def parse_user_id_def Let_def
      split: sum.splits option.splits prod.splits)

lemma work_email_done:
  assumes "update_work_email_verified e user d v h c verified_level db = (Inr r, db')"
  obtains i q where "ae_parse e user = Some i" "get_user_by_id i db = Some q" "us_trust r = compute_trust_level r"
    "us_work_verified r = v" "us_company r = null_text c" "us_linkedin r = us_linkedin q" "us_phone r = us_phone q"
    "us_email r = us_email q" "us_legal_name r = us_legal_name q"
proof -
  obtain i q where "ae_parse e user = Some i" "get_user_by_id i db = Some q" and
     "r = (q\<lparr>us_domain := null_text d, us_work_verified := v, us_work_verified_at := Some (ts (ae_now e)),
     us_work_hash := null_text h, us_trust := verified_level (q\<lparr>us_domain := null_text d, us_work_verified := v,
     us_company := null_text c\<rparr>), us_company := null_text c, us_guest := False\<rparr>)\<lparr>us_updated := ts (ae_now e)\<rparr>"
    using locked_update_done [OF assms [unfolded update_work_email_verified_def update_user_work_email_verified_def]] by blast
  then show thesis
    by (intro that [of i q]) (simp_all add: verified_level_def after_verification_def compute_trust_level_def)
qed

lemma level_three: "compute_trust_level u = 3 \<longleftrightarrow> text_or_empty (us_linkedin u) \<noteq> [] \<and> text_or_empty (us_phone u) \<noteq> [] \<and>
    text_or_empty (us_email u) \<noteq> [] \<and> text_or_empty (us_legal_name u) \<noteq> [] \<and> us_work_verified u \<and> text_or_empty (us_company u) \<noteq> []"
  by (auto simp: compute_trust_level_def Let_def)

lemma claims_elsewhere: "claims_insert e user c d db = (x, db') \<Longrightarrow> ad_users db' = ad_users db"
  by (auto simp: claims_insert_def insert_unverified_company_claim_def split: sum.splits if_splits)

text \<open>What a successful corporate check did.\<close>

lemma corporate_done:
  assumes "verify_corporate_email_code e r db = (Inr ses, db')"
  obtains v i q w where "ae_parse e (sq_user r) = Some i" "get_user_by_id i db = Some q" "sr_trust ses = compute_trust_level (w :: user_row)"
    "us_work_verified w = v" "us_linkedin w = us_linkedin q" "us_phone w = us_phone q"
    "us_email w = us_email q" "us_legal_name w = us_legal_name q"
    "v \<Longrightarrow> \<exists>k. get_known_company_by_name (normalize_company_name (trim_space (sq_company r))) db = Some k \<and>
       domain_from_email (normalize_verification_target PCorporateEmail (sq_target r)) \<in> set (kc_domains k)"
    "\<not> v \<Longrightarrow> get_known_company_by_name (normalize_company_name (trim_space (sq_company r))) db = None"
proof -
  let ?t = "normalize_verification_target PCorporateEmail (sq_target r)" and ?c = "trim_space (sq_company r)"
  from assms obtain d1 u v d2 q d3 where
    code: "verify_and_consume_code e (sq_user r) PCorporateEmail ?t (sq_code r) db = (None, d1)" and
    verdict: "company_verdict e u ?c (domain_from_email ?t) d1 = (Inr v, d2)" and
    stored: "update_work_email_verified e (sq_user r) (domain_from_email ?t) v (hash_work_email e ?t) ?c verified_level d2 = (Inr q, d3)" and
    ses: "issue_session e q d3 = (Inr ses, db')"
    by (auto simp: verify_corporate_email_code_def Let_def db_check_def db_bind_def db_read_def
        split: if_splits option.splits sum.splits prod.splits)
  from ses have lvl: "sr_trust ses = us_trust q" by (auto simp: issue_session_def session_for_def split: sum.splits prod.splits)
  from verdict have known: "if v then \<exists>k. get_known_company_by_name (normalize_company_name ?c) d1 = Some k \<and> domain_from_email ?t \<in> set (kc_domains k)
      else get_known_company_by_name (normalize_company_name ?c) d1 = None" and rows: "ad_users d2 = ad_users d1"
    by (auto simp: company_verdict_def companies_get_by_name_def split: option.splits sum.splits if_splits prod.splits
        dest: claims_elsewhere)
  from code same_verify(1) [of db e "sq_user r" PCorporateEmail ?t "sq_code r"]
  have same: "ad_companies d1 = ad_companies db" "ad_users d1 = ad_users db" by (simp_all add: same_accounts_def)
  from work_email_done [OF stored] obtain i p where *: "ae_parse e (sq_user r) = Some i" "get_user_by_id i d2 = Some p"
    "us_trust q = compute_trust_level q" "us_work_verified q = v" "us_linkedin q = us_linkedin p" "us_phone q = us_phone p"
    "us_email q = us_email p" "us_legal_name q = us_legal_name p" by metis
  show thesis
  proof (rule that [of i p q v])
    show "get_user_by_id i db = Some p" using *(2) rows same by (simp add: get_user_by_id_def)
  qed (use * known same lvl in \<open>auto simp: get_known_company_by_name_def split: if_splits\<close>)
qed

text \<open>
  When the corporate check signs the user in at Level 3, the company name given is one of the known companies and the
  mail's domain one of that company's: an unknown company, whoever's code was right, never gives Level 3.
\<close>

lemma level_three_needs_known_company:
  assumes "verify_corporate_email_code e r db = (Inr ses, db')" "sr_trust ses = 3"
  shows "\<exists>k \<in> set (ad_companies db). kc_name k = normalize_company_name (trim_space (sq_company r)) \<and>
     domain_from_email (normalize_verification_target PCorporateEmail (sq_target r)) \<in> set (kc_domains k)"
proof -
  from corporate_done [OF assms(1)] assms(2) have "\<exists>k. get_known_company_by_name (normalize_company_name (trim_space (sq_company r))) db = Some k \<and>
     domain_from_email (normalize_verification_target PCorporateEmail (sq_target r)) \<in> set (kc_domains k)"
    by (metis level_three)
  then show ?thesis unfolding get_known_company_by_name_def by (metis (mono_tags, lifting) find_SomeD)
qed

text \<open>
  C20. Whatever level an account has, a successful corporate check with a company that is not known signs it in at
  Level 2 at most, and exactly at Level 2 an account that earned Level 3 before: a trust level can fall.
\<close>

theorem unknown_company_lowers_trust:
  assumes "verify_corporate_email_code e r db = (Inr ses, db')"
    "get_known_company_by_name (normalize_company_name (trim_space (sq_company r))) db = None"
    "ae_parse e (sq_user r) = Some i" "get_user_by_id i db = Some u" "compute_trust_level u = 3"
  shows "sr_trust ses = 2"
proof -
  from assms(5) have f: "text_or_empty (us_linkedin u) \<noteq> []" "text_or_empty (us_phone u) \<noteq> []"
    "text_or_empty (us_email u) \<noteq> []" "text_or_empty (us_legal_name u) \<noteq> []" by (simp_all add: level_three)
  from corporate_done [OF assms(1)] assms(2-4) obtain w :: user_row where "sr_trust ses = compute_trust_level w" "\<not> us_work_verified w"
    "us_linkedin w = us_linkedin u" "us_phone w = us_phone u" "us_email w = us_email u" "us_legal_name w = us_legal_name u"
    by (metis option.distinct(1) option.inject)
  with f show ?thesis by (simp add: compute_trust_level_def)
qed

section \<open>Signing in by an outside identity\<close>

lemma create_user_id: "create_user i nu now db = Inr (r, db') \<Longrightarrow> us_id r = i"
  by (auto simp: create_user_def Let_def new_user_row_def split: option.split_asm)

text \<open>
  C14. A federated sign-in succeeds only with an identity the provider vouched for, and only in two ways: the subject was
  already linked to the account signed in, or the account is new, its age was confirmed, and no account held the
  identity's address before. Holding somebody's address never signs anyone in to their account.
\<close>

theorem address_alone_signs_no_one_in:
  assumes "complete_federated_signup e p token nonce hint age_ok db = (Inr ses, db')"
  shows "\<exists>v. sg_verify e p token nonce = Some v \<and>
     (if sr_new ses
      then age_ok \<and> sr_user ses = ae_user_id e \<and>
           (normalize_email (vi_email v) = [] \<or> get_user_by_personal_email (normalize_email (vi_email v)) db = None)
      else \<exists>r \<in> set (ad_identities db). to_repository_identity_provider p = Inr (id_provider r) \<and>
           id_subject r = vi_subject v \<and> ae_parse e (id_user r) = Some (sr_user ses))"
proof -
  from assms obtain v where p: "p = FederatedApple \<or> p = FederatedGoogle" and v: "sg_verify e p token nonce = Some v"
    by (auto simp: complete_federated_signup_def Let_def split: if_splits option.splits)
  let ?i = "v\<lparr>vi_name := (if vi_name v = [] then sanitized_name_hint hint else vi_name v), vi_picture := []\<rparr>"
  have "complete_federated_signup e p token nonce hint age_ok db = finish_signup e (resolve_or_create_apple_google e p ?i age_ok db)"
    using p v by (auto simp: complete_federated_signup_def resolve_or_create_identity_def Let_def)
  with assms obtain u new db1 where res: "resolve_or_create_apple_google e p ?i age_ok db = (Inr (u, new), db1)"
    and ses: "sr_new ses = new" "sr_user ses = us_id u"
    by (auto simp: finish_signup_def db_bind_def plain_def finish_signup_session_def issue_session_def session_for_def
        split: sum.splits prod.splits)
  obtain q where q: "to_repository_identity_provider p = Inr q" using p by auto
  show ?thesis
  proof (cases "get_identity_by_provider_subject q (vi_subject v) db")
    case (Some r)
    with res q have "\<not> new" "users_get_by_id e (id_user r) db = Inr u"
      by (auto simp: resolve_or_create_apple_google_def identities_get_by_provider_subject_def plain_def split: sum.splits)
    moreover from this(2) have "ae_parse e (id_user r) = Some (us_id u)"
      by (auto simp: users_get_by_id_def parse_user_id_def get_user_by_id_def
          split: option.splits sum.splits dest!: find_SomeD)
    moreover from Some have "r \<in> set (ad_identities db)" "id_provider r = q" "id_subject r = vi_subject v"
      unfolding get_identity_by_provider_subject_def by (auto dest: find_SomeD)
    ultimately show ?thesis using v q ses by auto
  next
    case None
    with res q obtain db2 db3 nu where "new" "age_ok" and claim: "claim_if_email_taken e (vi_email v) p (vi_subject v) db = (None, db2)"
      and made: "users_create e nu db2 = (Inr u, db3)"
      by (auto simp: resolve_or_create_apple_google_def identities_get_by_provider_subject_def
          split: sum.splits if_splits option.splits prod.splits)
    moreover from made have "us_id u = ae_user_id e"
      by (auto simp: users_create_def split: sum.splits pg_error.splits dest!: create_user_id)
    moreover from claim have "normalize_email (vi_email v) = [] \<or> get_user_by_personal_email (normalize_email (vi_email v)) db = None"
      by (auto simp: claim_if_email_taken_def Let_def users_get_by_personal_email_def split: if_splits option.splits prod.splits)
    ultimately show ?thesis using v ses by auto
  qed
qed

section \<open>Samples\<close>

text \<open>
  Ann signs up with LinkedIn, gives her name and phone, and verifies a work address, once at a company we know and once
  at one we do not. The functions of the environment stand for the providers, the mail and the hashes.
\<close>

definition ann_says :: "string \<Rightarrow> verified_identity" where
  "ann_says s = \<lparr>vi_subject = s, vi_email = ''Ann@mail.lk'', vi_name = ''Ann'', vi_picture = []\<rparr>"

definition sample_call :: "nat \<Rightarrow> signup_env" where
  "sample_call n = \<lparr>ae_now = int n * minute, ae_parse = (\<lambda>s. if s = [] then None else Some s), ae_sha = rev,
     ae_user_id = ''u'' @ digits_of_nat n, ae_token_id = ''t'' @ digits_of_nat n, ae_raw = ''raw'' @ digits_of_nat n,
     ae_code = ''654321'', oe_allow_bypass = False, oe_bypass_phones = [], oe_bypass_emails = [], oe_requester = ''10.0.0.7'',
     oe_send = (\<lambda>p t c. None), ve_hmac = rev, ve_free_domains = ''mail.lk'', ve_disposable_domains = [],
     sg_verify = (\<lambda>p token nonce. if token = [] then None else Some (ann_says token)),
     sg_linkedin = (\<lambda>code uri. if code = [] then None else Some (ann_says code)), sg_capture = (\<lambda>p. None),
     sg_sign = (\<lambda>c. rev (ct_email c)), sg_key_set = True, sg_handle = ''guest''\<rparr>"

definition sample_tables :: auth_db where
  "sample_tables = \<lparr>ad_users = [], ad_identities = [], ad_tokens = [], ad_codes = [], ad_budgets = [],
     ad_companies = [\<lparr>kc_name = ''acme'', kc_domains = [''acme.lk'']\<rparr>], ad_claims = [], ad_deleted = []\<rparr>"

definition ann_sends :: "purpose \<Rightarrow> string \<Rightarrow> start_request" where
  "ann_sends p t = \<lparr>sq_user = ''u1'', sq_purpose = purpose_name p, sq_target = t\<rparr>"

definition ann_enters :: "purpose \<Rightarrow> string \<Rightarrow> string \<Rightarrow> code_request" where
  "ann_enters p t c = \<lparr>sq_user = ''u1'', sq_purpose = purpose_name p, sq_target = t, sq_code = ''654321'', sq_company = c\<rparr>"

fun serve_all :: "nat \<Rightarrow> auth_request list \<Rightarrow> auth_db \<Rightarrow> auth_db" where
  "serve_all n [] db = db"
| "serve_all n (r # rs) db = serve_all (Suc n) rs (auth_serve (sample_call n) r db)"

lemma serve_all_moves: "moves db (serve_all n rs db)"
proof (induction rs arbitrary: n db)
  case (Cons r rs)
  show ?case using rtranclp_trans [OF serve_moves [of db "sample_call n" r] Cons] by simp
qed simp

definition ann_ready :: auth_db where
  "ann_ready = serve_all 1 [AuLinkedIn ''li'' ''uri'' True, AuDetails ''u1'' ''Ann Perera'' [],
     AuStartPhone (ann_sends PPhone ''+94771234567''), AuPhone (ann_enters PPhone ''+94771234567'' []),
     AuStartCorporate (ann_sends PCorporateEmail ''ann@acme.lk'')] sample_tables"

definition ann_moves_on :: auth_db where
  "ann_moves_on = serve_all 6 [AuCorporate (ann_enters PCorporateEmail ''ann@acme.lk'' ''Acme''),
     AuLink ''u1'' FederatedGoogle ''g'' ''n'' [] [], AuGuest True,
     AuStartCorporate (ann_sends PCorporateEmail ''ann@other.lk'')] ann_ready"

lemma ann_moves: "moves sample_tables ann_moves_on"
  unfolding ann_moves_on_def ann_ready_def
  using rtranclp_trans [OF serve_all_moves serve_all_moves] by blast

text \<open>Ann's phone number changes by a statement of a call still in flight while a second account is made.\<close>

definition ann_in_flight :: auth_db where
  "ann_in_flight = account_run (sample_call 13) (CaPhone ''u1'' ''+94777654321'')
     (account_run (sample_call 12) CaNewEmail ann_moves_on)"

lemma serve_all_point: "account_point db \<Longrightarrow> account_point (serve_all n rs db)"
  by (induction rs arbitrary: n db) (simp_all add: account_point.served)

lemma ann_point: "account_point ann_in_flight"
  unfolding ann_in_flight_def ann_moves_on_def ann_ready_def
  by (intro account_point.in_flight serve_all_point account_point.start) (simp_all add: sample_tables_def)

lemma ann_rows: "map us_id (ad_users ann_moves_on) = [''u1'', ''u8'']" "map us_trust (ad_users ann_moves_on) = [3, 0]"
  "map id_subject (ad_identities ann_moves_on) = [''g'']"
  by code_simp+

lemma ann_tables: "ad_users sample_tables = []" "ad_identities sample_tables = []"
  by (simp_all add: sample_tables_def)

theorem stored_trust_is_earned_witness:
  "map us_trust (ad_users ann_in_flight) = [3, 0, 1] \<and> us_phone (ad_users ann_in_flight ! 0) = Some ''+94777654321'' \<and>
   compute_trust_level (ad_users ann_in_flight ! 0) = 3 \<and> compute_trust_level (ad_users ann_in_flight ! 2) = 1"
proof -
  have n: "0 < length (ad_users ann_in_flight)" "2 < length (ad_users ann_in_flight)"
    and rows: "map us_trust (ad_users ann_in_flight) = [3, 0, 1]" "us_phone (ad_users ann_in_flight ! 0) = Some ''+94777654321''"
      "us_trust (ad_users ann_in_flight ! 0) = 3" "us_trust (ad_users ann_in_flight ! 2) = 1"
    by code_simp+
  from stored_trust_is_earned [OF ann_point nth_mem [OF n(1)]] stored_trust_is_earned [OF ann_point nth_mem [OF n(2)]] rows
  show ?thesis by simp
qed

theorem one_account_per_identity_witness:
  "map us_id (ad_users ann_moves_on) = [''u1'', ''u8''] \<and>
   \<not> shares_identity (ad_users ann_moves_on ! 0) (ad_users ann_moves_on ! 1)"
proof -
  have n: "0 < length (ad_users ann_moves_on)" "1 < length (ad_users ann_moves_on)" by code_simp+
  have "us_id (ad_users ann_moves_on ! 0) \<noteq> us_id (ad_users ann_moves_on ! 1)" by code_simp
  then show ?thesis
    using one_account_per_identity [OF ann_tables ann_moves] nth_mem [OF n(1)] nth_mem [OF n(2)] ann_rows(1) by metis
qed

definition known_check :: code_request where "known_check = ann_enters PCorporateEmail ''ann@acme.lk'' ''Acme''"
definition unknown_check :: code_request where "unknown_check = ann_enters PCorporateEmail ''ann@other.lk'' ''Other''"

text \<open>The session a handler returned.\<close>

definition session_of :: "('e + session_result) \<times> 'd \<Rightarrow> session_result" where
  "session_of m = (case fst m of Inr s \<Rightarrow> s)"

lemma session_of: "isl (fst m) = False \<Longrightarrow> m = (Inr (session_of m), snd m)"
  by (cases m; cases "fst m") (auto simp: session_of_def)

theorem unknown_company_lowers_trust_witness:
  "map us_trust (ad_users ann_moves_on) = [3, 0] \<and>
   sr_trust (session_of (verify_corporate_email_code (sample_call 10) unknown_check ann_moves_on)) = 2"
proof -
  let ?m = "verify_corporate_email_code (sample_call 10) unknown_check ann_moves_on"
  let ?u = "the (get_user_by_id ''u1'' ann_moves_on)"
  have r: "isl (fst ?m) = False"
    and k: "get_known_company_by_name (normalize_company_name (trim_space (sq_company unknown_check))) ann_moves_on = None"
    and i: "ae_parse (sample_call 10) (sq_user unknown_check) = Some ''u1''"
    and n: "Option.is_none (get_user_by_id ''u1'' ann_moves_on) = False" and l: "compute_trust_level ?u = 3" by code_simp+
  from n have u: "get_user_by_id ''u1'' ann_moves_on = Some ?u" by (cases "get_user_by_id ''u1'' ann_moves_on") simp_all
  show ?thesis using unknown_company_lowers_trust [OF session_of [OF r] k i u l] ann_rows(2) by blast
qed

theorem address_alone_signs_no_one_in_witness:
  "\<exists>r \<in> set (ad_identities ann_moves_on). id_subject r = ''g'' \<and> id_user r = ''u1'' \<and>
     \<not> sr_new (session_of (complete_federated_signup (sample_call 11) FederatedGoogle ''g'' ''n'' [] True ann_moves_on))"
proof -
  let ?m = "complete_federated_signup (sample_call 11) FederatedGoogle ''g'' ''n'' [] True ann_moves_on"
  have r: "isl (fst ?m) = False" and n: "\<not> sr_new (session_of ?m)" and u: "sr_user (session_of ?m) = ''u1''" by code_simp+
  from address_alone_signs_no_one_in [OF session_of [OF r]] n u show ?thesis
    by (auto simp: sample_call_def ann_says_def split: if_splits)
qed

end
