(* ===== verification/Spec2Isabelle.thy ===== *)
theory Spec2Isabelle
  imports Billing_Props Store_Props Flags_Facts Breaker Rate_Limit_Facts Outbox_Facts Outbox_Lease
    Meetup_Seats Meetup_After_Facts Wiring Auth_Session_Facts Auth_Code_Facts Auth_Trust
begin

text \<open>
  A model of the backend (\<open>src/backend/internal\<close>): the credits system of the billing module with
  its store purchases, the meetups of the meetup module and the requests to join them, the accounts, sessions and
  one-time codes of the auth module, and the platform packages they stand on.

  \<^bold>\<open>The program.\<close> The backend is a Go monolith over PostgreSQL. Each module owns a schema. The
  billing module keeps, per user, a wallet of credits made of lots, a ledger of entries, holds
  reserved for meetups being created, subscriptions with a monthly quota, store purchases, and the
  refunds given when a meetup ends. Other modules call its service; the service runs wallet operations
  inside a transaction of the ledger, which locks the wallet's row. The meetup module keeps meetups and
  requests to join them; creating a meetup may reserve credits through the billing module, and the
  meetup's creation and end are queued for it. The auth module keeps accounts with a trust level, the outside identities
  linked to them, refresh tokens that are exchanged for their successor, one-time codes sent to a number or an address, and
  the daily budgets of sending and guessing them. Modules tell each other
  what happened through outbox tables, which a poller drains.

  \<^bold>\<open>The theories of the platform.\<close>
  \<^item> \<open>Prelude\<close>: Go integers and times, the error sum, strings, lists as tables.
  \<^item> \<open>AppError\<close>: \<open>platform/apperror\<close>, the errors and their way through gRPC to HTTP.
  \<^item> \<open>Breaker\<close>: \<open>platform/breaker\<close>, the circuit breaker and callers interleaved on it.
  \<^item> \<open>Rate_Limit\<close>, \<open>Rate_Limit_Facts\<close>: \<open>platform/ratelimit\<close>, the in-memory and the shared limiter;
    bounds, and the refinement of one counter per key and window.
  \<^item> \<open>Flags\<close>, \<open>Flags_Facts\<close>: \<open>platform/flags\<close>, app versions, flag evaluation and the cached table.
  \<^item> \<open>Outbox\<close>, \<open>Outbox_Facts\<close>, \<open>Outbox_Lease\<close>: \<open>platform/outbox\<close>, the poller, the tables it drives
    and their leases; its loop ends, what it leaves due, who holds a row.

  \<^bold>\<open>The theories of billing.\<close>
  \<^item> \<open>Calendar\<close>: \<open>time.AddDate\<close> by months and \<open>quotaWindowStart\<close> of \<open>billing/service.go\<close>.
  \<^item> \<open>Pricing\<close>: \<open>billing/pricing/pricing.go\<close>.
  \<^item> \<open>Billing_Db\<close>: the billing tables and the statements of \<open>repository/sqlcgen\<close>.
  \<^item> \<open>Wallet\<close>, \<open>Wallet_Decay\<close>, \<open>Wallet_Holds\<close>, \<open>Wallet_Refunds\<close>: the operations of
    \<open>wallet.Tx\<close>, in \<open>wallet.go\<close>, \<open>decay.go\<close>, \<open>holds.go\<close> and \<open>capture.go\<close>, \<open>refunds.go\<close>.
  \<^item> \<open>Wallet_Ledger\<close>: \<open>Ledger.Do\<close>, the contract of an operation as the locale
    \<open>ledger_operation\<close>, its interpretations on every operation, and histories.
  \<^item> \<open>Billing_Service\<close>, \<open>Billing_Settle\<close>, \<open>Billing_Ops\<close>: \<open>service.go\<close>, \<open>quote.go\<close>,
    \<open>welcome.go\<close>, \<open>subscriptions.go\<close>; \<open>refunds.go\<close>; \<open>sweeps.go\<close>, \<open>admin.go\<close>, \<open>view.go\<close>.
  \<^item> \<open>Store\<close>, \<open>Purchases\<close>, \<open>Webhooks\<close>: \<open>billing/store\<close> (routing, retry and breaker around the two
    store clients), \<open>purchases.go\<close> and \<open>catalog.go\<close>, \<open>notifications.go\<close>.
  \<^item> \<open>Requests\<close>: the running service, every request it answers, and the states it reaches.
  \<^item> \<open>Wallet_Books\<close>, \<open>Wallet_Keeps\<close>, \<open>Store_Books\<close>: the invariant \<open>books\<close> of a wallet inside a
    transaction, and that every operation keeps it.
  \<^item> \<open>Store_Frame\<close>, \<open>Store_History\<close>: the wallet leaves the store's tables alone; the locale
    \<open>store_history\<close> of a relation between databases that every request respects.
  \<^item> \<open>Samples\<close>, \<open>Wallet_Facts\<close>, \<open>Billing_Facts\<close>, \<open>Billing_Props\<close>, \<open>Store_Props\<close>: concrete ledgers,
    and the properties. What a refund gives back is followed lot by lot (\<open>give_back_taken\<close>, \<open>written_off\<close>), and what
    is granted as the lots' first amounts and the ledger's entries (\<open>lot_faces\<close>, \<open>granted_entries\<close>).

  \<^bold>\<open>The theories of meetups.\<close>
  \<^item> \<open>Geo\<close>: \<open>platform/geo/geo.go\<close>.
  \<^item> \<open>Meetup_Db\<close>: the tables of the meetup schema, the statements of \<open>meetup/repository/sqlcgen\<close> and transactions.
  \<^item> \<open>Meetup_Requests\<close>: \<open>meetup_requests_postgres.go\<close>, \<open>requests.go\<close>, \<open>trustgate.go\<close>,
    \<open>schedule_conflict.go\<close>, \<open>notifications.go\<close>, \<open>outbox.go\<close>.
  \<^item> \<open>Meetup_Lifecycle\<close>: \<open>service_create.go\<close>, \<open>charging.go\<close>, \<open>service_lifecycle.go\<close>, \<open>lifecycle.go\<close>,
    \<open>meetups_postgres.go\<close>, \<open>meetups_lifecycle_postgres.go\<close>, \<open>billing_outbox_postgres.go\<close>.
  \<^item> \<open>Meetup_Accounts\<close>: \<open>service_events.go\<close>, \<open>meetups_member_postgres.go\<close> and the cache repositories.
  \<^item> \<open>Meetup_Reviews\<close>: the statements of \<open>ratings.sql.go\<close>, \<open>feedback.sql.go\<close> and \<open>safety_state.sql.go\<close>.
  \<^item> \<open>Meetup_After\<close>, \<open>Meetup_After_Facts\<close>: \<open>rating.go\<close>, \<open>review.go\<close>, \<open>traits.go\<close>, \<open>safety.go\<close> and their repositories;
    a review is whole, and what calls of two people at once can leave.
  \<^item> \<open>Meetup_Core\<close>: the specification of a transaction as one \<open>move\<close> of the two tables that matter, and the
    lemmas that every transaction refines one; the locale \<open>notifier\<close> is the contract of the callbacks a repository method
    runs, interpreted on each of them.
  \<^item> \<open>Meetup_Inv\<close>, \<open>Meetup_Calm\<close>: what every move keeps. \<open>Meetup_World\<close>: the running module, its steps (the purge of
    an account's data names the account it is for) and reachable states.
  \<^item> \<open>Meetup_Facts\<close>, \<open>Meetup_Props\<close>, \<open>Meetup_Seats\<close>, \<open>Meetup_Handlers\<close>, \<open>Meetup_Samples\<close>: the events queued for
    billing, the properties, the refinement of the party at the door, the handlers as runs of steps, a concrete history.
  \<^item> \<open>Wiring\<close>: \<open>cmd/monolith/wiring.go\<close>, the billing service as the charger of a creation and the delivery of
    the meetup module's billing events; what a charged creation leaves in both modules.

  \<^bold>\<open>The theories of accounts.\<close>
  \<^item> \<open>Auth_Db\<close>, \<open>Auth_Users\<close>: the tables of the auth schema and the statements of \<open>auth/repository/sqlcgen\<close>;
    \<open>trustlevel.go\<close>, \<open>safetygate.go\<close>.
  \<^item> \<open>Auth_Accounts\<close>, \<open>Auth_Sessions\<close>, \<open>Auth_Codes\<close>: \<open>users_postgres.go\<close>, \<open>user_identities_postgres.go\<close>,
    \<open>companies_postgres.go\<close>; \<open>service_session.go\<close>, \<open>refresh_tokens_postgres.go\<close>, \<open>sweeper.go\<close>; \<open>otp.go\<close>,
    \<open>otp_budget.go\<close>, \<open>validate.go\<close>, \<open>verification_codes_postgres.go\<close>.
  \<^item> \<open>Auth_Verify\<close>, \<open>Auth_Signup\<close>: the handlers of \<open>verification.go\<close>, \<open>workemail.go\<close>; \<open>service_signup.go\<close>,
    \<open>service_email.go\<close>, \<open>identity_resolution.go\<close>, \<open>accountclaim.go\<close>, \<open>guest.go\<close>; \<open>auth_serve\<close> is the service.
  \<^item> \<open>Auth_Session_Facts\<close>, \<open>Auth_Code_Facts\<close>: refreshes and guesses as workers that run one statement at a time, in any
    interleaving; a token is exchanged once and never after it was spent (the history keeps every exchange in
    \<open>sw_exchanges\<close>), a code is guessed five times and spent once, a budget holds.
  \<^item> \<open>Auth_Facts\<close>, \<open>Auth_Trust\<close>: what every state of the accounts' tables keeps: the trust level a row earns, one
    account per identity. \<open>account_run\<close> and \<open>account_point\<close> (in \<open>Auth_Signup\<close>) are the program: requests served,
    and single repository calls of handlers that are still running, in any order; the trust level is stated over them.
    \<open>account_move\<close> is an abstraction every one of those calls is proved to refine, a proof device and no model of code.

  \<^bold>\<open>How state corresponds.\<close> A table is the list of its rows in insertion order; a query is a
  \<open>filter\<close> with the sort of its \<open>ORDER BY\<close>; a constraint a write would break makes the
  statement an error. \<open>tx\<close> is the Go struct \<open>Tx\<close> together with the database it writes to. An
  operation returns \<open>Inl\<close> an error, and the transaction is then rolled back by \<open>ledger_do_uuid\<close>, or \<open>Inr\<close> its
  answer and the new state. A transaction is one step: the row and advisory locks it takes exclude
  the transactions it could race with; where the auth module runs several statements without one, each statement is a
  step. Go's \<open>int64\<close> arithmetic wraps: \<open>i64\<close> is written wherever the code
  computes. The loops of the code that are not over a list (\<open>spendFrom\<close>, \<open>quotaWindowStart\<close>) are total
  functions with a termination proof; the poller's loop may run on while rows keep falling
  due, so \<open>drain_loop\<close> is a partial function whose end is proved; the batches of a
  retention sweep are bounded by the code's own fifty.

  \<^bold>\<open>Parameters.\<close> The clock, the UUIDs drawn, \<open>uuid.Parse\<close>, the JSON decoders, SHA-1 and SHA-256, the
  fingerprint of the auth module (the record \<open>env\<close>); the clients of the two stores and
  the flag service (\<open>store_env\<close>); the verification of a webhook's signature; for
  meetups, the ids each transaction draws, the distance between two points, JSON, the formats of floats and the
  geocoder (\<open>meetup_env\<close>, \<open>create_env\<close>), and whoever charges for a creation (\<open>charger\<close>); for accounts, the
  ids, tokens and codes drawn, the two hashes, the senders, the embedded domain lists, the answers of Apple, Google and
  LinkedIn, and the signature of a claim ticket (\<open>auth_env\<close>, \<open>otp_env\<close>, \<open>verify_env\<close>, \<open>signup_env\<close>).

  \<^bold>\<open>Not modelled.\<close> Of the meetup module: lists and profiles, the events
  published on the in-process bus after a commit (but for the one of a rating), and races inside one transaction. Of the auth module: trusted contacts and
  SOS, which another theory's tables would hold; photos beyond the path kept on the row; legal documents and locations;
  the access token, which a library signs; the outbox of deleted accounts, a third instance of the poller. The analytics
  and notification modules, which report and deliver; HTTP, gRPC and SQL drivers; connection failures; logging and
  metrics; generated protobuf code; the clients.
\<close>

end
